(* ===== verification/PyValue.thy ===== *)
theory PyValue
  imports Prelude
begin

text \<open>
  Values of Python's dynamic fragment, as JSON documents carry them: \<open>isinstance\<close> tests
  (a \<open>bool\<close> is an \<open>int\<close> to Python), truthiness, \<open>dict.get\<close> on insertion-ordered
  dictionaries, and \<open>json.dumps(sort_keys=True, separators=(",", ":"))\<close>.
  A float is carried by its \<open>repr\<close>, which is all that storing and printing it needs.
\<close>

datatype pyval =
    PNone
  | PBool bool
  | PInt int
  | PFloat string
  | PStr string
  | PList "pyval list"
  | PDict "(string \<times> pyval) list"

type_synonym pydict = "(string \<times> pyval) list"

section \<open>Type tests\<close>

fun is_int :: "pyval \<Rightarrow> bool" where \<comment> \<open>an \<open>int\<close> that is not a \<open>bool\<close>\<close>
  "is_int (PInt _) = True"
| "is_int _ = False"

fun is_int_or_bool :: "pyval \<Rightarrow> bool" where \<comment> \<open>\<open>isinstance(v, int)\<close>\<close>
  "is_int_or_bool (PInt _) = True"
| "is_int_or_bool (PBool _) = True"
| "is_int_or_bool _ = False"

fun is_str :: "pyval \<Rightarrow> bool" where
  "is_str (PStr _) = True"
| "is_str _ = False"

fun is_list :: "pyval \<Rightarrow> bool" where
  "is_list (PList _) = True"
| "is_list _ = False"

fun is_dict :: "pyval \<Rightarrow> bool" where
  "is_dict (PDict _) = True"
| "is_dict _ = False"

fun the_int :: "pyval \<Rightarrow> int" where \<comment> \<open>the value of an \<open>int\<close>, with \<open>True = 1\<close>\<close>
  "the_int (PInt i) = i"
| "the_int (PBool b) = of_bool b"
| "the_int _ = 0"

fun truthy :: "pyval \<Rightarrow> bool" where
  "truthy PNone = False"
| "truthy (PBool b) = b"
| "truthy (PInt i) = (i \<noteq> 0)"
| "truthy (PFloat s) = (s \<notin> {''0.0'', ''-0.0''})"
| "truthy (PStr s) = (s \<noteq> [])"
| "truthy (PList xs) = (xs \<noteq> [])"
| "truthy (PDict d) = (d \<noteq> [])"

lemma is_int_iff: "is_int v \<longleftrightarrow> (\<exists>i. v = PInt i)" by (cases v) auto
lemma is_str_iff: "is_str v \<longleftrightarrow> (\<exists>s. v = PStr s)" by (cases v) auto
lemma is_list_iff: "is_list v \<longleftrightarrow> (\<exists>xs. v = PList xs)" by (cases v) auto
lemma is_dict_iff: "is_dict v \<longleftrightarrow> (\<exists>d. v = PDict d)" by (cases v) auto

lemmas is_type_iff = is_int_iff is_str_iff is_list_iff is_dict_iff

fun ints_of :: "pyval list \<Rightarrow> int list" where \<comment> \<open>the entries that are genuine integers\<close>
  "ints_of [] = []"
| "ints_of (PInt i # vs) = i # ints_of vs"
| "ints_of (_ # vs) = ints_of vs"

fun strs_of :: "pyval list \<Rightarrow> string list" where \<comment> \<open>the entries that are non-empty strings\<close>
  "strs_of [] = []"
| "strs_of (PStr s # vs) = (if s = [] then strs_of vs else s # strs_of vs)"
| "strs_of (_ # vs) = strs_of vs"

lemma ints_of_PInt [simp]: "ints_of (map PInt xs) = xs"
  by (induction xs) auto

lemma ints_of_append [simp]: "ints_of (xs @ ys) = ints_of xs @ ints_of ys"
  by (induction xs rule: ints_of.induct) auto

lemma strs_of_append [simp]: "strs_of (xs @ ys) = strs_of xs @ strs_of ys"
  by (induction xs rule: strs_of.induct) auto

lemma strs_of_PStr [simp]: "[] \<notin> set xs \<Longrightarrow> strs_of (map PStr xs) = xs"
  by (induction xs) auto

lemma strs_of_nonempty [simp]: "[] \<notin> set (strs_of vs)"
  by (induction vs rule: strs_of.induct) auto

text \<open>\<open>int(s)\<close> of a string: surrounding whitespace, a sign, digits with single underscores
  between them. \<open>None\<close> is \<open>ValueError\<close>.\<close>

fun digit_groups :: "string \<Rightarrow> bool" where
  "digit_groups [] = False"
| "digit_groups [c] = is_digit c"
| "digit_groups (c # d # s) =
     (is_digit c \<and> (if d = CHR ''_'' then digit_groups s else digit_groups (d # s)))"

definition py_int :: "string \<Rightarrow> int option" where
  "py_int s =
     (let t = strip s;
          body = (if t \<noteq> [] \<and> (hd t = CHR ''-'' \<or> hd t = CHR ''+'') then tl t else t);
          n = int (nat_of_digits (filter is_digit body))
      in if digit_groups body then Some (if t \<noteq> [] \<and> hd t = CHR ''-'' then - n else n) else None)"

section \<open>Dictionaries\<close>

definition dget :: "pydict \<Rightarrow> string \<Rightarrow> pyval" where \<comment> \<open>\<open>d.get(k)\<close>\<close>
  "dget d k = (case map_of d k of None \<Rightarrow> PNone | Some v \<Rightarrow> v)"

definition dget_or :: "pydict \<Rightarrow> string \<Rightarrow> pyval \<Rightarrow> pyval" where \<comment> \<open>\<open>d.get(k, default)\<close>\<close>
  "dget_or d k v0 = (case map_of d k of None \<Rightarrow> v0 | Some v \<Rightarrow> v)"

abbreviation dset :: "string \<Rightarrow> pyval \<Rightarrow> pydict \<Rightarrow> pydict" where \<comment> \<open>\<open>d[k] = v\<close>\<close>
  "dset k v d \<equiv> AList.update k v d"

abbreviation dpop :: "string \<Rightarrow> pydict \<Rightarrow> pydict" where \<comment> \<open>\<open>d.pop(k, None)\<close>\<close>
  "dpop k d \<equiv> AList.delete k d"

fun dmerge :: "pydict \<Rightarrow> pydict \<Rightarrow> pydict" where \<comment> \<open>\<open>{**d, **e}\<close>, also \<open>d.update(e)\<close>\<close>
  "dmerge d [] = d"
| "dmerge d ((k, v) # e) = dmerge (dset k v d) e"

definition has_key :: "pydict \<Rightarrow> string \<Rightarrow> bool" where
  "has_key d k \<longleftrightarrow> map_of d k \<noteq> None"

lemma map_of_update: "map_of (AList.update k v d) = (map_of d)(k \<mapsto> v)"
  by (rule update_conv')

lemma map_of_delete: "map_of (AList.delete k d) = (map_of d)(k := None)"
  by (rule delete_conv')

lemma dget_dset [simp]: "dget (dset k v d) k' = (if k' = k then v else dget d k')"
  by (simp add: dget_def map_of_update)

lemma dget_or_dset [simp]: "dget_or (dset k v d) k' v0 = (if k' = k then v else dget_or d k' v0)"
  by (simp add: dget_or_def map_of_update)

lemma dget_dpop [simp]: "dget (dpop k d) k' = (if k' = k then PNone else dget d k')"
  by (simp add: dget_def map_of_delete)

lemma dset_same: "map_of d k = Some v \<Longrightarrow> dset k v d = d"
  by (induction d) (auto split: if_splits)

lemma has_key_dset [simp]: "has_key (dset k v d) k' \<longleftrightarrow> k' = k \<or> has_key d k'"
  by (simp add: has_key_def map_of_update)

lemma has_key_dpop [simp]: "has_key (dpop k d) k' \<longleftrightarrow> k' \<noteq> k \<and> has_key d k'"
  by (simp add: has_key_def map_of_delete)

lemma map_of_dmerge: "map_of (dmerge d e) = map_of d ++ map_of (rev e)"
proof (induction d e rule: dmerge.induct)
  case (2 d k v e)
  have "(map_of d)(k \<mapsto> v) ++ map_of (rev e) = map_of d ++ (map_of (rev e @ [(k, v)]))"
    by (rule ext) (auto simp: map_add_def split: option.splits)
  with 2 show ?case by (simp add: map_of_update fun_upd_def)
qed simp

lemma map_of_filter_distinct:
  "distinct (map fst d) \<Longrightarrow> map_of (filter P d) k =
     (case map_of d k of None \<Rightarrow> None | Some v \<Rightarrow> if P (k, v) then Some v else None)"
proof (induction d)
  case (Cons a d)
  moreover have "fst a \<notin> fst ` set d \<Longrightarrow> map_of d (fst a) = None" by (simp add: map_of_eq_None_iff)
  ultimately show ?case by (cases a) (auto split: option.splits)
qed simp

section \<open>JSON text\<close>

definition hex_digit :: "nat \<Rightarrow> char" where
  "hex_digit d = ''0123456789abcdef'' ! d"

definition hex_byte :: "nat \<Rightarrow> string" where
  "hex_byte n = [hex_digit (n div 16), hex_digit (n mod 16)]"

definition json_char :: "char \<Rightarrow> string" where
  "json_char c =
     (if c = CHR 0x22 then [CHR 0x5C, CHR 0x22]
      else if c = CHR 0x5C then [CHR 0x5C, CHR 0x5C]
      else if c = CHR 0x0A then [CHR 0x5C, CHR ''n'']
      else if c = CHR 0x0D then [CHR 0x5C, CHR ''r'']
      else if c = CHR 0x09 then [CHR 0x5C, CHR ''t'']
      else if c = CHR 0x08 then [CHR 0x5C, CHR ''b'']
      else if c = CHR 0x0C then [CHR 0x5C, CHR ''f'']
      else if CHR '' '' \<le> c \<and> c \<le> CHR ''~'' then [c]
      else [CHR 0x5C, CHR ''u'', CHR ''0'', CHR ''0''] @ hex_byte (of_char c))"

definition json_string :: "string \<Rightarrow> string" where
  "json_string s = [CHR 0x22] @ concat (map json_char s) @ [CHR 0x22]"

fun json_dumps :: "pyval \<Rightarrow> string" where
  "json_dumps PNone = ''null''"
| "json_dumps (PBool b) = (if b then ''true'' else ''false'')"
| "json_dumps (PInt i) = str_int i"
| "json_dumps (PFloat r) = r"
| "json_dumps (PStr s) = json_string s"
| "json_dumps (PList xs) = ''['' @ join '','' (map json_dumps xs) @ '']''"
| "json_dumps (PDict d) = ''{'' @ join '',''
     (map (\<lambda>(k, t). json_string k @ '':'' @ t)
       (sort_key fst (map (\<lambda>(k, v). (k, json_dumps v)) d))) @ ''}''"

section \<open>Equality of Python values\<close>

text \<open>Two values are equal when their plain forms are: numbers of equal value (\<open>True\<close> is 1, \<open>1.0\<close> is 1)
  and dictionaries regardless of order. Floats in exponent notation and \<open>nan\<close> are equal to themselves.\<close>

fun plain :: "pyval \<Rightarrow> pyval" where
  "plain PNone = PNone"
| "plain (PBool b) = PInt (of_bool b)"
| "plain (PInt i) = PInt i"
| "plain (PFloat s) = (if ends_with s ''.0'' then case py_int (take (length s - 2) s) of Some i \<Rightarrow> PInt i | None \<Rightarrow> PFloat s else PFloat s)"
| "plain (PStr s) = PStr s"
| "plain (PList xs) = PList (map plain xs)"
| "plain (PDict d) = PDict (sort_key fst (map (\<lambda>(k, v). (k, plain v)) d))"

end
