(* ===== verification/Sha256.thy ===== *)
theory Sha256
  imports PyValue "HOL-Library.Word"
begin

text \<open>
  \<open>str.encode("utf-8")\<close> and \<open>hashlib.sha256(...).hexdigest()\<close> of the standard library
  (FIPS 180-4). The identities that the modelled modules derive from a digest use only its
  shape, which the lemmas at the end give: 64 lower-case hexadecimal digits.
\<close>

unbundle bit_operations_syntax

type_synonym byte = "8 word"
type_synonym w32 = "32 word"

definition utf8_char :: "char \<Rightarrow> byte list" where
  "utf8_char c = (let n = (of_char c :: nat) in
     if n < 128 then [word_of_nat n]
     else [word_of_nat (192 + n div 64), word_of_nat (128 + n mod 64)])"

definition utf8 :: "string \<Rightarrow> byte list" where
  "utf8 s = concat (map utf8_char s)"

definition sha_k :: "w32 list" where
  "sha_k = [
   1116352408, 1899447441, 3049323471, 3921009573, 961987163, 1508970993, 2453635748,
   2870763221, 3624381080, 310598401, 607225278, 1426881987, 1925078388, 2162078206,
   2614888103, 3248222580, 3835390401, 4022224774, 264347078, 604807628, 770255983, 1249150122,
   1555081692, 1996064986, 2554220882, 2821834349, 2952996808, 3210313671, 3336571891,
   3584528711, 113926993, 338241895, 666307205, 773529912, 1294757372, 1396182291, 1695183700,
   1986661051, 2177026350, 2456956037, 2730485921, 2820302411, 3259730800, 3345764771,
   3516065817, 3600352804, 4094571909, 275423344, 430227734, 506948616, 659060556, 883997877,
   958139571, 1322822218, 1537002063, 1747873779, 1955562222, 2024104815, 2227730452,
   2361852424, 2428436474, 2756734187, 3204031479, 3329325298]"

definition sha_init :: "w32 list" where
  "sha_init = [
   1779033703, 3144134277, 1013904242, 2773480762, 1359893119, 2600822924, 528734635, 1541459225]"

definition rotr :: "nat \<Rightarrow> w32 \<Rightarrow> w32" where
  "rotr n w = (drop_bit n w OR push_bit (32 - n) w)"

definition small_sigma0 :: "w32 \<Rightarrow> w32" where
  "small_sigma0 x = (rotr 7 x XOR rotr 18 x XOR drop_bit 3 x)"

definition small_sigma1 :: "w32 \<Rightarrow> w32" where
  "small_sigma1 x = (rotr 17 x XOR rotr 19 x XOR drop_bit 10 x)"

definition big_sigma0 :: "w32 \<Rightarrow> w32" where
  "big_sigma0 x = (rotr 2 x XOR rotr 13 x XOR rotr 22 x)"

definition big_sigma1 :: "w32 \<Rightarrow> w32" where
  "big_sigma1 x = (rotr 6 x XOR rotr 11 x XOR rotr 25 x)"

definition extend_schedule :: "w32 list \<Rightarrow> w32 list" where
  "extend_schedule ws = (let t = length ws in
     ws @ [small_sigma1 (ws ! (t - 2)) + ws ! (t - 7) + small_sigma0 (ws ! (t - 15)) + ws ! (t - 16)])"

fun sha_round :: "w32 list \<Rightarrow> w32 \<times> w32 \<Rightarrow> w32 list" where
  "sha_round [a, b, c, d, e, f, g, h] (k, w) =
     (let t1 = h + big_sigma1 e + ((e AND f) XOR (NOT e AND g)) + k + w;
          t2 = big_sigma0 a + ((a AND b) XOR (a AND c) XOR (b AND c))
      in [t1 + t2, a, b, c, d + t1, e, f, g])"
| "sha_round st _ = st"

definition word_of_bytes :: "byte list \<Rightarrow> w32" where
  "word_of_bytes bs = foldl (\<lambda>w b. push_bit 8 w OR ucast b) 0 bs"

fun chunks :: "nat \<Rightarrow> 'a list \<Rightarrow> 'a list list" where
  "chunks n xs = (if n = 0 \<or> xs = [] then [] else take n xs # chunks n (drop n xs))"

declare chunks.simps [simp del]

definition sha_block :: "w32 list \<Rightarrow> byte list \<Rightarrow> w32 list" where
  "sha_block st block =
     (let ws = (extend_schedule ^^ 48) (map word_of_bytes (chunks 4 block))
      in map2 (+) st (foldl sha_round st (zip sha_k ws)))"

definition sha_pad :: "byte list \<Rightarrow> byte list" where
  "sha_pad m = (let n = length m; z = (119 - n mod 64) mod 64 in
     m @ [0x80] @ replicate z 0 @
     map (\<lambda>i. word_of_nat ((8 * n) div 256 ^ i mod 256)) (rev [0..<8]))"

definition bytes_of_word :: "w32 \<Rightarrow> byte list" where
  "bytes_of_word w = [ucast (drop_bit 24 w), ucast (drop_bit 16 w), ucast (drop_bit 8 w), ucast w]"

definition sha256 :: "byte list \<Rightarrow> byte list" where
  "sha256 m = concat (map bytes_of_word (foldl sha_block sha_init (chunks 64 (sha_pad m))))"

definition hexdigest :: "byte list \<Rightarrow> string" where
  "hexdigest bs = concat (map (\<lambda>b. hex_byte (unat b)) bs)"

definition sha256_hex :: "string \<Rightarrow> string" where
  "sha256_hex s = hexdigest (sha256 (utf8 s))"

section \<open>Shape of a digest\<close>

lemma length_map2_add [simp]: "length (map2 (+) xs ys) = min (length xs) (length ys)"
  by simp

lemma sha_round_length [simp]: "length (sha_round st kw) = length st"
  by (induction st kw rule: sha_round.induct) (auto simp: Let_def)

lemma foldl_sha_round_length [simp]: "length (foldl sha_round st kws) = length st"
  by (induction kws arbitrary: st) simp_all

lemma sha_block_length [simp]: "length (sha_block st b) = length st"
  by (simp add: sha_block_def Let_def)

lemma foldl_sha_block_length [simp]: "length (foldl sha_block st bs) = length st"
  by (induction bs arbitrary: st) simp_all

lemma length_concat_const: "(\<And>x. x \<in> set xs \<Longrightarrow> length (f x) = n) \<Longrightarrow> length (concat (map f xs)) = n * length xs"
  by (induction xs) auto

lemma sha256_length [simp]: "length (sha256 m) = 32"
  by (simp add: sha256_def length_concat_const [where n = 4] bytes_of_word_def sha_init_def)

lemma hex_digit_lower [simp]: "d < 16 \<Longrightarrow> is_lower_hex (hex_digit d)"
  unfolding is_lower_hex_def hex_digit_def by (rule nth_mem) simp

lemma hex_byte_chars: "n < 256 \<Longrightarrow> c \<in> set (hex_byte n) \<Longrightarrow> is_lower_hex c"
  by (auto simp: hex_byte_def)

lemma hexdigest_chars: "c \<in> set (hexdigest bs) \<Longrightarrow> is_lower_hex c"
proof -
  assume "c \<in> set (hexdigest bs)"
  then obtain b where "c \<in> set (hex_byte (unat (b :: byte)))" by (auto simp: hexdigest_def)
  moreover have "unat b < 256" using unsigned_less [of b] by simp
  ultimately show ?thesis by (blast intro: hex_byte_chars)
qed

lemma sha256_hex_length [simp]: "length (sha256_hex s) = 64"
  by (simp add: sha256_hex_def hexdigest_def length_concat_const [where n = 2] hex_byte_def)

lemma sha256_hex_chars: "c \<in> set (sha256_hex s) \<Longrightarrow> is_lower_hex c"
  by (simp add: sha256_hex_def hexdigest_chars)

lemma sha256_hex_take_chars: "c \<in> set (take n (sha256_hex s)) \<Longrightarrow> is_lower_hex c"
  by (meson in_set_takeD sha256_hex_chars)

end
