(* ===== verification/Command_Identity.thy ===== *)
theory Command_Identity
  imports Sha256
begin

text \<open>
  Identity of native commands, from \<open>doom_eap/contracts/command_publication.py\<close>: which
  strings may name one file of the command queue, the identifiers derived from a digest of
  the logical components of a command, the namespace of a room, the materialization epoch.
\<close>

section \<open>Vocabulary of the command spool\<close>

definition EXECUTION_CLASS_HEADER :: string where
  "EXECUTION_CLASS_HEADER = ''AP_EXECUTION_CLASS_V1''"

definition PLAYER_RUNTIME :: string where "PLAYER_RUNTIME = ''PLAYER_RUNTIME''"
definition MAP_ENTITY_SAFE :: string where "MAP_ENTITY_SAFE = ''MAP_ENTITY_SAFE''"
definition TRANSIENT_EFFECT :: string where "TRANSIENT_EFFECT = ''TRANSIENT_EFFECT''"

definition TRANSIENT_SCOPE_HEADER :: string where
  "TRANSIENT_SCOPE_HEADER = ''AP_TRANSIENT_SCOPE_V1''"

definition VALID_EXECUTION_CLASSES :: "string list" where
  "VALID_EXECUTION_CLASSES = [PLAYER_RUNTIME, MAP_ENTITY_SAFE, TRANSIENT_EFFECT]"

definition MAP_ENTITY_OPERATION_HEADER :: string where
  "MAP_ENTITY_OPERATION_HEADER = ''AP_MAP_ENTITY_OPERATION_V1''"

definition VALID_MAP_ENTITY_OPERATIONS :: "string list" where
  "VALID_MAP_ENTITY_OPERATIONS = [''CHECKED_VISUAL_HIDE'', ''FAST_TRAVEL_UNLOCK'', ''FORTRESS_LAYER'']"

definition MATERIALIZATION_LEASE_HEADER :: string where
  "MATERIALIZATION_LEASE_HEADER = ''AP_MATERIALIZATION_LEASE_V1''"

definition SPOOL_ID_MAX_BYTES :: nat where "SPOOL_ID_MAX_BYTES = 128"
definition SPOOL_ID_HASH_HEX_LENGTH :: nat where "SPOOL_ID_HASH_HEX_LENGTH = 20"

definition windows_illegal_chars :: "char list" where
  "windows_illegal_chars = [CHR ''<'', CHR ''>'', CHR '':'', CHR 0x22, CHR ''|'', CHR ''?'', CHR ''*'']"

definition windows_reserved_names :: "string list" where
  "windows_reserved_names = [''CON'', ''PRN'', ''AUX'', ''NUL'']
     @ map (\<lambda>i. ''COM'' @ str_nat i) [1..<10] @ map (\<lambda>i. ''LPT'' @ str_nat i) [1..<10]"

datatype command_evidence = PLANNED | SPOOL_PRESENT | DURABLY_PUBLISHED | CLAIMED
  | EFFECT_UNKNOWN | CONSUMED_UNVERIFIED | GAMEPLAY_VERIFIED

record publication_result =
  accepted :: bool
  evidence :: command_evidence
  published_id :: "string option"

section \<open>Materialization epochs\<close>

text \<open>\<open>re.fullmatch(r"[0-9]+:[0-9]+", value)\<close>.\<close>

definition epoch_text :: "string \<Rightarrow> bool" where
  "epoch_text s = (let a = takeWhile is_digit s; b = drop (length a) s in
     a \<noteq> [] \<and> (case b of [] \<Rightarrow> False
       | c # d \<Rightarrow> c = CHR '':'' \<and> d \<noteq> [] \<and> list_all is_digit d))"

definition valid_materialization_epoch :: "pyval \<Rightarrow> bool" where
  "valid_materialization_epoch v = (case v of PStr s \<Rightarrow> epoch_text s | _ \<Rightarrow> False)"

definition build_materialization_epoch :: "pyval \<Rightarrow> pyval \<Rightarrow> string option" where
  "build_materialization_epoch native_epoch marker_mtime_ns =
     (if \<not> is_int native_epoch \<or> \<not> is_int marker_mtime_ns
         \<or> the_int native_epoch < 0 \<or> the_int marker_mtime_ns < 0
      then None
      else Some (str_int (the_int native_epoch) @ '':'' @ str_int (the_int marker_mtime_ns)))"

section \<open>Spool identifiers\<close>

definition windows_stem :: "string \<Rightarrow> string" where
  "windows_stem s = ascii_upper (takeWhile (\<lambda>c. c \<noteq> CHR ''.'') s)"

definition control_char :: "char \<Rightarrow> bool" where
  "control_char c \<longleftrightarrow> (of_char c :: nat) < 32 \<or> (of_char c :: nat) = 127"

definition validate_spool_id :: "pyval \<Rightarrow> string res" where
  "validate_spool_id v =
     (case v of
        PStr s \<Rightarrow>
          (if s = [] then Inl (ValueError ''spool command ID must be a non-empty string'')
           else if length (utf8 s) > SPOOL_ID_MAX_BYTES
           then Inl (ValueError ''spool command ID exceeds 128 UTF-8 bytes'')
           else if list_ex (\<lambda>c. c = CHR ''/'' \<or> c = CHR 0x5C) s
           then Inl (ValueError ''spool command ID contains a path separator'')
           else if list_ex control_char s
           then Inl (ValueError ''spool command ID contains a control character'')
           else if list_ex (\<lambda>c. c \<in> set windows_illegal_chars) s
           then Inl (ValueError ''spool command ID contains a Windows-illegal character'')
           else if ends_with s ''.'' \<or> ends_with s '' ''
           then Inl (ValueError ''spool command ID has a Windows-illegal trailing character'')
           else if s \<in> {''.'', ''..''}
           then Inl (ValueError ''spool command ID is a traversal component'')
           else if windows_stem s \<in> set windows_reserved_names
           then Inl (ValueError ''spool command ID is a Windows-reserved device name'')
           else Inr s)
      | _ \<Rightarrow> Inl (ValueError ''spool command ID must be a non-empty string''))"

text \<open>\<open>allow_nan=False\<close>: a non-finite float anywhere in the value is refused.\<close>

fun json_finite :: "pyval \<Rightarrow> bool" where
  "json_finite (PFloat r) = (r \<notin> {''nan'', ''inf'', ''-inf''})"
| "json_finite (PList xs) = (\<forall>x \<in> set xs. json_finite x)"
| "json_finite (PDict d) = (\<forall>(k, x) \<in> set d. json_finite x)"
| "json_finite _ = True"

definition stable_spool_id :: "string \<Rightarrow> pyval list \<Rightarrow> string res" where
  "stable_spool_id prfx logical_components =
     bind_res (validate_spool_id (PStr prfx)) (\<lambda>_.
       if \<not> json_finite (PList logical_components)
       then Inl (ValueError ''Out of range float values are not JSON compliant'')
       else validate_spool_id (PStr (prfx @ ''-'' @ take SPOOL_ID_HASH_HEX_LENGTH
              (sha256_hex (json_dumps (PList logical_components))))))"

definition queue_session_namespace :: "pyval \<Rightarrow> string option" where
  "queue_session_namespace state_key =
     (case state_key of PStr s \<Rightarrow> if s = [] then None else Some (take 16 (sha256_hex s)) | _ \<Rightarrow> None)"

section \<open>Epochs: every built epoch is valid and identifies its two parts\<close>

lemma epoch_text_build:
  assumes "0 \<le> i" and "0 \<le> j"
  shows "epoch_text (str_int i @ '':'' @ str_int j)"
proof -
  have "str_int i = str_nat (nat i)" "str_int j = str_nat (nat j)"
    using assms by (simp_all add: str_int_def)
  moreover have "\<forall>c \<in> set (str_nat n). is_digit c" for n using str_nat_digits by blast
  moreover have "\<not> is_digit CHR '':''" by (simp add: is_digit_def)
  ultimately show ?thesis
    by (simp add: epoch_text_def takeWhile_append list_all_iff Let_def)
qed

lemma build_epoch_cases:
  "build_materialization_epoch n m = Some e \<longleftrightarrow>
     (\<exists>i j. n = PInt i \<and> m = PInt j \<and> 0 \<le> i \<and> 0 \<le> j \<and> e = str_int i @ '':'' @ str_int j)"
  by (auto simp: build_materialization_epoch_def is_int_iff)

lemma colon_not_in_str_int: "CHR '':'' \<notin> set (str_int i)"
  using str_int_chars by (force simp: is_digit_def)

lemma build_epoch_inject:
  assumes "build_materialization_epoch n m = Some e" and "build_materialization_epoch n' m' = Some e"
  shows "n = n' \<and> m = m'"
proof -
  obtain i j i' j' where
    eqs: "n = PInt i" "m = PInt j" "n' = PInt i'" "m' = PInt j'"
    "str_int i @ CHR '':'' # str_int j = str_int i' @ CHR '':'' # str_int j'"
    using assms by (auto simp: build_epoch_cases)
  from append_sep_cancel [OF colon_not_in_str_int colon_not_in_str_int eqs(5)] eqs
  show ?thesis by simp
qed

section \<open>What a validated identifier guarantees\<close>

lemma validate_spool_id_InrD:
  assumes "validate_spool_id v = Inr s"
  shows "v = PStr s" "s \<noteq> []" "length (utf8 s) \<le> SPOOL_ID_MAX_BYTES"
    "CHR ''/'' \<notin> set s" "CHR 0x5C \<notin> set s" "\<not> list_ex control_char s"
    "\<not> list_ex (\<lambda>c. c \<in> set windows_illegal_chars) s"
    "\<not> ends_with s ''.''" "\<not> ends_with s '' ''" "windows_stem s \<notin> set windows_reserved_names"
  using assms
  by (auto simp: validate_spool_id_def list_ex_iff split: pyval.splits if_splits)

lemma validate_spool_id_cong:
  assumes "validate_spool_id (PStr s) = Inr t"
  shows "t = s"
  using validate_spool_id_InrD(1) [OF assms] by simp

text \<open>The traversal check of \<^verbatim>\<open>.\<close> and \<^verbatim>\<open>..\<close> is never reached: both end with a dot.\<close>

lemma traversal_branch_dead:
  "validate_spool_id v \<noteq> Inl (ValueError ''spool command ID is a traversal component'')"
  by (auto simp: validate_spool_id_def ends_with_def starts_with_def split: pyval.splits)

lemma utf8_append [simp]: "utf8 (s @ t) = utf8 s @ utf8 t"
  by (simp add: utf8_def)

definition plain_char :: "char \<Rightarrow> bool" where
  "plain_char c \<longleftrightarrow> c \<in> set ''0123456789abcdefghijklmnopqrstuvwxyz-''"

lemma plain_char_cases:
  assumes "plain_char c"
  shows "length (utf8_char c) = 1" "\<not> control_char c" "c \<noteq> CHR ''/''" "c \<noteq> CHR 0x5C"
    "c \<notin> set windows_illegal_chars" "c \<noteq> CHR ''.''" "c \<noteq> CHR '' ''"
  using assms
  by (auto simp: plain_char_def utf8_char_def control_char_def windows_illegal_chars_def)

lemma lower_hex_plain: "is_lower_hex c \<Longrightarrow> plain_char c"
  by (auto simp: is_lower_hex_def plain_char_def)

lemma length_utf8_plain: "list_all plain_char s \<Longrightarrow> length (utf8 s) = length s"
  by (induction s) (simp_all add: utf8_def plain_char_cases(1))

lemma ends_with_single: "s \<noteq> [] \<Longrightarrow> ends_with s [c] \<longleftrightarrow> last s = c"
  by (cases s rule: rev_cases) (auto simp: ends_with_def starts_with_def)

lemma reserved_no_dash: "n \<in> set windows_reserved_names \<Longrightarrow> CHR ''-'' \<notin> set n"
  using str_nat_no_minus by (auto simp: windows_reserved_names_def)

lemma ascii_upper_dash: "CHR ''-'' \<in> set s \<Longrightarrow> CHR ''-'' \<in> set (ascii_upper s)"
  by (force simp: ascii_upper_def)

lemma windows_stem_extend:
  assumes "windows_stem s \<notin> set windows_reserved_names"
  shows "windows_stem (s @ ''-'' @ t) \<notin> set windows_reserved_names"
proof (cases "CHR ''.'' \<in> set s")
  case True
  then have "takeWhile (\<lambda>c. c \<noteq> CHR ''.'') (s @ ''-'' @ t) = takeWhile (\<lambda>c. c \<noteq> CHR ''.'') s"
    by (simp add: takeWhile_append1)
  with assms show ?thesis by (simp add: windows_stem_def)
next
  case False
  then have "CHR ''-'' \<in> set (takeWhile (\<lambda>c. c \<noteq> CHR ''.'') (s @ ''-'' @ t))"
    by (subst takeWhile_append2) auto
  then have "CHR ''-'' \<in> set (windows_stem (s @ ''-'' @ t))"
    unfolding windows_stem_def by (rule ascii_upper_dash)
  with reserved_no_dash show ?thesis by blast
qed

lemma validate_extend_plain:
  assumes valid: "validate_spool_id (PStr p) = Inr p"
    and plain: "list_all plain_char h" "h \<noteq> []"
    and len: "length (utf8 p) + 1 + length h \<le> SPOOL_ID_MAX_BYTES"
  shows "validate_spool_id (PStr (p @ ''-'' @ h)) = Inr (p @ ''-'' @ h)"
proof -
  let ?s = "p @ ''-'' @ h"
  note p = validate_spool_id_InrD [OF valid]
  have h: "\<And>c. c \<in> set h \<Longrightarrow> plain_char c" using plain(1) by (simp add: list_all_iff)
  have dash: "\<not> control_char CHR ''-''" "CHR ''-'' \<notin> set windows_illegal_chars"
    by (simp_all add: control_char_def windows_illegal_chars_def)
  have bytes: "length (utf8 ?s) \<le> SPOOL_ID_MAX_BYTES"
    using len length_utf8_plain [OF plain(1)] by (simp add: utf8_def utf8_char_def)
  have "plain_char (last ?s)" using h plain(2) by simp
  then have ends: "\<not> ends_with ?s ''.''" "\<not> ends_with ?s '' ''"
    by (simp_all add: ends_with_single plain_char_cases(6,7))
  have chars: "\<not> list_ex (\<lambda>c. c = CHR ''/'' \<or> c = CHR 0x5C) ?s" "\<not> list_ex control_char ?s"
    "\<not> list_ex (\<lambda>c. c \<in> set windows_illegal_chars) ?s"
    using p(4-7) dash h plain_char_cases(2,5) by (auto simp: list_ex_iff dest: plain_char_cases(3,4))
  have "\<not> ends_with t ''.'' \<Longrightarrow> t \<notin> {''.'', ''..''}" for t
    by (auto simp: ends_with_def starts_with_def)
  from this [OF ends(1)] have "?s \<notin> {''.'', ''..''}" .
  with bytes ends chars windows_stem_extend [OF p(10), of h] p(2) show ?thesis
    by (simp add: validate_spool_id_def)
qed

lemma list_all_hex_plain: "list_all is_lower_hex h \<Longrightarrow> list_all plain_char h"
  by (auto simp: list_all_iff lower_hex_plain)

lemmas validate_extend_hex = validate_extend_plain [OF _ list_all_hex_plain]
lemmas length_utf8_lower_hex = length_utf8_plain [OF list_all_hex_plain]

lemma digest_suffix:
  "list_all is_lower_hex (take n (sha256_hex s))"
  "length (take 20 (sha256_hex s)) = 20" "length (take 16 (sha256_hex s)) = 16"
  using sha256_hex_take_chars by (auto simp: list_all_iff)

section \<open>Properties\<close>

text \<open>A materialization epoch built from two native integers is exactly the text
  the validator of leases accepts, is built only from non-negative integers that are not
  booleans, and determines both of them: two native epochs never share a lease.\<close>

theorem epoch_roundtrip:
  assumes "build_materialization_epoch native_epoch mtime = Some e"
  shows "valid_materialization_epoch (PStr e) \<and>
    (\<exists>i \<ge> 0. \<exists>j \<ge> 0. native_epoch = PInt i \<and> mtime = PInt j) \<and>
    (\<forall>n m. build_materialization_epoch n m = Some e \<longrightarrow> n = native_epoch \<and> m = mtime)"
proof -
  obtain i j where "native_epoch = PInt i" "mtime = PInt j" "0 \<le> i" "0 \<le> j"
    and e: "e = str_int i @ '':'' @ str_int j"
    using assms unfolding build_epoch_cases by blast
  moreover from this have "valid_materialization_epoch (PStr e)"
    by (simp add: valid_materialization_epoch_def epoch_text_build del: append.simps)
  ultimately show ?thesis using build_epoch_inject [OF _ assms] by blast
qed

theorem epoch_roundtrip_witness:
  "build_materialization_epoch (PInt 3) (PInt 41) = Some ''3:41'' \<and>
   valid_materialization_epoch (PStr ''3:41'')"
proof -
  have eval: "build_materialization_epoch (PInt 3) (PInt 41) = Some ''3:41''"
    by (simp add: build_materialization_epoch_def str_int_def str_nat.simps digit_char_def)
  from epoch_roundtrip [OF this] eval show ?thesis by blast
qed

lemma stable_spool_id_valid_id:
  assumes valid: "validate_spool_id (PStr p) = Inr p"
    and short: "length (utf8 p) \<le> 107"
    and finite: "json_finite (PList cs)"
  shows "\<exists>h. stable_spool_id p cs = Inr (p @ ''-'' @ h) \<and>
    h = take 20 (sha256_hex (json_dumps (PList cs))) \<and> length h = 20 \<and> list_all is_lower_hex h \<and>
    validate_spool_id (PStr (p @ ''-'' @ h)) = Inr (p @ ''-'' @ h)"
proof -
  let ?h = "take 20 (sha256_hex (json_dumps (PList cs)))"
  have nonempty: "?h \<noteq> []" using digest_suffix(2) [of "json_dumps (PList cs)"]
    by (metis list.size(3) zero_neq_numeral)
  have "length (utf8 p) + 1 + length ?h \<le> SPOOL_ID_MAX_BYTES"
    using short by (simp add: SPOOL_ID_MAX_BYTES_def)
  from validate_extend_hex [OF valid digest_suffix(1) nonempty this] digest_suffix valid finite
  show ?thesis
    by (simp add: stable_spool_id_def SPOOL_ID_HASH_HEX_LENGTH_def del: json_finite.simps)
qed

text \<open>The stable identifier of a logical command exists for every valid prefix of
  at most 107 UTF-8 bytes and finite components: it is the prefix, a dash and twenty
  lower-case hexadecimal digits of the digest of the components, and it is itself a valid
  spool identifier, so publishing under it is never refused for its name.\<close>

theorem stable_spool_id_valid:
  assumes valid: "validate_spool_id (PStr p) = Inr p"
    and short: "length (utf8 p) \<le> 107"
    and finite: "json_finite (PList cs)"
  shows "\<exists>h. stable_spool_id p cs = Inr (p @ ''-'' @ h) \<and>
    h = take 20 (sha256_hex (json_dumps (PList cs))) \<and> length h = 20 \<and> list_all is_lower_hex h \<and>
    validate_spool_id (PStr (p @ ''-'' @ h)) = Inr (p @ ''-'' @ h)"
  using stable_spool_id_valid_id [OF assms] .

theorem stable_spool_id_valid_witness:
  "\<exists>h. stable_spool_id ''item'' [PInt 7, PStr ''room''] = Inr (''item-'' @ h) \<and> length h = 20"
proof -
  have v: "validate_spool_id (PStr ''item'') = Inr ''item''" by code_simp
  have l: "length (utf8 ''item'') \<le> 107" by code_simp
  from stable_spool_id_valid [OF v l, of "[PInt 7, PStr ''room'']"] show ?thesis by force
qed

end
