(* ===== verification/Command_Port.thy ===== *)
theory Command_Port
  imports Prelude
begin

text \<open>
  The interface between the parts of the client that publish native commands and the command
  spool: \<open>send\<close> offers a command under an identifier and answers whether it is (or already
  was) queued, \<open>pending\<close> says whether a command of that identifier is waiting, \<open>ready\<close> is the
  condition under which the spool promises anything. The clients are written over the port;
  the spool of \<open>runtime/command_spool.py\<close> provides it.
\<close>

text \<open>The loop of \<open>ReconciliationPublisher.publish\<close>: commands in order, up to a refusal, whose
  identifier it reports.\<close>

fun publish_commands :: "('w \<Rightarrow> string \<Rightarrow> string \<Rightarrow> 'w \<times> bool) \<Rightarrow> 'w \<Rightarrow> (string \<times> string) list
    \<Rightarrow> 'w \<times> string option" where
  "publish_commands send w [] = (w, None)"
| "publish_commands send w ((i, c) # cs) =
     (case send w c i of (w', ok) \<Rightarrow> if ok then publish_commands send w' cs else (w', Some i))"

text \<open>\<open>canonical\<close> is the name under which the spool files an identifier: two identifiers with
  one canonical name are one command. The laws are for the identifiers \<open>usable\<close> as keys.\<close>

locale publication_port =
  fixes send :: "'w \<Rightarrow> string \<Rightarrow> string \<Rightarrow> 'w \<times> bool"
    and pending :: "'w \<Rightarrow> string \<Rightarrow> bool"
    and ready :: "'w \<Rightarrow> bool"
    and usable :: "string \<Rightarrow> bool"
    and canonical :: "string \<Rightarrow> string"
  assumes ready_send: "ready w \<Longrightarrow> usable i \<Longrightarrow> ready (fst (send w c i))"
    and pending_mono: "ready w \<Longrightarrow> usable i \<Longrightarrow> pending w j \<Longrightarrow> pending (fst (send w c i)) j"
    and pending_accepted: "ready w \<Longrightarrow> usable i \<Longrightarrow> snd (send w c i) \<Longrightarrow> pending (fst (send w c i)) i"
    and pending_frame: "ready w \<Longrightarrow> usable i \<Longrightarrow> canonical j \<noteq> canonical i \<Longrightarrow>
      pending (fst (send w c i)) j \<Longrightarrow> pending w j"
    and send_again: "ready w \<Longrightarrow> usable i \<Longrightarrow> pending w i \<Longrightarrow> snd (send w c i)"
begin

lemma send_cases:
  assumes "ready w" and "usable i" and "send w c i = (w', ok)"
  shows "ready w'" "pending w j \<Longrightarrow> pending w' j" "ok \<Longrightarrow> pending w' i"
    "canonical j \<noteq> canonical i \<Longrightarrow> pending w' j \<Longrightarrow> pending w j" "pending w i \<Longrightarrow> ok"
  using assms ready_send [of w i c] pending_mono [of w i j c] pending_accepted [of w i c]
    pending_frame [of w i j c] send_again [of w i c] by auto

lemma publish_ready_mono:
  assumes "ready w" and "\<forall>i \<in> fst ` set cs. usable i" and "publish_commands send w cs = (w', r)"
  shows "ready w' \<and> (pending w j \<longrightarrow> pending w' j)"
  using assms
proof (induction cs arbitrary: w)
  case (Cons a cs)
  obtain k c where a: "a = (k, c)" by (cases a)
  obtain w1 ok where s: "send w c k = (w1, ok)" by (cases "send w c k")
  from Cons.prems(2) a have "usable k" by simp
  note w1 = send_cases [OF Cons.prems(1) this s]
  show ?case
  proof (cases ok)
    case True
    with Cons.prems a s have "publish_commands send w1 cs = (w', r)" by simp
    with Cons.IH [OF w1(1)] Cons.prems(2) w1(2) show ?thesis by simp
  next
    case False
    with Cons.prems(3) a s w1(1,2) show ?thesis by simp
  qed
qed simp

text \<open>Acceptance of the whole plan means that every command of it is queued.\<close>

lemma publish_all_pending:
  assumes "ready w" and "\<forall>i \<in> fst ` set cs. usable i"
    and "publish_commands send w cs = (w', None)" and "i \<in> fst ` set cs"
  shows "pending w' i"
  using assms
proof (induction cs arbitrary: w)
  case (Cons a cs)
  obtain k c where a: "a = (k, c)" by (cases a)
  obtain w1 ok where s: "send w c k = (w1, ok)" by (cases "send w c k")
  from Cons.prems(3) a s have ok: "ok" and rest: "publish_commands send w1 cs = (w', None)"
    by (auto split: if_splits)
  from Cons.prems(2) a have "usable k" by simp
  note w1 = send_cases [OF Cons.prems(1) this s]
  from Cons.prems(2) have us: "\<forall>i \<in> fst ` set cs. usable i" by simp
  show ?case
  proof (cases "i = k")
    case True
    with publish_ready_mono [OF w1(1) us rest] w1(3) [OF ok] show ?thesis by simp
  next
    case False
    with Cons.prems(4) a have "i \<in> fst ` set cs" by auto
    with Cons.IH [OF w1(1) us rest] show ?thesis by simp
  qed
qed simp

text \<open>Nothing but the plan's identifiers is queued by it.\<close>

lemma publish_frame:
  assumes "ready w" and "\<forall>i \<in> fst ` set cs. usable i" and "publish_commands send w cs = (w', r)"
    and "canonical j \<notin> canonical ` fst ` set cs" and "pending w' j"
  shows "pending w j"
  using assms
proof (induction cs arbitrary: w)
  case (Cons a cs)
  obtain k c where a: "a = (k, c)" by (cases a)
  obtain w1 ok where s: "send w c k = (w1, ok)" by (cases "send w c k")
  from Cons.prems(2) a have "usable k" by simp
  note w1 = send_cases [OF Cons.prems(1) this s]
  from Cons.prems(4) a have j: "canonical j \<noteq> canonical k" "canonical j \<notin> canonical ` fst ` set cs"
    by auto
  have "pending w1 j"
  proof (cases ok)
    case True
    with Cons.prems a s have "publish_commands send w1 cs = (w', r)" by simp
    from Cons.IH [OF w1(1) _ this j(2) Cons.prems(5)] Cons.prems(2) show ?thesis by simp
  next
    case False
    with Cons.prems(3,5) a s show ?thesis by simp
  qed
  with w1(4) [OF j(1)] show ?case .
qed simp

text \<open>A plan whose commands are all queued is accepted again: rerunning it is safe.\<close>

lemma publish_again:
  assumes "ready w" and "\<forall>i \<in> fst ` set cs. usable i" and "\<forall>i \<in> fst ` set cs. pending w i"
  shows "snd (publish_commands send w cs) = None"
  using assms
proof (induction cs arbitrary: w)
  case (Cons a cs)
  obtain k c where a: "a = (k, c)" by (cases a)
  obtain w1 ok where s: "send w c k = (w1, ok)" by (cases "send w c k")
  from Cons.prems(2) a have "usable k" by simp
  note w1 = send_cases [OF Cons.prems(1) this s]
  from Cons.prems(3) a w1(5) have "ok" by simp
  moreover have "snd (publish_commands send w1 cs) = None"
    by (rule Cons.IH [OF w1(1)]) (use Cons.prems(2,3) w1(2) in auto)
  ultimately show ?case using a s by simp
qed simp

end

end
