(* ===== verification/Command_Spool.thy ===== *)
theory Command_Spool
  imports Command_Identity Command_Port
begin

text \<open>
  The file spool of \<open>doom_eap/runtime/command_spool.py\<close>. The queue directory is a map from
  file names to contents; the native consumer may change it between any two looks of the
  producer, and each system call of \<open>publish\<close> may fail, as the environment of a call says.
  Wall-clock time, the random part of names and the logger are outside: fresh names are
  parameters of the environment, logger calls are left out.
\<close>

type_synonym dir = "string \<Rightarrow> string option"

record spool_world =
  files :: dir
  arms :: nat \<comment> \<open>calls of \<open>arm_rpc(True)\<close>\<close>
  delivery_log :: "(string \<times> string \<times> string) list" \<comment> \<open>event, command ID, reason\<close>

abbreviation cmd_file :: "string \<Rightarrow> string" where "cmd_file i \<equiv> i @ ''.cmd''"
abbreviation processing_file :: "string \<Rightarrow> string" where "processing_file i \<equiv> i @ ''.processing''"
abbreviation failed_file :: "string \<Rightarrow> string" where "failed_file i \<equiv> i @ ''.failed''"

definition has_file :: "dir \<Rightarrow> string \<Rightarrow> bool" where
  "has_file d f \<longleftrightarrow> d f \<noteq> None"

definition remove_file :: "string \<Rightarrow> dir \<Rightarrow> dir" where
  "remove_file f d = d(f := None)"

section \<open>Small operations\<close>

definition discard_unclaimed_command :: "dir \<Rightarrow> string \<Rightarrow> dir \<times> bool" where
  "discard_unclaimed_command d coalesce_key =
     (if has_file d (cmd_file coalesce_key) then (remove_file (cmd_file coalesce_key) d, True)
      else (d, False))"

text \<open>\<open>os.replace(source, target)\<close> of one v1 file, unless it is missing or the call fails.\<close>

definition quarantine_one :: "(string \<Rightarrow> bool) \<Rightarrow> string \<Rightarrow> string \<Rightarrow> dir \<Rightarrow> dir \<times> bool" where
  "quarantine_one fails stem sfx d =
     (case d (stem @ sfx) of
        None \<Rightarrow> (d, False)
      | Some content \<Rightarrow>
         (if fails (stem @ sfx) then (d, False)
          else ((remove_file (stem @ sfx) d)(stem @ ''.quarantined'' \<mapsto> content), True)))"

fun quarantine_bootstrap :: "(string \<Rightarrow> bool) \<Rightarrow> dir \<Rightarrow> string list \<Rightarrow> dir \<times> string list" where
  "quarantine_bootstrap fails d [] = (d, [])"
| "quarantine_bootstrap fails d (a # as) =
     (let stem = ''bootstrap-v1-'' @ a in
      case quarantine_one fails stem ''.cmd'' d of (d1, q1) \<Rightarrow>
      case quarantine_one fails stem ''.processing'' d1 of (d2, q2) \<Rightarrow>
      case quarantine_bootstrap fails d2 as of (d3, names) \<Rightarrow>
        (d3, (if q1 then [a] else []) @ (if q2 then [a] else []) @ names))"

definition namespace_marker :: string where
  "namespace_marker = ''active_session_namespace''"

definition active_namespace :: "dir \<Rightarrow> string option" where
  "active_namespace d =
     (case d namespace_marker of
        None \<Rightarrow> None
      | Some text \<Rightarrow>
         (if list_ex (\<lambda>c. (of_char c :: nat) \<ge> 128) text then None
          else let v = strip text in
            if length v = 16 \<and> list_all is_lower_hex v then Some v else None))"

definition recv_prefix :: "string \<Rightarrow> string" where
  "recv_prefix ns = ''recv-'' @ ns @ ''-''"

definition scoped_id :: "dir \<Rightarrow> string \<Rightarrow> string option \<Rightarrow> string" where
  "scoped_id d command_id state_key =
     (let ns0 = (case state_key of None \<Rightarrow> None | Some k \<Rightarrow>
                   if k = [] then None else queue_session_namespace (PStr k));
          ns = (case ns0 of None \<Rightarrow> active_namespace d | Some n \<Rightarrow> Some n)
      in case ns of None \<Rightarrow> command_id
         | Some n \<Rightarrow> (let prfx = recv_prefix n in
             if starts_with command_id prfx then command_id else prfx @ command_id))"

definition exists_command :: "dir \<Rightarrow> string \<Rightarrow> string option \<Rightarrow> bool \<Rightarrow> bool res" where
  "exists_command d command_id state_key room_scoped =
     (let cid = (if room_scoped then scoped_id d command_id state_key else command_id) in
      bind_res (validate_spool_id (PStr cid)) (\<lambda>_.
        Inr (has_file d (failed_file cid) \<or> has_file d (cmd_file cid)
             \<or> has_file d (processing_file cid))))"

text \<open>\<open>str.splitlines()\<close> on the code points below U+0100; reading a file has already
  replaced \<^verbatim>\<open>\r\n\<close> and \<^verbatim>\<open>\r\<close> by \<^verbatim>\<open>\n\<close>.\<close>

definition line_break :: "char \<Rightarrow> bool" where
  "line_break c \<longleftrightarrow> c \<in> {CHR 0x0A, CHR 0x0B, CHR 0x0C, CHR 0x0D, CHR 0x1C, CHR 0x1D, CHR 0x1E,
     CHR 0x85}"

fun splitlines_acc :: "string \<Rightarrow> string \<Rightarrow> string list" where
  "splitlines_acc acc [] = (if acc = [] then [] else [rev acc])"
| "splitlines_acc acc (c # s) =
     (if line_break c then rev acc # splitlines_acc [] s else splitlines_acc (c # acc) s)"

fun key_value :: "string \<Rightarrow> (string \<times> string) option" where
  "key_value line = (if CHR ''='' \<in> set line
     then Some (takeWhile (\<lambda>c. c \<noteq> CHR ''='') line, tl (dropWhile (\<lambda>c. c \<noteq> CHR ''='') line))
     else None)"

definition result_facts :: "string \<Rightarrow> string \<Rightarrow> string option" where
  "result_facts text = map_of (rev (List.map_filter key_value (splitlines_acc [] text)))"

definition fortress_outcome :: "dir \<Rightarrow> string \<Rightarrow> string option \<Rightarrow> string option \<Rightarrow> string option res" where
  "fortress_outcome d command_id state_key lease =
     (let cid = scoped_id d command_id state_key in
      bind_res (validate_spool_id (PStr cid)) (\<lambda>_.
        Inr (case d (cid @ ''.result'') of
               None \<Rightarrow> None
             | Some text \<Rightarrow> (if result_facts text ''lease'' = lease
                             then result_facts text ''outcome'' else None))))"

section \<open>Publication\<close>

record publish_request =
  rq_cmd :: string
  rq_coalesce_key :: "string option"
  rq_arm_rpc :: bool
  rq_already_queued_ok :: bool
  rq_delivery_fields :: bool \<comment> \<open>whether delivery fields are given\<close>
  rq_state_key :: "string option"
  rq_room_scoped :: bool
  rq_lease :: "string option"
  rq_execution_class :: string
  rq_operation :: "string option"
  rq_diagnostic :: bool
  rq_transient_scope :: "string option"

text \<open>The calls of \<open>publish\<close> that may raise, and the looks between which the consumer acts.\<close>

datatype publish_point = At_makedirs | At_open | At_write | At_link | At_remove_temporary
  | At_remove_command | At_arm | At_log

datatype consumer_turn = Before_link | Before_failed_check | Before_processing_check

record publish_env =
  env_fresh_id :: string \<comment> \<open>the time and UUID of an uncoalesced command\<close>
  env_uuid :: string
  env_fails :: "publish_point \<Rightarrow> bool"
  env_consumer :: "consumer_turn \<Rightarrow> dir \<Rightarrow> dir"

definition result :: "bool \<Rightarrow> command_evidence \<Rightarrow> string option \<Rightarrow> publication_result" where
  "result a e i = \<lparr>accepted = a, evidence = e, published_id = i\<rparr>"

definition class_refused :: "publish_request \<Rightarrow> bool" where
  "class_refused rq =
     (if rq_execution_class rq \<notin> set VALID_EXECUTION_CLASSES then True
      else if rq_execution_class rq = MAP_ENTITY_SAFE
      then (case rq_operation rq of None \<Rightarrow> True
            | Some op \<Rightarrow> op \<notin> set VALID_MAP_ENTITY_OPERATIONS)
      else if rq_execution_class rq = TRANSIENT_EFFECT
      then rq_operation rq \<noteq> None \<or> (case rq_transient_scope rq of None \<Rightarrow> True | Some t \<Rightarrow> t = [])
      else rq_operation rq \<noteq> None)"

definition newline :: string where "newline = [CHR 0x0A]"

definition header_line :: "string \<Rightarrow> string \<Rightarrow> string" where
  "header_line h v = h @ '' '' @ v @ newline"

fun the_text :: "string option \<Rightarrow> string" where
  "the_text None = ''None''"
| "the_text (Some t) = t"

text \<open>The text of a command file; \<open>None\<close> when the call is refused while composing it.\<close>

definition compose_payload :: "publish_request \<Rightarrow> string option" where
  "compose_payload rq =
     (if (case rq_lease rq of None \<Rightarrow> False | Some l \<Rightarrow> \<not> valid_materialization_epoch (PStr l))
      then None
      else if rq_diagnostic rq \<and> strip (rq_cmd rq) \<noteq> ''condump AP_SUPPORT_FILE.txt'' then None
      else Some
        ((if rq_diagnostic rq then ''AP_DIAGNOSTIC_CONDUMP_V1 AP_SUPPORT_FILE.txt'' @ newline
          else header_line EXECUTION_CLASS_HEADER (rq_execution_class rq))
         @ (if rq_execution_class rq = MAP_ENTITY_SAFE
            then header_line MAP_ENTITY_OPERATION_HEADER (the_text (rq_operation rq)) else [])
         @ (if rq_execution_class rq = TRANSIENT_EFFECT
            then header_line TRANSIENT_SCOPE_HEADER (the_text (rq_transient_scope rq)) else [])
         @ (case rq_lease rq of None \<Rightarrow> [] | Some l \<Rightarrow> header_line MATERIALIZATION_LEASE_HEADER l)
         @ strip (rq_cmd rq) @ newline))"

definition log_delivery :: "publish_env \<Rightarrow> publish_request \<Rightarrow> string \<Rightarrow> string \<Rightarrow> string
    \<Rightarrow> spool_world \<Rightarrow> spool_world \<times> bool" where
  "log_delivery env rq event cid reason w =
     (if \<not> rq_delivery_fields rq then (w, True)
      else if env_fails env At_log then (w, False)
      else (w\<lparr>delivery_log := delivery_log w @ [(event, cid, reason)]\<rparr>, True))"

definition arm :: "publish_env \<Rightarrow> bool \<Rightarrow> spool_world \<Rightarrow> spool_world \<times> bool" where
  "arm env wanted w =
     (if \<not> wanted then (w, True)
      else if env_fails env At_arm then (w, False)
      else (w\<lparr>arms := arms w + 1\<rparr>, True))"

text \<open>The answer to a command that is already in the spool: logged, armed when the caller takes
  that for success. An exception on the way is caught by the outer handler.\<close>

definition duplicate :: "publish_env \<Rightarrow> publish_request \<Rightarrow> string \<Rightarrow> string \<Rightarrow> command_evidence
    \<Rightarrow> spool_world \<Rightarrow> spool_world \<times> publication_result" where
  "duplicate env rq cid reason ev w =
     (case log_delivery env rq ''QUEUE_DUPLICATE_REJECT'' cid reason w of
        (w1, False) \<Rightarrow> (w1, result False ev (Some cid))
      | (w1, True) \<Rightarrow>
         (case arm env (rq_already_queued_ok rq \<and> rq_arm_rpc rq) w1 of
            (w2, armed) \<Rightarrow> (w2, result (armed \<and> rq_already_queued_ok rq) ev (Some cid))))"

definition created :: "publish_env \<Rightarrow> publish_request \<Rightarrow> string \<Rightarrow> spool_world
    \<Rightarrow> spool_world \<times> publication_result" where
  "created env rq cid w =
     (case arm env (rq_arm_rpc rq) w of
        (w1, False) \<Rightarrow> (w1, result False DURABLY_PUBLISHED (Some cid))
      | (w1, True) \<Rightarrow>
         (case log_delivery env rq ''SPOOL_CREATE'' cid (cmd_file cid) w1 of
            (w2, logged) \<Rightarrow> (w2, result logged DURABLY_PUBLISHED (Some cid))))"

text \<open>Writing the temporary file and linking it under the command's name, with the removal of
  the temporary file in the \<open>finally\<close> clause.\<close>

datatype link_outcome = Linked | Already_exists | Link_raised command_evidence

definition link_command :: "publish_env \<Rightarrow> string \<Rightarrow> string \<Rightarrow> string \<Rightarrow> dir \<Rightarrow> dir \<times> link_outcome" where
  "link_command env tmp cmd payload d =
     (if env_fails env At_open then (d, Link_raised PLANNED)
      else if has_file d tmp then (d, Already_exists)
      else
       (let (d1, out) =
          (if env_fails env At_write then (d(tmp \<mapsto> []), Link_raised PLANNED)
           else
            (let d0 = env_consumer env Before_link (d(tmp \<mapsto> payload)) in
             if env_fails env At_link then (d0, Link_raised PLANNED)
             else if has_file d0 cmd then (d0, Already_exists)
             else (d0(cmd \<mapsto> payload), Linked)))
        in if env_fails env At_remove_temporary
           then (d1, Link_raised (case out of Linked \<Rightarrow> DURABLY_PUBLISHED
                                  | Already_exists \<Rightarrow> SPOOL_PRESENT | Link_raised e \<Rightarrow> e))
           else (remove_file tmp d1, out)))"

text \<open>Withdrawal of the command just linked, when the consumer holds its identifier.\<close>

definition withdraw :: "publish_env \<Rightarrow> string \<Rightarrow> dir \<Rightarrow> dir \<times> bool" where
  "withdraw env cmd d =
     (if env_fails env At_remove_command then (d, False) else (remove_file cmd d, True))"

definition publish_coalesced :: "publish_env \<Rightarrow> publish_request \<Rightarrow> string \<Rightarrow> string \<Rightarrow> spool_world
    \<Rightarrow> spool_world \<times> publication_result" where
  "publish_coalesced env rq cid payload w =
     (let cmd = cmd_file cid; tmp = ''.'' @ cid @ ''-'' @ env_uuid env @ ''.tmp'' in
      case link_command env tmp cmd payload (files w) of
        (d, Link_raised e) \<Rightarrow> (w\<lparr>files := d\<rparr>, result False e (Some cid))
      | (d, Already_exists) \<Rightarrow> duplicate env rq cid ''cmd_exists'' SPOOL_PRESENT (w\<lparr>files := d\<rparr>)
      | (d, Linked) \<Rightarrow>
         (let d1 = env_consumer env Before_failed_check d in
          if has_file d1 (failed_file cid)
          then (case withdraw env cmd d1 of
                  (d2, ok) \<Rightarrow> (w\<lparr>files := d2\<rparr>,
                     result False (if ok then EFFECT_UNKNOWN else DURABLY_PUBLISHED) (Some cid)))
          else
           (let d3 = env_consumer env Before_processing_check d1 in
            if has_file d3 (processing_file cid)
            then (case withdraw env cmd d3 of
                    (d4, False) \<Rightarrow> (w\<lparr>files := d4\<rparr>, result False CLAIMED (Some cid))
                  | (d4, True) \<Rightarrow> duplicate env rq cid ''processing_exists'' CLAIMED (w\<lparr>files := d4\<rparr>))
            else created env rq cid (w\<lparr>files := d3\<rparr>))))"

definition publish_uncoalesced :: "publish_env \<Rightarrow> publish_request \<Rightarrow> string \<Rightarrow> string \<Rightarrow> spool_world
    \<Rightarrow> spool_world \<times> publication_result" where
  "publish_uncoalesced env rq cid payload w =
     (let tmp = ''.'' @ cid @ ''-'' @ env_uuid env @ ''.tmp'' in
      if env_fails env At_open \<or> has_file (files w) tmp
      then (w, result False PLANNED (Some cid))
      else if env_fails env At_write
      then (w\<lparr>files := (files w)(tmp \<mapsto> [])\<rparr>, result False PLANNED (Some cid))
      else if env_fails env At_link
      then (w\<lparr>files := (files w)(tmp \<mapsto> payload)\<rparr>, result False PLANNED (Some cid))
      else created env rq cid
             (w\<lparr>files := (remove_file tmp (files w))(cmd_file cid \<mapsto> payload)\<rparr>))"

definition coalesced :: "publish_request \<Rightarrow> bool" where
  "coalesced rq \<longleftrightarrow> (case rq_coalesce_key rq of None \<Rightarrow> False | Some k \<Rightarrow> k \<noteq> [])"

definition command_id_of :: "publish_env \<Rightarrow> publish_request \<Rightarrow> dir \<Rightarrow> string" where
  "command_id_of env rq d =
     (let base = (if coalesced rq then the_text (rq_coalesce_key rq) else env_fresh_id env) in
      if rq_room_scoped rq then scoped_id d base (rq_state_key rq) else base)"

definition publish :: "publish_env \<Rightarrow> publish_request \<Rightarrow> spool_world
    \<Rightarrow> spool_world \<times> publication_result" where
  "publish env rq w =
     (if class_refused rq then (w, result False PLANNED None)
      else
       (let cid = command_id_of env rq (files w) in
        case validate_spool_id (PStr cid) of
          Inl e \<Rightarrow> (w, result False PLANNED (Some cid))
        | Inr _ \<Rightarrow>
          (if has_file (files w) (failed_file cid) then (w, result False EFFECT_UNKNOWN (Some cid))
           else if env_fails env At_makedirs then (w, result False PLANNED (Some cid))
           else
            (case (if coalesced rq then exists_command (files w) cid None (rq_room_scoped rq)
                   else Inr False) of
               Inl e \<Rightarrow> (w, result False PLANNED (Some cid))
             | Inr True \<Rightarrow> duplicate env rq cid ''spool_exists'' SPOOL_PRESENT w
             | Inr False \<Rightarrow>
                (case compose_payload rq of
                   None \<Rightarrow> (w, result False PLANNED (Some cid))
                 | Some payload \<Rightarrow>
                    (if coalesced rq then publish_coalesced env rq cid payload w
                     else publish_uncoalesced env rq cid payload w))))))"

section \<open>Lemmas\<close>

lemma duplicate_files [simp]: "files (fst (duplicate env rq cid reason ev w)) = files w"
  by (simp add: duplicate_def log_delivery_def arm_def split: prod.splits bool.splits)

lemma created_files [simp]: "files (fst (created env rq cid w)) = files w"
  by (simp add: created_def log_delivery_def arm_def split: prod.splits bool.splits)

lemma duplicate_result:
  "evidence (snd (duplicate env rq cid reason ev w)) = ev"
  "published_id (snd (duplicate env rq cid reason ev w)) = Some cid"
  "accepted (snd (duplicate env rq cid reason ev w)) \<Longrightarrow> rq_already_queued_ok rq"
  by (auto simp: duplicate_def result_def split: prod.splits bool.splits)

lemma created_result:
  "evidence (snd (created env rq cid w)) = DURABLY_PUBLISHED"
  "published_id (snd (created env rq cid w)) = Some cid"
  by (auto simp: created_def result_def split: prod.splits bool.splits)

lemma result_simps [simp]:
  "accepted (result a e i) = a" "evidence (result a e i) = e" "published_id (result a e i) = i"
  by (simp_all add: result_def)

lemma remove_file_apply [simp]: "remove_file f d g = (if g = f then None else d g)"
  by (simp add: remove_file_def)

lemma append_suffix_neq:
  "cmd_file i \<noteq> processing_file j" "cmd_file i \<noteq> failed_file j" "failed_file i \<noteq> processing_file j"
  "cmd_file i \<noteq> x @ ''.tmp''" "processing_file i \<noteq> x @ ''.tmp''" "failed_file i \<noteq> x @ ''.tmp''"
  "namespace_marker \<noteq> cmd_file i" "namespace_marker \<noteq> x @ ''.tmp''"
proof -
  have differ: "take 4 (rev a) \<noteq> take 4 (rev b) \<Longrightarrow> a \<noteq> b" for a b :: string by blast
  show "cmd_file i \<noteq> processing_file j" "cmd_file i \<noteq> failed_file j"
    "failed_file i \<noteq> processing_file j" "cmd_file i \<noteq> x @ ''.tmp''"
    "processing_file i \<noteq> x @ ''.tmp''" "failed_file i \<noteq> x @ ''.tmp''"
    "namespace_marker \<noteq> cmd_file i" "namespace_marker \<noteq> x @ ''.tmp''"
    by (rule differ, simp add: namespace_marker_def)+
qed

section \<open>Publication against an arbitrary consumer\<close>

definition temporary_file :: "publish_env \<Rightarrow> string \<Rightarrow> string" where
  "temporary_file env cid = ''.'' @ cid @ ''-'' @ env_uuid env @ ''.tmp''"

lemma temporary_file_neq:
  "cmd_file i \<noteq> temporary_file env cid" "processing_file i \<noteq> temporary_file env cid"
  "failed_file i \<noteq> temporary_file env cid" "namespace_marker \<noteq> temporary_file env cid"
  using append_suffix_neq(4-6,8) [where x = "''.'' @ cid @ ''-'' @ env_uuid env"]
  by (simp_all add: temporary_file_def)

lemmas spool_file_neq [simp] = append_suffix_neq(1-3,7) append_suffix_neq(1-3,7) [symmetric]
  temporary_file_neq temporary_file_neq [symmetric]

text \<open>The three ways through a coalesced publication that accepts the command.\<close>

lemma publish_coalesced_accepted:
  assumes "publish_coalesced env rq cid payload w = (w', r)" and "accepted r"
  shows "(evidence r = DURABLY_PUBLISHED \<and>
           (\<exists>d. link_command env (temporary_file env cid) (cmd_file cid) payload (files w) = (d, Linked)
             \<and> \<not> has_file (env_consumer env Before_failed_check d) (failed_file cid)
             \<and> files w' = env_consumer env Before_processing_check (env_consumer env Before_failed_check d)
             \<and> \<not> has_file (files w') (processing_file cid)))
       \<or> (rq_already_queued_ok rq \<and> evidence r = SPOOL_PRESENT \<and>
           (\<exists>d. link_command env (temporary_file env cid) (cmd_file cid) payload (files w) = (d, Already_exists)
             \<and> files w' = d))
       \<or> (rq_already_queued_ok rq \<and> evidence r = CLAIMED \<and>
           (\<exists>d. has_file d (processing_file cid) \<and> files w' = remove_file (cmd_file cid) d))"
proof -
  obtain d out where link: "link_command env (temporary_file env cid) (cmd_file cid) payload (files w) = (d, out)"
    by fastforce
  note unfolded = assms(1) [unfolded publish_coalesced_def Let_def, folded temporary_file_def]
  show ?thesis
  proof (cases out)
    case Already_exists
    then show ?thesis using unfolded link assms(2) duplicate_result duplicate_files
      by (auto simp: prod_eq_iff)
  next
    case (Link_raised e)
    then show ?thesis using unfolded link assms(2) by (auto simp: prod_eq_iff)
  next
    case Linked
    let ?d1 = "env_consumer env Before_failed_check d"
    let ?d3 = "env_consumer env Before_processing_check ?d1"
    consider "has_file ?d1 (failed_file cid)" | "\<not> has_file ?d1 (failed_file cid)" "has_file ?d3 (processing_file cid)"
      | "\<not> has_file ?d1 (failed_file cid)" "\<not> has_file ?d3 (processing_file cid)" by blast
    then show ?thesis
    proof cases
      case 1
      then show ?thesis using unfolded link Linked assms(2)
        by (auto simp: prod_eq_iff withdraw_def split: if_splits)
    next
      case 2
      then show ?thesis using unfolded link Linked assms(2) duplicate_result duplicate_files
        by (auto simp: prod_eq_iff withdraw_def split: if_splits)
    next
      case 3
      then show ?thesis using unfolded link Linked assms(2) created_result created_files
        by (auto simp: prod_eq_iff)
    qed
  qed
qed

lemma link_command_linked:
  assumes "link_command env tmp cmd payload d = (d', Linked)" and "tmp \<noteq> cmd"
  shows "\<not> has_file d tmp"
    "\<not> has_file (env_consumer env Before_link (d(tmp \<mapsto> payload))) cmd"
    "d' = remove_file tmp ((env_consumer env Before_link (d(tmp \<mapsto> payload)))(cmd \<mapsto> payload))"
    "d' cmd = Some payload"
  using assms by (auto simp: link_command_def Let_def split: if_splits)

lemma publish_accepted_cases:
  assumes "publish env rq w = (w', r)" and "accepted r" and "coalesced rq"
  defines "cid \<equiv> command_id_of env rq (files w)"
  shows "published_id r = Some cid" "\<not> class_refused rq" "validate_spool_id (PStr cid) = Inr cid"
    "\<not> has_file (files w) (failed_file cid)"
    "(rq_already_queued_ok rq \<and> exists_command (files w) cid None (rq_room_scoped rq) = Inr True
        \<and> evidence r = SPOOL_PRESENT \<and> files w' = files w) \<or>
     (\<exists>payload. compose_payload rq = Some payload \<and>
        exists_command (files w) cid None (rq_room_scoped rq) = Inr False \<and>
        publish_coalesced env rq cid payload w = (w', r))"
proof -
  have id: "published_id (snd (publish_coalesced env rq cid payload w)) = Some cid" for payload
    using duplicate_result(2) created_result(2)
    by (simp add: publish_coalesced_def Let_def split: prod.splits link_outcome.splits if_splits bool.splits)
  show "published_id r = Some cid" "\<not> class_refused rq" "validate_spool_id (PStr cid) = Inr cid"
    "\<not> has_file (files w) (failed_file cid)"
    "(rq_already_queued_ok rq \<and> exists_command (files w) cid None (rq_room_scoped rq) = Inr True
        \<and> evidence r = SPOOL_PRESENT \<and> files w' = files w) \<or>
     (\<exists>payload. compose_payload rq = Some payload \<and>
        exists_command (files w) cid None (rq_room_scoped rq) = Inr False \<and>
        publish_coalesced env rq cid payload w = (w', r))"
    using assms(1-3) id duplicate_result [of env rq cid] duplicate_files [of env rq cid]
      validate_spool_id_cong
    by (auto simp: publish_def Let_def cid_def [symmetric] prod_eq_iff
        split: if_splits sum.splits bool.splits option.splits)
qed

section \<open>Properties\<close>


definition quiet :: "publish_env \<Rightarrow> bool" where
  "quiet env \<longleftrightarrow> (\<forall>t. env_consumer env t = (\<lambda>d. d))"

definition only_adds :: "string \<Rightarrow> string \<Rightarrow> string option \<Rightarrow> dir \<Rightarrow> dir \<Rightarrow> bool" where
  "only_adds tmp cmd payload d d' \<longleftrightarrow>
     (\<forall>f. f \<noteq> tmp \<longrightarrow> d' f = d f \<or> (f = cmd \<and> d f = None \<and> d' f = payload))"

lemma only_adds_refl [simp]: "only_adds tmp cmd p d d"
  by (simp add: only_adds_def)

lemma link_quiet:
  assumes "quiet env" and "link_command env tmp cmd payload d = (d', out)" and "tmp \<noteq> cmd"
  shows "only_adds tmp cmd (Some payload) d d'"
    "out = Linked \<or> out = Link_raised DURABLY_PUBLISHED \<Longrightarrow> d' cmd = Some payload \<and> d cmd = None"
    "out \<in> {Linked, Already_exists, Link_raised PLANNED, Link_raised DURABLY_PUBLISHED, Link_raised SPOOL_PRESENT}"
    "out = Already_exists \<Longrightarrow> \<not> has_file d tmp \<Longrightarrow> has_file d cmd"
    "out \<in> {Linked, Already_exists} \<Longrightarrow> \<not> has_file d tmp \<Longrightarrow> \<not> has_file d' tmp"
  using assms
  by (auto simp: link_command_def quiet_def only_adds_def has_file_def Let_def split: if_splits)

lemma publish_coalesced_quiet:
  assumes "quiet env" and "publish_coalesced env rq cid payload w = (w', r)"
  shows "only_adds (temporary_file env cid) (cmd_file cid) (Some payload) (files w) (files w')"
    "evidence r = DURABLY_PUBLISHED \<Longrightarrow> files w' (cmd_file cid) = Some payload"
proof -
  obtain d out where link: "link_command env (temporary_file env cid) (cmd_file cid) payload (files w) = (d, out)"
    by fastforce
  note q = link_quiet [OF assms(1) link spool_file_neq(13)]
  note u = assms(2) [unfolded publish_coalesced_def Let_def, folded temporary_file_def]
  have c: "env_consumer env t x = x" for t x using assms(1) by (simp add: quiet_def)
  have "only_adds (temporary_file env cid) (cmd_file cid) (Some payload) (files w) (files w') \<and>
    (evidence r = DURABLY_PUBLISHED \<longrightarrow> files w' (cmd_file cid) = Some payload)"
  proof (cases out)
    case Already_exists
    then show ?thesis using u link q(1) duplicate_files duplicate_result(1)
      by (auto simp: prod_eq_iff)
  next
    case (Link_raised e)
    then show ?thesis using u link q(1,2) by (auto simp: prod_eq_iff)
  next
    case Linked
    have undone: "only_adds (temporary_file env cid) (cmd_file cid) (Some payload) (files w)
        (remove_file (cmd_file cid) d)"
      using q(1,2) Linked by (auto simp: only_adds_def)
    from u link Linked q(1,2) undone duplicate_files duplicate_result(1) created_files show ?thesis
      by (auto simp: prod_eq_iff c withdraw_def split: if_splits)
  qed
  then show "only_adds (temporary_file env cid) (cmd_file cid) (Some payload) (files w) (files w')"
    "evidence r = DURABLY_PUBLISHED \<Longrightarrow> files w' (cmd_file cid) = Some payload" by auto
qed

lemma publish_coalesced_cases:
  assumes "publish env rq w = (w', r)" and "coalesced rq"
  defines "cid \<equiv> command_id_of env rq (files w)"
  shows "(files w' = files w \<and> evidence r \<noteq> DURABLY_PUBLISHED) \<or>
    (\<exists>payload. compose_payload rq = Some payload \<and> publish_coalesced env rq cid payload w = (w', r))"
  using assms(1,2) duplicate_result(1) [of env rq cid] duplicate_files [of env rq cid]
  by (auto simp: publish_def Let_def cid_def [symmetric] prod_eq_iff
      split: if_splits sum.splits bool.splits option.splits)


section \<open>The spool provides the publication port\<close>

text \<open>The calls that receipt delivery and reconciliation make: a coalesced \<open>PLAYER_RUNTIME\<close>
  command of a room, already queued taken for success, here with an idle consumer and no
  failing system call.\<close>

definition plain_env :: "string \<Rightarrow> publish_env" where
  "plain_env uuid = \<lparr>env_fresh_id = [], env_uuid = uuid, env_fails = (\<lambda>_. False),
     env_consumer = (\<lambda>_ d. d)\<rparr>"

definition room_request :: "string \<Rightarrow> string \<Rightarrow> string \<Rightarrow> publish_request" where
  "room_request key cmd i = \<lparr>rq_cmd = cmd, rq_coalesce_key = Some i, rq_arm_rpc = True,
     rq_already_queued_ok = True, rq_delivery_fields = True, rq_state_key = Some key,
     rq_room_scoped = True, rq_lease = None, rq_execution_class = PLAYER_RUNTIME,
     rq_operation = None, rq_diagnostic = False, rq_transient_scope = None\<rparr>"

definition room_send :: "string \<Rightarrow> string \<Rightarrow> spool_world \<Rightarrow> string \<Rightarrow> string \<Rightarrow> spool_world \<times> bool" where
  "room_send key uuid w cmd i =
     (case publish (plain_env uuid) (room_request key cmd i) w of (w', r) \<Rightarrow> (w', accepted r))"

definition room_name :: "string \<Rightarrow> string \<Rightarrow> string" where
  "room_name key i = (let p = recv_prefix (take 16 (sha256_hex key)) in
     if starts_with i p then i else p @ i)"

definition room_pending :: "string \<Rightarrow> spool_world \<Rightarrow> string \<Rightarrow> bool" where
  "room_pending key w i \<longleftrightarrow> validate_spool_id (PStr (room_name key i)) = Inr (room_name key i) \<and>
     \<not> has_file (files w) (failed_file (room_name key i)) \<and>
     (has_file (files w) (cmd_file (room_name key i))
      \<or> has_file (files w) (processing_file (room_name key i)))"

text \<open>The room is the native session's, or there is none, and no temporary file is left over.\<close>

definition room_ready :: "string \<Rightarrow> string \<Rightarrow> spool_world \<Rightarrow> bool" where
  "room_ready key uuid w \<longleftrightarrow> key \<noteq> [] \<and>
     active_namespace (files w) \<in> {None, Some (take 16 (sha256_hex key))} \<and>
     (\<forall>i. \<not> has_file (files w) (temporary_file (plain_env uuid) i))"

lemma room_scoped_id:
  assumes "key \<noteq> []"
  shows "scoped_id d i (Some key) = room_name key i"
  using assms by (simp add: scoped_id_def room_name_def queue_session_namespace_def Let_def)

lemma room_name_idem [simp]: "room_name key (room_name key i) = room_name key i"
  by (simp add: room_name_def Let_def)

lemma room_name_prefix: "starts_with (room_name key i) (recv_prefix (take 16 (sha256_hex key)))"
  by (simp add: room_name_def Let_def starts_with_def)

lemma room_rescoped:
  assumes "room_ready key uuid w"
  shows "scoped_id (files w) (room_name key i) None = room_name key i"
  using assms room_name_prefix [of key i]
  by (auto simp: scoped_id_def room_ready_def Let_def)

lemma room_payload: "compose_payload (room_request key c i) =
    Some (header_line EXECUTION_CLASS_HEADER PLAYER_RUNTIME @ strip c @ newline)"
  by (simp add: compose_payload_def room_request_def PLAYER_RUNTIME_def MAP_ENTITY_SAFE_def
      TRANSIENT_EFFECT_def)

lemma room_class: "\<not> class_refused (room_request key c i)"
  by (simp add: class_refused_def room_request_def VALID_EXECUTION_CLASSES_def PLAYER_RUNTIME_def
      MAP_ENTITY_SAFE_def TRANSIENT_EFFECT_def)

lemma plain_env_calls [simp]:
  "env_fails (plain_env u) pt = False" "env_consumer (plain_env u) t d = d"
  by (simp_all add: plain_env_def)

lemma plain_duplicate:
  "rq_already_queued_ok rq \<Longrightarrow> accepted (snd (duplicate (plain_env u) rq cid reason ev w))"
  by (simp add: duplicate_def log_delivery_def arm_def)

lemma plain_created: "accepted (snd (created (plain_env u) rq cid w))"
  by (simp add: created_def log_delivery_def arm_def)

lemma room_command_id:
  "key \<noteq> [] \<Longrightarrow> i \<noteq> [] \<Longrightarrow> command_id_of env (room_request key c i) d = room_name key i"
  by (simp add: command_id_of_def room_request_def coalesced_def room_scoped_id)

lemma room_exists:
  assumes "room_ready key uuid w"
  shows "exists_command (files w) (room_name key i) None True =
    bind_res (validate_spool_id (PStr (room_name key i)))
      (\<lambda>_. Inr (has_file (files w) (failed_file (room_name key i))
        \<or> has_file (files w) (cmd_file (room_name key i))
        \<or> has_file (files w) (processing_file (room_name key i))))"
  by (simp add: exists_command_def room_rescoped [OF assms] Let_def)

definition room_open :: "string \<Rightarrow> spool_world \<Rightarrow> string \<Rightarrow> bool" where
  "room_open key w i \<longleftrightarrow> validate_spool_id (PStr (room_name key i)) = Inr (room_name key i) \<and>
     \<not> has_file (files w) (failed_file (room_name key i))"

lemma room_pending_open: "room_pending key w i \<longleftrightarrow> room_open key w i \<and>
    (has_file (files w) (cmd_file (room_name key i)) \<or> has_file (files w) (processing_file (room_name key i)))"
  by (auto simp: room_pending_def room_open_def)

text \<open>The complete behaviour of a call of the port.\<close>

lemma room_coalesced_send:
  assumes "\<not> has_file (files w) (temporary_file (plain_env u) cid)"
    and "\<not> has_file (files w) (failed_file cid)"
    and "\<not> has_file (files w) (cmd_file cid)" "\<not> has_file (files w) (processing_file cid)"
    and "publish_coalesced (plain_env u) rq cid payload w = (w', r)"
  shows "accepted r" "files w' = (files w)(cmd_file cid \<mapsto> payload)"
proof -
  have tmp: "remove_file (temporary_file (plain_env u) cid)
      ((files w)(temporary_file (plain_env u) cid \<mapsto> payload, cmd_file cid \<mapsto> payload))
      = (files w)(cmd_file cid \<mapsto> payload)"
    using assms(1) by (auto simp: has_file_def fun_eq_iff)
  have link: "link_command (plain_env u) (temporary_file (plain_env u) cid) (cmd_file cid) payload (files w)
      = ((files w)(cmd_file cid \<mapsto> payload), Linked)"
    using assms(1,3) tmp by (simp add: link_command_def has_file_def)
  have "publish_coalesced (plain_env u) rq cid payload w =
      created (plain_env u) rq cid (w\<lparr>files := (files w)(cmd_file cid \<mapsto> payload)\<rparr>)"
    using link assms(2,4)
    by (simp add: publish_coalesced_def temporary_file_def [symmetric] has_file_def
        del: append.simps append_assoc)
  with assms(5) plain_created created_files show "accepted r" "files w' = (files w)(cmd_file cid \<mapsto> payload)"
    by (auto simp: prod_eq_iff)
qed

lemma room_send_char:
  assumes ready: "room_ready key u w" and "i \<noteq> []" and send: "room_send key u w c i = (w', ok)"
  shows "ok \<longleftrightarrow> room_open key w i"
    "files w' = (if room_open key w i \<and> \<not> room_pending key w i
       then (files w)(cmd_file (room_name key i) \<mapsto>
              header_line EXECUTION_CLASS_HEADER PLAYER_RUNTIME @ strip c @ newline)
       else files w)"
proof -
  let ?cid = "room_name key i"
  let ?rq = "room_request key c i"
  let ?p = "header_line EXECUTION_CLASS_HEADER PLAYER_RUNTIME @ strip c @ newline"
  have key: "key \<noteq> []" and tmp: "\<not> has_file (files w) (temporary_file (plain_env u) ?cid)"
    using ready by (simp_all add: room_ready_def)
  have co: "coalesced ?rq" "rq_room_scoped ?rq" "rq_already_queued_ok ?rq"
    using assms(2) by (simp_all add: coalesced_def room_request_def)
  obtain r where pub: "publish (plain_env u) ?rq w = (w', r)" and ok: "ok = accepted r"
    using send by (auto simp: room_send_def split: prod.splits)
  note u = pub [unfolded publish_def Let_def room_command_id [OF key assms(2)] room_payload co(2)]
  have "(ok \<longleftrightarrow> room_open key w i) \<and> files w' = (if room_open key w i \<and> \<not> room_pending key w i
       then (files w)(cmd_file ?cid \<mapsto> ?p) else files w)"
  proof (cases "room_open key w i")
    case False
    then show ?thesis using u ok room_class co
      by (auto simp: room_open_def prod_eq_iff split: sum.splits if_splits dest: validate_spool_id_cong)
  next
    case True
    then have ex: "exists_command (files w) ?cid None True =
        Inr (has_file (files w) (cmd_file ?cid) \<or> has_file (files w) (processing_file ?cid))"
      and v: "validate_spool_id (PStr ?cid) = Inr ?cid" and nf: "\<not> has_file (files w) (failed_file ?cid)"
      using room_exists [OF ready] by (auto simp: room_open_def)
    show ?thesis
    proof (cases "room_pending key w i")
      case pend: True
      then have "duplicate (plain_env u) ?rq ?cid ''spool_exists'' SPOOL_PRESENT w = (w', r)"
        using u room_class co ex v nf by (auto simp: room_pending_open)
      with plain_duplicate [OF co(3)] duplicate_files True pend ok show ?thesis
        by (metis fst_conv snd_conv)
    next
      case False
      with True have free: "\<not> has_file (files w) (failed_file ?cid)"
        "\<not> has_file (files w) (cmd_file ?cid)" "\<not> has_file (files w) (processing_file ?cid)"
        by (auto simp: room_open_def room_pending_open)
      then have "publish_coalesced (plain_env u) ?rq ?cid ?p w = (w', r)"
        using u room_class co ex v by simp
      from room_coalesced_send [OF tmp free this] True False ok show ?thesis by simp
    qed
  qed
  then show "ok \<longleftrightarrow> room_open key w i" "files w' = (if room_open key w i \<and> \<not> room_pending key w i
       then (files w)(cmd_file ?cid \<mapsto> ?p) else files w)" by auto
qed

lemma room_send_files_other:
  assumes "room_ready key u w" and "i \<noteq> []" and "room_send key u w c i = (w', ok)"
    and "f \<noteq> cmd_file (room_name key i)"
  shows "files w' f = files w f"
  using room_send_char(2) [OF assms(1-3)] assms(4) by (simp split: if_splits)

lemma room_send_ready:
  assumes "room_ready key u w" and "i \<noteq> []" and "room_send key u w c i = (w', ok)"
  shows "room_ready key u w'"
proof -
  have "files w' f = files w f" if "\<And>j. f \<noteq> cmd_file j" for f
    using room_send_files_other [OF assms] that by blast
  then have "files w' namespace_marker = files w namespace_marker"
    "\<And>j. files w' (temporary_file (plain_env u) j) = files w (temporary_file (plain_env u) j)"
    by simp_all
  with assms(1) show ?thesis by (simp add: room_ready_def active_namespace_def has_file_def)
qed

interpretation room_port: publication_port "room_send key u" "room_pending key" "room_ready key u"
    "\<lambda>i. i \<noteq> []" "room_name key" for key u
proof
  fix w :: spool_world and c i j :: string
  assume r: "room_ready key u w" and i: "i \<noteq> []"
  obtain w' ok where s: "room_send key u w c i = (w', ok)" by fastforce
  note char = room_send_char [OF r i s]
  have other: "has_file (files w') f = has_file (files w) f" if "f \<noteq> cmd_file (room_name key i)" for f
    using room_send_files_other [OF r i s that] by (simp add: has_file_def)
  have more: "has_file (files w) f \<Longrightarrow> has_file (files w') f" for f
    using char(2) by (simp add: has_file_def split: if_splits)
  have op: "room_open key w' j = room_open key w j" for j
    using other [of "failed_file (room_name key j)"] by (simp add: room_open_def)
  show "room_ready key u (fst (room_send key u w c i))"
    using room_send_ready [OF r i s] s by simp
  show "room_pending key w j \<Longrightarrow> room_pending key (fst (room_send key u w c i)) j"
    using s more op by (auto simp: room_pending_open)
  show "snd (room_send key u w c i) \<Longrightarrow> room_pending key (fst (room_send key u w c i)) i"
    using s char op [of i] more by (auto simp: room_pending_open has_file_def split: if_splits)
  show "room_name key j \<noteq> room_name key i \<Longrightarrow> room_pending key (fst (room_send key u w c i)) j \<Longrightarrow>
      room_pending key w j"
    using s op other by (auto simp: room_pending_open)
  show "room_pending key w i \<Longrightarrow> snd (room_send key u w c i)"
    using s char(1) by (simp add: room_pending_open)
qed

text \<open>Publishing a reconciliation plan to the spool: when the whole plan is
  accepted, every command of it waits in the room's queue, nothing else has been queued, and
  publishing the plan again is accepted and changes no file, so a rerun is safe.\<close>

theorem plan_publication_idempotent:
  assumes ready: "room_ready key u w" and ids: "\<forall>i \<in> fst ` set cs. i \<noteq> []"
    and pub: "publish_commands (room_send key u) w cs = (w', None)"
  shows "(\<forall>i \<in> fst ` set cs. room_pending key w' i) \<and>
    (\<forall>j. room_name key j \<notin> room_name key ` fst ` set cs \<longrightarrow>
         room_pending key w' j \<longrightarrow> room_pending key w j) \<and>
    snd (publish_commands (room_send key u) w' cs) = None \<and>
    files (fst (publish_commands (room_send key u) w' cs)) = files w'"
proof -
  have all: "\<forall>i \<in> fst ` set cs. room_pending key w' i"
    using room_port.publish_all_pending [OF ready ids pub] by blast
  have ready': "room_ready key u w'" using room_port.publish_ready_mono [OF ready ids pub] by blast
  have same: "files (fst (publish_commands (room_send key u) v cs')) = files v"
    if "room_ready key u v" "set cs' \<subseteq> set cs" "\<forall>i \<in> fst ` set cs'. room_pending key v i" for v cs'
    using that
  proof (induction cs' arbitrary: v)
    case (Cons a cs')
    obtain k c where a: "a = (k, c)" by (cases a)
    obtain v1 ok where s: "room_send key u v c k = (v1, ok)" by (cases "room_send key u v c k")
    from Cons.prems(2) a ids have k: "k \<noteq> []" by force
    from room_send_char [OF Cons.prems(1) k s] Cons.prems(3) a have f: "ok" "files v1 = files v"
      by (auto simp: room_pending_open)
    then have "\<forall>i \<in> fst ` set cs'. room_pending key v1 i"
      using Cons.prems(3) by (simp add: room_pending_def)
    with Cons.IH [OF room_send_ready [OF Cons.prems(1) k s]] Cons.prems(2) a s f show ?case by simp
  qed simp
  show ?thesis
    using all room_port.publish_frame [OF ready ids pub] room_port.publish_again [OF ready' ids all]
      same [OF ready' subset_refl all] by blast
qed

section \<open>Sample calls\<close>

definition empty_spool :: spool_world where
  "empty_spool = \<lparr>files = (\<lambda>_. None), arms = 0, delivery_log = []\<rparr>"

definition sample_request :: publish_request where
  "sample_request = (room_request ''key'' ''give item'' ''a'')\<lparr>rq_room_scoped := False\<rparr>"

lemma sample_valid: "validate_spool_id (PStr ''a'') = Inr ''a''" by code_simp

lemma sample_publish:
  assumes "publish (plain_env ''u'') sample_request empty_spool = (w', r)"
  shows "coalesced sample_request" "accepted r" "evidence r = DURABLY_PUBLISHED"
    "published_id r = Some ''a''" "command_id_of (plain_env ''u'') sample_request (files empty_spool) = ''a''"
proof -
  have co: "coalesced sample_request" "rq_coalesce_key sample_request = Some ''a''"
    "rq_room_scoped sample_request = False" "\<not> class_refused sample_request"
    "compose_payload sample_request \<noteq> None"
    by (simp_all add: coalesced_def sample_request_def room_request_def class_refused_def
        compose_payload_def VALID_EXECUTION_CLASSES_def PLAYER_RUNTIME_def MAP_ENTITY_SAFE_def
        TRANSIENT_EFFECT_def)
  then have cid: "command_id_of (plain_env ''u'') sample_request (files empty_spool) = ''a''"
    by (simp add: command_id_of_def)
  obtain p where p: "compose_payload sample_request = Some p" using co(5) by blast
  have ex: "exists_command (files empty_spool) ''a'' None False = Inr False"
    using sample_valid by (simp add: exists_command_def empty_spool_def has_file_def)
  have "publish_coalesced (plain_env ''u'') sample_request ''a'' p empty_spool = (w', r)"
    using assms co cid p ex sample_valid
    by (simp add: publish_def empty_spool_def has_file_def)
  then have "snd (created (plain_env ''u'') sample_request ''a'' w0) = r
      \<Longrightarrow> accepted r \<and> evidence r = DURABLY_PUBLISHED \<and> published_id r = Some ''a''" for w0
    using plain_created created_result by metis
  moreover have "\<exists>w0. snd (created (plain_env ''u'') sample_request ''a'' w0) = r"
    using \<open>publish_coalesced _ _ _ _ _ = _\<close>
    by (auto simp: publish_coalesced_def link_command_def has_file_def empty_spool_def Let_def
        prod_eq_iff split: if_splits)
  ultimately show "coalesced sample_request" "accepted r" "evidence r = DURABLY_PUBLISHED"
    "published_id r = Some ''a''" "command_id_of (plain_env ''u'') sample_request (files empty_spool) = ''a''"
    using co(1) cid by auto
qed

lemma sample_scoped:
  "validate_spool_id (PStr (''recv'' @ ''-'' @ take 16 (sha256_hex key)))
     = Inr (''recv'' @ ''-'' @ take 16 (sha256_hex key)) \<and>
   length (utf8 (''recv'' @ ''-'' @ take 16 (sha256_hex key))) = 21"
proof -
  let ?h = "take 16 (sha256_hex key)"
  have recv: "validate_spool_id (PStr ''recv'') = Inr ''recv''" by code_simp
  have len: "length ?h = 16" by simp
  have hex: "list_all is_lower_hex ?h" by (rule digest_suffix(1))
  have u: "length (utf8 ''recv'') = 4" by code_simp
  have h0: "?h \<noteq> []" using len by (metis list.size(3) zero_neq_numeral)
  have "validate_spool_id (PStr (''recv'' @ ''-'' @ ?h)) = Inr (''recv'' @ ''-'' @ ?h)"
    by (rule validate_extend_hex [OF recv hex h0]) (simp add: u len SPOOL_ID_MAX_BYTES_def)
  moreover have "length (utf8 (''recv'' @ ''-'' @ ?h)) = 21"
    using u length_utf8_lower_hex [OF hex] len by (simp add: utf8_def utf8_char_def)
  ultimately show ?thesis by blast
qed

lemma sample_room_name:
  "validate_spool_id (PStr (room_name ''key'' ''a'')) = Inr (room_name ''key'' ''a'')"
proof -
  let ?s = "''recv'' @ ''-'' @ take 16 (sha256_hex ''key'')"
  have "validate_spool_id (PStr (?s @ ''-'' @ ''a'')) = Inr (?s @ ''-'' @ ''a'')"
    by (rule validate_extend_plain)
      (use sample_scoped [of "''key''"] in \<open>simp_all add: plain_char_def SPOOL_ID_MAX_BYTES_def\<close>)
  moreover have "room_name ''key'' ''a'' = ?s @ ''-'' @ ''a''"
    by (simp add: room_name_def recv_prefix_def starts_with_def Let_def)
  ultimately show ?thesis by simp
qed

section \<open>Witnesses\<close>



theorem plan_publication_idempotent_witness:
  "\<exists>w'. publish_commands (room_send ''key'' ''u'') empty_spool [(''a'', ''give'')] = (w', None) \<and>
     room_pending ''key'' w' ''a'' \<and>
     snd (publish_commands (room_send ''key'' ''u'') w' [(''a'', ''give'')]) = None"
proof -
  have ready: "room_ready ''key'' ''u'' empty_spool"
    by (simp add: room_ready_def empty_spool_def active_namespace_def has_file_def)
  obtain w' ok where s: "room_send ''key'' ''u'' empty_spool ''give'' ''a'' = (w', ok)" by fastforce
  have "room_open ''key'' empty_spool ''a''"
    using sample_room_name by (simp add: room_open_def empty_spool_def has_file_def)
  with room_send_char(1) [OF ready _ s] have ok by simp
  with s have pub: "publish_commands (room_send ''key'' ''u'') empty_spool [(''a'', ''give'')] = (w', None)"
    by simp
  from plan_publication_idempotent [OF ready _ pub] pub show ?thesis by auto
qed

end
