(* ===== verification/DeathLink_Receive.thy ===== *)
theory DeathLink_Receive
  imports Prelude
begin

text \<open>
  The DeathLink receive state machine of \<open>doom_eap/runtime/deathlink_receive.py\<close>: a
  bounded queue of logical events, each dispatched to the native side at most once, and the
  suppression of the local death that a dispatched event causes.

  The two callbacks of \<open>advance\<close> (\<open>dispatch\<close>, \<open>command_in_flight\<close>) are functions on a
  world, so the model shows when they are called. The exception class
  \<open>DeathLinkDispatchError\<close> is the outcome \<open>Refused\<close>; any other exception is \<open>Raised\<close> with
  its class name.
\<close>

section \<open>State\<close>

datatype receive_state = RECEIVED | WAITING_FOR_SAFE_GAMEPLAY | COMMAND_IN_FLIGHT
  | BURST_IN_FLIGHT | APPLIED | RESOLVED | EXPIRED | FAILED

record received_deathlink =
  event_id :: string
  event_state :: receive_state
  total_deadline :: time
  next_attempt_at :: time
  attempts :: nat
  deliveries :: nat
  safe_pauses :: nat
  unsafe_pauses :: nat

record receive_result =
  result_event :: "string option"
  result_state :: "receive_state option"
  result_detail :: string

record deathlink_instrumentation =
  ins_event_id :: "string option"
  ins_state :: "receive_state option"
  ins_detail :: string
  ins_attempts :: nat
  ins_deliveries :: nat
  ins_timestamp :: time
  ins_dispatches :: nat
  ins_safe_pauses :: nat
  ins_unsafe_pauses :: nat
  ins_death_confirmation :: bool
  ins_cancel_reason :: "string option"

record receiver =
  wait_timeout :: time
  confirm_timeout :: time
  retry_interval :: time
  burst_interval :: time
  total_timeout :: time
  late_suppression_grace :: time
  receiver_mode :: string
  max_burst_hits :: nat
  max_attempts :: "nat option"
  max_queue :: nat
  queue :: "received_deathlink list"
  recent :: "(string \<times> time) list"
  suppression_event_id :: "string option"
  late_suppression :: "(string \<times> time) option"
  instrumentation :: "deathlink_instrumentation list"

datatype dispatch_outcome =
    Returned bool
  | Refused int "int option" "int option" \<comment> \<open>request kind, native state, native reason\<close>
  | Raised string

section \<open>Operations\<close>

definition validate_mode :: "string \<Rightarrow> string res" where
  "validate_mode m =
     (if m \<notin> {''soft'', ''hardcore''} then Inl (ValueError ''invalid DeathLink mode'') else Inr m)"

definition new_receiver ::
  "time \<Rightarrow> time \<Rightarrow> time \<Rightarrow> time \<Rightarrow> time \<Rightarrow> time \<Rightarrow> int \<Rightarrow> int \<Rightarrow> int \<Rightarrow> string \<Rightarrow> receiver res" where
  "new_receiver wt ct ri bi tt lg attempts_arg burst_arg queue_arg m =
     (if (\<exists>v \<in> {wt, ct, ri, bi, tt, lg}. v \<le> 0) \<or> attempts_arg < 1 \<or> burst_arg < 1 \<or> queue_arg < 1
      then Inl (ValueError ''invalid DeathLink receiver limits'')
      else bind_res (validate_mode m) (\<lambda>m'. Inr
        \<lparr>wait_timeout = wt, confirm_timeout = ct, retry_interval = ri, burst_interval = bi,
         total_timeout = tt, late_suppression_grace = lg, receiver_mode = m',
         max_burst_hits = 1, max_attempts = Some 1, max_queue = nat queue_arg,
         queue = [], recent = [], suppression_event_id = None, late_suppression = None,
         instrumentation = []\<rparr>))"

definition default_receiver :: "string \<Rightarrow> receiver res" where
  "default_receiver m = new_receiver 20 10 2 (1/2) 60 15 2 2 4 m"

definition configure_mode :: "receiver \<Rightarrow> string \<Rightarrow> receiver res" where
  "configure_mode r m =
     bind_res (validate_mode m) (\<lambda>m'. Inr (r\<lparr>receiver_mode := m', max_attempts := Some 1\<rparr>))"

definition active :: "receiver \<Rightarrow> received_deathlink option" where
  "active r = (case queue r of [] \<Rightarrow> None | ev # _ \<Rightarrow> Some ev)"

definition queued_event_ids :: "receiver \<Rightarrow> string list" where
  "queued_event_ids r = map event_id (queue r)"

definition result_of :: "receiver \<Rightarrow> string option \<Rightarrow> receive_state option \<Rightarrow> string \<Rightarrow> time
    \<Rightarrow> receiver \<times> receive_result" where
  "result_of r eid st detail now =
     (let ev = (case (eid, active r) of
                  (Some i, Some a) \<Rightarrow> if i \<noteq> [] \<and> event_id a = i then Some a else None
                | _ \<Rightarrow> None);
          entry = \<lparr>ins_event_id = eid, ins_state = st, ins_detail = detail,
            ins_attempts = (case ev of None \<Rightarrow> 0 | Some a \<Rightarrow> attempts a),
            ins_deliveries = (case ev of None \<Rightarrow> 0 | Some a \<Rightarrow> deliveries a),
            ins_timestamp = now, ins_dispatches = 0, ins_safe_pauses = 0, ins_unsafe_pauses = 0,
            ins_death_confirmation = False, ins_cancel_reason = None\<rparr>
      in (r\<lparr>instrumentation := deque_append 128 (instrumentation r) entry\<rparr>,
          \<lparr>result_event = eid, result_state = st, result_detail = detail\<rparr>))"

definition prune_recent :: "receiver \<Rightarrow> time \<Rightarrow> receiver" where
  "prune_recent r now = r\<lparr>
     recent := filter (\<lambda>(k, expiry). expiry > now) (recent r),
     late_suppression := (case late_suppression r of
        Some (e, deadline) \<Rightarrow> if deadline < now then None else Some (e, deadline) | None \<Rightarrow> None)\<rparr>"

definition receive :: "receiver \<Rightarrow> string \<Rightarrow> time \<Rightarrow> receiver \<times> receive_result res" where
  "receive r eid now =
     (if eid = [] then (r, Inl (ValueError ''DeathLink event_id is required''))
      else let r1 = prune_recent r now in
       if map_of (recent r1) eid \<noteq> None \<or> eid \<in> set (queued_event_ids r1)
       then map_prod id Inr (result_of r1 (Some eid) None ''duplicate'' now)
       else let r2 = r1\<lparr>recent := AList.update eid
              (now + total_timeout r1 + late_suppression_grace r1) (recent r1)\<rparr> in
        if length (queue r2) \<ge> max_queue r2
        then map_prod id Inr (result_of r2 (Some eid) (Some FAILED) ''queue_full'' now)
        else let ev = \<lparr>event_id = eid, event_state = RECEIVED,
                   total_deadline = now + total_timeout r2, next_attempt_at = now,
                   attempts = 0, deliveries = 0, safe_pauses = 0, unsafe_pauses = 0\<rparr>;
                 r3 = r2\<lparr>queue := queue r2 @ [ev]\<rparr>
             in map_prod id Inr (result_of r3 (Some eid) (Some RECEIVED) ''queued'' now))"

definition finish :: "receiver \<Rightarrow> receive_state \<Rightarrow> string \<Rightarrow> time \<Rightarrow> bool
    \<Rightarrow> receiver \<times> receive_result res" where
  "finish r st detail now allow_late =
     (case queue r of
        [] \<Rightarrow> (r, Inl (Exn ''IndexError'' ''pop from an empty deque''))
      | ev # rest \<Rightarrow>
         (let entry = \<lparr>ins_event_id = Some (event_id ev), ins_state = Some st,
                ins_detail = detail, ins_attempts = attempts ev, ins_deliveries = deliveries ev,
                ins_timestamp = now, ins_dispatches = attempts ev,
                ins_safe_pauses = safe_pauses ev, ins_unsafe_pauses = unsafe_pauses ev,
                ins_death_confirmation = (st = RESOLVED),
                ins_cancel_reason =
                  (if detail \<in> {''disconnect'', ''room_changed'', ''safe_action''}
                   then Some detail else None)\<rparr>
          in (r\<lparr>queue := rest,
                late_suppression := (if allow_late \<and> attempts ev \<noteq> 0
                  then Some (event_id ev, now + late_suppression_grace r)
                  else late_suppression r),
                suppression_event_id := (if suppression_event_id r = Some (event_id ev)
                  then None else suppression_event_id r),
                instrumentation := deque_append 128 (instrumentation r) entry\<rparr>,
              Inr \<lparr>result_event = Some (event_id ev), result_state = Some st,
                   result_detail = detail\<rparr>)))"

definition set_head :: "receiver \<Rightarrow> received_deathlink \<Rightarrow> receiver" where
  "set_head r ev = r\<lparr>queue := ev # tl (queue r)\<rparr>"

definition native_budget_refused :: "dispatch_outcome \<Rightarrow> bool" where
  "native_budget_refused d =
     (case d of Refused kind st reason \<Rightarrow> kind \<in> {1, 2} \<and> st = Some 4 \<and> reason = Some 25
      | _ \<Rightarrow> False)"

text \<open>The last part of \<open>advance\<close>: the guarded dispatch of the active event.\<close>

definition try_dispatch :: "receiver \<Rightarrow> received_deathlink \<Rightarrow> time
    \<Rightarrow> ('w \<Rightarrow> 'w \<times> dispatch_outcome) \<Rightarrow> 'w \<Rightarrow> receiver \<times> 'w \<times> receive_result res" where
  "try_dispatch r ev now dispatch w =
     (if now < next_attempt_at ev
      then (case result_of r (Some (event_id ev)) (Some (event_state ev)) ''retry_interval'' now of
              (r', x) \<Rightarrow> (r', w, Inr x))
      else if (case max_attempts r of None \<Rightarrow> False | Some m \<Rightarrow> attempts ev \<ge> m)
      then (case finish r FAILED ''attempt_limit'' now True of (r', x) \<Rightarrow> (r', w, x))
      else case dispatch w of (w', outcome) \<Rightarrow>
       (if native_budget_refused outcome
        then (let r1 = set_head r (ev\<lparr>next_attempt_at := now + retry_interval r\<rparr>)
              in case result_of r1 (Some (event_id ev)) (Some (event_state ev))
                        ''native_budget_refused'' now of (r', x) \<Rightarrow> (r', w', Inr x))
        else case outcome of
          Refused k s z \<Rightarrow> (case finish r FAILED ''dispatch_error:DeathLinkDispatchError'' now False
              of (r', x) \<Rightarrow> (r', w', x))
        | Raised name \<Rightarrow> (case finish r FAILED (''dispatch_error:'' @ name) now False
              of (r', x) \<Rightarrow> (r', w', x))
        | Returned False \<Rightarrow> (case finish r FAILED ''rpc_not_accepted'' now False
              of (r', x) \<Rightarrow> (r', w', x))
        | Returned True \<Rightarrow>
           (let ev' = ev\<lparr>attempts := attempts ev + 1, event_state := COMMAND_IN_FLIGHT\<rparr>;
                r1 = (set_head r ev')\<lparr>suppression_event_id := Some (event_id ev)\<rparr>
            in case result_of r1 (Some (event_id ev)) (Some COMMAND_IN_FLIGHT) ''dispatched'' now
               of (r', x) \<Rightarrow> (r', w', Inr x))))"

definition advance :: "receiver \<Rightarrow> time \<Rightarrow> bool \<Rightarrow> ('w \<Rightarrow> 'w \<times> dispatch_outcome)
    \<Rightarrow> ('w \<Rightarrow> 'w \<times> bool res) \<Rightarrow> 'w \<Rightarrow> receiver \<times> 'w \<times> receive_result res" where
  "advance r now safe_gameplay dispatch command_in_flight w =
     (case active r of
        None \<Rightarrow> (case result_of r None None ''idle'' now of (r', x) \<Rightarrow> (r', w, Inr x))
      | Some ev0 \<Rightarrow>
        (if now \<ge> total_deadline ev0
         then (case finish r EXPIRED ''total_timeout'' now True of (r', x) \<Rightarrow> (r', w, x))
         else
          let ev = (if event_state ev0 = RECEIVED
                    then ev0\<lparr>event_state := WAITING_FOR_SAFE_GAMEPLAY,
                             next_attempt_at := min (next_attempt_at ev0) (now + wait_timeout r)\<rparr>
                    else ev0);
              r1 = set_head r ev
          in case command_in_flight w of
            (w1, Inl e) \<Rightarrow> (r1, w1, Inl e)
          | (w1, Inr in_flight) \<Rightarrow>
            (if event_state ev = COMMAND_IN_FLIGHT
             then (if in_flight
                   then (case result_of r1 (Some (event_id ev)) (Some (event_state ev))
                           ''awaiting_delivery'' now of (r', x) \<Rightarrow> (r', w1, Inr x))
                   else (case finish (set_head r1 (ev\<lparr>deliveries := deliveries ev + 1\<rparr>))
                           APPLIED ''accepted'' now True of (r', x) \<Rightarrow> (r', w1, x)))
             else if in_flight
             then (if attempts ev \<noteq> 0
                   then (case result_of (set_head r1 (ev\<lparr>event_state := COMMAND_IN_FLIGHT\<rparr>))
                           (Some (event_id ev)) (Some COMMAND_IN_FLIGHT) ''awaiting_delivery'' now
                         of (r', x) \<Rightarrow> (r', w1, Inr x))
                   else (case result_of r1 (Some (event_id ev)) (Some (event_state ev))
                           ''foreign_command_in_flight'' now of (r', x) \<Rightarrow> (r', w1, Inr x)))
             else if \<not> safe_gameplay
             then (case result_of (set_head r1 (ev\<lparr>unsafe_pauses := unsafe_pauses ev + 1\<rparr>))
                     (Some (event_id ev)) (Some (event_state ev)) ''unsafe_gameplay'' now
                   of (r', x) \<Rightarrow> (r', w1, Inr x))
             else (let ev' = ev\<lparr>safe_pauses := safe_pauses ev + 1\<rparr>
                   in try_dispatch (set_head r1 ev') ev' now dispatch w1))))"

definition late_echo :: "receiver \<Rightarrow> time \<Rightarrow> receiver \<times> receive_result res" where
  "late_echo r now =
     (case late_suppression r of
        None \<Rightarrow> map_prod id Inr (result_of r None None ''not_linked'' now)
      | Some (eid, deadline) \<Rightarrow>
         (let r1 = r\<lparr>late_suppression := None\<rparr> in
          if now \<le> deadline
          then map_prod id Inr (result_of r1 (Some eid) (Some APPLIED) ''late_echo_suppressed'' now)
          else map_prod id Inr (result_of r1 None None ''not_linked'' now)))"

definition confirm_local_death :: "receiver \<Rightarrow> time \<Rightarrow> receiver \<times> receive_result res" where
  "confirm_local_death r now =
     (case active r of
        Some ev \<Rightarrow>
          (if suppression_event_id r = Some (event_id ev) \<and> attempts ev \<noteq> 0
           then finish r RESOLVED
                  (if event_state ev = BURST_IN_FLIGHT then ''second_hit_cancelled_player_dead''
                   else ''echo_suppressed'') now False
           else late_echo r now)
      | None \<Rightarrow> late_echo r now)"

lemma finish_queue [simp]: "queue (fst (finish r st d now al)) = tl (queue r)"
  by (simp add: finish_def Let_def split: list.splits)

lemma finish_queue_eq: "finish r st d now al = (r', x) \<Longrightarrow> queue r' = tl (queue r)"
  by (metis finish_queue fst_conv)

text \<open>The \<open>while self.active is not None\<close> loop of \<open>abandon\<close>.\<close>

function abandon_loop :: "receiver \<Rightarrow> time \<Rightarrow> string \<Rightarrow> string list \<Rightarrow> receiver \<times> string list" where
  "abandon_loop r now reason abandoned =
     (if active r = None then (r, abandoned)
      else case finish r FAILED reason now True of
        (r', Inl e) \<Rightarrow> (r', abandoned)
      | (r', Inr x) \<Rightarrow>
         abandon_loop r' now reason
           (case result_event x of Some i \<Rightarrow> (if i \<noteq> [] then abandoned @ [i] else abandoned)
            | None \<Rightarrow> abandoned))"
  by pat_completeness auto
termination
  by (relation "measure (\<lambda>(r, now, reason, acc). length (queue r))")
    (auto simp: active_def dest!: finish_queue_eq [OF sym] split: list.splits)

declare abandon_loop.simps [simp del]

definition abandon :: "receiver \<Rightarrow> time \<Rightarrow> string \<Rightarrow> receiver \<times> string list" where
  "abandon r now reason = abandon_loop r now reason []"

section \<open>The receiver as a machine\<close>

text \<open>
  The operations of a client, each with the answers its callbacks would give. The world of
  \<open>advance\<close> counts the calls of \<open>dispatch\<close>; a step yields the results that callers see.
\<close>

datatype receiver_op =
    OpReceive string time
  | OpAdvance time bool dispatch_outcome "bool res"
  | OpConfirm time
  | OpAbandon time string
  | OpConfigure string

fun ok_result :: "'a res \<Rightarrow> 'a list" where
  "ok_result (Inl e) = []"
| "ok_result (Inr x) = [x]"

fun receiver_step :: "receiver \<Rightarrow> receiver_op \<Rightarrow> receiver \<times> receive_result list" where
  "receiver_step r (OpReceive eid now) = map_prod id ok_result (receive r eid now)"
| "receiver_step r (OpAdvance now safe d f) =
     (case advance r now safe (\<lambda>n. (Suc n, d)) (\<lambda>n. (n, f)) (0::nat) of
        (r', n, x) \<Rightarrow> (r', ok_result x))"
| "receiver_step r (OpConfirm now) = map_prod id ok_result (confirm_local_death r now)"
| "receiver_step r (OpAbandon now reason) = (fst (abandon r now reason), [])"
| "receiver_step r (OpConfigure m) = (case configure_mode r m of Inl e \<Rightarrow> (r, []) | Inr r' \<Rightarrow> (r', []))"

fun receiver_run :: "receiver \<Rightarrow> receiver_op list \<Rightarrow> receiver \<times> receive_result list" where
  "receiver_run r [] = (r, [])"
| "receiver_run r (op # ops) =
     (case receiver_step r op of (r', xs) \<Rightarrow>
        case receiver_run r' ops of (r'', ys) \<Rightarrow> (r'', xs @ ys))"

definition is_dispatched :: "string \<Rightarrow> receive_result \<Rightarrow> bool" where
  "is_dispatched e x \<longleftrightarrow> result_event x = Some e \<and> result_state x = Some COMMAND_IN_FLIGHT
     \<and> result_detail x = ''dispatched''"

definition is_queued :: "string \<Rightarrow> receive_result \<Rightarrow> bool" where
  "is_queued e x \<longleftrightarrow> result_event x = Some e \<and> result_state x = Some RECEIVED
     \<and> result_detail x = ''queued''"

section \<open>Invariant\<close>

definition event_ok :: "received_deathlink \<Rightarrow> bool" where
  "event_ok ev \<longleftrightarrow> event_id ev \<noteq> [] \<and> attempts ev \<le> 1 \<and>
     event_state ev \<in> {RECEIVED, WAITING_FOR_SAFE_GAMEPLAY, COMMAND_IN_FLIGHT} \<and>
     (attempts ev = 1 \<longleftrightarrow> event_state ev = COMMAND_IN_FLIGHT)"

definition head_suppression :: "received_deathlink list \<Rightarrow> string option" where
  "head_suppression q = (case q of [] \<Rightarrow> None
     | ev # _ \<Rightarrow> if attempts ev = 0 then None else Some (event_id ev))"

definition receiver_inv :: "receiver \<Rightarrow> bool" where
  "receiver_inv r \<longleftrightarrow> max_attempts r = Some 1 \<and> length (queue r) \<le> max_queue r \<and>
     0 < wait_timeout r \<and> 0 < total_timeout r \<and> 0 < late_suppression_grace r \<and>
     distinct (map event_id (queue r)) \<and> (\<forall>ev \<in> set (queue r). event_ok ev) \<and>
     (\<forall>ev \<in> set (tl (queue r)). attempts ev = 0 \<and> event_state ev = RECEIVED) \<and>
     suppression_event_id r = head_suppression (queue r) \<and> length (instrumentation r) \<le> 128"

definition pending :: "receiver \<Rightarrow> string \<Rightarrow> bool" where
  "pending r e \<longleftrightarrow> (\<exists>ev \<in> set (queue r). event_id ev = e \<and> attempts ev = 0)"

lemma result_of_eq:
  "result_of r eid st d now = (r', x) \<Longrightarrow>
     x = \<lparr>result_event = eid, result_state = st, result_detail = d\<rparr> \<and>
     (\<exists>ins. r' = r\<lparr>instrumentation := ins\<rparr> \<and> length ins \<le> 128)"
  by (auto simp: result_of_def Let_def deque_append_length)

lemma receiver_inv_instrumentation:
  "receiver_inv r \<Longrightarrow> length ins \<le> 128 \<Longrightarrow> receiver_inv (r\<lparr>instrumentation := ins\<rparr>)"
  by (simp add: receiver_inv_def)

lemma pending_instrumentation [simp]: "pending (r\<lparr>instrumentation := ins\<rparr>) e = pending r e"
  by (simp add: pending_def)

lemma result_of_inv:
  "result_of r eid st d now = (r', x) \<Longrightarrow> receiver_inv r \<Longrightarrow> receiver_inv r'"
  by (drule result_of_eq) (auto intro: receiver_inv_instrumentation)

lemma result_of_pending: "result_of r eid st d now = (r', x) \<Longrightarrow> pending r' e = pending r e"
  by (drule result_of_eq) auto

lemma head_suppression_fresh:
  "\<forall>ev \<in> set q. attempts ev = 0 \<and> event_state ev = RECEIVED \<Longrightarrow> head_suppression q = None"
  by (cases q) (auto simp: head_suppression_def)

lemma finish_Cons:
  assumes "finish r st d now al = (r', x)" and "queue r = ev # rest"
  shows "\<exists>late ins. length ins \<le> 128 \<and>
     r' = r\<lparr>queue := rest, late_suppression := late,
       suppression_event_id := (if suppression_event_id r = Some (event_id ev) then None
         else suppression_event_id r), instrumentation := ins\<rparr>"
  using assms
  by (intro exI [of _ "late_suppression r'"] exI [of _ "instrumentation r'"])
    (auto simp: finish_def Let_def deque_append_length)

lemma finish_inv:
  assumes fin: "finish r st d now al = (r', x)" and inv: "receiver_inv r"
  shows "receiver_inv r'"
proof (cases "queue r")
  case Nil
  with assms show ?thesis by (simp add: finish_def)
next
  case (Cons ev rest)
  obtain late ins where ins: "length ins \<le> 128" and r': "r' = r\<lparr>queue := rest,
      late_suppression := late, suppression_event_id := (if suppression_event_id r =
        Some (event_id ev) then None else suppression_event_id r), instrumentation := ins\<rparr>"
    using finish_Cons [OF fin Cons] by blast
  from inv Cons have fresh: "\<forall>ev \<in> set rest. attempts ev = 0 \<and> event_state ev = RECEIVED"
    and sup: "suppression_event_id r = head_suppression (ev # rest)"
    by (simp_all add: receiver_inv_def)
  from fresh have "head_suppression rest = None" by (rule head_suppression_fresh)
  moreover have "suppression_event_id r' = None"
    using sup by (simp add: r' head_suppression_def split: if_splits)
  moreover have "\<forall>ev \<in> set (tl rest). attempts ev = 0 \<and> event_state ev = RECEIVED"
    using fresh by (cases rest) auto
  ultimately show ?thesis
    using inv Cons ins by (simp add: receiver_inv_def r')
qed

lemma finish_pending: "finish r st d now al = (r', x) \<Longrightarrow> pending r' e \<Longrightarrow> pending r e"
  by (auto simp: finish_def Let_def pending_def split: list.splits)

lemma finish_result:
  "finish r st d now al = (r', x) \<Longrightarrow> queue r = ev # rest \<Longrightarrow>
     x = Inr \<lparr>result_event = Some (event_id ev), result_state = Some st, result_detail = d\<rparr>"
  by (auto simp: finish_def Let_def)

text \<open>Replacing the head by an event with the same identity and number of attempts.\<close>

lemma set_head_inv:
  assumes "receiver_inv r" and "queue r = ev # rest" and "event_ok ev'"
    and "event_id ev' = event_id ev" and "attempts ev' = attempts ev"
  shows "receiver_inv (set_head r ev')"
  using assms by (auto simp: receiver_inv_def set_head_def head_suppression_def)

lemma set_head_pending:
  "queue r = ev # rest \<Longrightarrow> event_id ev' = event_id ev \<Longrightarrow> attempts ev' = attempts ev \<Longrightarrow>
     pending (set_head r ev') e = pending r e"
  by (auto simp: pending_def set_head_def)

lemma queue_set_head [simp]: "queue (set_head r ev) = ev # tl (queue r)"
  by (simp add: set_head_def)

section \<open>Accounting of dispatches\<close>

text \<open>
  Each accepted dispatch of an event uses up one queued copy of it: along every step the
  dispatches of an event, plus its copies still pending, never exceed the copies queued.
\<close>

definition hits :: "('a \<Rightarrow> bool) \<Rightarrow> 'a list \<Rightarrow> nat" where
  "hits p xs = length (filter p xs)"

lemma hits_simps [simp]:
  "hits p [] = 0"
  "hits p (x # xs) = (if p x then Suc (hits p xs) else hits p xs)"
  "hits p (xs @ ys) = hits p xs + hits p ys"
  by (simp_all add: hits_def)

definition accounts :: "receiver \<Rightarrow> receiver \<Rightarrow> receive_result list \<Rightarrow> bool" where
  "accounts r r' xs \<longleftrightarrow> (\<forall>e. hits (is_dispatched e) xs + of_bool (pending r' e)
     \<le> hits (is_queued e) xs + of_bool (pending r e))"

lemma accounts_quiet:
  "(\<And>e. pending r' e \<Longrightarrow> pending r e) \<Longrightarrow> (\<And>e x. x \<in> set xs \<Longrightarrow> \<not> is_dispatched e x) \<Longrightarrow>
     accounts r r' xs"
proof -
  assume p: "\<And>e. pending r' e \<Longrightarrow> pending r e"
    and "\<And>e x. x \<in> set xs \<Longrightarrow> \<not> is_dispatched e x"
  then have "hits (is_dispatched e) xs = 0" for e by (simp add: hits_def)
  with p show ?thesis by (auto simp: accounts_def)
qed

lemma result_of_accounts:
  assumes "result_of r1 eid st d now = (r', x)" and "d \<noteq> ''dispatched''"
    and "\<And>e. pending r1 e \<Longrightarrow> pending r e"
  shows "accounts r r' [x]"
  using assms result_of_eq [OF assms(1)] result_of_pending [OF assms(1)]
  by (intro accounts_quiet) (auto simp: is_dispatched_def)

lemma finish_accounts:
  assumes "finish r1 st d now al = (r', x)" and "st \<noteq> COMMAND_IN_FLIGHT"
    and "\<And>e. pending r1 e \<Longrightarrow> pending r e"
  shows "accounts r r' (ok_result x)"
proof (rule accounts_quiet)
  show "pending r e" if "pending r' e" for e
    using finish_pending [OF assms(1) that] assms(3) by blast
  show "\<not> is_dispatched e y" if "y \<in> set (ok_result x)" for e y
    using assms(1,2) that
    by (cases x) (auto simp: finish_def Let_def is_dispatched_def split: list.splits)
qed

lemma event_ok_waiting: "event_ok ev \<Longrightarrow> event_state ev \<noteq> COMMAND_IN_FLIGHT \<Longrightarrow> attempts ev = 0"
  by (auto simp: event_ok_def)

lemma dispatch_success:
  assumes inv: "receiver_inv r" and q: "queue r = ev # rest" and a: "attempts ev = 0"
    and res: "result_of ((set_head r (ev\<lparr>attempts := attempts ev + 1,
        event_state := COMMAND_IN_FLIGHT\<rparr>))\<lparr>suppression_event_id := Some (event_id ev)\<rparr>)
        (Some (event_id ev)) (Some COMMAND_IN_FLIGHT) ''dispatched'' now = (r', x)"
  shows "receiver_inv r' \<and> accounts r r' [x]"
proof
  let ?r1 = "(set_head r (ev\<lparr>attempts := attempts ev + 1, event_state := COMMAND_IN_FLIGHT\<rparr>))
      \<lparr>suppression_event_id := Some (event_id ev)\<rparr>"
  have "receiver_inv ?r1"
    using inv q a by (auto simp: receiver_inv_def set_head_def head_suppression_def event_ok_def)
  then show "receiver_inv r'" by (rule result_of_inv [OF res])
  have pend: "pending r' e = pending ?r1 e" for e by (rule result_of_pending [OF res])
  have x: "x = \<lparr>result_event = Some (event_id ev), result_state = Some COMMAND_IN_FLIGHT,
      result_detail = ''dispatched''\<rparr>"
    using result_of_eq [OF res] by simp
  have "pending ?r1 e \<longleftrightarrow> e \<noteq> event_id ev \<and> pending r e" for e
    using inv q by (auto simp: pending_def set_head_def receiver_inv_def) (metis imageI)
  moreover have "pending r (event_id ev)"
    using q a by (auto simp: pending_def)
  ultimately show "accounts r r' [x]"
    by (auto simp: accounts_def pend x is_dispatched_def)
qed

lemma try_dispatch_step:
  assumes inv: "receiver_inv r" and q: "queue r = ev # rest"
    and st: "event_state ev \<noteq> COMMAND_IN_FLIGHT"
    and td: "try_dispatch r ev now dispatch w = (r', w', x)"
  shows "receiver_inv r' \<and> accounts r r' (ok_result x)"
proof -
  have a: "attempts ev = 0"
    using inv q st by (auto intro: event_ok_waiting simp: receiver_inv_def)
  have "max_attempts r = Some 1" using inv by (simp add: receiver_inv_def)
  obtain w1 outcome where d: "dispatch w = (w1, outcome)" by fastforce
  show ?thesis
  proof (cases "now < next_attempt_at ev")
    case True
    with td show ?thesis
      by (auto simp: try_dispatch_def split: prod.splits intro: result_of_inv [OF _ inv]
          intro!: result_of_accounts)
  next
    case False
    note go = this \<open>max_attempts r = Some 1\<close> a
    show ?thesis
    proof (cases "native_budget_refused outcome")
      case True
      let ?ev = "ev\<lparr>next_attempt_at := now + retry_interval r\<rparr>"
      have "receiver_inv (set_head r ?ev)"
        using inv q by (intro set_head_inv [OF inv q]) (auto simp: receiver_inv_def event_ok_def)
      moreover have "pending (set_head r ?ev) e = pending r e" for e
        by (rule set_head_pending [OF q]) simp_all
      ultimately show ?thesis
        using td go d True
        by (auto simp: try_dispatch_def Let_def split: prod.splits intro: result_of_inv
            intro!: result_of_accounts)
    next
      case False
      show ?thesis
      proof (cases "outcome = Returned True")
        case True
        with td go d False obtain y where "x = Inr y"
          and "result_of ((set_head r (ev\<lparr>attempts := attempts ev + 1,
            event_state := COMMAND_IN_FLIGHT\<rparr>))\<lparr>suppression_event_id := Some (event_id ev)\<rparr>)
            (Some (event_id ev)) (Some COMMAND_IN_FLIGHT) ''dispatched'' now = (r', y)"
          by (auto simp: try_dispatch_def Let_def split: prod.splits)
        with dispatch_success [OF inv q a] show ?thesis by simp
      next
        case no_success: False
        with td go d False show ?thesis
          by (auto simp: try_dispatch_def Let_def split: prod.splits dispatch_outcome.splits
              bool.splits intro: finish_inv [OF _ inv] intro!: finish_accounts)
      qed
    qed
  qed
qed

text \<open>The head after the RECEIVED-to-waiting transition at the top of \<open>advance\<close>.\<close>

definition awaken :: "receiver \<Rightarrow> time \<Rightarrow> received_deathlink \<Rightarrow> received_deathlink" where
  "awaken r now ev0 = (if event_state ev0 = RECEIVED
     then ev0\<lparr>event_state := WAITING_FOR_SAFE_GAMEPLAY,
              next_attempt_at := min (next_attempt_at ev0) (now + wait_timeout r)\<rparr>
     else ev0)"

lemma awaken_simps [simp]:
  "event_id (awaken r now ev) = event_id ev"
  "attempts (awaken r now ev) = attempts ev"
  by (simp_all add: awaken_def)

lemma awaken_ok: "event_ok ev \<Longrightarrow> event_ok (awaken r now ev)"
  by (auto simp: awaken_def event_ok_def)

lemma advance_step:
  assumes inv: "receiver_inv r" and adv: "advance r now safe dispatch in_flight w = (r', w', x)"
  shows "receiver_inv r' \<and> accounts r r' (ok_result x)"
proof (cases "queue r")
  case Nil
  with adv show ?thesis
    by (auto simp: advance_def active_def split: prod.splits intro: result_of_inv [OF _ inv]
        intro!: result_of_accounts)
next
  case (Cons ev0 rest)
  let ?ev = "awaken r now ev0"
  let ?r1 = "set_head r ?ev"
  have ok: "event_ok ?ev" using inv Cons by (auto simp: receiver_inv_def intro: awaken_ok)
  have inv1: "receiver_inv ?r1" by (rule set_head_inv [OF inv Cons ok]) simp_all
  have pend1: "pending ?r1 e = pending r e" for e by (rule set_head_pending [OF Cons]) simp_all
  have keep: "receiver_inv (set_head ?r1 e') \<and> (\<forall>e. pending (set_head ?r1 e') e = pending r e)"
    if "event_ok e'" "event_id e' = event_id ev0" "attempts e' = attempts ev0" for e'
    using set_head_inv [OF inv1 _ that(1)] set_head_pending [of ?r1 ?ev "tl (queue r)"] that pend1
    by simp
  obtain w1 f where f: "in_flight w = (w1, f)" by fastforce
  note unfold = advance_def active_def Cons f awaken_def [symmetric] Let_def
  show ?thesis
  proof (cases "total_deadline ev0 \<le> now")
    case True
    with adv show ?thesis
      by (auto simp: unfold split: prod.splits intro: finish_inv [OF _ inv]
          intro!: finish_accounts)
  next
    case live: False
    show ?thesis
    proof (cases f)
      case (Inl e)
      with adv live have "r' = ?r1" "x = Inl e" by (auto simp: unfold)
      with inv1 pend1 show ?thesis by (auto intro: accounts_quiet)
    next
      case (Inr b)
      show ?thesis
      proof (cases "event_state ?ev = COMMAND_IN_FLIGHT")
        case True
        have "event_ok (?ev\<lparr>deliveries := deliveries ?ev + 1\<rparr>)"
          using ok by (simp add: event_ok_def)
        note k = keep [OF this, simplified]
        show ?thesis
        proof (cases b)
          case True
          with adv live Inr \<open>event_state ?ev = COMMAND_IN_FLIGHT\<close> show ?thesis
            by (auto simp: unfold pend1 split: prod.splits intro: result_of_inv [OF _ inv1]
                intro!: result_of_accounts)
        next
          case False
          with adv live Inr \<open>event_state ?ev = COMMAND_IN_FLIGHT\<close> k show ?thesis
            by (auto simp: unfold split: prod.splits intro: finish_inv intro!: finish_accounts)
        qed
      next
        case False
        then have a: "attempts ?ev = 0" using ok by (intro event_ok_waiting)
        show ?thesis
        proof (cases "b \<or> \<not> safe")
          case True
          have "event_ok (?ev\<lparr>unsafe_pauses := unsafe_pauses ?ev + 1\<rparr>)"
            using ok by (simp add: event_ok_def)
          note k = keep [OF this, simplified]
          from adv live Inr False True a show ?thesis
            by (auto simp: unfold pend1 k split: prod.splits if_splits
                intro: result_of_inv [OF _ inv1] result_of_inv k [THEN conjunct1]
                intro!: result_of_accounts)
        next
          case go: False
          let ?ev' = "?ev\<lparr>safe_pauses := safe_pauses ?ev + 1\<rparr>"
          have "event_ok ?ev'" using ok by (simp add: event_ok_def)
          note k = keep [OF this]
          from adv live Inr False go
          have td: "try_dispatch (set_head ?r1 ?ev') ?ev' now dispatch w1 = (r', w', x)"
            by (simp add: unfold)
          have "receiver_inv r' \<and> accounts (set_head ?r1 ?ev') r' (ok_result x)"
            using False k by (intro try_dispatch_step [OF _ _ _ td]) auto
          with k show ?thesis by (auto simp: accounts_def)
        qed
      qed
    qed
  qed
qed

lemma prune_recent_inv [simp]: "receiver_inv r \<Longrightarrow> receiver_inv (prune_recent r now)"
  by (simp add: receiver_inv_def prune_recent_def)

lemma prune_recent_queue [simp]: "queue (prune_recent r now) = queue r"
  by (simp add: prune_recent_def)

lemma receive_step:
  assumes inv: "receiver_inv r" and rcv: "receive r eid now = (r', x)"
  shows "receiver_inv r' \<and> accounts r r' (ok_result x)"
proof -
  let ?r1 = "prune_recent r now"
  let ?r2 = "?r1\<lparr>recent := AList.update eid
      (now + total_timeout ?r1 + late_suppression_grace ?r1) (recent ?r1)\<rparr>"
  let ?ev = "\<lparr>event_id = eid, event_state = RECEIVED, total_deadline = now + total_timeout ?r2,
      next_attempt_at = now, attempts = 0, deliveries = 0, safe_pauses = 0, unsafe_pauses = 0\<rparr>"
  let ?r3 = "?r2\<lparr>queue := queue ?r2 @ [?ev]\<rparr>"
  have inv1: "receiver_inv ?r1" using inv by simp
  then have inv2: "receiver_inv ?r2" by (simp add: receiver_inv_def)
  show ?thesis
  proof (cases "eid = [] \<or> map_of (recent ?r1) eid \<noteq> None \<or> eid \<in> set (queued_event_ids ?r1)
      \<or> max_queue ?r2 \<le> length (queue ?r2)")
    case True
    from inv have refl: "receiver_inv r \<and> accounts r r []" by (simp add: accounts_def)
    from True rcv refl show ?thesis
      by (auto simp: receive_def Let_def map_prod_def pending_def split: prod.splits if_splits
          intro: result_of_inv [OF _ inv1] result_of_inv [OF _ inv2] intro!: result_of_accounts)
  next
    case False
    then have new: "eid \<noteq> []" "eid \<notin> set (queued_event_ids r)" "length (queue r) < max_queue ?r2"
      by (auto simp: queued_event_ids_def)
    then have "receiver_inv ?r3"
      using inv2 by (cases "queue r")
        (auto simp: receiver_inv_def queued_event_ids_def event_ok_def head_suppression_def)
    moreover from False rcv obtain y where y: "x = Inr y"
      and res: "result_of ?r3 (Some eid) (Some RECEIVED) ''queued'' now = (r', y)"
      by (auto simp: receive_def Let_def map_prod_def split: prod.splits)
    moreover have "is_queued eid y" "\<not> is_dispatched e y" for e
      using result_of_eq [OF res] by (auto simp: is_queued_def is_dispatched_def)
    moreover have "pending r' e \<longleftrightarrow> pending r e \<or> e = eid" for e
      using result_of_pending [OF res] by (auto simp: pending_def)
    ultimately show ?thesis
      using result_of_inv [OF res] by (auto simp: accounts_def)
  qed
qed

lemma late_echo_step:
  "receiver_inv r \<Longrightarrow> late_echo r now = (r', x) \<Longrightarrow> receiver_inv r' \<and> accounts r r' (ok_result x)"
proof -
  assume inv: "receiver_inv r" and le: "late_echo r now = (r', x)"
  then have inv1: "receiver_inv (r\<lparr>late_suppression := None\<rparr>)" by (simp add: receiver_inv_def)
  from le show ?thesis
    by (auto simp: late_echo_def Let_def map_prod_def pending_def
        split: prod.splits option.splits if_splits
        intro: result_of_inv [OF _ inv] result_of_inv [OF _ inv1] intro!: result_of_accounts)
qed

lemma confirm_step:
  assumes inv: "receiver_inv r" and cf: "confirm_local_death r now = (r', x)"
  shows "receiver_inv r' \<and> accounts r r' (ok_result x)"
proof (cases "\<exists>ev. active r = Some ev \<and> suppression_event_id r = Some (event_id ev) \<and> attempts ev \<noteq> 0")
  case True
  then obtain d where "finish r RESOLVED d now False = (r', x)"
    using cf by (auto simp: confirm_local_death_def)
  then show ?thesis by (auto intro: finish_inv [OF _ inv] intro!: finish_accounts)
next
  case False
  then have "late_echo r now = (r', x)"
    using cf by (auto simp: confirm_local_death_def split: option.splits)
  with late_echo_step [OF inv] show ?thesis by blast
qed

lemma abandon_loop_step:
  "receiver_inv r \<Longrightarrow> receiver_inv (fst (abandon_loop r now reason acc)) \<and>
     queue (fst (abandon_loop r now reason acc)) = []"
proof (induction r now reason acc rule: abandon_loop.induct)
  case (1 r now reason acc)
  show ?case
  proof (cases "queue r")
    case Nil
    with 1 show ?thesis by (simp add: abandon_loop.simps [of r] active_def)
  next
    case (Cons ev rest)
    obtain r' x where f: "finish r FAILED reason now True = (r', x)" by fastforce
    then obtain y where "x = Inr y" using Cons by (auto simp: finish_result [OF f Cons])
    with 1 f Cons finish_inv [OF f] show ?thesis
      by (simp add: abandon_loop.simps [of r] active_def)
  qed
qed

lemma receiver_step_ok:
  assumes "receiver_inv r" and "receiver_step r op = (r', xs)"
  shows "receiver_inv r' \<and> accounts r r' xs"
proof (cases op)
  case (OpReceive eid now)
  with assms receive_step [OF assms(1)] show ?thesis by (auto simp: map_prod_def split: prod.splits)
next
  case (OpAdvance now safe d f)
  with assms(2) show ?thesis by (auto dest: advance_step [OF assms(1)] split: prod.splits)
next
  case (OpConfirm now)
  with assms confirm_step [OF assms(1)] show ?thesis by (auto simp: map_prod_def split: prod.splits)
next
  case (OpAbandon now reason)
  with assms abandon_loop_step [OF assms(1), of now reason "[]"] show ?thesis
    by (auto simp: abandon_def accounts_def pending_def)
next
  case (OpConfigure m)
  with assms show ?thesis
    by (auto simp: configure_mode_def validate_mode_def receiver_inv_def accounts_def pending_def
        split: sum.splits if_splits)
qed

lemma accounts_trans:
  assumes "accounts r r' xs" and "accounts r' r'' ys"
  shows "accounts r r'' (xs @ ys)"
  unfolding accounts_def
proof
  fix e
  have "hits (is_dispatched e) xs + of_bool (pending r' e) \<le> hits (is_queued e) xs + of_bool (pending r e)"
    "hits (is_dispatched e) ys + of_bool (pending r'' e) \<le> hits (is_queued e) ys + of_bool (pending r' e)"
    using assms by (auto simp: accounts_def)
  then show "hits (is_dispatched e) (xs @ ys) + of_bool (pending r'' e)
      \<le> hits (is_queued e) (xs @ ys) + of_bool (pending r e)"
    by simp
qed

lemma receiver_run_ok:
  "receiver_inv r \<Longrightarrow> receiver_run r ops = (r', xs) \<Longrightarrow> receiver_inv r' \<and> accounts r r' xs"
proof (induction ops arbitrary: r xs)
  case Nil
  then show ?case by (simp add: accounts_def)
next
  case (Cons op ops)
  obtain r1 ys zs where st: "receiver_step r op = (r1, ys)" "receiver_run r1 ops = (r', zs)"
    and xs: "xs = ys @ zs"
    using Cons.prems(2) by (auto split: prod.splits)
  have 1: "receiver_inv r1 \<and> accounts r r1 ys" using receiver_step_ok [OF Cons.prems(1) st(1)] .
  then have "receiver_inv r' \<and> accounts r1 r' zs" using Cons.IH st(2) by blast
  with 1 xs show ?case by (auto intro: accounts_trans)
qed

lemma default_receiver_inv: "default_receiver m = Inr r \<Longrightarrow> receiver_inv r \<and> queue r = []"
  by (auto simp: default_receiver_def new_receiver_def validate_mode_def receiver_inv_def
      head_suppression_def split: if_splits)

section \<open>Echo suppression\<close>

definition in_flight_event :: "receiver \<Rightarrow> string \<Rightarrow> bool" where
  "in_flight_event r e \<longleftrightarrow> (\<exists>ev. active r = Some ev \<and> event_id ev = e \<and> attempts ev = 1)"

lemma in_flight_event_suppresses:
  assumes "receiver_inv r" and "in_flight_event r e"
  obtains ev rest where "queue r = ev # rest" and "event_id ev = e" and "attempts ev = 1"
    and "event_state ev = COMMAND_IN_FLIGHT" and "suppression_event_id r = Some e"
  using assms by (auto simp: in_flight_event_def active_def receiver_inv_def event_ok_def
      head_suppression_def split: list.splits)

lemma try_dispatch_dispatched:
  assumes "try_dispatch r ev now dispatch w = (r', w', Inr x)" and "is_dispatched e x"
    and "attempts ev = 0"
  shows "in_flight_event r' e"
  using assms
  by (auto simp: try_dispatch_def Let_def is_dispatched_def in_flight_event_def active_def
      finish_def dest!: result_of_eq
      split: prod.splits if_splits dispatch_outcome.splits bool.splits list.splits)

lemma advance_dispatched:
  assumes inv: "receiver_inv r" and adv: "advance r now safe dispatch in_flight w = (r', w', Inr x)"
    and disp: "is_dispatched e x"
  shows "in_flight_event r' e"
proof (cases "queue r")
  case Nil
  with adv disp show ?thesis
    by (auto simp: advance_def active_def is_dispatched_def dest!: result_of_eq split: prod.splits)
next
  case (Cons ev0 rest)
  let ?ev = "awaken r now ev0"
  have ok: "event_ok ?ev" using inv Cons by (auto simp: receiver_inv_def intro: awaken_ok)
  obtain w1 f where f: "in_flight w = (w1, f)" by fastforce
  note unfold = advance_def active_def Cons f awaken_def [symmetric] Let_def
  show ?thesis
  proof (cases "now < total_deadline ev0 \<and> event_state ?ev \<noteq> COMMAND_IN_FLIGHT
      \<and> f = Inr False \<and> safe")
    case True
    let ?ev' = "?ev\<lparr>safe_pauses := safe_pauses ?ev + 1\<rparr>"
    from True adv
    have "try_dispatch (set_head (set_head r ?ev) ?ev') ?ev' now dispatch w1 = (r', w', Inr x)"
      by (auto simp: unfold)
    from try_dispatch_dispatched [OF this disp] event_ok_waiting [OF ok] True show ?thesis by simp
  next
    case False
    with adv disp show ?thesis
      by (auto simp: unfold is_dispatched_def finish_def dest!: result_of_eq
          split: prod.splits if_splits sum.splits list.splits)
  qed
qed

lemma confirm_fresh_head:
  assumes "receiver_inv r" and "\<forall>ev. active r = Some ev \<longrightarrow> attempts ev = 0"
  shows "confirm_local_death r t = late_echo r t"
  using assms by (auto simp: confirm_local_death_def split: option.splits)

lemma finish_head_fresh:
  assumes "receiver_inv r" and "finish r st d now al = (r', x)"
  shows "\<forall>ev. active r' = Some ev \<longrightarrow> attempts ev = 0"
  using assms finish_queue_eq [OF assms(2)]
  by (auto simp: active_def receiver_inv_def split: list.splits)

section \<open>Properties\<close>

text \<open>Property C3. Starting from a fresh receiver, whatever operations run and whatever the
  native side answers, no received event is dispatched more often than it was queued: a
  DeathLink kills the local player at most once per accepted receipt.\<close>

theorem dispatch_at_most_once:
  assumes "default_receiver m = Inr r0" and "receiver_run r0 ops = (r, xs)"
  shows "hits (is_dispatched e) xs \<le> hits (is_queued e) xs"
proof -
  have "receiver_inv r0" "queue r0 = []" using default_receiver_inv [OF assms(1)] by auto
  with receiver_run_ok [OF _ assms(2)] have "accounts r0 r xs" "\<not> pending r0 e"
    by (auto simp: pending_def)
  then show ?thesis by (auto simp: accounts_def dest: spec [of _ e])
qed

text \<open>In every reachable state the queue holds at most \<open>max_queue\<close> (4) distinct
  events, only its head has been dispatched, and a suppression is armed exactly for a
  dispatched head.\<close>

theorem receiver_queue_bounded:
  assumes "default_receiver m = Inr r0" and "receiver_run r0 ops = (r, xs)"
  shows "length (queue r) \<le> max_queue r \<and> distinct (queued_event_ids r)
    \<and> (\<forall>ev \<in> set (tl (queue r)). attempts ev = 0)
    \<and> suppression_event_id r = head_suppression (queue r) \<and> length (instrumentation r) \<le> 128"
  using receiver_run_ok [OF _ assms(2)] default_receiver_inv [OF assms(1)]
  by (auto simp: receiver_inv_def queued_event_ids_def)

text \<open>Once \<open>advance\<close> has dispatched an event, the next local death is attributed
  to it: it resolves the event as an echo, so it is not sent out as a death of this player.\<close>

theorem dispatched_death_is_echo:
  assumes inv: "receiver_inv r" and adv: "advance r now safe dispatch in_flight w = (r', w', Inr x)"
    and disp: "is_dispatched e x"
  shows "snd (confirm_local_death r' t) = Inr \<lparr>result_event = Some e,
    result_state = Some RESOLVED, result_detail = ''echo_suppressed''\<rparr>"
proof -
  have inv': "receiver_inv r'" using advance_step [OF inv adv] by blast
  from in_flight_event_suppresses [OF inv' advance_dispatched [OF inv adv disp]]
  obtain ev rest where "queue r' = ev # rest" "event_id ev = e" "attempts ev = 1"
    "event_state ev = COMMAND_IN_FLIGHT" "suppression_event_id r' = Some e" .
  then show ?thesis by (simp add: confirm_local_death_def active_def finish_def Let_def)
qed

text \<open>A delivered kill whose death arrives late is suppressed once and only once:
  after the native side has consumed the dispatched event, the first local death within the
  grace period is a late echo, and the next one is a death of the player's own.\<close>

theorem late_echo_suppressed_once:
  assumes inv: "receiver_inv r" and fl: "in_flight_event r e"
    and live: "\<forall>ev. active r = Some ev \<longrightarrow> now < total_deadline ev"
    and adv: "advance r now safe dispatch (\<lambda>w. (w, Inr False)) w = (r', w', x)"
    and grace: "t \<le> now + late_suppression_grace r"
    and c1: "confirm_local_death r' t = (r1, y1)" and c2: "confirm_local_death r1 t' = (r2, y2)"
  shows "x = Inr \<lparr>result_event = Some e, result_state = Some APPLIED, result_detail = ''accepted''\<rparr>
    \<and> y1 = Inr \<lparr>result_event = Some e, result_state = Some APPLIED,
        result_detail = ''late_echo_suppressed''\<rparr>
    \<and> y2 = Inr \<lparr>result_event = None, result_state = None, result_detail = ''not_linked''\<rparr>"
proof -
  obtain ev rest where q: "queue r = ev # rest" and ev: "event_id ev = e" "attempts ev = 1"
    "event_state ev = COMMAND_IN_FLIGHT" "suppression_event_id r = Some e"
    using in_flight_event_suppresses [OF inv fl] .
  have inv': "receiver_inv r'" using advance_step [OF inv adv] by blast
  from live q have "now < total_deadline ev" by (simp add: active_def)
  then have x: "x = Inr \<lparr>result_event = Some e, result_state = Some APPLIED, result_detail = ''accepted''\<rparr>"
    and late: "late_suppression r' = Some (e, now + late_suppression_grace r)"
    and q': "queue r' = rest"
    using adv q ev by (auto simp: advance_def active_def finish_def set_head_def Let_def)
  have fresh: "\<forall>a. active r' = Some a \<longrightarrow> attempts a = 0"
    using inv q q' by (auto simp: receiver_inv_def active_def split: list.splits)
  have y1: "y1 = Inr \<lparr>result_event = Some e, result_state = Some APPLIED,
      result_detail = ''late_echo_suppressed''\<rparr>" and "queue r1 = rest" "late_suppression r1 = None"
    using c1 late grace q' unfolding confirm_fresh_head [OF inv' fresh]
    by (auto simp: late_echo_def Let_def map_prod_def dest!: result_of_eq split: prod.splits)
  moreover have "receiver_inv r1" using confirm_step [OF inv' c1] by blast
  ultimately have "y2 = Inr \<lparr>result_event = None, result_state = None, result_detail = ''not_linked''\<rparr>"
    using c2 fresh q' confirm_fresh_head [of r1 t']
    by (auto simp: active_def late_echo_def map_prod_def dest!: result_of_eq
        split: prod.splits list.splits)
  with x y1 show ?thesis by blast
qed

text \<open>An event is never held past its deadline: the first \<open>advance\<close> at or after
  the total deadline drops it as expired, without asking the native side anything.\<close>

theorem overdue_event_expires:
  assumes "active r = Some ev" and "total_deadline ev \<le> now"
  shows "\<exists>r'. advance r now safe dispatch in_flight w = (r', w, Inr \<lparr>result_event = Some (event_id ev),
      result_state = Some EXPIRED, result_detail = ''total_timeout''\<rparr>) \<and> queue r' = tl (queue r)"
proof -
  from assms(1) have q: "queue r = ev # tl (queue r)" by (auto simp: active_def split: list.splits)
  obtain r' x where f: "finish r EXPIRED ''total_timeout'' now True = (r', x)" by fastforce
  with assms finish_result [OF f q] finish_queue_eq [OF f] show ?thesis
    by (simp add: advance_def)
qed

section \<open>Witnesses\<close>

definition sample_receiver :: receiver where
  "sample_receiver = \<lparr>wait_timeout = 20, confirm_timeout = 10, retry_interval = 2,
     burst_interval = 1/2, total_timeout = 60, late_suppression_grace = 15,
     receiver_mode = ''soft'', max_burst_hits = 1, max_attempts = Some 1, max_queue = 4,
     queue = [], recent = [], suppression_event_id = None, late_suppression = None,
     instrumentation = []\<rparr>"

lemma sample_receiver_default: "default_receiver ''soft'' = Inr sample_receiver"
  by (simp add: default_receiver_def new_receiver_def validate_mode_def sample_receiver_def)

definition sample_queued :: receiver where
  "sample_queued = fst (receive sample_receiver ''e1'' 0)"

definition sample_flight :: receiver where
  "sample_flight = fst (advance sample_queued 1 True (\<lambda>n. (Suc n, Returned True))
     (\<lambda>n. (n, Inr False)) (0::nat))"

lemmas receiver_eval = receive_def advance_def try_dispatch_def active_def result_of_def finish_def
  prune_recent_def queued_event_ids_def set_head_def native_budget_refused_def deque_append_def
  Let_def

lemma sample_queued_inv: "receiver_inv sample_queued"
  using receiver_run_ok [of sample_receiver "[OpReceive ''e1'' 0]"]
    default_receiver_inv [OF sample_receiver_default]
  by (simp add: sample_queued_def map_prod_def case_prod_beta)

lemma sample_dispatch:
  "advance sample_queued 1 True (\<lambda>n. (Suc n, Returned True)) (\<lambda>n. (n, Inr False)) (0::nat)
     = (sample_flight, 1, Inr \<lparr>result_event = Some ''e1'', result_state = Some COMMAND_IN_FLIGHT,
          result_detail = ''dispatched''\<rparr>)"
  by (simp add: sample_flight_def sample_queued_def sample_receiver_def receiver_eval)

lemma sample_flight_inv: "receiver_inv sample_flight" "in_flight_event sample_flight ''e1''"
  using advance_step [OF sample_queued_inv sample_dispatch]
    advance_dispatched [OF sample_queued_inv sample_dispatch, of "''e1''"]
  by (simp_all add: is_dispatched_def)

theorem dispatch_at_most_once_witness:
  "\<exists>r xs. receiver_run sample_receiver
     [OpReceive ''e1'' 0, OpReceive ''e1'' 1, OpAdvance 2 True (Returned True) (Inr False)] = (r, xs)
   \<and> hits (is_dispatched ''e1'') xs = 1 \<and> hits (is_dispatched ''e1'') xs \<le> hits (is_queued ''e1'') xs"
proof -
  obtain r xs where run: "receiver_run sample_receiver
     [OpReceive ''e1'' 0, OpReceive ''e1'' 1, OpAdvance 2 True (Returned True) (Inr False)] = (r, xs)"
    by fastforce
  moreover have "hits (is_dispatched ''e1'') xs = 1"
    using run by (auto simp: sample_receiver_def receiver_eval is_dispatched_def)
  ultimately show ?thesis
    using dispatch_at_most_once [OF sample_receiver_default run, of "''e1''"] by blast
qed

theorem receiver_queue_bounded_witness:
  "length (queue (fst (receiver_run sample_receiver [OpReceive ''e1'' 0, OpReceive ''e2'' 1]))) \<le> 4"
proof -
  obtain r xs where run: "receiver_run sample_receiver [OpReceive ''e1'' 0, OpReceive ''e2'' 1] = (r, xs)"
    by fastforce
  moreover have "max_queue r = 4" using run by (auto simp: sample_receiver_def receiver_eval)
  ultimately show ?thesis
    using receiver_queue_bounded [OF sample_receiver_default run] by simp
qed

theorem dispatched_death_is_echo_witness:
  "snd (confirm_local_death sample_flight 3) = Inr \<lparr>result_event = Some ''e1'',
     result_state = Some RESOLVED, result_detail = ''echo_suppressed''\<rparr>"
  by (rule dispatched_death_is_echo [OF sample_queued_inv sample_dispatch])
    (simp add: is_dispatched_def)

theorem late_echo_suppressed_once_witness:
  "\<exists>r' w' x r1 y1 r2 y2. advance sample_flight 5 True (\<lambda>n. (Suc n, Returned True))
      (\<lambda>w. (w, Inr False)) (0::nat) = (r', w', x)
    \<and> confirm_local_death r' 9 = (r1, y1) \<and> confirm_local_death r1 10 = (r2, y2)
    \<and> y1 = Inr \<lparr>result_event = Some ''e1'', result_state = Some APPLIED,
        result_detail = ''late_echo_suppressed''\<rparr>
    \<and> y2 = Inr \<lparr>result_event = None, result_state = None, result_detail = ''not_linked''\<rparr>"
proof -
  obtain r' w' x where adv: "advance sample_flight 5 True (\<lambda>n. (Suc n, Returned True))
      (\<lambda>w. (w, Inr False)) (0::nat) = (r', w', x)" using prod_cases3 by blast
  obtain r1 y1 where c1: "confirm_local_death r' 9 = (r1, y1)" by fastforce
  obtain r2 y2 where c2: "confirm_local_death r1 10 = (r2, y2)" by fastforce
  have "\<forall>ev. active sample_flight = Some ev \<longrightarrow> 5 < total_deadline ev"
    and "9 \<le> 5 + late_suppression_grace sample_flight"
    by (simp_all add: sample_flight_def sample_queued_def sample_receiver_def receiver_eval)
  with late_echo_suppressed_once [OF sample_flight_inv _ adv _ c1 c2] adv c1 c2
  show ?thesis by blast
qed

theorem overdue_event_expires_witness:
  "\<exists>r'. advance sample_queued 60 True (\<lambda>n. (Suc n, Returned True)) (\<lambda>n. (n, Inr False)) (0::nat)
     = (r', 0, Inr \<lparr>result_event = Some ''e1'', result_state = Some EXPIRED,
         result_detail = ''total_timeout''\<rparr>) \<and> queue r' = []"
proof -
  obtain ev where ev: "active sample_queued = Some ev" "event_id ev = ''e1''" "total_deadline ev = 60"
    "tl (queue sample_queued) = []"
    by (simp add: sample_queued_def sample_receiver_def receiver_eval)
  from overdue_event_expires [OF ev(1), of 60] ev show ?thesis by simp
qed

end
