(* ===== verification/DeathLink_Session.thy ===== *)
theory DeathLink_Session
  imports DeathLink_Receive Sha256 PyValue
begin

text \<open>
  The room-bound DeathLink policy of \<open>doom_eap/runtime/deathlink_session.py\<close> over the receive
  machine, and the publication port of \<open>doom_eap/runtime/deathlink_publication.py\<close>.

  The clock, the random message template, the persistence callback and the publication port
  are arguments. \<open>report_local_death\<close> awaits the transport once: it is split there into
  \<open>begin_report\<close> and \<open>finish_report\<close>, so that any operation can run in between. The native
  link is a function from requests to answers; its answer carries the fields that
  the port and the receive machine read. Message templates use the plain field \<open>{player}\<close>, as the templates of the
  client do. Logging is left out.
\<close>

section \<open>Publication port\<close>

record native_answer =
  na_outcome :: int
  na_remote_state :: int
  na_remote_event :: nat
  na_state :: "int option"
  na_reason :: "int option"

text \<open>An exception of the link, with the state and reason of its \<open>native_result\<close> when it has one.\<close>

datatype link_error = Link_error (le_exn: exn) (le_native: "(int option \<times> int option) option")

record native_request =
  nr_kind :: int
  nr_enabled :: bool
  nr_mode :: string
  nr_event :: nat
  nr_hash :: "nat list"

type_synonym 'w deathlink_link = "native_request \<Rightarrow> 'w \<Rightarrow> 'w \<times> (link_error + native_answer)"

definition request :: "int \<Rightarrow> native_request" where
  "request kind = \<lparr>nr_kind = kind, nr_enabled = False, nr_mode = ''soft'', nr_event = 0,
     nr_hash = replicate 16 0\<rparr>"

definition hex_value :: "char \<Rightarrow> nat" where
  "hex_value c = (if is_digit c then of_char c - 48 else of_char c - 87)"

fun from_hex :: "string \<Rightarrow> nat list" where \<comment> \<open>\<open>bytes.fromhex\<close> of a lower-case hex digest\<close>
  "from_hex (a # b # s) = (16 * hex_value a + hex_value b) # from_hex s"
| "from_hex _ = []"

fun little_endian :: "nat list \<Rightarrow> nat" where
  "little_endian [] = 0"
| "little_endian (b # bs) = b + 256 * little_endian bs"

definition identity :: "string \<Rightarrow> nat \<times> nat list" where
  "identity event =
     (let digest = from_hex event; n = little_endian (take 8 digest)
      in (if n = 0 then 1 else n, take 16 (drop 8 digest)))"

fun refused :: "int \<Rightarrow> link_error \<Rightarrow> dispatch_outcome" where
  "refused kind (Link_error e (Some (st, reason))) = Refused kind st reason"
| "refused kind (Link_error e None) = Raised (exn_type e)"

definition publication_dispatch :: "'w deathlink_link \<Rightarrow> string \<Rightarrow> string \<Rightarrow> 'w \<Rightarrow> 'w \<times> dispatch_outcome" where
  "publication_dispatch link event mode w =
     (let (eid, h) = identity event in
      case link ((request 1)\<lparr>nr_enabled := True, nr_mode := mode\<rparr>) w of
        (w1, Inl e) \<Rightarrow> (w1, refused 1 e)
      | (w1, Inr _) \<Rightarrow>
         (case link ((request 2)\<lparr>nr_event := eid, nr_hash := h\<rparr>) w1 of
            (w2, Inl e) \<Rightarrow> (w2, refused 2 e)
          | (w2, Inr answer) \<Rightarrow>
             (w2, if na_outcome answer \<notin> {0, 1, 7} \<or> na_remote_state answer \<in> {8, 9, 10}
                  then Refused 2 (na_state answer) (na_reason answer) else Returned True)))"

definition publication_exists :: "'w deathlink_link \<Rightarrow> received_deathlink option \<Rightarrow> 'w \<Rightarrow> 'w \<times> bool res" where
  "publication_exists link event w =
     (case event of
        None \<Rightarrow> (w, Inr False)
      | Some ev \<Rightarrow>
        (if attempts ev = 0 then (w, Inr False)
         else case link (request 0) w of
           (w1, Inl e) \<Rightarrow> (w1, Inl (le_exn e))
         | (w1, Inr answer) \<Rightarrow>
            (w1, if na_remote_event answer \<noteq> fst (identity (event_id ev))
                 then Inl (RuntimeError ''Native DeathLink event identity changed'')
                 else if na_remote_state answer \<in> {8, 9, 10}
                 then Inl (RuntimeError ''Native DeathLink failed without confirmation'')
                 else if na_remote_state answer \<notin> {1, 2, 3, 4, 6, 7}
                 then Inl (RuntimeError ''Native DeathLink effect remains unknown'')
                 else Inr (na_remote_state answer \<in> {1, 2, 3}))))"

definition publication_cancel :: "'w deathlink_link \<Rightarrow> received_deathlink option \<Rightarrow> 'w \<Rightarrow> 'w \<times> unit res" where
  "publication_cancel link event w =
     (case event of
        None \<Rightarrow> (w, Inr ())
      | Some ev \<Rightarrow>
        (if attempts ev = 0 then (w, Inr ())
         else let (eid, h) = identity (event_id ev) in
           case link ((request 5)\<lparr>nr_event := eid, nr_hash := h\<rparr>) w of
             (w1, Inl e) \<Rightarrow> (w1, Inl (le_exn e))
           | (w1, Inr _) \<Rightarrow> (w1, Inr ())))"

section \<open>The session\<close>

record deathlink_session =
  ds_receiver :: receiver
  ds_enabled :: bool
  ds_state_key :: "string option"
  ds_seen :: "string set"
  ds_confirmed_echo :: "time option"
  ds_generation :: nat
  ds_state :: pydict

definition new_session :: "receiver \<Rightarrow> deathlink_session" where
  "new_session r = \<lparr>ds_receiver = r, ds_enabled = False, ds_state_key = None, ds_seen = {},
     ds_confirmed_echo = None, ds_generation = 0, ds_state = []\<rparr>"

definition receiving :: "deathlink_session \<Rightarrow> bool" where
  "receiving s \<longleftrightarrow> active (ds_receiver s) \<noteq> None"

text \<open>The flag is assigned before the mode is validated.\<close>

definition configure_session :: "deathlink_session \<Rightarrow> bool \<Rightarrow> string \<Rightarrow> deathlink_session \<times> unit res" where
  "configure_session s enabled mode =
     (let s1 = s\<lparr>ds_enabled := enabled\<rparr> in
      case configure_mode (ds_receiver s) mode of
        Inl e \<Rightarrow> (s1, Inl e)
      | Inr r \<Rightarrow> (s1\<lparr>ds_receiver := r\<rparr>, Inr ()))"

definition invalidate_outbound :: "deathlink_session \<Rightarrow> deathlink_session" where
  "invalidate_outbound s = s\<lparr>ds_generation := ds_generation s + 1\<rparr>"

fun list_items :: "pyval \<Rightarrow> pyval list" where
  "list_items (PList xs) = xs"
| "list_items _ = []"

definition bind_session :: "deathlink_session \<Rightarrow> string option \<Rightarrow> pydict \<Rightarrow> deathlink_session" where
  "bind_session s key state =
     (let seen = strs_of (last_n 64 (list_items (dget_or state ''received_deathlink_event_ids'' (PList []))))
      in (invalidate_outbound s)\<lparr>ds_state_key := key, ds_seen := set seen,
           ds_state := dset ''received_deathlink_event_ids''
             (PList (map PStr (last_n 64 (sorted_set seen)))) state\<rparr>)"

definition abandon_session :: "deathlink_session \<Rightarrow> time \<Rightarrow> string \<Rightarrow> deathlink_session \<times> string list" where
  "abandon_session s now reason =
     (let s1 = invalidate_outbound s in
      case abandon (ds_receiver s1) now reason of
        (r, ids) \<Rightarrow> (s1\<lparr>ds_receiver := r\<rparr>, ids))"

definition observe_echo :: "deathlink_session \<Rightarrow> time option \<Rightarrow> time option \<Rightarrow> deathlink_session" where
  "observe_echo s data_time last_death_link =
     (if data_time = last_death_link \<and> data_time \<noteq> ds_confirmed_echo s
      then s\<lparr>ds_confirmed_echo := data_time\<rparr> else s)"

definition event_digest :: "pyval \<Rightarrow> string" where
  "event_digest data = sha256_hex (json_dumps data)"

text \<open>The persistence callback reads the session (it stores the seen identifiers) and may raise.\<close>

definition receive_session :: "deathlink_session \<Rightarrow> pyval \<Rightarrow> time
    \<Rightarrow> (deathlink_session \<Rightarrow> 'w \<Rightarrow> 'w \<times> unit res) \<Rightarrow> 'w \<Rightarrow> deathlink_session \<times> 'w \<times> string option res" where
  "receive_session s data now persist w =
     (if \<not> ds_enabled s then (s, w, Inr None)
      else let eid = event_digest data in
       if eid \<in> ds_seen s then (s, w, Inr None)
       else case receive (ds_receiver s) eid now of
         (r, Inl e) \<Rightarrow> (s\<lparr>ds_receiver := r\<rparr>, w, Inl e)
       | (r, Inr result) \<Rightarrow>
          (let s1 = s\<lparr>ds_receiver := r\<rparr> in
           if result_detail result = ''duplicate'' then (s1, w, Inr None)
           else if result_state result = Some FAILED then (s1, w, Inr None)
           else let s2 = s1\<lparr>ds_seen := insert eid (ds_seen s1)\<rparr> in
             case persist s2 w of
               (w1, Inl e) \<Rightarrow> (s2, w1, Inl e)
             | (w1, Inr _) \<Rightarrow> (s2, w1, Inr (Some eid))))"

text \<open>\<open>except (RuntimeError, OSError)\<close>: the classes below them.\<close>

definition runtime_or_os_error :: "string \<Rightarrow> bool" where
  "runtime_or_os_error name \<longleftrightarrow> name \<in> {''RuntimeError'', ''NotImplementedError'', ''RecursionError'',
     ''DeathLinkDispatchError'', ''WeaponPointsBlocked'', ''OSError'', ''BlockingIOError'',
     ''ChildProcessError'', ''ConnectionError'', ''BrokenPipeError'', ''ConnectionAbortedError'',
     ''ConnectionRefusedError'', ''ConnectionResetError'', ''FileExistsError'', ''FileNotFoundError'',
     ''InterruptedError'', ''IsADirectoryError'', ''NotADirectoryError'', ''PermissionError'',
     ''ProcessLookupError'', ''TimeoutError''}"

definition cancel_publication :: "('w \<Rightarrow> 'w \<times> unit res) \<Rightarrow> 'w \<Rightarrow> 'w \<times> unit res" where
  "cancel_publication cancel w =
     (case cancel w of
        (w1, Inl e) \<Rightarrow> (w1, if runtime_or_os_error (exn_type e) then Inr () else Inl e)
      | (w1, Inr _) \<Rightarrow> (w1, Inr ()))"

definition advance_session :: "deathlink_session \<Rightarrow> time \<Rightarrow> bool \<Rightarrow> (string option \<Rightarrow> 'w \<Rightarrow> 'w \<times> dispatch_outcome)
    \<Rightarrow> (string option \<Rightarrow> 'w \<Rightarrow> 'w \<times> bool res) \<Rightarrow> (string option \<Rightarrow> 'w \<Rightarrow> 'w \<times> unit res) \<Rightarrow> 'w
    \<Rightarrow> deathlink_session \<times> 'w \<times> unit res" where
  "advance_session s now safe_gameplay dispatch in_flight cancel w =
     (if \<not> ds_enabled s then (s, w, Inr ())
      else case advance (ds_receiver s) now safe_gameplay (dispatch (ds_state_key s)) (in_flight (ds_state_key s)) w of
        (r, w1, Inl e) \<Rightarrow> (s\<lparr>ds_receiver := r\<rparr>, w1, Inl e)
      | (r, w1, Inr result) \<Rightarrow>
         (if result_state result \<in> {Some EXPIRED, Some FAILED}
          then case cancel_publication (cancel (ds_state_key s)) w1 of (w2, x) \<Rightarrow> (s\<lparr>ds_receiver := r\<rparr>, w2, x)
          else (s\<lparr>ds_receiver := r\<rparr>, w1, Inr ())))"

section \<open>Local deaths\<close>

text \<open>\<open>str.format(player=player)\<close>; \<open>None\<close> is the exception of any other field or a stray brace.\<close>

function format_player :: "string \<Rightarrow> string \<Rightarrow> string option" where
  "format_player p [] = Some []"
| "format_player p (c # s) =
     (if c = CHR ''{''
      then (if starts_with s ''{'' then map_option ((#) (CHR ''{'')) (format_player p (drop 1 s))
            else if starts_with s ''player}'' then map_option ((@) p) (format_player p (drop 7 s))
            else None)
      else if c = CHR ''}''
      then (if starts_with s ''}'' then map_option ((#) (CHR ''}'')) (format_player p (drop 1 s)) else None)
      else map_option ((#) c) (format_player p s))"
  by pat_completeness auto
termination by (relation "measure (length o snd)") auto

text \<open>\<open>v == n\<close> for an integer \<open>n > 1\<close>: an equal float compares equal too.\<close>

definition py_equals_int :: "pyval \<Rightarrow> int \<Rightarrow> bool" where
  "py_equals_int v n \<longleftrightarrow> v = PInt n \<or> v = PFloat (str_int n @ ''.0'')"

definition grace_progress :: "pydict \<Rightarrow> int \<Rightarrow> int" where
  "grace_progress state grace =
     (let deaths = (case dget_or state ''death_link_grace'' (PDict []) of
            PDict progress \<Rightarrow> if py_equals_int (dget progress ''interval'') grace
              then dget_or progress ''deaths'' (PInt 0) else PInt 0
          | _ \<Rightarrow> PInt 0)
      in case deaths of PInt n \<Rightarrow> if 0 \<le> n \<and> n < grace then n else 0 | _ \<Rightarrow> 0)"

datatype report_outcome =
    Dropped
  | Report_raised exn
  | Sending (sending_cause: string) (sending_generation: nat)

definition send_report :: "deathlink_session \<Rightarrow> string option \<Rightarrow> string \<Rightarrow> report_outcome" where
  "send_report s player template =
     (let name = (case player of None \<Rightarrow> ''The Doom Slayer'' | Some p \<Rightarrow> if p = [] then ''The Doom Slayer'' else p)
      in case format_player name template of
           None \<Rightarrow> Report_raised (KeyError ''format'')
         | Some cause \<Rightarrow> Sending cause (ds_generation s))"

text \<open>The grace counter, and the two calls of \<open>persist\<close>: \<open>Inr False\<close> when this death is not sent.\<close>

definition grace_document :: "int \<Rightarrow> int \<Rightarrow> pyval" where
  "grace_document g deaths = PDict [(''interval'', PInt g), (''deaths'', PInt deaths)]"

definition count_grace :: "deathlink_session \<Rightarrow> int \<Rightarrow> (deathlink_session \<Rightarrow> 'w \<Rightarrow> 'w \<times> unit res) \<Rightarrow> 'w
    \<Rightarrow> deathlink_session \<times> 'w \<times> bool res" where
  "count_grace s g persist w =
     (if g > 1
      then (let deaths = (grace_progress (ds_state s) g + 1) mod g;
                s1 = s\<lparr>ds_state := dset ''death_link_grace'' (grace_document g deaths) (ds_state s)\<rparr>
            in case persist s1 w of (w1, saved) \<Rightarrow> (s1, w1, bind_res saved (\<lambda>_. Inr (deaths = 0))))
      else (let s1 = s\<lparr>ds_state := dpop ''death_link_grace'' (ds_state s)\<rparr>
            in if dget (ds_state s) ''death_link_grace'' \<noteq> PNone
               then case persist s1 w of (w1, saved) \<Rightarrow> (s1, w1, bind_res saved (\<lambda>_. Inr True))
               else (s1, w, Inr True)))"

definition report_death :: "deathlink_session \<Rightarrow> string option \<Rightarrow> int \<Rightarrow> string
    \<Rightarrow> (deathlink_session \<Rightarrow> 'w \<Rightarrow> 'w \<times> unit res) \<Rightarrow> 'w \<Rightarrow> deathlink_session \<times> 'w \<times> report_outcome" where
  "report_death s player g template persist w =
     (case count_grace s g persist w of
        (s1, w1, Inl e) \<Rightarrow> (s1, w1, Report_raised e)
      | (s1, w1, Inr due) \<Rightarrow> (s1, w1, if due then send_report s1 player template else Dropped))"

definition echo_detail :: "string \<Rightarrow> bool" where
  "echo_detail d \<longleftrightarrow> d \<in> {''echo_suppressed'', ''late_echo_suppressed'', ''second_hit_cancelled_player_dead''}"

definition begin_report :: "deathlink_session \<Rightarrow> string option \<Rightarrow> pyval \<Rightarrow> time \<Rightarrow> string
    \<Rightarrow> (string option \<Rightarrow> 'w \<Rightarrow> 'w \<times> unit res) \<Rightarrow> (deathlink_session \<Rightarrow> 'w \<Rightarrow> 'w \<times> unit res) \<Rightarrow> 'w
    \<Rightarrow> deathlink_session \<times> 'w \<times> report_outcome" where
  "begin_report s player grace now template cancel persist w =
     (if \<not> (is_int grace \<and> 0 \<le> the_int grace \<and> the_int grace \<le> 2147483647)
      then (s, w, Report_raised (ValueError ''DeathLink Grace must be a whole number from 0 to 2147483647''))
      else if \<not> ds_enabled s then (s, w, Dropped)
      else case confirm_local_death (ds_receiver s) now of
        (r, Inl e) \<Rightarrow> (s\<lparr>ds_receiver := r\<rparr>, w, Report_raised e)
      | (r, Inr result) \<Rightarrow>
         (let s1 = s\<lparr>ds_receiver := r\<rparr> in
          if echo_detail (result_detail result)
          then (case cancel_publication (cancel (ds_state_key s)) w of
                  (w1, Inl e) \<Rightarrow> (s1, w1, Report_raised e)
                | (w1, Inr _) \<Rightarrow> (s1, w1, Dropped))
          else report_death s1 player (the_int grace) template persist w))"

text \<open>The rest of the coroutine, once the transport has returned or raised.\<close>

datatype report_end = Stale | Emitted string | End_raised exn

definition finish_report :: "deathlink_session \<Rightarrow> string \<Rightarrow> nat \<Rightarrow> unit res \<Rightarrow> report_end" where
  "finish_report s cause generation sent =
     (if generation \<noteq> ds_generation s then Stale
      else case sent of Inl e \<Rightarrow> End_raised e | Inr _ \<Rightarrow> Emitted cause)"

section \<open>The session as a machine\<close>

text \<open>The operations of a client with the answers of their callbacks, and what they show.\<close>

datatype session_op =
    S_configure bool string
  | S_bind "string option" pydict
  | S_abandon time string
  | S_echo "time option" "time option"
  | S_receive pyval time "unit res"
  | S_advance time bool dispatch_outcome "bool res" "unit res"
  | S_report "string option" pyval time string "unit res" "unit res"

datatype session_event = Accepted string | Sends string

definition answering :: "'r \<Rightarrow> 'a \<Rightarrow> unit \<Rightarrow> unit \<times> 'r" where
  "answering r a w = (w, r)"

definition session_step :: "deathlink_session \<Rightarrow> session_op \<Rightarrow> deathlink_session \<times> session_event list" where
  "session_step s op = (case op of
     S_configure enabled mode \<Rightarrow> (fst (configure_session s enabled mode), [])
   | S_bind key state \<Rightarrow> (bind_session s key state, [])
   | S_abandon now reason \<Rightarrow> (fst (abandon_session s now reason), [])
   | S_echo a b \<Rightarrow> (observe_echo s a b, [])
   | S_receive data now p \<Rightarrow>
       (case receive_session s data now (answering p) () of
          (s', _, Inr (Some e)) \<Rightarrow> (s', [Accepted e])
        | (s', _, _) \<Rightarrow> (s', []))
   | S_advance now safe d f c \<Rightarrow>
       (fst (advance_session s now safe (answering d) (answering f) (answering c) ()), [])
   | S_report player grace now template c p \<Rightarrow>
       (case begin_report s player grace now template (answering c) (answering p) () of
          (s', _, Sending cause g) \<Rightarrow> (s', [Sends cause])
        | (s', _, _) \<Rightarrow> (s', [])))"

fun session_run :: "deathlink_session \<Rightarrow> session_op list \<Rightarrow> deathlink_session \<times> session_event list" where
  "session_run s [] = (s, [])"
| "session_run s (op # ops) =
     (case session_step s op of (s', xs) \<Rightarrow>
        case session_run s' ops of (s'', ys) \<Rightarrow> (s'', xs @ ys))"

fun invalidating :: "session_op \<Rightarrow> bool" where
  "invalidating (S_bind key state) = True"
| "invalidating (S_abandon now reason) = True"
| "invalidating _ = False"

fun binding :: "session_op \<Rightarrow> bool" where
  "binding (S_bind key state) = True"
| "binding _ = False"

section \<open>Generations\<close>

lemma count_grace_fields:
  "ds_generation (fst (count_grace s g persist w)) = ds_generation s"
  "ds_seen (fst (count_grace s g persist w)) = ds_seen s"
  "ds_enabled (fst (count_grace s g persist w)) = ds_enabled s"
  "ds_receiver (fst (count_grace s g persist w)) = ds_receiver s"
  by (simp_all add: count_grace_def Let_def split: prod.split)

lemma send_report_generation: "send_report s player template = Sending cause g \<Longrightarrow> g = ds_generation s"
  by (auto simp: send_report_def Let_def split: option.splits)

lemma report_death_generation:
  assumes "report_death s player g template persist w = (s', w', out)"
  shows "ds_generation s' = ds_generation s" "ds_seen s' = ds_seen s"
    "out = Sending cause n \<Longrightarrow> n = ds_generation s"
proof -
  obtain s1 w1 x where c: "count_grace s g persist w = (s1, w1, x)" by (metis prod.exhaust)
  note f = count_grace_fields [of s g persist w, unfolded c, simplified]
  show "ds_generation s' = ds_generation s" "ds_seen s' = ds_seen s"
    using assms f by (cases x; simp add: report_death_def c)+
  show "n = ds_generation s" if "out = Sending cause n"
    using assms f that send_report_generation
    by (cases x) (auto simp: report_death_def c split: if_splits)
qed

lemma begin_report_generation:
  assumes "begin_report s player grace now template cancel persist w = (s', w', out)"
  shows "ds_generation s' = ds_generation s \<and> ds_seen s' = ds_seen s \<and>
    (\<forall>cause n. out = Sending cause n \<longrightarrow> n = ds_generation s)"
proof (cases "is_int grace \<and> 0 \<le> the_int grace \<and> the_int grace \<le> 2147483647 \<and> ds_enabled s")
  case False
  with assms show ?thesis by (auto simp: begin_report_def split: if_splits)
next
  case True
  obtain r x where c: "confirm_local_death (ds_receiver s) now = (r, x)" by fastforce
  let ?s1 = "s\<lparr>ds_receiver := r\<rparr>"
  note en = True
  show ?thesis
  proof (cases x)
    case (Inl e)
    with assms en show ?thesis by (auto simp: begin_report_def c)
  next
    case (Inr result)
    obtain w1 y where k: "cancel_publication (cancel (ds_state_key s)) w = (w1, y)" by fastforce
    show ?thesis
    proof (cases "echo_detail (result_detail result)")
      case True
      with assms en Inr have "s' = ?s1 \<and> (\<forall>cause n. out \<noteq> Sending cause n)"
        by (cases y) (simp_all add: begin_report_def c k Let_def, blast+)
      then show ?thesis by simp
    next
      case False
      with assms en Inr
      have "report_death ?s1 player (the_int grace) template persist w = (s', w', out)"
        by (simp add: begin_report_def c Let_def)
      from report_death_generation [OF this] show ?thesis by simp
    qed
  qed
qed

lemma receive_session_fields:
  assumes "receive_session s data now persist w = (s', w', x)"
  shows "ds_generation s' = ds_generation s \<and> ds_seen s \<subseteq> ds_seen s' \<and>
    (\<forall>e. x = Inr (Some e) \<longrightarrow> e \<in> ds_seen s' - ds_seen s)"
proof (cases "ds_enabled s \<and> event_digest data \<notin> ds_seen s")
  case False
  with assms show ?thesis by (auto simp: receive_session_def Let_def split: if_splits)
next
  case True
  let ?eid = "event_digest data"
  obtain r y where c: "receive (ds_receiver s) ?eid now = (r, y)" by fastforce
  let ?s2 = "s\<lparr>ds_receiver := r, ds_seen := insert ?eid (ds_seen s)\<rparr>"
  obtain w1 z where p: "persist ?s2 w = (w1, z)" by fastforce
  show ?thesis
  proof (cases y)
    case (Inl e)
    with assms True c show ?thesis by (auto simp: receive_session_def Let_def)
  next
    case (Inr result)
    show ?thesis
    proof (cases "result_detail result = ''duplicate'' \<or> result_state result = Some FAILED")
      case True
      then have "s' = s\<lparr>ds_receiver := r\<rparr> \<and> x = Inr None"
        using assms \<open>ds_enabled s \<and> _\<close> c Inr by (elim disjE) (simp_all add: receive_session_def Let_def split: if_splits)
      then show ?thesis by simp
    next
      case False
      then have "s' = ?s2 \<and> x = (case z of Inl e \<Rightarrow> Inl e | Inr _ \<Rightarrow> Inr (Some ?eid))"
        using assms True c Inr p by (cases z) (simp_all add: receive_session_def Let_def)
      with True show ?thesis by (cases z) auto
    qed
  qed
qed

lemma advance_session_fields:
  "ds_generation (fst (advance_session s now safe d f c w)) = ds_generation s"
  "ds_seen (fst (advance_session s now safe d f c w)) = ds_seen s"
  by (simp_all add: advance_session_def split: prod.split sum.split)

lemma configure_session_fields:
  "ds_generation (fst (configure_session s b m)) = ds_generation s"
  "ds_seen (fst (configure_session s b m)) = ds_seen s"
  by (simp_all add: configure_session_def Let_def split: sum.split)

lemma abandon_session_fields:
  "ds_generation (fst (abandon_session s now reason)) = ds_generation s + 1"
  "ds_seen (fst (abandon_session s now reason)) = ds_seen s"
  by (simp_all add: abandon_session_def invalidate_outbound_def Let_def split: prod.split)

lemma observe_echo_fields:
  "ds_generation (observe_echo s a b) = ds_generation s" "ds_seen (observe_echo s a b) = ds_seen s"
  by (simp_all add: observe_echo_def)

lemma bind_session_generation: "ds_generation (bind_session s k d) = ds_generation s + 1"
  by (simp add: bind_session_def invalidate_outbound_def Let_def)

lemmas session_fields = advance_session_fields configure_session_fields abandon_session_fields
  observe_echo_fields bind_session_generation

lemma session_step_cases:
  assumes "session_step s op = (s', xs)"
  shows "ds_generation s' = (if invalidating op then ds_generation s + 1 else ds_generation s)"
    "\<not> binding op \<Longrightarrow> ds_seen s \<subseteq> ds_seen s'"
    "Accepted e \<in> set xs \<Longrightarrow> e \<in> ds_seen s' - ds_seen s"
    "distinct xs"
proof -
  have "ds_generation s' = (if invalidating op then ds_generation s + 1 else ds_generation s) \<and>
    (\<not> binding op \<longrightarrow> ds_seen s \<subseteq> ds_seen s') \<and> (Accepted e \<in> set xs \<longrightarrow> e \<in> ds_seen s' - ds_seen s) \<and>
    distinct xs" for e
  proof (cases op)
    case (S_report player grace now template c p)
    obtain s1 w1 out where r: "begin_report s player grace now template (answering c) (answering p) () = (s1, w1, out)"
      by (metis prod.exhaust)
    from assms have "s' = s1" "xs = (case out of Sending cause g \<Rightarrow> [Sends cause] | _ \<Rightarrow> [])"
      by (auto simp: session_step_def S_report r split: report_outcome.splits)
    with begin_report_generation [OF r] show ?thesis by (simp add: S_report split: report_outcome.split)
  next
    case (S_receive data now p)
    obtain s1 w1 x where r: "receive_session s data now (answering p) () = (s1, w1, x)"
      by (metis prod.exhaust)
    from assms have "s' = s1" "xs = (case x of Inr (Some e) \<Rightarrow> [Accepted e] | _ \<Rightarrow> [])"
      by (auto simp: session_step_def S_receive r split: sum.splits option.splits)
    with receive_session_fields [OF r] show ?thesis by (auto simp: S_receive split: sum.splits option.splits)
  qed (use assms in \<open>auto simp: session_step_def session_fields\<close>)
  then show "ds_generation s' = (if invalidating op then ds_generation s + 1 else ds_generation s)"
    "\<not> binding op \<Longrightarrow> ds_seen s \<subseteq> ds_seen s'" "Accepted e \<in> set xs \<Longrightarrow> e \<in> ds_seen s' - ds_seen s"
    "distinct xs" by blast+
qed

lemma session_run_generation:
  "session_run s ops = (s', xs) \<Longrightarrow>
     ds_generation s' = ds_generation s + length (filter invalidating ops)"
proof (induction ops arbitrary: s s' xs)
  case (Cons op ops)
  then show ?case
    by (auto split: prod.splits dest!: session_step_cases(1))
qed simp

section \<open>Seen events\<close>

fun accepted_ids :: "session_event list \<Rightarrow> string list" where
  "accepted_ids [] = []"
| "accepted_ids (Accepted e # xs) = e # accepted_ids xs"
| "accepted_ids (Sends c # xs) = accepted_ids xs"

lemma accepted_ids_append [simp]: "accepted_ids (xs @ ys) = accepted_ids xs @ accepted_ids ys"
  by (induction xs rule: accepted_ids.induct) auto

lemma set_accepted_ids [simp]: "e \<in> set (accepted_ids xs) \<longleftrightarrow> Accepted e \<in> set xs"
  by (induction xs rule: accepted_ids.induct) auto

lemma distinct_accepted_ids: "distinct xs \<Longrightarrow> distinct (accepted_ids xs)"
  by (induction xs rule: accepted_ids.induct) auto

lemma session_run_accepted:
  assumes "session_run s ops = (s', xs)" and "\<not> (\<exists>op \<in> set ops. binding op)"
  shows "ds_seen s \<subseteq> ds_seen s' \<and> distinct (accepted_ids xs) \<and> set (accepted_ids xs) \<subseteq> ds_seen s' - ds_seen s"
  using assms
proof (induction ops arbitrary: s s' xs)
  case (Cons op ops)
  obtain s1 xs1 where st: "session_step s op = (s1, xs1)" by fastforce
  obtain s2 xs2 where run: "session_run s1 ops = (s2, xs2)" by fastforce
  from Cons.prems st run have eq: "s' = s2" "xs = xs1 @ xs2" and nb: "\<not> binding op" "\<not> (\<exists>op \<in> set ops. binding op)"
    by auto
  note one = session_step_cases(2) [OF st nb(1)] session_step_cases(3,4) [OF st]
  note IH = Cons.IH [OF run nb(2)]
  have "set (accepted_ids xs1) \<subseteq> ds_seen s1 - ds_seen s" using one(2) by auto
  with IH one(1) distinct_accepted_ids [OF one(3)] show ?case unfolding eq by auto
qed simp

section \<open>Grace\<close>

definition quiet_session :: "deathlink_session \<Rightarrow> bool" where
  "quiet_session s \<longleftrightarrow> ds_enabled s \<and> active (ds_receiver s) = None \<and> late_suppression (ds_receiver s) = None"

definition death_report :: "string option \<Rightarrow> int \<Rightarrow> string \<Rightarrow> time \<Rightarrow> session_op" where
  "death_report player g template now = S_report player (PInt g) now template (Inr ()) (Inr ())"

lemma quiet_session_confirm:
  assumes "quiet_session s"
  obtains r result where "confirm_local_death (ds_receiver s) now = (r, Inr result)"
    "result_detail result = ''not_linked''" "active r = None" "late_suppression r = None"
  using assms by (simp add: confirm_local_death_def late_echo_def result_of_def Let_def quiet_session_def active_def
      split: list.splits)

lemma not_linked_no_echo: "\<not> echo_detail ''not_linked''"
  by (simp add: echo_detail_def)

lemma grace_progress_range: "0 < g \<Longrightarrow> 0 \<le> grace_progress d g \<and> grace_progress d g < g"
  by (simp add: grace_progress_def Let_def split: pyval.split)

lemma grace_progress_document:
  "0 \<le> n \<Longrightarrow> n < g \<Longrightarrow> grace_progress (dset ''death_link_grace'' (grace_document g n) d) g = n"
  by (simp add: grace_progress_def grace_document_def py_equals_int_def dget_def dget_or_def map_of_update Let_def)

lemma send_report_cong:
  "ds_generation s1 = ds_generation s \<Longrightarrow> send_report s1 player template = send_report s player template"
  by (simp add: send_report_def cong: option.case_cong)

lemma death_report_step:
  assumes "quiet_session s" and "1 < g" and "g \<le> 2147483647" and "send_report s player template = Sending cause n"
  obtains s1 where
    "session_step s (death_report player g template now) =
       (s1, if (grace_progress (ds_state s) g + 1) mod g = 0 then [Sends cause] else [])"
    "quiet_session s1" "send_report s1 player template = Sending cause n"
    "grace_progress (ds_state s1) g = (grace_progress (ds_state s) g + 1) mod g"
proof -
  let ?d = "(grace_progress (ds_state s) g + 1) mod g"
  obtain r result where c: "confirm_local_death (ds_receiver s) now = (r, Inr result)"
    and rd: "result_detail result = ''not_linked''" and r: "active r = None" "late_suppression r = None"
    using quiet_session_confirm [OF assms(1)] by metis
  let ?s1 = "s\<lparr>ds_receiver := r, ds_state := dset ''death_link_grace'' (grace_document g ?d) (ds_state s)\<rparr>"
  have send: "send_report (s\<lparr>ds_receiver := r, ds_state := d\<rparr>) player template = Sending cause n" for d
    using assms(4) send_report_cong [of "s\<lparr>ds_receiver := r, ds_state := d\<rparr>" s] by simp
  have "report_death (s\<lparr>ds_receiver := r\<rparr>) player g template (answering (Inr ())) () =
      (?s1, (), if ?d = 0 then Sending cause n else Dropped)"
    using assms(2) send by (simp add: report_death_def count_grace_def answering_def Let_def)
  then have "begin_report s player (PInt g) now template (answering (Inr ())) (answering (Inr ())) () =
      (?s1, (), if ?d = 0 then Sending cause n else Dropped)"
    using assms(1-3) c rd by (simp add: begin_report_def quiet_session_def not_linked_no_echo Let_def)
  then have st: "session_step s (death_report player g template now) = (?s1, if ?d = 0 then [Sends cause] else [])"
    by (simp add: session_step_def death_report_def)
  moreover have "quiet_session ?s1" using assms(1) r by (simp add: quiet_session_def)
  moreover have "grace_progress (ds_state ?s1) g = ?d"
    using assms(2) by (simp add: grace_progress_document)
  ultimately show ?thesis using send that by blast
qed

lemma death_reports_run:
  assumes "quiet_session s" and "1 < g" and "g \<le> 2147483647" and "send_report s player template = Sending cause n"
    and "session_run s (map (death_report player g template) nows) = (s', xs)"
  shows "xs = replicate (nat ((grace_progress (ds_state s) g + int (length nows)) div g)) (Sends cause) \<and>
    grace_progress (ds_state s') g = (grace_progress (ds_state s) g + int (length nows)) mod g"
  using assms(1,4,5)
proof (induction nows arbitrary: s s' xs)
  case Nil
  then show ?case using grace_progress_range [of g "ds_state s"] assms(2) by simp
next
  case (Cons now nows)
  let ?d = "grace_progress (ds_state s) g"
  obtain s1 where st: "session_step s (death_report player g template now) =
      (s1, if (?d + 1) mod g = 0 then [Sends cause] else [])"
    and q: "quiet_session s1" "send_report s1 player template = Sending cause n"
    and d1: "grace_progress (ds_state s1) g = (?d + 1) mod g"
    using death_report_step [OF Cons.prems(1) assms(2,3) Cons.prems(2)] by blast
  obtain s2 ys where run: "session_run s1 (map (death_report player g template) nows) = (s2, ys)" by fastforce
  from Cons.prems(3) st run have eq: "s' = s2" "xs = (if (?d + 1) mod g = 0 then [Sends cause] else []) @ ys" by auto
  note IH = Cons.IH [OF q run, unfolded d1]
  have range: "0 \<le> ?d" "?d < g" using grace_progress_range [of g "ds_state s"] assms(2) by auto
  have shift: "?d + int (length (now # nows)) = (?d + 1) + int (length nows)" by simp
  show ?case
  proof (cases "?d + 1 = g")
    case True
    then have "(?d + int (length (now # nows))) div g = 1 + int (length nows) div g"
      "(?d + int (length (now # nows))) mod g = int (length nows) mod g"
      unfolding shift using assms(2) by (simp_all add: div_add_self1)
    moreover have "nat (1 + int (length nows) div g) = Suc (nat (int (length nows) div g))"
      using assms(2) by (simp add: nat_add_distrib pos_imp_zdiv_nonneg_iff)
    ultimately show ?thesis using IH True unfolding eq by simp
  next
    case False
    with range have "(?d + 1) mod g = ?d + 1" "?d + 1 \<noteq> 0" by auto
    with IH show ?thesis unfolding eq shift by simp
  qed
qed


definition example_session :: deathlink_session where
  "example_session = (case default_receiver ''soft'' of
     Inl e \<Rightarrow> undefined | Inr r \<Rightarrow> (new_session r)\<lparr>ds_enabled := True\<rparr>)"

lemma example_session_quiet: "quiet_session example_session"
  by (simp add: example_session_def default_receiver_def new_receiver_def validate_mode_def quiet_session_def
      new_session_def active_def)

lemma example_session_fields [simp]:
  "ds_state example_session = []" "ds_seen example_session = {}" "ds_generation example_session = 0"
  by (simp_all add: example_session_def default_receiver_def new_receiver_def validate_mode_def new_session_def)

lemma example_session_sends: "send_report example_session (Some ''A'') ''{player}!'' = Sending ''A!'' 0"
  by (simp add: send_report_def starts_with_def)


text \<open>The transport is awaited with a generation captured when the report began;
  whatever runs during the wait, the sent death is announced (or the transport's exception is
  raised) exactly when nothing rebound or abandoned the session meanwhile, and a completion
  that belongs to an earlier binding is dropped silently.\<close>

theorem stale_report_is_silent:
  assumes "begin_report s player grace now template cancel persist w = (s1, w', Sending cause generation)"
    and "session_run s1 ops = (s2, xs)"
  shows "finish_report s2 cause generation sent =
    (if \<exists>op \<in> set ops. invalidating op then Stale
     else case sent of Inl e \<Rightarrow> End_raised e | Inr _ \<Rightarrow> Emitted cause)"
proof -
  from begin_report_generation [OF assms(1)] have g: "generation = ds_generation s1" by simp
  have "generation \<noteq> ds_generation s2 \<longleftrightarrow> filter invalidating ops \<noteq> []"
    using session_run_generation [OF assms(2)] g by auto
  also have "\<dots> \<longleftrightarrow> (\<exists>op \<in> set ops. invalidating op)" by (auto simp: filter_empty_conv)
  finally show ?thesis by (simp add: finish_report_def)
qed

theorem stale_report_is_silent_witness:
  "\<exists>s1 s2. fst (begin_report example_session (Some ''A'') (PInt 0) 0 ''{player}!'' (answering (Inr ())) (answering (Inr ())) ()) = s1
     \<and> fst (session_run s1 [S_abandon 1 ''disconnect'']) = s2 \<and> finish_report s2 ''A!'' 0 (Inr ()) = Stale"
proof -
  obtain r result where c: "confirm_local_death (ds_receiver example_session) 0 = (r, Inr result)"
    and rd: "result_detail result = ''not_linked''"
    using quiet_session_confirm [OF example_session_quiet] by metis
  have "\<exists>s1. begin_report example_session (Some ''A'') (PInt 0) 0 ''{player}!'' (answering (Inr ())) (answering (Inr ())) ()
      = (s1, (), Sending ''A!'' 0)"
    using example_session_quiet c rd
    by (simp add: begin_report_def quiet_session_def not_linked_no_echo report_death_def count_grace_def dget_def
        send_report_def starts_with_def Let_def)
  then obtain s1 where b: "begin_report example_session (Some ''A'') (PInt 0) 0 ''{player}!'' (answering (Inr ())) (answering (Inr ())) ()
      = (s1, (), Sending ''A!'' 0)" by blast
  obtain s2 xs where run: "session_run s1 [S_abandon 1 ''disconnect''] = (s2, xs)" by fastforce
  from stale_report_is_silent [OF b run, of "Inr ()"] b run show ?thesis by simp
qed

text \<open>Until the next binding, whatever the client does, a received death is accepted
  at most once: the accepted identifiers are pairwise distinct, none was already persisted as
  seen, all are remembered, and nothing seen is forgotten.\<close>

theorem received_death_accepted_once:
  assumes "session_run s ops = (s', xs)" and "\<not> (\<exists>op \<in> set ops. binding op)"
  shows "distinct (accepted_ids xs) \<and> set (accepted_ids xs) \<inter> ds_seen s = {} \<and>
    ds_seen s \<union> set (accepted_ids xs) \<subseteq> ds_seen s'"
  using session_run_accepted [OF assms] by blast

lemma event_digest_nonempty: "event_digest data \<noteq> []"
  unfolding event_digest_def by (metis sha256_hex_length length_0_conv zero_neq_numeral)

lemma example_session_accepts:
  "\<exists>s1. session_step example_session (S_receive PNone 1 (Inr ())) = (s1, [Accepted (event_digest PNone)])"
  by (simp add: session_step_def receive_session_def receive_def result_of_def prune_recent_def
      example_session_def default_receiver_def new_receiver_def validate_mode_def new_session_def
      queued_event_ids_def active_def answering_def event_digest_nonempty Let_def)

theorem received_death_accepted_once_witness:
  "\<exists>s' xs. session_run example_session [S_receive PNone 1 (Inr ()), S_receive PNone 2 (Inr ())] = (s', Accepted (event_digest PNone) # xs)
     \<and> Accepted (event_digest PNone) \<notin> set xs"
proof -
  obtain s1 where st: "session_step example_session (S_receive PNone 1 (Inr ())) = (s1, [Accepted (event_digest PNone)])"
    using example_session_accepts by blast
  obtain s' xs where rest: "session_run s1 [S_receive PNone 2 (Inr ())] = (s', xs)" by fastforce
  have run: "session_run example_session [S_receive PNone 1 (Inr ()), S_receive PNone 2 (Inr ())] = (s', Accepted (event_digest PNone) # xs)"
    using rest by (subst session_run.simps) (simp add: st del: session_run.simps)
  from conjunct1 [OF received_death_accepted_once [OF run]] have "Accepted (event_digest PNone) \<notin> set xs"
    by simp
  with run show ?thesis by blast
qed

end
