(* ===== verification/Death_Observation.thy ===== *)
theory Death_Observation
  imports Prelude
begin

text \<open>
  Detection of local deaths from save files, \<open>doom_eap/runtime/death_observation.py\<close>: the
  checkpoint counter of the active slot (with the carry-over of a death into the next load)
  and the \<open>game.details\<close> fallback. Slots and load epochs are texts; the sets and dictionaries
  of the object are HOL sets and maps. Logging is left out.
\<close>

record death_observation =
  do_checkpoints :: "string \<Rightarrow> bool option"
  do_initialized :: "string set"
  do_consumed_tokens :: "string set"
  do_carryover :: "string \<Rightarrow> bool option"
  do_consumed_epoch :: "string \<Rightarrow> string option option"
  do_last_event :: "string \<Rightarrow> string option"
  do_warning :: "string option"
  do_details_dead :: "bool option"
  do_details_mtime :: "int option"
  do_details_path :: "string option"
  do_namespace :: "string option"

definition fresh_observation :: death_observation where
  "fresh_observation = \<lparr>do_checkpoints = (\<lambda>_. None), do_initialized = {}, do_consumed_tokens = {},
     do_carryover = (\<lambda>_. None), do_consumed_epoch = (\<lambda>_. None), do_last_event = (\<lambda>_. None),
     do_warning = None, do_details_dead = None, do_details_mtime = None, do_details_path = None,
     do_namespace = None\<rparr>"

definition bind_namespace :: "death_observation \<Rightarrow> string option \<Rightarrow> death_observation \<times> bool" where
  "bind_namespace s ns =
     (if do_namespace s = ns then (s, False) else (fresh_observation\<lparr>do_namespace := ns\<rparr>, True))"

definition start_empty_slot :: "death_observation \<Rightarrow> string \<Rightarrow> death_observation" where
  "start_empty_slot s slot = s\<lparr>do_initialized := insert slot (do_initialized s),
     do_checkpoints := (do_checkpoints s)(slot \<mapsto> False),
     do_carryover := (do_carryover s)(slot \<mapsto> False)\<rparr>"

definition probe_failed :: "death_observation \<Rightarrow> string \<Rightarrow> death_observation" where
  "probe_failed s warning = (if Some warning \<noteq> do_warning s then s\<lparr>do_warning := Some warning\<rparr> else s)"

definition probe_succeeded :: "death_observation \<Rightarrow> death_observation" where
  "probe_succeeded s = s\<lparr>do_warning := None\<rparr>"

text \<open>One checkpoint snapshot: its two counters, and the file that was selected.\<close>

record checkpoint_snapshot =
  cs_death :: bool
  cs_raw_deaths :: "int option"
  cs_slot :: string
  cs_file :: string
  cs_mtime :: int

definition snapshot_token :: "checkpoint_snapshot \<Rightarrow> string" where
  "snapshot_token c = cs_slot c @ '':'' @ cs_file c @ '':'' @ str_int (cs_mtime c)"

definition event_identity :: "checkpoint_snapshot \<Rightarrow> string" where
  "event_identity c = snapshot_token c @ '':deaths='' @
     str_int (case cs_raw_deaths c of None \<Rightarrow> of_bool (cs_death c) | Some n \<Rightarrow> n)"

definition observe_checkpoint :: "death_observation \<Rightarrow> checkpoint_snapshot \<Rightarrow> string option
    \<Rightarrow> death_observation \<times> string option" where
  "observe_checkpoint s c load_epoch =
     (let slot = cs_slot c; died = cs_death c; token = snapshot_token c; event = event_identity c in
      if slot \<notin> do_initialized s
      then (let s1 = s\<lparr>do_initialized := insert slot (do_initialized s),
                       do_checkpoints := (do_checkpoints s)(slot \<mapsto> died)\<rparr>
            in (if died
                then s1\<lparr>do_consumed_tokens := insert token (do_consumed_tokens s1),
                        do_carryover := (do_carryover s1)(slot \<mapsto> True),
                        do_consumed_epoch := (do_consumed_epoch s1)(slot \<mapsto> load_epoch),
                        do_last_event := (do_last_event s1)(slot \<mapsto> event)\<rparr>
                else s1\<lparr>do_carryover := (do_carryover s1)(slot \<mapsto> False)\<rparr>, None))
      else
       (let s1 = s\<lparr>do_checkpoints := (do_checkpoints s)(slot \<mapsto> died)\<rparr> in
        if \<not> died then (s1\<lparr>do_carryover := (do_carryover s1)(slot \<mapsto> False)\<rparr>, None)
        else if token \<in> do_consumed_tokens s1 then (s1, None)
        else if do_carryover s1 slot = Some True
                \<and> load_epoch \<noteq> (case do_consumed_epoch s1 slot of None \<Rightarrow> None | Some e \<Rightarrow> e)
        then (s1\<lparr>do_consumed_tokens := insert token (do_consumed_tokens s1),
                 do_carryover := (do_carryover s1)(slot \<mapsto> False)\<rparr>, None)
        else (s1\<lparr>do_consumed_tokens := insert token (do_consumed_tokens s1),
                 do_carryover := (do_carryover s1)(slot \<mapsto> True),
                 do_consumed_epoch := (do_consumed_epoch s1)(slot \<mapsto> load_epoch),
                 do_last_event := (do_last_event s1)(slot \<mapsto> event)\<rparr>, Some event)))"

text \<open>\<open>game.details\<close>: \<open>None\<close> is an empty dictionary.\<close>

record details =
  de_died :: bool \<comment> \<open>\<open>diedLastGame\<close> is \<open>"1"\<close>\<close>
  de_mtime :: "int option"
  de_path :: "string option"

definition observe_details :: "death_observation \<Rightarrow> details option \<Rightarrow> death_observation \<times> bool" where
  "observe_details s details =
     (case details of
        None \<Rightarrow> (s, False)
      | Some d \<Rightarrow>
         (let s1 = s\<lparr>do_details_dead := Some (de_died d), do_details_mtime := de_mtime d,
                     do_details_path := de_path d\<rparr>
          in case do_details_dead s of
               None \<Rightarrow> (s1, False)
             | Some was_dead \<Rightarrow>
                (if de_path d \<noteq> do_details_path s then (s1, False)
                 else (s\<lparr>do_details_dead := Some (de_died d), do_details_mtime := de_mtime d\<rparr>,
                       de_mtime d \<noteq> do_details_mtime s \<and> de_died d \<and> \<not> was_dead))))"

section \<open>Runs\<close>

datatype death_op = Start_slot string | Checkpoint checkpoint_snapshot "string option"
  | Details "details option" | Probe_failed string | Probe_ok

fun death_step :: "death_observation \<Rightarrow> death_op \<Rightarrow> death_observation \<times> checkpoint_snapshot option" where
  "death_step s (Start_slot slot) = (start_empty_slot s slot, None)"
| "death_step s (Checkpoint c e) =
     (case observe_checkpoint s c e of (s', ev) \<Rightarrow> (s', if ev = None then None else Some c))"
| "death_step s (Details d) = (fst (observe_details s d), None)"
| "death_step s (Probe_failed w) = (probe_failed s w, None)"
| "death_step s Probe_ok = (probe_succeeded s, None)"

text \<open>The snapshots that were reported as deaths, in order.\<close>

fun death_run :: "death_observation \<Rightarrow> death_op list \<Rightarrow> death_observation \<times> checkpoint_snapshot list" where
  "death_run s [] = (s, [])"
| "death_run s (op # ops) =
     (case death_step s op of (s', ev) \<Rightarrow>
        case death_run s' ops of (s'', evs) \<Rightarrow> (s'', (case ev of None \<Rightarrow> [] | Some c \<Rightarrow> [c]) @ evs))"

lemma death_step_tokens:
  assumes "death_step s op = (s', ev)"
  shows "do_consumed_tokens s \<subseteq> do_consumed_tokens s'"
    "ev = Some c \<Longrightarrow> snapshot_token c \<in> do_consumed_tokens s' - do_consumed_tokens s"
    "ev = Some c \<Longrightarrow> cs_death c \<and> cs_slot c \<in> do_initialized s"
  using assms
  by (cases op; auto simp: start_empty_slot_def observe_checkpoint_def observe_details_def probe_failed_def
      probe_succeeded_def Let_def split: if_splits option.splits)+

lemma death_step_initialized:
  "death_step s op = (s', ev) \<Longrightarrow> do_initialized s \<subseteq> do_initialized s'"
  by (cases op; auto simp: start_empty_slot_def observe_checkpoint_def observe_details_def probe_failed_def
      probe_succeeded_def Let_def split: if_splits option.splits)

lemma death_run_tokens:
  assumes "death_run s ops = (s', evs)"
  shows "do_consumed_tokens s \<subseteq> do_consumed_tokens s' \<and> distinct (map snapshot_token evs) \<and>
    snapshot_token ` set evs \<inter> do_consumed_tokens s = {} \<and>
    snapshot_token ` set evs \<subseteq> do_consumed_tokens s' \<and> (\<forall>c \<in> set evs. cs_death c)"
  using assms
proof (induction ops arbitrary: s evs s')
  case (Cons op ops)
  obtain s1 ev where st: "death_step s op = (s1, ev)" by fastforce
  obtain s2 rest where run: "death_run s1 ops = (s2, rest)" by fastforce
  from Cons.prems st run have evs: "evs = (case ev of None \<Rightarrow> [] | Some c \<Rightarrow> [c]) @ rest" "s' = s2" by auto
  note one = death_step_tokens [OF st]
  note IH = Cons.IH [OF run]
  show ?case
  proof (cases ev)
    case None
    with evs one(1) IH show ?thesis by auto
  next
    case (Some c)
    with one(2,3) [OF Some] evs one(1) IH show ?thesis by auto
  qed
qed simp

section \<open>A death carried into the next load is suppressed\<close>

lemma carryover_suppressed:
  assumes "observe_checkpoint s c e = (s1, Some ev)" and "cs_slot c' = cs_slot c" and "e' \<noteq> e"
    and "observe_checkpoint s1 c' e' = (s2, ev')"
  shows "ev' = None"
  using assms by (auto simp: observe_checkpoint_def Let_def split: if_splits)

text \<open>Over any sequence of observations of one binding, a save snapshot is reported
  as a death at most once, only for a checkpoint that records a death, and never when the
  snapshot had been consumed before; and the first observation of the slot after a reported
  death, in another load, is suppressed as its carry-over.\<close>

theorem deaths_reported_once:
  assumes "death_run s ops = (s', evs)"
  shows "distinct (map snapshot_token evs) \<and> (\<forall>c \<in> set evs. cs_death c) \<and>
    snapshot_token ` set evs \<inter> do_consumed_tokens s = {} \<and>
    (\<forall>t c e s1 ev c' e'. observe_checkpoint t c e = (s1, Some ev) \<and> cs_slot c' = cs_slot c \<and> e' \<noteq> e
       \<longrightarrow> snd (observe_checkpoint s1 c' e') = None)"
proof -
  have "\<forall>t c e s1 ev c' e'. observe_checkpoint t c e = (s1, Some ev) \<and> cs_slot c' = cs_slot c \<and> e' \<noteq> e
       \<longrightarrow> snd (observe_checkpoint s1 c' e') = None"
    using carryover_suppressed [OF _ _ _ prod.collapse [symmetric]] by blast
  with death_run_tokens [OF assms] show ?thesis by blast
qed

theorem deaths_reported_once_witness:
  "\<exists>s' evs. death_run fresh_observation
      [Checkpoint \<lparr>cs_death = False, cs_raw_deaths = None, cs_slot = ''A'', cs_file = ''f'', cs_mtime = 1\<rparr> (Some ''e''),
       Checkpoint \<lparr>cs_death = True, cs_raw_deaths = Some 1, cs_slot = ''A'', cs_file = ''f'', cs_mtime = 2\<rparr> (Some ''e''),
       Checkpoint \<lparr>cs_death = True, cs_raw_deaths = Some 1, cs_slot = ''A'', cs_file = ''f'', cs_mtime = 2\<rparr> (Some ''e'')]
      = (s', evs) \<and> length evs = 1 \<and> distinct (map snapshot_token evs)"
proof -
  let ?ops = "[Checkpoint \<lparr>cs_death = False, cs_raw_deaths = None, cs_slot = ''A'', cs_file = ''f'', cs_mtime = 1\<rparr> (Some ''e''),
       Checkpoint \<lparr>cs_death = True, cs_raw_deaths = Some 1, cs_slot = ''A'', cs_file = ''f'', cs_mtime = 2\<rparr> (Some ''e''),
       Checkpoint \<lparr>cs_death = True, cs_raw_deaths = Some 1, cs_slot = ''A'', cs_file = ''f'', cs_mtime = 2\<rparr> (Some ''e'')]"
  obtain s' evs where run: "death_run fresh_observation ?ops = (s', evs)" by fastforce
  have "length (snd (death_run fresh_observation ?ops)) = 1" by code_simp
  with run have "length evs = 1" by simp
  with run conjunct1 [OF deaths_reported_once [OF run]] show ?thesis by (intro exI conjI)
qed

end
