(* ===== verification/Delivery_Plan.thy ===== *)
theory Delivery_Plan
  imports PyValue "HOL-Library.Word"
begin

text \<open>
  The item delivery compiler of \<open>doom_eap/contracts/foundation.py\<close> and the notification policy
  of \<open>doom_eap/content/item_classification.py\<close>: from an item ID and its definition to the
  entities that the game is asked to activate. Definitions are the JSON values of the item
  mapping; a definition's type is a string there (an unhashable type would raise instead).
\<close>

unbundle bit_operations_syntax

section \<open>Python's \<open>str()\<close>\<close>

text \<open>\<open>repr\<close> of a string: single quotes unless it has one and no double quote.\<close>

definition repr_char :: "char \<Rightarrow> char \<Rightarrow> string" where
  "repr_char q c = (let n = (of_char c :: nat) in
     if c = q \<or> c = CHR 0x5C then [CHR 0x5C, c]
     else if c = CHR 0x0A then [CHR 0x5C, CHR ''n'']
     else if c = CHR 0x0D then [CHR 0x5C, CHR ''r'']
     else if c = CHR 0x09 then [CHR 0x5C, CHR ''t'']
     else if n < 32 \<or> (127 \<le> n \<and> n \<le> 160) \<or> n = 173 then [CHR 0x5C, CHR ''x''] @ hex_byte n
     else [c])"

definition repr_string :: "string \<Rightarrow> string" where
  "repr_string s = (let q = (if CHR 0x27 \<in> set s \<and> CHR 0x22 \<notin> set s then CHR 0x22 else CHR 0x27)
     in [q] @ concat (map (repr_char q) s) @ [q])"

fun py_repr :: "pyval \<Rightarrow> string" where
  "py_repr PNone = ''None''"
| "py_repr (PBool b) = (if b then ''True'' else ''False'')"
| "py_repr (PInt i) = str_int i"
| "py_repr (PFloat r) = r"
| "py_repr (PStr s) = repr_string s"
| "py_repr (PList xs) = ''['' @ join '', '' (map py_repr xs) @ '']''"
| "py_repr (PDict d) = ''{'' @ join '', '' (map (\<lambda>(k, v). repr_string k @ '': '' @ py_repr v) d) @ ''}''"

definition py_str :: "pyval \<Rightarrow> string" where
  "py_str v = (case v of PStr s \<Rightarrow> s | _ \<Rightarrow> py_repr v)"

fun split_ws :: "string \<Rightarrow> string \<Rightarrow> string list" where \<comment> \<open>\<open>str.split()\<close>, with the word so far\<close>
  "split_ws acc [] = (if acc = [] then [] else [rev acc])"
| "split_ws acc (c # s) =
     (if py_space c then (if acc = [] then split_ws [] s else rev acc # split_ws [] s)
      else split_ws (c # acc) s)"

section \<open>Notification policy\<close>

definition ITEM_CLASSIFICATION_PROGRESSION :: int where "ITEM_CLASSIFICATION_PROGRESSION = 1"
definition ITEM_CLASSIFICATION_USEFUL :: int where "ITEM_CLASSIFICATION_USEFUL = 2"
definition ITEM_CLASSIFICATION_TRAP :: int where "ITEM_CLASSIFICATION_TRAP = 4"
definition ITEM_CLASSIFICATION_SKIP_BALANCING :: int where "ITEM_CLASSIFICATION_SKIP_BALANCING = 8"

definition ITEM_CLASSIFICATION_KNOWN_MASK :: int where
  "ITEM_CLASSIFICATION_KNOWN_MASK = (ITEM_CLASSIFICATION_PROGRESSION OR ITEM_CLASSIFICATION_USEFUL
     OR ITEM_CLASSIFICATION_TRAP OR ITEM_CLASSIFICATION_SKIP_BALANCING)"

definition notification_style_for_item :: "int \<Rightarrow> pyval \<Rightarrow> string res" where
  "notification_style_for_item i classification =
     (case classification of
        PInt c \<Rightarrow>
          (if c < 0 \<or> c AND NOT ITEM_CLASSIFICATION_KNOWN_MASK \<noteq> 0
           then Inl (ValueError ''item has unknown classification bits'')
           else if c AND ITEM_CLASSIFICATION_TRAP \<noteq> 0 then Inr ''major''
           else if c AND ITEM_CLASSIFICATION_PROGRESSION \<noteq> 0 then Inr ''major''
           else if c AND ITEM_CLASSIFICATION_USEFUL \<noteq> 0 then Inr ''major''
           else if c = 0 then Inr ''filler''
           else Inl (ValueError ''item classification has modifiers without a base class''))
      | _ \<Rightarrow> Inl (ValueError ''item has no valid classification''))"

definition normalize_network_classification :: "int \<Rightarrow> pyval \<Rightarrow> int res" where
  "normalize_network_classification i classification =
     bind_res (notification_style_for_item i classification)
       (\<lambda>_. Inr (the_int classification AND NOT ITEM_CLASSIFICATION_SKIP_BALANCING))"

definition optional_suffix :: "string option \<Rightarrow> string" where
  "optional_suffix s = (case s of None \<Rightarrow> [] | Some t \<Rightarrow> ''_'' @ t)"

definition notification_entity_name :: "int \<Rightarrow> pyval \<Rightarrow> int option \<Rightarrow> string option \<Rightarrow> string res" where
  "notification_entity_name i classification stage slot =
     bind_res (notification_style_for_item i classification) (\<lambda>style.
       if slot \<notin> {None, Some ''a'', Some ''b''}
       then Inl (ValueError ''notification slot must be a, b, or omitted'')
       else Inr (''ap_notify_item_'' @ style @ ''_'' @ str_int i
              @ optional_suffix (map_option str_int stage) @ optional_suffix slot))"

section \<open>Families and primitives\<close>

text \<open>The exponents of \<open>MASTERY_ITEM_BITS\<close>.\<close>

definition MASTERY_ITEM_BITS :: "(int \<times> nat) list" where
  "MASTERY_ITEM_BITS = [(7770070, 0), (7770069, 1), (7770067, 2), (7770068, 3), (7770063, 4),
     (7770065, 5), (7770072, 6), (7770074, 7), (7770084, 8), (7770076, 9), (7770078, 10),
     (7770082, 11), (7770080, 12)]"

definition mastery_items :: "int set" where
  "mastery_items = fst ` set MASTERY_ITEM_BITS"

definition family_primitives :: "(string \<times> string) list" where
  "family_primitives = [(''simple_give'', ''target_command''), (''perk'', ''target_command''),
     (''progressive_perk'', ''target_command''), (''progressive_item'', ''target_command''),
     (''physical_pickup_spawn'', ''physical_pickup_spawn''), (''multi_command'', ''target_command''),
     (''currency'', ''currency_grant_direct''), (''extra_life'', ''target_command''),
     (''resource'', ''target_command''), (''trap_spawn'', ''target_command''),
     (''transient_effect'', ''transient_effect''), (''no_op'', ''target_command'')]"

text \<open>Status and release flag of the registered primitives.\<close>

definition primitive_registry :: "(string \<times> string \<times> bool) list" where
  "primitive_registry = [(''target_command'', ''runtime_verified'', True),
     (''weapon_grant_direct'', ''static_evidence_only'', True),
     (''target_count_relay'', ''runtime_verified'', True),
     (''physical_pickup_spawn'', ''static_evidence_only'', True),
     (''fast_travel_unlock'', ''runtime_verified'', True),
     (''currency_grant_direct'', ''runtime_verified'', True),
     (''pickup_notification'', ''runtime_verified'', True),
     (''independent_location_trigger'', ''static_evidence_only'', True),
     (''boolean_stat_modifier_direct'', ''experimental'', False),
     (''objective_complete_relay'', ''static_evidence_only'', True),
     (''target_player_stat_modifier_inherit'', ''rejected'', False),
     (''target_give_item_inherit'', ''rejected'', False),
     (''item_notification_major'', ''runtime_verified'', True),
     (''item_notification_filler'', ''runtime_verified'', True),
     (''location_notification_codex'', ''runtime_verified'', True)]"

definition primitive :: "string \<Rightarrow> bool \<Rightarrow> unit res" where
  "primitive primitive_id release =
     (case map_of primitive_registry primitive_id of
        None \<Rightarrow> Inl (ValueError ''Unknown primitive ID'')
      | Some (status, allowed) \<Rightarrow>
         (if status = ''rejected'' then Inl (ValueError ''Rejected primitive cannot be emitted'')
          else if release \<and> \<not> allowed
          then Inl (ValueError ''Experimental primitive cannot enter release'')
          else Inr ()))"

definition typed_families :: "string list" where
  "typed_families = [''perk'', ''progressive_perk'', ''progressive_item'', ''physical_pickup_spawn'',
     ''currency'', ''no_op'', ''transient_effect'', ''native_weapon_upgrade_points'']"

definition negative_amount :: "string \<Rightarrow> bool" where
  "negative_amount token \<longleftrightarrow> starts_with token ''-'' \<and> tl token \<noteq> [] \<and> list_all is_digit (tl token)"

fun classify_item_definition :: "pyval \<Rightarrow> string" where
  "classify_item_definition (PList xs) = ''multi_command''"
| "classify_item_definition (PDict d) =
     (case dget d ''type'' of PStr t \<Rightarrow> if t \<in> set typed_families then t else ''unknown''
      | _ \<Rightarrow> ''unknown'')"
| "classify_item_definition (PStr s) =
     (let lowered = ascii_lower s in
      if starts_with lowered ''chrispy '' then ''trap_spawn''
      else if contains lowered ''giveplayerperk'' then ''perk''
      else if starts_with lowered ''g_giveextralives '' \<or> contains lowered ''extra_life''
      then ''extra_life''
      else if starts_with lowered ''give ammo'' \<and> list_ex negative_amount (split_ws [] lowered)
      then ''trap_spawn''
      else if starts_with lowered ''give health'' \<or> starts_with lowered ''give armor''
           \<or> starts_with lowered ''give ammo'' then ''resource''
      else ''simple_give'')"
| "classify_item_definition _ = ''unknown''"

section \<open>Plans\<close>

record delivery_command =
  dc_entity :: string
  dc_command :: string
  dc_index :: nat

record delivery_plan =
  dp_item :: int
  dp_family :: string
  dp_primitive :: string
  dp_commands :: "delivery_command list"
  dp_stage :: "int option"
  dp_description :: string

definition activate :: "string \<Rightarrow> string" where
  "activate entity = ''ai_ScriptCmdEnt '' @ entity @ '' activate''"

definition rpc_entity :: "int \<Rightarrow> string list \<Rightarrow> string" where
  "rpc_entity i parts = ''ap_rpc_v3_'' @ str_int i @ concat (map (\<lambda>p. ''_'' @ p) parts)"

definition gameplay_prefixes :: "string list" where
  "gameplay_prefixes = [''give '', ''chrispy '', ''g_giveExtraLives '',
     ''ai_ScriptCmdEnt player1 givePlayerPerk '']"

definition raw_gameplay :: "string \<Rightarrow> bool" where
  "raw_gameplay c \<longleftrightarrow> list_ex (starts_with c) gameplay_prefixes"

text \<open>The plan of an item whose effects Sentinel owns: at most the notification.\<close>

definition sentinel_plan :: "int \<Rightarrow> string \<Rightarrow> string \<Rightarrow> string \<Rightarrow> bool \<Rightarrow> pyval \<Rightarrow> string option
    \<Rightarrow> delivery_plan res" where
  "sentinel_plan i family prim descr receipt classification slot =
     bind_res (if \<not> receipt then Inr []
       else if classification = PNone then Inl (ValueError ''Received item requires classification'')
       else bind_res (notification_entity_name i classification None slot)
         (\<lambda>e. Inr [\<lparr>dc_entity = e, dc_command = activate e, dc_index = 0\<rparr>]))
     (\<lambda>cs. Inr \<lparr>dp_item = i, dp_family = family, dp_primitive = prim, dp_commands = cs,
                dp_stage = None, dp_description = descr\<rparr>)"

fun text_entries :: "pyval list \<Rightarrow> string list option" where \<comment> \<open>all entries, when they are strings\<close>
  "text_entries [] = Some []"
| "text_entries (PStr s # vs) = map_option (Cons s) (text_entries vs)"
| "text_entries (_ # vs) = None"

text \<open>Entities, description and resolved stage of the ordinary families. Stages that are no list
  have no stage to select (the mapping has lists there).\<close>

definition progressive_effects :: "int \<Rightarrow> pydict \<Rightarrow> int option \<Rightarrow> (string list \<times> string \<times> int option) res" where
  "progressive_effects i d stage =
     (case dget_or d ''perks'' (PList []) of
        PList perks \<Rightarrow>
          (case stage of
             None \<Rightarrow> Inl (ValueError ''Progressive item requires a stage'')
           | Some st \<Rightarrow>
              (if \<not> (0 \<le> st \<and> st < int (length perks)) then Inl (ValueError ''Progressive stage exceeds stages'')
               else case perks ! nat st of
                 PStr s \<Rightarrow> Inr ([rpc_entity i [str_int st]], ''stage '' @ str_int st @ '': '' @ s, Some st)
               | PList effects \<Rightarrow>
                   (case text_entries effects of
                      None \<Rightarrow> Inl (ValueError ''Progressive item has invalid stage effects'')
                    | Some ts \<Rightarrow>
                        (if ts = [] then Inl (ValueError ''Progressive item has invalid stage effects'')
                         else Inr (map (\<lambda>k. rpc_entity i [str_int st, str_nat k]) [0..<length ts],
                                   ''stage '' @ str_int st @ '': '' @ join '' -> '' ts, Some st)))
               | _ \<Rightarrow> Inl (ValueError ''Progressive item has invalid stage effects'')))
      | _ \<Rightarrow> (if stage = None then Inl (ValueError ''Progressive item requires a stage'')
               else Inl (TypeError ''object has no len()'')))"

definition family_effects :: "int \<Rightarrow> string \<Rightarrow> pyval \<Rightarrow> int option \<Rightarrow> bool
    \<Rightarrow> (string list \<times> string \<times> int option) res" where
  "family_effects i family dfn stage receipt =
     (if family \<in> {''progressive_perk'', ''progressive_item''}
      then progressive_effects i (case dfn of PDict d \<Rightarrow> d | _ \<Rightarrow> []) stage
      else if family = ''multi_command''
      then (case dfn of
              PList vs \<Rightarrow>
                (if vs = [] then Inl (ValueError ''mapping list is empty'')
                 else case text_entries vs of
                   None \<Rightarrow> Inl (TypeError ''sequence item: expected str instance'')
                 | Some ts \<Rightarrow> Inr (map (\<lambda>k. rpc_entity i [str_nat k]) [0..<length vs],
                                 join '' -> '' ts, None))
            | _ \<Rightarrow> Inl (ValueError ''mapping list is empty''))
      else if family = ''no_op''
      then (let d = (case dfn of PDict d \<Rightarrow> d | _ \<Rightarrow> []) in
            if dget d ''availability'' = PStr ''unavailable'' \<and> receipt
            then Inl (ValueError ''Item is unavailable until runtime materialization is enabled'')
            else Inr ([], py_str (dget_or d ''description'' (PStr ''runtime-only no-op'')), None))
      else Inr ([rpc_entity i []], py_str dfn, None))"

definition command_at :: "nat \<Rightarrow> string \<Rightarrow> delivery_command" where
  "command_at k e = \<lparr>dc_entity = e, dc_command = activate e, dc_index = k\<rparr>"

definition compile_item_delivery_plan ::
  "int \<Rightarrow> (int \<times> pyval) list \<Rightarrow> int option \<Rightarrow> bool \<Rightarrow> pyval \<Rightarrow> string option \<Rightarrow> delivery_plan res" where
  "compile_item_delivery_plan i definitions stage receipt classification slot =
     (case map_of definitions i of
        None \<Rightarrow> Inl (ValueError ''Unknown item ID'')
      | Some dfn \<Rightarrow>
         (let family = classify_item_definition dfn in
          if i \<in> mastery_items
          then sentinel_plan i family ''sentinel.arsenal_mastery.v1'' (py_str dfn) receipt classification slot
          else if family = ''native_weapon_upgrade_points''
          then sentinel_plan i family ''sentinel.weapon_points.v1'' ''Weapon Upgrade Points (3)''
                 receipt classification slot
          else case map_of family_primitives family of
            None \<Rightarrow> Inl (ValueError ''Unregistered item family'')
          | Some prim \<Rightarrow>
             (if family = ''transient_effect''
              then Inr \<lparr>dp_item = i, dp_family = family, dp_primitive = prim, dp_commands = [],
                        dp_stage = None, dp_description = py_str dfn\<rparr>
              else bind_res (primitive prim True) (\<lambda>_.
                bind_res (family_effects i family dfn stage receipt) (\<lambda>(entities, descr, resolved).
                  let cs = map (\<lambda>(k, e). command_at k e) (enumerate 0 entities) in
                  bind_res (if receipt \<and> family \<noteq> ''no_op''
                    then (if classification = PNone
                          then Inl (ValueError ''Received item requires classification'')
                          else bind_res (notification_entity_name i classification resolved slot)
                            (\<lambda>e. Inr (cs @ [command_at (length cs) e])))
                    else Inr cs) (\<lambda>cs'.
                  if list_ex (\<lambda>c. raw_gameplay (dc_command c)) cs'
                  then Inl (ValueError ''Delivery plan contains a raw gameplay-changing command'')
                  else Inr \<lparr>dp_item = i, dp_family = family, dp_primitive = prim, dp_commands = cs',
                            dp_stage = resolved, dp_description = descr\<rparr>))))))"

definition is_transient :: "pyval \<Rightarrow> bool" where
  "is_transient v = (case v of PDict d \<Rightarrow> dget d ''type'' = PStr ''transient_effect'' | _ \<Rightarrow> False)"

definition compile_all_item_plans :: "(int \<times> pyval) list \<Rightarrow> delivery_plan list res" where
  "compile_all_item_plans definitions =
     map_res (\<lambda>(i, dfn). compile_item_delivery_plan i definitions
         (if classify_item_definition dfn \<in> {''progressive_perk'', ''progressive_item''} then Some 0 else None)
         False PNone None)
       (filter (\<lambda>(i, dfn). \<not> is_transient dfn) (sort_key fst definitions))"

definition family_counts :: "(int \<times> pyval) list \<Rightarrow> (string \<times> nat) list" where
  "family_counts definitions =
     (let fs = map (\<lambda>(i, dfn). classify_item_definition dfn) definitions in
      map (\<lambda>f. (f, count_list fs f)) (sorted_set fs))"

section \<open>The commands of a plan\<close>

text \<open>The item ID as the native side reads it from an entity name.\<close>

definition entity_item :: "string \<Rightarrow> string" where
  "entity_item e = takeWhile (\<lambda>c. c \<noteq> CHR ''_'')
     (if starts_with e ''ap_rpc_v3_'' then drop 10 e
      else tl (dropWhile (\<lambda>c. c \<noteq> CHR ''_'') (drop 15 e)))"

definition is_notification :: "string \<Rightarrow> bool" where
  "is_notification e \<longleftrightarrow> starts_with e ''ap_notify_item_''"

definition entity_of :: "int \<Rightarrow> string \<Rightarrow> bool" where
  "entity_of i e \<longleftrightarrow> starts_with e ''ap_'' \<and> entity_item e = str_int i"

lemma underscore_not_in_str_int: "CHR ''_'' \<notin> set (str_int i)"
  using str_int_chars by (force simp: is_digit_def)

lemma takeWhile_str_int:
  assumes "t = [] \<or> hd t = CHR ''_''"
  shows "takeWhile (\<lambda>c. c \<noteq> CHR ''_'') (str_int i @ t) = str_int i"
proof -
  have "takeWhile (\<lambda>c. c \<noteq> CHR ''_'') (str_int i @ t)
      = str_int i @ takeWhile (\<lambda>c. c \<noteq> CHR ''_'') t"
    by (rule takeWhile_append2) (use underscore_not_in_str_int in auto)
  with assms show ?thesis by (cases t) auto
qed

lemma rpc_entity_of: "entity_of i (rpc_entity i parts) \<and> \<not> is_notification (rpc_entity i parts)"
proof -
  have "concat (map (\<lambda>p. ''_'' @ p) parts) = [] \<or> hd (concat (map (\<lambda>p. ''_'' @ p) parts)) = CHR ''_''"
    by (cases parts) auto
  from takeWhile_str_int [OF this] show ?thesis
    by (simp add: entity_of_def is_notification_def rpc_entity_def entity_item_def starts_with_def)
qed

lemma notification_style_cases:
  "notification_style_for_item i classification = Inr style \<Longrightarrow> style \<in> {''major'', ''filler''}"
  unfolding notification_style_for_item_def
  by (cases classification) (simp_all split: if_split_asm)

lemma notification_entity_of:
  assumes "notification_entity_name i classification stage slot = Inr e"
  shows "entity_of i e \<and> is_notification e"
proof -
  define t where "t = optional_suffix (map_option str_int stage) @ optional_suffix slot"
  have t: "t = [] \<or> hd t = CHR ''_''"
    by (cases stage; cases slot) (auto simp: t_def optional_suffix_def)
  from assms obtain style where sty: "notification_style_for_item i classification = Inr style"
    and e0: "(if slot \<notin> {None, Some ''a'', Some ''b''}
       then Inl (ValueError ''notification slot must be a, b, or omitted'')
       else Inr (''ap_notify_item_'' @ style @ ''_'' @ str_int i
              @ optional_suffix (map_option str_int stage) @ optional_suffix slot)) = Inr e"
    unfolding notification_entity_name_def bind_res_eq_Inr by (elim exE conjE)
  from notification_style_cases [OF sty] have st: "style = ''major'' \<or> style = ''filler''" by blast
  from e0 have e: "e = ''ap_notify_item_'' @ style @ ''_'' @ str_int i @ t"
    unfolding t_def by (simp split: if_split_asm)
  have rest: "drop 15 e = style @ ''_'' @ str_int i @ t" by (simp add: e)
  have "\<not> starts_with e ''ap_rpc_v3_''" by (simp add: e starts_with_def)
  moreover have "tl (dropWhile (\<lambda>c. c \<noteq> CHR ''_'') (drop 15 e)) = str_int i @ t"
    using st unfolding rest by (elim disjE) simp_all
  ultimately show ?thesis using takeWhile_str_int [OF t]
    by (simp add: entity_of_def is_notification_def entity_item_def)
      (simp add: e starts_with_def)
qed

lemma activate_not_raw: "starts_with e ''ap_'' \<Longrightarrow> \<not> raw_gameplay (activate e)"
proof -
  assume "starts_with e ''ap_''"
  then obtain t where "e = ''ap_'' @ t" by (auto simp: starts_with_prefix prefix_def)
  then show ?thesis by (simp add: raw_gameplay_def activate_def gameplay_prefixes_def starts_with_def)
qed

lemma activate_inject [simp]: "activate a = activate b \<longleftrightarrow> a = b"
  by (simp add: activate_def)

lemma family_effects_entities:
  assumes "family_effects i family dfn stage receipt = Inr (es, descr, st)"
  shows "(\<forall>e \<in> set es. entity_of i e \<and> \<not> is_notification e) \<and> distinct es"
proof -
  have inj: "inj_on (\<lambda>k. rpc_entity i (ps @ [str_nat k])) A" for ps A
    by (auto simp: inj_on_def rpc_entity_def)
  have "distinct (map (\<lambda>k. rpc_entity i [str_nat k]) [0..<n])"
    "distinct (map (\<lambda>k. rpc_entity i [s, str_nat k]) [0..<n])" for n s
    using inj [of "[]"] inj [of "[s]"] by (auto simp: distinct_map)
  with assms rpc_entity_of show ?thesis
    by (auto simp: family_effects_def progressive_effects_def Let_def
        split: if_splits pyval.splits option.splits)
qed

definition commands_of :: "int \<Rightarrow> bool \<Rightarrow> delivery_command list \<Rightarrow> bool" where
  "commands_of i notified cs \<longleftrightarrow>
     (\<exists>es n. cs = map (\<lambda>(k, e). command_at k e) (enumerate 0 (es @ n)) \<and>
        distinct es \<and> (\<forall>e \<in> set es. entity_of i e \<and> \<not> is_notification e) \<and>
        (if notified then \<exists>e. n = [e] \<and> entity_of i e \<and> is_notification e else n = []))"

lemma enumerate_command_map:
  "map (\<lambda>(k, e). command_at k e) (enumerate 0 es) @ [command_at (length es) e]
    = map (\<lambda>(k, e). command_at k e) (enumerate 0 (es @ [e]))"
  by (simp add: enumerate_append_eq)

lemma commands_of_not_raw:
  "commands_of i notified cs \<Longrightarrow> \<not> list_ex (\<lambda>c. raw_gameplay (dc_command c)) cs"
proof -
  assume "commands_of i notified cs"
  then have "\<forall>c \<in> set cs. \<exists>e. starts_with e ''ap_'' \<and> dc_command c = activate e"
    by (auto simp: commands_of_def entity_of_def command_at_def in_set_enumerate_eq nth_append
        split: if_splits)
  with activate_not_raw show ?thesis by (force simp: list_ex_iff)
qed

lemma commands_of_silent:
  "distinct es \<Longrightarrow> \<forall>e \<in> set es. entity_of i e \<and> \<not> is_notification e \<Longrightarrow>
     commands_of i False (map (\<lambda>(k, e). command_at k e) (enumerate 0 es))"
  unfolding commands_of_def by (intro exI [of _ es] exI [of _ "[]"]) simp

lemma commands_of_Nil [simp]: "commands_of i False []"
  using commands_of_silent [of "[]"] by simp

lemma commands_of_notified:
  "distinct es \<Longrightarrow> \<forall>e \<in> set es. entity_of i e \<and> \<not> is_notification e \<Longrightarrow>
     entity_of i n \<and> is_notification n \<Longrightarrow>
     commands_of i True (map (\<lambda>(k, e). command_at k e) (enumerate 0 (es @ [n])))"
  unfolding commands_of_def by (intro exI [of _ es] exI [of _ "[n]"]) simp

lemma commands_of_one:
  "entity_of i n \<and> is_notification n \<Longrightarrow>
     commands_of i True [\<lparr>dc_entity = n, dc_command = activate n, dc_index = 0\<rparr>]"
  using commands_of_notified [of "[]" i n] by (simp add: command_at_def)

lemma sentinel_plan_commands:
  assumes "sentinel_plan i family prim descr receipt classification slot = Inr plan"
  shows "commands_of i receipt (dp_commands plan)" "dp_item plan = i" "dp_family plan = family"
  using assms notification_entity_of [of i classification None slot]
  by (auto simp: sentinel_plan_def commands_of_one split: if_splits)

definition notified :: "int \<Rightarrow> (int \<times> pyval) list \<Rightarrow> bool \<Rightarrow> bool" where
  "notified i definitions receipt \<longleftrightarrow> receipt \<and>
     (i \<in> mastery_items \<or> (case map_of definitions i of None \<Rightarrow> False
        | Some dfn \<Rightarrow> classify_item_definition dfn \<notin> {''no_op'', ''transient_effect''}))"

text \<open>The commands of an ordinary family before the raw-command check.\<close>

lemma ordinary_commands:
  assumes "family_effects i family dfn stage receipt = Inr (entities, descr, resolved)"
    and "(if receipt \<and> family \<noteq> ''no_op''
          then (if classification = PNone
                then Inl (ValueError ''Received item requires classification'')
                else bind_res (notification_entity_name i classification resolved slot)
                  (\<lambda>e. Inr (map (\<lambda>(k, e). command_at k e) (enumerate 0 entities)
                     @ [command_at (length (map (\<lambda>(k, e). command_at k e) (enumerate 0 entities))) e])))
          else Inr (map (\<lambda>(k, e). command_at k e) (enumerate 0 entities))) = Inr cs"
  shows "commands_of i (receipt \<and> family \<noteq> ''no_op'') cs"
proof -
  note es = family_effects_entities [OF assms(1)]
  show ?thesis
  proof (cases "receipt \<and> family \<noteq> ''no_op''")
    case True
    with assms(2) obtain e where e: "notification_entity_name i classification resolved slot = Inr e"
      and cs: "cs = map (\<lambda>(k, e). command_at k e) (enumerate 0 (entities @ [e]))"
      by (auto simp: enumerate_command_map simp del: enumerate_append_eq split: if_split_asm)
    from notification_entity_of [OF e] es True show ?thesis by (simp add: cs commands_of_notified)
  next
    case False
    with assms(2) have "cs = map (\<lambda>(k, e). command_at k e) (enumerate 0 entities)" by auto
    with es commands_of_silent [of entities i] have "commands_of i False cs" by simp
    moreover have "(receipt \<and> family \<noteq> ''no_op'') = False" using False by blast
    ultimately show ?thesis by (simp only:)
  qed
qed

lemma compile_commands:
  assumes "compile_item_delivery_plan i definitions stage receipt classification slot = Inr plan"
  shows "commands_of i (notified i definitions receipt) (dp_commands plan) \<and> dp_item plan = i \<and>
    (\<exists>dfn. map_of definitions i = Some dfn \<and> dp_family plan = classify_item_definition dfn)"
proof -
  from assms obtain dfn where d: "map_of definitions i = Some dfn"
    by (auto simp: compile_item_delivery_plan_def split: option.splits)
  define fam where "fam = classify_item_definition dfn"
  note c = assms [unfolded compile_item_delivery_plan_def d option.case Let_def, folded fam_def]
  consider "i \<in> mastery_items" | "i \<notin> mastery_items" "fam = ''native_weapon_upgrade_points''"
    | "i \<notin> mastery_items" "fam \<noteq> ''native_weapon_upgrade_points''" "fam = ''transient_effect''"
    | "i \<notin> mastery_items" "fam \<noteq> ''native_weapon_upgrade_points''" "fam \<noteq> ''transient_effect''"
    by blast
  then show ?thesis
  proof cases
    case 1
    with c sentinel_plan_commands d show ?thesis by (auto simp: notified_def fam_def)
  next
    case 2
    with c sentinel_plan_commands d show ?thesis by (auto simp: notified_def fam_def)
  next
    case 3
    with c d show ?thesis
      by (auto simp: notified_def fam_def split: option.splits)
  next
    case 4
    with c obtain prim entities descr resolved cs where
      fe: "family_effects i fam dfn stage receipt = Inr (entities, descr, resolved)"
      and cs: "(if receipt \<and> fam \<noteq> ''no_op''
          then (if classification = PNone
                then Inl (ValueError ''Received item requires classification'')
                else bind_res (notification_entity_name i classification resolved slot)
                  (\<lambda>e. Inr (map (\<lambda>(k, e). command_at k e) (enumerate 0 entities)
                     @ [command_at (length (map (\<lambda>(k, e). command_at k e) (enumerate 0 entities))) e])))
          else Inr (map (\<lambda>(k, e). command_at k e) (enumerate 0 entities))) = Inr cs"
      and plan: "(if list_ex (\<lambda>c. raw_gameplay (dc_command c)) cs
                  then Inl (ValueError ''Delivery plan contains a raw gameplay-changing command'')
                  else Inr \<lparr>dp_item = i, dp_family = fam, dp_primitive = prim, dp_commands = cs,
                            dp_stage = resolved, dp_description = descr\<rparr>) = Inr plan"
      by (auto simp del: length_map split: option.splits)
    from plan have "dp_commands plan = cs" "dp_item plan = i" "dp_family plan = fam"
      by (auto split: if_splits)
    with ordinary_commands [OF fe cs] 4 d show ?thesis
      by (simp add: notified_def fam_def)
  qed
qed

section \<open>Properties\<close>

text \<open>Property C27. A compiled plan carries the commands of its item only: they are numbered
  from 0, each activates one entity named after the item, the effects come first with distinct
  entities, and a notification is present exactly for a receipt of an item that is neither a
  no-op nor a transient effect, once and last. No command is a raw gameplay command.\<close>

theorem delivery_plan_shape:
  assumes "compile_item_delivery_plan i definitions stage receipt classification slot = Inr plan"
  shows "\<exists>es n. dp_commands plan = map (\<lambda>(k, e). command_at k e) (enumerate 0 (es @ n)) \<and>
      distinct es \<and> (\<forall>e \<in> set es. entity_of i e \<and> \<not> is_notification e) \<and>
      (if notified i definitions receipt
       then \<exists>e. n = [e] \<and> entity_of i e \<and> is_notification e else n = []) \<and>
      \<not> list_ex (\<lambda>c. raw_gameplay (dc_command c)) (dp_commands plan)"
proof -
  have c: "commands_of i (notified i definitions receipt) (dp_commands plan)"
    using compile_commands [OF assms] by blast
  from c commands_of_not_raw [OF c] show ?thesis unfolding commands_of_def by blast
qed

lemma sample_plan:
  "\<exists>plan. compile_item_delivery_plan 7770001 [(7770001, PStr ''give weapon/player/plasma'')] None True
      (PInt 1) (Some ''a'') = Inr plan"
proof -
  have "classify_item_definition (PStr ''give weapon/player/plasma'') = ''simple_give''" by code_simp
  moreover have "notification_style_for_item 7770001 (PInt 1) = Inr ''major''"
    by (simp add: notification_style_for_item_def ITEM_CLASSIFICATION_KNOWN_MASK_def
        ITEM_CLASSIFICATION_PROGRESSION_def ITEM_CLASSIFICATION_USEFUL_def ITEM_CLASSIFICATION_TRAP_def
        ITEM_CLASSIFICATION_SKIP_BALANCING_def)
  ultimately show ?thesis
    using activate_not_raw rpc_entity_of [of 7770001 "[]"]
    by (auto simp: compile_item_delivery_plan_def mastery_items_def MASTERY_ITEM_BITS_def
        family_primitives_def primitive_def primitive_registry_def family_effects_def
        notification_entity_name_def command_at_def entity_of_def starts_with_def)
qed

theorem delivery_plan_shape_witness:
  "\<exists>plan. compile_item_delivery_plan 7770001 [(7770001, PStr ''give weapon/player/plasma'')] None True
      (PInt 1) (Some ''a'') = Inr plan \<and> \<not> list_ex (\<lambda>c. raw_gameplay (dc_command c)) (dp_commands plan)"
  using sample_plan delivery_plan_shape by blast

text \<open>Plans of different items never share a command: every command of a plan names
  an entity from which the decimal ID of its own item is read back.\<close>

theorem plans_of_items_disjoint:
  assumes "compile_item_delivery_plan i definitions stage receipt classification slot = Inr plan"
    and "compile_item_delivery_plan j definitions stage' receipt' classification' slot' = Inr plan'"
    and "i \<noteq> j"
  shows "dc_command ` set (dp_commands plan) \<inter> dc_command ` set (dp_commands plan') = {}"
proof -
  have "\<exists>e. dc_command c = activate e \<and> entity_item e = str_int k"
    if "commands_of k nt cs" "c \<in> set cs" for k nt cs c
    using that by (auto simp: commands_of_def entity_of_def command_at_def in_set_enumerate_eq nth_append
        split: if_splits)
  with compile_commands [OF assms(1)] compile_commands [OF assms(2)] assms(3) show ?thesis
    by (auto simp: disjoint_iff) (metis activate_inject str_int_inject)
qed

theorem plans_of_items_disjoint_witness:
  "\<exists>p q. compile_item_delivery_plan 7770001 [(7770001, PStr ''give a''), (7770002, PStr ''give b'')]
        None False PNone None = Inr p \<and>
     compile_item_delivery_plan 7770002 [(7770001, PStr ''give a''), (7770002, PStr ''give b'')]
        None False PNone None = Inr q \<and>
     dc_command ` set (dp_commands p) \<inter> dc_command ` set (dp_commands q) = {}"
proof -
  let ?d = "[(7770001, PStr ''give a''), (7770002, PStr ''give b'')]"
  have fam: "classify_item_definition (PStr ''give a'') = ''simple_give''"
    "classify_item_definition (PStr ''give b'') = ''simple_give''" by code_simp+
  have "\<exists>p. compile_item_delivery_plan i ?d None False PNone None = Inr p" if "i \<in> {7770001, 7770002}" for i
    using that fam activate_not_raw rpc_entity_of [of i "[]"]
    by (auto simp: compile_item_delivery_plan_def mastery_items_def MASTERY_ITEM_BITS_def
        family_primitives_def primitive_def primitive_registry_def family_effects_def
        command_at_def entity_of_def)
  then obtain p q where pq: "compile_item_delivery_plan 7770001 ?d None False PNone None = Inr p"
    "compile_item_delivery_plan 7770002 ?d None False PNone None = Inr q" by blast
  from plans_of_items_disjoint [OF pq] pq show ?thesis by simp
qed

end
