(* ===== verification/Inventory_Domain.thy ===== *)
theory Inventory_Domain
  imports Delivery_Plan
begin

text \<open>
  Persistent inventory: the domains of item identifiers and the scope-bound observation of
  what the game owns, from \<open>doom_eap/contracts/inventory_domain.py\<close>. The identifier sets are
  lists, so that every definition computes; an observation maps item identifiers to what was
  seen, and an item without an entry is unknown, never missing.
\<close>

section \<open>States and domains\<close>

definition OWNED :: string where "OWNED = ''owned''"
definition MISSING :: string where "MISSING = ''missing''"
definition UNKNOWN :: string where "UNKNOWN = ''unknown''"

definition OBSERVATION_STATES :: "string list" where
  "OBSERVATION_STATES = [OWNED, MISSING, UNKNOWN]"

definition DISPATCHED :: string where "DISPATCHED = ''dispatched''"
definition OBSERVED :: string where "OBSERVED = ''observed''"

definition DOMAIN_WEAPONS :: string where "DOMAIN_WEAPONS = ''weapons''"
definition DOMAIN_EQUIPMENT :: string where "DOMAIN_EQUIPMENT = ''equipment''"
definition DOMAIN_CAPACITIES :: string where "DOMAIN_CAPACITIES = ''capacities''"
definition DOMAIN_PERSISTENT_UPGRADES :: string where
  "DOMAIN_PERSISTENT_UPGRADES = ''persistent_upgrades''"
definition DOMAIN_SPECIAL_WEAPONS :: string where "DOMAIN_SPECIAL_WEAPONS = ''special_weapons''"

definition MAX_CAPACITY_TIER :: nat where "MAX_CAPACITY_TIER = 4"

definition CAPACITY_ITEM_IDS :: "int list" where
  "CAPACITY_ITEM_IDS = [7770017, 7770088, 7770092]"

definition WEAPON_ITEM_IDS :: "int list" where
  "WEAPON_ITEM_IDS = [7770900, 7770000, 7770001, 7770002, 7770003, 7770004, 7770005, 7770006,
     7770008, 7770010]"

definition EQUIPMENT_ITEM_IDS :: "int list" where
  "EQUIPMENT_ITEM_IDS = [7770011, 7770012, 7770013, 7770014, 7770015]"

definition SPECIAL_WEAPON_ITEM_IDS :: "int list" where
  "SPECIAL_WEAPON_ITEM_IDS = [7770007, 7770009, 7770901, 7770902]"

definition PERMANENT_PERK_ITEM_IDS :: "int list" where
  "PERMANENT_PERK_ITEM_IDS =
     [7770058, 7770059, 7770060, 7770061, 7770062, 7770064, 7770071, 7770073, 7770075, 7770077,
      7770079, 7770081, 7770083, 7770085, 7770086, 7770087, 7770089, 7770090, 7770091, 7770093,
      7770094, 7770095] @ [7770097 .. 7770104] @ [7770106 .. 7770118]"

definition PERSISTENT_UPGRADE_ITEM_IDS :: "int list" where
  "PERSISTENT_UPGRADE_ITEM_IDS = [7770145 .. 7770155] @ PERMANENT_PERK_ITEM_IDS"

definition ALL_PERSISTENT_DOMAIN_IDS :: "int list" where
  "ALL_PERSISTENT_DOMAIN_IDS = WEAPON_ITEM_IDS @ EQUIPMENT_ITEM_IDS @ CAPACITY_ITEM_IDS
     @ SPECIAL_WEAPON_ITEM_IDS @ PERSISTENT_UPGRADE_ITEM_IDS"

definition classify_inventory_domain :: "int \<Rightarrow> string option" where
  "classify_inventory_domain i =
     (if i \<in> set WEAPON_ITEM_IDS then Some DOMAIN_WEAPONS
      else if i \<in> set EQUIPMENT_ITEM_IDS then Some DOMAIN_EQUIPMENT
      else if i \<in> set CAPACITY_ITEM_IDS then Some DOMAIN_CAPACITIES
      else if i \<in> set SPECIAL_WEAPON_ITEM_IDS then Some DOMAIN_SPECIAL_WEAPONS
      else if i \<in> set PERSISTENT_UPGRADE_ITEM_IDS then Some DOMAIN_PERSISTENT_UPGRADES
      else None)"

text \<open>\<open>None\<close> in the result: no restriction.\<close>

definition selected_persistent_items :: "string \<Rightarrow> pyval \<Rightarrow> int set option res" where
  "selected_persistent_items domain item_id =
     (if domain \<noteq> ''all'' \<and> Some domain \<notin> classify_inventory_domain ` set ALL_PERSISTENT_DOMAIN_IDS
      then Inl (ValueError ''Unknown persistent inventory domain'')
      else if item_id \<noteq> PNone
      then (if \<not> is_int item_id \<or> the_int item_id \<notin> set ALL_PERSISTENT_DOMAIN_IDS
            then Inl (ValueError ''Consumables and currency cannot be replayed by inventory repair'')
            else if domain \<noteq> ''all'' \<and> classify_inventory_domain (the_int item_id) \<noteq> Some domain
            then Inl (ValueError ''Item does not belong to the selected domain'')
            else Inr (Some {the_int item_id}))
      else if domain = ''all'' then Inr None
      else Inr (Some {i \<in> set ALL_PERSISTENT_DOMAIN_IDS. classify_inventory_domain i = Some domain}))"

section \<open>Observations\<close>

record item_observation =
  io_item :: int
  io_state :: string
  io_stage :: int
  io_source :: string

definition item_observation_valid :: "item_observation \<Rightarrow> unit res" where
  "item_observation_valid ob =
     (if io_state ob \<notin> set OBSERVATION_STATES then Inl (ValueError ''invalid observation state'')
      else if io_stage ob < 0 then Inl (ValueError ''observed_stage cannot be negative'')
      else Inr ())"

record inventory_observation =
  ob_room_seed :: string
  ob_epoch :: pyval
  ob_context :: string
  ob_campaign :: string
  ob_items :: "int \<Rightarrow> item_observation option"
  ob_state_key :: "string option"
  ob_process :: "int option"
  ob_provider :: "string option"
  ob_timestamp :: int

definition get_state :: "inventory_observation \<Rightarrow> int \<Rightarrow> string" where
  "get_state ob i = (case ob_items ob i of None \<Rightarrow> UNKNOWN | Some x \<Rightarrow> io_state x)"

definition get_observed_stage :: "inventory_observation \<Rightarrow> int \<Rightarrow> int" where
  "get_observed_stage ob i = (case ob_items ob i of None \<Rightarrow> 0 | Some x \<Rightarrow> io_stage x)"

definition is_owned :: "inventory_observation \<Rightarrow> int \<Rightarrow> bool" where
  "is_owned ob i \<longleftrightarrow> get_state ob i = OWNED"

definition is_proven_missing :: "inventory_observation \<Rightarrow> int \<Rightarrow> bool" where
  "is_proven_missing ob i \<longleftrightarrow> get_state ob i = MISSING"

definition confirms_repair :: "inventory_observation \<Rightarrow> int \<Rightarrow> int \<Rightarrow> bool" where
  "confirms_repair ob i stage =
     (if \<not> is_owned ob i then False
      else if i \<in> set CAPACITY_ITEM_IDS then get_observed_stage ob i > stage
      else if i \<in> {7770901, 7770902} then get_observed_stage ob i \<ge> stage
      else True)"

text \<open>An argument that is \<open>None\<close> is not compared.\<close>

definition is_stale_for :: "inventory_observation \<Rightarrow> string option \<Rightarrow> pyval \<Rightarrow> string option
    \<Rightarrow> string option \<Rightarrow> string option \<Rightarrow> bool" where
  "is_stale_for ob seed epoch context campaign provider =
     (if seed \<noteq> None \<and> Some (ob_room_seed ob) \<noteq> seed then True
      else if epoch \<noteq> PNone \<and> py_str (ob_epoch ob) \<noteq> py_str epoch then True
      else if context \<noteq> None \<and> Some (ob_context ob) \<noteq> context then True
      else if campaign \<noteq> None \<and> Some (ob_campaign ob) \<noteq> campaign then True
      else provider \<noteq> None \<and> ob_provider ob \<noteq> provider)"

section \<open>Facts\<close>

lemma states_distinct [simp]:
  "OWNED \<noteq> MISSING" "MISSING \<noteq> OWNED" "UNKNOWN \<noteq> MISSING" "MISSING \<noteq> UNKNOWN" "UNKNOWN \<noteq> OWNED" "OWNED \<noteq> UNKNOWN"
  by (simp_all add: OWNED_def MISSING_def UNKNOWN_def)

lemma missing_known: "is_proven_missing ob i \<Longrightarrow> get_state ob i \<noteq> UNKNOWN"
  by (simp add: is_proven_missing_def)

lemma owned_known: "is_owned ob i \<Longrightarrow> get_state ob i \<noteq> UNKNOWN"
  by (simp add: is_owned_def)

lemma owned_not_missing: "is_owned ob i \<Longrightarrow> \<not> is_proven_missing ob i"
  by (simp add: is_owned_def is_proven_missing_def)

lemma domain_ids_disjoint:
  "set WEAPON_ITEM_IDS \<inter> set EQUIPMENT_ITEM_IDS = {}"
  "(set WEAPON_ITEM_IDS \<union> set EQUIPMENT_ITEM_IDS) \<inter> set CAPACITY_ITEM_IDS = {}"
  "(set WEAPON_ITEM_IDS \<union> set EQUIPMENT_ITEM_IDS \<union> set CAPACITY_ITEM_IDS) \<inter> set SPECIAL_WEAPON_ITEM_IDS = {}"
  "(set WEAPON_ITEM_IDS \<union> set EQUIPMENT_ITEM_IDS \<union> set CAPACITY_ITEM_IDS \<union> set SPECIAL_WEAPON_ITEM_IDS)
     \<inter> set PERSISTENT_UPGRADE_ITEM_IDS = {}"
  by (auto simp: WEAPON_ITEM_IDS_def EQUIPMENT_ITEM_IDS_def CAPACITY_ITEM_IDS_def SPECIAL_WEAPON_ITEM_IDS_def
      PERSISTENT_UPGRADE_ITEM_IDS_def PERMANENT_PERK_ITEM_IDS_def)

lemma classify_known_iff: "classify_inventory_domain i \<noteq> None \<longleftrightarrow> i \<in> set ALL_PERSISTENT_DOMAIN_IDS"
  by (simp add: classify_inventory_domain_def ALL_PERSISTENT_DOMAIN_IDS_def)

lemma domain_names_distinct:
  "distinct [DOMAIN_WEAPONS, DOMAIN_EQUIPMENT, DOMAIN_CAPACITIES, DOMAIN_SPECIAL_WEAPONS,
     DOMAIN_PERSISTENT_UPGRADES, ''all'']"
  by code_simp

lemma classify_domain_eq:
  "classify_inventory_domain i = Some DOMAIN_WEAPONS \<longleftrightarrow> i \<in> set WEAPON_ITEM_IDS"
  "classify_inventory_domain i = Some DOMAIN_EQUIPMENT \<longleftrightarrow> i \<in> set EQUIPMENT_ITEM_IDS"
  "classify_inventory_domain i = Some DOMAIN_CAPACITIES \<longleftrightarrow> i \<in> set CAPACITY_ITEM_IDS"
  "classify_inventory_domain i = Some DOMAIN_SPECIAL_WEAPONS \<longleftrightarrow> i \<in> set SPECIAL_WEAPON_ITEM_IDS"
  "classify_inventory_domain i = Some DOMAIN_PERSISTENT_UPGRADES \<longleftrightarrow> i \<in> set PERSISTENT_UPGRADE_ITEM_IDS"
  using domain_ids_disjoint domain_names_distinct unfolding classify_inventory_domain_def by auto

text \<open>Selecting items for repair is exact: a single item must be a persistent one of
  the requested domain, a domain selects precisely the items classified into it, the whole
  inventory is the absence of a restriction, and nothing outside the persistent domains can
  ever be selected.\<close>

theorem inventory_selection_exact:
  assumes "selected_persistent_items domain item_id = Inr sel"
  shows "(sel = None \<longleftrightarrow> domain = ''all'' \<and> item_id = PNone) \<and>
    (\<forall>S. sel = Some S \<longrightarrow> S \<subseteq> set ALL_PERSISTENT_DOMAIN_IDS \<and>
       (domain \<noteq> ''all'' \<longrightarrow> (\<forall>i \<in> S. classify_inventory_domain i = Some domain)) \<and>
       (item_id = PNone \<longrightarrow> S = {i. classify_inventory_domain i = Some domain}) \<and>
       (item_id \<noteq> PNone \<longrightarrow> (\<exists>i. item_id = PInt i \<and> S = {i})))"
  using assms classify_known_iff
  by (auto simp: selected_persistent_items_def is_int_iff split: if_splits)

theorem inventory_selection_exact_witness:
  "\<exists>sel. selected_persistent_items DOMAIN_CAPACITIES PNone = Inr (Some sel) \<and> sel = set CAPACITY_ITEM_IDS"
proof -
  have "classify_inventory_domain 7770017 = Some DOMAIN_CAPACITIES"
    unfolding classify_domain_eq by (simp add: CAPACITY_ITEM_IDS_def)
  moreover have "7770017 \<in> set ALL_PERSISTENT_DOMAIN_IDS"
    by (simp add: ALL_PERSISTENT_DOMAIN_IDS_def CAPACITY_ITEM_IDS_def)
  ultimately have known: "Some DOMAIN_CAPACITIES \<in> classify_inventory_domain ` set ALL_PERSISTENT_DOMAIN_IDS"
    by (metis image_eqI)
  have "DOMAIN_CAPACITIES \<noteq> ''all''" using domain_names_distinct by simp
  with known obtain sel where sel: "selected_persistent_items DOMAIN_CAPACITIES PNone = Inr (Some sel)"
    by (simp add: selected_persistent_items_def)
  from inventory_selection_exact [OF sel] have "sel = set CAPACITY_ITEM_IDS"
    by (auto simp: classify_domain_eq)
  with sel show ?thesis by blast
qed

end
