(* ===== verification/Reconciliation_Plan.thy ===== *)
theory Reconciliation_Plan
  imports Delivery_Plan "HOL-Library.Multiset"
begin

text \<open>
  The replay policies and the reconciliation compiler at the end of
  \<open>doom_eap/runtime/item_reconciliation.py\<close>: from the authoritative receipts to the commands
  that restore what they own, each under its own spool identifier.

  Definitions and policies are association lists from item IDs, in dictionary order, with
  distinct keys; the compiler's arguments have the types that its guard asks for.
\<close>

definition REPLAY_IDEMPOTENT :: string where "REPLAY_IDEMPOTENT = ''replay_idempotent''"
definition REPLAY_MANUAL_ONLY :: string where "REPLAY_MANUAL_ONLY = ''replay_manual_only''"
definition SPECIAL_PROGRESSIVE :: string where "SPECIAL_PROGRESSIVE = ''special_progressive''"
definition NEVER_REPLAY :: string where "NEVER_REPLAY = ''never_replay''"
definition AP_RECEIPT_FEEDBACK :: string where "AP_RECEIPT_FEEDBACK = ''ap''"
definition NATIVE_ONLY_RECEIPT_FEEDBACK :: string where "NATIVE_ONLY_RECEIPT_FEEDBACK = ''native_only''"

definition SUPPORTED_POLICIES :: "string list" where
  "SUPPORTED_POLICIES = [REPLAY_IDEMPOTENT, REPLAY_MANUAL_ONLY, SPECIAL_PROGRESSIVE, NEVER_REPLAY]"

definition SUPPORTED_RECEIPT_FEEDBACK :: "string list" where
  "SUPPORTED_RECEIPT_FEEDBACK = [AP_RECEIPT_FEEDBACK, NATIVE_ONLY_RECEIPT_FEEDBACK]"

record replay_policy =
  rp_item :: int
  rp_name :: string
  rp_policy :: string
  rp_feedback :: string

record reconciliation_command =
  rc_item :: int
  rc_name :: string
  rc_policy :: string
  rc_stage :: nat
  rc_spool_id :: string
  rc_command :: string
  rc_description :: string

record reconciliation_selection =
  rsel_item :: int
  rsel_name :: string
  rsel_policy :: string
  rsel_count :: nat
  rsel_commands :: "string list"

record reconciliation_plan =
  rpl_commands :: "reconciliation_command list"
  rpl_selections :: "reconciliation_selection list"
  rpl_replayed :: nat
  rpl_special_stages :: nat
  rpl_skipped_never :: nat
  rpl_skipped_unproven :: nat
  rpl_skipped_manual :: nat
  rpl_entitlements :: "int list"

section \<open>The policy registry\<close>

definition policy_entry :: "string \<times> pyval \<Rightarrow> (int \<times> replay_policy) res" where
  "policy_entry e =
     (case py_int (fst e) of
        None \<Rightarrow> Inl (ValueError ''invalid numeric item policy ID'')
      | Some i \<Rightarrow>
         (if str_int i \<noteq> fst e then Inl (ValueError ''item policy ID is not canonical decimal'')
          else case snd e of
            PDict d \<Rightarrow>
              (if \<not> {''name'', ''policy''} \<subseteq> fst ` set d
                  \<or> \<not> fst ` set d \<subseteq> {''name'', ''policy'', ''receipt_feedback''}
               then Inl (ValueError ''item policy must contain name, policy, and optional receipt_feedback'')
               else case dget d ''name'' of
                 PStr name \<Rightarrow>
                   (if strip name = [] then Inl (ValueError ''item policy has invalid name'')
                    else case dget d ''policy'' of
                      PStr policy \<Rightarrow>
                        (if policy \<notin> set SUPPORTED_POLICIES then Inl (ValueError ''unsupported policy for item'')
                         else case dget_or d ''receipt_feedback'' (PStr AP_RECEIPT_FEEDBACK) of
                           PStr fb \<Rightarrow>
                             (if fb \<notin> set SUPPORTED_RECEIPT_FEEDBACK
                              then Inl (ValueError ''unsupported receipt feedback for item'')
                              else Inr (i, \<lparr>rp_item = i, rp_name = name, rp_policy = policy, rp_feedback = fb\<rparr>))
                         | _ \<Rightarrow> Inl (ValueError ''unsupported receipt feedback for item''))
                    | _ \<Rightarrow> Inl (ValueError ''unsupported policy for item''))
               | _ \<Rightarrow> Inl (ValueError ''item policy has invalid name''))
          | _ \<Rightarrow> Inl (ValueError ''item policy must be an object'')))"

definition load_policy_registry :: "pydict \<Rightarrow> (int \<times> pyval) list \<Rightarrow> (int \<times> replay_policy) list res" where
  "load_policy_registry raw definitions =
     (case dget raw ''items'' of
        PDict items \<Rightarrow>
          bind_res (map_res policy_entry items) (\<lambda>parsed.
            if \<not> fst ` set definitions \<subseteq> fst ` set parsed
            then Inl (ValueError ''missing policy for active item ID(s)'')
            else if \<not> fst ` set parsed \<subseteq> fst ` set definitions
            then Inl (ValueError ''policy exists for inactive item ID(s)'')
            else Inr parsed)
      | _ \<Rightarrow> Inl (ValueError ''item replay policy registry items must be an object''))"

section \<open>The compiler\<close>

definition reconcile_spool_id :: "string \<Rightarrow> nat \<Rightarrow> int \<Rightarrow> nat \<Rightarrow> string" where
  "reconcile_spool_id slot epoch i stage =
     ''reconcile-'' @ slot @ ''-e'' @ str_nat epoch @ ''-item'' @ str_int i @ ''-stage'' @ str_nat stage"

definition reconcile_command :: "string \<Rightarrow> nat \<Rightarrow> replay_policy \<Rightarrow> int \<Rightarrow> nat \<Rightarrow> delivery_command
    \<Rightarrow> string \<Rightarrow> reconciliation_command" where
  "reconcile_command slot epoch p i stage d descr =
     \<lparr>rc_item = i, rc_name = rp_name p, rc_policy = rp_policy p, rc_stage = stage,
      rc_spool_id = reconcile_spool_id slot epoch i stage, rc_command = dc_command d,
      rc_description = descr\<rparr>"

text \<open>Replay of an idempotent item: every command of its silent plan.\<close>

definition replay_commands :: "string \<Rightarrow> nat \<Rightarrow> (int \<times> pyval) list \<Rightarrow> replay_policy \<Rightarrow> int
    \<Rightarrow> reconciliation_command list res" where
  "replay_commands slot epoch definitions p i =
     bind_res (compile_item_delivery_plan i definitions None False PNone None) (\<lambda>plan.
       if dp_commands plan = [] then Inl (ValueError ''replay-safe item compiled no commands'')
       else Inr (map (\<lambda>d. reconcile_command slot epoch p i (dc_index d) d (dp_description plan))
                   (dp_commands plan)))"

text \<open>Replay of a progressive item: one command per owned stage.\<close>

definition stage_command :: "string \<Rightarrow> nat \<Rightarrow> (int \<times> pyval) list \<Rightarrow> replay_policy \<Rightarrow> int \<Rightarrow> nat
    \<Rightarrow> reconciliation_command res" where
  "stage_command slot epoch definitions p i stage =
     bind_res (compile_item_delivery_plan i definitions (Some (int stage)) False PNone None) (\<lambda>plan.
       case dp_commands plan of
         [d] \<Rightarrow> Inr (reconcile_command slot epoch p i stage d (dp_description plan))
       | _ \<Rightarrow> Inl (ValueError ''progressive item stage must compile one command''))"

definition progressive_commands :: "string \<Rightarrow> nat \<Rightarrow> (int \<times> pyval) list \<Rightarrow> replay_policy \<Rightarrow> int \<Rightarrow> nat
    \<Rightarrow> reconciliation_command list res" where
  "progressive_commands slot epoch definitions p i owned =
     (case map_of definitions i of
        Some (PDict d) \<Rightarrow>
          (if dget d ''type'' \<notin> {PStr ''progressive_perk'', PStr ''progressive_item''}
           then Inl (ValueError ''progressive item has an invalid definition'')
           else case dget d ''perks'' of
             PList perks \<Rightarrow>
               (if perks = [] then Inl (ValueError ''progressive item has no configured stages'')
                else map_res (stage_command slot epoch definitions p i) [0..<min owned (length perks)])
           | _ \<Rightarrow> Inl (ValueError ''progressive item has no configured stages''))
      | _ \<Rightarrow> Inl (ValueError ''progressive item has an invalid definition''))"

text \<open>The body of the loop over the owned items.\<close>

definition reconcile_item :: "string \<Rightarrow> nat \<Rightarrow> (int \<times> pyval) list \<Rightarrow> (int \<times> replay_policy) list \<Rightarrow> bool
    \<Rightarrow> (int \<Rightarrow> nat) \<Rightarrow> int \<Rightarrow> (reconciliation_command list \<times> reconciliation_selection) res" where
  "reconcile_item slot epoch definitions registry manual counts i =
     (case map_of registry i of
        None \<Rightarrow> Inl (KeyError ''item'')
      | Some p \<Rightarrow>
         (if rp_policy p \<notin> set SUPPORTED_POLICIES then Inl (ValueError ''unsupported policy for item'')
          else bind_res
            (if rp_policy p = NEVER_REPLAY then Inr []
             else if rp_policy p = REPLAY_MANUAL_ONLY \<and> \<not> manual then Inr []
             else if rp_policy p \<in> {REPLAY_IDEMPOTENT, REPLAY_MANUAL_ONLY}
             then replay_commands slot epoch definitions p i
             else progressive_commands slot epoch definitions p i (counts i))
            (\<lambda>cs. Inr (cs, \<lparr>rsel_item = i, rsel_name = rp_name p, rsel_policy = rp_policy p,
                            rsel_count = counts i, rsel_commands = map rc_command cs\<rparr>))))"

definition slot_identity_char :: "char \<Rightarrow> bool" where
  "slot_identity_char c \<longleftrightarrow> (CHR ''A'' \<le> c \<and> c \<le> CHR ''Z'') \<or> (CHR ''a'' \<le> c \<and> c \<le> CHR ''z'')
     \<or> is_digit c \<or> c \<in> {CHR ''_'', CHR ''.'', CHR '':'', CHR ''-''}"

definition BLOOD_PUNCH_ITEM :: int where "BLOOD_PUNCH_ITEM = 7770904"

definition selections_with :: "string \<Rightarrow> reconciliation_selection list \<Rightarrow> reconciliation_selection list" where
  "selections_with policy sels = filter (\<lambda>s. rsel_policy s = policy) sels"

definition plan_of_items :: "bool \<Rightarrow> (reconciliation_command list \<times> reconciliation_selection) list
    \<Rightarrow> reconciliation_plan" where
  "plan_of_items manual rs =
     (let sels = map snd rs in
      \<lparr>rpl_commands = concat (map fst rs), rpl_selections = sels,
       rpl_replayed = length (selections_with REPLAY_IDEMPOTENT sels)
         + (if manual then length (selections_with REPLAY_MANUAL_ONLY sels) else 0),
       rpl_special_stages = sum_list (map (length \<circ> rsel_commands) (selections_with SPECIAL_PROGRESSIVE sels)),
       rpl_skipped_never = length (selections_with NEVER_REPLAY sels),
       rpl_skipped_unproven = 0,
       rpl_skipped_manual = (if manual then 0 else length (selections_with REPLAY_MANUAL_ONLY sels)),
       rpl_entitlements = []\<rparr>)"

definition collect_items :: "int list \<Rightarrow> (int \<times> pyval) list \<Rightarrow> (int \<times> replay_policy) list \<Rightarrow> string \<Rightarrow> nat \<Rightarrow> bool
    \<Rightarrow> (reconciliation_command list \<times> reconciliation_selection) list res" where
  "collect_items received definitions registry slot epoch manual =
     map_res (reconcile_item slot epoch definitions registry manual (count_list received))
       (filter (\<lambda>i. i \<noteq> BLOOD_PUNCH_ITEM) (sorted_set received))"

definition compile_reconciliation_plan :: "int list \<Rightarrow> (int \<times> pyval) list \<Rightarrow> (int \<times> replay_policy) list
    \<Rightarrow> string \<Rightarrow> int \<Rightarrow> bool \<Rightarrow> reconciliation_plan res" where
  "compile_reconciliation_plan received definitions registry slot epoch manual =
     (if slot = [] \<or> \<not> list_all slot_identity_char slot \<or> epoch < 0
      then Inl (ValueError ''reconciliation requires slot identity and non-negative epoch'')
      else if fst ` set registry \<noteq> fst ` set definitions
      then Inl (ValueError ''reconciliation registry does not exactly cover active items'')
      else if \<not> set received \<subseteq> fst ` set registry
      then Inl (ValueError ''received item has no policy'')
      else bind_res (collect_items received definitions registry slot (nat epoch) manual) (\<lambda>rs.
        let plan = plan_of_items manual rs in
        if \<not> distinct (map rc_spool_id (rpl_commands plan))
        then Inl (ValueError ''reconciliation compiled duplicate spool IDs'')
        else Inr plan))"

section \<open>Spool identifiers are distinct\<close>

lemma reconcile_spool_id_inject:
  assumes "reconcile_spool_id slot epoch i m = reconcile_spool_id slot epoch j n"
  shows "i = j \<and> m = n"
proof -
  let ?t = "\<lambda>i m. str_int i @ ''-stage'' @ str_nat m"
  have eq: "?t i m = ?t j n" using assms by (simp add: reconcile_spool_id_def)
  have "rev (?t i m) = rev (''stage'' @ str_nat m) @ CHR ''-'' # rev (str_int i)" for i m
    by simp
  with eq have "rev (''stage'' @ str_nat m) @ CHR ''-'' # rev (str_int i)
      = rev (''stage'' @ str_nat n) @ CHR ''-'' # rev (str_int j)" by metis
  moreover have "CHR ''-'' \<notin> set (rev (''stage'' @ str_nat k))" for k
    using str_nat_no_minus [of k] by simp
  ultimately have "rev (''stage'' @ str_nat m) = rev (''stage'' @ str_nat n) \<and> rev (str_int i) = rev (str_int j)"
    by (intro append_sep_cancel)
  then show ?thesis by simp
qed

definition item_commands :: "string \<Rightarrow> nat \<Rightarrow> int \<Rightarrow> reconciliation_command list \<Rightarrow> bool" where
  "item_commands slot epoch i cs \<longleftrightarrow>
     (\<forall>c \<in> set cs. rc_item c = i \<and> rc_spool_id c = reconcile_spool_id slot epoch i (rc_stage c)) \<and>
     distinct (map rc_stage cs)"

lemma item_commands_distinct:
  "item_commands slot epoch i cs \<Longrightarrow> distinct (map rc_spool_id cs)"
  unfolding item_commands_def distinct_map
  by (auto simp: inj_on_def dest: reconcile_spool_id_inject)

lemma replay_commands_item:
  assumes "replay_commands slot epoch definitions p i = Inr cs"
  shows "item_commands slot epoch i cs"
proof -
  from assms obtain plan where plan: "compile_item_delivery_plan i definitions None False PNone None = Inr plan"
    and cs: "cs = map (\<lambda>d. reconcile_command slot epoch p i (dc_index d) d (dp_description plan)) (dp_commands plan)"
    by (auto simp: replay_commands_def split: if_splits)
  from compile_commands [OF plan] obtain es where
    "dp_commands plan = map (\<lambda>(k, e). command_at k e) (enumerate 0 es)"
    unfolding commands_of_def by blast
  then have "map dc_index (dp_commands plan) = [0..<length es]"
    by (simp add: command_at_def comp_def case_prod_beta)
  then have "distinct (map dc_index (dp_commands plan))" by simp
  then show ?thesis
    by (auto simp: cs item_commands_def reconcile_command_def comp_def)
qed

lemma map_res_all2: "map_res f xs = Inr ys \<longleftrightarrow> list_all2 (\<lambda>x y. f x = Inr y) xs ys"
  by (induction xs arbitrary: ys) (auto simp: list_all2_Cons1)

lemma list_all2_map_eq: "list_all2 (\<lambda>x y. f y = x) xs ys \<Longrightarrow> map f ys = xs"
  by (induction rule: list_all2_induct) auto

lemma list_all2_left: "list_all2 P xs ys \<Longrightarrow> y \<in> set ys \<Longrightarrow> \<exists>x \<in> set xs. P x y"
  by (induction rule: list_all2_induct) auto

lemma stage_command_fields:
  assumes "stage_command slot epoch definitions p i k = Inr c"
  shows "rc_item c = i \<and> rc_stage c = k \<and> rc_spool_id c = reconcile_spool_id slot epoch i k"
proof -
  from assms obtain plan :: delivery_plan where "(case dp_commands plan of
       [d] \<Rightarrow> Inr (reconcile_command slot epoch p i k d (dp_description plan))
     | _ \<Rightarrow> Inl (ValueError ''progressive item stage must compile one command'')) = Inr c"
    unfolding stage_command_def bind_res_eq_Inr by blast
  then show ?thesis by (auto simp: reconcile_command_def split: list.split_asm)
qed

lemma progressive_commands_item:
  assumes "progressive_commands slot epoch definitions p i owned = Inr cs"
  shows "item_commands slot epoch i cs"
proof -
  from assms obtain n where r: "map_res (stage_command slot epoch definitions p i) [0..<n] = Inr cs"
    by (auto simp: progressive_commands_def split: option.splits pyval.splits if_splits)
  have one: "rc_item c = i \<and> rc_stage c = k \<and> rc_spool_id c = reconcile_spool_id slot epoch i k"
    if "stage_command slot epoch definitions p i k = Inr c" for k c
    using stage_command_fields [OF that] .
  from r have l: "list_all2 (\<lambda>k c. rc_item c = i \<and> rc_stage c = k \<and>
      rc_spool_id c = reconcile_spool_id slot epoch i k) [0..<n] cs"
    unfolding map_res_all2 by (rule list_all2_mono) (rule one)
  then have "list_all2 (\<lambda>k c. rc_stage c = k) [0..<n] cs"
    by (rule list_all2_mono) blast
  then have "map rc_stage cs = [0..<n]" by (rule list_all2_map_eq)
  moreover have "rc_item c = i \<and> rc_spool_id c = reconcile_spool_id slot epoch i (rc_stage c)"
    if "c \<in> set cs" for c
    using list_all2_left [OF l that] by auto
  ultimately show ?thesis by (simp add: item_commands_def)
qed

lemma reconcile_item_commands:
  assumes "reconcile_item slot epoch definitions registry manual counts i = Inr (cs, sel)"
  shows "item_commands slot epoch i cs \<and> rsel_item sel = i \<and> rsel_count sel = counts i
    \<and> rsel_commands sel = map rc_command cs"
  using assms replay_commands_item progressive_commands_item
  by (auto simp: reconcile_item_def item_commands_def split: option.splits if_splits)

lemma collected_distinct:
  assumes "list_all2 (\<lambda>i r. item_commands slot epoch i (fst r)) is rs" and "distinct is"
  shows "distinct (map rc_spool_id (concat (map fst rs))) \<and>
    rc_item ` set (concat (map fst rs)) \<subseteq> set is"
  using assms
proof (induction rule: list_all2_induct)
  case (Cons i "is" r rs)
  have here: "rc_item c = i" "rc_spool_id c = reconcile_spool_id slot epoch i (rc_stage c)"
    if "c \<in> set (fst r)" for c
    using Cons.hyps(1) that by (auto simp: item_commands_def)
  have there: "\<exists>j \<in> set is. \<exists>k. rc_spool_id c = reconcile_spool_id slot epoch j k"
    if "c \<in> set (concat (map fst rs))" for c
  proof -
    from that obtain r' where r': "r' \<in> set rs" "c \<in> set (fst r')" by auto
    with list_all2_left [OF Cons.hyps(2)] obtain j where
      "j \<in> set is" "item_commands slot epoch j (fst r')" by blast
    with r' show ?thesis by (auto simp: item_commands_def)
  qed
  have "rc_spool_id ` set (fst r) \<inter> rc_spool_id ` set (concat (map fst rs)) = {}"
  proof (rule ccontr)
    assume "\<not> ?thesis"
    then obtain c c' where "c \<in> set (fst r)" "c' \<in> set (concat (map fst rs))"
      "rc_spool_id c = rc_spool_id c'" by blast
    with here there Cons.prems show False
      by (metis distinct.simps(2) reconcile_spool_id_inject)
  qed
  moreover have "distinct (map rc_spool_id (fst r))"
    using Cons.hyps(1) by (rule item_commands_distinct)
  moreover have "rc_item ` set (fst r) \<subseteq> {i}" using here by blast
  ultimately show ?case using Cons.IH Cons.prems by (simp del: set_concat) blast
qed simp

lemma collect_items_distinct:
  assumes "collect_items received definitions registry slot epoch manual = Inr rs"
  shows "distinct (map rc_spool_id (concat (map fst rs)))"
proof -
  let ?is = "filter (\<lambda>i. i \<noteq> BLOOD_PUNCH_ITEM) (sorted_set received)"
  have "list_all2 (\<lambda>i r. item_commands slot epoch i (fst r)) ?is rs"
    using assms unfolding collect_items_def map_res_all2
    by (rule list_all2_mono) (use reconcile_item_commands in force)
  from collected_distinct [OF this] show ?thesis by simp
qed

section \<open>Properties\<close>

text \<open>Property C26. The compiler's duplicate check never fires: once the owned items have been
  compiled, the plan is returned, its commands carry pairwise distinct spool identifiers, and
  every command belongs to one of the selections and names its item and stage.\<close>

theorem reconciliation_ids_distinct:
  assumes "slot \<noteq> []" "list_all slot_identity_char slot" "0 \<le> epoch"
    and "fst ` set registry = fst ` set definitions" and "set received \<subseteq> fst ` set registry"
    and "collect_items received definitions registry slot (nat epoch) manual = Inr rs"
  shows "compile_reconciliation_plan received definitions registry slot epoch manual
      = Inr (plan_of_items manual rs) \<and>
    distinct (map rc_spool_id (rpl_commands (plan_of_items manual rs)))"
  using assms collect_items_distinct [OF assms(6)]
  by (simp add: compile_reconciliation_plan_def plan_of_items_def Let_def not_less)

text \<open>The plan depends on which items were received and how often, not on the
  order of arrival.\<close>

theorem reconciliation_order_irrelevant:
  assumes "mset received = mset received'"
  shows "compile_reconciliation_plan received definitions registry slot epoch manual
      = compile_reconciliation_plan received' definitions registry slot epoch manual"
proof -
  have "set received = set received'" using assms by (metis set_mset_mset)
  moreover have "count_list received = count_list received'"
    using assms by (metis count_mset ext)
  moreover have "sorted_set received = sorted_set received'"
    using calculation(1) by (simp add: sorted_set_eq_iff)
  ultimately show ?thesis
    by (simp add: compile_reconciliation_plan_def collect_items_def)
qed

theorem reconciliation_order_irrelevant_witness:
  "compile_reconciliation_plan [2, 1, 2] [(1, PStr ''give a''), (2, PStr ''give b'')]
       [(1, \<lparr>rp_item = 1, rp_name = ''A'', rp_policy = NEVER_REPLAY, rp_feedback = ''ap''\<rparr>),
        (2, \<lparr>rp_item = 2, rp_name = ''B'', rp_policy = REPLAY_IDEMPOTENT, rp_feedback = ''ap''\<rparr>)]
       ''slot'' 0 False
   = compile_reconciliation_plan [1, 2, 2] [(1, PStr ''give a''), (2, PStr ''give b'')]
       [(1, \<lparr>rp_item = 1, rp_name = ''A'', rp_policy = NEVER_REPLAY, rp_feedback = ''ap''\<rparr>),
        (2, \<lparr>rp_item = 2, rp_name = ''B'', rp_policy = REPLAY_IDEMPOTENT, rp_feedback = ''ap''\<rparr>)]
       ''slot'' 0 False"
  by (rule reconciliation_order_irrelevant) simp

lemma progressive_commands_stages:
  assumes "progressive_commands slot epoch definitions p i owned = Inr cs"
    and "map_of definitions i = Some (PDict d)" and "dget d ''perks'' = PList perks"
  shows "map rc_stage cs = [0..<min owned (length perks)]"
proof -
  from assms have r: "map_res (stage_command slot epoch definitions p i) [0..<min owned (length perks)] = Inr cs"
    by (auto simp: progressive_commands_def split: if_splits)
  have one: "rc_stage c = k" if "stage_command slot epoch definitions p i k = Inr c" for k c
    using stage_command_fields [OF that] by blast
  from r have "list_all2 (\<lambda>k c. rc_stage c = k) [0..<min owned (length perks)] cs"
    unfolding map_res_all2 by (rule list_all2_mono) (rule one)
  then show ?thesis by (rule list_all2_map_eq)
qed

lemma filter_item_concat:
  assumes "list_all2 (\<lambda>i r. item_commands slot epoch i (fst r)) is rs" and "distinct is" and "i \<in> set is"
  shows "\<exists>r. r \<in> set (map snd (filter (\<lambda>(j, r). j = i) (zip is rs))) \<and>
    filter (\<lambda>c. rc_item c = i) (concat (map fst rs)) = fst r"
  using assms
proof (induction rule: list_all2_induct)
  case (Cons j js r rs)
  have none: "filter (\<lambda>c. rc_item c = i) (concat (map fst rs)) = []" if "i \<notin> set js"
    using collected_distinct [OF Cons.hyps(2)] Cons.prems(1) that
    by (auto simp: filter_empty_conv simp del: set_concat)
  have all: "filter (\<lambda>c. rc_item c = i) (fst r) = (if j = i then fst r else [])"
    using Cons.hyps(1) by (auto simp: item_commands_def filter_empty_conv intro: filter_True)
  show ?case
  proof (cases "i = j")
    case True
    with Cons.prems none all show ?thesis by (intro exI [of _ r]) auto
  next
    case False
    with Cons.IH Cons.prems all show ?thesis by auto
  qed
qed simp

text \<open>A progressive item replays each of its stages that the receipts own: its
  commands in the plan are exactly the stages below the smaller of the number of its receipts
  and the number of configured stages, in order, each once.\<close>

theorem progressive_stages_replayed:
  assumes collect: "collect_items received definitions registry slot epoch manual = Inr rs"
    and item: "i \<in> set received" "i \<noteq> BLOOD_PUNCH_ITEM"
    and policy: "map_of registry i = Some p" "rp_policy p = SPECIAL_PROGRESSIVE"
    and dfn: "map_of definitions i = Some (PDict d)" "dget d ''perks'' = PList perks"
  shows "map rc_stage (filter (\<lambda>c. rc_item c = i) (rpl_commands (plan_of_items manual rs)))
    = [0..<min (count_list received i) (length perks)]"
proof -
  let ?is = "filter (\<lambda>i. i \<noteq> BLOOD_PUNCH_ITEM) (sorted_set received)"
  have all: "list_all2 (\<lambda>j r. reconcile_item slot epoch definitions registry manual (count_list received) j = Inr r) ?is rs"
    using collect unfolding collect_items_def map_res_all2 .
  then have "list_all2 (\<lambda>i r. item_commands slot epoch i (fst r)) ?is rs"
    by (rule list_all2_mono) (use reconcile_item_commands in force)
  from filter_item_concat [OF this, of i] item obtain r where
    r: "(i, r) \<in> set (zip ?is rs)" "filter (\<lambda>c. rc_item c = i) (concat (map fst rs)) = fst r"
    by auto
  from all r(1) have "reconcile_item slot epoch definitions registry manual (count_list received) i = Inr r"
    unfolding list_all2_iff by blast
  then have "progressive_commands slot epoch definitions p i (count_list received i) = Inr (fst r)"
    using policy by (auto simp: reconcile_item_def NEVER_REPLAY_def REPLAY_MANUAL_ONLY_def
        REPLAY_IDEMPOTENT_def SPECIAL_PROGRESSIVE_def split: if_splits)
  from progressive_commands_stages [OF this dfn] r(2) show ?thesis
    by (simp add: plan_of_items_def Let_def)
qed

section \<open>Witnesses\<close>

definition sample_definitions :: "(int \<times> pyval) list" where
  "sample_definitions = [(7, PDict [(''type'', PStr ''progressive_item''), (''perks'', PList [PStr ''a'', PStr ''b''])])]"

definition sample_registry :: "(int \<times> replay_policy) list" where
  "sample_registry = [(7, \<lparr>rp_item = 7, rp_name = ''P'', rp_policy = SPECIAL_PROGRESSIVE, rp_feedback = ''ap''\<rparr>)]"

lemma sample_stage:
  assumes "k < 2"
  shows "\<exists>c. stage_command ''slot'' 0 sample_definitions p 7 k = Inr c"
proof -
  have "starts_with (rpc_entity 7 [str_int (int k)]) ''ap_''"
    using rpc_entity_of [of 7 "[str_int (int k)]"] by (simp add: entity_of_def)
  moreover have "k = 0 \<or> k = 1" using assms by auto
  ultimately show ?thesis
    using activate_not_raw
    by (auto simp: stage_command_def compile_item_delivery_plan_def sample_definitions_def mastery_items_def
        MASTERY_ITEM_BITS_def dget_def dget_or_def typed_families_def family_primitives_def primitive_def
        primitive_registry_def family_effects_def progressive_effects_def command_at_def)
qed

lemma sample_collect:
  "\<exists>rs. collect_items [7, 7, 7] sample_definitions sample_registry ''slot'' 0 False = Inr rs"
proof -
  obtain c0 c1 where c: "stage_command ''slot'' 0 sample_definitions (the (map_of sample_registry 7)) 7 0 = Inr c0"
    "stage_command ''slot'' 0 sample_definitions (the (map_of sample_registry 7)) 7 1 = Inr c1"
    using sample_stage [of 0] sample_stage [of 1] by fastforce
  have "map_of sample_definitions 7 =
      Some (PDict [(''type'', PStr ''progressive_item''), (''perks'', PList [PStr ''a'', PStr ''b''])])"
    by (simp add: sample_definitions_def)
  then have "progressive_commands ''slot'' 0 sample_definitions (the (map_of sample_registry 7)) 7 3 = Inr [c0, c1]"
    using c by (simp add: progressive_commands_def dget_def upt_rec)
  then show ?thesis
    by (simp add: numeral_3_eq_3 collect_items_def sorted_set_def BLOOD_PUNCH_ITEM_def reconcile_item_def
        sample_registry_def SUPPORTED_POLICIES_def NEVER_REPLAY_def REPLAY_MANUAL_ONLY_def
        REPLAY_IDEMPOTENT_def SPECIAL_PROGRESSIVE_def)
qed

theorem reconciliation_ids_distinct_witness:
  "\<exists>plan. compile_reconciliation_plan [7, 7, 7] sample_definitions sample_registry ''slot'' 0 False = Inr plan \<and>
     distinct (map rc_spool_id (rpl_commands plan))"
proof -
  obtain rs where rs: "collect_items [7, 7, 7] sample_definitions sample_registry ''slot'' 0 False = Inr rs"
    using sample_collect by blast
  have slot: "list_all slot_identity_char ''slot''" by code_simp
  have "fst ` set sample_registry = fst ` set sample_definitions" "set [7, 7, 7] \<subseteq> fst ` set sample_registry"
    by (simp_all add: sample_registry_def sample_definitions_def)
  from reconciliation_ids_distinct [OF _ slot _ this, of 0 False rs] rs show ?thesis by auto
qed

theorem progressive_stages_replayed_witness:
  "\<exists>rs. collect_items [7, 7, 7] sample_definitions sample_registry ''slot'' 0 False = Inr rs \<and>
     map rc_stage (filter (\<lambda>c. rc_item c = 7) (rpl_commands (plan_of_items False rs))) = [0, 1]"
proof -
  obtain rs where rs: "collect_items [7, 7, 7] sample_definitions sample_registry ''slot'' 0 False = Inr rs"
    using sample_collect by blast
  have "map_of sample_definitions 7 =
      Some (PDict [(''type'', PStr ''progressive_item''), (''perks'', PList [PStr ''a'', PStr ''b''])])"
    by (simp add: sample_definitions_def)
  from progressive_stages_replayed [OF rs _ _ _ _ this, of "the (map_of sample_registry 7)" "[PStr ''a'', PStr ''b'']"]
  show ?thesis using rs by (simp add: BLOOD_PUNCH_ITEM_def sample_registry_def dget_def upt_rec)
qed

end
