(* ===== verification/Receipt_Ledger.thy ===== *)
theory Receipt_Ledger
  imports Sha256
begin

text \<open>
  The durable receipt ledger of \<open>doom_eap/runtime/item_reconciliation.py\<close>: identities of
  received items, classification of an authoritative history against the processed boundary,
  recording of processed receipts, validation of the recorded prefix, ownership projection.

  A receipt is an Archipelago \<open>NetworkItem\<close> whose item ID has been decoded to an integer;
  \<open>packet_id\<close> is the optional explicit \<open>receipt_id\<close> field. A session is its JSON document.
\<close>

record network_item =
  item :: int
  location :: pyval
  player :: pyval
  flags :: pyval
  packet_id :: pyval

record observed_receipt =
  obs_index :: nat
  obs_item :: int
  obs_receipt :: "string option"

record received_observation =
  historical :: "observed_receipt list"
  new_receipts :: "observed_receipt list"
  duplicates :: "observed_receipt list"
  observed_boundary :: int
  highest_observed_index :: int
  observed_item_ids :: "int list"
  historical_item_ids :: "int list"
  new_item_ids :: "int list"
  observed_receipt_ids :: "string list"

section \<open>Identity\<close>

definition receipt_identity :: "network_item \<Rightarrow> string option" where
  "receipt_identity r =
     (if packet_id r \<noteq> PNone then Some (''receipt:'' @ json_dumps (packet_id r))
      else if location r = PNone \<and> player r = PNone \<and> flags r = PNone then None
      else Some (''network:'' @ json_dumps (PList [location r, player r, PInt (item r), flags r])))"

definition progressive_receipt_stage :: "int list \<Rightarrow> int \<Rightarrow> nat \<Rightarrow> nat set \<Rightarrow> pyval \<Rightarrow> int" where
  "progressive_receipt_stage item_ids i item_index excluded dfn =
     (let n = length (filter (\<lambda>(k, x). k \<notin> excluded \<and> x = i)
                (enumerate 0 (take (item_index + 1) item_ids)));
          stage = max (int n - 1) 0
      in case dfn of
           PDict d \<Rightarrow>
             (if dget d ''type'' \<in> {PStr ''progressive_perk'', PStr ''progressive_item''}
              then (case dget d ''perks'' of
                      PList ps \<Rightarrow> (if ps = [] then 0 else min stage (int (length ps) - 1))
                    | _ \<Rightarrow> 0)
              else stage)
         | _ \<Rightarrow> stage)"

definition fresh_receipt_owned_count :: "int list \<Rightarrow> int \<Rightarrow> int option \<Rightarrow> nat \<Rightarrow> nat set \<Rightarrow> nat option" where
  "fresh_receipt_owned_count item_ids i item_index boundary excluded =
     (case item_index of
        None \<Rightarrow> None
      | Some k \<Rightarrow>
         (if k < int boundary \<or> k \<ge> int (length item_ids) \<or> item_ids ! nat k \<noteq> i then None
          else Some (length (filter (\<lambda>(j, x). j \<notin> excluded \<and> x = i)
                 (enumerate boundary (drop boundary (take (nat k + 1) item_ids)))))))"

section \<open>Observation of an authoritative history\<close>

text \<open>\<open>known_occurrences\<close>: the recorded counts that are positive integers, or the number of
  occurrences of each recorded identity.\<close>

definition known_of_counts :: "(string \<times> pyval) list \<Rightarrow> string \<Rightarrow> int" where
  "known_of_counts counts k =
     (case map_of counts k of
        Some (PInt n) \<Rightarrow> (if k \<noteq> [] \<and> n > 0 then n else 0)
      | _ \<Rightarrow> 0)"

definition known_of_ids :: "pyval list \<Rightarrow> string \<Rightarrow> int" where
  "known_of_ids ids k = int (count_list (strs_of ids) k)"

text \<open>The loop over the snapshot. The counter of the identities seen so far is carried as the
  list of those identities.\<close>

fun observe_loop :: "(string \<Rightarrow> int) \<Rightarrow> int \<Rightarrow> nat \<Rightarrow> string list \<Rightarrow> network_item list
    \<Rightarrow> received_observation \<Rightarrow> received_observation" where
  "observe_loop known boundary k seen [] obs = obs"
| "observe_loop known boundary k seen (r # rs) obs =
     (let sid = receipt_identity r;
          o1 = \<lparr>obs_index = k, obs_item = item r, obs_receipt = sid\<rparr>;
          seen' = (case sid of None \<Rightarrow> seen | Some s \<Rightarrow> seen @ [s]);
          obs1 = obs\<lparr>observed_item_ids := observed_item_ids obs @ [item r],
                     observed_receipt_ids := observed_receipt_ids obs
                       @ (case sid of None \<Rightarrow> [] | Some s \<Rightarrow> [s])\<rparr>;
          obs2 = (if int k < boundary
                  then obs1\<lparr>historical := historical obs1 @ [o1],
                            historical_item_ids := historical_item_ids obs1 @ [item r]\<rparr>
                  else if (case sid of None \<Rightarrow> False
                           | Some s \<Rightarrow> int (count_list seen' s) \<le> known s)
                  then obs1\<lparr>duplicates := duplicates obs1 @ [o1]\<rparr>
                  else obs1\<lparr>new_receipts := new_receipts obs1 @ [o1],
                            new_item_ids := new_item_ids obs1 @ [item r]\<rparr>)
      in observe_loop known boundary (k + 1) seen' rs obs2)"

definition observe_received_items :: "network_item list \<Rightarrow> pyval \<Rightarrow> (string \<Rightarrow> int)
    \<Rightarrow> received_observation res" where
  "observe_received_items received processed_boundary known =
     (if \<not> is_int processed_boundary \<or> the_int processed_boundary < 0
      then Inl (ValueError ''processed boundary must be a non-negative integer'')
      else Inr (observe_loop known (the_int processed_boundary) 0 [] received
        \<lparr>historical = [], new_receipts = [], duplicates = [],
         observed_boundary = the_int processed_boundary,
         highest_observed_index = int (length received) - 1,
         observed_item_ids = [], historical_item_ids = [], new_item_ids = [],
         observed_receipt_ids = []\<rparr>))"

definition next_boundary :: "received_observation \<Rightarrow> int" where
  "next_boundary obs = highest_observed_index obs + 1"

definition authoritative_item_ids :: "received_observation \<Rightarrow> int list" where
  "authoritative_item_ids obs = map obs_item (historical obs @ new_receipts obs)"

definition historical_authoritative_item_ids :: "received_observation \<Rightarrow> int list" where
  "historical_authoritative_item_ids obs = map obs_item (historical obs)"

definition optional_text :: "string option \<Rightarrow> pyval" where
  "optional_text s = (case s of None \<Rightarrow> PNone | Some t \<Rightarrow> PStr t)"

definition receipt_records :: "network_item list \<Rightarrow> pyval list" where
  "receipt_records rs = map (\<lambda>(k, r). PDict
     [(''index'', PInt (int k)), (''item_id'', PInt (item r)),
      (''receipt_id'', optional_text (receipt_identity r))]) (enumerate 0 rs)"

definition receipt_history_fingerprint :: "network_item list \<Rightarrow> string" where
  "receipt_history_fingerprint rs = sha256_hex (json_dumps (PList (receipt_records rs)))"

section \<open>The ledger in the session document\<close>

fun safe_receipt_counts :: "pyval \<Rightarrow> (string \<times> pyval) list" where
  "safe_receipt_counts (PDict d) =
     filter (\<lambda>(k, v). k \<noteq> [] \<and> (case v of PInt n \<Rightarrow> n > 0 | _ \<Rightarrow> False)) d"
| "safe_receipt_counts _ = []"

fun safe_receipt_ids :: "pyval \<Rightarrow> string list" where
  "safe_receipt_ids (PList vs) = strs_of vs"
| "safe_receipt_ids _ = []"

fun safe_item_ids :: "pyval \<Rightarrow> int list" where
  "safe_item_ids (PList vs) = ints_of vs"
| "safe_item_ids _ = []"

definition receipt_history :: "pydict \<Rightarrow> pyval" where \<comment> \<open>\<open>session.setdefault("receipt_history", {})\<close>\<close>
  "receipt_history session = dget_or session ''receipt_history'' (PDict [])"

definition processed_receipt_counts :: "pydict \<Rightarrow> pydict \<times> (string \<times> pyval) list" where
  "processed_receipt_counts session =
     (let history = (case receipt_history session of PDict h \<Rightarrow> h | _ \<Rightarrow> []);
          repaired = (case map_of history ''receipt_counts'' of
             None \<Rightarrow> history
           | Some (PDict c) \<Rightarrow> history
           | Some _ \<Rightarrow> dset ''receipt_counts'' (PDict []) history)
      in (dset ''receipt_history'' (PDict repaired) session,
          safe_receipt_counts (dget repaired ''receipt_counts'')))"

text \<open>One occurrence recorded. A history that is no dictionary has no \<open>setdefault\<close>; a count that
  is no integer cannot be incremented (\<open>normalize_session_state\<close> leaves none).\<close>

definition the_list :: "pyval \<Rightarrow> pyval list" where
  "the_list v = (case v of PList xs \<Rightarrow> xs | _ \<Rightarrow> [])"

definition the_dict :: "pyval \<Rightarrow> pydict" where
  "the_dict v = (case v of PDict d \<Rightarrow> d | _ \<Rightarrow> [])"

lemma the_dict_PDict [simp]: "the_dict (PDict d) = d"
  by (simp add: the_dict_def)

definition record_processed_receipt :: "pydict \<Rightarrow> network_item \<Rightarrow> pydict \<times> unit res" where
  "record_processed_receipt session r =
     (let s0 = dset ''receipt_history'' (receipt_history session) session in
      case receipt_history session of
        PDict h \<Rightarrow>
          (let h1 = dset ''receipt_item_ids''
                 (PList (the_list (dget h ''receipt_item_ids'') @ [PInt (item r)])) h;
               put = (\<lambda>x. dset ''receipt_history'' (PDict x) s0)
           in case receipt_identity r of
                None \<Rightarrow> (put h1, Inr ())
              | Some i \<Rightarrow>
                 (let counts = the_dict (dget h1 ''receipt_counts'');
                      h2 = dset ''receipt_counts'' (PDict counts) h1
                  in if is_int_or_bool (dget_or counts i (PInt 0))
                     then (let h3 = dset ''receipt_counts'' (PDict (dset i
                                (PInt (the_int (dget_or counts i (PInt 0)) + 1)) counts)) h2;
                               h4 = dset ''receipt_ids''
                                (PList (the_list (dget h3 ''receipt_ids'') @ [PStr i])) h3
                           in (put h4, Inr ()))
                     else (put h2, Inl (TypeError ''unsupported operand type(s) for +''))))
      | _ \<Rightarrow> (s0, Inl (Exn ''AttributeError'' ''setdefault'')))"

definition validate_receipt_history_prefix :: "network_item list \<Rightarrow> pyval \<Rightarrow> pyval \<Rightarrow> bool \<times> string" where
  "validate_receipt_history_prefix received processed_boundary history =
     (if \<not> is_int processed_boundary \<or> the_int processed_boundary < 0
      then (False, ''processed boundary must be a non-negative integer'')
      else let boundary = nat (the_int processed_boundary) in
       if boundary > length received
       then (False, ''durable boundary exceeds received history length'')
       else case history of
         PDict h \<Rightarrow>
          (let expected_item_ids = safe_item_ids (dget h ''receipt_item_ids'');
               expected_receipt_ids = safe_receipt_ids (dget h ''receipt_ids'');
               expected_receipt_counts = safe_receipt_counts (dget h ''receipt_counts'');
               prefix_items = take boundary received;
               actual_item_ids = map item prefix_items;
               actual_receipt_ids = List.map_filter receipt_identity prefix_items
           in if expected_item_ids \<noteq> []
              then (if length expected_item_ids \<noteq> boundary
                    then (False, ''durable receipt item prefix length does not match boundary'')
                    else if expected_item_ids \<noteq> actual_item_ids
                    then (False, ''durable receipt item prefix differs from ReceivedItems'')
                    else (True, ''compatible''))
              else if expected_receipt_ids \<noteq> []
              then (if length expected_receipt_ids \<noteq> length actual_receipt_ids
                    then (False, ''durable receipt identity prefix is incomplete'')
                    else if expected_receipt_ids \<noteq> actual_receipt_ids
                    then (False, ''durable receipt identity prefix differs from ReceivedItems'')
                    else (True, ''compatible''))
              else if expected_receipt_counts \<noteq> []
              then (if list_all (\<lambda>(k, v). PInt (int (count_list actual_receipt_ids k)) = v)
                          expected_receipt_counts
                        \<and> set actual_receipt_ids \<subseteq> fst ` set expected_receipt_counts
                    then (True, ''compatible'')
                    else (False, ''durable receipt identity counts differ from ReceivedItems''))
              else (True, ''compatible''))
       | _ \<Rightarrow> (True, ''no durable receipt prefix recorded''))"

definition validate_session_receipt_prefix :: "pydict \<Rightarrow> network_item list \<Rightarrow> pyval \<Rightarrow> pydict \<times> bool \<times> string" where
  "validate_session_receipt_prefix session received boundary =
     (dset ''receipt_history'' (receipt_history session) session,
      validate_receipt_history_prefix received boundary (receipt_history session))"

text \<open>Stored values are compared as JSON values (a stored \<open>true\<close> is not the integer 1).\<close>

definition project_receipt_history :: "pydict \<Rightarrow> network_item list \<Rightarrow> nat \<Rightarrow> received_observation
    \<Rightarrow> pydict \<times> bool res" where
  "project_receipt_history session received boundary obs =
     (case receipt_history session of
        PDict h \<Rightarrow>
          (let owned = PList (map PInt (sorted_set (observed_item_ids obs)));
               ordered = PList (map PStr (List.map_filter receipt_identity (take boundary received)));
               items = PList (map PInt (take boundary (observed_item_ids obs)));
               highest = PInt (highest_observed_index obs);
               bound = PInt (int boundary);
               changed = (dget h ''processed_boundary'' \<noteq> bound
                 \<or> dget h ''highest_observed_index'' \<noteq> highest
                 \<or> dget h ''owned_item_ids'' \<noteq> owned
                 \<or> dget h ''receipt_item_ids'' \<noteq> items
                 \<or> dget h ''receipt_ids'' \<noteq> ordered);
               h' = dset ''receipt_ids'' ordered (dset ''receipt_item_ids'' items
                     (dset ''owned_item_ids'' owned (dset ''highest_observed_index'' highest
                       (dset ''processed_boundary'' bound h))))
           in (dset ''receipt_history'' (PDict h') session, Inr changed))
      | v \<Rightarrow> (dset ''receipt_history'' v session, Inl (Exn ''AttributeError'' ''get'')))"

definition project_receipt_boundary :: "pydict \<Rightarrow> int \<Rightarrow> pydict" where
  "project_receipt_boundary session processed_items =
     (let s1 = dset ''processed_items'' (PInt processed_items) session in
      dset ''receipt_history''
        (PDict (dset ''processed_boundary'' (PInt processed_items) (the_dict (receipt_history s1)))) s1)"

definition reset_receipt_history :: "pydict \<Rightarrow> pydict" where
  "reset_receipt_history session =
     dset ''receipt_history'' (PDict [(''processed_boundary'', PInt 0),
        (''highest_observed_index'', PInt (- 1)), (''receipt_ids'', PList []),
        (''receipt_counts'', PDict []), (''receipt_item_ids'', PList []), (''owned_item_ids'', PList [])])
      (dset ''processed_items'' (PInt 0) session)"

section \<open>The observation partitions the history\<close>

definition observed_of :: "nat \<Rightarrow> network_item \<Rightarrow> observed_receipt" where
  "observed_of k r = \<lparr>obs_index = k, obs_item = item r, obs_receipt = receipt_identity r\<rparr>"

text \<open>A receipt beyond the boundary is a duplicate when its identity has occurred, up to and
  including itself, at most as often as is recorded.\<close>

definition is_duplicate :: "(string \<Rightarrow> int) \<Rightarrow> string list \<Rightarrow> network_item \<Rightarrow> bool" where
  "is_duplicate known seen r = (case receipt_identity r of None \<Rightarrow> False
     | Some s \<Rightarrow> int (count_list seen s) + 1 \<le> known s)"

definition identities :: "network_item list \<Rightarrow> string list" where
  "identities rs = List.map_filter receipt_identity rs"

lemma identities_simps [simp]:
  "identities [] = []"
  "identities (r # rs) = (case receipt_identity r of None \<Rightarrow> identities rs | Some s \<Rightarrow> s # identities rs)"
  "identities (rs @ rs') = identities rs @ identities rs'"
  by (simp_all add: identities_def map_filter_simps split: option.splits)
    (simp add: List.map_filter_def)

definition ranked_duplicate :: "(string \<Rightarrow> int) \<Rightarrow> network_item list \<Rightarrow> nat \<Rightarrow> bool" where
  "ranked_duplicate known rs k = is_duplicate known (identities (take k rs)) (rs ! k)"

definition pick :: "(nat \<Rightarrow> bool) \<Rightarrow> network_item list \<Rightarrow> observed_receipt list" where
  "pick P rs = map (\<lambda>k. observed_of k (rs ! k)) (filter P [0..<length rs])"

lemma pick_snoc: "pick P (rs @ [r]) = pick P rs @ (if P (length rs) then [observed_of (length rs) r] else [])"
  by (auto simp: pick_def nth_append intro: map_cong)

definition observes :: "(string \<Rightarrow> int) \<Rightarrow> int \<Rightarrow> network_item list \<Rightarrow> network_item list
    \<Rightarrow> received_observation \<Rightarrow> bool" where
  "observes known boundary all seen obs \<longleftrightarrow>
     historical obs = pick (\<lambda>k. int k < boundary) seen \<and>
     duplicates obs = pick (\<lambda>k. \<not> int k < boundary \<and> ranked_duplicate known all k) seen \<and>
     new_receipts obs = pick (\<lambda>k. \<not> int k < boundary \<and> \<not> ranked_duplicate known all k) seen \<and>
     observed_item_ids obs = map item seen \<and>
     historical_item_ids obs = map obs_item (historical obs) \<and>
     new_item_ids obs = map obs_item (new_receipts obs) \<and>
     observed_receipt_ids obs = identities seen"

lemma observes_step:
  assumes "observes known boundary all seen obs" and "all = seen @ r # rs"
  shows "\<exists>obs'. observe_loop known boundary (length seen) (identities seen) (r # rs) obs
       = observe_loop known boundary (length (seen @ [r])) (identities (seen @ [r])) rs obs'
     \<and> observes known boundary all (seen @ [r]) obs'
     \<and> highest_observed_index obs' = highest_observed_index obs
     \<and> observed_boundary obs' = observed_boundary obs"
proof -
  have "ranked_duplicate known all (length seen) = is_duplicate known (identities seen) r"
    using assms(2) by (simp add: ranked_duplicate_def)
  with assms(1) show ?thesis
    by (cases "receipt_identity r")
      (auto simp: observes_def pick_snoc observed_of_def is_duplicate_def Let_def)
qed

lemma observes_loop:
  assumes "observes known boundary all seen obs" and "all = seen @ rs"
  shows "observes known boundary all all
      (observe_loop known boundary (length seen) (identities seen) rs obs) \<and>
    highest_observed_index (observe_loop known boundary (length seen) (identities seen) rs obs)
      = highest_observed_index obs \<and>
    observed_boundary (observe_loop known boundary (length seen) (identities seen) rs obs)
      = observed_boundary obs"
  using assms
proof (induction rs arbitrary: seen obs)
  case (Cons r rs)
  from observes_step [OF Cons.prems] obtain obs' where
    "observe_loop known boundary (length seen) (identities seen) (r # rs) obs
       = observe_loop known boundary (length (seen @ [r])) (identities (seen @ [r])) rs obs'"
    "observes known boundary all (seen @ [r]) obs'"
    "highest_observed_index obs' = highest_observed_index obs"
    "observed_boundary obs' = observed_boundary obs" by blast
  with Cons.IH [of "seen @ [r]" obs'] Cons.prems(2) show ?case by simp
qed simp

text \<open>The observation of an authoritative history splits it without loss: the
  receipts before the processed boundary are historical; those after it are duplicates
  exactly when their identity, counted from the start of the history up to the receipt
  itself, occurs at most as often as it was recorded, and new otherwise; each class keeps the
  order of arrival, and the item IDs and identities listed are those of the whole history.\<close>

theorem observation_partitions_history:
  "observe_received_items received (PInt b) known = Inr obs \<longleftrightarrow>
     b \<ge> 0 \<and> observes known b received received obs \<and> observed_boundary obs = b \<and>
     next_boundary obs = int (length received)"
proof -
  let ?obs0 = "\<lparr>historical = [], new_receipts = [], duplicates = [], observed_boundary = b,
     highest_observed_index = int (length received) - 1, observed_item_ids = [],
     historical_item_ids = [], new_item_ids = [], observed_receipt_ids = []\<rparr>"
  have start: "observes known b received [] ?obs0" by (simp add: observes_def pick_def)
  let ?res = "observe_loop known b 0 [] received ?obs0"
  have res: "observes known b received received ?res" "next_boundary ?res = int (length received)"
    "observed_boundary ?res = b"
    using observes_loop [OF start, of received] by (simp_all add: next_boundary_def)
  have unique: "o1 = o2" if "observes known b received received o1" "observes known b received received o2"
    "observed_boundary o1 = observed_boundary o2" "next_boundary o1 = next_boundary o2" for o1 o2
    using that by (simp add: observes_def next_boundary_def)
  have eval: "observe_received_items received (PInt b) known = Inr obs \<longleftrightarrow> b \<ge> 0 \<and> obs = ?res"
    by (auto simp: observe_received_items_def)
  show ?thesis unfolding eval using res unique [of obs ?res] by metis
qed

text \<open>The three classes are disjoint and exhaust the positions of the history.\<close>

lemma pick_indices: "map obs_index (pick P rs) = filter P [0..<length rs]"
  by (simp add: pick_def observed_of_def comp_def)

section \<open>The recorded prefix stays compatible with the history it was recorded from\<close>

fun record_all :: "pydict \<Rightarrow> network_item list \<Rightarrow> pydict \<times> unit res" where
  "record_all session [] = (session, Inr ())"
| "record_all session (r # rs) =
     (case record_processed_receipt session r of
        (s', Inl e) \<Rightarrow> (s', Inl e)
      | (s', Inr u) \<Rightarrow> record_all s' rs)"

definition ledger_of :: "pydict \<Rightarrow> network_item list \<Rightarrow> bool" where
  "ledger_of session rs \<longleftrightarrow> (\<exists>h counts. receipt_history session = PDict h \<and>
     dget h ''receipt_item_ids'' = PList (map (PInt \<circ> item) rs) \<and>
     dget h ''receipt_ids'' = PList (map PStr (identities rs)) \<and>
     dget h ''receipt_counts'' = PDict counts \<and> distinct (map fst counts) \<and>
     (\<forall>k. map_of counts k = (if k \<in> set (identities rs)
        then Some (PInt (int (count_list (identities rs) k))) else None)))"

lemma receipt_history_dset [simp]:
  "receipt_history (dset ''receipt_history'' v session) = v"
  by (simp add: receipt_history_def)

lemma ledger_record:
  assumes "ledger_of session rs"
  shows "\<exists>s'. record_processed_receipt session r = (s', Inr ()) \<and> ledger_of s' (rs @ [r])"
proof -
  from assms obtain h counts where h: "receipt_history session = PDict h"
    "dget h ''receipt_item_ids'' = PList (map (PInt \<circ> item) rs)"
    "dget h ''receipt_ids'' = PList (map PStr (identities rs))"
    "dget h ''receipt_counts'' = PDict counts" "distinct (map fst counts)"
    and c: "\<forall>k. map_of counts k = (if k \<in> set (identities rs)
        then Some (PInt (int (count_list (identities rs) k))) else None)"
    by (auto simp: ledger_of_def)
  have get: "dget_or counts k (PInt 0) = PInt (int (count_list (identities rs) k))" for k
    using c by (simp add: dget_or_def count_list_0_iff)
  show ?thesis
  proof (cases "receipt_identity r")
    case None
    with h c show ?thesis
      by (auto simp: record_processed_receipt_def ledger_of_def the_list_def Let_def)
  next
    case (Some i)
    with h c get show ?thesis
      by (auto simp: record_processed_receipt_def ledger_of_def the_list_def the_dict_def Let_def
          map_of_update distinct_update)
  qed
qed

lemma ledger_record_all:
  assumes "ledger_of session rs"
  shows "\<exists>s'. record_all session rs' = (s', Inr ()) \<and> ledger_of s' (rs @ rs')"
  using assms
proof (induction rs' arbitrary: session rs)
  case (Cons r rs')
  from ledger_record [OF Cons.prems, of r] obtain s1 where
    s1: "record_processed_receipt session r = (s1, Inr ())" "ledger_of s1 (rs @ [r])" by blast
  from Cons.IH [OF s1(2)] s1(1) show ?case by simp
qed auto

lemma ledger_reset: "ledger_of (reset_receipt_history session) []"
  by (simp add: ledger_of_def reset_receipt_history_def dget_def)

lemma ledger_items: "ints_of (map (PInt \<circ> item) rs) = map item rs"
  by (metis ints_of_PInt list.map_comp)

lemma occurrences_pos: "x \<in> set xs \<Longrightarrow> 0 < occurrences xs x"
  by (metis count_list_0_iff gr0I)

lemma ledger_validates:
  assumes "ledger_of session rs" and "length rs \<le> length received" and "rs \<noteq> []"
  shows "fst (snd (validate_session_receipt_prefix session received (PInt (int (length rs)))))
    \<longleftrightarrow> map item (take (length rs) received) = map item rs"
  using assms
  by (auto simp: validate_session_receipt_prefix_def validate_receipt_history_prefix_def ledger_of_def
      ledger_items Let_def split: if_splits)

text \<open>Property C22. A ledger that starts from the reset and records receipts one by one never
  fails, counts every identity as often as it was recorded, and is accepted against a later
  history at least as long exactly when that history begins with the recorded items in the
  recorded order: a different room or a reordered history is refused.\<close>

theorem recorded_prefix_validates:
  assumes "processed \<noteq> []" and "length processed \<le> length received"
  shows "\<exists>s'. record_all (reset_receipt_history session) processed = (s', Inr ()) \<and>
    (\<forall>k. known_of_counts (snd (processed_receipt_counts s')) k
        = (if k = [] then 0 else int (count_list (identities processed) k))) \<and>
    (fst (snd (validate_session_receipt_prefix s' received (PInt (int (length processed)))))
       \<longleftrightarrow> map item (take (length processed) received) = map item processed)"
proof -
  from ledger_record_all [OF ledger_reset, of session processed] obtain s' where
    s': "record_all (reset_receipt_history session) processed = (s', Inr ())"
    and l: "ledger_of s' processed" by auto
  from l obtain h counts where h: "receipt_history s' = PDict h" "dget h ''receipt_counts'' = PDict counts"
    and d: "distinct (map fst counts)" and c: "\<forall>k. map_of counts k = (if k \<in> set (identities processed)
        then Some (PInt (int (count_list (identities processed) k))) else None)"
    by (auto simp: ledger_of_def)
  have key: "map_of h ''receipt_counts'' = Some (PDict counts)"
    using h(2) by (auto simp: dget_def split: option.splits)
  have counts: "snd (processed_receipt_counts s') = safe_receipt_counts (PDict counts)"
    using h key by (simp add: processed_receipt_counts_def Let_def)
  have "map_of (safe_receipt_counts (PDict counts)) k =
      (if k = [] then None else map_of counts k)" for k
    using d c by (auto simp: map_of_filter_distinct occurrences_pos)
  then have "known_of_counts (snd (processed_receipt_counts s')) k
        = (if k = [] then 0 else int (count_list (identities processed) k))" for k
    using c counts by (auto simp: known_of_counts_def count_list_0_iff)
  with s' ledger_validates [OF l assms(2,1)] show ?thesis by blast
qed

theorem recorded_prefix_validates_witness:
  "\<exists>s'. record_all (reset_receipt_history [])
       [\<lparr>item = 7, location = PInt 1, player = PInt 2, flags = PInt 0, packet_id = PNone\<rparr>] = (s', Inr ()) \<and>
     \<not> fst (snd (validate_session_receipt_prefix s'
       [\<lparr>item = 8, location = PInt 1, player = PInt 2, flags = PInt 0, packet_id = PNone\<rparr>] (PInt 1)))"
  using recorded_prefix_validates
    [of "[\<lparr>item = 7, location = PInt 1, player = PInt 2, flags = PInt 0, packet_id = PNone\<rparr>]"
        "[\<lparr>item = 8, location = PInt 1, player = PInt 2, flags = PInt 0, packet_id = PNone\<rparr>]" "[]"]
  by auto

end
