(* ===== verification/Ownership.thy ===== *)
theory Ownership
  imports Receipt_Ledger
begin

text \<open>
  The projection from processed receipts and checked locations to the ownership that
  reconciliation restores: \<open>effective_ownership\<close> of \<open>doom_eap/runtime/item_reconciliation.py\<close>
  with the records of \<open>doom_eap/contracts/ownership.py\<close> and the authored requirements of
  \<open>doom_eap/contracts/tag_prerequisites.py\<close>.

  Checked locations are sets given as lists of integers or decimal texts.
\<close>

record derived_fact =
  df_item :: int
  df_provenance :: string

record completion_upgrade =
  cu_location :: int
  cu_perk :: string
  cu_mission :: string

record tag_prerequisites =
  tp_engine :: "string list"
  tp_blood_punch :: "string list"
  tp_provenance :: string

definition TAG_REQUIRED_ENGINE_PERKS :: "string list" where
  "TAG_REQUIRED_ENGINE_PERKS = [''perk/player/weapons/shotgun/pop_rocket_weakpoint_hit'']"

definition TAG_REQUIRED_BLOOD_PUNCH_PERKS :: "string list" where
  "TAG_REQUIRED_BLOOD_PUNCH_PERKS = [''perk/player/blood_punch/area_of_effect'',
     ''perk/player/blood_punch/ai_charge_rate'', ''perk/player/blood_punch/max_charges'']"

definition AUTHORED_TAG_PREREQUISITES :: tag_prerequisites where
  "AUTHORED_TAG_PREREQUISITES = \<lparr>tp_engine = TAG_REQUIRED_ENGINE_PERKS,
     tp_blood_punch = TAG_REQUIRED_BLOOD_PUNCH_PERKS, tp_provenance = ''authored_tag_devinv''\<rparr>"

record effective_ownership =
  eo_ap_items :: "int list"
  eo_reconciliation :: "int list"
  eo_derived :: "derived_fact list"
  eo_vanilla_dash :: bool
  eo_blood_punch :: "completion_upgrade list"
  eo_fingerprint :: string
  eo_prerequisites :: tag_prerequisites

definition CHAINSAW :: int where "CHAINSAW = 7770010"
definition BLOOD_PUNCH :: int where "BLOOD_PUNCH = 7770014"
definition DASH :: int where "DASH = 7770015"

text \<open>\<open>loc in locations or (isinstance(loc, str) and loc.isdigit() and int(loc) in locations)\<close>.\<close>

fun location_among :: "int list \<Rightarrow> pyval \<Rightarrow> bool" where
  "location_among locations (PInt i) = (i \<in> set locations)"
| "location_among locations (PStr s) =
     (s \<noteq> [] \<and> list_all is_digit s \<and> int (nat_of_digits s) \<in> set locations)"
| "location_among locations _ = False"

definition blood_punch_completions :: "(int \<times> string \<times> string) list" where
  "blood_punch_completions =
     [(7770162, ''perk/player/blood_punch/area_of_effect'', ''Doom Hunter Base''),
      (7770290, ''perk/player/blood_punch/ai_charge_rate'', ''Sentinel Prime''),
      (7770411, ''perk/player/blood_punch/max_charges'', ''Urdak'')]"

definition completion_upgrades :: "int list \<Rightarrow> pyval list \<Rightarrow> completion_upgrade list" where
  "completion_upgrades item_ids checked =
     map (\<lambda>(l, p, m). \<lparr>cu_location = l, cu_perk = p, cu_mission = m\<rparr>)
       (filter (\<lambda>(l, _). BLOOD_PUNCH \<in> set item_ids \<and> PInt l \<in> set checked) blood_punch_completions)"

definition project_ownership :: "network_item list \<Rightarrow> bool \<Rightarrow> bool \<Rightarrow> pyval list \<Rightarrow> pyval list \<Rightarrow> bool
    \<Rightarrow> int list \<Rightarrow> int \<Rightarrow> pyval \<Rightarrow> effective_ownership" where
  "project_ownership receipts randomize_chainsaw randomize_dash checked local_checked ready
       hell_on_earth exultia slot =
     (let ids = map item receipts;
          has_hoe_check = list_ex (location_among hell_on_earth) (checked @ local_checked);
          chainsaw = (\<not> randomize_chainsaw \<and> has_hoe_check \<and> CHAINSAW \<notin> set ids);
          dash = (\<not> randomize_dash \<and> ready \<and> PInt exultia \<in> set checked);
          facts = (if chainsaw then [\<lparr>df_item = CHAINSAW, df_provenance = ''unrandomized_chainsaw_server_or_local_hoe_check''\<rparr>] else [])
            @ (if dash then [\<lparr>df_item = DASH, df_provenance = ''unrandomized_dash_server_mission_complete''\<rparr>] else []);
          records = receipt_records receipts
            @ (if chainsaw then [PDict [(''index'', PInt (int (length receipts))), (''item_id'', PInt CHAINSAW),
                 (''receipt_id'', PStr (''network:'' @ json_dumps (PList [PInt 0, slot, PInt CHAINSAW, PNone])))]] else [])
            @ (if dash then [PDict [(''derived_item_id'', PInt DASH),
                 (''provenance'', PStr ''unrandomized_dash_server_mission_complete'')]] else [])
      in \<lparr>eo_ap_items = ids,
          eo_reconciliation = ids @ (if chainsaw then [CHAINSAW] else [])
            @ (if dash \<and> DASH \<notin> set ids then [DASH] else []),
          eo_derived = facts, eo_vanilla_dash = dash,
          eo_blood_punch = completion_upgrades ids checked,
          eo_fingerprint = sha256_hex (json_dumps (PList records)),
          eo_prerequisites = AUTHORED_TAG_PREREQUISITES\<rparr>)"

section \<open>Property\<close>

lemma project_ownership_ids:
  "eo_ap_items (project_ownership rs rc rd ch lc rdy hoe ex slot) = map item rs"
  "\<exists>extra. eo_reconciliation (project_ownership rs rc rd ch lc rdy hoe ex slot) = map item rs @ extra \<and>
     distinct extra \<and> set extra \<subseteq> {CHAINSAW, DASH} - set (map item rs)"
  by (auto simp: project_ownership_def Let_def CHAINSAW_def DASH_def)

text \<open>The projection never loses or reorders a receipt and never manufactures one: the
  owned items are the received ones in order, followed by at most the chainsaw and the dash,
  each only when it is not randomized, was not received and its location evidence holds, and
  every item added has its derived fact.\<close>

theorem ownership_adds_only_derived:
  assumes "own = project_ownership receipts rnd_chainsaw rnd_dash checked local_checked ready hoe exultia slot"
  shows "eo_ap_items own = map item receipts \<and>
    (\<exists>extra. eo_reconciliation own = map item receipts @ extra \<and> distinct extra \<and>
       set extra \<inter> set (map item receipts) = {} \<and> set extra \<subseteq> df_item ` set (eo_derived own) \<and>
       (CHAINSAW \<in> set extra \<longrightarrow> \<not> rnd_chainsaw \<and> (\<exists>l \<in> set (checked @ local_checked). location_among hoe l)) \<and>
       (DASH \<in> set extra \<longrightarrow> \<not> rnd_dash \<and> ready \<and> PInt exultia \<in> set checked)) \<and>
    (\<forall>u \<in> set (eo_blood_punch own). BLOOD_PUNCH \<in> set (map item receipts) \<and> PInt (cu_location u) \<in> set checked)"
  unfolding assms
  by (auto simp: project_ownership_def Let_def CHAINSAW_def DASH_def completion_upgrades_def list_ex_iff)

theorem ownership_adds_only_derived_witness:
  "eo_reconciliation (project_ownership [] False False [PInt 5] [PStr ''7''] True [7] 5 (PInt 1)) = [7770010, 7770015] \<and>
   set (eo_reconciliation (project_ownership [] False False [PInt 5] [PStr ''7''] True [7] 5 (PInt 1))) \<subseteq>
     df_item ` set (eo_derived (project_ownership [] False False [PInt 5] [PStr ''7''] True [7] 5 (PInt 1)))"
proof -
  have digits: "is_digit (CHR ''7'')" "nat_of_digits ''7'' = 7" by code_simp+
  have "eo_reconciliation (project_ownership [] False False [PInt 5] [PStr ''7''] True [7] 5 (PInt 1)) = [7770010, 7770015]"
    by (simp add: project_ownership_def Let_def CHAINSAW_def DASH_def digits)
  with ownership_adds_only_derived [OF refl, of "[]" False False "[PInt 5]" "[PStr ''7'']" True "[7]" 5 "PInt 1"]
  show ?thesis by auto
qed

end
