(* ===== verification/Runtime_Context.thy ===== *)
theory Runtime_Context
  imports Command_Identity Delivery_Plan
begin

text \<open>
  Runtime contexts and the lifecycle of the accepted map marker, from
  \<open>doom_eap/contracts/runtime_context.py\<close> and \<open>doom_eap/runtime/lifecycle.py\<close>: which campaign
  context is bound, which map marker is accepted, suspended or staged, and under which lease
  the client may materialize items.

  A marker is the Python dictionary that the code passes around, so its entries and their
  order are kept. The context registry and the map catalog are arguments.
\<close>

section \<open>Contexts and map names\<close>

record runtime_context =
  cx_identity :: string
  cx_campaign :: string
  cx_runtime_maps :: "string list"
  cx_map_keys :: "string list"
  cx_capabilities :: "string list"

definition supports :: "runtime_context \<Rightarrow> string \<Rightarrow> bool" where
  "supports cx capability \<longleftrightarrow> capability \<in> set (cx_capabilities cx)"

definition forward_slashes :: "string \<Rightarrow> string" where
  "forward_slashes = map (\<lambda>c. if c = CHR 0x5C then CHR ''/'' else c)"

definition canonical_map_name :: "pyval \<Rightarrow> pyval" where
  "canonical_map_name name =
     (if \<not> truthy name then name
      else let normalized = rstrip_by (\<lambda>c. c = CHR ''/'') (forward_slashes (strip (py_str name)))
           in PStr (if normalized \<in> {''game/hub/hub'', ''game/sp/hub/hub''} then ''game/hub/hub'' else normalized))"

record context_resolution =
  cr_context :: "runtime_context option"
  cr_source :: string
  cr_rejection :: "(string \<times> string \<times> string) option"

record context_snapshot =
  sn_identity :: string
  sn_campaign :: string
  sn_capabilities :: "string list"
  sn_pending :: "(string \<times> string) option"

definition unknown_context :: context_snapshot where
  "unknown_context = \<lparr>sn_identity = ''unknown'', sn_campaign = ''Unknown'', sn_capabilities = [], sn_pending = None\<rparr>"

record map_epochs =
  me_published_lease :: "string option"
  me_native_epoch :: "int option"
  me_accepted_mtime :: "int option"
  me_accepted_evidence :: "int option"

record map_identity =
  mi_cached :: "pydict option"
  mi_pending :: "pydict option"
  mi_current :: pyval

record native_load_decision =
  nd_action :: string
  nd_epoch :: int
  nd_runtime_map :: pyval
  nd_map_key :: pyval

text \<open>Native gameplay evidence: the attributes that the lifecycle reads.\<close>

record native_evidence =
  ne_state :: string
  ne_epoch :: pyval
  ne_map :: pyval
  ne_provisional :: bool

section \<open>The lifecycle\<close>

record lifecycle =
  lf_snapshot :: context_snapshot
  lf_last_log :: "(string \<times> string \<times> string) option"
  lf_epochs :: map_epochs
  lf_map :: map_identity
  lf_generation :: nat
  lf_rejections :: "((string \<times> string \<times> string) \<times> nat) list"

definition new_lifecycle :: lifecycle where
  "new_lifecycle = \<lparr>lf_snapshot = unknown_context, lf_last_log = None,
     lf_epochs = \<lparr>me_published_lease = None, me_native_epoch = None, me_accepted_mtime = None, me_accepted_evidence = None\<rparr>,
     lf_map = \<lparr>mi_cached = None, mi_pending = None, mi_current = PNone\<rparr>,
     lf_generation = 0, lf_rejections = []\<rparr>"

definition cached_marker :: "lifecycle \<Rightarrow> pydict option" where
  "cached_marker s = mi_cached (lf_map s)"

definition invalidate_work :: "lifecycle \<Rightarrow> lifecycle" where
  "invalidate_work s = s\<lparr>lf_generation := lf_generation s + 1\<rparr>"

definition capture_work :: "lifecycle \<Rightarrow> nat \<times> pyval \<times> pyval" where
  "capture_work s =
     (let m = (case cached_marker s of None \<Rightarrow> [] | Some m \<Rightarrow> m)
      in (lf_generation s, dget m ''gameplay_epoch'', dget m ''runtime_map''))"

definition work_is_current :: "lifecycle \<Rightarrow> nat \<times> pyval \<times> pyval \<Rightarrow> bool" where
  "work_is_current s token \<longleftrightarrow> token = capture_work s"

definition materialization_lease :: "lifecycle \<Rightarrow> string option \<Rightarrow> string option \<Rightarrow> string option" where
  "materialization_lease s marker_campaign context_campaign =
     (case cached_marker s of
        None \<Rightarrow> None
      | Some m \<Rightarrow>
         (if truthy (dget m ''materialization_suspended'') then None
          else case dget m ''gameplay_epoch'' of
            PStr lease \<Rightarrow>
             (if \<not> valid_materialization_epoch (PStr lease) \<or> me_published_lease (lf_epochs s) \<noteq> Some lease then None
              else if context_campaign \<noteq> None \<and> marker_campaign \<noteq> context_campaign then None
              else Some lease)
          | _ \<Rightarrow> None))"

text \<open>At most 32 distinct rejections are counted; the rest share the overflow entry. A count is
  reported when it is a power of two up to 32.\<close>

definition overflow_key :: "string \<times> string \<times> string" where
  "overflow_key = (''overflow'', ''<bounded>'', ''<bounded>'')"

definition record_evidence_rejection :: "lifecycle \<Rightarrow> string \<Rightarrow> string \<Rightarrow> string
    \<Rightarrow> lifecycle \<times> ((string \<times> string \<times> string) \<times> nat) option" where
  "record_evidence_rejection s reason marker_identity evidence_identity =
     (let key0 = (reason, marker_identity, evidence_identity);
          table = lf_rejections s;
          key = (if map_of table key0 = None \<and> length table \<ge> 32 then overflow_key else key0);
          n = (case map_of table key of None \<Rightarrow> 0 | Some k \<Rightarrow> k) + 1
      in (s\<lparr>lf_rejections := AList.update key n table\<rparr>,
          if n \<in> {1, 2, 4, 8, 16, 32} then Some (key, n) else None))"

definition accept_marker :: "lifecycle \<Rightarrow> pydict \<Rightarrow> pyval \<Rightarrow> lifecycle res" where
  "accept_marker s marker evidence_epoch =
     (if \<not> has_key marker ''runtime_map'' then Inl (KeyError ''runtime_map'')
      else Inr (s\<lparr>lf_map := \<lparr>mi_cached = Some (dset ''materialization_suspended'' (PBool False)
             (dset ''evidence_epoch'' evidence_epoch marker)),
           mi_pending = None, mi_current = dget marker ''runtime_map''\<rparr>\<rparr>))"

definition bind_materialization_evidence :: "lifecycle \<Rightarrow> pyval \<Rightarrow> lifecycle res" where
  "bind_materialization_evidence s evidence_epoch =
     (case cached_marker s of
        None \<Rightarrow> Inl (TypeError ''object is not a mapping'')
      | Some m \<Rightarrow> Inr (s\<lparr>lf_map := (lf_map s)\<lparr>mi_cached := Some (dset ''evidence_epoch'' evidence_epoch
             (dset ''materialization_evidence_epoch'' evidence_epoch m))\<rparr>\<rparr>))"

definition suspend_marker :: "lifecycle \<Rightarrow> pyval \<Rightarrow> pyval \<Rightarrow> lifecycle res" where
  "suspend_marker s evidence_epoch reason =
     (case cached_marker s of
        None \<Rightarrow> Inl (TypeError ''object is not a mapping'')
      | Some m \<Rightarrow> Inr (s\<lparr>lf_map := (lf_map s)\<lparr>mi_current := PNone,
           mi_cached := Some (dset ''suspension_reason'' reason (dset ''suspended_evidence_epoch'' evidence_epoch
             (dset ''materialization_suspended'' (PBool True) m)))\<rparr>\<rparr>))"

definition stage_marker :: "lifecycle \<Rightarrow> pydict \<Rightarrow> lifecycle" where
  "stage_marker s marker = s\<lparr>lf_map := \<lparr>mi_cached = None,
     mi_pending = Some (dset ''evidence_epoch'' PNone marker), mi_current = PNone\<rparr>\<rparr>"

definition clear_map :: "lifecycle \<Rightarrow> lifecycle" where
  "clear_map s = s\<lparr>lf_map := (lf_map s)\<lparr>mi_cached := None, mi_current := PNone\<rparr>\<rparr>"

definition clear_pending_marker :: "lifecycle \<Rightarrow> lifecycle" where
  "clear_pending_marker s = s\<lparr>lf_map := (lf_map s)\<lparr>mi_pending := None\<rparr>\<rparr>"

definition project_current_map :: "lifecycle \<Rightarrow> pydict option \<Rightarrow> lifecycle res" where
  "project_current_map s marker =
     (case marker of
        None \<Rightarrow> Inr (s\<lparr>lf_map := (lf_map s)\<lparr>mi_current := PNone\<rparr>\<rparr>)
      | Some m \<Rightarrow> (if \<not> has_key m ''runtime_map'' then Inl (KeyError ''runtime_map'')
                  else Inr (s\<lparr>lf_map := (lf_map s)\<lparr>mi_current := dget m ''runtime_map''\<rparr>\<rparr>)))"

fun context_of :: "(string \<Rightarrow> runtime_context option) \<Rightarrow> pyval \<Rightarrow> runtime_context option" where
  "context_of contexts (PStr m) = contexts m"
| "context_of contexts _ = None"

definition resolve_context :: "pyval \<Rightarrow> pyval \<Rightarrow> bool \<Rightarrow> (string \<Rightarrow> runtime_context option) \<Rightarrow> context_resolution" where
  "resolve_context marker_map evidence_map suspended contexts =
     (let saved = context_of contexts evidence_map in
      case (if suspended then None else context_of contexts marker_map) of
        None \<Rightarrow> \<lparr>cr_context = saved, cr_source = ''save'', cr_rejection = None\<rparr>
      | Some cx \<Rightarrow>
         \<lparr>cr_context = Some cx, cr_source = ''map_marker'',
          cr_rejection = (case saved of
              Some ex \<Rightarrow> if cx_identity ex \<noteq> cx_identity cx
                then Some (''accepted_marker_authority'', cx_identity cx, cx_identity ex) else None
            | None \<Rightarrow> if truthy evidence_map
                then Some (''accepted_marker_over_unrecognized_save'', cx_identity cx, py_str evidence_map) else None)\<rparr>)"

text \<open>The bound epoch of an accepted marker is an integer or absent.\<close>

definition classify_native_load :: "lifecycle \<Rightarrow> native_evidence option \<Rightarrow> (string \<times> string) list
    \<Rightarrow> native_load_decision option" where
  "classify_native_load s native catalog =
     (case native of
        None \<Rightarrow> None
      | Some ev \<Rightarrow>
       (if ne_state ev \<noteq> ''gameplay'' \<or> \<not> is_int (ne_epoch ev) then None
        else
         let epoch = the_int (ne_epoch ev);
             runtime_map = canonical_map_name (ne_map ev);
             fresh = (\<lambda>action. case filter (\<lambda>(k, v). PStr v = runtime_map) catalog of
                [(key, _)] \<Rightarrow> if ne_provisional ev then None
                  else Some \<lparr>nd_action = action, nd_epoch = epoch, nd_runtime_map = runtime_map, nd_map_key = PStr key\<rparr>
              | _ \<Rightarrow> None)
         in case cached_marker s of
            None \<Rightarrow> fresh ''initialize''
          | Some m \<Rightarrow>
             (if runtime_map \<noteq> canonical_map_name (dget_or m ''runtime_map'' (PStr [])) then fresh ''transition''
              else
               let decide = (\<lambda>action. Some \<lparr>nd_action = action, nd_epoch = epoch, nd_runtime_map = runtime_map,
                                             nd_map_key = dget m ''map_key''\<rparr>)
               in case dget m ''materialization_evidence_epoch'' of
                    PNone \<Rightarrow> decide ''bind''
                  | bound \<Rightarrow> (if epoch \<le> the_int bound then None
                             else decide (if ne_provisional ev then ''suspend'' else ''reload'')))))"

definition marker_mtime :: "pydict option \<Rightarrow> int" where
  "marker_mtime m = (case m of None \<Rightarrow> 0 | Some d \<Rightarrow> the_int (dget_or d ''mtime_ns'' (PInt 0)))"

definition authored_timestamp_action :: "lifecycle \<Rightarrow> int \<Rightarrow> int option \<Rightarrow> string" where
  "authored_timestamp_action s newest process_started =
     (if (case process_started of None \<Rightarrow> False | Some p \<Rightarrow> newest < p) then ''ignore''
      else let known = max (case me_accepted_mtime (lf_epochs s) of None \<Rightarrow> 0 | Some t \<Rightarrow> t)
                 (max (marker_mtime (mi_pending (lf_map s))) (marker_mtime (cached_marker s)))
           in if newest \<le> known then ''native_fallback'' else ''parse'')"

section \<open>Authored markers\<close>

text \<open>\<open>re.finditer(r"AP_ACTIVE_MAP_V1\s+map_key=(\S+)\s+runtime_map=(\S+)\s+marker=(\S+)")\<close>: a
  \<open>\S+\<close> that is followed by \<open>\s+\<close> takes the whole run of other characters.\<close>

definition expect :: "string \<Rightarrow> string \<Rightarrow> string option" where
  "expect lit s = (if starts_with s lit then Some (drop (length lit) s) else None)"

definition some_spaces :: "string \<Rightarrow> string option" where
  "some_spaces s = (if s \<noteq> [] \<and> py_space (hd s) then Some (dropWhile py_space s) else None)"

definition some_word :: "string \<Rightarrow> (string \<times> string) option" where
  "some_word s = (let w = takeWhile (\<lambda>c. \<not> py_space c) s in
     if w = [] then None else Some (w, dropWhile (\<lambda>c. \<not> py_space c) s))"

definition field_value :: "string \<Rightarrow> string \<Rightarrow> (string \<times> string) option" where
  "field_value key s = Option.bind (some_spaces s) (\<lambda>t. Option.bind (expect key t) some_word)"

definition match_marker :: "string \<Rightarrow> ((string \<times> string \<times> string) \<times> string) option" where
  "match_marker s =
     Option.bind (expect ''AP_ACTIVE_MAP_V1'' s) (\<lambda>s1.
       Option.bind (field_value ''map_key='' s1) (\<lambda>(k, s2).
         Option.bind (field_value ''runtime_map='' s2) (\<lambda>(r, s3).
           Option.bind (field_value ''marker='' s3) (\<lambda>(m, s4). Some ((k, r, m), s4)))))"

lemma expect_Some: "expect lit s = Some t \<longleftrightarrow> starts_with s lit \<and> t = drop (length lit) s"
  by (auto simp: expect_def)

lemma expect_shorter: "expect lit s = Some t \<Longrightarrow> length t \<le> length s"
  by (auto simp: expect_def split: if_splits)

lemma field_value_shorter: "field_value key s = Some (v, t) \<Longrightarrow> length t < length s"
proof -
  assume "field_value key s = Some (v, t)"
  then obtain s1 s2 where s: "s \<noteq> []" "s1 = dropWhile py_space s" "py_space (hd s)"
    and e: "expect key s1 = Some s2" and t: "t = dropWhile (\<lambda>c. \<not> py_space c) s2"
    by (auto simp: field_value_def some_spaces_def some_word_def Let_def split: if_splits bind_splits)
  have "length s1 < length s" using s by (cases s) (auto simp: le_imp_less_Suc length_dropWhile_le)
  moreover have "length s2 \<le> length s1" using e by (rule expect_shorter)
  moreover have "length t \<le> length s2" unfolding t by (rule length_dropWhile_le)
  ultimately show ?thesis by simp
qed

lemma match_marker_parts:
  assumes "match_marker s = Some (g, t)"
  obtains s1 k s2 r s3 m where "expect ''AP_ACTIVE_MAP_V1'' s = Some s1"
    "field_value ''map_key='' s1 = Some (k, s2)" "field_value ''runtime_map='' s2 = Some (r, s3)"
    "field_value ''marker='' s3 = Some (m, t)"
  using assms by (auto simp: match_marker_def split: bind_splits)

lemma match_marker_shorter:
  assumes "match_marker s = Some (g, t)" shows "length t < length s"
  using assms by (rule match_marker_parts) (fastforce dest: expect_shorter field_value_shorter)

function find_markers :: "string \<Rightarrow> (string \<times> string \<times> string) list" where
  "find_markers [] = []"
| "find_markers (c # s) =
     (case match_marker (c # s) of None \<Rightarrow> find_markers s | Some (g, t) \<Rightarrow> g # find_markers t)"
  by pat_completeness auto
termination by (relation "measure length") (auto dest: match_marker_shorter)

definition map_start :: "string \<Rightarrow> string" where
  "map_start map_key = ''AP_MAP_START_'' @ ascii_upper map_key"

definition strip_semicolons :: "string \<Rightarrow> string" where
  "strip_semicolons = rstrip_by (\<lambda>c. c = CHR '';'')"

definition parse_authored_marker :: "string \<Rightarrow> pyval \<Rightarrow> int \<Rightarrow> (string \<times> string) list
    \<Rightarrow> (string \<Rightarrow> runtime_context option) \<Rightarrow> pydict option" where
  "parse_authored_marker content path mtime catalog contexts =
     (case rev (find_markers content) of
        [] \<Rightarrow> None
      | (k, r, m) # _ \<Rightarrow>
         (let map_key = strip_semicolons k;
              runtime_map = canonical_map_name (PStr (strip_semicolons r));
              marker = strip_semicolons m
          in if \<not> truthy runtime_map then None
             else case context_of contexts runtime_map of
               None \<Rightarrow> None
             | Some cx \<Rightarrow>
                (if map_key \<notin> set (cx_map_keys cx)
                    \<or> map fst (filter (\<lambda>(_, v). PStr v = runtime_map) catalog) \<noteq> [map_key] then None
                 else if marker \<noteq> map_start map_key then None
                 else Some [(''map_key'', PStr map_key), (''runtime_map'', runtime_map), (''marker'', PStr marker),
                            (''mtime_ns'', PInt mtime), (''path'', path)])))"

definition optional_epoch :: "string option \<Rightarrow> pyval" where
  "optional_epoch e = (case e of None \<Rightarrow> PNone | Some t \<Rightarrow> PStr t)"

definition authored_marker_proposal :: "pydict \<Rightarrow> pyval \<Rightarrow> pyval \<Rightarrow> pyval \<Rightarrow> string \<Rightarrow> pydict" where
  "authored_marker_proposal marker newest_mtime evidence_mtime evidence_epoch evidence_state =
     dmerge marker
       [(''native_gameplay_epoch'', newest_mtime),
        (''gameplay_epoch'', optional_epoch (build_materialization_epoch newest_mtime newest_mtime)),
        (''evidence_mtime_ns'', evidence_mtime), (''evidence_epoch'', evidence_epoch),
        (''materialization_evidence_epoch'',
          if evidence_state = ''gameplay'' \<and> is_int evidence_epoch then evidence_epoch else PNone)]"

definition new_map_proposal :: "pyval \<Rightarrow> pyval \<Rightarrow> int \<Rightarrow> pyval \<Rightarrow> string \<Rightarrow> pydict" where
  "new_map_proposal map_key runtime_map evidence_epoch evidence_mtime epoch =
     [(''map_key'', map_key), (''runtime_map'', runtime_map),
      (''marker'', PStr (map_start (py_str map_key))), (''mtime_ns'', evidence_mtime), (''path'', PNone),
      (''native_gameplay_epoch'', PInt evidence_epoch), (''gameplay_epoch'', PStr epoch),
      (''evidence_mtime_ns'', evidence_mtime), (''evidence_epoch'', PInt evidence_epoch),
      (''materialization_evidence_epoch'', PInt evidence_epoch), (''secondary_materialization'', PBool False)]"

definition native_marker_proposal :: "lifecycle \<Rightarrow> native_load_decision \<Rightarrow> pyval \<Rightarrow> pydict option" where
  "native_marker_proposal s decision evidence_mtime =
     (case build_materialization_epoch (PInt (nd_epoch decision)) evidence_mtime of
        None \<Rightarrow> None
      | Some epoch \<Rightarrow>
         (if nd_action decision = ''reload''
          then (case cached_marker s of
             None \<Rightarrow> None
           | Some m \<Rightarrow>
              (if dget m ''gameplay_epoch'' = PStr epoch then None
               else Some (dmerge (dset ''secondary_materialization'' (PBool True) m)
                 [(''native_gameplay_epoch'', PInt (nd_epoch decision)), (''gameplay_epoch'', PStr epoch),
                  (''evidence_mtime_ns'', evidence_mtime), (''evidence_epoch'', PInt (nd_epoch decision)),
                  (''materialization_evidence_epoch'', PInt (nd_epoch decision))])))
          else Some (new_map_proposal (nd_map_key decision) (nd_runtime_map decision) (nd_epoch decision)
                 evidence_mtime epoch)))"

section \<open>Epochs and contexts\<close>

definition record_native_epoch :: "lifecycle \<Rightarrow> int option \<Rightarrow> lifecycle" where
  "record_native_epoch s epoch = s\<lparr>lf_epochs := (lf_epochs s)\<lparr>me_native_epoch := epoch\<rparr>\<rparr>"

definition record_lease_publication :: "lifecycle \<Rightarrow> string option \<Rightarrow> bool \<Rightarrow> lifecycle" where
  "record_lease_publication s epoch published =
     s\<lparr>lf_epochs := (lf_epochs s)\<lparr>me_published_lease := (if published then epoch else None)\<rparr>\<rparr>"

definition observe_marker_timestamp :: "lifecycle \<Rightarrow> int \<Rightarrow> int option \<Rightarrow> lifecycle \<times> bool" where
  "observe_marker_timestamp s timestamp evidence_epoch =
     (if me_accepted_mtime (lf_epochs s) = Some timestamp then (s, False)
      else (s\<lparr>lf_epochs := (lf_epochs s)\<lparr>me_accepted_mtime := Some timestamp,
                                         me_accepted_evidence := evidence_epoch\<rparr>\<rparr>, True))"

definition bind_context :: "lifecycle \<Rightarrow> runtime_context \<Rightarrow> lifecycle \<times> (string \<times> string) option" where
  "bind_context s cx =
     (let previous = sn_campaign (lf_snapshot s) in
      (s\<lparr>lf_snapshot := (lf_snapshot s)\<lparr>sn_identity := cx_identity cx, sn_campaign := cx_campaign cx,
                                        sn_capabilities := cx_capabilities cx\<rparr>\<rparr>,
       if previous = ''Unknown'' then Some (''Unknown'', cx_campaign cx)
       else if previous \<notin> {''Unknown'', cx_campaign cx} then Some (previous, cx_campaign cx)
       else None))"

definition record_transition :: "lifecycle \<Rightarrow> string \<times> string \<Rightarrow> string \<Rightarrow> lifecycle \<times> bool" where
  "record_transition s transition identity_text =
     (let s1 = s\<lparr>lf_snapshot := (lf_snapshot s)\<lparr>sn_pending := Some transition\<rparr>\<rparr>;
          signature = (fst transition, snd transition, identity_text)
      in if lf_last_log s = Some signature then (s1, False)
         else (s1\<lparr>lf_last_log := Some signature\<rparr>, True))"

definition complete_transition :: "lifecycle \<Rightarrow> lifecycle" where
  "complete_transition s = s\<lparr>lf_snapshot := (lf_snapshot s)\<lparr>sn_pending := None\<rparr>\<rparr>"

definition clear_context :: "lifecycle \<Rightarrow> bool \<Rightarrow> lifecycle" where
  "clear_context s clear_log =
     (let s1 = s\<lparr>lf_snapshot := unknown_context\<rparr> in if clear_log then s1\<lparr>lf_last_log := None\<rparr> else s1)"

section \<open>The lifecycle as a step relation\<close>

datatype lifecycle_op =
    Accept pydict pyval
  | Bind_evidence pyval
  | Suspend pyval pyval
  | Stage pydict
  | Clear_map
  | Clear_pending
  | Project "pydict option"
  | Publish_lease "string option" bool
  | Native_epoch "int option"
  | Marker_timestamp int "int option"
  | Bind_context runtime_context
  | Transition "string \<times> string" string
  | Complete_transition
  | Clear_context bool
  | Invalidate
  | Reject string string string

inductive lifecycle_step :: "lifecycle \<Rightarrow> lifecycle_op \<Rightarrow> lifecycle \<Rightarrow> bool" where
  accept: "accept_marker s m e = Inr t \<Longrightarrow> lifecycle_step s (Accept m e) t"
| bind_evidence: "bind_materialization_evidence s e = Inr t \<Longrightarrow> lifecycle_step s (Bind_evidence e) t"
| suspend: "suspend_marker s e r = Inr t \<Longrightarrow> lifecycle_step s (Suspend e r) t"
| stage: "lifecycle_step s (Stage m) (stage_marker s m)"
| clear_map: "lifecycle_step s Clear_map (clear_map s)"
| clear_pending: "lifecycle_step s Clear_pending (clear_pending_marker s)"
| project: "project_current_map s m = Inr t \<Longrightarrow> lifecycle_step s (Project m) t"
| publish_lease: "lifecycle_step s (Publish_lease e b) (record_lease_publication s e b)"
| native_epoch: "lifecycle_step s (Native_epoch e) (record_native_epoch s e)"
| marker_timestamp: "lifecycle_step s (Marker_timestamp m e) (fst (observe_marker_timestamp s m e))"
| bind_context: "lifecycle_step s (Bind_context cx) (fst (bind_context s cx))"
| transition: "lifecycle_step s (Transition x i) (fst (record_transition s x i))"
| complete: "lifecycle_step s Complete_transition (complete_transition s)"
| clear_context: "lifecycle_step s (Clear_context b) (clear_context s b)"
| invalidate: "lifecycle_step s Invalidate (invalidate_work s)"
| reject: "lifecycle_step s (Reject r m e) (fst (record_evidence_rejection s r m e))"

inductive_cases lifecycle_stepE [elim!]: "lifecycle_step s op t"

inductive lifecycle_run :: "lifecycle \<Rightarrow> lifecycle_op list \<Rightarrow> lifecycle \<Rightarrow> bool" where
  run_nil: "lifecycle_run s [] s"
| run_snoc: "lifecycle_run s ops t \<Longrightarrow> lifecycle_step t op u \<Longrightarrow> lifecycle_run s (ops @ [op]) u"

section \<open>What a lease promises\<close>

text \<open>The abstract state: the published lease, and the epoch of the marker that is accepted and
  not suspended.\<close>

type_synonym lease_state = "string option \<times> string option"

definition marker_epoch :: "pydict \<Rightarrow> string option" where
  "marker_epoch m = (case dget m ''gameplay_epoch'' of PStr e \<Rightarrow> Some e | _ \<Rightarrow> None)"

definition lease_state :: "lifecycle \<Rightarrow> lease_state" where
  "lease_state s = (me_published_lease (lf_epochs s),
     case cached_marker s of None \<Rightarrow> None
     | Some m \<Rightarrow> if truthy (dget m ''materialization_suspended'') then None else marker_epoch m)"

fun lease_step :: "lifecycle_op \<Rightarrow> lease_state \<Rightarrow> lease_state" where
  "lease_step (Accept m e) (p, a) = (p, marker_epoch m)"
| "lease_step (Suspend e r) (p, a) = (p, None)"
| "lease_step (Stage m) (p, a) = (p, None)"
| "lease_step Clear_map (p, a) = (p, None)"
| "lease_step (Publish_lease e b) (p, a) = (if b then e else None, a)"
| "lease_step op x = x"

definition grants :: "lease_state \<Rightarrow> string \<Rightarrow> bool" where
  "grants x l \<longleftrightarrow> fst x = Some l \<and> snd x = Some l \<and> valid_materialization_epoch (PStr l)"

lemma lifecycle_step_lease: "lifecycle_step s op t \<Longrightarrow> lease_state t = lease_step op (lease_state s)"
  by (erule lifecycle_stepE)
    (auto simp: lease_state_def cached_marker_def marker_epoch_def accept_marker_def
      bind_materialization_evidence_def suspend_marker_def stage_marker_def clear_map_def
      clear_pending_marker_def project_current_map_def record_lease_publication_def record_native_epoch_def
      observe_marker_timestamp_def bind_context_def record_transition_def complete_transition_def
      clear_context_def invalidate_work_def record_evidence_rejection_def Let_def
      split: option.splits if_splits)

lemma lifecycle_run_lease: "lifecycle_run s ops t \<Longrightarrow> lease_state t = fold lease_step ops (lease_state s)"
  by (induction rule: lifecycle_run.induct) (simp_all add: lifecycle_step_lease)

lemma materialization_lease_grants:
  "materialization_lease s mc cc = Some l \<longleftrightarrow> grants (lease_state s) l \<and> (cc = None \<or> mc = cc)"
  by (auto simp: materialization_lease_def lease_state_def grants_def marker_epoch_def
      split: option.splits pyval.splits if_splits)

text \<open>Property C31. The lifecycle implements its lease contract: along any run, a materialization
  lease is available exactly when the history published that lease last and the marker accepted
  last carries the same valid epoch and has not been suspended, staged over or cleared since;
  binding evidence, contexts and timestamps never grant or revoke one.\<close>

theorem lease_refines_history:
  assumes "lifecycle_run s ops t"
  shows "materialization_lease t mc cc = Some l \<longleftrightarrow>
    grants (fold lease_step ops (lease_state s)) l \<and> (cc = None \<or> mc = cc)"
  unfolding materialization_lease_grants lifecycle_run_lease [OF assms] ..

definition sample_marker :: pydict where
  "sample_marker = [(''runtime_map'', PStr ''game/sp/x''), (''map_key'', PStr ''x''), (''gameplay_epoch'', PStr ''1:2'')]"

theorem lease_refines_history_witness:
  "\<exists>t. lifecycle_run new_lifecycle [Accept sample_marker (PInt 1), Publish_lease (Some ''1:2'') True] t \<and>
     materialization_lease t None None = Some ''1:2''"
proof -
  obtain t1 where a: "accept_marker new_lifecycle sample_marker (PInt 1) = Inr t1"
    by (simp add: accept_marker_def sample_marker_def has_key_def)
  let ?t = "record_lease_publication t1 (Some ''1:2'') True"
  have "lifecycle_run new_lifecycle ([] @ [Accept sample_marker (PInt 1)]) t1"
    by (rule run_snoc [OF run_nil accept [OF a]])
  then have run: "lifecycle_run new_lifecycle ([Accept sample_marker (PInt 1)] @ [Publish_lease (Some ''1:2'') True]) ?t"
    by (intro run_snoc [OF _ publish_lease]) simp
  have "valid_materialization_epoch (PStr ''1:2'')" by code_simp
  then have "grants (fold lease_step ([Accept sample_marker (PInt 1)] @ [Publish_lease (Some ''1:2'') True])
      (lease_state new_lifecycle)) ''1:2''"
    by (simp add: grants_def marker_epoch_def sample_marker_def dget_def lease_state_def)
  with lease_refines_history [OF run, of None None "''1:2''"] run show ?thesis by auto
qed

section \<open>Native loads are taken once\<close>

definition canonical_catalog :: "(string \<times> string) list \<Rightarrow> bool" where
  "canonical_catalog catalog \<longleftrightarrow> (\<forall>(k, v) \<in> set catalog. canonical_map_name (PStr v) = PStr v)"

text \<open>The effect of a decision once its timestamp has been proved: the proposal is accepted, or
  the evidence is bound, or the marker is suspended.\<close>

definition apply_decision :: "lifecycle \<Rightarrow> native_load_decision \<Rightarrow> pyval \<Rightarrow> lifecycle option" where
  "apply_decision s d evidence_mtime =
     (if nd_action d = ''bind'' then (case bind_materialization_evidence s (PInt (nd_epoch d)) of
         Inl e \<Rightarrow> None | Inr t \<Rightarrow> Some t)
      else case native_marker_proposal s d evidence_mtime of
         None \<Rightarrow> None
       | Some m \<Rightarrow> (case accept_marker s m (PInt (nd_epoch d)) of Inl e \<Rightarrow> None | Inr t \<Rightarrow> Some t))"

lemma fresh_decision:
  assumes "(case filter (\<lambda>(k, v). PStr v = runtime_map) catalog of
      [(key, _)] \<Rightarrow> if p then None else Some \<lparr>nd_action = action, nd_epoch = epoch, nd_runtime_map = runtime_map, nd_map_key = PStr key\<rparr>
    | _ \<Rightarrow> None) = Some d"
  shows "nd_runtime_map d = runtime_map \<and> nd_epoch d = epoch \<and> nd_action d = action \<and> (\<exists>k v. (k, v) \<in> set catalog \<and> runtime_map = PStr v)"
proof -
  from assms obtain k v where f: "filter (\<lambda>(k, v). PStr v = runtime_map) catalog = [(k, v)]"
    and d: "d = \<lparr>nd_action = action, nd_epoch = epoch, nd_runtime_map = runtime_map, nd_map_key = PStr k\<rparr>"
    by (auto split: list.splits if_splits)
  from f have "(k, v) \<in> set (filter (\<lambda>(k, v). PStr v = runtime_map) catalog)" by simp
  then show ?thesis using d by auto
qed

lemma classify_bound:
  assumes "cached_marker t = Some m"
    and "canonical_map_name (ne_map ev) = canonical_map_name (dget_or m ''runtime_map'' (PStr []))"
    and "dget m ''materialization_evidence_epoch'' = PInt (the_int (ne_epoch ev))"
  shows "classify_native_load t (Some ev) catalog = None"
  using assms by (simp add: classify_native_load_def Let_def)

lemma accept_cached:
  "accept_marker s m e = Inr t \<Longrightarrow> cached_marker t =
     Some (dset ''materialization_suspended'' (PBool False) (dset ''evidence_epoch'' e m))"
  by (auto simp: accept_marker_def cached_marker_def split: if_splits)

lemma bind_cached:
  assumes "bind_materialization_evidence s e = Inr t"
  obtains m where "cached_marker s = Some m"
    "cached_marker t = Some (dset ''evidence_epoch'' e (dset ''materialization_evidence_epoch'' e m))"
  using assms by (auto simp: bind_materialization_evidence_def cached_marker_def split: option.splits)

text \<open>What a decision says of the evidence and the cached marker.\<close>

lemma classify_cases:
  assumes "classify_native_load s (Some ev) catalog = Some d" and "canonical_catalog catalog"
  shows "nd_epoch d = the_int (ne_epoch ev) \<and> nd_runtime_map d = canonical_map_name (ne_map ev) \<and>
    (if nd_action d \<in> {''initialize'', ''transition''}
     then canonical_map_name (nd_runtime_map d) = nd_runtime_map d
     else \<exists>m. cached_marker s = Some m \<and>
       canonical_map_name (ne_map ev) = canonical_map_name (dget_or m ''runtime_map'' (PStr [])) \<and>
       (nd_action d = ''bind'' \<longleftrightarrow> dget m ''materialization_evidence_epoch'' = PNone) \<and>
       nd_action d \<in> {''bind'', ''suspend'', ''reload''} \<and>
       (nd_action d \<noteq> ''bind'' \<longrightarrow> the_int (dget m ''materialization_evidence_epoch'') < nd_epoch d))"
proof (cases "cached_marker s")
  case None
  with assms(1) have "nd_runtime_map d = canonical_map_name (ne_map ev) \<and> nd_epoch d = the_int (ne_epoch ev) \<and>
    nd_action d = ''initialize'' \<and> (\<exists>k v. (k, v) \<in> set catalog \<and> canonical_map_name (ne_map ev) = PStr v)"
    by (intro fresh_decision) (simp add: classify_native_load_def Let_def split: if_splits)
  with assms(2) show ?thesis by (auto simp: canonical_catalog_def)
next
  case (Some m)
  show ?thesis
  proof (cases "canonical_map_name (ne_map ev) = canonical_map_name (dget_or m ''runtime_map'' (PStr []))")
    case False
    with assms(1) Some have "nd_runtime_map d = canonical_map_name (ne_map ev) \<and> nd_epoch d = the_int (ne_epoch ev) \<and>
      nd_action d = ''transition'' \<and> (\<exists>k v. (k, v) \<in> set catalog \<and> canonical_map_name (ne_map ev) = PStr v)"
      by (intro fresh_decision) (simp add: classify_native_load_def Let_def split: if_splits)
    with assms(2) show ?thesis by (auto simp: canonical_catalog_def)
  next
    case True
    with assms(1) Some show ?thesis
      by (cases "dget m ''materialization_evidence_epoch''")
        (auto simp: classify_native_load_def Let_def split: if_splits)
  qed
qed

text \<open>A native load is acted on once: after the decision for some gameplay evidence has
  been applied - the map initialised, changed or reloaded by accepting its proposal, or the
  evidence bound - the same evidence asks for nothing more, so a load never materializes the
  inventory twice; and a reload is only ever decided for evidence newer than the bound one.\<close>

theorem native_load_taken_once:
  assumes "canonical_catalog catalog"
    and "classify_native_load s (Some ev) catalog = Some d" and "nd_action d \<noteq> ''suspend''"
    and "apply_decision s d evidence_mtime = Some t"
  shows "classify_native_load t (Some ev) catalog = None \<and>
    (nd_action d = ''reload'' \<longrightarrow> (\<exists>m. cached_marker s = Some m \<and>
       the_int (dget m ''materialization_evidence_epoch'') < nd_epoch d))"
proof -
  note c = classify_cases [OF assms(2,1)]
  show ?thesis
  proof (cases "nd_action d = ''bind''")
    case True
    with assms(4) obtain t' where b: "bind_materialization_evidence s (PInt (nd_epoch d)) = Inr t'" "t = t'"
      by (auto simp: apply_decision_def split: sum.splits)
    from bind_cached [OF b(1)] b(2) obtain m where m: "cached_marker s = Some m"
      "cached_marker t = Some (dset ''evidence_epoch'' (PInt (nd_epoch d))
         (dset ''materialization_evidence_epoch'' (PInt (nd_epoch d)) m))" by auto
    with c True have "canonical_map_name (ne_map ev) = canonical_map_name (dget_or m ''runtime_map'' (PStr []))"
      by simp
    with classify_bound [OF m(2)] c have "classify_native_load t (Some ev) catalog = None" by simp
    with True show ?thesis by simp
  next
    case False
    with assms(4) obtain m where p: "native_marker_proposal s d evidence_mtime = Some m"
      and a: "accept_marker s m (PInt (nd_epoch d)) = Inr t"
      by (auto simp: apply_decision_def split: option.splits sum.splits)
    have m: "canonical_map_name (ne_map ev) = canonical_map_name (dget_or m ''runtime_map'' (PStr [])) \<and>
        dget m ''materialization_evidence_epoch'' = PInt (nd_epoch d)"
    proof (cases "nd_action d = ''reload''")
      case True
      with p obtain m0 epoch where "cached_marker s = Some m0"
        "m = dmerge (dset ''secondary_materialization'' (PBool True) m0)
           [(''native_gameplay_epoch'', PInt (nd_epoch d)), (''gameplay_epoch'', PStr epoch),
            (''evidence_mtime_ns'', evidence_mtime), (''evidence_epoch'', PInt (nd_epoch d)),
            (''materialization_evidence_epoch'', PInt (nd_epoch d))]"
        by (auto simp: native_marker_proposal_def split: option.splits if_splits)
      with c True show ?thesis by simp
    next
      case new: False
      with p obtain epoch where
        "m = new_map_proposal (nd_map_key d) (nd_runtime_map d) (nd_epoch d) evidence_mtime epoch"
        by (auto simp: native_marker_proposal_def split: option.splits)
      moreover from c new False assms(3) have "canonical_map_name (nd_runtime_map d) = nd_runtime_map d"
        by (auto split: if_splits)
      ultimately show ?thesis using c by (simp add: new_map_proposal_def dget_def dget_or_def)
    qed
    with classify_bound [OF accept_cached [OF a]] c
    have "classify_native_load t (Some ev) catalog = None" by simp
    moreover from c False have "nd_action d = ''reload'' \<longrightarrow> (\<exists>m. cached_marker s = Some m \<and>
       the_int (dget m ''materialization_evidence_epoch'') < nd_epoch d)"
      by (auto split: if_splits)
    ultimately show ?thesis by blast
  qed
qed

theorem native_load_taken_once_witness:
  "\<exists>d t. classify_native_load new_lifecycle (Some \<lparr>ne_state = ''gameplay'', ne_epoch = PInt 7, ne_map = PStr ''game/x'', ne_provisional = False\<rparr>) [(''x'', ''game/x'')] = Some d \<and>
     apply_decision new_lifecycle d (PInt 9) = Some t \<and>
     classify_native_load t (Some \<lparr>ne_state = ''gameplay'', ne_epoch = PInt 7, ne_map = PStr ''game/x'', ne_provisional = False\<rparr>) [(''x'', ''game/x'')] = None"
proof -
  let ?ev = "\<lparr>ne_state = ''gameplay'', ne_epoch = PInt 7, ne_map = PStr ''game/x'', ne_provisional = False\<rparr>"
  let ?d = "\<lparr>nd_action = ''initialize'', nd_epoch = 7, nd_runtime_map = PStr ''game/x'', nd_map_key = PStr ''x''\<rparr>"
  have canon: "canonical_map_name (PStr ''game/x'') = PStr ''game/x''" by code_simp
  have c: "classify_native_load new_lifecycle (Some ?ev) [(''x'', ''game/x'')] = Some ?d"
    by (simp add: classify_native_load_def Let_def canon cached_marker_def new_lifecycle_def)
  have cat: "canonical_catalog [(''x'', ''game/x'')]" by (simp add: canonical_catalog_def canon)
  obtain t where t: "apply_decision new_lifecycle ?d (PInt 9) = Some t"
    by (simp add: apply_decision_def native_marker_proposal_def build_materialization_epoch_def accept_marker_def
        new_map_proposal_def has_key_def)
  from native_load_taken_once [OF cat c _ t] c t show ?thesis by (intro exI [of _ ?d] exI [of _ t]) simp
qed

section \<open>Rejections stay bounded\<close>

lemma length_update: "length (AList.update k v al) = (if k \<in> fst ` set al then length al else length al + 1)"
  by (induction al) (auto split: prod.splits)

definition rejections_bounded :: "((string \<times> string \<times> string) \<times> nat) list \<Rightarrow> bool" where
  "rejections_bounded table \<longleftrightarrow> length table \<le> (if overflow_key \<in> fst ` set table then 33 else 32)"

lemma record_rejection_bounded:
  assumes "rejections_bounded (lf_rejections s)"
  shows "rejections_bounded (lf_rejections (fst (record_evidence_rejection s r m e)))"
  using assms
  by (auto simp: rejections_bounded_def record_evidence_rejection_def Let_def length_update dom_update
      map_of_eq_None_iff split: if_splits)

lemma lifecycle_step_rejections:
  "lifecycle_step s op t \<Longrightarrow> lf_rejections t = lf_rejections s \<or>
     (\<exists>r m e. t = fst (record_evidence_rejection s r m e))"
  by (erule lifecycle_stepE)
    (auto simp: accept_marker_def bind_materialization_evidence_def suspend_marker_def stage_marker_def clear_map_def
      clear_pending_marker_def project_current_map_def record_lease_publication_def record_native_epoch_def
      observe_marker_timestamp_def bind_context_def record_transition_def complete_transition_def
      clear_context_def invalidate_work_def Let_def split: option.splits if_splits)

lemma lifecycle_run_rejections:
  "lifecycle_run s ops t \<Longrightarrow> rejections_bounded (lf_rejections s) \<Longrightarrow> rejections_bounded (lf_rejections t)"
proof (induction rule: lifecycle_run.induct)
  case (run_snoc s ops t op u)
  then show ?case using lifecycle_step_rejections [OF run_snoc.hyps(2)] record_rejection_bounded by auto
qed

text \<open>Whatever a save directory produces, the table of rejected evidence never holds more
  than 33 entries: 32 distinct rejections and one shared overflow entry.\<close>

theorem rejection_table_bounded:
  assumes "lifecycle_run new_lifecycle ops t"
  shows "length (lf_rejections t) \<le> 33"
proof -
  have "rejections_bounded (lf_rejections new_lifecycle)"
    by (simp add: rejections_bounded_def new_lifecycle_def)
  from lifecycle_run_rejections [OF assms this] show ?thesis by (simp add: rejections_bounded_def split: if_splits)
qed

theorem rejection_table_bounded_witness:
  "\<exists>t. lifecycle_run new_lifecycle [Reject ''r'' ''a'' ''b''] t \<and> length (lf_rejections t) \<le> 33"
proof -
  have run: "lifecycle_run new_lifecycle ([] @ [Reject ''r'' ''a'' ''b'']) (fst (record_evidence_rejection new_lifecycle ''r'' ''a'' ''b''))"
    by (rule run_snoc [OF run_nil reject])
  from rejection_table_bounded [OF run] run show ?thesis by auto
qed

section \<open>The latest authored marker decides\<close>

definition marker_line :: "string \<Rightarrow> string \<Rightarrow> string \<Rightarrow> string" where
  "marker_line k r m = ''AP_ACTIVE_MAP_V1 map_key='' @ k @ '' runtime_map='' @ r @ '' marker='' @ m"

definition plain_word :: "string \<Rightarrow> bool" where
  "plain_word w \<longleftrightarrow> w \<noteq> [] \<and> (\<forall>c \<in> set w. \<not> py_space c)"

abbreviation newline_char :: char where "newline_char \<equiv> CHR 0x0A"

lemma space_blank [simp]: "py_space (CHR '' '')" "py_space newline_char" "\<not> py_space (CHR ''m'')"
  "\<not> py_space (CHR ''r'')" "\<not> py_space (CHR ''A'')"
  by (simp_all add: py_space_def)

lemma expect_append [simp]: "expect lit (lit @ s) = Some s"
  by (simp add: expect_def)

lemma plain_word_split:
  assumes "\<forall>c \<in> set w. \<not> py_space c" and "s = [] \<or> py_space (hd s)"
  shows "takeWhile (\<lambda>c. \<not> py_space c) (w @ s) = w" "dropWhile (\<lambda>c. \<not> py_space c) (w @ s) = s"
  using assms by (induction w) (cases s; simp)+

lemma field_value_render:
  assumes "plain_word w" and "s = [] \<or> py_space (hd s)" and "\<not> py_space (hd key)" and "key \<noteq> []"
  shows "field_value key (CHR '' '' # key @ w @ s) = Some (w, s)"
proof -
  have "dropWhile py_space (CHR '' '' # key @ w @ s) = key @ w @ s"
    using assms(3,4) by (cases key) auto
  moreover have "some_word (w @ s) = Some (w, s)"
  proof -
    have w: "\<forall>c \<in> set w. \<not> py_space c" "w \<noteq> []" using assms(1) by (simp_all add: plain_word_def)
    note sp = plain_word_split [OF w(1) assms(2)]
    show ?thesis unfolding some_word_def Let_def sp by (simp only: w(2) if_False)
  qed
  ultimately show ?thesis
    by (simp add: field_value_def some_spaces_def)
qed

lemma match_marker_line:
  assumes "plain_word k" "plain_word r" "plain_word m"
  shows "match_marker (marker_line k r m) = Some ((k, r, m), [])"
proof -
  have line: "marker_line k r m = ''AP_ACTIVE_MAP_V1'' @ (CHR '' '' # ''map_key='' @ k @
      (CHR '' '' # ''runtime_map='' @ r @ (CHR '' '' # ''marker='' @ m @ [])))"
    by (simp add: marker_line_def)
  have "field_value ''map_key='' (CHR '' '' # ''map_key='' @ k @ (CHR '' '' # ''runtime_map='' @ r @ (CHR '' '' # ''marker='' @ m @ [])))
      = Some (k, CHR '' '' # ''runtime_map='' @ r @ (CHR '' '' # ''marker='' @ m @ []))"
    "field_value ''runtime_map='' (CHR '' '' # ''runtime_map='' @ r @ (CHR '' '' # ''marker='' @ m @ []))
      = Some (r, CHR '' '' # ''marker='' @ m @ [])"
    "field_value ''marker='' (CHR '' '' # ''marker='' @ m @ []) = Some (m, [])"
    using assms by (intro field_value_render; simp)+
  then show ?thesis
    unfolding line match_marker_def expect_append by (simp only: bind.bind_lunit prod.case)
qed

lemma starts_with_before_newline:
  assumes "starts_with (q @ newline_char # line) key" and "newline_char \<notin> set key"
  shows "length key \<le> length q"
proof (rule ccontr)
  assume "\<not> ?thesis"
  then have "length q < length key" by simp
  then have "key ! length q = newline_char"
    using assms(1) unfolding starts_with_def by (metis nth_append_length nth_take)
  with \<open>length q < length key\<close> assms(2) show False by (metis nth_mem)
qed

lemma word_before_newline:
  "dropWhile (\<lambda>c. \<not> py_space c) (q @ newline_char # line) = dropWhile (\<lambda>c. \<not> py_space c) q @ newline_char # line"
  by (induction q) auto

text \<open>No field of a match reaches over the line break before a rendered marker.\<close>

lemma field_value_before_newline:
  assumes "field_value key (q @ newline_char # line) = Some (v, t)" and "newline_char \<notin> set key"
    and "line \<noteq> []" "\<not> py_space (hd line)" "\<not> starts_with line key"
  shows "\<exists>q'. t = q' @ newline_char # line \<and> length q' \<le> length q"
proof -
  have spaces: "dropWhile py_space (q @ newline_char # line) =
      (if \<forall>c \<in> set q. py_space c then line else dropWhile py_space q @ newline_char # line)"
    using assms(3,4) by (cases line) (auto simp: dropWhile_append)
  from assms(1) obtain s2 where e: "expect key (dropWhile py_space (q @ newline_char # line)) = Some s2"
    and t: "t = dropWhile (\<lambda>c. \<not> py_space c) s2"
    by (auto simp: field_value_def some_spaces_def some_word_def Let_def split: if_splits bind_splits)
  let ?q1 = "dropWhile py_space q"
  from e assms(5) spaces have start: "starts_with (?q1 @ newline_char # line) key"
    and s2: "s2 = drop (length key) (?q1 @ newline_char # line)"
    by (auto simp: expect_def split: if_splits)
  from starts_with_before_newline [OF start assms(2)] s2
  have "s2 = drop (length key) ?q1 @ newline_char # line" by simp
  then have "t = dropWhile (\<lambda>c. \<not> py_space c) (drop (length key) ?q1) @ newline_char # line"
    unfolding t by (simp only: word_before_newline)
  moreover have "length (dropWhile (\<lambda>c. \<not> py_space c) (drop (length key) ?q1)) \<le> length q"
    by (metis (no_types, lifting) length_dropWhile_le length_drop diff_le_self order_trans)
  ultimately show ?thesis by blast
qed

lemma marker_line_head: "marker_line k r m = CHR ''A'' # tl (marker_line k r m)"
  "\<not> starts_with (marker_line k r m) ''map_key=''" "\<not> starts_with (marker_line k r m) ''runtime_map=''"
  "\<not> starts_with (marker_line k r m) ''marker=''"
  by (simp_all add: marker_line_def starts_with_def)

lemma match_before_newline:
  assumes "match_marker (q @ newline_char # marker_line k r m) = Some (g, t)"
  shows "\<exists>q'. t = q' @ newline_char # marker_line k r m \<and> length q' < length q"
proof -
  let ?l = "marker_line k r m"
  have head: "?l \<noteq> []" "\<not> py_space (hd ?l)" by (simp_all add: marker_line_def)
  obtain s1 a s2 b s3 c where e: "expect ''AP_ACTIVE_MAP_V1'' (q @ newline_char # ?l) = Some s1"
    and f: "field_value ''map_key='' s1 = Some (a, s2)" "field_value ''runtime_map='' s2 = Some (b, s3)"
      "field_value ''marker='' s3 = Some (c, t)"
    by (rule match_marker_parts [OF assms])
  have start: "starts_with (q @ newline_char # ?l) ''AP_ACTIVE_MAP_V1''"
    and s1: "s1 = drop (length ''AP_ACTIVE_MAP_V1'') (q @ newline_char # ?l)"
    using e unfolding expect_Some by blast+
  have len: "length ''AP_ACTIVE_MAP_V1'' \<le> length q"
    by (rule starts_with_before_newline [OF start]) simp
  define q1 where "q1 = drop (length ''AP_ACTIVE_MAP_V1'') q"
  have s1: "s1 = q1 @ newline_char # ?l" and q1: "length q1 < length q"
    using s1 len by (simp_all add: q1_def)
  obtain q2 where q2: "s2 = q2 @ newline_char # ?l" "length q2 \<le> length q1"
    using field_value_before_newline [OF f(1) [unfolded s1] _ head marker_line_head(2)] by auto
  obtain q3 where q3: "s3 = q3 @ newline_char # ?l" "length q3 \<le> length q2"
    using field_value_before_newline [OF f(2) [unfolded q2(1)] _ head marker_line_head(3)] by auto
  obtain q4 where "t = q4 @ newline_char # ?l" "length q4 \<le> length q3"
    using field_value_before_newline [OF f(3) [unfolded q3(1)] _ head marker_line_head(4)] by auto
  with q1 q2 q3 show ?thesis by (intro exI [of _ q4]) simp
qed

lemma find_markers_latest:
  assumes "plain_word k" "plain_word r" "plain_word m"
  shows "\<exists>before. find_markers (q @ newline_char # marker_line k r m) = before @ [(k, r, m)]"
proof (induction q rule: length_induct)
  case (1 q)
  let ?l = "marker_line k r m"
  have one: "find_markers ?l = [(k, r, m)]"
  proof -
    obtain c rest where l: "?l = c # rest" using marker_line_head(1) by metis
    with match_marker_line [OF assms] show ?thesis by simp
  qed
  show ?case
  proof (cases q)
    case Nil
    have "match_marker (newline_char # ?l) = None"
      by (simp add: match_marker_def expect_def starts_with_def)
    then show ?thesis using one Nil by simp
  next
    case (Cons c q')
    show ?thesis
    proof (cases "match_marker (q @ newline_char # ?l)")
      case None
      with 1 Cons show ?thesis by simp
    next
      case (Some gt)
      obtain g t where gt: "gt = (g, t)" by fastforce
      from match_before_newline [OF Some [unfolded gt]] 1 obtain before where
        "find_markers t = before @ [(k, r, m)]" by blast
      with Some gt Cons show ?thesis by simp
    qed
  qed
qed

lemma strip_semicolons_plain: "w = [] \<or> last w \<noteq> CHR '';'' \<Longrightarrow> strip_semicolons w = w"
  by (cases w rule: rev_cases) (auto simp: strip_semicolons_def rstrip_by_def)

text \<open>Whatever the console log held before, the marker line that the game wrote last is
  the one that is parsed: for a map key of a known context whose runtime map is catalogued under
  exactly that key, the rendered line is read back to its marker.\<close>

theorem authored_marker_roundtrip:
  assumes "plain_word k" "plain_word r" "plain_word (map_start k)"
    and "last k \<noteq> CHR '';''" "last r \<noteq> CHR '';''" "last (map_start k) \<noteq> CHR '';''"
    and "canonical_map_name (PStr r) = PStr r" and "contexts r = Some cx" and "k \<in> set (cx_map_keys cx)"
    and "map fst (filter (\<lambda>(_, v). v = r) catalog) = [k]"
  shows "parse_authored_marker (content @ newline_char # marker_line k r (map_start k)) path mtime catalog contexts =
    Some [(''map_key'', PStr k), (''runtime_map'', PStr r), (''marker'', PStr (map_start k)),
          (''mtime_ns'', PInt mtime), (''path'', path)]"
proof -
  obtain before where "find_markers (content @ newline_char # marker_line k r (map_start k)) = before @ [(k, r, map_start k)]"
    using find_markers_latest [OF assms(1-3)] by blast
  moreover have "r \<noteq> []" using assms(2) by (simp add: plain_word_def)
  ultimately show ?thesis
    using assms(4-10) by (simp add: parse_authored_marker_def strip_semicolons_plain Let_def)
qed

theorem authored_marker_roundtrip_witness:
  "parse_authored_marker (''noise'' @ newline_char # marker_line ''x'' ''game/x'' (map_start ''x'')) PNone 5
     [(''x'', ''game/x'')] (\<lambda>m. if m = ''game/x'' then Some \<lparr>cx_identity = ''c'', cx_campaign = ''Base'',
        cx_runtime_maps = [''game/x''], cx_map_keys = [''x''], cx_capabilities = []\<rparr> else None)
   = Some [(''map_key'', PStr ''x''), (''runtime_map'', PStr ''game/x''), (''marker'', PStr (map_start ''x'')),
           (''mtime_ns'', PInt 5), (''path'', PNone)]"
proof -
  have w: "plain_word ''x''" "plain_word ''game/x''" "plain_word (map_start ''x'')" "last (map_start ''x'') \<noteq> CHR '';''"
    "canonical_map_name (PStr ''game/x'') = PStr ''game/x''" by code_simp+
  show ?thesis by (rule authored_marker_roundtrip [OF w(1-3) _ _ w(4,5), where cx = "\<lparr>cx_identity = ''c'', cx_campaign = ''Base'',
        cx_runtime_maps = [''game/x''], cx_map_keys = [''x''], cx_capabilities = []\<rparr>"]) simp_all
qed

end
