(* ===== verification/Materialization.thy ===== *)
theory Materialization
  imports Reconciliation_Plan Inventory_Domain Ownership Runtime_Context
begin

text \<open>
  Planning of persistent inventory repairs, from \<open>doom_eap/runtime/materialization.py\<close> and
  \<open>doom_eap/contracts/materialization.py\<close>: from the owned items, the active context and a fresh
  observation of the game to the commands that repair what is proved missing.

  Sets that the code iterates over are sorted lists of their elements (the code sorts the
  result). A \<open>MaterializationPlanError\<close> is an exception of that class; its \<open>blocked\<close> attribute
  is false exactly for the unsupported weapon option.
\<close>

record materialization_scope =
  ms_seed :: string
  ms_team :: int
  ms_slot :: int
  ms_state_key :: string
  ms_lease :: "string option"
  ms_epoch :: "int option"
  ms_reason :: string
  ms_dedupe :: string
  ms_manual :: bool

definition SUPPORT_RUNE_CAPABILITY :: string where "SUPPORT_RUNE_CAPABILITY = ''support_runes_v1''"
definition TAG_SPECIAL_CAPABILITY :: string where "TAG_SPECIAL_CAPABILITY = ''tag_special_v1''"
definition SUPPORT_RUNE_IDS :: "int list" where "SUPPORT_RUNE_IDS = [7770145, 7770146, 7770147]"
definition TAG_SPECIAL_IDS :: "int list" where "TAG_SPECIAL_IDS = [7770009, 7770902]"
definition CRUCIBLE_ID :: int where "CRUCIBLE_ID = 7770007"

definition GATE_KEY_TO_MAP :: "(int \<times> string) list" where
  "GATE_KEY_TO_MAP = [(7770148, ''e4m1_rig''), (7770149, ''e4m3_mcity''), (7770150, ''e1m2_war''),
     (7770151, ''e1m3_cult''), (7770152, ''e2m1_nest''), (7770153, ''e2m2_base''),
     (7770154, ''e2m3_core''), (7770155, ''e3m1_slayer'')]"

definition context_supports_item :: "runtime_context \<Rightarrow> int \<Rightarrow> bool" where
  "context_supports_item cx i =
     (if i \<in> set SUPPORT_RUNE_IDS \<and> \<not> supports cx SUPPORT_RUNE_CAPABILITY then False
      else if i \<in> set TAG_SPECIAL_IDS \<and> \<not> supports cx TAG_SPECIAL_CAPABILITY then False
      else if i = 7770901 \<and> \<not> supports cx ''special_weapon_v1'' then False
      else if i = CRUCIBLE_ID \<and> \<not> supports cx ''crucible_v1'' then False
      else case map_of GATE_KEY_TO_MAP i of None \<Rightarrow> True | Some m \<Rightarrow> m \<in> set (cx_map_keys cx))"

definition context_item_ids :: "runtime_context \<Rightarrow> int list \<Rightarrow> int list" where
  "context_item_ids cx ids = filter (context_supports_item cx) ids"

definition support_rune_commands :: "int list \<Rightarrow> runtime_context \<Rightarrow> int list" where
  "support_rune_commands received cx =
     (if \<not> supports cx SUPPORT_RUNE_CAPABILITY then []
      else filter (\<lambda>i. i \<in> set SUPPORT_RUNE_IDS) (sorted_set received))"

section \<open>Plans\<close>

record materialization_plan =
  mp_scope :: materialization_scope
  mp_reconciliation :: reconciliation_plan
  mp_raw_operations :: nat
  mp_support_jobs :: nat
  mp_special_stage :: int
  mp_diagnostic :: "(int \<times> nat \<times> int \<times> string \<times> nat) option"

definition MaterializationPlanError :: "string \<Rightarrow> exn" where
  "MaterializationPlanError m = Exn ''MaterializationPlanError'' m"

definition unsupported_option :: exn where
  "unsupported_option = MaterializationPlanError ''unsupported special weapon option''"

definition plan_error :: "exn \<Rightarrow> bool" where
  "plan_error e \<longleftrightarrow> exn_type e = ''MaterializationPlanError''"

definition plan_error_blocked :: "exn \<Rightarrow> bool" where
  "plan_error_blocked e \<longleftrightarrow> e \<noteq> unsupported_option"

definition special_items :: "string \<Rightarrow> int list option" where
  "special_items mode = map_of
     [(''progressive_special_weapon'', [7770901]), (''Progressive Special Weapon'', [7770901]),
      (''progressive_sentinel_hammer'', [7770902]), (''Progressive Sentinel Hammer'', [7770902]),
      (''the_crucible'', [7770007]), (''The Crucible'', [7770007])] mode"

definition fresh_for :: "inventory_observation \<Rightarrow> runtime_context \<Rightarrow> materialization_scope \<Rightarrow> bool" where
  "fresh_for ob cx sc \<longleftrightarrow> \<not> is_stale_for ob (Some (ms_seed sc))
     (case ms_epoch sc of None \<Rightarrow> PNone | Some e \<Rightarrow> PInt e) (Some (cx_identity cx)) (Some (cx_campaign cx)) None"

definition frag_upgrades :: "int list" where "frag_upgrades = [7770111, 7770112, 7770113, 7770114]"

definition replayable :: "(int \<times> replay_policy) list \<Rightarrow> materialization_scope \<Rightarrow> int \<Rightarrow> bool" where
  "replayable policies sc i \<longleftrightarrow> i \<notin> mastery_items \<and>
     (i \<in> set SUPPORT_RUNE_IDS
      \<or> (case map_of policies i of None \<Rightarrow> False
         | Some p \<Rightarrow> rp_policy p \<in> {''replay_idempotent'', ''replay_manual_only''})
      \<or> i \<in> set SPECIAL_WEAPON_ITEM_IDS
      \<or> (i \<in> set CAPACITY_ITEM_IDS \<and> ms_lease sc \<noteq> None))"

definition selected_ids :: "int list \<Rightarrow> runtime_context \<Rightarrow> materialization_scope \<Rightarrow> (int \<times> replay_policy) list
    \<Rightarrow> int list \<Rightarrow> int set option \<Rightarrow> int list" where
  "selected_ids owned cx sc policies special selection =
     filter (\<lambda>i. (7770011 \<in> set owned \<or> i \<notin> set frag_upgrades)
          \<and> (i \<in> set SPECIAL_WEAPON_ITEM_IDS \<longrightarrow> i \<in> set special)
          \<and> replayable policies sc i
          \<and> (case selection of None \<Rightarrow> True | Some chosen \<Rightarrow> i \<in> chosen))
       (context_item_ids cx (sorted_set owned))"

text \<open>The comparison of one planned command with the observation.\<close>

definition needed :: "inventory_observation \<Rightarrow> int list \<Rightarrow> reconciliation_command \<Rightarrow> bool" where
  "needed ob owned c =
     (let i = rc_item c in
      if i \<in> set CAPACITY_ITEM_IDS
      then (if get_state ob i = UNKNOWN then False
            else let desired = min MAX_CAPACITY_TIER (count_list owned i);
                     observed = (if is_owned ob i then get_observed_stage ob i else 0)
                 in observed \<le> int (rc_stage c) \<and> rc_stage c < desired)
      else is_proven_missing ob i \<and> (i \<noteq> 7770006 \<or> rc_stage c = 0))"

section \<open>Special weapons\<close>

record special_candidate =
  sp_stage :: int
  sp_item :: int
  sp_deliveries :: delivery_plan

definition lookup_res :: "(int \<times> 'a) list \<Rightarrow> int \<Rightarrow> 'a res" where \<comment> \<open>\<open>d[k]\<close>\<close>
  "lookup_res d i = (case map_of d i of None \<Rightarrow> Inl (KeyError ''item'') | Some x \<Rightarrow> Inr x)"

definition special_candidate_of :: "(int \<times> pyval) list \<Rightarrow> int list \<Rightarrow> int \<Rightarrow> special_candidate res" where
  "special_candidate_of definitions owned i =
     bind_res (lookup_res definitions i) (\<lambda>dfn.
       if i \<in> {7770007, 7770009}
       then bind_res (compile_item_delivery_plan i definitions None False PNone None)
         (\<lambda>p. Inr \<lparr>sp_stage = (if i = 7770007 then 1 else 2), sp_item = i, sp_deliveries = p\<rparr>)
       else case dfn of
         PDict d \<Rightarrow>
          (case dget_or d ''perks'' (PList []) of
             PList perks \<Rightarrow>
              (let stage = int (min (count_list owned i) (length perks)) - 1 in
               bind_res (compile_item_delivery_plan i definitions (Some stage) False PNone None)
                 (\<lambda>p. Inr \<lparr>sp_stage = stage + 1, sp_item = i, sp_deliveries = p\<rparr>))
           | _ \<Rightarrow> Inl (TypeError ''object has no len()''))
       | _ \<Rightarrow> Inl (Exn ''AttributeError'' ''get''))"

text \<open>\<open>max(special_candidates, key=lambda c: (c[0], c[1]))\<close>; the items are distinct.\<close>

fun best_candidate :: "special_candidate list \<Rightarrow> special_candidate option" where
  "best_candidate [] = None"
| "best_candidate (c # cs) =
     (case best_candidate cs of
        None \<Rightarrow> Some c
      | Some b \<Rightarrow> Some (if sp_stage b > sp_stage c \<or> (sp_stage b = sp_stage c \<and> sp_item b > sp_item c) then b else c))"

definition scope_id :: "materialization_scope \<Rightarrow> runtime_context \<Rightarrow> pyval list \<Rightarrow> string res" where
  "scope_id sc cx parts = stable_spool_id ''reconcile''
     ([PStr (ms_seed sc), PInt (ms_team sc), PInt (ms_slot sc), PStr (cx_identity cx)] @ parts)"

definition repair_command :: "int \<Rightarrow> replay_policy \<Rightarrow> nat \<Rightarrow> string \<Rightarrow> string \<Rightarrow> string \<Rightarrow> reconciliation_command" where
  "repair_command i p stage spool command descr =
     \<lparr>rc_item = i, rc_name = rp_name p, rc_policy = rp_policy p, rc_stage = stage,
      rc_spool_id = spool, rc_command = command, rc_description = descr\<rparr>"

definition special_delivery :: "materialization_scope \<Rightarrow> runtime_context \<Rightarrow> replay_policy \<Rightarrow> special_candidate
    \<Rightarrow> delivery_command \<Rightarrow> reconciliation_command res" where
  "special_delivery sc cx p b d =
     bind_res (scope_id sc cx [PStr ''special'', PInt (sp_stage b), PInt (int (dc_index d))]) (\<lambda>sid.
       Inr (repair_command (sp_item b) p (nat (sp_stage b)) sid (dc_command d) (dp_description (sp_deliveries b))))"

definition hammer_upgrades :: "(string \<times> string) list" where
  "hammer_upgrades =
     [(''ammo_drops_upgraded'', ''perk/player/weapons/hammer/ammo_drops_upgraded''),
      (''armor_and_health_drops_upgraded'', ''perk/player/weapons/hammer/armor_and_health_drops_upgraded''),
      (''debuff_duration_increase'', ''perk/player/weapons/hammer/debuff_duration_increase'')]"

definition give_perk :: "string \<Rightarrow> string" where
  "give_perk path = ''ai_ScriptCmdEnt player1 givePlayerPerk '' @ path"

definition has_hammer :: "special_candidate \<Rightarrow> bool" where
  "has_hammer b \<longleftrightarrow> sp_item b = 7770009 \<or> (sp_item b = 7770901 \<and> sp_stage b \<ge> 2)
     \<or> (sp_item b = 7770902 \<and> sp_stage b \<ge> 1)"

definition hammer_command :: "materialization_scope \<Rightarrow> runtime_context \<Rightarrow> replay_policy \<Rightarrow> special_candidate
    \<Rightarrow> string \<times> string \<Rightarrow> reconciliation_command res" where
  "hammer_command sc cx p b u =
     bind_res (scope_id sc cx [PStr ''special'', PInt (sp_stage b), PStr (''hammer-upgrade-'' @ fst u)]) (\<lambda>sid.
       Inr (repair_command (sp_item b) p (nat (sp_stage b)) sid (give_perk (snd u))
              (''Sentinel Hammer upgrade: '' @ fst u)))"

definition special_commands_of :: "materialization_scope \<Rightarrow> runtime_context \<Rightarrow> replay_policy \<Rightarrow> special_candidate
    \<Rightarrow> reconciliation_command list res" where
  "special_commands_of sc cx p b =
     bind_res (map_res (special_delivery sc cx p b) (dp_commands (sp_deliveries b))) (\<lambda>cs.
       if has_hammer b \<and> cx_campaign cx \<in> {''TAG2'', ''Dark Lord''} \<and> supports cx TAG_SPECIAL_CAPABILITY
       then bind_res (map_res (hammer_command sc cx p b)
              (filter (\<lambda>u. give_perk (snd u) \<notin> set (map rc_command cs)) hammer_upgrades)) (\<lambda>us. Inr (cs @ us))
       else Inr cs)"

definition special_needed :: "inventory_observation \<Rightarrow> special_candidate \<Rightarrow> bool" where
  "special_needed ob b \<longleftrightarrow>
     (if is_owned ob (sp_item b) \<and> get_observed_stage ob (sp_item b) \<ge> sp_stage b then False
      else is_proven_missing ob (sp_item b)
        \<or> (is_owned ob (sp_item b) \<and> get_observed_stage ob (sp_item b) < sp_stage b))"

definition special_plan :: "materialization_scope \<Rightarrow> runtime_context \<Rightarrow> (int \<times> pyval) list \<Rightarrow> (int \<times> replay_policy) list
    \<Rightarrow> int list \<Rightarrow> inventory_observation \<Rightarrow> int list
    \<Rightarrow> (reconciliation_command list \<times> int \<times> (int \<times> nat \<times> int \<times> string \<times> nat) option) res" where
  "special_plan sc cx definitions policies owned ob chosen =
     bind_res (map_res (lookup_res definitions) chosen) (\<lambda>_.
     bind_res (map_res (lookup_res policies) chosen) (\<lambda>_.
     bind_res (map_res (special_candidate_of definitions owned) chosen) (\<lambda>cands.
       case best_candidate cands of
         None \<Rightarrow> Inr ([], 0, None)
       | Some b \<Rightarrow>
          bind_res (lookup_res policies (sp_item b)) (\<lambda>p.
          bind_res (special_commands_of sc cx p b) (\<lambda>cs.
            let kept = (if special_needed ob b then cs else [])
            in Inr (kept, sp_stage b,
                 Some (sp_item b, count_list owned (last chosen), sp_stage b, cx_identity cx, length kept)))))))"

section \<open>Support runes and Blood Punch\<close>

definition support_command :: "materialization_scope \<Rightarrow> runtime_context \<Rightarrow> (int \<times> pyval) list
    \<Rightarrow> (int \<times> replay_policy) list \<Rightarrow> int \<Rightarrow> reconciliation_command res" where
  "support_command sc cx definitions policies i =
     bind_res (lookup_res definitions i) (\<lambda>dfn.
     bind_res (compile_item_delivery_plan i [(i, dfn)] None False PNone None) (\<lambda>plan.
       case dp_commands plan of
         [d] \<Rightarrow> bind_res (lookup_res policies i) (\<lambda>p.
                bind_res (scope_id sc cx [PStr ''support-rune'', PInt i]) (\<lambda>sid.
                  Inr (repair_command i p 0 sid (dc_command d) (dp_description plan))))
       | _ \<Rightarrow> Inl (MaterializationPlanError ''invalid support rune plan'')))"

definition support_plan :: "materialization_scope \<Rightarrow> runtime_context \<Rightarrow> (int \<times> pyval) list
    \<Rightarrow> (int \<times> replay_policy) list \<Rightarrow> int list \<Rightarrow> inventory_observation \<Rightarrow> reconciliation_command list res" where
  "support_plan sc cx definitions policies owned ob =
     map_res (support_command sc cx definitions policies)
       (filter (is_proven_missing ob) (support_rune_commands owned cx))"

definition blood_punch_command :: "materialization_scope \<Rightarrow> runtime_context \<Rightarrow> completion_upgrade
    \<Rightarrow> reconciliation_command res" where
  "blood_punch_command sc cx u =
     bind_res (scope_id sc cx [PStr ''blood-punch-upgrade'', PInt (cu_location u)]) (\<lambda>sid.
       Inr \<lparr>rc_item = BLOOD_PUNCH, rc_name = ''Blood Punch'', rc_policy = ''replay_idempotent'',
            rc_stage = nat (cu_location u), rc_spool_id = sid, rc_command = give_perk (cu_perk u),
            rc_description = ''Blood Punch upgrade from '' @ cu_mission u\<rparr>)"

definition blood_punch_plan :: "materialization_scope \<Rightarrow> runtime_context \<Rightarrow> effective_ownership
    \<Rightarrow> inventory_observation \<Rightarrow> int set option \<Rightarrow> reconciliation_command list res" where
  "blood_punch_plan sc cx own ob selection =
     (if cx_campaign cx \<noteq> ''Base'' \<and> BLOOD_PUNCH \<in> set (eo_reconciliation own)
         \<and> (case selection of None \<Rightarrow> True | Some chosen \<Rightarrow> BLOOD_PUNCH \<in> chosen)
         \<and> is_proven_missing ob BLOOD_PUNCH
      then map_res (blood_punch_command sc cx) (eo_blood_punch own) else Inr [])"

section \<open>The compiler\<close>

definition semantic_key :: "reconciliation_command \<Rightarrow> int \<times> nat \<times> string" where
  "semantic_key c = (rc_item c, rc_stage c, rc_command c)"

fun keep_first :: "('a \<Rightarrow> 'k) \<Rightarrow> 'k set \<Rightarrow> 'a list \<Rightarrow> 'a list" where
  "keep_first key seen [] = []"
| "keep_first key seen (x # xs) =
     (if key x \<in> seen then keep_first key seen xs else x # keep_first key (insert (key x) seen) xs)"

definition base_plan :: "effective_ownership \<Rightarrow> runtime_context \<Rightarrow> materialization_scope \<Rightarrow> (int \<times> pyval) list
    \<Rightarrow> (int \<times> replay_policy) list \<Rightarrow> int list \<Rightarrow> int list \<Rightarrow> reconciliation_plan res" where
  "base_plan own cx sc definitions policies special chosen =
     (let plan_ids = filter (\<lambda>i. i \<in> set chosen \<and> i \<notin> set SUPPORT_RUNE_IDS \<and> i \<notin> set special) (eo_reconciliation own);
          distinct_ids = sorted_set plan_ids
      in bind_res (map_res (\<lambda>i. bind_res (lookup_res definitions i) (\<lambda>x. Inr (i, x))) distinct_ids) (\<lambda>defs.
         bind_res (map_res (\<lambda>i. bind_res (lookup_res policies i) (\<lambda>x. Inr (i, x))) distinct_ids) (\<lambda>pols.
         bind_res (stable_spool_id ''context'' [PStr (ms_seed sc), PInt (ms_team sc), PInt (ms_slot sc), PStr (cx_identity cx)]) (\<lambda>slot.
           case ms_epoch sc of
             None \<Rightarrow> Inl (ValueError ''reconciliation requires slot identity and non-negative epoch'')
           | Some e \<Rightarrow> compile_reconciliation_plan plan_ids defs pols slot e True))))"

definition compile_materialization_plan :: "effective_ownership \<Rightarrow> runtime_context \<Rightarrow> materialization_scope
    \<Rightarrow> (int \<times> pyval) list \<Rightarrow> (int \<times> replay_policy) list \<Rightarrow> string \<Rightarrow> inventory_observation option
    \<Rightarrow> int set option \<Rightarrow> materialization_plan res" where
  "compile_materialization_plan own cx sc definitions policies mode observation selection =
     (case observation of
        None \<Rightarrow> Inl (MaterializationPlanError ''fresh native observation required; UNKNOWN is not missing'')
      | Some ob \<Rightarrow>
       (if \<not> fresh_for ob cx sc
        then Inl (MaterializationPlanError ''fresh native observation required; UNKNOWN is not missing'')
        else case special_items mode of
          None \<Rightarrow> Inl unsupported_option
        | Some special \<Rightarrow>
          (let owned = eo_reconciliation own;
               chosen = selected_ids owned cx sc policies special selection
           in bind_res (base_plan own cx sc definitions policies special chosen) (\<lambda>plan.
              bind_res (special_plan sc cx definitions policies owned ob (filter (\<lambda>i. i \<in> set special) chosen)) (\<lambda>(specials, stage, diagnostic).
              bind_res (support_plan sc cx definitions policies owned ob) (\<lambda>supports.
              bind_res (blood_punch_plan sc cx own ob selection) (\<lambda>punches.
                let raw = filter (needed ob owned) (rpl_commands plan) @ specials @ supports @ punches;
                    commands = keep_first semantic_key {} raw
                in if commands = [] \<and> list_ex (\<lambda>i. get_state ob i = UNKNOWN) chosen
                   then Inl (MaterializationPlanError ''empty plan has unresolved native observations'')
                   else Inr \<lparr>mp_scope = sc,
                     mp_reconciliation = plan\<lparr>rpl_commands := commands,
                       rpl_special_stages := (if specials \<noteq> [] then 1 else 0), rpl_entitlements := []\<rparr>,
                     mp_raw_operations = length raw, mp_support_jobs = length supports,
                     mp_special_stage = stage, mp_diagnostic = diagnostic\<rparr>)))))))"

text \<open>Automatic repairs treat the receipts as fully randomized and repair the Crucible.\<close>

definition automatic_receipt :: "materialization_scope \<Rightarrow> int \<Rightarrow> network_item" where
  "automatic_receipt sc i = \<lparr>item = i, location = PInt 0, player = PInt (ms_slot sc), flags = PNone, packet_id = PNone\<rparr>"

definition compile_automatic_plan :: "int list \<Rightarrow> runtime_context \<Rightarrow> materialization_scope \<Rightarrow> (int \<times> pyval) list
    \<Rightarrow> (int \<times> replay_policy) list \<Rightarrow> inventory_observation option \<Rightarrow> reconciliation_plan res" where
  "compile_automatic_plan authoritative cx sc definitions policies observation =
     bind_res (compile_materialization_plan
        (project_ownership (map (automatic_receipt sc) authoritative) True True [] [] True [] 0 (PInt (ms_slot sc)))
        cx sc definitions policies ''the_crucible'' observation None)
       (\<lambda>mp. Inr (mp_reconciliation mp))"

section \<open>Admission\<close>

definition authored_effects_allowed :: "native_evidence option \<Rightarrow> bool \<Rightarrow> string option \<Rightarrow> pyval \<Rightarrow> pyval \<Rightarrow> bool
    \<Rightarrow> bool \<Rightarrow> bool \<Rightarrow> bool \<Rightarrow> bool \<Rightarrow> bool" where
  "authored_effects_allowed ev native_safe campaign epoch lease process_running item_ready room_identity online
       queue_authoritative \<longleftrightarrow>
     campaign \<notin> {None, Some ''Base''} \<and> (case ev of None \<Rightarrow> False | Some e \<Rightarrow> ne_state e = ''gameplay'' \<and> native_safe)
     \<and> is_str epoch \<and> lease = epoch \<and> process_running \<and> item_ready \<and> room_identity \<and> online \<and> queue_authoritative"

definition seed_text :: "string \<Rightarrow> bool" where
  "seed_text s \<longleftrightarrow> s \<noteq> [] \<and> list_all (\<lambda>c. slot_identity_char c \<and> c \<noteq> CHR '':'') s"

definition reconciliation_session_block :: "bool \<Rightarrow> bool \<Rightarrow> bool \<Rightarrow> int option \<Rightarrow> int option \<Rightarrow> pyval \<Rightarrow> string option" where
  "reconciliation_session_block item_ready require_connection online team slot seed =
     (if \<not> item_ready then Some ''item state is not ready''
      else if require_connection \<and> \<not> online then Some ''connected AP session required''
      else if team = None \<or> slot = None then Some ''current AP team/slot identity is incomplete''
      else if \<not> truthy seed \<or> \<not> seed_text (py_str seed)
      then Some ''seed identity is missing or unsafe for deterministic spool IDs''
      else None)"

definition reconciliation_runtime_block :: "native_evidence option \<Rightarrow> string option \<Rightarrow> pydict option \<Rightarrow> bool
    \<Rightarrow> string option \<Rightarrow> string option \<Rightarrow> pyval \<Rightarrow> string option \<Rightarrow> string list \<Rightarrow> int \<Rightarrow> int \<Rightarrow> string option" where
  "reconciliation_runtime_block ev slot_directory marker runtime_ready campaign active_slot active_epoch active_map
       supported boundary history_length =
     (case ev of
        None \<Rightarrow> Some ''confirmed gameplay epoch required; menus are not eligible''
      | Some e \<Rightarrow>
       (if ne_state e \<noteq> ''gameplay'' then Some ''confirmed gameplay epoch required; menus are not eligible''
        else if marker = None then Some ''active AP map marker is unavailable''
        else if \<not> runtime_ready then Some ''runtime effects are not level-ready''
        else if campaign \<in> {None, Some ''Base''} \<and> active_slot \<noteq> slot_directory
        then Some ''gameplay evidence does not match the active save slot''
        else if campaign \<in> {None, Some ''Base''} \<and> active_epoch \<noteq> ne_epoch e
        then Some ''gameplay evidence does not match the active epoch''
        else if (case active_map of None \<Rightarrow> True | Some m \<Rightarrow> m \<notin> set supported)
        then Some ''active map has no ap_rpc_v3 reconciliation entities''
        else if boundary > history_length then Some ''authoritative received-item history is incomplete''
        else None))"

section \<open>What a plan contains\<close>

lemma map_res_members: "map_res f xs = Inr ys \<Longrightarrow> y \<in> set ys \<Longrightarrow> \<exists>x \<in> set xs. f x = Inr y"
  unfolding map_res_all2 by (drule (1) list_all2_left)

lemma lookup_res_Inr: "lookup_res d i = Inr x \<longleftrightarrow> map_of d i = Some x"
  by (simp add: lookup_res_def split: option.split)

lemma keep_first_set: "set (keep_first key seen xs) \<subseteq> set xs"
  by (induction xs arbitrary: seen) auto

lemma keep_first_distinct:
  "distinct (map key (keep_first key seen xs)) \<and> key ` set (keep_first key seen xs) \<inter> seen = {}"
proof (induction xs arbitrary: seen)
  case (Cons x xs)
  from Cons [of seen] Cons [of "insert (key x) seen"] show ?case by auto
qed simp

lemma keep_first_Nil: "keep_first key {} xs = [] \<longleftrightarrow> xs = []"
  by (cases xs) auto

lemma keep_first_covers: "key ` set xs \<subseteq> key ` set (keep_first key seen xs) \<union> seen"
proof (induction xs arbitrary: seen)
  case (Cons x xs)
  from Cons [of seen] Cons [of "insert (key x) seen"] show ?case by auto
qed simp

lemma reconciliation_items:
  assumes "compile_reconciliation_plan received definitions registry slot epoch manual = Inr plan"
  shows "rc_item ` set (rpl_commands plan) \<subseteq> set received"
proof -
  let ?is = "filter (\<lambda>i. i \<noteq> BLOOD_PUNCH_ITEM) (sorted_set received)"
  from assms obtain rs where rs: "collect_items received definitions registry slot (nat epoch) manual = Inr rs"
    and plan: "plan = plan_of_items manual rs"
    by (auto simp: compile_reconciliation_plan_def Let_def split: if_splits)
  have "list_all2 (\<lambda>i r. item_commands slot (nat epoch) i (fst r)) ?is rs"
    using rs unfolding collect_items_def map_res_all2
    by (rule list_all2_mono) (use reconcile_item_commands in force)
  from collected_distinct [OF this] have "rc_item ` set (rpl_commands plan) \<subseteq> set ?is"
    by (simp add: plan plan_of_items_def Let_def)
  then show ?thesis by auto
qed

lemma base_plan_items:
  assumes "base_plan own cx sc definitions policies special chosen = Inr plan" and "c \<in> set (rpl_commands plan)"
  shows "rc_item c \<in> set chosen \<and> rc_item c \<notin> set special"
proof -
  from assms(1) obtain ids defs pols slot e where
    "compile_reconciliation_plan ids defs pols slot e True = Inr plan"
    and ids: "ids = filter (\<lambda>i. i \<in> set chosen \<and> i \<notin> set SUPPORT_RUNE_IDS \<and> i \<notin> set special) (eo_reconciliation own)"
    by (auto simp: base_plan_def Let_def split: option.splits)
  from reconciliation_items [OF this(1)] assms(2) ids show ?thesis by auto
qed

lemma candidate_item:
  "special_candidate_of definitions owned i = Inr b \<Longrightarrow> sp_item b = i"
  by (auto simp: special_candidate_of_def Let_def split: if_splits pyval.splits)

lemma best_candidate_member: "best_candidate cs = Some b \<Longrightarrow> b \<in> set cs"
  by (induction cs arbitrary: b) (auto split: option.splits if_splits)

lemma best_candidate_Nil: "best_candidate cs = None \<longleftrightarrow> cs = []"
  by (cases cs) (auto split: option.split)

lemma best_candidate_max: "best_candidate cs = Some b \<Longrightarrow> c \<in> set cs \<Longrightarrow> sp_stage c \<le> sp_stage b"
proof (induction cs arbitrary: b)
  case (Cons x cs)
  show ?case
  proof (cases "best_candidate cs")
    case None
    with Cons.prems show ?thesis by (auto simp: best_candidate_Nil)
  next
    case (Some b')
    with Cons.prems Cons.IH [OF Some] show ?thesis by (fastforce split: if_splits)
  qed
qed simp

lemma special_commands_fields:
  assumes "special_commands_of sc cx p b = Inr cs" and "c \<in> set cs"
  shows "rc_item c = sp_item b \<and> rc_stage c = nat (sp_stage b)"
proof -
  have d: "rc_item c = sp_item b \<and> rc_stage c = nat (sp_stage b)" if "special_delivery sc cx p b d = Inr c" for d c
    using that by (auto simp: special_delivery_def repair_command_def)
  have h: "rc_item c = sp_item b \<and> rc_stage c = nat (sp_stage b)" if "hammer_command sc cx p b u = Inr c" for u c
    using that by (auto simp: hammer_command_def repair_command_def)
  let ?upgrade = "has_hammer b \<and> cx_campaign cx \<in> {''TAG2'', ''Dark Lord''} \<and> supports cx TAG_SPECIAL_CAPABILITY"
  from assms(1) obtain ds where ds: "map_res (special_delivery sc cx p b) (dp_commands (sp_deliveries b)) = Inr ds"
    and rest: "(if ?upgrade then bind_res (map_res (hammer_command sc cx p b)
          (filter (\<lambda>u. give_perk (snd u) \<notin> set (map rc_command ds)) hammer_upgrades)) (\<lambda>us. Inr (ds @ us))
        else Inr ds) = Inr cs"
    unfolding special_commands_of_def bind_res_eq_Inr by blast
  have cs: "cs = ds \<or> (\<exists>us xs. map_res (hammer_command sc cx p b) xs = Inr us \<and> cs = ds @ us)"
  proof (cases ?upgrade)
    case True
    with rest have "bind_res (map_res (hammer_command sc cx p b)
        (filter (\<lambda>u. give_perk (snd u) \<notin> set (map rc_command ds)) hammer_upgrades)) (\<lambda>us. Inr (ds @ us)) = Inr cs"
      by (simp only: simp_thms if_True)
    then show ?thesis unfolding bind_res_eq_Inr by blast
  next
    case False
    with rest have "Inr ds = (Inr cs :: reconciliation_command list res)" by (simp only: simp_thms if_False)
    then show ?thesis by simp
  qed
  show ?thesis
  proof (cases "c \<in> set ds")
    case True
    with map_res_members [OF ds] d show ?thesis by blast
  next
    case False
    with cs assms(2) obtain us xs where "map_res (hammer_command sc cx p b) xs = Inr us" "c \<in> set us" by auto
    from map_res_members [OF this] h show ?thesis by blast
  qed
qed

lemma special_plan_fields:
  assumes "special_plan sc cx definitions policies owned ob chosen = Inr (cs, stage, diagnostic)"
  shows "(cs = [] \<or> (\<exists>i \<in> set chosen. (\<forall>c \<in> set cs. rc_item c = i \<and> rc_stage c = nat stage) \<and>
     (is_proven_missing ob i \<or> (is_owned ob i \<and> get_observed_stage ob i < stage))))"
proof (cases "cs = []")
  case False
  from assms obtain cands where cands: "map_res (special_candidate_of definitions owned) chosen = Inr cands"
    and rest: "(case best_candidate cands of
         None \<Rightarrow> Inr ([], 0, None)
       | Some b \<Rightarrow>
          bind_res (lookup_res policies (sp_item b)) (\<lambda>p.
          bind_res (special_commands_of sc cx p b) (\<lambda>cs.
            let kept = (if special_needed ob b then cs else [])
            in Inr (kept, sp_stage b,
                 Some (sp_item b, count_list owned (last chosen), sp_stage b, cx_identity cx, length kept))))) = Inr (cs, stage, diagnostic)"
    by (auto simp: special_plan_def)
  from rest False obtain b p cs0 where b: "best_candidate cands = Some b"
    and cs: "special_commands_of sc cx p b = Inr cs0" "special_needed ob b" "cs = cs0" "stage = sp_stage b"
    by (auto simp: Let_def split: option.splits if_splits)
  from map_res_members [OF cands best_candidate_member [OF b]] candidate_item have "sp_item b \<in> set chosen" by blast
  moreover have "\<forall>c \<in> set cs. rc_item c = sp_item b \<and> rc_stage c = nat stage"
    using special_commands_fields [OF cs(1)] cs(3,4) by blast
  moreover have "is_proven_missing ob (sp_item b) \<or> (is_owned ob (sp_item b) \<and> get_observed_stage ob (sp_item b) < stage)"
    using cs(2,4) by (auto simp: special_needed_def split: if_splits)
  ultimately show ?thesis by blast
qed simp

lemma support_plan_fields:
  assumes "support_plan sc cx definitions policies owned ob = Inr cs" and "c \<in> set cs"
  shows "rc_item c \<in> set owned \<and> rc_item c \<in> set SUPPORT_RUNE_IDS \<and> is_proven_missing ob (rc_item c)"
proof -
  have one: "rc_item c = i" if "support_command sc cx definitions policies i = Inr c" for i c
  proof -
    from that obtain plan :: delivery_plan where
      "(case dp_commands plan of
         [d] \<Rightarrow> bind_res (lookup_res policies i) (\<lambda>p.
                bind_res (scope_id sc cx [PStr ''support-rune'', PInt i]) (\<lambda>sid.
                  Inr (repair_command i p 0 sid (dc_command d) (dp_description plan))))
       | _ \<Rightarrow> Inl (MaterializationPlanError ''invalid support rune plan'')) = Inr c"
      unfolding support_command_def bind_res_eq_Inr by blast
    then show ?thesis by (auto simp: repair_command_def split: list.split_asm)
  qed
  from assms map_res_members one have
    "rc_item c \<in> set (filter (is_proven_missing ob) (support_rune_commands owned cx))"
    unfolding support_plan_def by metis
  then show ?thesis by (auto simp: support_rune_commands_def split: if_splits)
qed

lemma blood_punch_plan_fields:
  assumes "blood_punch_plan sc cx own ob selection = Inr cs" and "c \<in> set cs"
  shows "rc_item c = BLOOD_PUNCH \<and> BLOOD_PUNCH \<in> set (eo_reconciliation own) \<and> is_proven_missing ob BLOOD_PUNCH"
proof -
  from assms have g: "BLOOD_PUNCH \<in> set (eo_reconciliation own)" "is_proven_missing ob BLOOD_PUNCH"
    and m: "map_res (blood_punch_command sc cx) (eo_blood_punch own) = Inr cs"
    by (auto simp: blood_punch_plan_def split: if_splits)
  from map_res_members [OF m assms(2)] have "rc_item c = BLOOD_PUNCH"
    by (auto simp: blood_punch_command_def)
  with g show ?thesis by simp
qed

lemma selected_ids_owned: "set (selected_ids owned cx sc policies special selection) \<subseteq> set owned"
  by (auto simp: selected_ids_def context_item_ids_def)

text \<open>The parts of a compiled plan.\<close>

lemma compile_parts:
  assumes "compile_materialization_plan own cx sc definitions policies mode (Some ob) selection = Inr mp"
  obtains special chosen plan specials stage diagnostic supports punches where
    "special_items mode = Some special" "chosen = selected_ids (eo_reconciliation own) cx sc policies special selection"
    "base_plan own cx sc definitions policies special chosen = Inr plan"
    "special_plan sc cx definitions policies (eo_reconciliation own) ob (filter (\<lambda>i. i \<in> set special) chosen) = Inr (specials, stage, diagnostic)"
    "support_plan sc cx definitions policies (eo_reconciliation own) ob = Inr supports"
    "blood_punch_plan sc cx own ob selection = Inr punches" "fresh_for ob cx sc" "mp_special_stage mp = stage"
    "rpl_commands (mp_reconciliation mp) = keep_first semantic_key {}
       (filter (needed ob (eo_reconciliation own)) (rpl_commands plan) @ specials @ supports @ punches)"
    "rpl_commands (mp_reconciliation mp) = [] \<longrightarrow> (\<forall>i \<in> set chosen. get_state ob i \<noteq> UNKNOWN)"
proof -
  from assms obtain special where sp: "special_items mode = Some special" and fr: "fresh_for ob cx sc"
    by (auto simp: compile_materialization_plan_def split: if_splits option.splits)
  let ?chosen = "selected_ids (eo_reconciliation own) cx sc policies special selection"
  from assms sp fr obtain plan where pl: "base_plan own cx sc definitions policies special ?chosen = Inr plan"
    by (auto simp: compile_materialization_plan_def Let_def)
  from assms sp fr pl obtain specials stage diagnostic where
    spl: "special_plan sc cx definitions policies (eo_reconciliation own) ob (filter (\<lambda>i. i \<in> set special) ?chosen) = Inr (specials, stage, diagnostic)"
    by (auto simp: compile_materialization_plan_def Let_def)
  from assms sp fr pl spl obtain supports where su: "support_plan sc cx definitions policies (eo_reconciliation own) ob = Inr supports"
    by (auto simp: compile_materialization_plan_def Let_def)
  from assms sp fr pl spl su obtain punches where pu: "blood_punch_plan sc cx own ob selection = Inr punches"
    by (auto simp: compile_materialization_plan_def Let_def)
  note eqs = sp fr pl spl su pu
  from assms have "mp_special_stage mp = stage"
    "rpl_commands (mp_reconciliation mp) = keep_first semantic_key {}
       (filter (needed ob (eo_reconciliation own)) (rpl_commands plan) @ specials @ supports @ punches)"
    "rpl_commands (mp_reconciliation mp) = [] \<longrightarrow> (\<forall>i \<in> set ?chosen. get_state ob i \<noteq> UNKNOWN)"
    unfolding compile_materialization_plan_def by (auto simp: eqs Let_def list_ex_iff split: if_splits)
  with that [OF sp refl pl spl su pu fr] show ?thesis by blast
qed

section \<open>Properties\<close>


text \<open>Repair converges: once an observation shows every owned item as owned, each
  capacity at the smaller of four and its receipts and the special weapon at its selected
  stage, the plan compiled from it is empty.\<close>

theorem materialization_converges:
  assumes "compile_materialization_plan own cx sc definitions policies mode (Some ob) selection = Inr mp"
    and "\<forall>i \<in> set (eo_reconciliation own). is_owned ob i"
    and "\<forall>i \<in> set (eo_reconciliation own) \<inter> set CAPACITY_ITEM_IDS.
           int (min 4 (count_list (eo_reconciliation own) i)) \<le> get_observed_stage ob i"
    and "\<forall>i \<in> set (eo_reconciliation own) \<inter> set SPECIAL_WEAPON_ITEM_IDS. mp_special_stage mp \<le> get_observed_stage ob i"
  shows "rpl_commands (mp_reconciliation mp) = []"
  using assms(1)
proof (rule compile_parts)
  fix special chosen and plan :: reconciliation_plan and specials stage diagnostic supports punches
  assume mode: "special_items mode = Some special"
    and chosen: "chosen = selected_ids (eo_reconciliation own) cx sc policies special selection"
    and base: "base_plan own cx sc definitions policies special chosen = Inr plan"
    and sp: "special_plan sc cx definitions policies (eo_reconciliation own) ob (filter (\<lambda>i. i \<in> set special) chosen) = Inr (specials, stage, diagnostic)"
    and su: "support_plan sc cx definitions policies (eo_reconciliation own) ob = Inr supports"
    and pu: "blood_punch_plan sc cx own ob selection = Inr punches"
    and st: "mp_special_stage mp = stage"
    and cmds: "rpl_commands (mp_reconciliation mp) = keep_first semantic_key {}
       (filter (needed ob (eo_reconciliation own)) (rpl_commands plan) @ specials @ supports @ punches)"
  have owned: "set chosen \<subseteq> set (eo_reconciliation own)" unfolding chosen by (rule selected_ids_owned)
  have special: "set special \<subseteq> set SPECIAL_WEAPON_ITEM_IDS"
    using mode by (auto simp: special_items_def SPECIAL_WEAPON_ITEM_IDS_def split: if_splits)
  have "\<not> needed ob (eo_reconciliation own) c" if "c \<in> set (rpl_commands plan)" for c
  proof -
    from base_plan_items [OF base that] owned have i: "rc_item c \<in> set (eo_reconciliation own)" by blast
    show ?thesis
    proof (cases "rc_item c \<in> set CAPACITY_ITEM_IDS")
      case True
      with i assms(2,3) have "is_owned ob (rc_item c)"
        "int (min 4 (count_list (eo_reconciliation own) (rc_item c))) \<le> get_observed_stage ob (rc_item c)" by blast+
      then show ?thesis by (auto simp: needed_def Let_def True MAX_CAPACITY_TIER_def)
    next
      case False
      with i assms(2) show ?thesis by (auto simp: needed_def Let_def dest: owned_not_missing)
    qed
  qed
  then have "filter (needed ob (eo_reconciliation own)) (rpl_commands plan) = []" by (simp add: filter_empty_conv)
  moreover have "specials = []"
  proof (rule ccontr)
    assume "specials \<noteq> []"
    with special_plan_fields [OF sp] obtain i where i: "i \<in> set chosen" "i \<in> set special"
      and n: "is_proven_missing ob i \<or> (is_owned ob i \<and> get_observed_stage ob i < stage)" by auto
    from i owned special have "i \<in> set (eo_reconciliation own) \<inter> set SPECIAL_WEAPON_ITEM_IDS" by blast
    with assms(2,4) st have "is_owned ob i" "stage \<le> get_observed_stage ob i" by blast+
    with n owned_not_missing show False by fastforce
  qed
  moreover have "supports = []"
  proof (rule ccontr)
    assume "supports \<noteq> []"
    then have "hd supports \<in> set supports" by simp
    from support_plan_fields [OF su this] assms(2) owned_not_missing show False by blast
  qed
  moreover have "punches = []"
  proof (rule ccontr)
    assume "punches \<noteq> []"
    then have "hd punches \<in> set punches" by simp
    from blood_punch_plan_fields [OF pu this] assms(2) owned_not_missing show False by blast
  qed
  ultimately show ?thesis unfolding cmds by simp
qed

text \<open>The special weapon is one physical state: all commands of a plan that concern any
  special weapon item concern the same item at the same stage, the highest selected one.\<close>

theorem special_weapon_single_state:
  assumes "compile_materialization_plan own cx sc definitions policies mode (Some ob) selection = Inr mp"
  shows "\<exists>i. \<forall>c \<in> set (rpl_commands (mp_reconciliation mp)). rc_item c \<in> set SPECIAL_WEAPON_ITEM_IDS \<longrightarrow>
    rc_item c = i \<and> rc_stage c = nat (mp_special_stage mp)"
  using assms
proof (rule compile_parts)
  fix special chosen and plan :: reconciliation_plan and specials stage diagnostic supports punches
  assume chosen: "chosen = selected_ids (eo_reconciliation own) cx sc policies special selection"
    and base: "base_plan own cx sc definitions policies special chosen = Inr plan"
    and sp: "special_plan sc cx definitions policies (eo_reconciliation own) ob (filter (\<lambda>i. i \<in> set special) chosen) = Inr (specials, stage, diagnostic)"
    and su: "support_plan sc cx definitions policies (eo_reconciliation own) ob = Inr supports"
    and pu: "blood_punch_plan sc cx own ob selection = Inr punches"
    and st: "mp_special_stage mp = stage"
    and cmds: "rpl_commands (mp_reconciliation mp) = keep_first semantic_key {}
       (filter (needed ob (eo_reconciliation own)) (rpl_commands plan) @ specials @ supports @ punches)"
  have "rc_item c \<notin> set SPECIAL_WEAPON_ITEM_IDS" if "c \<in> set (rpl_commands plan)" for c
    using base_plan_items [OF base that] unfolding chosen by (auto simp: selected_ids_def)
  moreover have "rc_item c \<notin> set SPECIAL_WEAPON_ITEM_IDS" if "c \<in> set supports" for c
    using support_plan_fields [OF su that] by (auto simp: SUPPORT_RUNE_IDS_def SPECIAL_WEAPON_ITEM_IDS_def)
  moreover have "rc_item c \<notin> set SPECIAL_WEAPON_ITEM_IDS" if "c \<in> set punches" for c
    using blood_punch_plan_fields [OF pu that] by (auto simp: BLOOD_PUNCH_def SPECIAL_WEAPON_ITEM_IDS_def)
  ultimately have only: "c \<in> set specials" if "c \<in> set (rpl_commands (mp_reconciliation mp))"
    "rc_item c \<in> set SPECIAL_WEAPON_ITEM_IDS" for c
    using that keep_first_set [of semantic_key "{}"] unfolding cmds by fastforce
  obtain i where "\<forall>c \<in> set specials. rc_item c = i \<and> rc_stage c = nat stage"
    using special_plan_fields [OF sp] by (metis empty_iff list.set(1))
  with only show ?thesis unfolding st by blast
qed

section \<open>Witnesses\<close>

definition sample_own :: effective_ownership where
  "sample_own = project_ownership [\<lparr>item = 7770001, location = PInt 5, player = PInt 1, flags = PInt 1, packet_id = PNone\<rparr>]
     True True [] [] True [] 0 (PInt 1)"

definition sample_context :: runtime_context where
  "sample_context = \<lparr>cx_identity = ''c'', cx_campaign = ''Base'', cx_runtime_maps = [], cx_map_keys = [], cx_capabilities = []\<rparr>"

definition sample_scope :: materialization_scope where
  "sample_scope = \<lparr>ms_seed = ''s'', ms_team = 0, ms_slot = 1, ms_state_key = ''k'', ms_lease = Some ''L'', ms_epoch = Some 1,
     ms_reason = ''r'', ms_dedupe = ''d'', ms_manual = False\<rparr>"

definition sample_observation :: "string \<Rightarrow> inventory_observation" where
  "sample_observation st = \<lparr>ob_room_seed = ''s'', ob_epoch = PInt 1, ob_context = ''c'', ob_campaign = ''Base'',
     ob_items = (\<lambda>i. if i = 7770001 then Some \<lparr>io_item = i, io_state = st, io_stage = 0, io_source = ''native''\<rparr> else None),
     ob_state_key = None, ob_process = None, ob_provider = None, ob_timestamp = 0\<rparr>"

definition plasma_definitions :: "(int \<times> pyval) list" where
  "plasma_definitions = [(7770001, PStr ''give weapon/player/plasma'')]"

definition plasma_policies :: "(int \<times> replay_policy) list" where
  "plasma_policies = [(7770001, \<lparr>rp_item = 7770001, rp_name = ''Plasma'', rp_policy = REPLAY_IDEMPOTENT, rp_feedback = ''ap''\<rparr>)]"

lemma sample_own_fields [simp]: "eo_reconciliation sample_own = [7770001]" "eo_blood_punch sample_own = []"
  by (simp_all add: sample_own_def project_ownership_def completion_upgrades_def Let_def)

lemma plasma_plan:
  "\<exists>d descr. compile_item_delivery_plan 7770001 plasma_definitions None False PNone None =
     Inr \<lparr>dp_item = 7770001, dp_family = ''simple_give'', dp_primitive = ''target_command'',
          dp_commands = [d], dp_stage = None, dp_description = descr\<rparr>"
proof -
  have "classify_item_definition (PStr ''give weapon/player/plasma'') = ''simple_give''" by code_simp
  then show ?thesis
    using activate_not_raw rpc_entity_of [of 7770001 "[]"]
    by (auto simp: plasma_definitions_def compile_item_delivery_plan_def mastery_items_def MASTERY_ITEM_BITS_def
        family_primitives_def primitive_def primitive_registry_def family_effects_def
        command_at_def entity_of_def starts_with_def)
qed

lemma sample_slot:
  obtains slot where "stable_spool_id ''context'' [PStr ''s'', PInt 0, PInt 1, PStr ''c''] = Inr slot"
    "slot \<noteq> []" "list_all slot_identity_char slot"
proof -
  have v: "validate_spool_id (PStr ''context'') = Inr ''context''" by code_simp
  have l: "length (utf8 ''context'') \<le> 107" by code_simp
  from stable_spool_id_valid_id [OF v l, of "[PStr ''s'', PInt 0, PInt 1, PStr ''c'']"]
  obtain h where h: "stable_spool_id ''context'' [PStr ''s'', PInt 0, PInt 1, PStr ''c''] = Inr (''context'' @ ''-'' @ h)"
    "list_all is_lower_hex h" by auto
  have "list_all slot_identity_char ''0123456789abcdef''" by code_simp
  then have "slot_identity_char c" if "is_lower_hex c" for c
    using that unfolding is_lower_hex_def list_all_iff by blast
  moreover have "list_all slot_identity_char ''context-''" by code_simp
  ultimately have "list_all slot_identity_char (''context'' @ ''-'' @ h)"
    using h(2) by (auto simp: list_all_iff)
  with h(1) that show ?thesis by blast
qed

lemma sample_materialization:
  assumes "st \<in> {OWNED, MISSING}"
  shows "\<exists>mp. compile_materialization_plan sample_own sample_context sample_scope plasma_definitions plasma_policies
    ''the_crucible'' (Some (sample_observation st)) None = Inr mp"
proof -
  let ?i = "7770001 :: int"
  obtain slot where slot: "stable_spool_id ''context'' [PStr ''s'', PInt 0, PInt 1, PStr ''c''] = Inr slot"
    "slot \<noteq> []" "list_all slot_identity_char slot" by (rule sample_slot)
  have chosen: "selected_ids [?i] sample_context sample_scope plasma_policies [7770007] None = [?i]"
    by (simp add: selected_ids_def context_item_ids_def context_supports_item_def SUPPORT_RUNE_IDS_def TAG_SPECIAL_IDS_def
        CRUCIBLE_ID_def GATE_KEY_TO_MAP_def replayable_def mastery_items_def MASTERY_ITEM_BITS_def plasma_policies_def
        REPLAY_IDEMPOTENT_def frag_upgrades_def SPECIAL_WEAPON_ITEM_IDS_def sorted_set_def)
  obtain d descr where plan: "compile_item_delivery_plan ?i plasma_definitions None False PNone None =
     Inr \<lparr>dp_item = ?i, dp_family = ''simple_give'', dp_primitive = ''target_command'',
          dp_commands = [d], dp_stage = None, dp_description = descr\<rparr>" using plasma_plan by blast
  have "\<exists>rs. collect_items [?i] plasma_definitions plasma_policies slot 1 True = Inr rs"
    by (simp add: collect_items_def sorted_set_def BLOOD_PUNCH_ITEM_def reconcile_item_def plasma_policies_def
        SUPPORTED_POLICIES_def REPLAY_IDEMPOTENT_def NEVER_REPLAY_def REPLAY_MANUAL_ONLY_def replay_commands_def plan)
  then obtain rs where rs: "collect_items [?i] plasma_definitions plasma_policies slot 1 True = Inr rs" ..
  have "compile_reconciliation_plan [?i] plasma_definitions plasma_policies slot 1 True = Inr (plan_of_items True rs)"
    using slot(2,3) rs collect_items_distinct [OF rs]
    by (simp add: compile_reconciliation_plan_def plasma_definitions_def plasma_policies_def plan_of_items_def Let_def)
  then have base: "base_plan sample_own sample_context sample_scope plasma_definitions plasma_policies [7770007] [?i]
      = Inr (plan_of_items True rs)"
    using slot(1) by (simp add: base_plan_def Let_def sorted_set_def lookup_res_def plasma_definitions_def plasma_policies_def
        SUPPORT_RUNE_IDS_def sample_scope_def sample_context_def)
  have fresh: "fresh_for (sample_observation st) sample_context sample_scope"
    by (simp add: fresh_for_def is_stale_for_def sample_observation_def sample_context_def sample_scope_def)
  have known: "get_state (sample_observation st) ?i \<noteq> UNKNOWN"
    using assms by (auto simp: get_state_def sample_observation_def)
  show ?thesis
    using fresh known base chosen
    by (simp add: compile_materialization_plan_def special_items_def special_plan_def support_plan_def
        support_rune_commands_def supports_def sample_context_def blood_punch_plan_def Let_def)
qed


theorem materialization_converges_witness:
  "\<exists>mp. compile_materialization_plan sample_own sample_context sample_scope plasma_definitions plasma_policies
     ''the_crucible'' (Some (sample_observation OWNED)) None = Inr mp \<and> rpl_commands (mp_reconciliation mp) = []"
proof -
  obtain mp where mp: "compile_materialization_plan sample_own sample_context sample_scope plasma_definitions plasma_policies
     ''the_crucible'' (Some (sample_observation OWNED)) None = Inr mp"
    using sample_materialization by blast
  have "rpl_commands (mp_reconciliation mp) = []"
    by (rule materialization_converges [OF mp])
      (simp_all add: is_owned_def get_state_def sample_observation_def CAPACITY_ITEM_IDS_def SPECIAL_WEAPON_ITEM_IDS_def)
  with mp show ?thesis by blast
qed

theorem special_weapon_single_state_witness:
  "\<exists>mp i. compile_materialization_plan sample_own sample_context sample_scope plasma_definitions plasma_policies
     ''the_crucible'' (Some (sample_observation MISSING)) None = Inr mp \<and>
   (\<forall>c \<in> set (rpl_commands (mp_reconciliation mp)). rc_item c \<in> set SPECIAL_WEAPON_ITEM_IDS \<longrightarrow> rc_item c = i)"
proof -
  obtain mp where mp: "compile_materialization_plan sample_own sample_context sample_scope plasma_definitions plasma_policies
     ''the_crucible'' (Some (sample_observation MISSING)) None = Inr mp"
    using sample_materialization by blast
  from special_weapon_single_state [OF mp] mp show ?thesis by blast
qed

end
