(* ===== verification/Materialization_Coordinator.thy ===== *)
theory Materialization_Coordinator
  imports Materialization
begin

text \<open>
  The coordinator of persistent repairs, \<open>doom_eap/runtime/materialization_coordinator.py\<close>: it
  plans, withholds what was already dispatched under the same lease, publishes, and records the
  dispatch and its completion.

  The publisher is a function on a world; \<open>exists\<close> reads it. \<open>persist\<close> stores the state
  document and may raise. The two clock readings are arguments. Logging is left out.
\<close>

section \<open>State\<close>

record materialization_outcome =
  out_plan :: "reconciliation_plan option"
  out_error :: "string option"
  out_complete :: bool

record completion =
  co_context :: string
  co_lease :: string
  co_commands :: "string list"
  co_started :: time
  co_state_key :: string

record coordinator =
  mc_state :: pydict
  mc_status :: string
  mc_mode :: string
  mc_block :: "string option"
  mc_triggers :: "string set"
  mc_completion :: "completion option"
  mc_resync :: pydict
  mc_noop :: "((string \<times> string \<times> pyval \<times> pyval) \<times> time) option"

definition new_coordinator :: coordinator where
  "new_coordinator = \<lparr>mc_state = [], mc_status = ''uninitialized'', mc_mode = ''none'', mc_block = None,
     mc_triggers = {}, mc_completion = None, mc_resync = [], mc_noop = None\<rparr>"

definition bind_coordinator :: "coordinator \<Rightarrow> pydict \<Rightarrow> pydict option \<Rightarrow> coordinator" where
  "bind_coordinator s state resync = s\<lparr>mc_state := state,
     mc_resync := (case resync of None \<Rightarrow> [] | Some r \<Rightarrow> r), mc_triggers := {}, mc_completion := None\<rparr>"

section \<open>The automatic ledger\<close>

definition reset_automatic :: "coordinator \<Rightarrow> coordinator" where
  "reset_automatic s = s\<lparr>mc_resync := []\<rparr>"

definition automatic_already_applied :: "coordinator \<Rightarrow> pyval \<Rightarrow> pyval \<Rightarrow> bool" where
  "automatic_already_applied s epoch fingerprint \<longleftrightarrow>
     dget (mc_resync s) ''runtime_epoch'' = epoch \<and> dget (mc_resync s) ''history_fingerprint'' = fingerprint
     \<and> dget (mc_resync s) ''status'' \<in> {PStr ''complete'', PStr ''noop''}"

definition record_automatic_failure :: "coordinator \<Rightarrow> pyval \<Rightarrow> pyval \<Rightarrow> pyval \<Rightarrow> coordinator" where
  "record_automatic_failure s reason epoch fingerprint = s\<lparr>mc_resync := dmerge (mc_resync s)
     [(''runtime_epoch'', epoch), (''history_fingerprint'', fingerprint), (''status'', PStr ''blocked''), (''reason'', reason)]\<rparr>"

definition record_automatic_success :: "coordinator \<Rightarrow> reconciliation_plan \<Rightarrow> pyval \<Rightarrow> pyval \<Rightarrow> pyval \<Rightarrow> pyval \<Rightarrow> pyval
    \<Rightarrow> coordinator \<times> string" where
  "record_automatic_success s plan reason epoch fingerprint boundary timestamp =
     (let status = (if rpl_commands plan = [] then ''noop'' else ''dispatched'')
      in (s\<lparr>mc_resync := dmerge (mc_resync s)
             [(''runtime_epoch'', epoch), (''history_fingerprint'', fingerprint), (''status'', PStr status), (''reason'', reason),
              (''processed_boundary'', boundary), (''timestamp'', timestamp)]\<rparr>, status))"

definition record_automatic_observation :: "coordinator \<Rightarrow> pyval \<Rightarrow> pyval \<Rightarrow> pyval \<Rightarrow> coordinator" where
  "record_automatic_observation s err epoch fingerprint =
     (if dget (mc_resync s) ''runtime_epoch'' \<noteq> epoch \<or> dget (mc_resync s) ''history_fingerprint'' \<noteq> fingerprint then s
      else s\<lparr>mc_resync := dmerge (mc_resync s)
        [(''status'', PStr (if truthy err then ''pending'' else ''complete'')), (''observation_error'', err)]\<rparr>)"

definition log_automatic_noop :: "coordinator \<Rightarrow> string \<Rightarrow> string \<Rightarrow> pyval \<Rightarrow> pyval \<Rightarrow> time \<Rightarrow> coordinator \<times> bool" where
  "log_automatic_noop s reason detail epoch fingerprint now =
     (let signature = (reason, detail, epoch, fingerprint) in
      if (case mc_noop s of Some (old, logged) \<Rightarrow> old = signature \<and> now - logged < 300 | None \<Rightarrow> False) then (s, False)
      else (s\<lparr>mc_noop := Some (signature, now)\<rparr>, True))"

definition trigger :: "coordinator \<Rightarrow> string option \<Rightarrow> coordinator" where
  "trigger s reason = (case reason of None \<Rightarrow> s | Some r \<Rightarrow> s\<lparr>mc_triggers := insert r (mc_triggers s)\<rparr>)"

definition block_coordinator :: "coordinator \<Rightarrow> string option \<Rightarrow> coordinator" where
  "block_coordinator s reason = s\<lparr>mc_status := ''blocked'', mc_block := reason\<rparr>"

definition admit_context :: "coordinator \<Rightarrow> runtime_context option \<Rightarrow> bool \<Rightarrow> string option
    \<Rightarrow> coordinator \<times> bool \<times> string option" where
  "admit_context s current use_dlc dlc_block =
     (case current of
        None \<Rightarrow> (block_coordinator s (Some ''runtime context is unrecognized''), False, Some ''runtime context is unrecognized'')
      | Some cx \<Rightarrow>
       (if cx_identity cx = ''unknown''
        then (block_coordinator s (Some ''runtime context is unrecognized''), False, Some ''runtime context is unrecognized'')
        else if \<not> use_dlc \<and> cx_campaign cx \<noteq> ''Base''
        then (s\<lparr>mc_mode := ''none'', mc_status := ''dlc_disabled_context_ignored'', mc_block := None\<rparr>, False, None)
        else if use_dlc \<and> cx_campaign cx \<noteq> ''Base'' \<and> dlc_block \<notin> {None, Some []}
        then (block_coordinator s dlc_block, False, dlc_block)
        else (s, True, None)))"

definition invalidate_completed_ownership :: "coordinator \<Rightarrow> coordinator" where
  "invalidate_completed_ownership s =
     s\<lparr>mc_state := dpop ''completed_persistent_key'' (dpop ''completed_key'' (mc_state s))\<rparr>"

definition poll_completion :: "coordinator \<Rightarrow> (string \<Rightarrow> string \<Rightarrow> bool) \<Rightarrow> coordinator \<times> bool" where
  "poll_completion s exists_command =
     (case mc_completion s of
        None \<Rightarrow> (s, False)
      | Some c \<Rightarrow>
         (if list_ex (\<lambda>i. exists_command i (co_state_key c)) (co_commands c) then (s, False)
          else (s\<lparr>mc_completion := None\<rparr>, True)))"

section \<open>Reconciliation\<close>

definition text_or :: "string \<Rightarrow> string option \<Rightarrow> string" where \<comment> \<open>\<open>str(value or default)\<close>\<close>
  "text_or d s = (case s of None \<Rightarrow> d | Some t \<Rightarrow> if t = [] then d else t)"

definition dispatch_key :: "materialization_scope \<Rightarrow> runtime_context \<Rightarrow> string" where
  "dispatch_key sc cx = join '':'' [ms_dedupe sc, cx_identity cx, text_or ''deferred'' (ms_lease sc)]"

definition materialization_key :: "materialization_scope \<Rightarrow> runtime_context \<Rightarrow> effective_ownership \<Rightarrow> string" where
  "materialization_key sc cx own = dispatch_key sc cx @ '':'' @ eo_fingerprint own"

definition active_gate_keys :: "runtime_context \<Rightarrow> effective_ownership \<Rightarrow> int list" where
  "active_gate_keys cx own = map fst (filter (\<lambda>(i, m). m \<in> set (cx_map_keys cx) \<and> i \<in> set (eo_reconciliation own)) GATE_KEY_TO_MAP)"

definition command_dict :: "reconciliation_command \<Rightarrow> pyval" where
  "command_dict c = PDict [(''item_id'', PInt (rc_item c)), (''name'', PStr (rc_name c)), (''policy'', PStr (rc_policy c)),
     (''stage'', PInt (int (rc_stage c))), (''spool_id'', PStr (rc_spool_id c)), (''command'', PStr (rc_command c)),
     (''description'', PStr (rc_description c))]"

text \<open>\<open>set(value)\<close> of a JSON value; \<open>None\<close> when it is not iterable.\<close>

fun iterate :: "pyval \<Rightarrow> pyval list option" where
  "iterate (PList xs) = Some xs"
| "iterate (PStr s) = Some (map (\<lambda>c. PStr [c]) s)"
| "iterate (PDict d) = Some (map (\<lambda>(k, v). PStr k) d)"
| "iterate _ = None"

definition attempted_items :: "pydict \<Rightarrow> string \<Rightarrow> pyval list option" where
  "attempted_items state key =
     (if dget state ''dispatched_key'' = PStr key then iterate (dget_or state ''dispatched_item_ids'' (PList [])) else Some [])"

definition tracked_item :: "int \<Rightarrow> bool" where
  "tracked_item i \<longleftrightarrow> i \<in> set WEAPON_ITEM_IDS \<or> i \<in> set CAPACITY_ITEM_IDS \<or> i \<in> {7770011, 7770013, 7770015}"

type_synonym 'w plan_publisher = "reconciliation_plan \<Rightarrow> 'w \<Rightarrow> 'w \<times> (bool \<times> string option) res"
type_synonym 'w document_persister = "pydict \<Rightarrow> 'w \<Rightarrow> 'w \<times> unit res"

definition defer_reconcile :: "coordinator \<Rightarrow> runtime_context \<Rightarrow> string \<Rightarrow> string \<Rightarrow> 'w document_persister \<Rightarrow> 'w
    \<Rightarrow> coordinator \<times> 'w \<times> materialization_outcome res" where
  "defer_reconcile s cx previous target persist w =
     (let key = previous @ '':'' @ target @ '':'' @ cx_identity cx;
          reason = ''active context has no materialization lease'';
          outcome = \<lparr>out_plan = None, out_error = Some reason, out_complete = False\<rparr>;
          state1 = dmerge (mc_state s) [(''context_identity'', PStr (cx_identity cx)), (''campaign'', PStr (cx_campaign cx)),
                     (''deferred_key'', PStr key), (''status'', PStr ''deferred'')];
          s1 = s\<lparr>mc_mode := ''cross_context'', mc_status := ''deferred'', mc_block := Some reason, mc_state := state1\<rparr>
      in case persist state1 w of
           (w1, Inl e) \<Rightarrow> (s1, w1, Inl e)
         | (w1, Inr _) \<Rightarrow>
            (if dget state1 ''logged_deferred_key'' \<noteq> PStr key
             then (let state2 = dset ''logged_deferred_key'' (PStr key) state1; s2 = s1\<lparr>mc_state := state2\<rparr>
                   in case persist state2 w1 of
                        (w2, Inl e) \<Rightarrow> (s2, w2, Inl e)
                      | (w2, Inr _) \<Rightarrow> (s2, w2, Inr outcome))
             else (s1, w1, Inr outcome)))"

text \<open>The plan that is offered to the publisher: restricted to the selection, with its
  entitlements.\<close>

definition restrict_plan :: "effective_ownership \<Rightarrow> int set option \<Rightarrow> reconciliation_plan \<Rightarrow> reconciliation_plan" where
  "restrict_plan own selection plan =
     (let relevant = filter (\<lambda>i. i \<in> set ALL_PERSISTENT_DOMAIN_IDS
            \<and> (case selection of None \<Rightarrow> True | Some chosen \<Rightarrow> i \<in> chosen)) (sorted_set (eo_reconciliation own));
          plan1 = plan\<lparr>rpl_entitlements := relevant\<rparr>
      in case selection of
           None \<Rightarrow> plan1
         | Some chosen \<Rightarrow> plan1\<lparr>rpl_commands := filter (\<lambda>c. rc_item c \<in> chosen) (rpl_commands plan1)\<rparr>)"

definition fresh_commands :: "pyval list \<Rightarrow> reconciliation_command list \<Rightarrow> reconciliation_command list" where
  "fresh_commands attempted cs = filter (\<lambda>c. PInt (rc_item c) \<notin> set attempted) cs"

definition dispatched_document :: "materialization_scope \<Rightarrow> runtime_context \<Rightarrow> effective_ownership \<Rightarrow> bool \<Rightarrow> bool
    \<Rightarrow> materialization_plan \<Rightarrow> reconciliation_command list \<Rightarrow> int list \<Rightarrow> pydict \<Rightarrow> pydict" where
  "dispatched_document sc cx own cross observed planned commands attempted state = dmerge state
     [(''context_identity'', PStr (cx_identity cx)), (''campaign'', PStr (cx_campaign cx)),
      (''epoch'', case ms_epoch sc of None \<Rightarrow> PNone | Some e \<Rightarrow> PInt e),
      (''mode'', PStr (if cross then ''cross_context'' else ''same_context'')),
      (''pending_key'', PStr (materialization_key sc cx own)),
      (''pending_plan'', PList (map command_dict commands)),
      (''support_rune_jobs'', PInt (int (mp_support_jobs planned))),
      (''queued_command_count'', PInt (int (length commands))),
      (''completion_criterion'', PStr ''durable_spool_publication''),
      (''special_stage'', PInt (mp_special_stage planned)),
      (''status'', PStr ''complete''),
      (''lifecycle_state'', PStr (if commands \<noteq> [] then DISPATCHED else OBSERVED)),
      (''semantic_state'', PStr (if observed \<and> commands = [] then ''observed'' else if commands \<noteq> [] then ''dispatched_unverified'' else ''observed_noop'')),
      (''dispatched_key'', PStr (dispatch_key sc cx)),
      (''dispatched_item_ids'', PList (map PInt (sorted_set (attempted @ filter tracked_item (map rc_item commands)))))]"

definition completed_document :: "materialization_scope \<Rightarrow> runtime_context \<Rightarrow> effective_ownership \<Rightarrow> string
    \<Rightarrow> int set option \<Rightarrow> pydict \<Rightarrow> pydict" where
  "completed_document sc cx own lease selection state =
     dpop ''pending_plan'' (dpop ''pending_key''
       (if selection = None
        then dmerge state [(''completed_key'', PStr (materialization_key sc cx own)),
               (''completed_persistent_key'', PStr (materialization_key sc cx own)),
               (''completed_gate_key_lease'', PStr lease)]
        else state))"

text \<open>The part of \<open>reconcile\<close> after the publisher has accepted the plan.\<close>

definition record_dispatch :: "coordinator \<Rightarrow> materialization_scope \<Rightarrow> runtime_context \<Rightarrow> effective_ownership \<Rightarrow> bool \<Rightarrow> bool
    \<Rightarrow> string \<Rightarrow> materialization_plan \<Rightarrow> reconciliation_plan \<Rightarrow> pyval list \<Rightarrow> int set option \<Rightarrow> time
    \<Rightarrow> 'w document_persister \<Rightarrow> 'w \<Rightarrow> coordinator \<times> 'w \<times> materialization_outcome res" where
  "record_dispatch s sc cx own cross observed lease planned plan attempted selection now persist w =
     (let commands = rpl_commands plan;
          gate_reload = (active_gate_keys cx own \<noteq> []
            \<and> dget (mc_state s) ''completed_gate_key_lease'' \<notin> {PNone, PStr lease})
      in if \<not> list_all is_int attempted then (s, w, Inl (TypeError ''not supported between instances''))
         else
         let s1 = s\<lparr>mc_state := dispatched_document sc cx own cross observed planned commands (ints_of attempted) (mc_state s)\<rparr>
         in case persist (mc_state s1) w of
              (w1, Inl e) \<Rightarrow> (s1, w1, Inl e)
            | (w1, Inr _) \<Rightarrow>
               (let s2 = s1\<lparr>mc_state := completed_document sc cx own lease selection (mc_state s1),
                            mc_triggers := (if selection = None then {} else mc_triggers s1)\<rparr>
                in case persist (mc_state s2) w1 of
                     (w2, Inl e) \<Rightarrow> (s2, w2, Inl e)
                   | (w2, Inr _) \<Rightarrow>
                      (s2\<lparr>mc_completion := (if commands \<noteq> [] then Some \<lparr>co_context = cx_identity cx, co_lease = lease,
                             co_commands = map rc_spool_id commands, co_started = now, co_state_key = ms_state_key sc\<rparr> else None),
                          mc_status := (if gate_reload then ''gate_key_rematerialized'' else if commands \<noteq> [] then ''complete'' else ''noop''),
                          mc_block := None\<rparr>, w2,
                       Inr \<lparr>out_plan = Some plan, out_error = None, out_complete = (selection = None)\<rparr>)))"

definition blocked_outcome :: "coordinator \<Rightarrow> string option \<Rightarrow> coordinator \<times> materialization_outcome" where
  "blocked_outcome s reason =
     (block_coordinator s reason, \<lparr>out_plan = None, out_error = reason, out_complete = False\<rparr>)"

definition reconcile :: "coordinator \<Rightarrow> materialization_scope \<Rightarrow> runtime_context \<Rightarrow> effective_ownership
    \<Rightarrow> (string \<times> string) option \<Rightarrow> (int \<times> pyval) list \<Rightarrow> (int \<times> replay_policy) list \<Rightarrow> string
    \<Rightarrow> inventory_observation option \<Rightarrow> int set option \<Rightarrow> time \<Rightarrow> 'w plan_publisher \<Rightarrow> 'w document_persister \<Rightarrow> 'w
    \<Rightarrow> coordinator \<times> 'w \<times> materialization_outcome res" where
  "reconcile s sc cx own transition definitions policies mode observation selection now publish_plan persist w =
     (let previous = (case transition of None \<Rightarrow> cx_campaign cx | Some t \<Rightarrow> fst t);
          target = (case transition of None \<Rightarrow> cx_campaign cx | Some t \<Rightarrow> snd t)
      in case ms_lease sc of
           None \<Rightarrow> defer_reconcile s cx previous target persist w
         | Some lease \<Rightarrow>
          (let cross = (transition \<noteq> None \<and> previous \<noteq> target);
               s1 = s\<lparr>mc_triggers := (if cross then insert ''context'' (mc_triggers s) else mc_triggers s),
                      mc_mode := (if cross then ''cross_context'' else ''same_context'')\<rparr>
           in case compile_materialization_plan own cx sc definitions policies mode observation selection of
                Inl e \<Rightarrow>
                 (if plan_error e
                  then ((if plan_error_blocked e then block_coordinator s1 (Some (exn_message e)) else s1), w,
                        Inr \<lparr>out_plan = None, out_error = Some (exn_message e), out_complete = False\<rparr>)
                  else (s1, w, Inl e))
              | Inr planned \<Rightarrow>
                 (let plan = restrict_plan own selection (mp_reconciliation planned) in
                  case attempted_items (mc_state s1) (dispatch_key sc cx) of
                    None \<Rightarrow> (s1, w, Inl (TypeError ''object is not iterable''))
                  | Some attempted \<Rightarrow>
                     (let fresh = fresh_commands attempted (rpl_commands plan) in
                      if attempted \<noteq> [] \<and> rpl_commands plan \<noteq> [] \<and> fresh = []
                      then (case blocked_outcome s1 (Some ''previous repair was dispatched; native possession remains missing'')
                            of (s2, o2) \<Rightarrow> (s2, w, Inr o2))
                      else
                       let offered = plan\<lparr>rpl_commands := fresh\<rparr>
                       in case publish_plan offered w of
                            (w1, Inl e) \<Rightarrow> (s1, w1, Inl e)
                          | (w1, Inr (queued, err)) \<Rightarrow>
                             (if \<not> queued
                              then (case blocked_outcome s1 err of (s2, o2) \<Rightarrow> (s2, w1, Inr o2))
                              else record_dispatch s1 sc cx own cross (observation \<noteq> None) lease planned offered attempted selection now persist w1)))))"

section \<open>The automatic ledger as a state machine\<close>

datatype automatic_event =
    Automatic_reset
  | Automatic_failed pyval pyval pyval
  | Automatic_published reconciliation_plan pyval pyval pyval pyval pyval
  | Automatic_observed pyval pyval pyval

fun automatic_step :: "coordinator \<Rightarrow> automatic_event \<Rightarrow> coordinator" where
  "automatic_step s Automatic_reset = reset_automatic s"
| "automatic_step s (Automatic_failed reason epoch fingerprint) = record_automatic_failure s reason epoch fingerprint"
| "automatic_step s (Automatic_published plan reason epoch fingerprint boundary timestamp) =
     fst (record_automatic_success s plan reason epoch fingerprint boundary timestamp)"
| "automatic_step s (Automatic_observed err epoch fingerprint) = record_automatic_observation s err epoch fingerprint"

datatype automatic_phase = Blocked_phase | Noop_phase | Dispatched_phase | Pending_phase | Complete_phase

text \<open>The abstract ledger: the history it speaks of, and the phase of its repair.\<close>

type_synonym automatic_ledger = "(pyval \<times> pyval \<times> automatic_phase) option"

fun automatic_spec :: "automatic_ledger \<Rightarrow> automatic_event \<Rightarrow> automatic_ledger" where
  "automatic_spec l Automatic_reset = None"
| "automatic_spec l (Automatic_failed reason epoch fingerprint) = Some (epoch, fingerprint, Blocked_phase)"
| "automatic_spec l (Automatic_published plan reason epoch fingerprint boundary timestamp) =
     Some (epoch, fingerprint, if rpl_commands plan = [] then Noop_phase else Dispatched_phase)"
| "automatic_spec l (Automatic_observed err epoch fingerprint) =
     (case l of Some (e, f, p) \<Rightarrow> if e = epoch \<and> f = fingerprint
        then Some (e, f, if truthy err then Pending_phase else Complete_phase) else l | None \<Rightarrow> None)"

fun phase_text :: "automatic_phase \<Rightarrow> string" where
  "phase_text Blocked_phase = ''blocked''"
| "phase_text Noop_phase = ''noop''"
| "phase_text Dispatched_phase = ''dispatched''"
| "phase_text Pending_phase = ''pending''"
| "phase_text Complete_phase = ''complete''"

fun event_epoch :: "automatic_event \<Rightarrow> pyval option" where
  "event_epoch Automatic_reset = None"
| "event_epoch (Automatic_failed reason epoch fingerprint) = Some epoch"
| "event_epoch (Automatic_published plan reason epoch fingerprint boundary timestamp) = Some epoch"
| "event_epoch (Automatic_observed err epoch fingerprint) = Some epoch"

definition ledger_abs :: "coordinator \<Rightarrow> automatic_ledger \<Rightarrow> bool" where
  "ledger_abs s l \<longleftrightarrow> (case l of
     None \<Rightarrow> dget (mc_resync s) ''runtime_epoch'' = PNone
   | Some (e, f, p) \<Rightarrow> dget (mc_resync s) ''runtime_epoch'' = e \<and> dget (mc_resync s) ''history_fingerprint'' = f
       \<and> dget (mc_resync s) ''status'' = PStr (phase_text p))"

lemma ledger_abs_step:
  assumes "ledger_abs s l" "event_epoch ev \<noteq> Some PNone"
  shows "ledger_abs (automatic_step s ev) (automatic_spec l ev)"
  using assms
  by (cases ev) (auto simp: ledger_abs_def reset_automatic_def record_automatic_failure_def record_automatic_success_def
      record_automatic_observation_def Let_def dget_def[of "[]"] split: option.splits)

lemma ledger_abs_run:
  "ledger_abs s l \<Longrightarrow> Some PNone \<notin> event_epoch ` set evs \<Longrightarrow>
   ledger_abs (foldl automatic_step s evs) (foldl automatic_spec l evs)"
proof (induction evs arbitrary: s l)
  case (Cons ev evs)
  then show ?case using ledger_abs_step [of s l ev] by auto
qed simp

lemma ledger_abs_applied:
  assumes "ledger_abs s l" "epoch \<noteq> PNone"
  shows "automatic_already_applied s epoch fingerprint \<longleftrightarrow>
    (\<exists>p. l = Some (epoch, fingerprint, p) \<and> p \<in> {Noop_phase, Complete_phase})"
proof (cases l)
  case (Some x)
  obtain e f p where x: "x = (e, f, p)" by (cases x)
  show ?thesis using assms Some x
    by (cases p) (auto simp: ledger_abs_def automatic_already_applied_def)
qed (use assms in \<open>auto simp: ledger_abs_def automatic_already_applied_def\<close>)

text \<open>Property C29. The automatic repair ledger is a five-phase machine: whatever failures, publications and
  observations are recorded after binding a session, a history counts as already applied exactly when
  the last word on it was a publication without commands or an observation without error of that
  very epoch and fingerprint.\<close>

theorem automatic_ledger_refines:
  assumes "Some PNone \<notin> event_epoch ` set evs" and "epoch \<noteq> PNone"
  shows "automatic_already_applied (foldl automatic_step (bind_coordinator s state None) evs) epoch fingerprint \<longleftrightarrow>
    foldl automatic_spec None evs \<in> {Some (epoch, fingerprint, Noop_phase), Some (epoch, fingerprint, Complete_phase)}"
proof -
  have "ledger_abs (bind_coordinator s state None) None"
    by (simp add: ledger_abs_def bind_coordinator_def dget_def)
  from ledger_abs_applied [OF ledger_abs_run [OF this assms(1)] assms(2)] show ?thesis by auto
qed

section \<open>What is dispatched under one key\<close>

text \<open>The publisher and the persister, with the accepted plans recorded beside their world.\<close>

definition recorded :: "'w plan_publisher \<Rightarrow> ('w \<times> reconciliation_plan list) plan_publisher" where
  "recorded pub plan = (\<lambda>(w, ps). case pub plan w of
     (w1, answer) \<Rightarrow> ((w1, case answer of Inr (True, err) \<Rightarrow> ps @ [plan] | _ \<Rightarrow> ps), answer))"

definition carried :: "'w document_persister \<Rightarrow> ('w \<times> reconciliation_plan list) document_persister" where
  "carried persist document = (\<lambda>(w, ps). case persist document w of (w1, r) \<Rightarrow> ((w1, ps), r))"

definition dispatch_fields :: "pydict \<Rightarrow> pyval \<times> pyval" where
  "dispatch_fields state = (dget state ''dispatched_key'', dget_or state ''dispatched_item_ids'' (PList []))"

lemma dget_or_dpop [simp]: "dget_or (dpop k d) k' v0 = (if k' = k then v0 else dget_or d k' v0)"
  by (simp add: dget_or_def map_of_delete)

lemma carried_eq: "carried persist document x = (w', r) \<Longrightarrow> snd w' = snd x"
  by (cases x) (auto simp: carried_def split: prod.splits)

lemma recorded_eq:
  "recorded pub plan x = (w', r) \<Longrightarrow>
   snd w' = (case r of Inr (True, err) \<Rightarrow> snd x @ [plan] | _ \<Rightarrow> snd x)"
  by (cases x) (auto simp: recorded_def split: prod.splits sum.splits bool.splits)

lemma dispatch_fields_completed:
  "dispatch_fields (completed_document sc cx own lease selection state) = dispatch_fields state"
  by (simp add: dispatch_fields_def completed_document_def)

lemma dispatch_fields_dispatched:
  "dispatch_fields (dispatched_document sc cx own cross observed planned commands attempted state) =
     (PStr (dispatch_key sc cx), PList (map PInt (sorted_set (attempted @ filter tracked_item (map rc_item commands)))))"
  by (simp add: dispatch_fields_def dispatched_document_def)

lemma record_dispatch_fields:
  assumes "record_dispatch s sc cx own cross observed lease planned plan attempted selection now (carried persist) x = (s', w', r)"
    and "list_all is_int attempted"
  shows "snd w' = snd x \<and> dispatch_fields (mc_state s') =
    (PStr (dispatch_key sc cx), PList (map PInt (sorted_set (ints_of attempted @ filter tracked_item (map rc_item (rpl_commands plan))))))"
  using assms unfolding record_dispatch_def Let_def
  by (auto simp: dispatch_fields_completed dispatch_fields_dispatched dest!: carried_eq split: prod.splits sum.splits if_splits)

lemma defer_fields:
  assumes "defer_reconcile s cx previous target (carried persist) x = (s', w', r)"
  shows "snd w' = snd x \<and> dispatch_fields (mc_state s') = dispatch_fields (mc_state s)"
  using assms unfolding defer_reconcile_def Let_def
  by (auto simp: dispatch_fields_def dest!: carried_eq split: prod.splits sum.splits if_splits)

lemma reconcile_fields:
  assumes run: "reconcile s sc cx own transition definitions policies mode observation selection now
      (recorded pub) (carried persist) x = (s', w', r)"
    and attempted: "attempted_items (mc_state s) (dispatch_key sc cx) = Some attempted" "list_all is_int attempted"
  shows "(snd w' = snd x \<and> dispatch_fields (mc_state s') = dispatch_fields (mc_state s)) \<or>
    (\<exists>plan. snd w' = snd x @ [plan] \<and> (\<forall>c \<in> set (rpl_commands plan). PInt (rc_item c) \<notin> set attempted) \<and>
      dispatch_fields (mc_state s') =
        (PStr (dispatch_key sc cx), PList (map PInt (sorted_set (ints_of attempted @ filter tracked_item (map rc_item (rpl_commands plan)))))))"
proof -
  show ?thesis
    using run attempted unfolding reconcile_def Let_def
    by (auto simp: blocked_outcome_def block_coordinator_def fresh_commands_def dest!: defer_fields record_dispatch_fields recorded_eq
        split: option.splits sum.splits prod.splits if_splits)
qed

text \<open>Reconciliations under one dispatch key, with the coordinator's other operations between
  them. The third component collects the plans that the publisher accepted.\<close>

inductive dispatch_run :: "string \<Rightarrow> coordinator \<times> 'w \<times> reconciliation_plan list
    \<Rightarrow> coordinator \<times> 'w \<times> reconciliation_plan list \<Rightarrow> bool" for key where
  run_start: "dispatch_run key x x"
| run_reconcile: "dispatch_run key x (s, w, ps) \<Longrightarrow> dispatch_key sc cx = key \<Longrightarrow>
    reconcile s sc cx own transition definitions policies mode observation selection now
      (recorded pub) (carried persist) (w, ps) = (s', (w', ps'), r) \<Longrightarrow> dispatch_run key x (s', w', ps')"
| run_trigger: "dispatch_run key x (s, w, ps) \<Longrightarrow> dispatch_run key x (trigger s reason, w, ps)"
| run_block: "dispatch_run key x (s, w, ps) \<Longrightarrow> dispatch_run key x (block_coordinator s why, w, ps)"
| run_admit: "dispatch_run key x (s, w, ps) \<Longrightarrow> admit_context s current dlc why = (s', ok) \<Longrightarrow> dispatch_run key x (s', w, ps)"
| run_invalidate: "dispatch_run key x (s, w, ps) \<Longrightarrow> dispatch_run key x (invalidate_completed_ownership s, w, ps)"
| run_poll: "dispatch_run key x (s, w, ps) \<Longrightarrow> poll_completion s present = (s', done) \<Longrightarrow> dispatch_run key x (s', w, ps)"
| run_automatic: "dispatch_run key x (s, w, ps) \<Longrightarrow> dispatch_run key x (automatic_step s ev, w, ps)"

definition plan_items :: "reconciliation_plan \<Rightarrow> int set" where
  "plan_items p = rc_item ` set (rpl_commands p)"

text \<open>The integers of the durable list, and the invariant that ties it to the accepted plans.\<close>

definition dispatched_items :: "coordinator \<Rightarrow> string \<Rightarrow> int set" where
  "dispatched_items s key = (case attempted_items (mc_state s) key of None \<Rightarrow> {} | Some vs \<Rightarrow> set (ints_of vs))"

definition dispatch_list_ok :: "coordinator \<Rightarrow> bool" where
  "dispatch_list_ok s \<longleftrightarrow> (\<exists>ids. dget_or (mc_state s) ''dispatched_item_ids'' (PList []) = PList (map PInt ids))"

definition dispatch_inv :: "int set \<Rightarrow> string \<Rightarrow> coordinator \<times> 'w \<times> reconciliation_plan list \<Rightarrow> bool" where
  "dispatch_inv old key = (\<lambda>(s, w, ps). dispatch_list_ok s \<and>
     (\<forall>i. tracked_item i \<longrightarrow> length (filter (\<lambda>p. i \<in> plan_items p) ps) \<le> 1) \<and>
     (\<forall>i p. tracked_item i \<longrightarrow> p \<in> set ps \<longrightarrow> i \<in> plan_items p \<longrightarrow> i \<in> dispatched_items s key) \<and>
     old \<subseteq> dispatched_items s key \<and> (\<forall>p \<in> set ps. plan_items p \<inter> old = {}))"

lemma attempted_ok:
  assumes "dispatch_list_ok s"
  obtains ids where "attempted_items (mc_state s) key = Some (map PInt ids)" "dispatched_items s key = set ids"
proof (cases "dget (mc_state s) ''dispatched_key'' = PStr key")
  case True
  with assms that show thesis by (auto simp: dispatch_list_ok_def attempted_items_def dispatched_items_def)
next
  case False
  then show thesis by (intro that [of "[]"]) (simp_all add: attempted_items_def dispatched_items_def)
qed

lemma dispatch_inv_fields:
  assumes "dispatch_inv old key (s, w, ps)" "dispatch_fields (mc_state s') = dispatch_fields (mc_state s)"
  shows "dispatch_inv old key (s', w', ps)"
proof -
  have "dispatched_items s' key = dispatched_items s key" "dispatch_list_ok s' = dispatch_list_ok s"
    using assms(2) by (simp_all add: dispatch_list_ok_def dispatched_items_def attempted_items_def dispatch_fields_def)
  with assms(1) show ?thesis by (simp add: dispatch_inv_def)
qed

lemma dispatch_inv_reconcile:
  assumes inv: "dispatch_inv old (dispatch_key sc cx) (s, w, ps)"
    and run: "reconcile s sc cx own transition definitions policies mode observation selection now
      (recorded pub) (carried persist) (w, ps) = (s', (w', ps'), r)"
  shows "dispatch_inv old (dispatch_key sc cx) (s', w', ps')"
proof -
  from inv have "dispatch_list_ok s" by (simp add: dispatch_inv_def)
  then obtain ids where att: "attempted_items (mc_state s) (dispatch_key sc cx) = Some (map PInt ids)"
      "dispatched_items s (dispatch_key sc cx) = set ids" by (rule attempted_ok)
  have "list_all is_int (map PInt ids)" by (simp add: list_all_iff)
  from reconcile_fields [OF run att(1) this]
  consider "ps' = ps" "dispatch_fields (mc_state s') = dispatch_fields (mc_state s)"
    | plan where "ps' = ps @ [plan]" "\<forall>i \<in> plan_items plan. i \<notin> set ids"
      "dispatch_fields (mc_state s') = (PStr (dispatch_key sc cx),
         PList (map PInt (sorted_set (ids @ filter tracked_item (map rc_item (rpl_commands plan))))))"
    by (auto simp: plan_items_def)
  then show ?thesis
  proof cases
    case 1
    with dispatch_inv_fields [OF inv 1(2)] show ?thesis by simp
  next
    case 2
    have now: "dispatched_items s' (dispatch_key sc cx) = set ids \<union> {i \<in> plan_items plan. tracked_item i}" "dispatch_list_ok s'"
      using 2(3) by (auto simp: dispatched_items_def attempted_items_def dispatch_fields_def plan_items_def dispatch_list_ok_def)
    have fresh: "i \<notin> plan_items plan" if "tracked_item i" "p \<in> set ps" "i \<in> plan_items p" for i p
      using inv that 2(2) att(2) by (auto simp: dispatch_inv_def)
    have "length (filter (\<lambda>p. i \<in> plan_items p) ps') \<le> 1" if "tracked_item i" for i
    proof (cases "i \<in> plan_items plan")
      case True
      with fresh [OF that] have "filter (\<lambda>p. i \<in> plan_items p) ps = []" by (auto simp: filter_empty_conv)
      with 2(1) show ?thesis by simp
    next
      case False
      with inv that 2(1) show ?thesis by (simp add: dispatch_inv_def)
    qed
    moreover have "\<forall>p \<in> set ps'. plan_items p \<inter> old = {}"
      using inv 2(1,2) att(2) by (auto simp: dispatch_inv_def)
    ultimately show ?thesis using inv now 2(1) att(2) by (auto simp: dispatch_inv_def)
  qed
qed

lemma trigger_state: "mc_state (trigger s reason) = mc_state s"
  by (cases reason) (simp_all add: trigger_def)

lemma block_state: "mc_state (block_coordinator s why) = mc_state s"
  by (simp add: block_coordinator_def)

lemma admit_state: "admit_context s current dlc why = (s', ok) \<Longrightarrow> mc_state s' = mc_state s"
  by (auto simp: admit_context_def block_coordinator_def split: option.splits if_splits)

lemma poll_state: "poll_completion s present = (s', ok) \<Longrightarrow> mc_state s' = mc_state s"
  by (auto simp: poll_completion_def split: option.splits if_splits)

lemma automatic_state: "mc_state (automatic_step s ev) = mc_state s"
  by (cases ev) (auto simp: reset_automatic_def record_automatic_failure_def record_automatic_success_def
      record_automatic_observation_def Let_def)

lemma invalidate_fields: "dispatch_fields (mc_state (invalidate_completed_ownership s)) = dispatch_fields (mc_state s)"
  by (simp add: invalidate_completed_ownership_def dispatch_fields_def)

lemma dispatch_inv_run:
  assumes "dispatch_run key x y" "dispatch_inv old key x"
  shows "dispatch_inv old key y"
  using assms
proof (induction rule: dispatch_run.induct)
  case (run_reconcile x s w ps sc cx own transition definitions policies mode observation selection now pub persist s' w' ps' r)
  then have "dispatch_inv old (dispatch_key sc cx) (s, w, ps)" by simp
  from dispatch_inv_reconcile [OF this run_reconcile.hyps(3)] run_reconcile.hyps(2) show ?case by simp
next
  case (run_trigger x s w ps reason)
  show ?case by (rule dispatch_inv_fields [OF run_trigger.IH [OF run_trigger.prems]]) (simp only: trigger_state)
next
  case (run_block x s w ps why)
  show ?case by (rule dispatch_inv_fields [OF run_block.IH [OF run_block.prems]]) (simp only: block_state)
next
  case (run_admit x s w ps current dlc why s' ok)
  show ?case by (rule dispatch_inv_fields [OF run_admit.IH [OF run_admit.prems]]) (simp only: admit_state [OF run_admit.hyps(2)])
next
  case (run_invalidate x s w ps)
  show ?case by (rule dispatch_inv_fields [OF run_invalidate.IH [OF run_invalidate.prems]]) (rule invalidate_fields)
next
  case (run_poll x s w ps present s' ok)
  show ?case by (rule dispatch_inv_fields [OF run_poll.IH [OF run_poll.prems]]) (simp only: poll_state [OF run_poll.hyps(2)])
next
  case (run_automatic x s w ps ev)
  show ?case by (rule dispatch_inv_fields [OF run_automatic.IH [OF run_automatic.prems]]) (simp only: automatic_state)
qed simp


definition completion_fields :: "pydict \<Rightarrow> pyval \<times> pyval \<times> pyval" where
  "completion_fields state = (dget state ''completed_key'', dget state ''completed_persistent_key'', dget state ''completed_gate_key_lease'')"

lemma defer_completion:
  assumes "defer_reconcile s cx previous target (carried persist) x = (s', w', r)"
  shows "snd w' = snd x \<and> completion_fields (mc_state s') = completion_fields (mc_state s) \<and> mc_triggers s' = mc_triggers s \<and>
    (\<forall>out. r = Inr out \<longrightarrow> out_plan out = None \<and> \<not> out_complete out)"
  using assms unfolding defer_reconcile_def Let_def
  by (auto simp: completion_fields_def dest!: carried_eq split: prod.splits sum.splits if_splits)

lemma record_dispatch_completion:
  assumes "record_dispatch s sc cx own cross observed lease planned plan attempted selection now (carried persist) x = (s', w', r)"
  shows "snd w' = snd x \<and> (\<forall>out. r = Inr out \<longrightarrow> out_plan out = Some plan \<and> out_error out = None \<and> (out_complete out \<longleftrightarrow> selection = None))"
  using assms unfolding record_dispatch_def Let_def
  by (auto dest!: carried_eq split: prod.splits sum.splits if_splits)

text \<open>A reconciliation never claims more than was published: without a lease nothing is published;
  when the publisher has not accepted the plan, the completion keys are unchanged and no trigger is
  lost; and an outcome carries a plan exactly when that plan was accepted, and completes a transition
  exactly when it was also not restricted to a selection.\<close>

theorem completion_needs_publication:
  assumes "reconcile s sc cx own transition definitions policies mode observation selection now
      (recorded pub) (carried persist) (w, ps) = (s', (w', ps'), r)"
  shows "(ms_lease sc = None \<longrightarrow> ps' = ps) \<and>
    (ps' = ps \<longrightarrow> completion_fields (mc_state s') = completion_fields (mc_state s) \<and> mc_triggers s \<subseteq> mc_triggers s') \<and>
    (\<forall>out. r = Inr out \<longrightarrow> (case out_plan out of
        None \<Rightarrow> ps' = ps \<and> \<not> out_complete out
      | Some plan \<Rightarrow> ps' = ps @ [plan] \<and> out_error out = None \<and> (out_complete out \<longleftrightarrow> selection = None)))"
  using assms unfolding reconcile_def Let_def
  by (auto simp: blocked_outcome_def block_coordinator_def dest!: defer_completion record_dispatch_completion recorded_eq
      split: option.splits sum.splits prod.splits if_splits)

section \<open>Witnesses\<close>

definition empty_plan :: reconciliation_plan where
  "empty_plan = \<lparr>rpl_commands = [], rpl_selections = [], rpl_replayed = 0, rpl_special_stages = 0, rpl_skipped_never = 0,
     rpl_skipped_unproven = 0, rpl_skipped_manual = 0, rpl_entitlements = []\<rparr>"

theorem automatic_ledger_refines_witness:
  "automatic_already_applied (foldl automatic_step (bind_coordinator new_coordinator [] None)
     [Automatic_failed (PStr ''x'') (PInt 3) (PStr ''f''),
      Automatic_published empty_plan PNone (PInt 3) (PStr ''f'') (PInt 0) PNone])
     (PInt 3) (PStr ''f'')"
  by (subst automatic_ledger_refines) (simp_all add: empty_plan_def)

definition accepting :: "unit plan_publisher" where
  "accepting plan w = (w, Inr (True, None))"

definition storing :: "unit document_persister" where
  "storing document w = (w, Inr ())"

lemma sample_reconcile:
  obtains s' plan out where
    "reconcile new_coordinator sample_scope sample_context sample_own None plasma_definitions plasma_policies ''the_crucible''
       (Some (sample_observation MISSING)) None 0 (recorded accepting) (carried storing) ((), []) = (s', ((), [plan]), Inr out)"
    "out_plan out = Some plan"
proof -
  obtain mp where mp: "compile_materialization_plan sample_own sample_context sample_scope plasma_definitions plasma_policies
     ''the_crucible'' (Some (sample_observation MISSING)) None = Inr mp"
    using sample_materialization by blast
  have att: "attempted_items [] k = Some []" for k by (simp add: attempted_items_def dget_def)
  show thesis
    by (rule that, simp add: reconcile_def mp att sample_scope_def new_coordinator_def Let_def recorded_def accepting_def
        record_dispatch_def carried_def storing_def mp [unfolded sample_scope_def], simp)
qed


theorem completion_needs_publication_witness:
  "\<exists>s' plan out. reconcile new_coordinator sample_scope sample_context sample_own None plasma_definitions plasma_policies ''the_crucible''
       (Some (sample_observation MISSING)) None 0 (recorded accepting) (carried storing) ((), []) = (s', ((), [plan]), Inr out) \<and>
     out_complete out \<and> out_error out = None"
proof -
  obtain s' plan out where r: "reconcile new_coordinator sample_scope sample_context sample_own None plasma_definitions plasma_policies ''the_crucible''
       (Some (sample_observation MISSING)) None 0 (recorded accepting) (carried storing) ((), []) = (s', ((), [plan]), Inr out)"
    and out: "out_plan out = Some plan"
    by (rule sample_reconcile)
  from completion_needs_publication [OF r] out r show ?thesis by auto
qed
end
