(* ===== verification/Receipt_Delivery.thy ===== *)
theory Receipt_Delivery
  imports Reconciliation_Plan Receipt_Ledger Command_Spool
begin

text \<open>
  Receipt feedback policy and the resumable publication of receipt commands, from
  \<open>doom_eap/runtime/receipt_delivery.py\<close>, \<open>runtime/receipt_publication.py\<close> and
  \<open>contracts/receipt_delivery.py\<close>. The state is the session document that the client binds;
  publication and persistence are functions on a world and may raise.
\<close>

section \<open>Feedback policy\<close>

definition NEW_RECEIPT :: string where "NEW_RECEIPT = ''new_receipt''"
definition HISTORICAL_OWNERSHIP :: string where "HISTORICAL_OWNERSHIP = ''historical_ownership''"
definition RECONCILIATION_REPAIR :: string where "RECONCILIATION_REPAIR = ''reconciliation_repair''"
definition PRESENTATION_REPAIR :: string where "PRESENTATION_REPAIR = ''presentation_repair''"

record receipt_intent =
  ri_item :: int
  ri_index :: "int option" \<comment> \<open>\<open>None\<close> also stands for a value that is no integer\<close>
  ri_intent :: string
  ri_notification :: "bool option"
  ri_classification :: pyval
  ri_suppress :: bool

record receipt_facts =
  rf_owned :: "int option"
  rf_boundary :: int
  rf_source :: pyval
  rf_checked_ready :: bool
  rf_checked :: "int set"
  rf_local :: "int set"
  rf_placements :: "int set"

definition notification_slot :: "receipt_facts \<Rightarrow> string option" where
  "notification_slot f = (case rf_owned f of
     Some n \<Rightarrow> if n \<noteq> 0 then Some (if (n - 1) mod 2 = 0 then ''a'' else ''b'') else None
   | None \<Rightarrow> None)"

definition requires_progressive_observation :: "receipt_intent \<Rightarrow> (int \<times> pyval) list \<Rightarrow> bool" where
  "requires_progressive_observation r definitions \<longleftrightarrow>
     ri_intent r \<in> {NEW_RECEIPT, RECONCILIATION_REPAIR, PRESENTATION_REPAIR} \<and>
     (case map_of definitions (ri_item r) of
        Some (PDict d) \<Rightarrow> dget d ''type'' \<in> {PStr ''progressive_perk'', PStr ''progressive_item''}
      | _ \<Rightarrow> False) \<and> ri_index r \<noteq> None"

definition suppress_local_toast :: "receipt_intent \<Rightarrow> receipt_facts \<Rightarrow> bool" where
  "suppress_local_toast r f =
     (if ri_intent r \<noteq> NEW_RECEIPT then False
      else case ri_index r of
        None \<Rightarrow> False
      | Some k \<Rightarrow>
         (if k < rf_boundary f then False
          else case rf_source f of
            PInt l \<Rightarrow> (if l \<le> 0 \<or> \<not> rf_checked_ready f then False
                      else l \<in> rf_checked f \<and> l \<in> rf_local f \<and> l \<in> rf_placements f)
          | _ \<Rightarrow> False))"

record receipt_plan =
  rp_commands :: "string list option"
  rp_description :: string

definition compile_receipt_plan :: "receipt_intent \<Rightarrow> receipt_facts \<Rightarrow> int option \<Rightarrow> (int \<times> pyval) list
    \<Rightarrow> (int \<times> replay_policy) list \<Rightarrow> (int \<Rightarrow> pyval) \<Rightarrow> receipt_plan res" where
  "compile_receipt_plan r f stage definitions policies classifications =
     (if ri_intent r \<notin> {NEW_RECEIPT, HISTORICAL_OWNERSHIP, RECONCILIATION_REPAIR, PRESENTATION_REPAIR}
      then Inr \<lparr>rp_commands = None, rp_description = ''unsupported item delivery intent''\<rparr>
      else if ri_intent r = HISTORICAL_OWNERSHIP
      then Inr \<lparr>rp_commands = Some [], rp_description = ''historical ownership observed''\<rparr>
      else
       (let wanted = (ri_intent r = NEW_RECEIPT \<and> (case ri_notification r of None \<Rightarrow> True | Some b \<Rightarrow> b)) in
        bind_res (if \<not> wanted then Inr False
          else case map_of policies (ri_item r) of None \<Rightarrow> Inl (KeyError ''item'')
            | Some p \<Rightarrow> Inr (rp_feedback p = AP_RECEIPT_FEEDBACK))
         (\<lambda>receipt1.
           let receipt2 = (if ri_suppress r \<and> suppress_local_toast r f then False else receipt1);
               receipt3 = (if receipt2 \<and> notification_slot f = None then False else receipt2);
               classification = (if receipt3 \<and> ri_classification r = PNone
                 then classifications (ri_item r) else ri_classification r)
           in case compile_item_delivery_plan (ri_item r) definitions stage receipt3 classification
                    (if receipt3 then notification_slot f else None) of
                Inr plan \<Rightarrow> Inr \<lparr>rp_commands = Some (map dc_command (dp_commands plan)),
                                rp_description = dp_description plan\<rparr>
              | Inl e \<Rightarrow> (if exn_type e = ''ValueError''
                  then Inr \<lparr>rp_commands = None, rp_description = exn_message e\<rparr> else Inl e))))"

definition base_special_receipt_allowed :: "int \<Rightarrow> string \<Rightarrow> string \<Rightarrow> bool" where
  "base_special_receipt_allowed i campaign mode =
     (if campaign \<noteq> ''Base'' then False
      else if mode \<in> {''the_crucible'', ''The Crucible''} then i = 7770007
      else if mode \<in> {''progressive_special_weapon'', ''Progressive Special Weapon''} then i = 7770901
      else if mode \<in> {''progressive_sentinel_hammer'', ''Progressive Sentinel Hammer''} then i = 7770902
      else False)"

section \<open>Command identifiers of receipts\<close>

definition zero_pad :: "nat \<Rightarrow> string \<Rightarrow> string" where
  "zero_pad n s = replicate (n - length s) CHR ''0'' @ s"

definition receipt_command_id :: "pyval \<Rightarrow> int \<Rightarrow> nat \<Rightarrow> nat \<Rightarrow> string \<Rightarrow> string res" where
  "receipt_command_id state_key i item_index command_index command =
     (let sfx = (if starts_with command ''ai_ScriptCmdEnt ap_notify_item_'' then ''notify''
                 else ''effect-'' @ zero_pad 2 (str_nat command_index))
      in case queue_session_namespace state_key of
           None \<Rightarrow> Inl (RuntimeError ''cannot create receipt command without active AP identity'')
         | Some ns \<Rightarrow> Inr (''recv-'' @ ns @ ''-'' @ zero_pad 6 (str_nat item_index) @ ''-item-''
                @ str_int i @ ''-'' @ sfx))"

section \<open>Mapping repair\<close>

text \<open>\<open>int(v)\<close> of a stored value; a normalized session holds integers.\<close>

fun as_int :: "pyval \<Rightarrow> int res" where
  "as_int (PInt i) = Inr i"
| "as_int (PBool b) = Inr (of_bool b)"
| "as_int (PStr s) = (case py_int s of None \<Rightarrow> Inl (ValueError ''invalid literal for int()'') | Some i \<Rightarrow> Inr i)"
| "as_int _ = Inl (TypeError ''int() argument must be a string or a number'')"

datatype mapping_repair = Repair_done | Repair_deferred | Repair_complete | Repair_item nat int

definition reset_delivery :: "pydict \<Rightarrow> int \<Rightarrow> pydict" where
  "reset_delivery state revision =
     dpop ''item_command_groups'' (dpop ''mapping_repair_indices''
       (dset ''item_mapping_revision'' (PInt revision) (dset ''receipt_notifications'' (PDict []) state)))"

definition repaired_indices :: "pydict \<Rightarrow> int list res" where
  "repaired_indices state =
     (case dget_or state ''mapping_repair_indices'' (PList []) of
        PList vs \<Rightarrow> map_res as_int vs
      | _ \<Rightarrow> Inl (TypeError ''object is not iterable''))"

fun first_repair :: "int set \<Rightarrow> int set \<Rightarrow> nat \<Rightarrow> int list \<Rightarrow> mapping_repair" where
  "first_repair repair_ids repaired k [] = Repair_complete"
| "first_repair repair_ids repaired k (i # is) =
     (if i \<in> repair_ids \<and> int k \<notin> repaired then Repair_item k i
      else first_repair repair_ids repaired (k + 1) is)"

definition next_mapping_repair :: "pydict \<Rightarrow> int list \<Rightarrow> nat \<Rightarrow> int \<Rightarrow> (int \<times> int list) list
    \<Rightarrow> mapping_repair res" where
  "next_mapping_repair state item_ids boundary revision repaired_items =
     bind_res (as_int (dget_or state ''item_mapping_revision'' (PInt 0))) (\<lambda>current.
       if current \<ge> revision then Inr Repair_done
       else if length item_ids < boundary then Inr Repair_deferred
       else bind_res (repaired_indices state) (\<lambda>repaired.
         Inr (first_repair (set (concat (map snd (filter (\<lambda>(m, _). current < m) repaired_items))))
                (set repaired) 0 (take boundary item_ids))))"

definition record_mapping_repair :: "pydict \<Rightarrow> nat \<Rightarrow> pydict res" where
  "record_mapping_repair state k =
     bind_res (repaired_indices state) (\<lambda>repaired.
       Inr (dset ''mapping_repair_indices'' (PList (map PInt (sorted_set (repaired @ [int k])))) state))"

definition finish_mapping_repair :: "pydict \<Rightarrow> int \<Rightarrow> pydict" where
  "finish_mapping_repair state revision =
     dpop ''mapping_repair_indices'' (dset ''item_mapping_revision'' (PInt revision) state)"

section \<open>Publication of one receipt\<close>

type_synonym 'w publisher = "'w \<Rightarrow> string \<Rightarrow> nat \<Rightarrow> 'w \<times> bool res" \<comment> \<open>command and ordinal\<close>
type_synonym 'w persister = "'w \<Rightarrow> pydict \<Rightarrow> 'w \<times> unit res"

definition deferred_notification :: "pydict \<Rightarrow> receipt_plan \<Rightarrow> int \<Rightarrow> nat \<Rightarrow> string \<Rightarrow> 'w publisher \<Rightarrow> 'w persister
    \<Rightarrow> 'w \<Rightarrow> pydict \<times> 'w \<times> (bool \<times> string) res" where
  "deferred_notification state plan i item_index command_id pub persist w =
     (case rp_commands plan of
        None \<Rightarrow> (state, w, Inr (False, rp_description plan))
      | Some commands \<Rightarrow>
         (case find (\<lambda>c. starts_with c ''ai_ScriptCmdEnt ap_notify_item_'') commands of
            None \<Rightarrow> (state, w, Inr (True, ''no local notification generated''))
          | Some c \<Rightarrow>
             (case dget_or state ''receipt_notifications'' (PDict []) of
                PDict notes \<Rightarrow>
                  (let s1 = dset ''receipt_notifications'' (PDict notes) state; key = str_nat item_index in
                   if truthy (dget notes key) then (s1, w, Inr (True, ''local notification already queued''))
                   else case pub w c 0 of
                     (w1, Inl e) \<Rightarrow> (s1, w1, Inl e)
                   | (w1, Inr False) \<Rightarrow> (s1, w1, Inr (False, ''failed to spool '' @ command_id))
                   | (w1, Inr True) \<Rightarrow>
                      (let s2 = dset ''receipt_notifications'' (PDict (dset key
                             (PDict [(''item_id'', PInt i), (''command_id'', PStr command_id)]) notes)) s1
                       in case persist w1 s2 of
                            (w2, Inl e) \<Rightarrow> (s2, w2, Inl e)
                          | (w2, Inr u) \<Rightarrow> (s2, w2, Inr (True, rp_description plan))))
              | _ \<Rightarrow> (state, w, Inl (Exn ''AttributeError'' ''get'')))))"

text \<open>The group of a receipt inside the state.\<close>

definition command_groups :: "pydict \<Rightarrow> pydict" where
  "command_groups state = the_dict (dget_or state ''item_command_groups'' (PDict []))"

definition put_group :: "string \<Rightarrow> pydict \<Rightarrow> pydict \<Rightarrow> pydict" where
  "put_group key grp state =
     dset ''item_command_groups'' (PDict (dset key (PDict grp) (command_groups state))) state"

definition drop_group :: "string \<Rightarrow> pydict \<Rightarrow> pydict" where
  "drop_group key state =
     (let groups = dpop key (command_groups state) in
      if groups = [] then dpop ''item_command_groups'' state
      else dset ''item_command_groups'' (PDict groups) state)"

definition group_progress :: "int \<Rightarrow> nat \<Rightarrow> pydict \<Rightarrow> pydict" where
  "group_progress next_command size_all grp =
     dset ''total_commands'' (PInt (int size_all)) (dset ''next_command'' (PInt next_command) grp)"

text \<open>The loop over the commands that are left.\<close>

fun spool_loop :: "string \<Rightarrow> string list \<Rightarrow> nat \<Rightarrow> string list \<Rightarrow> pydict \<Rightarrow> 'w publisher \<Rightarrow> 'w persister
    \<Rightarrow> pydict \<Rightarrow> 'w \<Rightarrow> pydict \<times> pydict \<times> 'w \<times> bool res" where
  "spool_loop key commands ordinal [] grp pub persist state w = (state, grp, w, Inr True)"
| "spool_loop key commands ordinal (c # cs) grp pub persist state w =
     (case pub w c ordinal of
        (w1, Inl e) \<Rightarrow> (state, grp, w1, Inl e)
      | (w1, Inr False) \<Rightarrow> (state, grp, w1, Inr False)
      | (w1, Inr True) \<Rightarrow>
         (let group1 = group_progress (int ordinal + 1) (length commands) grp;
              state1 = put_group key group1 state
          in case persist w1 state1 of
               (w2, Inl e) \<Rightarrow>
                 (let group2 = dset ''next_command'' (PInt (int ordinal)) group1
                  in (put_group key group2 state1, group2, w2, Inl e))
             | (w2, Inr u) \<Rightarrow>
                 spool_loop key commands (ordinal + 1) cs group1 pub persist state1 w2))"

definition spool :: "pydict \<Rightarrow> receipt_plan \<Rightarrow> int \<Rightarrow> nat \<Rightarrow> 'w publisher \<Rightarrow> 'w persister \<Rightarrow> 'w
    \<Rightarrow> pydict \<times> 'w \<times> (bool \<times> string) res" where
  "spool state plan i item_index pub persist w =
     (case rp_commands plan of
        None \<Rightarrow> (state, w, Inr (False, rp_description plan))
      | Some commands \<Rightarrow>
         (let key = str_nat item_index;
              fresh = [(''item_id'', PInt i), (''next_command'', PInt 0),
                       (''total_commands'', PInt (int (length commands)))];
              stored = dget_or (command_groups state) key (PDict fresh)
          in if \<not> is_dict (dget_or state ''item_command_groups'' (PDict [])) \<or> \<not> is_dict stored
             then (state, w, Inl (Exn ''AttributeError'' ''setdefault''))
             else
              (let grp = the_dict stored; state1 = put_group key grp state in
               if dget grp ''item_id'' \<noteq> PInt i
               then (state1, w, Inr (False, ''stored command group belongs to a different item''))
               else case as_int (dget_or grp ''next_command'' (PInt 0)) of
                 Inl e \<Rightarrow> (state1, w, Inl e)
               | Inr n \<Rightarrow>
                  (if n < 0 \<or> n > int (length commands)
                   then (state1, w, Inr (False, ''stored command group index is invalid''))
                   else case spool_loop key commands (nat n) (drop (nat n) commands) grp pub persist state1 w of
                     (state2, group2, w2, Inl e) \<Rightarrow> (state2, w2, Inl e)
                   | (state2, group2, w2, Inr False) \<Rightarrow> (state2, w2, Inr (False, rp_description plan))
                   | (state2, group2, w2, Inr True) \<Rightarrow>
                      (let state3 = drop_group key state2 in
                       case persist w2 state3 of
                         (w3, Inl e) \<Rightarrow> (put_group key group2 state3, w3, Inl e)
                       | (w3, Inr u) \<Rightarrow> (state3, w3, Inr (True, rp_description plan)))))))"

section \<open>Progress survives refusals, exceptions and restarts\<close>

definition stored_group :: "pydict \<Rightarrow> string \<Rightarrow> pyval option" where
  "stored_group state key = map_of (command_groups state) key"

definition next_of :: "pydict \<Rightarrow> pyval" where
  "next_of g = dget_or g ''next_command'' (PInt 0)"

text \<open>A stored group is honest when every command below its index is queued.\<close>

definition honest_group :: "(nat \<Rightarrow> bool) \<Rightarrow> int \<Rightarrow> nat \<Rightarrow> pyval \<Rightarrow> bool" where
  "honest_group queued i n v \<longleftrightarrow> (\<exists>g m. v = PDict g \<and> dget g ''item_id'' = PInt i \<and> m \<le> n \<and>
     next_of g = PInt (int m) \<and> (\<forall>j < m. queued j))"

definition honest :: "(nat \<Rightarrow> bool) \<Rightarrow> int \<Rightarrow> nat \<Rightarrow> string \<Rightarrow> pydict \<Rightarrow> bool" where
  "honest queued i n key state \<longleftrightarrow> is_dict (dget_or state ''item_command_groups'' (PDict [])) \<and>
     (case stored_group state key of None \<Rightarrow> True | Some v \<Rightarrow> honest_group queued i n v)"

lemma stored_group_put [simp]: "stored_group (put_group key g state) key = Some (PDict g)"
  by (simp add: stored_group_def put_group_def command_groups_def map_of_update)

lemma put_group_is_dict [simp]: "is_dict (dget_or (put_group key g state) ''item_command_groups'' d)"
  by (simp add: put_group_def)

lemma drop_group_gone:
  "stored_group (drop_group key state) key = None \<and>
   is_dict (dget_or (drop_group key state) ''item_command_groups'' (PDict []))"
proof -
  have "dget_or (dpop ''item_command_groups'' state) ''item_command_groups'' (PDict []) = PDict []"
    by (simp add: dget_or_def map_of_delete)
  then show ?thesis
    by (simp add: stored_group_def drop_group_def command_groups_def map_of_delete Let_def)
qed

lemma honest_mono: "honest q i n key state \<Longrightarrow> (\<And>j. q j \<Longrightarrow> q' j) \<Longrightarrow> honest q' i n key state"
  by (auto simp: honest_def honest_group_def split: option.splits)

lemma honest_put:
  "dget g ''item_id'' = PInt i \<Longrightarrow> next_of g = PInt (int m) \<Longrightarrow> m \<le> n \<Longrightarrow> \<forall>j < m. q j \<Longrightarrow>
     honest q i n key (put_group key g state)"
  by (auto simp: honest_def honest_group_def)

lemma honest_dropped: "honest q i n key (drop_group key state)"
  using drop_group_gone by (simp add: honest_def)

lemma next_of_dset [simp]: "next_of (dset ''next_command'' v g) = v"
  by (simp add: next_of_def)

lemma group_progress_simps [simp]:
  "next_of (group_progress m t g) = PInt m"
  "dget (group_progress m t g) ''item_id'' = dget g ''item_id''"
  by (simp_all add: group_progress_def next_of_def)

locale resumable_publication =
  fixes pub :: "'w publisher" and persist :: "'w persister"
    and commands :: "string list" and queued :: "'w \<Rightarrow> nat \<Rightarrow> bool"
    and saved :: "'w \<Rightarrow> pydict" and good :: "'w \<Rightarrow> bool"
  assumes pub_good: "good w \<Longrightarrow> k < length commands \<Longrightarrow> pub w (commands ! k) k = (w', r) \<Longrightarrow> good w'"
    and pub_keeps: "good w \<Longrightarrow> k < length commands \<Longrightarrow> pub w (commands ! k) k = (w', r) \<Longrightarrow>
      queued w j \<Longrightarrow> queued w' j"
    and pub_saved: "good w \<Longrightarrow> k < length commands \<Longrightarrow> pub w (commands ! k) k = (w', r) \<Longrightarrow> saved w' = saved w"
    and pub_queued: "good w \<Longrightarrow> k < length commands \<Longrightarrow> pub w (commands ! k) k = (w', Inr True) \<Longrightarrow> queued w' k"
    and persist_good: "good w \<Longrightarrow> persist w s = (w', r') \<Longrightarrow> good w'"
    and persist_keeps: "good w \<Longrightarrow> persist w s = (w', r') \<Longrightarrow> queued w j \<Longrightarrow> queued w' j"
    and persist_ok: "good w \<Longrightarrow> persist w s = (w', Inr u) \<Longrightarrow> saved w' = s"
    and persist_failed: "good w \<Longrightarrow> persist w s = (w', Inl e) \<Longrightarrow> saved w' = saved w"
begin

abbreviation honest_in :: "'w \<Rightarrow> int \<Rightarrow> string \<Rightarrow> pydict \<Rightarrow> bool" where
  "honest_in w i key s \<equiv> honest (queued w) i (length commands) key s"

lemma spool_loop_safe:
  assumes "good w" and "honest_in w i key (saved w)" and "cs = drop k commands" and "k \<le> length commands"
    and "dget g ''item_id'' = PInt i" and "next_of g = PInt (int k)" and "\<forall>j < k. queued w j"
    and "stored_group state key = Some (PDict g)"
    and "is_dict (dget_or state ''item_command_groups'' (PDict []))"
    and "spool_loop key commands k cs g pub persist state w = (state', g', w', r)"
  shows "good w' \<and> honest_in w' i key (saved w') \<and> honest_in w' i key state' \<and>
    stored_group state' key = Some (PDict g') \<and> dget g' ''item_id'' = PInt i \<and>
    (\<exists>m. next_of g' = PInt (int m) \<and> m \<le> length commands \<and> (\<forall>j < m. queued w' j) \<and>
      (r = Inr True \<longrightarrow> m = length commands))"
  using assms
proof (induction cs arbitrary: k g state w)
  case Nil
  then have "k = length commands" by simp
  with Nil show ?case
    by (auto simp: honest_def honest_group_def)
next
  case (Cons c cs)
  from Cons.prems(3,4) have k: "k < length commands" "c = commands ! k" "cs = drop (Suc k) commands"
    by (metis drop_all linorder_not_le list.distinct(1), metis Cons_nth_drop_Suc drop_all linorder_not_le
        list.distinct(1) list.inject, metis drop_Suc list.sel(3) tl_drop)
  obtain w1 p where pub: "pub w (commands ! k) k = (w1, p)" by fastforce
  note p1 = pub_good [OF Cons.prems(1) k(1) pub] pub_saved [OF Cons.prems(1) k(1) pub]
  have keep1: "queued w j \<Longrightarrow> queued w1 j" for j using pub_keeps [OF Cons.prems(1) k(1) pub] .
  have saved1: "honest_in w1 i key (saved w1)"
    using Cons.prems(2) keep1 p1(2) by (metis honest_mono)
  have state1: "honest_in w1 i key state"
    using Cons.prems keep1 by (auto simp: honest_def honest_group_def intro!: exI [of _ k])
  show ?case
  proof (cases "p = Inr True")
    case False
    with Cons.prems(10) pub k(2) have "state' = state" "g' = g" "w' = w1" "r \<noteq> Inr True"
      by (auto split: sum.splits bool.splits)
    with p1 saved1 state1 Cons.prems keep1 k(1) show ?thesis by auto
  next
    case True
    define g1 where "g1 = group_progress (int k + 1) (length commands) g"
    define s1 where "s1 = put_group key g1 state"
    obtain w2 q where per: "persist w1 s1 = (w2, q)" by fastforce
    have good2: "good w2" using persist_good [OF p1(1) per] .
    have keep2: "queued w1 j \<Longrightarrow> queued w2 j" for j using persist_keeps [OF p1(1) per] .
    have upto: "\<forall>j < Suc k. queued w2 j"
      using Cons.prems(7) keep1 keep2 pub_queued [OF Cons.prems(1) k(1)] pub True by (auto simp: less_Suc_eq)
    have g1: "dget g1 ''item_id'' = PInt i" "next_of g1 = PInt (int (Suc k))"
      using Cons.prems(5) by (simp_all add: g1_def)
    have s1: "honest_in w2 i key s1"
      using honest_put [OF g1, of "length commands" "queued w2" key state] k(1) upto by (simp add: s1_def)
    show ?thesis
    proof (cases q)
      case (Inl e)
      define g2 where "g2 = dset ''next_command'' (PInt (int k)) g1"
      from Cons.prems(10) pub k(2) True per Inl have res: "state' = put_group key g2 s1" "g' = g2"
        "w' = w2" "r = Inl e"
        by (auto simp: g1_def s1_def g2_def Let_def)
      have g2: "dget g2 ''item_id'' = PInt i" "next_of g2 = PInt (int k)"
        using g1(1) by (simp_all add: g2_def)
      have "honest_in w2 i key (put_group key g2 s1)"
        by (rule honest_put [OF g2]) (use k(1) upto in auto)
      moreover have "honest_in w2 i key (saved w2)"
        using saved1 keep2 persist_failed [OF p1(1)] per Inl by (metis honest_mono)
      ultimately show ?thesis using res good2 g2 upto k(1) by auto
    next
      case (Inr u)
      have sv: "honest_in w2 i key (saved w2)" using persist_ok [OF p1(1)] per Inr s1 by simp
      from Cons.prems(10) pub k(2) True per Inr
      have rest: "spool_loop key commands (Suc k) cs g1 pub persist s1 w2 = (state', g', w', r)"
        by (simp add: g1_def s1_def Let_def)
      show ?thesis
        by (rule Cons.IH [OF good2 sv k(3) _ g1 upto _ _ rest]) (use k(1) in \<open>simp_all add: s1_def\<close>)
    qed
  qed
qed

text \<open>One call of \<open>spool\<close>: whatever happens, the document in memory and the document on disk
  stay honest, and a successful call has queued every command.\<close>

lemma spool_safe:
  assumes "good w" and "honest_in w i (str_nat k) (saved w)" and "honest_in w i (str_nat k) state"
    and "rp_commands plan = Some commands"
    and "spool state plan i k pub persist w = (state', w', r)"
  shows "good w' \<and> honest_in w' i (str_nat k) (saved w') \<and> honest_in w' i (str_nat k) state' \<and>
    (\<forall>d. r = Inr (True, d) \<longrightarrow> (\<forall>j < length commands. queued w' j) \<and> saved w' = state' \<and>
       stored_group state' (str_nat k) = None)"
proof -
  let ?key = "str_nat k"
  define fresh where "fresh = [(''item_id'', PInt i), (''next_command'', PInt 0),
                       (''total_commands'', PInt (int (length commands)))]"
  define stored where "stored = dget_or (command_groups state) ?key (PDict fresh)"
  have dict: "is_dict (dget_or state ''item_command_groups'' (PDict []))"
    using assms(3) by (simp add: honest_def)
  have st: "honest_group (queued w) i (length commands) stored"
  proof (cases "stored_group state ?key")
    case None
    then have "stored = PDict fresh" by (simp add: stored_def dget_or_def stored_group_def)
    then show ?thesis
      by (auto simp: honest_group_def fresh_def next_of_def dget_def dget_or_def intro!: exI [of _ "0::nat"])
  next
    case (Some v)
    then have "stored = v" by (simp add: stored_def dget_or_def stored_group_def)
    with assms(3) Some show ?thesis by (simp add: honest_def)
  qed
  then obtain g m where g: "stored = PDict g" "dget g ''item_id'' = PInt i" "next_of g = PInt (int m)"
    and m: "m \<le> length commands" "\<forall>j < m. queued w j"
    by (auto simp: honest_group_def)
  obtain s2 g2 w2 r2 where loop: "spool_loop ?key commands m (drop m commands) g pub persist
      (put_group ?key g state) w = (s2, g2, w2, r2)" by (metis prod_cases4)
  have *: "good w2 \<and> honest_in w2 i ?key (saved w2) \<and> honest_in w2 i ?key s2 \<and>
    stored_group s2 ?key = Some (PDict g2) \<and> dget g2 ''item_id'' = PInt i \<and>
    (\<exists>m. next_of g2 = PInt (int m) \<and> m \<le> length commands \<and> (\<forall>j < m. queued w2 j) \<and>
      (r2 = Inr True \<longrightarrow> m = length commands))"
    by (rule spool_loop_safe [OF assms(1,2) refl m(1) g(2,3) m(2) _ _ loop]) simp_all
  have run: "spool state plan i k pub persist w =
    (case r2 of Inl e \<Rightarrow> (s2, w2, Inl e) | Inr False \<Rightarrow> (s2, w2, Inr (False, rp_description plan))
     | Inr True \<Rightarrow> (case persist w2 (drop_group ?key s2) of
          (w3, Inl e) \<Rightarrow> (put_group ?key g2 (drop_group ?key s2), w3, Inl e)
        | (w3, Inr u) \<Rightarrow> (drop_group ?key s2, w3, Inr (True, rp_description plan))))"
    using assms(4) dict g m(1) loop
    by (simp add: spool_def Let_def fresh_def [symmetric] stored_def [symmetric] next_of_def [symmetric]
        split: sum.split bool.split)
  show ?thesis
  proof (cases "r2 = Inr True")
    case False
    with run assms(5) * show ?thesis by (auto split: sum.splits bool.splits)
  next
    case True
    with * have m2: "next_of g2 = PInt (int (length commands))" "\<forall>j < length commands. queued w2 j" by auto
    obtain w3 q where per: "persist w2 (drop_group ?key s2) = (w3, q)" by fastforce
    have good3: "good w3" using persist_good per * by blast
    have keep: "queued w2 j \<Longrightarrow> queued w3 j" for j using persist_keeps per * by blast
    have all: "\<forall>j < length commands. queued w3 j" using m2(2) keep by blast
    show ?thesis
    proof (cases q)
      case (Inl e)
      have "honest_in w3 i ?key (saved w3)"
        using * keep persist_failed per Inl by (metis honest_mono)
      moreover have "honest_in w3 i ?key (put_group ?key g2 (drop_group ?key s2))"
        by (rule honest_put [OF _ m2(1)]) (use * all in auto)
      ultimately show ?thesis using run assms(5) True per Inl good3 by auto
    next
      case (Inr u)
      have "saved w3 = drop_group ?key s2" using persist_ok per Inr * by blast
      with run assms(5) True per Inr good3 all honest_dropped drop_group_gone show ?thesis by auto
    qed
  qed
qed

end

section \<open>The room's spool and the state file\<close>

record delivery_world =
  dw_spool :: spool_world
  dw_disk :: pydict \<comment> \<open>the session as last written\<close>
  dw_writes :: nat
  dw_fails :: "nat \<Rightarrow> bool" \<comment> \<open>which writes of the state file raise\<close>

definition room_publisher :: "string \<Rightarrow> string \<Rightarrow> int \<Rightarrow> nat \<Rightarrow> delivery_world publisher" where
  "room_publisher key uuid i k w c ordinal =
     (case receipt_command_id (PStr key) i k ordinal c of
        Inl e \<Rightarrow> (w, Inl e)
      | Inr cid \<Rightarrow> (case room_send key uuid (dw_spool w) c cid of
          (s, ok) \<Rightarrow> (w\<lparr>dw_spool := s\<rparr>, Inr ok)))"

definition write_session :: "delivery_world persister" where
  "write_session w state =
     (let w1 = w\<lparr>dw_writes := dw_writes w + 1\<rparr> in
      if dw_fails w (dw_writes w) then (w1, Inl (Exn ''OSError'' ''write''))
      else (w1\<lparr>dw_disk := state\<rparr>, Inr ()))"

definition receipt_queued :: "string \<Rightarrow> int \<Rightarrow> nat \<Rightarrow> string list \<Rightarrow> delivery_world \<Rightarrow> nat \<Rightarrow> bool" where
  "receipt_queued key i k commands w j \<longleftrightarrow>
     (case receipt_command_id (PStr key) i k j (commands ! j) of
        Inl e \<Rightarrow> False | Inr cid \<Rightarrow> room_pending key (dw_spool w) cid)"

lemma receipt_command_id_nonempty: "receipt_command_id sk i k j c = Inr cid \<Longrightarrow> cid \<noteq> []"
  by (auto simp: receipt_command_id_def split: option.splits)

lemma room_publisher_cases:
  assumes "room_publisher key uuid i k w c m = (w', r)"
  shows "(\<exists>e. w' = w \<and> r = Inl e) \<or>
    (\<exists>cid s ok. receipt_command_id (PStr key) i k m c = Inr cid \<and> cid \<noteq> [] \<and>
       room_send key uuid (dw_spool w) c cid = (s, ok) \<and> w' = w\<lparr>dw_spool := s\<rparr> \<and> r = Inr ok)"
proof (cases "receipt_command_id (PStr key) i k m c")
  case (Inl e)
  with assms show ?thesis by (auto simp: room_publisher_def)
next
  case (Inr cid)
  obtain s ok where "room_send key uuid (dw_spool w) c cid = (s, ok)" by fastforce
  with assms Inr receipt_command_id_nonempty [OF Inr] show ?thesis by (auto simp: room_publisher_def)
qed

lemma receipt_queued_iff:
  "receipt_queued key i k commands w j \<longleftrightarrow>
     (\<exists>cid. receipt_command_id (PStr key) i k j (commands ! j) = Inr cid \<and> room_pending key (dw_spool w) cid)"
  by (simp add: receipt_queued_def split: sum.splits)

lemma room_publisher_safe:
  assumes ready: "room_ready key uuid (dw_spool w)"
    and pub: "room_publisher key uuid i k w c m = (w', r)"
  shows "room_ready key uuid (dw_spool w')" "dw_disk w' = dw_disk w"
    "receipt_queued key i k commands w j \<Longrightarrow> receipt_queued key i k commands w' j"
    "r = Inr True \<Longrightarrow> c = commands ! m \<Longrightarrow> receipt_queued key i k commands w' m"
proof -
  have "room_ready key uuid (dw_spool w') \<and> dw_disk w' = dw_disk w \<and>
    (receipt_queued key i k commands w j \<longrightarrow> receipt_queued key i k commands w' j) \<and>
    (r = Inr True \<longrightarrow> c = commands ! m \<longrightarrow> receipt_queued key i k commands w' m)"
    using room_publisher_cases [OF pub]
  proof (elim disjE exE conjE)
    fix cid s ok
    assume cid: "receipt_command_id (PStr key) i k m c = Inr cid" "cid \<noteq> []"
      and send: "room_send key uuid (dw_spool w) c cid = (s, ok)"
      and w': "w' = w\<lparr>dw_spool := s\<rparr>" "r = Inr ok"
    note port = room_port.send_cases [OF ready cid(2) send]
    from cid port w' show ?thesis by (auto simp: receipt_queued_iff)
  qed (use ready in auto)
  then show "room_ready key uuid (dw_spool w')" "dw_disk w' = dw_disk w"
    "receipt_queued key i k commands w j \<Longrightarrow> receipt_queued key i k commands w' j"
    "r = Inr True \<Longrightarrow> c = commands ! m \<Longrightarrow> receipt_queued key i k commands w' m" by blast+
qed

interpretation room_delivery: resumable_publication "room_publisher key uuid i k" write_session commands
    "receipt_queued key i k commands" dw_disk "\<lambda>w. room_ready key uuid (dw_spool w)"
  for key uuid i k commands
proof
  fix w w' :: delivery_world and m j r r' u e s
  assume ready: "room_ready key uuid (dw_spool w)"
  show "room_ready key uuid (dw_spool w')"
    if "room_publisher key uuid i k w (commands ! m) m = (w', r)"
    by (rule room_publisher_safe(1) [OF ready that])
  show "receipt_queued key i k commands w' j"
    if "room_publisher key uuid i k w (commands ! m) m = (w', r)" "receipt_queued key i k commands w j"
    by (rule room_publisher_safe(3) [OF ready that])
  show "dw_disk w' = dw_disk w"
    if "room_publisher key uuid i k w (commands ! m) m = (w', r)"
    by (rule room_publisher_safe(2) [OF ready that])
  show "receipt_queued key i k commands w' m"
    if "room_publisher key uuid i k w (commands ! m) m = (w', Inr True)"
    by (rule room_publisher_safe(4) [OF ready that refl refl])
  show "room_ready key uuid (dw_spool w')" if "write_session w s = (w', r')"
    using that ready by (auto simp: write_session_def Let_def split: if_splits)
  show "receipt_queued key i k commands w' j" if "write_session w s = (w', r')" "receipt_queued key i k commands w j"
    using that by (auto simp: write_session_def receipt_queued_def Let_def split: if_splits sum.splits)
  show "dw_disk w' = s" if "write_session w s = (w', Inr u)"
    using that by (auto simp: write_session_def Let_def split: if_splits)
  show "dw_disk w' = dw_disk w" if "write_session w s = (w', Inl e)"
    using that by (auto simp: write_session_def Let_def split: if_splits)
qed

text \<open>A life of the client: attempts to deliver one receipt, and restarts that reload the
  session from disk.\<close>

datatype delivery_event = Attempt | Restart

fun deliver :: "string \<Rightarrow> string \<Rightarrow> receipt_plan \<Rightarrow> int \<Rightarrow> nat \<Rightarrow> delivery_event list
    \<Rightarrow> pydict \<times> delivery_world \<Rightarrow> pydict \<times> delivery_world" where
  "deliver key uuid plan i k [] sw = sw"
| "deliver key uuid plan i k (Restart # es) (state, w) = deliver key uuid plan i k es (dw_disk w, w)"
| "deliver key uuid plan i k (Attempt # es) (state, w) =
     (case spool state plan i k (room_publisher key uuid i k) write_session w of
        (state', w', r) \<Rightarrow> deliver key uuid plan i k es (state', w'))"

definition no_group :: "nat \<Rightarrow> pydict \<Rightarrow> bool" where
  "no_group k state \<longleftrightarrow> is_dict (dget_or state ''item_command_groups'' (PDict [])) \<and>
     stored_group state (str_nat k) = None"

lemma deliver_safe:
  assumes "room_ready key uuid (dw_spool w)" and "rp_commands plan = Some commands"
    and "honest (receipt_queued key i k commands w) i (length commands) (str_nat k) (dw_disk w)"
    and "honest (receipt_queued key i k commands w) i (length commands) (str_nat k) state"
    and "deliver key uuid plan i k es (state, w) = (state', w')"
  shows "room_ready key uuid (dw_spool w') \<and>
    honest (receipt_queued key i k commands w') i (length commands) (str_nat k) (dw_disk w') \<and>
    honest (receipt_queued key i k commands w') i (length commands) (str_nat k) state'"
  using assms
proof (induction es arbitrary: state w)
  case (Cons e es)
  show ?case
  proof (cases e)
    case Restart
    with Cons.prems Cons.IH [of w "dw_disk w"] show ?thesis by simp
  next
    case Attempt
    obtain s1 w1 r where sp: "spool state plan i k (room_publisher key uuid i k) write_session w = (s1, w1, r)"
      by (metis prod_cases3)
    from room_delivery.spool_safe [OF Cons.prems(1,3,4,2) sp] Cons.IH [of w1 s1] Cons.prems Attempt sp
    show ?thesis by simp
  qed
qed simp


section \<open>Witness\<close>

definition sample_world :: delivery_world where
  "sample_world = \<lparr>dw_spool = empty_spool, dw_disk = [], dw_writes = 0, dw_fails = (\<lambda>n. n = 0)\<rparr>"

definition sample_receipt :: receipt_plan where
  "sample_receipt = \<lparr>rp_commands = Some [''give''], rp_description = ''d''\<rparr>"

lemma sample_receipt_id:
  "\<exists>cid. receipt_command_id (PStr ''key'') 7 0 0 ''give'' = Inr cid \<and>
     validate_spool_id (PStr (room_name ''key'' cid)) = Inr (room_name ''key'' cid)"
proof -
  let ?h = "take 16 (sha256_hex ''key'')"
  have id: "receipt_command_id (PStr ''key'') 7 0 0 ''give'' =
      Inr (''recv-'' @ ?h @ ''-000000-item-7-effect-00'')"
    by (simp add: receipt_command_id_def queue_session_namespace_def zero_pad_def starts_with_def
        str_nat.simps str_int_def digit_char_def numeral_eq_Suc)
  have "room_name ''key'' (''recv-'' @ ?h @ ''-000000-item-7-effect-00'')
      = (''recv'' @ ''-'' @ ?h) @ ''-'' @ ''000000-item-7-effect-00''"
    by (simp add: room_name_def recv_prefix_def starts_with_def)
  moreover have "validate_spool_id (PStr ((''recv'' @ ''-'' @ ?h) @ ''-'' @ ''000000-item-7-effect-00''))
      = Inr ((''recv'' @ ''-'' @ ?h) @ ''-'' @ ''000000-item-7-effect-00'')"
    by (rule validate_extend_plain)
      (use sample_scoped [of "''key''"] in \<open>simp_all add: plain_char_def SPOOL_ID_MAX_BYTES_def\<close>)
  ultimately show ?thesis using id by simp
qed


end
