(* ===== verification/Receipt_Session.thy ===== *)
theory Receipt_Session
  imports Prelude
begin

text \<open>
  The process-local part of receipt handling: \<open>ReceiptSession\<close> of
  \<open>doom_eap/runtime/item_reconciliation.py\<close> (packet ranges, starting materialization, the
  processed boundary, rebind generations). Integers that arrive in packets have been decoded,
  so they are \<open>int\<close>; a start index that is absent or not an integer is \<open>None\<close>.
\<close>

section \<open>State\<close>

record packet_range =
  range_start :: int
  range_end :: int
  range_timestamp :: int
  range_live :: bool

record materialization_fact =
  fact_item :: int
  fact_quantity :: int
  fact_provenance :: string

record receipt_session_token =
  token_state_key :: string
  token_generation :: nat

record receipt_session =
  rs_generation :: nat
  rs_pending :: "string set"
  rs_boundary :: int
  rs_starting_counts :: "(int \<times> int) list"
  rs_starting_materialization :: "materialization_fact list"
  rs_ranges :: "packet_range list"

definition PACKET_TIMING_RANGE_LIMIT :: nat where
  "PACKET_TIMING_RANGE_LIMIT = 256"

definition new_receipt_session :: "int \<Rightarrow> receipt_session" where
  "new_receipt_session boundary = \<lparr>rs_generation = 0, rs_pending = {}, rs_boundary = boundary,
     rs_starting_counts = [], rs_starting_materialization = [], rs_ranges = []\<rparr>"

section \<open>Packet ranges\<close>

definition observe_packet :: "receipt_session \<Rightarrow> int option \<Rightarrow> int \<Rightarrow> int \<Rightarrow> int
    \<Rightarrow> receipt_session \<times> int \<times> bool" where
  "observe_packet s start_index item_count authoritative_count timestamp_ns =
     (let accepted_start = (case start_index of Some i \<Rightarrow> if i \<ge> 0 then Some i else None | None \<Rightarrow> None);
          reported = (case accepted_start of None \<Rightarrow> max 0 (authoritative_count - item_count)
                      | Some i \<Rightarrow> i);
          ok = (case accepted_start of None \<Rightarrow> False
                | Some i \<Rightarrow> i \<le> authoritative_count \<and> i + item_count = authoritative_count);
          s1 = (if ok \<and> accepted_start = Some 0 then s\<lparr>rs_ranges := []\<rparr> else s);
          s2 = (case accepted_start of
                  Some i \<Rightarrow> (if ok \<and> item_count \<noteq> 0
                    then s1\<lparr>rs_ranges := deque_append PACKET_TIMING_RANGE_LIMIT (rs_ranges s1)
                      \<lparr>range_start = i, range_end = i + item_count, range_timestamp = timestamp_ns,
                       range_live = (i \<ge> rs_boundary s1)\<rparr>\<rparr>
                    else s1)
                | None \<Rightarrow> s1)
      in (s2, reported, ok))"

definition in_range :: "int \<Rightarrow> packet_range \<Rightarrow> bool" where
  "in_range i p \<longleftrightarrow> range_start p \<le> i \<and> i < range_end p"

definition packet_timestamp :: "receipt_session \<Rightarrow> int \<Rightarrow> int option" where
  "packet_timestamp s i = map_option range_timestamp (find (in_range i) (rev (rs_ranges s)))"

definition packet_is_live_tail :: "receipt_session \<Rightarrow> int \<Rightarrow> bool" where
  "packet_is_live_tail s i = (case find (in_range i) (rev (rs_ranges s)) of
     None \<Rightarrow> False | Some p \<Rightarrow> range_live p)"

definition clear_packet_ranges :: "receipt_session \<Rightarrow> receipt_session" where
  "clear_packet_ranges s = s\<lparr>rs_ranges := []\<rparr>"

definition prune_processed_packets :: "receipt_session \<Rightarrow> receipt_session" where
  "prune_processed_packets s = s\<lparr>rs_ranges :=
     last_n PACKET_TIMING_RANGE_LIMIT (filter (\<lambda>p. range_end p > rs_boundary s) (rs_ranges s))\<rparr>"

section \<open>Starting materialization\<close>

definition count_at :: "(int \<times> int) list \<Rightarrow> int \<Rightarrow> int" where
  "count_at counts i = (case map_of counts i of None \<Rightarrow> 0 | Some n \<Rightarrow> n)"

text \<open>\<open>item_identity\<close> lists item IDs with their names, in dictionary order; a later name wins in
  the inverse dictionary. Quantities are the values of the starting inventory, \<open>None\<close> for one
  that is not an integer.\<close>

definition ids_by_name :: "(int \<times> string) list \<Rightarrow> string \<Rightarrow> int option" where
  "ids_by_name identity name = map_of (rev (map prod.swap identity)) name"

fun starting_inventory_step :: "(int \<times> string) list \<Rightarrow> (int \<Rightarrow> bool)
    \<Rightarrow> (int \<times> int) list \<times> materialization_fact list \<Rightarrow> string \<times> int option
    \<Rightarrow> (int \<times> int) list \<times> materialization_fact list" where
  "starting_inventory_step identity eligible (counts, facts) (name, quantity) =
     (case (ids_by_name identity name, quantity) of
        (Some i, Some q) \<Rightarrow>
          (if eligible i \<and> q > 0
           then (AList.update i (count_at counts i + q) counts,
                 facts @ [\<lparr>fact_item = i, fact_quantity = q, fact_provenance = ''starting_inventory''\<rparr>])
           else (counts, facts))
      | _ \<Rightarrow> (counts, facts))"

fun subtract_processed :: "(int \<times> int) list \<Rightarrow> int list \<Rightarrow> (int \<times> int) list" where
  "subtract_processed counts [] = counts"
| "subtract_processed counts (i # is) =
     subtract_processed (if count_at counts i > 0 then AList.update i (count_at counts i - 1) counts
                         else counts) is"

definition configure_starting_materialization ::
  "receipt_session \<Rightarrow> (string \<times> int option) list option \<Rightarrow> string option \<Rightarrow> (int \<times> string) list
    \<Rightarrow> int list \<Rightarrow> (int \<Rightarrow> bool) \<Rightarrow> receipt_session" where
  "configure_starting_materialization s starting_inventory starting_weapon identity processed eligible =
     (let (c1, f1) = (case starting_inventory of None \<Rightarrow> ([], [])
            | Some stock \<Rightarrow> foldl (starting_inventory_step identity eligible) ([], []) stock);
          (c2, f2) = (case starting_weapon of None \<Rightarrow> (c1, f1)
            | Some name \<Rightarrow> (case ids_by_name identity name of None \<Rightarrow> (c1, f1)
                | Some i \<Rightarrow> (if eligible i
                    then (AList.update i (count_at c1 i + 1) c1,
                          f1 @ [\<lparr>fact_item = i, fact_quantity = 1, fact_provenance = ''starting_weapon''\<rparr>])
                    else (c1, f1))))
      in s\<lparr>rs_starting_counts := subtract_processed c2 processed, rs_starting_materialization := f2\<rparr>)"

definition consume_starting_materialization :: "int set \<Rightarrow> receipt_session \<Rightarrow> int
    \<Rightarrow> receipt_session \<times> bool" where
  "consume_starting_materialization mastery_items s i =
     (if i \<in> {7770083, 7770901, 7770902} \<or> i \<in> mastery_items then (s, False)
      else if count_at (rs_starting_counts s) i > 0
      then (s\<lparr>rs_starting_counts :=
              AList.update i (count_at (rs_starting_counts s) i - 1) (rs_starting_counts s)\<rparr>, True)
      else (s, False))"

section \<open>Boundary and rebinds\<close>

definition restore_boundary :: "receipt_session \<Rightarrow> int \<Rightarrow> receipt_session" where
  "restore_boundary s b = s\<lparr>rs_boundary := b\<rparr>"

definition advance_boundary :: "receipt_session \<Rightarrow> receipt_session" where
  "advance_boundary s = s\<lparr>rs_boundary := rs_boundary s + 1\<rparr>"

definition begin_rebind :: "receipt_session \<Rightarrow> receipt_session" where
  "begin_rebind s = s\<lparr>rs_generation := rs_generation s + 1, rs_pending := {}\<rparr>"

definition capture_token :: "receipt_session \<Rightarrow> string \<Rightarrow> receipt_session_token" where
  "capture_token s key = \<lparr>token_state_key = key, token_generation = rs_generation s\<rparr>"

definition is_current_token :: "receipt_session \<Rightarrow> receipt_session_token \<Rightarrow> string \<Rightarrow> bool" where
  "is_current_token s t key \<longleftrightarrow> token_state_key t = key \<and> token_generation t = rs_generation s"

definition was_observed :: "receipt_session \<Rightarrow> string \<Rightarrow> bool" where
  "was_observed s k \<longleftrightarrow> k \<in> rs_pending s"

definition note_observation :: "receipt_session \<Rightarrow> string \<Rightarrow> receipt_session" where
  "note_observation s k = s\<lparr>rs_pending := insert k (rs_pending s)\<rparr>"

section \<open>Starting items are consumed at most as often as they were materialized\<close>

fun consume_run :: "int set \<Rightarrow> receipt_session \<Rightarrow> int list \<Rightarrow> receipt_session \<times> int list" where
  "consume_run m s [] = (s, [])"
| "consume_run m s (i # is) =
     (case consume_starting_materialization m s i of
        (s', taken) \<Rightarrow> (case consume_run m s' is of (s'', xs) \<Rightarrow> (s'', (if taken then [i] else []) @ xs)))"

lemma count_at_update [simp]:
  "count_at (AList.update i n c) j = (if j = i then n else count_at c j)"
  by (simp add: count_at_def update_conv')

lemma count_at_Nil [simp]: "count_at [] i = 0"
  by (simp add: count_at_def)

lemma subtract_processed_count:
  "count_at c i \<ge> 0 \<Longrightarrow>
     count_at (subtract_processed c is) i = max 0 (count_at c i - int (count_list is i))"
  by (induction c "is" rule: subtract_processed.induct) auto

lemma consume_step:
  assumes "consume_starting_materialization m s j = (s', taken)"
  shows "taken \<longleftrightarrow> j \<notin> {7770083, 7770901, 7770902} \<union> m \<and> count_at (rs_starting_counts s) j > 0"
    "count_at (rs_starting_counts s') i =
       count_at (rs_starting_counts s) i - (if taken \<and> i = j then 1 else 0)"
  using assms by (auto simp: consume_starting_materialization_def split: if_splits)

lemma consume_run_count:
  assumes "\<forall>i. count_at (rs_starting_counts s) i \<ge> 0" and "consume_run m s is = (s', xs)"
  shows "int (count_list xs i) =
      (if i \<in> {7770083, 7770901, 7770902} \<union> m then 0
       else min (int (count_list is i)) (count_at (rs_starting_counts s) i))
    \<and> count_at (rs_starting_counts s') i = count_at (rs_starting_counts s) i - int (count_list xs i)"
  using assms
proof (induction "is" arbitrary: s xs s')
  case (Cons j js)
  obtain s1 taken where s1: "consume_starting_materialization m s j = (s1, taken)" by fastforce
  obtain s2 ys where s2: "consume_run m s1 js = (s2, ys)" by fastforce
  from Cons.prems(2) s1 s2 have xs: "xs = (if taken then [j] else []) @ ys" "s' = s2" by auto
  note step = consume_step [OF s1]
  have pos: "\<forall>i. count_at (rs_starting_counts s1) i \<ge> 0"
  proof
    fix i show "count_at (rs_starting_counts s1) i \<ge> 0"
      using step(2) [of i] step(1) spec [OF Cons.prems(1), of i] by (auto split: if_splits)
  qed
  note rest = Cons.IH [OF pos s2]
  show ?case
    using rest step(1) step(2) [of i] spec [OF Cons.prems(1), of i] unfolding xs
    by (auto split: if_splits)
qed simp

definition fact_total :: "materialization_fact list \<Rightarrow> int \<Rightarrow> int" where
  "fact_total fs i = (\<Sum>f \<leftarrow> fs. if fact_item f = i then fact_quantity f else 0)"

lemma fact_total_snoc [simp]:
  "fact_total [] i = 0"
  "fact_total (fs @ [f]) i = fact_total fs i + (if fact_item f = i then fact_quantity f else 0)"
  by (simp_all add: fact_total_def)

definition counts_match :: "(int \<times> int) list \<times> materialization_fact list \<Rightarrow> bool" where
  "counts_match p \<longleftrightarrow> (\<forall>i. count_at (fst p) i = fact_total (snd p) i \<and> fact_total (snd p) i \<ge> 0)"

lemma counts_match_add:
  assumes "counts_match (c, fs)" and "q > 0"
  shows "counts_match (AList.update i (count_at c i + q) c,
    fs @ [\<lparr>fact_item = i, fact_quantity = q, fact_provenance = p\<rparr>])"
  using assms by (auto simp: counts_match_def intro: order_trans)

lemma starting_inventory_step_match:
  "counts_match cf \<Longrightarrow> counts_match (starting_inventory_step identity eligible cf nq)"
  by (cases cf; cases nq) (auto split: option.splits intro: counts_match_add)

lemma starting_inventory_match:
  "counts_match cf \<Longrightarrow> counts_match (foldl (starting_inventory_step identity eligible) cf stock)"
  by (induction stock arbitrary: cf) (simp_all add: starting_inventory_step_match)

lemma configure_counts:
  "count_at (rs_starting_counts (configure_starting_materialization s stock weapon identity processed eligible)) i =
     max 0 (fact_total (rs_starting_materialization
        (configure_starting_materialization s stock weapon identity processed eligible)) i
        - int (count_list processed i))"
proof -
  let ?s' = "configure_starting_materialization s stock weapon identity processed eligible"
  obtain c1 f1 where one: "(case stock of None \<Rightarrow> ([], [])
      | Some l \<Rightarrow> foldl (starting_inventory_step identity eligible) ([], []) l) = (c1, f1)" by fastforce
  have "counts_match ([], [])" by (simp add: counts_match_def)
  with one starting_inventory_match have m1: "counts_match (c1, f1)"
    by (metis (no_types, lifting) option.case_eq_if)
  obtain c2 f2 where two: "(case weapon of None \<Rightarrow> (c1, f1)
            | Some name \<Rightarrow> (case ids_by_name identity name of None \<Rightarrow> (c1, f1)
                | Some i \<Rightarrow> (if eligible i
                    then (AList.update i (count_at c1 i + 1) c1,
                          f1 @ [\<lparr>fact_item = i, fact_quantity = 1, fact_provenance = ''starting_weapon''\<rparr>])
                    else (c1, f1)))) = (c2, f2)" by fastforce
  have m2: "counts_match (c2, f2)"
    using two m1 counts_match_add [OF m1, of 1] by (auto split: option.splits if_splits)
  from one two have "rs_starting_counts ?s' = subtract_processed c2 processed"
    "rs_starting_materialization ?s' = f2"
    by (simp_all add: configure_starting_materialization_def)
  with m2 subtract_processed_count [of c2 i processed] show ?thesis by (simp add: counts_match_def)
qed

section \<open>Property\<close>

text \<open>After the starting inventory and the starting weapon have been registered, a
  series of receipts is recognised as already materialized exactly as often as the game has
  granted each item at the start and earlier processed receipts have not used it up; the
  hammer, the progressive special weapons and the mastery items are never skipped.\<close>

theorem starting_items_skipped_exactly:
  assumes "s = configure_starting_materialization s0 stock weapon identity processed eligible"
    and "consume_run mastery_items s received = (s', skipped)"
  shows "int (count_list skipped i) =
    (if i \<in> {7770083, 7770901, 7770902} \<union> mastery_items then 0
     else min (int (count_list received i))
       (max 0 (fact_total (rs_starting_materialization s) i - int (count_list processed i))))"
proof -
  have counts: "\<forall>i. count_at (rs_starting_counts s) i =
      max 0 (fact_total (rs_starting_materialization s) i - int (count_list processed i))"
    using configure_counts assms(1) by blast
  then have "\<forall>i. count_at (rs_starting_counts s) i \<ge> 0" by simp
  from conjunct1 [OF consume_run_count [OF this assms(2), of i]] counts show ?thesis by simp
qed

theorem starting_items_skipped_exactly_witness:
  "\<exists>s' skipped. consume_run {} (configure_starting_materialization (new_receipt_session 0)
       (Some [(''Shotgun'', Some 2)]) (Some ''Chaingun'') [(1, ''Shotgun''), (2, ''Chaingun'')] [1]
       (\<lambda>_. True)) [1, 1, 2, 3] = (s', skipped) \<and>
     count_list skipped 1 = 1 \<and> count_list skipped 2 = 1 \<and> count_list skipped 3 = 0"
proof -
  let ?s = "configure_starting_materialization (new_receipt_session 0)
       (Some [(''Shotgun'', Some 2)]) (Some ''Chaingun'') [(1, ''Shotgun''), (2, ''Chaingun'')] [1]
       (\<lambda>_. True)"
  obtain s' xs where run: "consume_run {} ?s [1, 1, 2, 3] = (s', xs)" by fastforce
  have facts: "rs_starting_materialization ?s =
      [\<lparr>fact_item = 1, fact_quantity = 2, fact_provenance = ''starting_inventory''\<rparr>,
       \<lparr>fact_item = 2, fact_quantity = 1, fact_provenance = ''starting_weapon''\<rparr>]"
    by (simp add: configure_starting_materialization_def ids_by_name_def count_at_def)
  from starting_items_skipped_exactly [OF refl run, of 1] starting_items_skipped_exactly [OF refl run, of 2]
    starting_items_skipped_exactly [OF refl run, of 3]
  show ?thesis unfolding facts using run by (auto simp: fact_total_def)
qed

end
