(* ===== verification/Session_State.thy ===== *)
theory Session_State
  imports Receipt_Ledger Command_Identity
begin

text \<open>
  Loading of the client state document (\<open>normalize_session_state\<close>, \<open>migrate_client_state\<close>,
  \<open>migrate_legacy_session_key\<close> of \<open>doom_eap/runtime/item_reconciliation.py\<close>). Documents come
  from JSON, so dictionary keys are strings and \<open>str(key)\<close> is the key; deep copies are the
  values themselves.
\<close>

section \<open>Field by field\<close>

definition safe_nonnegative_int :: "pyval \<Rightarrow> int \<Rightarrow> int" where
  "safe_nonnegative_int v fallback = (case v of PInt i \<Rightarrow> if i < 0 then fallback else i | _ \<Rightarrow> fallback)"

definition sorted_ints :: "(int \<Rightarrow> bool) \<Rightarrow> pyval \<Rightarrow> pyval" where \<comment> \<open>\<open>sorted({...})\<close> of the integers of a list\<close>
  "sorted_ints p v = PList (map PInt (sorted_set (filter p (safe_item_ids v))))"

definition dict_or :: "pydict \<Rightarrow> pyval \<Rightarrow> pyval" where
  "dict_or fallback v = (case v of PDict d \<Rightarrow> PDict d | _ \<Rightarrow> PDict fallback)"

definition norm_gates :: "pyval \<Rightarrow> pyval" where
  "norm_gates v = sorted_ints (\<lambda>_. True) v"

definition frag_entry :: "string \<times> pyval \<Rightarrow> bool" where
  "frag_entry e \<longleftrightarrow> fst e \<noteq> [] \<and> list_all is_digit (fst e) \<and>
     snd e \<in> PInt ` {7770011, 7770111, 7770112, 7770113, 7770114}"

definition norm_frag :: "pyval \<Rightarrow> pyval" where
  "norm_frag v = PDict (filter frag_entry (the_dict v))"

text \<open>\<open>dict(Counter(ids))\<close>: identities in order of first occurrence.\<close>

definition counter_dict :: "string list \<Rightarrow> pydict" where
  "counter_dict ids = map (\<lambda>k. (k, PInt (int (count_list ids k)))) (rev (remdups (rev ids)))"

definition norm_history :: "int \<Rightarrow> pyval \<Rightarrow> pyval" where
  "norm_history processed v =
     (let h0 = the_dict v;
          h1 = dset ''processed_boundary'' (PInt processed) h0;
          highest = (case dget_or h1 ''highest_observed_index'' (PInt (max (processed - 1) (- 1))) of
             PInt i \<Rightarrow> (if i < -1 then max (processed - 1) (- 1) else i)
           | _ \<Rightarrow> max (processed - 1) (- 1));
          h2 = dset ''highest_observed_index'' (PInt highest) h1;
          ids = safe_receipt_ids (dget h2 ''receipt_ids'');
          counts0 = safe_receipt_counts (dget h2 ''receipt_counts'');
          counts = (if counts0 = [] then counter_dict ids else counts0);
          h3 = dset ''receipt_counts'' (PDict counts) h2;
          h4 = dset ''receipt_ids'' (PList (map PStr ids)) h3;
          h5 = dset ''receipt_item_ids'' (PList (map PInt (safe_item_ids (dget h4 ''receipt_item_ids'')))) h4
      in PDict (dset ''owned_item_ids'' (sorted_ints (\<lambda>_. True) (dget h5 ''owned_item_ids'')) h5))"

definition norm_bootstrap :: "pyval \<Rightarrow> pyval" where
  "norm_bootstrap v =
     (case v of
        PDict b \<Rightarrow>
          (let b1 = (case dget b ''revision'' of PInt i \<Rightarrow> if i < 0 then dpop ''revision'' b else b
                     | _ \<Rightarrow> dpop ''revision'' b)
           in PDict (if is_dict (dget b1 ''actions'') then b1 else dset ''actions'' (PDict []) b1))
      | _ \<Rightarrow> PDict [(''actions'', PDict [])])"

definition norm_cleanup :: "pyval \<Rightarrow> pyval" where
  "norm_cleanup v = PDict (filter (\<lambda>(k, e). k \<noteq> [] \<and> valid_materialization_epoch e) (the_dict v))"

definition norm_goal :: "pyval \<Rightarrow> pyval" where
  "norm_goal v = (case v of PBool b \<Rightarrow> PBool b | _ \<Rightarrow> PBool False)"

definition norm_autosave :: "pyval \<Rightarrow> pyval" where
  "norm_autosave v = (case v of PStr s \<Rightarrow> PStr s | _ \<Rightarrow> PNone)"

definition norm_revision :: "pyval \<Rightarrow> pyval" where
  "norm_revision v = PInt (safe_nonnegative_int v 0)"

definition norm_indices :: "pyval \<Rightarrow> pyval" where
  "norm_indices v = sorted_ints (\<lambda>i. i \<ge> 0) v"

definition norm_perks :: "pyval \<Rightarrow> pyval" where
  "norm_perks v =
     (case v of
        PDict p \<Rightarrow>
          (let p1 = dset ''epoch'' (PInt (safe_nonnegative_int (dget_or p ''epoch'' (PInt 0)) 0)) p
           in PDict (dset ''delivered''
                (PDict (filter (\<lambda>(k, n). k \<noteq> [] \<and> safe_nonnegative_int n (- 1) \<ge> 0)
                   (the_dict (dget p1 ''delivered'')))) p1))
      | _ \<Rightarrow> PDict [(''epoch'', PInt 0), (''delivered'', PDict [])])"

definition norm_group :: "pyval \<Rightarrow> pyval option" where
  "norm_group v =
     (case v of
        PDict g \<Rightarrow>
          (let n = dget_or g ''next_command'' (PInt 0); t = dget_or g ''total_commands'' (PInt 0) in
           if \<not> is_int (dget g ''item_id'') \<or> safe_nonnegative_int n (- 1) < 0
              \<or> safe_nonnegative_int t (- 1) < 0 \<or> the_int n > the_int t
           then None
           else Some (PDict (dset ''total_commands'' (PInt (the_int t))
                  (dset ''next_command'' (PInt (the_int n)) (dset ''item_id'' (dget g ''item_id'') g)))))
      | _ \<Rightarrow> None)"

fun norm_groups_list :: "pydict \<Rightarrow> pydict" where
  "norm_groups_list [] = []"
| "norm_groups_list ((k, v) # g) =
     (case norm_group v of
        Some v' \<Rightarrow> if k \<noteq> [] then (k, v') # norm_groups_list g else norm_groups_list g
      | None \<Rightarrow> norm_groups_list g)"

definition norm_groups :: "pyval \<Rightarrow> pyval" where
  "norm_groups v = PDict (norm_groups_list (the_dict v))"

fun never_entry :: "pyval \<Rightarrow> bool" where
  "never_entry (PStr s) = (s \<noteq> [])"
| "never_entry (PInt i) = True"
| "never_entry _ = False"

definition norm_never :: "pyval \<Rightarrow> pyval" where
  "norm_never v = (case v of PList xs \<Rightarrow> PList (filter never_entry xs)
     | PDict d \<Rightarrow> PDict d | _ \<Rightarrow> PList [])"

section \<open>The session\<close>

text \<open>\<open>d[k] = f(d.get(k))\<close>, and the same only when the key is present.\<close>

definition on_field :: "string \<Rightarrow> (pyval \<Rightarrow> pyval) \<Rightarrow> pydict \<Rightarrow> pydict" where
  "on_field k f d = dset k (f (dget d k)) d"

definition on_present :: "string \<Rightarrow> (pyval \<Rightarrow> pyval) \<Rightarrow> pydict \<Rightarrow> pydict" where
  "on_present k f d = (if has_key d k then on_field k f d else d)"

definition norm_groups_field :: "pydict \<Rightarrow> pydict" where
  "norm_groups_field d =
     (if is_dict (dget d ''item_command_groups'') then on_field ''item_command_groups'' norm_groups d
      else dpop ''item_command_groups'' d)"

definition normalize_session_state :: "pyval \<Rightarrow> pydict" where
  "normalize_session_state session =
     (let d0 = on_present ''physical_slayer_gates'' norm_gates (the_dict session);
          processed = safe_nonnegative_int (dget d0 ''processed_items'') 0;
          d1 = dset ''processed_items'' (PInt processed) d0;
          d2 = on_field ''deferred_frag_items'' norm_frag d1;
          d3 = on_field ''receipt_history'' (norm_history processed) d2;
          d4 = on_field ''item_resync'' (dict_or []) d3;
          d5 = on_field ''bootstrap'' norm_bootstrap d4;
          d6 = on_field ''save_slot_observations'' (dict_or []) d5;
          d7 = on_field ''automap_cleanup'' norm_cleanup d6;
          d8 = on_present ''goal_sent'' norm_goal d7;
          d9 = on_present ''cultist_autosave_path'' norm_autosave d8;
          d10 = on_field ''item_mapping_revision'' norm_revision d9;
          d11 = on_present ''mapping_repair_indices'' norm_indices d10;
          d12 = on_field ''perk_reconciliation'' norm_perks d11;
          d13 = on_field ''rune_reconciliation'' (dict_or []) d12;
          d14 = norm_groups_field d13;
          d15 = on_present ''never_replay_history'' norm_never d14;
          d16 = on_present ''never_replay_items'' norm_never d15;
          d17 = on_present ''never_replayed'' norm_never d16
      in on_present ''never_replay'' norm_never d17)"

definition default_session_state :: pydict where
  "default_session_state = normalize_session_state (PDict [])"

definition CLIENT_STATE_VERSION :: int where "CLIENT_STATE_VERSION = 2"

definition migrate_client_state :: "pyval \<Rightarrow> (pydict \<times> bool) res" where
  "migrate_client_state raw =
     (case raw of
        PDict d \<Rightarrow>
          (case dget d ''version'' of
             PInt version \<Rightarrow>
              (if version \<notin> {1, CLIENT_STATE_VERSION}
               then Inl (ValueError ''unsupported client state version'')
               else case dget d ''sessions'' of
                 PDict sessions \<Rightarrow>
                   Inr (dset ''sessions'' (PDict (map (\<lambda>(k, s). (k, PDict (normalize_session_state s)))
                            (filter (\<lambda>(k, s). k \<noteq> []) (sort_key fst sessions))))
                          (dset ''version'' (PInt CLIENT_STATE_VERSION) d),
                        version = 1)
               | _ \<Rightarrow> Inl (ValueError ''client state sessions must be an object''))
           | _ \<Rightarrow> Inl (ValueError ''unsupported client state format''))
      | _ \<Rightarrow> Inl (ValueError ''client state must be an object''))"

text \<open>\<open>re.fullmatch(r"[A-Za-z0-9_.-]+")\<close> and \<open>re.fullmatch(r"[0-9a-f]{64}")\<close>.\<close>

definition seed_char :: "char \<Rightarrow> bool" where
  "seed_char c \<longleftrightarrow> (CHR ''A'' \<le> c \<and> c \<le> CHR ''Z'') \<or> (CHR ''a'' \<le> c \<and> c \<le> CHR ''z'')
     \<or> is_digit c \<or> c \<in> {CHR ''_'', CHR ''.'', CHR ''-''}"

definition legacy_identity :: "pyval \<Rightarrow> pyval \<Rightarrow> pyval \<Rightarrow> pyval \<Rightarrow> (string \<times> int \<times> int \<times> string) option" where
  "legacy_identity seed team slot generation =
     (case (seed, team, slot, generation) of
        (PStr s, PInt t, PInt n, PStr g) \<Rightarrow>
          (if s \<noteq> [] \<and> list_all seed_char s \<and> t \<ge> 0 \<and> n \<ge> 0 \<and> length g = 64 \<and> list_all is_lower_hex g
           then Some (s, t, n, g) else None)
      | _ \<Rightarrow> None)"

text \<open>A navigation record that is no dictionary has no \<open>get\<close>.\<close>

definition migrate_legacy_session_key :: "pydict \<Rightarrow> pyval \<Rightarrow> pyval \<Rightarrow> pyval \<Rightarrow> pyval
    \<Rightarrow> pydict \<times> (string option \<times> string option) res" where
  "migrate_legacy_session_key sessions seed team slot generation =
     (case legacy_identity seed team slot generation of
        None \<Rightarrow> (sessions, Inr (None, None))
      | Some (s, t, n, g) \<Rightarrow>
         (let legacy = s @ '':'' @ str_int t @ '':'' @ str_int n; key = legacy @ '':'' @ g in
          if has_key sessions key then (sessions, Inr (Some key, None))
          else case dget sessions legacy of
            PDict d \<Rightarrow>
              (case dget_or d ''campaign_navigation'' (PDict []) of
                 PDict nav \<Rightarrow>
                   (if dget nav ''generation'' = PStr g
                    then (dset key (PDict d) (dpop legacy sessions), Inr (Some key, Some legacy))
                    else (sessions, Inr (Some key, None)))
               | _ \<Rightarrow> (sessions, Inl (Exn ''AttributeError'' ''get'')))
          | _ \<Rightarrow> (sessions, Inr (Some key, None))))"

section \<open>Normalizing twice is normalizing once\<close>

lemma sorted_ints_idem [simp]: "sorted_ints p (sorted_ints p v) = sorted_ints p v"
proof -
  have "filter p (sorted_set (filter p xs)) = sorted_set (filter p xs)" for xs :: "int list"
    by (rule filter_True) simp
  then show ?thesis by (simp add: sorted_ints_def)
qed

lemma dict_or_idem [simp]: "dict_or e (dict_or e v) = dict_or e v"
  by (simp add: dict_or_def split: pyval.splits)

lemma norm_gates_idem: "norm_gates (norm_gates v) = norm_gates v"
  by (simp add: norm_gates_def)

lemma norm_frag_idem: "norm_frag (norm_frag v) = norm_frag v"
  by (simp add: norm_frag_def)

lemma norm_cleanup_idem: "norm_cleanup (norm_cleanup v) = norm_cleanup v"
  by (simp add: norm_cleanup_def)

lemma norm_goal_idem: "norm_goal (norm_goal v) = norm_goal v"
  by (simp add: norm_goal_def split: pyval.splits)

lemma norm_autosave_idem: "norm_autosave (norm_autosave v) = norm_autosave v"
  by (simp add: norm_autosave_def split: pyval.splits)

lemma safe_nonnegative_PInt [simp]: "i \<ge> 0 \<Longrightarrow> safe_nonnegative_int (PInt i) n = i"
  by (simp add: safe_nonnegative_int_def)

lemma safe_nonnegative_ge: "n \<ge> 0 \<Longrightarrow> safe_nonnegative_int v n \<ge> 0"
  by (simp add: safe_nonnegative_int_def split: pyval.splits)

lemma norm_revision_idem: "norm_revision (norm_revision v) = norm_revision v"
  by (simp add: norm_revision_def safe_nonnegative_ge)

lemma norm_indices_idem: "norm_indices (norm_indices v) = norm_indices v"
  by (simp add: norm_indices_def)

lemma norm_never_idem: "norm_never (norm_never v) = norm_never v"
  by (simp add: norm_never_def split: pyval.splits)

lemma dset_dget_same: "has_key d k \<Longrightarrow> dget d k = v \<Longrightarrow> dset k v d = d"
  by (auto simp: has_key_def dget_def dset_same)

lemma dget_or_has_key: "has_key d k \<Longrightarrow> dget_or d k v = dget d k"
  by (auto simp: has_key_def dget_def dget_or_def)

lemma dpop_absent: "\<not> has_key d k \<Longrightarrow> dpop k d = d"
  by (simp add: has_key_def map_of_eq_None_iff delete_id)

lemma strs_of_safe [simp]: "strs_of (map PStr (strs_of vs)) = strs_of vs"
  by (induction vs rule: strs_of.induct) auto

lemma safe_ids_idem [simp]:
  "safe_receipt_ids (PList (map PStr (safe_receipt_ids v))) = safe_receipt_ids v"
  "safe_item_ids (PList (map PInt (safe_item_ids v))) = safe_item_ids v"
  by (cases v; simp)+

lemma safe_receipt_counts_idem [simp]:
  "safe_receipt_counts (PDict (safe_receipt_counts v)) = safe_receipt_counts v"
  by (cases v) simp_all

lemma safe_receipt_ids_nonempty: "k \<in> set (safe_receipt_ids v) \<Longrightarrow> k \<noteq> []"
  by (cases v) (auto dest: strs_of_nonempty [THEN notE, rotated])

declare safe_receipt_ids.simps [simp del] safe_item_ids.simps [simp del]

lemma counter_dict_safe:
  "[] \<notin> set ids \<Longrightarrow> safe_receipt_counts (PDict (counter_dict ids)) = counter_dict ids"
  by (auto simp: counter_dict_def intro!: filter_True occurrences_pos)

lemma counter_dict_Nil: "counter_dict ids = [] \<longleftrightarrow> ids = []"
  by (simp add: counter_dict_def)

definition normal_history :: "int \<Rightarrow> pydict \<Rightarrow> bool" where
  "normal_history processed h \<longleftrightarrow>
     has_key h ''processed_boundary'' \<and> dget h ''processed_boundary'' = PInt processed \<and>
     has_key h ''highest_observed_index'' \<and> has_key h ''receipt_counts'' \<and> has_key h ''receipt_ids'' \<and>
     has_key h ''receipt_item_ids'' \<and> has_key h ''owned_item_ids'' \<and>
     (\<exists>i \<ge> -1. dget h ''highest_observed_index'' = PInt i) \<and>
     (\<exists>ids. dget h ''receipt_ids'' = PList (map PStr (safe_receipt_ids ids)) \<and>
        (\<exists>c. dget h ''receipt_counts'' = PDict c \<and> safe_receipt_counts (PDict c) = c \<and>
             (c = [] \<longrightarrow> safe_receipt_ids ids = []))) \<and>
     (\<exists>is. dget h ''receipt_item_ids'' = PList (map PInt (safe_item_ids is))) \<and>
     (\<exists>ow. dget h ''owned_item_ids'' = sorted_ints (\<lambda>_. True) ow)"

lemma norm_history_normal: "\<exists>h. norm_history processed v = PDict h \<and> normal_history processed h"
proof -
  let ?h = "the_dict v"
  have ids: "[] \<notin> set (safe_receipt_ids (dget ?h ''receipt_ids''))"
    using safe_receipt_ids_nonempty by blast
  have highest: "\<exists>i \<ge> -1. (case dget_or ?h ''highest_observed_index'' (PInt (max (processed - 1) (- 1))) of
             PInt i \<Rightarrow> (if i < -1 then max (processed - 1) (- 1) else i)
           | _ \<Rightarrow> max (processed - 1) (- 1)) = i"
    by (auto split: pyval.splits)
  let ?c0 = "safe_receipt_counts (dget ?h ''receipt_counts'')"
  let ?c = "if ?c0 = [] then counter_dict (safe_receipt_ids (dget ?h ''receipt_ids'')) else ?c0"
  have counts: "safe_receipt_counts (PDict ?c) = ?c"
    "?c = [] \<longrightarrow> safe_receipt_ids (dget ?h ''receipt_ids'') = []"
    using counter_dict_safe [OF ids] by (auto simp: counter_dict_Nil simp del: safe_receipt_counts.simps)
  show ?thesis
    unfolding norm_history_def normal_history_def Let_def
    using highest counts by (intro exI conjI) auto
qed

lemma normal_history_fixed:
  assumes "normal_history processed h"
  shows "norm_history processed (PDict h) = PDict h"
proof -
  from assms obtain i ids c where f: "i \<ge> -1" "dget h ''highest_observed_index'' = PInt i"
    "dget h ''receipt_ids'' = PList (map PStr (safe_receipt_ids ids))" "dget h ''receipt_counts'' = PDict c"
    "safe_receipt_counts (PDict c) = c" "c = [] \<longrightarrow> safe_receipt_ids ids = []"
    by (auto simp: normal_history_def)
  note n = assms [unfolded normal_history_def]
  have b: "dset ''processed_boundary'' (PInt processed) h = h"
    using n by (intro dset_dget_same) auto
  have hi: "dset ''highest_observed_index'' (PInt i) h = h"
    using n f by (intro dset_dget_same) auto
  have c: "dset ''receipt_counts'' (PDict c) h = h" using n f by (intro dset_dget_same) auto
  have r: "dset ''receipt_ids'' (PList (map PStr (safe_receipt_ids ids))) h = h"
    using n f by (intro dset_dget_same) auto
  have it: "dset ''receipt_item_ids'' (PList (map PInt (safe_item_ids (dget h ''receipt_item_ids'')))) h = h"
    using n by (intro dset_dget_same) auto
  have ow: "dset ''owned_item_ids'' (sorted_ints (\<lambda>_. True) (dget h ''owned_item_ids'')) h = h"
    using n by (intro dset_dget_same) auto
  have g: "dget_or h ''highest_observed_index'' d = PInt i" for d
    using n f dget_or_has_key by metis
  have ids: "safe_receipt_ids (dget h ''receipt_ids'') = safe_receipt_ids ids"
    using f(3) safe_ids_idem(1) by simp
  have cs1: "safe_receipt_counts (dget h ''receipt_counts'') = c" using f(4,5) by metis
  have cs2: "(if c = [] then counter_dict (safe_receipt_ids ids) else c) = c"
    using f(6) by (simp add: counter_dict_def)
  show ?thesis
    using f(1) unfolding norm_history_def Let_def the_dict_PDict b g ids
    by (simp add: b g hi ids cs1 cs2 c r it ow del: safe_receipt_counts.simps
        cong: if_cong split del: if_split)
qed

lemma norm_bootstrap_idem: "norm_bootstrap (norm_bootstrap v) = norm_bootstrap v"
proof (cases v)
  case (PDict b)
  define b1 where "b1 = (case dget b ''revision'' of PInt i \<Rightarrow> if i < 0 then dpop ''revision'' b else b
                     | _ \<Rightarrow> dpop ''revision'' b)"
  define b2 where "b2 = (if is_dict (dget b1 ''actions'') then b1 else dset ''actions'' (PDict []) b1)"
  have v: "norm_bootstrap v = PDict b2"
    by (simp add: norm_bootstrap_def PDict b1_def b2_def Let_def)
  have "(\<exists>i \<ge> 0. dget b1 ''revision'' = PInt i) \<or> \<not> has_key b1 ''revision''"
    by (auto simp: b1_def split: pyval.splits)
  then have "(\<exists>i \<ge> 0. dget b2 ''revision'' = PInt i) \<or> \<not> has_key b2 ''revision''"
    by (auto simp: b2_def)
  moreover have "dget b2 ''revision'' = PNone" if "\<not> has_key b2 ''revision''"
    using that by (simp add: has_key_def dget_def)
  ultimately have r: "(case dget b2 ''revision'' of PInt i \<Rightarrow> if i < 0 then dpop ''revision'' b2 else b2
                     | _ \<Rightarrow> dpop ''revision'' b2) = b2"
    by (auto simp: dpop_absent)
  have "is_dict (dget b2 ''actions'')" by (simp add: b2_def)
  with r show ?thesis unfolding v by (simp add: norm_bootstrap_def Let_def)
qed (simp_all add: norm_bootstrap_def dget_def AList.delete_eq Let_def)

lemma norm_perks_idem: "norm_perks (norm_perks v) = norm_perks v"
proof (cases v)
  case (PDict p)
  define e where "e = safe_nonnegative_int (dget_or p ''epoch'' (PInt 0)) 0"
  define d where "d = filter (\<lambda>(k, n). k \<noteq> [] \<and> safe_nonnegative_int n (- 1) \<ge> 0)
    (the_dict (dget p ''delivered''))"
  define p2 where "p2 = dset ''delivered'' (PDict d) (dset ''epoch'' (PInt e) p)"
  have v: "norm_perks v = PDict p2"
    by (simp add: norm_perks_def PDict e_def d_def p2_def Let_def)
  have e: "e \<ge> 0" by (simp add: e_def safe_nonnegative_ge)
  have f: "filter (\<lambda>(k, n). k \<noteq> [] \<and> safe_nonnegative_int n (- 1) \<ge> 0) d = d"
    by (simp add: d_def)
  have "dset ''epoch'' (PInt e) p2 = p2" by (rule dset_dget_same) (simp_all add: p2_def)
  moreover have "dset ''delivered'' (PDict d) p2 = p2" by (rule dset_dget_same) (simp_all add: p2_def)
  moreover have "dget_or p2 ''epoch'' (PInt 0) = PInt e" "dget p2 ''delivered'' = PDict d"
    by (simp_all add: p2_def)
  ultimately show ?thesis unfolding v using e f by (simp add: norm_perks_def Let_def)
qed (simp_all add: norm_perks_def dget_def dget_or_def Let_def)

lemma norm_group_idem:
  assumes "norm_group v = Some v'"
  shows "norm_group v' = Some v'"
proof -
  from assms obtain g where v: "v = PDict g" by (auto simp: norm_group_def split: pyval.splits)
  define n where "n = dget_or g ''next_command'' (PInt 0)"
  define t where "t = dget_or g ''total_commands'' (PInt 0)"
  define g' where "g' = dset ''total_commands'' (PInt (the_int t))
                  (dset ''next_command'' (PInt (the_int n)) (dset ''item_id'' (dget g ''item_id'') g))"
  from assms v have v': "v' = PDict g'" and ok: "is_int (dget g ''item_id'')"
    "safe_nonnegative_int n (- 1) \<ge> 0" "safe_nonnegative_int t (- 1) \<ge> 0" "the_int n \<le> the_int t"
    by (auto simp: norm_group_def Let_def n_def t_def g'_def split: if_splits)
  have pos: "the_int n \<ge> 0" "the_int t \<ge> 0"
    using ok(2,3) by (auto simp: safe_nonnegative_int_def split: pyval.splits if_splits)
  have same: "dset ''item_id'' (dget g ''item_id'') g' = g'"
    "dset ''next_command'' (PInt (the_int n)) g' = g'" "dset ''total_commands'' (PInt (the_int t)) g' = g'"
    by (rule dset_dget_same; simp add: g'_def)+
  have get: "dget_or g' ''next_command'' d = PInt (the_int n)" "dget_or g' ''total_commands'' d = PInt (the_int t)"
    "dget g' ''item_id'' = dget g ''item_id''" for d
    by (simp_all add: g'_def)
  from ok pos same get show ?thesis by (simp add: v' norm_group_def Let_def)
qed

lemma norm_groups_list_idem: "norm_groups_list (norm_groups_list g) = norm_groups_list g"
  by (induction g rule: norm_groups_list.induct) (auto simp: norm_group_idem split: option.splits)

lemma norm_groups_idem: "norm_groups (norm_groups v) = norm_groups v"
  by (simp add: norm_groups_def norm_groups_list_idem)

lemma dget_on_field [simp]: "dget (on_field k f d) k' = (if k' = k then f (dget d k) else dget d k')"
  by (simp add: on_field_def)

lemma has_key_on_field [simp]: "has_key (on_field k f d) k' \<longleftrightarrow> k' = k \<or> has_key d k'"
  by (simp add: on_field_def)

lemma has_key_on_present [simp]: "has_key (on_present k f d) k' = has_key d k'"
  by (auto simp: on_present_def)

lemma dget_on_present [simp]:
  "dget (on_present k f d) k' = (if k' = k \<and> has_key d k then f (dget d k) else dget d k')"
  by (auto simp: on_present_def)

lemma is_dict_has_key: "is_dict (dget d k) \<Longrightarrow> has_key d k"
  by (auto simp: dget_def has_key_def split: option.splits)

lemma has_key_groups [simp]:
  "has_key (norm_groups_field d) k \<longleftrightarrow>
     has_key d k \<and> (k = ''item_command_groups'' \<longrightarrow> is_dict (dget d k))"
  using is_dict_has_key [of d "''item_command_groups''"] by (auto simp: norm_groups_field_def)

lemma dget_groups [simp]:
  "dget (norm_groups_field d) k = (if k = ''item_command_groups''
     then (if is_dict (dget d k) then norm_groups (dget d k) else PNone) else dget d k)"
  by (auto simp: norm_groups_field_def)

lemma on_field_fixed: "has_key d k \<Longrightarrow> f (dget d k) = dget d k \<Longrightarrow> on_field k f d = d"
  by (simp add: on_field_def dset_dget_same)

lemma on_present_fixed: "(has_key d k \<Longrightarrow> f (dget d k) = dget d k) \<Longrightarrow> on_present k f d = d"
  by (simp add: on_present_def on_field_fixed)

lemma norm_groups_fixed:
  "(has_key d ''item_command_groups'' \<Longrightarrow> is_dict (dget d ''item_command_groups'') \<and>
     norm_groups (dget d ''item_command_groups'') = dget d ''item_command_groups'') \<Longrightarrow>
   norm_groups_field d = d"
  by (auto simp: norm_groups_field_def on_field_fixed dpop_absent has_key_def dget_def
      split: option.splits)

text \<open>What a normalized session looks like, field by field.\<close>

definition normal_session :: "pydict \<Rightarrow> bool" where
  "normal_session d \<longleftrightarrow>
     (\<forall>(k, f) \<in> set [(''deferred_frag_items'', norm_frag), (''item_resync'', dict_or []),
          (''bootstrap'', norm_bootstrap), (''save_slot_observations'', dict_or []),
          (''automap_cleanup'', norm_cleanup), (''item_mapping_revision'', norm_revision),
          (''perk_reconciliation'', norm_perks), (''rune_reconciliation'', dict_or [])].
        has_key d k \<and> f (dget d k) = dget d k) \<and>
     (\<forall>(k, f) \<in> set [(''physical_slayer_gates'', norm_gates), (''goal_sent'', norm_goal),
          (''cultist_autosave_path'', norm_autosave), (''mapping_repair_indices'', norm_indices),
          (''never_replay_history'', norm_never), (''never_replay_items'', norm_never),
          (''never_replayed'', norm_never), (''never_replay'', norm_never)].
        has_key d k \<longrightarrow> f (dget d k) = dget d k) \<and>
     has_key d ''processed_items'' \<and> has_key d ''receipt_history'' \<and>
     (\<exists>p h. p \<ge> 0 \<and> dget d ''processed_items'' = PInt p \<and> dget d ''receipt_history'' = PDict h \<and>
        normal_history p h) \<and>
     (has_key d ''item_command_groups'' \<longrightarrow> is_dict (dget d ''item_command_groups'') \<and>
        norm_groups (dget d ''item_command_groups'') = dget d ''item_command_groups'')"

lemma normal_session_fixed:
  assumes "normal_session d"
  shows "normalize_session_state (PDict d) = d"
proof -
  note n = assms [unfolded normal_session_def]
  have "\<exists>p h. p \<ge> 0 \<and> dget d ''processed_items'' = PInt p \<and> dget d ''receipt_history'' = PDict h \<and>
      normal_history p h"
    using n by (elim conjE) assumption
  then obtain p h where p: "p \<ge> 0" "dget d ''processed_items'' = PInt p"
    "dget d ''receipt_history'' = PDict h" "normal_history p h" by blast
  have k1: "has_key d ''processed_items''" using n by (elim conjE) assumption
  have k2: "has_key d ''receipt_history''" using n by (elim conjE) assumption
  note k = k1 k2
  have always: "on_field ''deferred_frag_items'' norm_frag d = d" "on_field ''item_resync'' (dict_or []) d = d"
    "on_field ''bootstrap'' norm_bootstrap d = d" "on_field ''save_slot_observations'' (dict_or []) d = d"
    "on_field ''automap_cleanup'' norm_cleanup d = d" "on_field ''item_mapping_revision'' norm_revision d = d"
    "on_field ''perk_reconciliation'' norm_perks d = d" "on_field ''rune_reconciliation'' (dict_or []) d = d"
    by (rule on_field_fixed; use conjunct1 [OF n] in simp)+
  have present: "on_present ''physical_slayer_gates'' norm_gates d = d" "on_present ''goal_sent'' norm_goal d = d"
    "on_present ''cultist_autosave_path'' norm_autosave d = d"
    "on_present ''mapping_repair_indices'' norm_indices d = d"
    "on_present ''never_replay_history'' norm_never d = d" "on_present ''never_replay_items'' norm_never d = d"
    "on_present ''never_replayed'' norm_never d = d" "on_present ''never_replay'' norm_never d = d"
    by (rule on_present_fixed; use conjunct1 [OF conjunct2 [OF n]] in simp)+
  have groups: "norm_groups_field d = d" 
    by (rule norm_groups_fixed) (use n in \<open>elim conjE, blast\<close>)
  have history: "on_field ''receipt_history'' (norm_history p) d = d"
    using k p by (intro on_field_fixed) (simp_all add: normal_history_fixed)
  have processed: "dset ''processed_items'' (PInt p) d = d" using k p by (intro dset_dget_same)
  have "safe_nonnegative_int (dget d ''processed_items'') 0 = p" using p(1,2) by simp
  then show ?thesis
    by (simp only: normalize_session_state_def Let_def the_dict_PDict always present groups history processed)
qed

lemma is_dict_norm_groups [simp]: "is_dict (norm_groups v)"
  by (simp add: norm_groups_def)

lemmas field_idem = norm_gates_idem norm_frag_idem norm_cleanup_idem norm_goal_idem norm_autosave_idem
  norm_revision_idem norm_indices_idem norm_never_idem norm_bootstrap_idem norm_perks_idem
  norm_groups_idem dict_or_idem

lemma normalize_normal: "normal_session (normalize_session_state v)"
  using norm_history_normal safe_nonnegative_ge
  by (simp add: normal_session_def normalize_session_state_def Let_def field_idem)

lemma normalize_idem: "normalize_session_state (PDict (normalize_session_state v)) = normalize_session_state v"
  by (rule normal_session_fixed [OF normalize_normal])

section \<open>Property\<close>

text \<open>Property C23. Migration of the client state yields version 2 with every session in normal
  form, a second load of the migrated document changes nothing and reports no migration, and
  only the version and the sessions are rewritten: every other entry is preserved.\<close>

theorem migration_is_idempotent:
  assumes "migrate_client_state raw = Inr (state, migrated)"
  shows "migrate_client_state (PDict state) = Inr (state, False) \<and>
    dget state ''version'' = PInt 2 \<and>
    (\<exists>sessions. dget state ''sessions'' = PDict sessions \<and>
       (\<forall>(k, s) \<in> set sessions. \<exists>d. s = PDict d \<and> normal_session d)) \<and>
    (\<exists>d. raw = PDict d \<and> (migrated \<longleftrightarrow> dget d ''version'' = PInt 1) \<and>
       (\<forall>k. k \<notin> {''version'', ''sessions''} \<longrightarrow> dget state k = dget d k))"
proof -
  from assms obtain d version sessions where raw: "raw = PDict d" "dget d ''version'' = PInt version"
    "version \<in> {1, 2}" "dget d ''sessions'' = PDict sessions"
    and m: "migrated \<longleftrightarrow> version = 1"
    and st: "state = dset ''sessions'' (PDict (map (\<lambda>(k, s). (k, PDict (normalize_session_state s)))
        (filter (\<lambda>(k, s). k \<noteq> []) (sort_key fst sessions)))) (dset ''version'' (PInt 2) d)"
    by (auto simp: migrate_client_state_def CLIENT_STATE_VERSION_def split: pyval.splits if_splits)
  let ?f = "filter (\<lambda>(k, s). k \<noteq> []) (sort_key fst sessions)"
  let ?ss = "map (\<lambda>(k, s). (k, PDict (normalize_session_state s))) ?f"
  have "sorted (map fst ?ss)"
    by (simp add: comp_def case_prod_beta sorted_filter)
  then have srt: "sort_key fst ?ss = ?ss" by (rule sort_key_id_if_sorted)
  have flt: "filter (\<lambda>(k, s). k \<noteq> []) ?ss = ?ss" by (rule filter_True) auto
  have idem: "map (\<lambda>(k, s). (k, PDict (normalize_session_state s))) ?ss = ?ss"
    by (auto simp: normalize_idem)
  have ver: "dget state ''version'' = PInt 2" and ses: "dget state ''sessions'' = PDict ?ss"
    by (simp_all add: st)
  have same: "dset ''sessions'' (PDict ?ss) (dset ''version'' (PInt 2) state) = state"
  proof -
    have "dset ''version'' (PInt 2) state = state"
      by (rule dset_dget_same) (simp_all add: st)
    moreover have "dset ''sessions'' (PDict ?ss) state = state"
      by (rule dset_dget_same) (simp_all add: st)
    ultimately show ?thesis by simp
  qed
  have again: "migrate_client_state (PDict state) = Inr (state, False)"
    using ver ses same by (simp add: migrate_client_state_def CLIENT_STATE_VERSION_def srt flt idem
        del: map_map filter_map)
  show ?thesis using again ver ses raw m st normalize_normal by auto
qed

theorem migration_is_idempotent_witness:
  "\<exists>state. migrate_client_state (PDict [(''version'', PInt 1), (''sessions'', PDict []), (''x'', PNone)])
      = Inr (state, True) \<and> migrate_client_state (PDict state) = Inr (state, False)
    \<and> dget state ''version'' = PInt 2"
proof -
  have run: "migrate_client_state (PDict [(''version'', PInt 1), (''sessions'', PDict []), (''x'', PNone)])
      = Inr ([(''version'', PInt 2), (''sessions'', PDict []), (''x'', PNone)], True)"
    by (simp add: migrate_client_state_def CLIENT_STATE_VERSION_def dget_def)
  show ?thesis using run migration_is_idempotent [OF run] by (intro exI conjI) (rule run, simp_all)
qed

end
