(* ===== verification/Weapon_Points.thy ===== *)
theory Weapon_Points
  imports Command_Identity
begin

text \<open>
  Spendable weapon upgrade points, \<open>doom_eap/runtime/weapon_points.py\<close>: the namespace of a
  session, the checks on the native results and the receipt ledger that makes a grant happen
  once although the client, the game or the disk may fail between any two steps.

  \<open>_execute\<close> talks to the native probe, code outside this repository's Python: it is the
  parameter \<open>link\<close>, a function of the amount and the expected total on a world. \<open>persist\<close>
  stores the session document and may raise. The asynchronous variants run the same steps in the
  same order, with the native calls on a worker.
\<close>

section \<open>The session namespace\<close>

definition WEAPON_POINTS_ITEM :: int where "WEAPON_POINTS_ITEM = 7770903"
definition WUP_AMOUNT :: int where "WUP_AMOUNT = 3"

abbreviation WeaponPointsBlocked :: "string \<Rightarrow> exn" where
  "WeaponPointsBlocked m \<equiv> Exn ''WeaponPointsBlocked'' m"

text \<open>\<open>struct.pack(">I", n)\<close>.\<close>

definition pack_be32 :: "nat \<Rightarrow> byte list" where
  "pack_be32 n = map word_of_nat [n div 16777216 mod 256, n div 65536 mod 256, n div 256 mod 256, n mod 256]"

definition framed :: "string \<Rightarrow> byte list" where
  "framed s = pack_be32 (length (utf8 s)) @ utf8 s"

definition namespace_text :: "string \<Rightarrow> int \<Rightarrow> int \<Rightarrow> string \<Rightarrow> byte list" where
  "namespace_text seed team slot fingerprint = utf8 ''sentinel-ap-session-identity'' @
     concat (map framed [seed, str_int team, str_int slot, fingerprint])"

definition namespace_id :: "pyval \<Rightarrow> pyval \<Rightarrow> pyval \<Rightarrow> pyval \<Rightarrow> string res" where
  "namespace_id seed team slot fingerprint =
     (if \<not> is_str seed \<or> \<not> truthy seed \<or> \<not> is_int team \<or> \<not> (0 \<le> the_int team \<and> the_int team \<le> 4294967295)
         \<or> \<not> is_int slot \<or> \<not> (1 \<le> the_int slot \<and> the_int slot \<le> 4294967295)
      then Inl (WeaponPointsBlocked ''Incomplete AP identity'')
      else case (seed, fingerprint) of
        (PStr s, PStr f) \<Rightarrow>
          (if length f \<noteq> 64 \<or> \<not> list_all is_lower_hex f
           then Inl (WeaponPointsBlocked ''Missing generated native save fingerprint'')
           else if length (utf8 s) \<ge> 4294967296 then Inl (Exn ''error'' ''argument out of range'')
           else Inr (hexdigest (sha256 (namespace_text s (the_int team) (the_int slot) f))))
      | _ \<Rightarrow> Inl (WeaponPointsBlocked ''Missing generated native save fingerprint''))"

section \<open>Native results\<close>

record wup_result =
  wr_outcome :: int
  wr_flags :: int
  wr_before :: pyval
  wr_after :: pyval

type_synonym 'w wup_link = "int \<Rightarrow> int \<Rightarrow> 'w \<Rightarrow> 'w \<times> wup_result res"
type_synonym 'w session_persister = "pydict \<Rightarrow> 'w \<Rightarrow> 'w \<times> unit res"

definition wup_confirmed :: "wup_result \<Rightarrow> bool" where
  "wup_confirmed r \<longleftrightarrow> wr_outcome r \<in> {1, 2} \<and> bit (wr_flags r) 4"

definition observe_points :: "'w wup_link \<Rightarrow> 'w \<Rightarrow> 'w \<times> wup_result res" where
  "observe_points link w = (case link 0 0 w of
     (w1, Inl e) \<Rightarrow> (w1, Inl e)
   | (w1, Inr r) \<Rightarrow> (w1, if wup_confirmed r then Inr r else Inl (WeaponPointsBlocked ''Native WUP observation failed'')))"

definition grant_weapon_upgrade_points :: "'w wup_link \<Rightarrow> int \<Rightarrow> int \<Rightarrow> 'w \<Rightarrow> 'w \<times> wup_result res" where
  "grant_weapon_upgrade_points link amount expected w =
     (if amount \<le> 0 \<or> amount > 117 then (w, Inl (WeaponPointsBlocked ''Invalid WUP amount''))
      else case link amount expected w of
        (w1, Inl e) \<Rightarrow> (w1, Inl e)
      | (w1, Inr r) \<Rightarrow> (w1, if wup_confirmed r then Inr r else Inl (WeaponPointsBlocked ''Native WUP execution failed'')))"

section \<open>The receipt ledger\<close>

text \<open>\<open>v == n\<close> of a JSON value and an integer.\<close>

definition equals_int :: "pyval \<Rightarrow> int \<Rightarrow> bool" where
  "equals_int v n \<longleftrightarrow> (is_int_or_bool v \<and> the_int v = n) \<or> v = PFloat (str_int n @ ''.0'')"

definition wup_record :: "int \<times> string \<Rightarrow> pyval" where
  "wup_record = (\<lambda>(index, receipt). PDict [(''index'', PInt index), (''receipt'', PStr receipt), (''amount'', PInt WUP_AMOUNT)])"

fun record_entry :: "pyval \<Rightarrow> (int \<times> string) option" where
  "record_entry (PDict d) =
     (if set (map fst d) = {''index'', ''receipt'', ''amount''} \<and> equals_int (dget d ''amount'') WUP_AMOUNT
      then (case (dget d ''index'', dget d ''receipt'') of
          (PInt index, PStr receipt) \<Rightarrow> if receipt = [] then None else Some (index, receipt)
        | _ \<Rightarrow> None)
      else None)"
| "record_entry _ = None"

text \<open>The records in order, \<open>None\<close> when one is invalid or its index does not increase.\<close>

fun ledger_entries :: "int \<Rightarrow> pyval list \<Rightarrow> (int \<times> string) list option" where
  "ledger_entries previous [] = Some []"
| "ledger_entries previous (v # vs) =
     (case record_entry v of
        None \<Rightarrow> None
      | Some (index, receipt) \<Rightarrow>
          (if index \<le> previous then None
           else map_option ((#) (index, receipt)) (ledger_entries index vs)))"

definition ledger_receipts :: "string \<Rightarrow> pyval \<Rightarrow> (int \<times> string) list res" where
  "ledger_receipts namespace ledger =
     (case ledger of
        PDict d \<Rightarrow>
         (case dget d ''receipts'' of
            PList vs \<Rightarrow>
             (if \<not> equals_int (dget d ''version'') 1 \<or> dget d ''namespace'' \<noteq> PStr namespace
              then Inl (WeaponPointsBlocked ''Incompatible WUP receipt ownership'')
              else case ledger_entries (- 1) vs of
                     None \<Rightarrow> Inl (WeaponPointsBlocked ''Invalid WUP receipt ledger'')
                   | Some entries \<Rightarrow> Inr entries)
          | _ \<Rightarrow> Inl (WeaponPointsBlocked ''Incompatible WUP receipt ownership''))
      | _ \<Rightarrow> Inl (WeaponPointsBlocked ''Incompatible WUP receipt ownership''))"

definition fresh_ledger :: "string \<Rightarrow> (int \<times> string) list \<Rightarrow> pyval" where
  "fresh_ledger namespace entries = PDict [(''version'', PInt 1), (''namespace'', PStr namespace),
     (''receipts'', PList (map wup_record entries))]"

type_synonym 'w points_step = "pydict \<Rightarrow> 'w \<Rightarrow> pydict \<times> 'w \<times> unit res"

definition points_ledger :: "'w wup_link \<Rightarrow> 'w session_persister \<Rightarrow> string \<Rightarrow> (int \<times> string) list
    \<Rightarrow> pydict \<Rightarrow> 'w \<Rightarrow> pydict \<times> 'w \<times> (int \<times> string) list res" where
  "points_ledger link persist namespace authoritative state w =
     (case dget state ''weapon_points'' of
        PNone \<Rightarrow>
         (case observe_points link w of
            (w1, Inl e) \<Rightarrow> (state, w1, Inl e)
          | (w1, Inr r) \<Rightarrow>
             (let gained = the_int (wr_after r); history = sort_key fst authoritative in
              if \<not> is_int (wr_after r) \<or> gained < 0 \<or> gained mod WUP_AMOUNT \<noteq> 0 \<or> gained > int (length history) * WUP_AMOUNT
              then (state, w1, Inl (WeaponPointsBlocked ''Native earned WUP needs the complete matching AP item history''))
              else
               let ledger = fresh_ledger namespace (take (nat (gained div WUP_AMOUNT)) history);
                   state1 = dset ''weapon_points'' ledger state
               in case persist state1 w1 of
                    (w2, Inl e) \<Rightarrow> (dpop ''weapon_points'' state1, w2, Inl e)
                  | (w2, Inr _) \<Rightarrow> (state1, w2, ledger_receipts namespace ledger)))
      | ledger \<Rightarrow> (state, w, ledger_receipts namespace ledger))"

function grant_loop :: "'w wup_link \<Rightarrow> int \<Rightarrow> int \<Rightarrow> 'w \<Rightarrow> 'w \<times> unit res" where
  "grant_loop link total_points gained w =
     (if gained < total_points
      then (case grant_weapon_upgrade_points link WUP_AMOUNT gained w of
              (w1, Inl e) \<Rightarrow> (w1, Inl e)
            | (w1, Inr r) \<Rightarrow>
               (if \<not> equals_int (wr_before r) gained \<or> \<not> equals_int (wr_after r) (gained + WUP_AMOUNT)
                then (w1, Inl (WeaponPointsBlocked ''Native grant result does not match the pending receipt''))
                else grant_loop link total_points (gained + WUP_AMOUNT) w1))
      else (w, Inr ()))"
  by pat_completeness auto
termination by (relation "measure (\<lambda>(link, total_points, gained, w). nat (total_points - gained))") (auto simp: WUP_AMOUNT_def)

declare grant_loop.simps [simp del]

definition reconcile_points :: "'w wup_link \<Rightarrow> 'w session_persister \<Rightarrow> string \<Rightarrow> (int \<times> string) list \<Rightarrow> 'w points_step" where
  "reconcile_points link persist namespace authoritative state w =
     (case points_ledger link persist namespace authoritative state w of
        (state1, w1, Inl e) \<Rightarrow> (state1, w1, Inl e)
      | (state1, w1, Inr entries) \<Rightarrow>
         (if list_ex (\<lambda>(index, receipt). map_of authoritative index \<noteq> Some receipt) entries
          then (state1, w1, Inl (WeaponPointsBlocked ''AP history does not own the persisted WUP receipt''))
          else case observe_points link w1 of
            (w2, Inl e) \<Rightarrow> (state1, w2, Inl e)
          | (w2, Inr r) \<Rightarrow>
             (let total_points = WUP_AMOUNT * int (length entries); gained = the_int (wr_after r) in
              if \<not> is_int_or_bool (wr_after r) then (state1, w2, Inl (TypeError ''unsupported operand''))
              else if gained > total_points \<or> gained mod WUP_AMOUNT \<noteq> 0
              then (state1, w2, Inl (WeaponPointsBlocked ''Native earned WUP disagrees with receipt ownership''))
              else (state1, grant_loop link total_points gained w2))))"

definition appended_ledger :: "pyval \<Rightarrow> int \<Rightarrow> string \<Rightarrow> pyval" where
  "appended_ledger ledger index receipt =
     (case ledger of
        PDict d \<Rightarrow> (case dget d ''receipts'' of
            PList vs \<Rightarrow> PDict (dset ''receipts'' (PList (vs @ [wup_record (index, receipt)])) d)
          | _ \<Rightarrow> ledger)
      | _ \<Rightarrow> ledger)"

definition record_receipt :: "'w session_persister \<Rightarrow> (int \<times> string) list \<Rightarrow> int \<Rightarrow> string \<Rightarrow> 'w points_step" where
  "record_receipt persist entries index receipt state w =
     (case map_of entries index of
        Some old \<Rightarrow> (state, w, if old \<noteq> receipt then Inl (WeaponPointsBlocked ''WUP receipt changed at an existing index'') else Inr ())
      | None \<Rightarrow>
         (if entries \<noteq> [] \<and> fst (last entries) \<ge> index
          then (state, w, Inl (WeaponPointsBlocked ''WUP receipt order changed''))
          else
           let state1 = dset ''weapon_points'' (appended_ledger (dget state ''weapon_points'') index receipt) state
           in case persist state1 w of
                (w1, Inl e) \<Rightarrow> (state, w1, Inl e)
              | (w1, Inr _) \<Rightarrow> (state1, w1, Inr ())))"

definition deliver_points :: "'w wup_link \<Rightarrow> 'w session_persister \<Rightarrow> string \<Rightarrow> int \<Rightarrow> string \<Rightarrow> (int \<times> string) list
    \<Rightarrow> 'w points_step" where
  "deliver_points link persist namespace index receipt authoritative state w =
     (if map_of authoritative index \<noteq> Some receipt \<or> receipt = []
      then (state, w, Inl (WeaponPointsBlocked ''WUP receipt is not authoritative''))
      else case points_ledger link persist namespace authoritative state w of
        (state1, w1, Inl e) \<Rightarrow> (state1, w1, Inl e)
      | (state1, w1, Inr entries) \<Rightarrow>
         (case record_receipt persist entries index receipt state1 w1 of
            (state2, w2, Inl e) \<Rightarrow> (state2, w2, Inl e)
          | (state2, w2, Inr _) \<Rightarrow> reconcile_points link persist namespace authoritative state2 w2))"

section \<open>Exactly-once grants\<close>

text \<open>What the native side and the disk promise. A native call only ever moves the earned total
  when it is a grant whose expected total is the present one, by exactly its amount - also when it
  then reports a failure; a confirmed result tells the totals before and after. A failed \<open>persist\<close>
  leaves the old or the new document; a successful one the new.\<close>

definition wup_link_ok :: "'w wup_link \<Rightarrow> 'w session_persister \<Rightarrow> ('w \<Rightarrow> int) \<Rightarrow> ('w \<Rightarrow> pydict) \<Rightarrow> bool" where
  "wup_link_ok link persist points saved \<longleftrightarrow>
     (\<forall>a x w w' r. link a x w = (w', r) \<longrightarrow> saved w' = saved w \<and>
        (points w' = points w \<or> (a \<noteq> 0 \<and> points w = x \<and> points w' = points w + a)) \<and>
        (\<forall>res. r = Inr res \<longrightarrow> wup_confirmed res \<longrightarrow> wr_before res = PInt (points w) \<and> wr_after res = PInt (points w'))) \<and>
     (\<forall>d w w' r. persist d w = (w', r) \<longrightarrow> points w' = points w \<and>
        (saved w' = d \<or> (saved w' = saved w \<and> r \<noteq> Inr ())))"

text \<open>\<open>{index: receipt_identity(item)}\<close> of the received items.\<close>

definition authoritative_ok :: "(int \<times> string) list \<Rightarrow> bool" where
  "authoritative_ok authoritative \<longleftrightarrow> distinct (map fst authoritative) \<and> (\<forall>(i, r) \<in> set authoritative. 0 \<le> i \<and> r \<noteq> [])"

definition owns :: "string \<Rightarrow> pydict \<Rightarrow> (int \<times> string) list \<Rightarrow> bool" where
  "owns namespace state entries \<longleftrightarrow>
     dget state ''weapon_points'' \<noteq> PNone \<and> ledger_receipts namespace (dget state ''weapon_points'') = Inr entries"

definition wup_inv :: "string \<Rightarrow> ('w \<Rightarrow> int) \<Rightarrow> ('w \<Rightarrow> pydict) \<Rightarrow> pydict \<Rightarrow> 'w \<Rightarrow> bool" where
  "wup_inv namespace points saved state w \<longleftrightarrow>
     (dget (saved w) ''weapon_points'' = PNone \<or> (\<exists>ds. owns namespace (saved w) ds \<and> points w \<le> 3 * int (length ds))) \<and>
     (dget state ''weapon_points'' = PNone \<or>
       (\<exists>es ds. owns namespace state es \<and> owns namespace (saved w) ds \<and> prefix es ds \<and> points w \<le> 3 * int (length es)))"

lemma record_entry_wup: "receipt \<noteq> [] \<Longrightarrow> record_entry (wup_record (index, receipt)) = Some (index, receipt)"
  by (auto simp: wup_record_def equals_int_def dget_def)

lemma ledger_entries_sorted:
  "ledger_entries previous vs = Some es \<Longrightarrow> sorted_wrt (<) (map fst es) \<and> (\<forall>e \<in> set es. previous < fst e)"
proof (induction vs arbitrary: previous es)
  case (Cons v vs)
  then obtain i r es' where "record_entry v = Some (i, r)" "previous < i" "ledger_entries i vs = Some es'" "es = (i, r) # es'"
    by (auto split: option.splits if_splits prod.splits)
  with Cons.IH [of i es'] show ?case by fastforce
qed simp

lemma ledger_entries_append:
  "ledger_entries previous vs = Some es \<Longrightarrow> previous < index \<Longrightarrow> \<forall>e \<in> set es. fst e < index \<Longrightarrow> receipt \<noteq> [] \<Longrightarrow>
   ledger_entries previous (vs @ [wup_record (index, receipt)]) = Some (es @ [(index, receipt)])"
proof (induction vs arbitrary: previous es)
  case Nil
  then show ?case by (simp add: record_entry_wup)
next
  case (Cons v vs)
  then obtain i r es' where "record_entry v = Some (i, r)" "previous < i" "ledger_entries i vs = Some es'" "es = (i, r) # es'"
    by (auto split: option.splits if_splits prod.splits)
  with Cons show ?case by simp
qed

lemma ledger_entries_map:
  "sorted_wrt (<) (map fst es) \<Longrightarrow> \<forall>(i, r) \<in> set es. previous < i \<and> r \<noteq> [] \<Longrightarrow>
   ledger_entries previous (map wup_record es) = Some es"
proof (induction es arbitrary: previous)
  case (Cons e es)
  then show ?case by (cases e) (fastforce simp: record_entry_wup)
qed simp

lemma ledger_receipts_sorted:
  "ledger_receipts namespace ledger = Inr es \<Longrightarrow> sorted_wrt (<) (map fst es) \<and> (\<forall>e \<in> set es. - 1 < fst e)"
  by (auto simp: ledger_receipts_def dest!: ledger_entries_sorted split: pyval.splits option.splits if_splits)

lemma ledger_receipts_fresh:
  assumes "authoritative_ok authoritative"
  shows "ledger_receipts namespace (fresh_ledger namespace (take n (sort_key fst authoritative))) = Inr (take n (sort_key fst authoritative))"
proof -
  let ?h = "sort_key fst authoritative"
  have "distinct (map fst ?h)" using assms
    by (metis authoritative_ok_def distinct_map distinct_sort set_sort)
  then have "sorted_wrt (<) (map fst ?h)" using sorted_sort_key [of fst authoritative]
    by (simp add: strict_sorted_iff)
  then have "sorted_wrt (<) (map fst (take n ?h))" by (metis sorted_wrt_take take_map)
  moreover have "\<forall>(i, r) \<in> set (take n ?h). - 1 < i \<and> r \<noteq> []"
    using assms by (auto simp: authoritative_ok_def dest!: in_set_takeD) fastforce+
  ultimately have "ledger_entries (- 1) (map wup_record (take n ?h)) = Some (take n ?h)" by (rule ledger_entries_map)
  then show ?thesis by (simp add: ledger_receipts_def fresh_ledger_def equals_int_def dget_def)
qed

lemma ledger_receipts_appended:
  assumes "ledger_receipts namespace ledger = Inr es" and "\<forall>e \<in> set es. fst e < index" and "0 \<le> index" and "receipt \<noteq> []"
  shows "ledger_receipts namespace (appended_ledger ledger index receipt) = Inr (es @ [(index, receipt)])" "appended_ledger ledger index receipt \<noteq> PNone"
  using assms ledger_entries_append [of "- 1" _ es index receipt]
  by (auto simp: ledger_receipts_def appended_ledger_def split: pyval.splits option.splits if_splits)

lemma owns_unique: "owns namespace state es \<Longrightarrow> owns namespace state ds \<Longrightarrow> es = ds"
  by (simp add: owns_def)

lemma link_laws:
  assumes "wup_link_ok link persist points saved"
  shows "link a x w = (w', r) \<Longrightarrow> saved w' = saved w"
    and "link a x w = (w', r) \<Longrightarrow> points w' = points w \<or> (a \<noteq> 0 \<and> points w = x \<and> points w' = points w + a)"
    and "link a x w = (w', Inr res) \<Longrightarrow> wup_confirmed res \<Longrightarrow> wr_before res = PInt (points w) \<and> wr_after res = PInt (points w')"
    and "persist d w = (w', s) \<Longrightarrow> points w' = points w"
    and "persist d w = (w', s) \<Longrightarrow> saved w' = d \<or> (saved w' = saved w \<and> s \<noteq> Inr ())"
  using assms unfolding wup_link_ok_def by blast+

lemma observe_points_laws:
  assumes ok: "wup_link_ok link persist points saved" and obs: "observe_points link w = (w', r)"
  shows "saved w' = saved w" "points w' = points w" "r = Inr res \<Longrightarrow> wr_after res = PInt (points w)"
  using obs link_laws [OF ok] unfolding observe_points_def
  by (auto split: prod.splits sum.splits if_splits) (metis+)

lemma grant_laws:
  assumes ok: "wup_link_ok link persist points saved" and g: "grant_weapon_upgrade_points link a x w = (w', r)"
  shows "saved w' = saved w" "points w' = points w \<or> (points w = x \<and> points w' = points w + a)"
    "r = Inr res \<Longrightarrow> wr_after res = PInt (points w')"
  using g link_laws [OF ok] unfolding grant_weapon_upgrade_points_def
  by (auto split: prod.splits sum.splits if_splits) (metis+)


lemma grant_loop_laws:
  assumes ok: "wup_link_ok link persist points saved"
  shows "grant_loop link total_points gained w = (w', r) \<Longrightarrow> points w = gained \<Longrightarrow> gained \<le> total_points \<Longrightarrow>
    (total_points - gained) mod 3 = 0 \<Longrightarrow>
    saved w' = saved w \<and> points w' \<le> total_points \<and> (r = Inr () \<longrightarrow> points w' = total_points)"
proof (induction "nat (total_points - gained)" arbitrary: gained w rule: less_induct)
  case less
  show ?case
  proof (cases "gained < total_points")
    case False
    with less.prems show ?thesis by (simp add: grant_loop.simps)
  next
    case True
    with less.prems(4) have room: "gained + 3 \<le> total_points" by presburger
    obtain w1 g where g: "grant_weapon_upgrade_points link WUP_AMOUNT gained w = (w1, g)" by fastforce
    note laws = grant_laws [OF ok g]
    show ?thesis
    proof (cases "\<exists>res. g = Inr res \<and> equals_int (wr_before res) gained \<and> equals_int (wr_after res) (gained + WUP_AMOUNT)")
      case False
      then have "saved w' = saved w1 \<and> points w' = points w1 \<and> r \<noteq> Inr ()"
        using less.prems(1) g True by (auto simp: grant_loop.simps [of link total_points gained] split: sum.splits if_splits)
      with laws(1,2) less.prems(2) room True show ?thesis by (auto simp: WUP_AMOUNT_def)
    next
      case match: True
      then obtain res where res: "g = Inr res" "equals_int (wr_before res) gained" "equals_int (wr_after res) (gained + WUP_AMOUNT)" by blast
      have "points w1 = gained + 3" using res(3) laws(3) [OF res(1)] by (simp add: equals_int_def WUP_AMOUNT_def)
      moreover have "grant_loop link total_points (gained + 3) w1 = (w', r)"
        using less.prems(1) g True res by (simp add: grant_loop.simps [of link total_points gained] WUP_AMOUNT_def)
      moreover have "(total_points - (gained + 3)) mod 3 = 0" using less.prems(4) by presburger
      ultimately have "saved w' = saved w1 \<and> points w' \<le> total_points \<and> (r = Inr () \<longrightarrow> points w' = total_points)"
        using less.hyps [of "gained + 3" w1] room True by simp
      with laws(1) show ?thesis by simp
    qed
  qed
qed

lemma wup_inv_durable:
  "wup_inv namespace points saved state w \<Longrightarrow>
   dget (saved w) ''weapon_points'' = PNone \<or> (\<exists>ds. owns namespace (saved w) ds \<and> points w \<le> 3 * int (length ds))"
  by (simp add: wup_inv_def)

lemma wup_inv_frame:
  "wup_inv namespace points saved state w \<Longrightarrow> saved w' = saved w \<Longrightarrow> points w' = points w \<Longrightarrow> wup_inv namespace points saved state w'"
  by (simp add: wup_inv_def)

lemma wup_inv_both:
  assumes "owns namespace state es" "saved w = state" "points w \<le> 3 * int (length es)"
  shows "wup_inv namespace points saved state w"
  using assms by (auto simp: wup_inv_def)

lemma wup_inv_prefix:
  assumes "owns namespace state es" "owns namespace (saved w) ds" "prefix es ds" "points w \<le> 3 * int (length es)"
  shows "wup_inv namespace points saved state w"
proof -
  have "points w \<le> 3 * int (length ds)" using assms(4) prefix_length_le [OF assms(3)] by linarith
  with assms show ?thesis by (auto simp: wup_inv_def)
qed

lemma points_ledger_inv:
  assumes ok: "wup_link_ok link persist points saved" and auth: "authoritative_ok authoritative"
    and inv: "wup_inv namespace points saved state w"
    and run: "points_ledger link persist namespace authoritative state w = (state', w', r)"
  shows "wup_inv namespace points saved state' w' \<and> (\<forall>es. r = Inr es \<longrightarrow> owns namespace state' es)"
proof (cases "dget state ''weapon_points'' = PNone")
  case False
  then have "state' = state" "w' = w" "r = ledger_receipts namespace (dget state ''weapon_points'')"
    using run by (auto simp: points_ledger_def split: pyval.splits)
  with inv False show ?thesis by (simp add: owns_def)
next
  case True
  obtain w1 o1 where obs: "observe_points link w = (w1, o1)" by fastforce
  note laws = observe_points_laws [OF ok obs]
  have inv1: "wup_inv namespace points saved state w1" using wup_inv_frame [OF inv laws(1,2)] .
  show ?thesis
  proof (cases o1)
    case (Inl e)
    with run True obs inv1 show ?thesis by (auto simp: points_ledger_def)
  next
    case (Inr res)
    let ?h = "sort_key fst authoritative" and ?g = "the_int (wr_after res)"
    let ?es = "take (nat (?g div WUP_AMOUNT)) ?h"
    let ?s = "dset ''weapon_points'' (fresh_ledger namespace ?es) state"
    have after: "wr_after res = PInt (points w)" using laws(3) [OF Inr] .
    show ?thesis
    proof (cases "\<not> is_int (wr_after res) \<or> ?g < 0 \<or> ?g mod WUP_AMOUNT \<noteq> 0 \<or> ?g > int (length ?h) * WUP_AMOUNT")
      case True': True
      with run True obs Inr inv1 show ?thesis by (auto simp: points_ledger_def Let_def split: if_splits)
    next
      case False
      obtain w2 p where pers: "persist ?s w1 = (w2, p)" by fastforce
      have fresh: "owns namespace ?s ?es"
        using ledger_receipts_fresh [OF auth] by (simp add: owns_def fresh_ledger_def)
      have pts: "points w2 \<le> 3 * int (length ?es)"
        using link_laws(4) [OF ok pers] laws(2) after False by (auto simp: WUP_AMOUNT_def)
      have res: "(state', w', r) = (case p of Inl e \<Rightarrow> (dpop ''weapon_points'' ?s, w2, Inl e) | Inr _ \<Rightarrow> (?s, w2, Inr ?es))"
        using run True obs Inr False pers ledger_receipts_fresh [OF auth] by (simp add: points_ledger_def Let_def split: sum.splits)
      show ?thesis
      proof (cases p)
        case (Inl e)
        from link_laws(5) [OF ok pers] show ?thesis
        proof
          assume "saved w2 = ?s"
          then show ?thesis using Inl res fresh pts by (auto simp: wup_inv_def)
        next
          assume "saved w2 = saved w1 \<and> p \<noteq> Inr ()"
          then show ?thesis using Inl res inv1 link_laws(4) [OF ok pers] by (simp add: wup_inv_def)
        qed
      next
        case (Inr u)
        then have "saved w2 = ?s" using link_laws(5) [OF ok pers] by auto
        with wup_inv_both [where saved = saved and points = points and w = w2, OF fresh _ pts] Inr res fresh show ?thesis by auto
      qed
    qed
  qed
qed

lemma record_receipt_inv:
  assumes ok: "wup_link_ok link persist points saved" and inv: "wup_inv namespace points saved state w"
    and own: "owns namespace state entries" and idx: "0 \<le> index" "receipt \<noteq> []"
    and run: "record_receipt persist entries index receipt state w = (state', w', r)"
  shows "wup_inv namespace points saved state' w' \<and>
    (r = Inr () \<longrightarrow> (\<exists>es. owns namespace state' es \<and> (index, receipt) \<in> set es))"
proof (cases "map_of entries index")
  case (Some old)
  with run have r: "state' = state" "w' = w" "r = (if old \<noteq> receipt then Inl (WeaponPointsBlocked ''WUP receipt changed at an existing index'') else Inr ())"
    by (simp_all add: record_receipt_def)
  have "(index, old) \<in> set entries" using Some by (rule map_of_SomeD)
  with r own inv show ?thesis by auto
next
  case None
  show ?thesis
  proof (cases "entries \<noteq> [] \<and> fst (last entries) \<ge> index")
    case True
    with run None inv show ?thesis by (auto simp: record_receipt_def)
  next
    case False
    let ?s = "dset ''weapon_points'' (appended_ledger (dget state ''weapon_points'') index receipt) state"
    obtain w1 p where pers: "persist ?s w = (w1, p)" by fastforce
    have res: "(state', w', r) = (case p of Inl e \<Rightarrow> (state, w1, Inl e) | Inr _ \<Rightarrow> (?s, w1, Inr ()))"
      using run None False pers by (auto simp: record_receipt_def Let_def split: sum.splits)
    have led: "ledger_receipts namespace (dget state ''weapon_points'') = Inr entries" using own by (simp add: owns_def)
    have "fst e < index" if "e \<in> set entries" for e
    proof -
      have "sorted (map fst entries)" using ledger_receipts_sorted [OF led] by (simp add: strict_sorted_iff)
      with that have "fst e \<le> fst (last entries)" by (cases entries rule: rev_cases) (auto simp: sorted_append)
      with False that show ?thesis by auto
    qed
    with ledger_receipts_appended [OF led] idx have own': "owns namespace ?s (entries @ [(index, receipt)])"
      by (auto simp: owns_def)
    from inv own have pts: "points w \<le> 3 * int (length entries)" and pre: "\<exists>ds. owns namespace (saved w) ds \<and> prefix entries ds"
      by (auto simp: wup_inv_def owns_def)
    show ?thesis
    proof (cases p)
      case (Inl e)
      from link_laws(5) [OF ok pers] have "wup_inv namespace points saved state w1"
      proof
        assume "saved w1 = ?s"
        with own' have "owns namespace (saved w1) (entries @ [(index, receipt)])" by simp
        from wup_inv_prefix [where saved = saved and points = points and w = w1, OF own this] pts link_laws(4) [OF ok pers] show ?thesis by simp
      next
        assume "saved w1 = saved w \<and> p \<noteq> Inr ()"
        then show ?thesis
          using inv link_laws(4) [OF ok pers] by (simp add: wup_inv_def)
      qed
      with Inl res show ?thesis by simp
    next
      case (Inr u)
      then have "saved w1 = ?s" using link_laws(5) [OF ok pers] by auto
      moreover have "points w1 \<le> 3 * int (length (entries @ [(index, receipt)]))"
        using pts link_laws(4) [OF ok pers] by simp
      ultimately have "wup_inv namespace points saved ?s w1"
        by (intro wup_inv_both [where saved = saved and points = points and w = w1, OF own'])
      then show ?thesis using own' Inr res by auto
    qed
  qed
qed

lemma reconcile_points_inv:
  assumes ok: "wup_link_ok link persist points saved" and auth: "authoritative_ok authoritative"
    and inv: "wup_inv namespace points saved state w"
    and run: "reconcile_points link persist namespace authoritative state w = (state', w', r)"
  shows "wup_inv namespace points saved state' w' \<and>
    (\<forall>es. owns namespace state es \<longrightarrow> state' = state \<and> (r = Inr () \<longrightarrow> points w' = 3 * int (length es)))"
proof -
  obtain s1 w1 l where led: "points_ledger link persist namespace authoritative state w = (s1, w1, l)" by (metis prod_cases3)
  note L = points_ledger_inv [OF ok auth inv led]
  have same: "s1 = state \<and> l = Inr es" if "owns namespace state es" for es
    using led that by (auto simp: points_ledger_def owns_def split: pyval.splits)
  show ?thesis
  proof (cases l)
    case (Inl e)
    with run led L same show ?thesis by (auto simp: reconcile_points_def)
  next
    case (Inr entries)
    have own: "owns namespace s1 entries" using L Inr by simp
    obtain w2 o1 where obs: "observe_points link w1 = (w2, o1)" by fastforce
    note laws = observe_points_laws [OF ok obs]
    have inv2: "wup_inv namespace points saved s1 w2" 
      by (rule wup_inv_frame [where saved = saved and points = points and w = w1, OF conjunct1 [OF L] laws(1,2)])
    have len: "entries = es" if "owns namespace state es" for es using same [OF that] Inr by simp
    have done_with: ?thesis if "state' = s1" "w' = w2 \<or> w' = w1" "r \<noteq> Inr ()"
      using that L inv2 same by auto
    show ?thesis
    proof (cases "list_ex (\<lambda>(index, receipt). map_of authoritative index \<noteq> Some receipt) entries")
      case True
      then have "state' = s1" "w' = w1" "r \<noteq> Inr ()" using run led Inr by (auto simp: reconcile_points_def)
      then show ?thesis by (intro done_with) simp_all
    next
      case owned: False
      show ?thesis
      proof (cases o1)
        case e: (Inl e)
        then have "state' = s1" "w' = w2" "r \<noteq> Inr ()" using run led Inr owned obs by (auto simp: reconcile_points_def)
        then show ?thesis by (intro done_with) simp_all
      next
        case o: (Inr res)
        let ?t = "3 * int (length entries)"
        have after: "wr_after res = PInt (points w1)" using laws(3) [OF o] .
        show ?thesis
        proof (cases "points w1 > ?t \<or> points w1 mod 3 \<noteq> 0")
          case True
          then have "state' = s1" "w' = w2" "r \<noteq> Inr ()"
            using run led Inr owned obs o after by (auto simp: reconcile_points_def Let_def WUP_AMOUNT_def)
          then show ?thesis by (intro done_with) simp_all
        next
          case False
          then have go: "state' = s1" "grant_loop link ?t (points w1) w2 = (w', r)"
            using run led Inr owned obs o after by (auto simp: reconcile_points_def Let_def WUP_AMOUNT_def)
          have "(?t - points w1) mod 3 = 0" using False by presburger
          from grant_loop_laws [OF ok go(2) laws(2) _ this] False
          have g: "saved w' = saved w2" "points w' \<le> ?t" "r = Inr () \<longrightarrow> points w' = ?t" by auto
          obtain ds where ds: "owns namespace (saved w2) ds" "prefix entries ds"
            using inv2 own by (auto simp: wup_inv_def owns_def)
          have "wup_inv namespace points saved s1 w'"
            by (rule wup_inv_prefix [where saved = saved and points = points and w = w', OF own _ ds(2) g(2)]) (simp add: g(1) ds(1))
          with g(3) go(1) same len show ?thesis by auto
        qed
      qed
    qed
  qed
qed


lemma deliver_points_inv:
  assumes ok: "wup_link_ok link persist points saved" and auth: "authoritative_ok authoritative"
    and inv: "wup_inv namespace points saved state w"
    and run: "deliver_points link persist namespace index receipt authoritative state w = (state', w', r)"
  shows "wup_inv namespace points saved state' w' \<and>
    (r = Inr () \<longrightarrow> (\<exists>es. owns namespace state' es \<and> (index, receipt) \<in> set es \<and> points w' = 3 * int (length es)))"
proof (cases "map_of authoritative index \<noteq> Some receipt \<or> receipt = []")
  case True
  with run inv show ?thesis by (auto simp: deliver_points_def)
next
  case False
  then have idx: "0 \<le> index" "receipt \<noteq> []" using auth by (auto simp: authoritative_ok_def dest!: map_of_SomeD)
  obtain s1 w1 l where led: "points_ledger link persist namespace authoritative state w = (s1, w1, l)" by (metis prod_cases3)
  note L = points_ledger_inv [OF ok auth inv led]
  show ?thesis
  proof (cases l)
    case (Inl e)
    then have "state' = s1" "w' = w1" "r = Inl e" using run False led by (auto simp: deliver_points_def)
    with L show ?thesis by simp
  next
    case (Inr entries)
    obtain s2 w2 c where rec: "record_receipt persist entries index receipt s1 w1 = (s2, w2, c)" by (metis prod_cases3)
    have own: "owns namespace s1 entries" using L Inr by simp
    note R = record_receipt_inv [OF ok conjunct1 [OF L] own idx rec]
    show ?thesis
    proof (cases c)
      case e: (Inl e)
      then have "state' = s2" "w' = w2" "r = Inl e" using run False led Inr rec by (auto simp: deliver_points_def)
      with R show ?thesis by simp
    next
      case u: (Inr u)
      then have run': "reconcile_points link persist namespace authoritative s2 w2 = (state', w', r)"
        using run False led Inr rec by (simp add: deliver_points_def)
      obtain es where "owns namespace s2 es" "(index, receipt) \<in> set es" using R u by auto
      with reconcile_points_inv [OF ok auth conjunct1 [OF R] run'] show ?thesis by auto
    qed
  qed
qed

text \<open>The life of a session: deliveries and reconciliations that may stop anywhere, and restarts
  that read the stored document back.\<close>

inductive wup_run :: "'w wup_link \<Rightarrow> 'w session_persister \<Rightarrow> string \<Rightarrow> ('w \<Rightarrow> pydict) \<Rightarrow> pydict \<Rightarrow> 'w \<Rightarrow> pydict \<Rightarrow> 'w \<Rightarrow> bool"
  for link persist namespace saved state0 w0 where
  wup_start: "wup_run link persist namespace saved state0 w0 state0 w0"
| wup_deliver: "wup_run link persist namespace saved state0 w0 state w \<Longrightarrow> authoritative_ok authoritative \<Longrightarrow>
    deliver_points link persist namespace index receipt authoritative state w = (state', w', r) \<Longrightarrow>
    wup_run link persist namespace saved state0 w0 state' w'"
| wup_reconcile: "wup_run link persist namespace saved state0 w0 state w \<Longrightarrow> authoritative_ok authoritative \<Longrightarrow>
    reconcile_points link persist namespace authoritative state w = (state', w', r) \<Longrightarrow>
    wup_run link persist namespace saved state0 w0 state' w'"
| wup_restart: "wup_run link persist namespace saved state0 w0 state w \<Longrightarrow>
    wup_run link persist namespace saved state0 w0 (saved w) w"

lemma wup_run_inv:
  assumes "wup_run link persist namespace saved state0 w0 state w"
    and "wup_link_ok link persist points saved" and "wup_inv namespace points saved state0 w0"
  shows "wup_inv namespace points saved state w"
  using assms
proof (induction rule: wup_run.induct)
  case (wup_deliver state w authoritative index receipt state' w' r)
  from deliver_points_inv [OF wup_deliver.prems(1) wup_deliver.hyps(2) wup_deliver.IH [OF wup_deliver.prems] wup_deliver.hyps(3)]
  show ?case by simp
next
  case (wup_reconcile state w authoritative state' w' r)
  from reconcile_points_inv [OF wup_reconcile.prems(1) wup_reconcile.hyps(2) wup_reconcile.IH [OF wup_reconcile.prems] wup_reconcile.hyps(3)]
  show ?case by simp
next
  case (wup_restart state w)
  from wup_inv_durable [OF wup_restart.IH [OF wup_restart.prems]] show ?case
    by (auto simp: wup_inv_def)
qed

text \<open>Property C18. No grant without a durable receipt: over any deliveries and reconciliations that the native
  side, the disk or a restart may interrupt between any two steps, the earned total never exceeds
  three points for each receipt of the stored ledger, whose receipts have distinct indices.\<close>

theorem points_never_overgranted:
  assumes "wup_run link persist namespace saved [] w0 state w"
    and "wup_link_ok link persist points saved" and "dget (saved w0) ''weapon_points'' = PNone"
    and "dget (saved w) ''weapon_points'' \<noteq> PNone"
  shows "\<exists>receipts. ledger_receipts namespace (dget (saved w) ''weapon_points'') = Inr receipts \<and>
    distinct (map fst receipts) \<and> points w \<le> 3 * int (length receipts)"
proof -
  have "wup_inv namespace points saved [] w0" using assms(3) by (simp add: wup_inv_def dget_def)
  from wup_inv_durable [OF wup_run_inv [OF assms(1,2) this]] assms(4)
  obtain ds where ds: "owns namespace (saved w) ds" "points w \<le> 3 * int (length ds)" by auto
  then have "distinct (map fst ds)" using ledger_receipts_sorted by (auto simp: owns_def strict_sorted_iff)
  with ds show ?thesis by (auto simp: owns_def)
qed

text \<open>A delivery that returns has granted exactly once: its receipt is in the ledger and durable,
  and the earned total is three points for every receipt of the ledger, whatever failed before.\<close>

theorem delivered_points_granted:
  assumes "wup_run link persist namespace saved [] w0 state w"
    and "wup_link_ok link persist points saved" and "dget (saved w0) ''weapon_points'' = PNone"
    and "authoritative_ok authoritative"
    and "deliver_points link persist namespace index receipt authoritative state w = (state', w', Inr ())"
  shows "\<exists>receipts durable. ledger_receipts namespace (dget state' ''weapon_points'') = Inr receipts \<and>
    ledger_receipts namespace (dget (saved w') ''weapon_points'') = Inr durable \<and> prefix receipts durable \<and>
    (index, receipt) \<in> set receipts \<and> points w' = 3 * int (length receipts)"
proof -
  have "wup_inv namespace points saved [] w0" using assms(3) by (simp add: wup_inv_def dget_def)
  from deliver_points_inv [OF assms(2,4) wup_run_inv [OF assms(1,2) this] assms(5)]
  obtain es where inv: "wup_inv namespace points saved state' w'" and es: "owns namespace state' es" "(index, receipt) \<in> set es"
    "points w' = 3 * int (length es)" by auto
  from inv es(1) obtain ds where "owns namespace (saved w') ds" "prefix es ds"
    by (auto simp: wup_inv_def owns_def)
  with es show ?thesis by (auto simp: owns_def)
qed


section \<open>The namespace determines the identity\<close>

text \<open>Decoding the two-byte fragment of UTF-8.\<close>

fun utf8_decode :: "byte list \<Rightarrow> string" where
  "utf8_decode [] = []"
| "utf8_decode (b # bs) =
     (if unat b < 128 then char_of (unat b) # utf8_decode bs
      else case bs of [] \<Rightarrow> []
        | b' # bs' \<Rightarrow> char_of ((unat b - 192) * 64 + (unat b' - 128)) # utf8_decode bs')"

lemma utf8_decode_char: "utf8_decode (utf8_char c @ bs) = c # utf8_decode bs"
proof -
  let ?n = "of_char c :: nat"
  have n: "?n < 256" by simp
  show ?thesis
  proof (cases "?n < 128")
    case True
    then have "unat (word_of_nat ?n :: byte) = ?n" by (simp add: unat_of_nat)
    with True show ?thesis by (simp add: utf8_char_def Let_def)
  next
    case False
    have "?n div 64 < 4" by (rule less_mult_imp_div_less) (use n in simp)
    then have hi: "unat (word_of_nat (192 + ?n div 64) :: byte) = 192 + ?n div 64"
      by (simp add: unat_of_nat del: of_nat_add)
    have lo: "unat (word_of_nat (128 + ?n mod 64) :: byte) = 128 + ?n mod 64"
      by (simp add: unat_of_nat del: of_nat_add)
    have "utf8_char c = [word_of_nat (192 + ?n div 64), word_of_nat (128 + ?n mod 64)]"
      using False by (simp add: utf8_char_def Let_def)
    then show ?thesis using hi lo by (simp del: of_nat_add)
  qed
qed

lemma utf8_decode_utf8: "utf8_decode (utf8 s) = s"
  by (induction s) (simp_all add: utf8_def utf8_decode_char)

lemma utf8_inject: "utf8 s = utf8 t \<longleftrightarrow> s = t"
  by (metis utf8_decode_utf8)

definition unpack_be32 :: "byte list \<Rightarrow> nat" where
  "unpack_be32 bs = foldl (\<lambda>n b. n * 256 + unat b) 0 bs"

lemma unpack_pack:
  assumes "n < 4294967296"
  shows "unpack_be32 (pack_be32 n) = n"
proof -
  define a where "a = n div 256"
  define b where "b = a div 256"
  define c where "c = b div 256"
  have parts: "n div 65536 = b" "n div 16777216 = c"
    by (simp_all add: a_def b_def c_def div_mult2_eq [symmetric])
  have "c < 256" unfolding parts(2) [symmetric] by (rule less_mult_imp_div_less) (use assms in simp)
  then have "unpack_be32 (pack_be32 n) = ((c * 256 + b mod 256) * 256 + a mod 256) * 256 + n mod 256"
    by (simp add: unpack_be32_def pack_be32_def parts a_def [symmetric] unat_of_nat)
  also have "\<dots> = n" by (simp add: a_def b_def c_def)
  finally show ?thesis .
qed

lemma framed_cancel:
  assumes "length (utf8 s) < 4294967296" "length (utf8 t) < 4294967296" "framed s @ x = framed t @ y"
  shows "s = t \<and> x = y"
proof -
  have "length (pack_be32 n) = 4" for n by (simp add: pack_be32_def)
  with assms(3) have p: "pack_be32 (length (utf8 s)) = pack_be32 (length (utf8 t))" and r: "utf8 s @ x = utf8 t @ y"
    by (auto simp: framed_def)
  from p have "length (utf8 s) = length (utf8 t)" using unpack_pack assms(1,2) by metis
  with r show ?thesis by (simp add: utf8_inject)
qed

lemma digits_plain: "list_all is_digit s \<Longrightarrow> length (utf8 s) = length s"
proof -
  assume "list_all is_digit s"
  have "length (utf8_char c) = 1" if "is_digit c" for c
    using that by (auto simp: is_digit_def utf8_char_def)
  then show ?thesis using \<open>list_all is_digit s\<close> by (induction s) (simp_all add: utf8_def)
qed

lemma str_nat_bound: "n < 10 ^ Suc k \<Longrightarrow> length (str_nat n) \<le> Suc k"
proof (induction k arbitrary: n)
  case 0
  then show ?case by (simp add: str_nat.simps)
next
  case (Suc k)
  then have "n div 10 < 10 ^ Suc k" by (simp add: less_mult_imp_div_less)
  from Suc.IH [OF this] show ?case by (subst str_nat.simps) simp
qed

lemma small_int_framed:
  assumes "0 \<le> i" "i \<le> 4294967295"
  shows "length (utf8 (str_int i)) < 4294967296"
proof -
  have "nat i < 10 ^ Suc 9" using assms by simp
  then have "length (str_nat (nat i)) \<le> 10" using str_nat_bound [of "nat i" 9] by simp
  moreover have "list_all is_digit (str_nat (nat i))" using str_nat_digits by (auto simp: list_all_iff)
  ultimately show ?thesis using assms by (simp add: str_int_def digits_plain)
qed

text \<open>A session namespace is computed from all four parts of the identity, each framed by its
  length: two admitted identities are hashed from the same bytes only when they are the same, so
  no seed, team, slot or fingerprint can be chosen that runs into the next field.\<close>

theorem namespace_determines_identity:
  assumes "namespace_id seed team slot fingerprint = Inr n" and "namespace_id seed' team' slot' fingerprint' = Inr n'"
  shows "\<exists>s t i f s' t' i' f'. seed = PStr s \<and> team = PInt t \<and> slot = PInt i \<and> fingerprint = PStr f \<and>
    seed' = PStr s' \<and> team' = PInt t' \<and> slot' = PInt i' \<and> fingerprint' = PStr f' \<and>
    n = hexdigest (sha256 (namespace_text s t i f)) \<and>
    (namespace_text s t i f = namespace_text s' t' i' f' \<longleftrightarrow> seed = seed' \<and> team = team' \<and> slot = slot' \<and> fingerprint = fingerprint')"
proof -
  have parts: "\<exists>s t i f. seed = PStr s \<and> team = PInt t \<and> slot = PInt i \<and> fingerprint = PStr f \<and>
      length (utf8 s) < 4294967296 \<and> 0 \<le> t \<and> t \<le> 4294967295 \<and> 0 \<le> i \<and> i \<le> 4294967295 \<and> length (utf8 f) < 4294967296 \<and>
      n = hexdigest (sha256 (namespace_text s t i f))"
    if "namespace_id seed team slot fingerprint = Inr n" for seed team slot fingerprint n
  proof -
    have "is_str seed" "is_int team" "is_int slot"
      using that by (simp_all add: namespace_id_def split: if_splits)
    then obtain s t i where sti: "seed = PStr s" "team = PInt t" "slot = PInt i"
      by (auto simp: is_str_iff is_int_iff)
    with that obtain f where f: "fingerprint = PStr f"
      by (cases fingerprint) (auto simp: namespace_id_def split: if_splits)
    note v = sti f
    have "list_all is_lower_hex f \<Longrightarrow> length (utf8 f) = length f"
      by (simp add: length_utf8_lower_hex)
    with that v show ?thesis by (auto simp: namespace_id_def split: if_splits)
  qed
  obtain s t i f where a: "seed = PStr s" "team = PInt t" "slot = PInt i" "fingerprint = PStr f"
      "length (utf8 s) < 4294967296" "0 \<le> t" "t \<le> 4294967295" "0 \<le> i" "i \<le> 4294967295" "length (utf8 f) < 4294967296"
      "n = hexdigest (sha256 (namespace_text s t i f))" using parts [OF assms(1)] by blast
  obtain s' t' i' f' where b: "seed' = PStr s'" "team' = PInt t'" "slot' = PInt i'" "fingerprint' = PStr f'"
      "length (utf8 s') < 4294967296" "0 \<le> t'" "t' \<le> 4294967295" "0 \<le> i'" "i' \<le> 4294967295" "length (utf8 f') < 4294967296"
      "n' = hexdigest (sha256 (namespace_text s' t' i' f'))" using parts [OF assms(2)] by blast
  have "s = s' \<and> t = t' \<and> i = i' \<and> f = f'" if eq: "namespace_text s t i f = namespace_text s' t' i' f'"
  proof -
    from eq have e1: "framed s @ framed (str_int t) @ framed (str_int i) @ framed f = framed s' @ framed (str_int t') @ framed (str_int i') @ framed f'"
      by (simp add: namespace_text_def)
    from framed_cancel [OF a(5) b(5) e1] have 1: "s = s'"
      and e2: "framed (str_int t) @ framed (str_int i) @ framed f = framed (str_int t') @ framed (str_int i') @ framed f'" by simp_all
    from framed_cancel [OF small_int_framed [OF a(6,7)] small_int_framed [OF b(6,7)] e2] have 2: "t = t'"
      and e3: "framed (str_int i) @ framed f = framed (str_int i') @ framed f'" by simp_all
    from framed_cancel [OF small_int_framed [OF a(8,9)] small_int_framed [OF b(8,9)] e3] have 3: "i = i'"
      and e4: "framed f @ [] = framed f' @ []" by simp_all
    from framed_cancel [OF a(10) b(10) e4] 1 2 3 show ?thesis by simp
  qed
  with a b show ?thesis by blast
qed

section \<open>Witnesses\<close>

definition sample_link :: "(pydict \<times> int) wup_link" where
  "sample_link a x = (\<lambda>(d, p).
     if a = 0 then ((d, p), Inr \<lparr>wr_outcome = 2, wr_flags = 16, wr_before = PInt p, wr_after = PInt p\<rparr>)
     else if p = x then ((d, p + a), Inr \<lparr>wr_outcome = 1, wr_flags = 16, wr_before = PInt p, wr_after = PInt (p + a)\<rparr>)
     else ((d, p), Inl (WeaponPointsBlocked ''stale total'')))"

definition sample_store :: "(pydict \<times> int) session_persister" where
  "sample_store d = (\<lambda>(old, p). ((d, p), Inr ()))"

lemma sample_link_ok: "wup_link_ok sample_link sample_store snd fst"
  by (auto simp: wup_link_ok_def sample_link_def sample_store_def split: if_splits)

definition sample_state :: pydict where
  "sample_state = [(''weapon_points'', PDict [(''version'', PInt 1), (''namespace'', PStr ''n''), (''receipts'', PList [wup_record (4, ''r'')])])]"

lemma sample_delivery:
  "deliver_points sample_link sample_store ''n'' 4 ''r'' [(4, ''r'')] [] ([], 0) =
     (sample_state,
      (sample_state, 3), Inr ())"
  by code_simp


theorem points_never_overgranted_witness:
  "\<exists>state w receipts. wup_run sample_link sample_store ''n'' fst [] ([], 0) state w \<and> snd w = 3 \<and>
     ledger_receipts ''n'' (dget (fst w) ''weapon_points'') = Inr receipts \<and> 3 \<le> 3 * int (length receipts)"
proof -
  have ok: "authoritative_ok [(4, ''r'')]" by (simp add: authoritative_ok_def)
  have run: "wup_run sample_link sample_store ''n'' fst [] ([], 0)
    sample_state
    (sample_state, 3)"
    by (rule wup_deliver [OF wup_start ok sample_delivery])
  from points_never_overgranted [OF run sample_link_ok] run show ?thesis by (force simp: dget_def sample_state_def)
qed

theorem delivered_points_granted_witness:
  "\<exists>receipts. deliver_points sample_link sample_store ''n'' 4 ''r'' [(4, ''r'')] [] ([], 0) = (sample_state, (sample_state, 3), Inr ()) \<and>
     ledger_receipts ''n'' (dget sample_state ''weapon_points'') = Inr receipts \<and> (4, ''r'') \<in> set receipts \<and>
     3 = 3 * int (length receipts)"
proof -
  have ok: "authoritative_ok [(4, ''r'')]" by (simp add: authoritative_ok_def)
  from delivered_points_granted [OF wup_start sample_link_ok _ ok sample_delivery] sample_delivery
  show ?thesis by (auto simp: dget_def)
qed

theorem namespace_determines_identity_witness:
  "\<exists>n. namespace_id (PStr ''s'') (PInt 0) (PInt 1) (PStr (replicate 64 CHR ''a'')) = Inr n \<and>
     namespace_text ''s'' 0 1 (replicate 64 CHR ''a'') \<noteq> namespace_text ''s'' 0 2 (replicate 64 CHR ''a'')"
proof -
  have a: "namespace_id (PStr ''s'') (PInt 0) (PInt i) (PStr (replicate 64 CHR ''a'')) =
      Inr (hexdigest (sha256 (namespace_text ''s'' 0 i (replicate 64 CHR ''a''))))" if "i \<in> {1, 2}" for i
    using that by (auto simp: namespace_id_def list_all_iff is_lower_hex_def utf8_def utf8_char_def)
  from namespace_determines_identity [OF a [of 1] a [of 2]] a [of 1] show ?thesis by auto
qed

end
