(* ===== verification/Goals.thy ===== *)
theory Goals
  imports Runtime_Context
begin

text \<open>
  The goal of a slot: which locations complete it, \<open>doom_eap/contracts/goal_policy.py\<close>, and when
  it is sent, \<open>doom_eap/runtime/goal_progress.py\<close>, over the facts of
  \<open>doom_eap/contracts/check_observation.py\<close>.

  \<open>evaluate\<close> is split at its await: the part before it decides and marks the send in flight, the
  part after it takes the outcome, in a state that other operations may have changed. Logging and
  the state that only serves it are left out.
\<close>

section \<open>Facts and policy\<close>

record check_facts =
  cf_checked :: "int set"
  cf_submitted :: "int set"
  cf_server :: "int set"
  cf_ready :: bool
  cf_connected :: bool

record goal_policy =
  gp_locations :: "(int \<times> string) list"
  gp_dlc_prefixes :: "string list"
  gp_capabilities :: "string list"
  gp_endpoints :: "(string \<times> int) list"
  gp_suffixes :: "(string \<times> string) list"

definition UNMAYKR :: string where "UNMAYKR = ''Acquire the Unmaykr''"

text \<open>\<open>name.split(" - ", 1)[0]\<close>.\<close>

fun mission_prefix :: "string \<Rightarrow> string" where
  "mission_prefix [] = []"
| "mission_prefix (c # s) = (if starts_with (c # s) '' - '' then [] else c # mission_prefix s)"

definition active_goal_location_names :: "goal_policy \<Rightarrow> pydict \<Rightarrow> int set \<Rightarrow> string list" where
  "active_goal_location_names p slot_data server =
     (let names = map snd (filter (\<lambda>(i, _). i \<in> server) (gp_locations p)) in
      if \<not> truthy (dget slot_data ''use_dlc_content'') \<or> \<not> truthy (dget_or slot_data ''include_dlc_missions'' (PBool True))
      then filter (\<lambda>n. mission_prefix n \<notin> set (gp_dlc_prefixes p)) names
      else names)"

fun hashable :: "pyval \<Rightarrow> bool" where
  "hashable (PList _) = False"
| "hashable (PDict _) = False"
| "hashable _ = True"

definition unhashable :: exn where "unhashable = TypeError ''unhashable type''"

text \<open>The final stage of the full saga: \<open>{...}[slot_data['campaign_plan']['goal_stage']]\<close>.\<close>

definition saga_endpoint :: "pydict \<Rightarrow> int res" where
  "saga_endpoint slot_data =
     (case map_of slot_data ''campaign_plan'' of
        None \<Rightarrow> Inl (KeyError ''campaign_plan'')
      | Some (PDict plan) \<Rightarrow>
         (case map_of plan ''goal_stage'' of
            None \<Rightarrow> Inl (KeyError ''goal_stage'')
          | Some v \<Rightarrow>
             (if \<not> hashable v then Inl unhashable
              else if v = PStr ''e3m4_boss'' then Inr 7770414
              else if v = PStr ''e5m4_boss'' then Inr 7770419
              else Inl (KeyError (py_str v))))
      | Some v \<Rightarrow> Inl (TypeError ''indices must be integers''))"

definition requirement_ids :: "goal_policy \<Rightarrow> string list \<Rightarrow> string \<Rightarrow> int set res" where
  "requirement_ids p active requirement =
     (if requirement = UNMAYKR
      then (case map_of (gp_endpoints p) UNMAYKR of None \<Rightarrow> Inl (KeyError UNMAYKR) | Some i \<Rightarrow> Inr {i})
      else case map_of (gp_suffixes p) requirement of
        None \<Rightarrow> Inl (KeyError requirement)
      | Some sfx \<Rightarrow> Inr (set (map fst (filter (\<lambda>(i, n). n \<in> set active \<and> contains n sfx) (gp_locations p)))))"

definition requirement_names :: "goal_policy \<Rightarrow> string list" where
  "requirement_names p = UNMAYKR # map fst (gp_suffixes p)"

definition goal_admitted :: "goal_policy \<Rightarrow> pydict \<Rightarrow> string \<Rightarrow> bool" where
  "goal_admitted p slot_data goal \<longleftrightarrow>
     goal \<in> set (map fst (gp_endpoints p)) \<and>
     dget slot_data ''goal_endpoint_event'' = PStr (''Internal Goal Endpoint: '' @ goal) \<and>
     dget slot_data ''goal_endpoint_available'' = PBool True"

definition capabilities_present :: "goal_policy \<Rightarrow> pydict \<Rightarrow> bool" where
  "capabilities_present p slot_data =
     (case dget slot_data ''required_capabilities'' of
        PList vs \<Rightarrow> list_all is_str vs \<and> (\<forall>c \<in> set (gp_capabilities p). PStr c \<in> set vs)
      | _ \<Rightarrow> False)"

definition objective_ids :: "goal_policy \<Rightarrow> pyval \<Rightarrow> int set \<Rightarrow> int set res" where
  "objective_ids p slot server =
     (case slot of
        PDict slot_data \<Rightarrow>
         (if \<not> hashable (dget slot_data ''goal'') then Inl unhashable
          else case dget slot_data ''goal'' of
            PStr goal \<Rightarrow>
             (if \<not> goal_admitted p slot_data goal \<or> \<not> capabilities_present p slot_data then Inr {}
              else case dget_or slot_data ''additional_victory_requirements'' (PList []) of
                PList rs \<Rightarrow>
                 (if \<not> list_all hashable rs then Inl unhashable
                  else if \<not> list_all (\<lambda>v. v \<in> set (map PStr (requirement_names p))) rs then Inr {}
                  else
                   let requirements = map py_str rs; active = active_goal_location_names p slot_data server;
                       endpoint = (if goal = ''Complete the Full Saga'' then saga_endpoint slot_data
                         else case map_of (gp_endpoints p) goal of None \<Rightarrow> Inl (KeyError goal) | Some i \<Rightarrow> Inr i)
                   in bind_res endpoint (\<lambda>i. bind_res (map_res (requirement_ids p active) requirements)
                        (\<lambda>sets. Inr (insert i (\<Union> (set sets))))))
              | _ \<Rightarrow> Inr {})
          | _ \<Rightarrow> Inr {})
      | _ \<Rightarrow> Inr {})"

section \<open>Progress\<close>

record goal_candidate =
  gc_slot :: string
  gc_load_epoch :: pyval
  gc_details_path :: string
  gc_token :: int
  gc_completed :: string

record goal_progress =
  go_state :: pydict
  go_state_key :: "string option"
  go_generation :: nat
  go_sent :: bool
  go_in_flight :: bool
  go_candidate :: "goal_candidate option"
  go_revision :: nat
  go_last_mtime :: pyval
  go_completions :: "((pyval \<times> pyval) \<times> bool) list"
  go_pending :: "(bool \<times> int set) option"

definition new_goal_progress :: goal_progress where
  "new_goal_progress = \<lparr>go_state = [], go_state_key = None, go_generation = 0, go_sent = False, go_in_flight = False,
     go_candidate = None, go_revision = 0, go_last_mtime = PNone, go_completions = [], go_pending = None\<rparr>"

definition invalidate_publication :: "goal_progress \<Rightarrow> goal_progress" where
  "invalidate_publication s = s\<lparr>go_generation := go_generation s + 1, go_in_flight := False\<rparr>"

definition clear_candidate :: "goal_progress \<Rightarrow> goal_progress" where
  "clear_candidate s = s\<lparr>go_candidate := None, go_revision := go_revision s + 1\<rparr>"

definition bind_goal :: "goal_progress \<Rightarrow> string \<Rightarrow> pydict \<Rightarrow> goal_progress" where
  "bind_goal s state_key state =
     (let s1 = invalidate_publication s;
          s2 = (if go_state_key s1 \<noteq> Some state_key then clear_candidate (s1\<lparr>go_sent := False\<rparr>) else s1)
      in s2\<lparr>go_state_key := Some state_key,
            go_state := (if has_key state ''goal_sent'' then state else dset ''goal_sent'' (PBool False) state)\<rparr>)"

type_synonym 'w goal_persister = "pydict \<Rightarrow> 'w \<Rightarrow> 'w \<times> unit res"

definition goal_connected :: "goal_progress \<Rightarrow> 'w goal_persister \<Rightarrow> 'w \<Rightarrow> goal_progress \<times> 'w \<times> unit res" where
  "goal_connected s persist w =
     (let s1 = (invalidate_publication s)\<lparr>go_sent := False, go_pending := None,
                 go_state := dset ''goal_sent'' (PBool False) (go_state s)\<rparr>
      in (s1, persist (go_state s1) w))"

definition candidate_token :: "goal_progress \<Rightarrow> nat \<times> nat" where
  "candidate_token s = (go_generation s, go_revision s)"

definition acknowledge_candidate :: "goal_progress \<Rightarrow> nat \<times> nat \<Rightarrow> goal_progress" where
  "acknowledge_candidate s token = (if token = candidate_token s then clear_candidate s else s)"

definition candidate_slot_allowed :: "goal_progress \<Rightarrow> bool \<Rightarrow> string option \<Rightarrow> goal_progress \<times> bool" where
  "candidate_slot_allowed s authoritative slot =
     (case go_candidate s of
        None \<Rightarrow> (s, True)
      | Some c \<Rightarrow>
         (case slot of
            None \<Rightarrow> (s, True)
          | Some sl \<Rightarrow> (if authoritative \<and> sl \<noteq> [] \<and> sl \<noteq> gc_slot c then (clear_candidate s, False) else (s, True))))"

record save_selection =
  ss_slot :: string
  ss_path :: string
  ss_mtime :: int

text \<open>\<open>int(v)\<close> of a JSON value.\<close>

definition int_value :: "pyval \<Rightarrow> int res" where
  "int_value v = (case v of
     PInt i \<Rightarrow> Inr i
   | PBool b \<Rightarrow> Inr (of_bool b)
   | PStr s \<Rightarrow> (case py_int s of None \<Rightarrow> Inl (ValueError ''invalid literal for int()'') | Some i \<Rightarrow> Inr i)
   | _ \<Rightarrow> Inl (TypeError ''int() argument''))"

definition observe_candidate :: "goal_progress \<Rightarrow> save_selection option \<Rightarrow> pydict \<Rightarrow> goal_progress \<times> string res" where
  "observe_candidate s selected details =
     (case go_candidate s of
        None \<Rightarrow> (s, Inr ''invalidated'')
      | Some c \<Rightarrow>
       (case selected of
          None \<Rightarrow> (s, Inr ''pending'')
        | Some sel \<Rightarrow>
           (let token = dget_or details ''_mtime_ns'' (PInt (ss_mtime sel)) in
            if details = [] \<or> ss_slot sel \<noteq> gc_slot c \<or> py_str (dget details ''_path'') \<noteq> gc_details_path c \<or> token = PNone
            then (s, Inr ''pending'')
            else case int_value token of
              Inl e \<Rightarrow> (s, Inl e)
            | Inr t \<Rightarrow>
               (if t \<le> gc_token c then (s, Inr ''pending'')
                else if dget details ''completed'' \<noteq> PStr ''1'' then (clear_candidate s, Inr ''invalidated'')
                else (s, Inr ''publish'')))))"

definition arm_candidate :: "pyval \<Rightarrow> goal_progress \<Rightarrow> save_selection \<Rightarrow> pydict \<Rightarrow> pyval \<Rightarrow> pyval \<Rightarrow> goal_progress \<times> unit res" where
  "arm_candidate final_map s sel details runtime_map load_epoch =
     (let path = dget details ''_path''; token = dget_or details ''_mtime_ns'' (PInt (ss_mtime sel)) in
      if canonical_map_name runtime_map \<noteq> canonical_map_name final_map \<or> load_epoch = PNone then (s, Inr ())
      else if \<not> truthy path \<or> token = PNone then (s, Inr ())
      else if (case go_candidate s of
                 Some c \<Rightarrow> (ss_slot sel, load_epoch, py_str path) = (gc_slot c, gc_load_epoch c, gc_details_path c)
               | None \<Rightarrow> False)
      then (s, Inr ())
      else let s1 = s\<lparr>go_revision := go_revision s + 1\<rparr>
           in case int_value token of
                Inl e \<Rightarrow> (s1, Inl e)
              | Inr t \<Rightarrow> (s1\<lparr>go_candidate := Some \<lparr>gc_slot = ss_slot sel, gc_load_epoch = load_epoch, gc_details_path = py_str path,
                           gc_token = t, gc_completed = py_str (dget_or details ''completed'' (PStr ''0''))\<rparr>\<rparr>, Inr ()))"

definition completion_answer :: "pyval \<Rightarrow> string option" where
  "completion_answer record_map =
     (if record_map \<in> {PStr ''e3m4_boss'', PStr ''game/sp/e3m4_boss/e3m4_boss''} then Some ''final_sin_mission_complete''
      else if record_map \<in> {PStr ''e1m4_boss'', PStr ''game/sp/e1m4_boss/e1m4_boss''} then Some ''doom_hunter_base_mission_complete''
      else None)"

definition track_cultist :: "goal_progress \<Rightarrow> pyval \<Rightarrow> 'w goal_persister \<Rightarrow> 'w \<Rightarrow> goal_progress \<times> 'w \<times> string option res" where
  "track_cultist s path persist w =
     (if dget (go_state s) ''cultist_autosave_path'' = path then (s, w, Inr None)
      else let s1 = s\<lparr>go_state := dset ''cultist_autosave_path'' path (go_state s)\<rparr>
           in case persist (go_state s1) w of
                (w1, Inl e) \<Rightarrow> (s1, w1, Inl e)
              | (w1, Inr _) \<Rightarrow> (s1, w1, Inr None))"

definition completion_key :: "pydict \<Rightarrow> pyval \<times> pyval" where
  "completion_key details = (dget details ''_path'', canonical_map_name (dget_or details ''mapName'' (PStr [])))"

definition completed_details :: "pydict \<Rightarrow> bool" where
  "completed_details details \<longleftrightarrow> dget details ''completed'' = PStr ''1''"

definition observe_completion :: "pyval \<Rightarrow> goal_progress \<Rightarrow> pydict \<Rightarrow> 'w goal_persister \<Rightarrow> 'w
    \<Rightarrow> goal_progress \<times> 'w \<times> string option res" where
  "observe_completion cultist_map s details persist w =
     (case completion_key details of (path, record_map) \<Rightarrow>
      (if \<not> truthy record_map \<or> dget details ''_mtime_ns'' = go_last_mtime s then (s, w, Inr None)
       else if \<not> truthy path then (s\<lparr>go_last_mtime := dget details ''_mtime_ns''\<rparr>, w, Inr None)
       else
        let fresh = (map_of (go_completions s) (path, record_map) = Some False \<and> completed_details details);
            s1 = s\<lparr>go_last_mtime := dget details ''_mtime_ns'',
                   go_completions := AList.update (path, record_map) (completed_details details) (go_completions s)\<rparr>
        in if record_map = cultist_map then track_cultist s1 path persist w
           else (s1, w, Inr (if fresh then completion_answer record_map else None))))"

section \<open>Sending the goal\<close>

datatype goal_decision = Answer bool | Send_goal nat

definition begin_evaluate :: "goal_progress \<Rightarrow> int set \<Rightarrow> check_facts \<Rightarrow> bool option \<Rightarrow> goal_progress \<times> goal_decision" where
  "begin_evaluate s objectives facts admitted =
     (if admitted \<noteq> Some True then (s, Answer False)
      else if go_sent s then (s, Answer True)
      else if go_in_flight s then (s, Answer False)
      else if \<not> cf_ready facts then (s, Answer False)
      else
       let missing = objectives - cf_checked facts;
           s1 = s\<lparr>go_pending := Some (objectives \<noteq> {}, missing)\<rparr>
       in if objectives = {} \<or> missing \<noteq> {} then (s1, Answer False)
          else if \<not> cf_connected facts then (s1, Answer False)
          else (s1\<lparr>go_in_flight := True\<rparr>, Send_goal (go_generation s1)))"

text \<open>After the await: \<open>None\<close> when \<open>publication.goal()\<close> returned, an exception when it raised.\<close>

definition finish_evaluate :: "goal_progress \<Rightarrow> nat \<Rightarrow> exn option \<Rightarrow> goal_progress \<times> bool res" where
  "finish_evaluate s generation outcome =
     (if generation \<noteq> go_generation s then (s, Inr False)
      else case outcome of
        Some e \<Rightarrow> (s\<lparr>go_in_flight := False\<rparr>, Inl e)
      | None \<Rightarrow> (s\<lparr>go_in_flight := False, go_sent := True\<rparr>, Inr True))"

section \<open>Runs\<close>

datatype goal_event =
    Evaluated "int set" check_facts "bool option" goal_decision
  | Settled nat "exn option"
  | Bound string pydict
  | Connected
  | Completion pydict "string option"
  | Candidate_change

definition candidate_step :: "goal_progress \<Rightarrow> goal_progress \<Rightarrow> bool" where
  "candidate_step s s' \<longleftrightarrow>
     (\<exists>token. s' = acknowledge_candidate s token) \<or> (\<exists>a sl. s' = fst (candidate_slot_allowed s a sl)) \<or>
     (\<exists>sel d. s' = fst (observe_candidate s sel d)) \<or> (\<exists>fm sel d rm ep. s' = fst (arm_candidate fm s sel d rm ep)) \<or> s' = clear_candidate s"

fun sends :: "nat \<Rightarrow> goal_event list \<Rightarrow> nat" where
  "sends g [] = 0"
| "sends g (Evaluated objectives facts admitted decision # evs) = of_bool (decision = Send_goal g) + sends g evs"
| "sends g (ev # evs) = sends g evs"

fun failures :: "nat \<Rightarrow> goal_event list \<Rightarrow> nat" where
  "failures g [] = 0"
| "failures g (Settled g' outcome # evs) = of_bool (g' = g \<and> outcome \<noteq> None) + failures g evs"
| "failures g (ev # evs) = failures g evs"

fun successes :: "nat \<Rightarrow> goal_event list \<Rightarrow> nat" where
  "successes g [] = 0"
| "successes g (Settled g' outcome # evs) = of_bool (g' = g \<and> outcome = None) + successes g evs"
| "successes g (ev # evs) = successes g evs"

fun rebinds :: "goal_event list \<Rightarrow> nat" where
  "rebinds [] = 0"
| "rebinds (Bound key state # evs) = Suc (rebinds evs)"
| "rebinds (Connected # evs) = Suc (rebinds evs)"
| "rebinds (ev # evs) = rebinds evs"

inductive goal_step :: "pyval \<Rightarrow> goal_progress \<Rightarrow> goal_event \<Rightarrow> goal_progress \<Rightarrow> bool" for cultist_map where
  step_evaluate: "begin_evaluate s objectives facts admitted = (s', decision) \<Longrightarrow>
     goal_step cultist_map s (Evaluated objectives facts admitted decision) s'"
| step_settle: "finish_evaluate s g outcome = (s', r) \<Longrightarrow> goal_step cultist_map s (Settled g outcome) s'"
| step_bind: "goal_step cultist_map s (Bound key state) (bind_goal s key state)"
| step_connected: "goal_connected s (persist :: unit goal_persister) w = (s', w', r) \<Longrightarrow> goal_step cultist_map s Connected s'"
| step_completion: "observe_completion cultist_map s details (persist :: unit goal_persister) w = (s', w', r) \<Longrightarrow>
     goal_step cultist_map s (Completion details (case r of Inr answer \<Rightarrow> answer | Inl e \<Rightarrow> None)) s'"
| step_candidate: "candidate_step s s' \<Longrightarrow> goal_step cultist_map s Candidate_change s'"

inductive_cases goal_stepE: "goal_step cultist_map s ev s'"

text \<open>A send settles once, after it began.\<close>

inductive goal_run :: "pyval \<Rightarrow> goal_event list \<Rightarrow> goal_progress \<Rightarrow> bool" for cultist_map where
  goal_run_start: "goal_run cultist_map [] new_goal_progress"
| goal_run_step: "goal_run cultist_map evs s \<Longrightarrow> goal_step cultist_map s ev s' \<Longrightarrow>
     (case ev of Settled g outcome \<Rightarrow> failures g evs + successes g evs < sends g evs | _ \<Rightarrow> True) \<Longrightarrow>
     goal_run cultist_map (evs @ [ev]) s'"

lemma sends_append [simp]: "sends g (xs @ ys) = sends g xs + sends g ys"
  by (induction g xs rule: sends.induct) auto
lemma failures_append [simp]: "failures g (xs @ ys) = failures g xs + failures g ys"
  by (induction g xs rule: failures.induct) auto
lemma successes_append [simp]: "successes g (xs @ ys) = successes g xs + successes g ys"
  by (induction g xs rule: successes.induct) auto
lemma rebinds_append [simp]: "rebinds (xs @ ys) = rebinds xs + rebinds ys"
  by (induction xs rule: rebinds.induct) auto

definition send_inv :: "goal_event list \<Rightarrow> goal_progress \<Rightarrow> bool" where
  "send_inv evs s \<longleftrightarrow> go_generation s = rebinds evs \<and>
     (\<forall>g. sends g evs \<le> failures g evs + 1) \<and> (\<forall>g > go_generation s. sends g evs = 0 \<and> failures g evs = 0 \<and> successes g evs = 0) \<and>
     sends (go_generation s) evs = failures (go_generation s) evs + successes (go_generation s) evs + of_bool (go_in_flight s) \<and>
     successes (go_generation s) evs \<le> of_bool (go_sent s) \<and> \<not> (go_in_flight s \<and> go_sent s)"

definition send_part :: "goal_progress \<Rightarrow> nat \<times> bool \<times> bool \<times> ((pyval \<times> pyval) \<times> bool) list" where
  "send_part s = (go_generation s, go_in_flight s, go_sent s, go_completions s)"

lemma send_part_operations [simp]:
  "send_part (clear_candidate s) = send_part s"
  "send_part (acknowledge_candidate s token) = send_part s"
  "send_part (fst (candidate_slot_allowed s a sl)) = send_part s"
  "send_part (fst (observe_candidate s sel d)) = send_part s"
  "send_part (fst (arm_candidate fm s sn d rm ep)) = send_part s"
  by (simp_all add: send_part_def acknowledge_candidate_def candidate_slot_allowed_def observe_candidate_def arm_candidate_def
      clear_candidate_def Let_def split: option.split sum.split)

lemma candidate_frame:
  assumes "candidate_step s s'"
  shows "go_generation s' = go_generation s" "go_in_flight s' = go_in_flight s" "go_sent s' = go_sent s"
    "go_completions s' = go_completions s"
proof -
  from assms have "send_part s' = send_part s" by (auto simp: candidate_step_def)
  then show "go_generation s' = go_generation s" "go_in_flight s' = go_in_flight s" "go_sent s' = go_sent s"
    "go_completions s' = go_completions s" by (simp_all add: send_part_def)
qed

lemma track_cultist_frame:
  "go_generation (fst (track_cultist s path persist w)) = go_generation s"
  "go_in_flight (fst (track_cultist s path persist w)) = go_in_flight s"
  "go_sent (fst (track_cultist s path persist w)) = go_sent s"
  "go_completions (fst (track_cultist s path persist w)) = go_completions s"
  "snd (snd (track_cultist s path persist w)) = Inr None \<or> (\<exists>e. snd (snd (track_cultist s path persist w)) = Inl e)"
  by (simp_all add: track_cultist_def Let_def split: prod.split sum.split)

lemma observe_completion_cases:
  assumes "observe_completion cultist_map s details persist w = (s', w', r)" and "completion_key details = (path, record_map)"
  shows "(send_part s' = send_part s \<and> r = Inr None) \<or>
    ((\<exists>t. send_part s' = send_part t \<and> t = s\<lparr>go_completions := AList.update (path, record_map) (completed_details details) (go_completions s)\<rparr>) \<and>
      (r = Inr None \<or> (\<exists>e. r = Inl e) \<or>
       r = Inr (if map_of (go_completions s) (path, record_map) = Some False \<and> completed_details details
                then completion_answer record_map else None)))"
proof -
  let ?t = "s\<lparr>go_last_mtime := dget details ''_mtime_ns'',
          go_completions := AList.update (path, record_map) (completed_details details) (go_completions s)\<rparr>"
  let ?a = "if map_of (go_completions s) (path, record_map) = Some False \<and> completed_details details
            then completion_answer record_map else None"
  consider "(s', w', r) = (s, w, Inr None)" | "(s', w', r) = (s\<lparr>go_last_mtime := dget details ''_mtime_ns''\<rparr>, w, Inr None)"
    | "(s', w', r) = track_cultist ?t path persist w" | "(s', w', r) = (?t, w, Inr ?a)"
    using assms(1) unfolding observe_completion_def Let_def assms(2) prod.case by presburger
  then show ?thesis
  proof cases
    case 3
    then have "s' = fst (track_cultist ?t path persist w)" "r = snd (snd (track_cultist ?t path persist w))"
      by (metis fst_conv snd_conv)+
    with track_cultist_frame [of ?t path persist w] show ?thesis by (auto simp: send_part_def)
  qed (simp_all add: send_part_def)
qed

lemma completion_frame:
  assumes "observe_completion cultist_map s details persist w = (s', w', r)"
  shows "go_generation s' = go_generation s" "go_in_flight s' = go_in_flight s" "go_sent s' = go_sent s"
proof -
  obtain path record_map where "completion_key details = (path, record_map)" by fastforce
  from observe_completion_cases [OF assms this]
  show "go_generation s' = go_generation s" "go_in_flight s' = go_in_flight s" "go_sent s' = go_sent s"
    by (auto simp: send_part_def)
qed

lemma begin_evaluate_cases:
  assumes "begin_evaluate s objectives facts admitted = (s', decision)"
  shows "((\<exists>b. decision = Answer b) \<and> send_part s' = send_part s) \<or>
    (decision = Send_goal (go_generation s) \<and> \<not> go_in_flight s \<and> \<not> go_sent s \<and> send_part s' = send_part (s\<lparr>go_in_flight := True\<rparr>) \<and>
     objectives \<noteq> {} \<and> objectives \<subseteq> cf_checked facts \<and> cf_connected facts \<and> cf_ready facts \<and> admitted = Some True)"
  using assms unfolding begin_evaluate_def Let_def
  by (auto simp: send_part_def split: if_splits)

lemma send_inv_part: "send_part s' = send_part s \<Longrightarrow> send_inv evs s' = send_inv evs s"
  by (simp add: send_part_def send_inv_def)

lemma send_inv_step:
  assumes inv: "send_inv evs s" and step: "goal_step cultist_map s ev s'"
    and ok: "case ev of Settled g outcome \<Rightarrow> failures g evs + successes g evs < sends g evs | _ \<Rightarrow> True"
  shows "send_inv (evs @ [ev]) s'"
  using step
proof (cases rule: goal_step.cases)
  case (step_evaluate objectives facts admitted decision)
  from begin_evaluate_cases [OF step_evaluate(2)] show ?thesis
  proof (elim disjE)
    assume "(\<exists>b. decision = Answer b) \<and> send_part s' = send_part s"
    then show ?thesis using inv step_evaluate(1) by (auto simp: send_inv_def send_part_def)
  next
    assume *: "decision = Send_goal (go_generation s) \<and> \<not> go_in_flight s \<and> \<not> go_sent s \<and> send_part s' = send_part (s\<lparr>go_in_flight := True\<rparr>) \<and>
      objectives \<noteq> {} \<and> objectives \<subseteq> cf_checked facts \<and> cf_connected facts \<and> cf_ready facts \<and> admitted = Some True"
    have "sends (go_generation s) evs = failures (go_generation s) evs" "successes (go_generation s) evs = 0"
      using inv * by (auto simp: send_inv_def)
    moreover have "sends g (evs @ [ev]) = sends g evs + of_bool (g = go_generation s)" for g
      using step_evaluate(1) * by auto
    moreover have "failures g (evs @ [ev]) = failures g evs" "successes g (evs @ [ev]) = successes g evs" "rebinds (evs @ [ev]) = rebinds evs" for g
      using step_evaluate(1) by simp_all
    ultimately show ?thesis using inv * unfolding send_inv_def send_part_def by auto
  qed
next
  case (step_settle g outcome r)
  have le: "g \<le> go_generation s"
  proof (rule ccontr)
    assume "\<not> g \<le> go_generation s"
    with inv have "sends g evs = 0" by (simp add: send_inv_def)
    with ok step_settle(1) show False by simp
  qed
  show ?thesis
  proof (cases "g = go_generation s")
    case True
    then have fl: "go_in_flight s" "\<not> go_sent s" using inv ok step_settle(1) by (auto simp: send_inv_def split: if_splits)
    have s': "go_generation s' = go_generation s" "\<not> go_in_flight s'" "go_sent s' \<longleftrightarrow> outcome = None"
      using step_settle(2) True fl by (cases outcome; auto simp: finish_evaluate_def)+
    show ?thesis using inv fl step_settle(1) True s' unfolding send_inv_def by (cases outcome) auto
  next
    case False
    then have s': "s' = s" using step_settle by (simp add: finish_evaluate_def)
    have "failures g (evs @ [ev]) + successes g (evs @ [ev]) \<le> sends g evs" using ok step_settle(1) by (cases outcome) auto
    with False le inv step_settle(1) show ?thesis unfolding send_inv_def s' by (auto intro: le_SucI)
  qed
next
  case (step_bind key state)
  then show ?thesis using inv
    by (auto simp: bind_goal_def clear_candidate_def invalidate_publication_def send_inv_def Let_def)
next
  case (step_connected persist w w' r)
  then show ?thesis using inv
    by (auto simp: goal_connected_def invalidate_publication_def send_inv_def Let_def)
next
  case (step_completion details persist w w' r)
  then show ?thesis using inv completion_frame [OF step_completion(2)] by (auto simp: send_inv_def)
next
  case step_candidate
  then show ?thesis using inv candidate_frame [OF step_candidate(2)] by (auto simp: send_inv_def)
qed

text \<open>Property C20. The goal is sent at most once: over any interleaving of evaluations, settled sends,
  connections, rebinds and save observations, within one generation of the publication a second
  send happens only after every earlier one failed, generations only change by a connection or a
  rebind, and a send needs objectives, all of them checked by a ready, connected server.\<close>

theorem goal_sent_once:
  assumes "goal_run cultist_map evs s"
  shows "sends g evs \<le> failures g evs + 1 \<and> (rebinds evs < g \<longrightarrow> sends g evs = 0) \<and>
    (\<forall>objectives facts admitted. Evaluated objectives facts admitted (Send_goal g) \<in> set evs \<longrightarrow>
       objectives \<noteq> {} \<and> objectives \<subseteq> cf_checked facts \<and> cf_connected facts \<and> cf_ready facts \<and> admitted = Some True)"
proof -
  have "send_inv evs s \<and> (\<forall>objectives facts admitted. Evaluated objectives facts admitted (Send_goal g) \<in> set evs \<longrightarrow>
       objectives \<noteq> {} \<and> objectives \<subseteq> cf_checked facts \<and> cf_connected facts \<and> cf_ready facts \<and> admitted = Some True)"
    using assms
  proof (induction rule: goal_run.induct)
    case goal_run_start
    show ?case by (simp add: send_inv_def new_goal_progress_def)
  next
    case (goal_run_step evs s ev s')
    have "objectives \<noteq> {} \<and> objectives \<subseteq> cf_checked facts \<and> cf_connected facts \<and> cf_ready facts \<and> admitted = Some True"
      if "ev = Evaluated objectives facts admitted (Send_goal g)" for objectives facts admitted
      using goal_run_step.hyps(2) that by (auto elim!: goal_stepE dest!: begin_evaluate_cases)
    with goal_run_step send_inv_step [OF _ goal_run_step.hyps(2,3)] show ?case by auto
  qed
  then show ?thesis by (simp add: send_inv_def)
qed


section \<open>Save fallback edges\<close>

text \<open>An incomplete record of this save and map was seen, and no completion was reported for it
  since.\<close>

definition armed_since :: "pyval \<times> pyval \<Rightarrow> goal_event list \<Rightarrow> bool" where
  "armed_since key evs \<longleftrightarrow> (\<exists>pre details answer post. evs = pre @ Completion details answer # post \<and>
     completion_key details = key \<and> \<not> completed_details details \<and>
     (\<forall>d a. Completion d (Some a) \<in> set post \<longrightarrow> completion_key d \<noteq> key))"

lemma armed_since_snoc:
  assumes "armed_since key evs" "\<forall>d a. ev = Completion d (Some a) \<longrightarrow> completion_key d \<noteq> key"
  shows "armed_since key (evs @ [ev])"
proof -
  obtain pre details answer post where "evs = pre @ Completion details answer # post" "completion_key details = key"
    "\<not> completed_details details" "\<forall>d a. Completion d (Some a) \<in> set post \<longrightarrow> completion_key d \<noteq> key"
    using assms(1) unfolding armed_since_def by blast
  with assms(2) show ?thesis unfolding armed_since_def
    by (intro exI [of _ pre] exI [of _ details] exI [of _ answer] exI [of _ "post @ [ev]"]) auto
qed

definition edge_inv :: "goal_event list \<Rightarrow> goal_progress \<Rightarrow> bool" where
  "edge_inv evs s \<longleftrightarrow> (\<forall>key. map_of (go_completions s) key = Some False \<longrightarrow> armed_since key evs)"

lemma completions_frame:
  assumes "goal_step cultist_map s ev s'" "\<forall>d a. ev \<noteq> Completion d a"
  shows "go_completions s' = go_completions s"
  using assms
proof (cases rule: goal_step.cases)
  case (step_evaluate objectives facts admitted decision)
  from begin_evaluate_cases [OF step_evaluate(2)] show ?thesis by (auto simp: send_part_def)
next
  case (step_settle g outcome r)
  then show ?thesis by (auto simp: finish_evaluate_def split: option.splits if_splits)
next
  case (step_bind key state)
  then show ?thesis by (simp add: bind_goal_def clear_candidate_def invalidate_publication_def Let_def)
next
  case (step_connected persist w w' r)
  then show ?thesis by (auto simp: goal_connected_def invalidate_publication_def Let_def)
next
  case step_candidate
  then show ?thesis by (simp add: candidate_frame)
qed simp

lemma edge_step:
  assumes inv: "edge_inv evs s" and step: "goal_step cultist_map s (Completion details answer) s'"
  shows "(answer \<noteq> None \<longrightarrow> armed_since (completion_key details) evs \<and> completed_details details) \<and>
    edge_inv (evs @ [Completion details answer]) s'"
proof -
  obtain persist :: "unit goal_persister" and w w' r where run: "observe_completion cultist_map s details persist w = (s', w', r)"
    and answer: "answer = (case r of Inr a \<Rightarrow> a | Inl e \<Rightarrow> None)"
    using step by (auto elim: goal_stepE)
  obtain path record_map where key: "completion_key details = (path, record_map)" by fastforce
  have keep: "armed_since k (evs @ [Completion details answer])" if "armed_since k evs" "answer = None \<or> k \<noteq> completion_key details" for k
    using that by (intro armed_since_snoc) auto
  have arm: "armed_since (completion_key details) (evs @ [Completion details answer])" if "\<not> completed_details details"
    unfolding armed_since_def using that
    by (intro exI [of _ evs] exI [of _ details] exI [of _ answer] exI [of _ "[]"]) simp
  let ?answer = "if map_of (go_completions s) (path, record_map) = Some False \<and> completed_details details
                then completion_answer record_map else None"
  from observe_completion_cases [OF run key]
  consider "send_part s' = send_part s \<and> r = Inr None"
    | "(\<exists>t. send_part s' = send_part t \<and>
        t = s\<lparr>go_completions := AList.update (path, record_map) (completed_details details) (go_completions s)\<rparr>) \<and>
      (r = Inr None \<or> (\<exists>e. r = Inl e) \<or> r = Inr ?answer)" by argo
  then show ?thesis
  proof cases
    case 1
    with inv keep answer show ?thesis by (auto simp: edge_inv_def send_part_def)
  next
    case 2
    then have s': "\<exists>t. send_part s' = send_part t \<and>
        t = s\<lparr>go_completions := AList.update (path, record_map) (completed_details details) (go_completions s)\<rparr>"
      and r: "r = Inr None \<or> (\<exists>e. r = Inl e) \<or> r = Inr ?answer" by blast+
    have fired: "answer \<noteq> None \<Longrightarrow> map_of (go_completions s) (path, record_map) = Some False \<and> completed_details details"
      using r answer by (auto split: if_splits)
    have upd: "map_of (go_completions s') k = (if k = (path, record_map) then Some (completed_details details) else map_of (go_completions s) k)" for k
      using s' by (auto simp: send_part_def update_conv')
    have "armed_since k (evs @ [Completion details answer])" if "map_of (go_completions s') k = Some False" for k
    proof (cases "k = (path, record_map)")
      case True
      with that key arm show ?thesis unfolding upd by simp
    next
      case False
      with that inv have "armed_since k evs" unfolding upd edge_inv_def by (metis (full_types))
      with keep False key show ?thesis by blast
    qed
    with fired inv key show ?thesis by (auto simp: edge_inv_def)
  qed
qed

lemma edge_run: "goal_run cultist_map evs s \<Longrightarrow> edge_inv evs s"
proof (induction rule: goal_run.induct)
  case goal_run_start
  show ?case by (simp add: edge_inv_def new_goal_progress_def)
next
  case (goal_run_step evs s ev s')
  show ?case
  proof (cases "\<exists>d a. ev = Completion d a")
    case True
    with goal_run_step edge_step show ?thesis by blast
  next
    case False
    with goal_run_step completions_frame [OF goal_run_step.hyps(2)] show ?thesis
      unfolding edge_inv_def by (metis armed_since_snoc)
  qed
qed

text \<open>A mission completion is never inferred from a save alone: whenever the save fallback reports
  one, the record is complete, and an incomplete record of the same save and map was observed
  before with no report for it since - so each transition is reported once, and a save that was
  already complete when first seen never is.\<close>

theorem completion_needs_edge:
  assumes "goal_run cultist_map (evs @ [Completion details (Some answer)]) s"
  shows "completed_details details \<and> armed_since (completion_key details) evs"
  using assms
proof (cases rule: goal_run.cases)
  case (goal_run_step evs' s0 ev)
  then have "evs' = evs" "ev = Completion details (Some answer)" by simp_all
  with goal_run_step edge_step [OF edge_run] show ?thesis by blast
qed simp


section \<open>Witnesses\<close>

definition sample_facts :: check_facts where
  "sample_facts = \<lparr>cf_checked = {7}, cf_submitted = {}, cf_server = {7}, cf_ready = True, cf_connected = True\<rparr>"

lemma sample_send:
  "goal_run (PStr ''m'') [Evaluated {7} sample_facts (Some True) (Send_goal 0)]
     (new_goal_progress\<lparr>go_pending := Some (True, {}), go_in_flight := True\<rparr>)"
proof -
  have "begin_evaluate new_goal_progress {7} sample_facts (Some True) =
      (new_goal_progress\<lparr>go_pending := Some (True, {}), go_in_flight := True\<rparr>, Send_goal 0)"
    by (simp add: begin_evaluate_def sample_facts_def new_goal_progress_def)
  from goal_run_step [OF goal_run_start step_evaluate [OF this]] show ?thesis by simp
qed

theorem goal_sent_once_witness:
  "\<exists>s. goal_run (PStr ''m'') [Evaluated {7} sample_facts (Some True) (Send_goal 0)] s \<and>
     sends 0 [Evaluated {7} sample_facts (Some True) (Send_goal 0)] = 1 \<and> {7} \<subseteq> cf_checked sample_facts"
proof -
  from goal_sent_once [OF sample_send, of 0] sample_send show ?thesis by auto
qed

definition sample_details :: "string \<Rightarrow> int \<Rightarrow> pydict" where
  "sample_details done stamp = [(''mapName'', PStr ''e3m4_boss''), (''_mtime_ns'', PInt stamp), (''_path'', PStr ''p''), (''completed'', PStr done)]"

lemma sample_completion_run:
  "\<exists>s. goal_run (PStr ''m'') ([Completion (sample_details ''0'' 1) None] @ [Completion (sample_details ''1'' 2) (Some ''final_sin_mission_complete'')]) s"
proof -
  let ?p = "(\<lambda>d w. (w, Inr ())) :: unit goal_persister"
  let ?s1 = "new_goal_progress\<lparr>go_last_mtime := PInt 1, go_completions := [((PStr ''p'', PStr ''e3m4_boss''), False)]\<rparr>"
  let ?s2 = "new_goal_progress\<lparr>go_last_mtime := PInt 2, go_completions := [((PStr ''p'', PStr ''e3m4_boss''), True)]\<rparr>"
  have map: "canonical_map_name (PStr ''e3m4_boss'') = PStr ''e3m4_boss''" by code_simp
  have fields: "dget (sample_details st n) ''_mtime_ns'' = PInt n" "dget (sample_details st n) ''_path'' = PStr ''p''"
      "dget_or (sample_details st n) ''mapName'' v = PStr ''e3m4_boss''" "completed_details (sample_details st n) \<longleftrightarrow> st = ''1''" for st n v
    by (simp_all add: sample_details_def dget_def dget_or_def completed_details_def)
  have key: "completion_key (sample_details st n) = (PStr ''p'', PStr ''e3m4_boss'')" for st n
    by (simp add: completion_key_def fields map)
  have answer: "completion_answer (PStr ''e3m4_boss'') = Some ''final_sin_mission_complete''" by (simp add: completion_answer_def)
  have 1: "observe_completion (PStr ''m'') new_goal_progress (sample_details ''0'' 1) ?p () = (?s1, (), Inr None)"
    by (simp add: observe_completion_def key fields new_goal_progress_def)
  have 2: "observe_completion (PStr ''m'') ?s1 (sample_details ''1'' 2) ?p () = (?s2, (), Inr (Some ''final_sin_mission_complete''))"
    by (simp add: observe_completion_def key fields answer)
  from step_completion [OF 1] step_completion [OF 2]
  have "goal_step (PStr ''m'') new_goal_progress (Completion (sample_details ''0'' 1) None) ?s1"
    "goal_step (PStr ''m'') ?s1 (Completion (sample_details ''1'' 2) (Some ''final_sin_mission_complete'')) ?s2" by simp_all
  from goal_run_step [OF goal_run_step [OF goal_run_start this(1)] this(2)] show ?thesis by auto
qed

theorem completion_needs_edge_witness:
  "\<exists>s. goal_run (PStr ''m'') ([Completion (sample_details ''0'' 1) None] @ [Completion (sample_details ''1'' 2) (Some ''final_sin_mission_complete'')]) s \<and>
     armed_since (completion_key (sample_details ''1'' 2)) [Completion (sample_details ''0'' 1) None]"
proof -
  obtain s where run: "goal_run (PStr ''m'') ([Completion (sample_details ''0'' 1) None] @ [Completion (sample_details ''1'' 2) (Some ''final_sin_mission_complete'')]) s"
    using sample_completion_run by blast
  from completion_needs_edge [OF run] run show ?thesis by blast
qed

end
