(* ===== verification/Fast_Travel.thy ===== *)
theory Fast_Travel
  imports Runtime_Context
begin

text \<open>
  Fast Travel, \<open>doom_eap/runtime/fast_travel.py\<close>: eligibility is frozen when a load epoch begins,
  and the unlock command is queued at most once for a room, map and epoch, with a bounded
  exponential back-off between refused attempts.

  The sender is a function on a world that may raise; the two clocks are arguments. The
  transition signature only throttles the log; it is kept because it also guards the status text.
\<close>

section \<open>State\<close>

definition FAST_TRAVEL_RETRY_BASE_SECONDS :: time where "FAST_TRAVEL_RETRY_BASE_SECONDS = 1"
definition FAST_TRAVEL_RETRY_MAX_SECONDS :: time where "FAST_TRAVEL_RETRY_MAX_SECONDS = 8"

type_synonym delivery_key = "pyval \<times> pyval \<times> pyval"

text \<open>The fields of the epoch dictionary.\<close>

record travel_epoch =
  te_identity :: pyval
  te_map_key :: pyval
  te_epoch :: pyval
  te_completed :: bool
  te_ineligible :: "string option"
  te_status :: string
  te_pending_reason :: "string option"
  te_retry_attempt :: nat
  te_retry_deadline :: "time option"

record fast_travel =
  ft_catalog :: "(string \<times> string) list"
  ft_map_keys :: "string list"
  ft_missions :: "(string \<times> int) list"
  ft_submitted :: "delivery_key list"
  ft_epoch :: "travel_epoch option"
  ft_eligibility :: "delivery_key option"
  ft_last :: "(string \<times> pyval \<times> pyval \<times> pyval \<times> string option) option"

definition new_fast_travel :: "(string \<times> string) list \<Rightarrow> string list \<Rightarrow> (string \<times> int) list \<Rightarrow> fast_travel" where
  "new_fast_travel catalog keys missions = \<lparr>ft_catalog = catalog, ft_map_keys = keys, ft_missions = missions,
     ft_submitted = [], ft_epoch = None, ft_eligibility = None, ft_last = None\<rparr>"

definition invalidate_travel :: "fast_travel \<Rightarrow> bool \<Rightarrow> fast_travel" where
  "invalidate_travel s clear_submitted =
     (let s1 = s\<lparr>ft_epoch := None, ft_eligibility := None, ft_last := None\<rparr>
      in if clear_submitted then s1\<lparr>ft_submitted := []\<rparr> else s1)"

definition rebind_travel :: "fast_travel \<Rightarrow> fast_travel" where
  "rebind_travel s = s\<lparr>ft_submitted := []\<rparr>"

definition valid_fast_travel_delivery_key :: "delivery_key \<Rightarrow> bool" where
  "valid_fast_travel_delivery_key = (\<lambda>(identity, map_key, epoch).
     is_str identity \<and> truthy identity \<and> is_str map_key \<and> truthy map_key \<and> is_str epoch \<and> truthy epoch
     \<and> valid_materialization_epoch epoch)"

definition catalog_map_key :: "fast_travel \<Rightarrow> pyval \<Rightarrow> pyval" where
  "catalog_map_key s runtime_map =
     (case filter (\<lambda>(k, v). PStr v = canonical_map_name runtime_map) (ft_catalog s) of
        [(key, _)] \<Rightarrow> PStr key
      | _ \<Rightarrow> PNone)"

definition travel_transition :: "fast_travel \<Rightarrow> string \<Rightarrow> string option \<Rightarrow> fast_travel" where
  "travel_transition s event reason =
     (let (identity, map_key, epoch) = (case ft_epoch s of None \<Rightarrow> (PNone, PNone, PNone) | Some e \<Rightarrow> (te_identity e, te_map_key e, te_epoch e));
          signature = (event, identity, map_key, epoch, reason)
      in if ft_last s = Some signature then s
         else s\<lparr>ft_last := Some signature,
                ft_epoch := map_option (\<lambda>e. e\<lparr>te_status := ascii_lower event,
                  te_pending_reason := (case reason of None \<Rightarrow> te_pending_reason e | Some r \<Rightarrow> Some r)\<rparr>) (ft_epoch s)\<rparr>)"

definition snapshot_mismatch :: "fast_travel \<Rightarrow> delivery_key \<Rightarrow> pydict option \<Rightarrow> pyval \<Rightarrow> string option" where
  "snapshot_mismatch s = (\<lambda>(identity, map_key, epoch) marker room_identity.
     (if identity \<noteq> room_identity then Some ''identity_mismatch''
      else case marker of
        None \<Rightarrow> Some ''map_unavailable''
      | Some m \<Rightarrow>
         (if dget m ''gameplay_epoch'' \<noteq> epoch then Some ''map_epoch_mismatch''
          else
           let canonical = catalog_map_key s (canonical_map_name (dget_or m ''runtime_map'' (PStr [])));
               accepted_key = (if is_str (dget m ''map_key'') then dget m ''map_key'' else canonical)
           in if accepted_key \<noteq> canonical then Some ''map_identity_mismatch''
              else if accepted_key \<noteq> map_key then Some ''map_mismatch''
              else None)))"

section \<open>Operations\<close>

type_synonym 'w travel_sender = "string \<Rightarrow> delivery_key \<Rightarrow> 'w \<Rightarrow> 'w \<times> bool res"

definition travel_id :: "delivery_key \<Rightarrow> string res" where
  "travel_id = (\<lambda>(identity, map_key, epoch). stable_spool_id ''fast-travel'' [identity, map_key, epoch])"

definition retry_backoff :: "nat \<Rightarrow> time" where
  "retry_backoff attempt = min FAST_TRAVEL_RETRY_MAX_SECONDS (FAST_TRAVEL_RETRY_BASE_SECONDS * 2 ^ min (attempt - 1) 3)"

definition refused_travel :: "fast_travel \<Rightarrow> time \<Rightarrow> fast_travel" where
  "refused_travel s now =
     travel_transition (s\<lparr>ft_epoch := map_option (\<lambda>e. e\<lparr>te_retry_attempt := te_retry_attempt e + 1,
         te_retry_deadline := Some (now + retry_backoff (te_retry_attempt e + 1))\<rparr>) (ft_epoch s)\<rparr>)
       ''RETRY'' (Some ''queue_unavailable'')"

definition submitted_travel :: "fast_travel \<Rightarrow> delivery_key \<Rightarrow> fast_travel" where
  "submitted_travel s key =
     travel_transition (s\<lparr>ft_epoch := map_option (\<lambda>e. e\<lparr>te_retry_deadline := None, te_retry_attempt := 0\<rparr>) (ft_epoch s),
         ft_submitted := key # ft_submitted s\<rparr>) ''COMMAND_QUEUED_UNVERIFIED'' None"

definition reconcile_travel :: "fast_travel \<Rightarrow> pydict option \<Rightarrow> pyval \<Rightarrow> bool \<Rightarrow> bool \<Rightarrow> bool \<Rightarrow> time
    \<Rightarrow> 'w travel_sender \<Rightarrow> 'w \<Rightarrow> fast_travel \<times> 'w \<times> bool res" where
  "reconcile_travel s marker room_identity runtime_ready item_ready rpc_ready now send w =
     (let pending = (\<lambda>reason. (travel_transition s ''PENDING'' (Some reason), w, Inr False)) in
      case ft_epoch s of
        None \<Rightarrow> pending ''epoch_unavailable''
      | Some e \<Rightarrow>
       (case ft_eligibility s of
          None \<Rightarrow> (if te_completed e then pending (case te_ineligible e of None \<Rightarrow> ''snapshot_unavailable'' | Some r \<Rightarrow> r)
                   else (s, w, Inr False))
        | Some key \<Rightarrow>
         (if \<not> valid_fast_travel_delivery_key key then pending ''malformed_epoch''
          else case snapshot_mismatch s key marker room_identity of
            Some reason \<Rightarrow> pending reason
          | None \<Rightarrow>
           (if key \<in> set (ft_submitted s) then (travel_transition s ''COMMAND_QUEUED_UNVERIFIED'' None, w, Inr False)
            else if \<not> runtime_ready then pending ''level_not_ready''
            else if \<not> item_ready then pending ''item_state_unavailable''
            else if \<not> rpc_ready then pending ''rpc_not_ready''
            else if (case te_retry_deadline e of Some d \<Rightarrow> now < d | None \<Rightarrow> False)
            then (s\<lparr>ft_epoch := Some (e\<lparr>te_status := ''pending''\<rparr>)\<rparr>, w, Inr False)
            else
             let s1 = (if te_retry_deadline e = None then travel_transition s ''READY'' None else s)
             in case travel_id key of
                  Inl x \<Rightarrow> (s1, w, Inl x)
                | Inr command_id \<Rightarrow>
                   (case send command_id key w of
                      (w1, Inl x) \<Rightarrow> (s1, w1, Inl x)
                    | (w1, Inr False) \<Rightarrow> (refused_travel s1 now, w1, Inr False)
                    | (w1, Inr True) \<Rightarrow> (submitted_travel s1 key, w1, Inr True))))))"

text \<open>\<open>capture\<close> at the entry of an epoch. The history is \<open>None\<close> when it is not available.\<close>

definition completed_before :: "fast_travel \<Rightarrow> pyval \<Rightarrow> int list option \<Rightarrow> bool" where
  "completed_before s map_key history =
     (case (history, case map_key of PStr k \<Rightarrow> map_of (ft_missions s) k | _ \<Rightarrow> None) of
        (Some h, Some m) \<Rightarrow> m \<in> set h
      | _ \<Rightarrow> False)"

definition ineligible_reason :: "fast_travel \<Rightarrow> pyval \<Rightarrow> pyval \<Rightarrow> int list option \<Rightarrow> string option" where
  "ineligible_reason s identity map_key history =
     (let mission = (case map_key of PStr k \<Rightarrow> map_of (ft_missions s) k | _ \<Rightarrow> None);
          completed = completed_before s map_key history
      in if \<not> truthy identity then Some ''room_identity_unavailable''
         else if (case map_key of PStr k \<Rightarrow> k \<notin> set (ft_map_keys s) | _ \<Rightarrow> True) \<or> mission = None then Some ''map_not_supported''
         else if history = None then Some ''server_history_unavailable''
         else if \<not> completed then Some ''not_completed_before_epoch''
         else None)"

definition enter_epoch :: "fast_travel \<Rightarrow> pyval \<Rightarrow> pyval \<Rightarrow> pyval \<Rightarrow> int list option \<Rightarrow> fast_travel" where
  "enter_epoch s identity map_key epoch history =
     (let reason = ineligible_reason s identity map_key history;
          s1 = s\<lparr>ft_epoch := Some \<lparr>te_identity = identity, te_map_key = map_key, te_epoch = epoch,
                   te_completed = completed_before s map_key history, te_ineligible = reason, te_status = ''epoch'',
                   te_pending_reason = None, te_retry_attempt = 0, te_retry_deadline = None\<rparr>,
                 ft_eligibility := (if reason = None then Some (identity, map_key, epoch) else None), ft_last := None\<rparr>;
          s2 = travel_transition s1 ''EPOCH'' None
      in if reason = None then s2 else travel_transition s2 ''INELIGIBLE'' reason)"

definition capture_travel :: "fast_travel \<Rightarrow> pydict option \<Rightarrow> pydict option \<Rightarrow> pydict option \<Rightarrow> pyval \<Rightarrow> int list option
    \<Rightarrow> fast_travel \<times> delivery_key option" where
  "capture_travel s given cached pending_marker identity history =
     (case (case given of Some m \<Rightarrow> Some m
              | None \<Rightarrow> (case cached of Some (x # xs) \<Rightarrow> Some (x # xs) | _ \<Rightarrow> pending_marker)) of
        None \<Rightarrow> (s, None)
      | Some marker \<Rightarrow>
         (let epoch = dget marker ''gameplay_epoch'' in
          if (case ft_epoch s of None \<Rightarrow> False
              | Some e \<Rightarrow> te_identity e = identity \<and> te_epoch e = epoch \<and> te_map_key e = dget marker ''map_key'')
          then (s, ft_eligibility s)
          else if epoch = PNone then (s, None)
          else
           let map_key = catalog_map_key s (canonical_map_name (dget_or marker ''runtime_map'' (PStr []))) in
           if dget marker ''map_key'' \<noteq> map_key then (s, None)
           else let s1 = enter_epoch s identity map_key epoch history in (s1, ft_eligibility s1)))"


section \<open>At most one unlock per epoch\<close>

datatype travel_event = Entered delivery_key "int list option" | Sent delivery_key | Quiet

definition sends_recorded :: "'w travel_sender \<Rightarrow> ('w \<times> travel_event list) travel_sender" where
  "sends_recorded send command_id key = (\<lambda>(w, trace). case send command_id key w of
     (w1, answer) \<Rightarrow> ((w1, if answer = Inr True then trace @ [Sent key] else trace), answer))"

inductive travel_run :: "fast_travel \<Rightarrow> travel_event list \<Rightarrow> fast_travel \<Rightarrow> bool" for s0 where
  travel_start: "travel_run s0 [] s0"
| travel_capture: "travel_run s0 trace s \<Longrightarrow> capture_travel s given cached pending_marker identity history = (s', answer) \<Longrightarrow>
    travel_run s0 (trace @ [case ft_eligibility s' of Some key \<Rightarrow> (if s' = s then Quiet else Entered key history) | None \<Rightarrow> Quiet]) s'"
| travel_reconcile: "travel_run s0 trace s \<Longrightarrow>
    reconcile_travel s marker room ready items rpc now (sends_recorded send) ((), trace) = (s', ((), trace'), r) \<Longrightarrow>
    travel_run s0 trace' s'"
| travel_invalidate: "travel_run s0 trace s \<Longrightarrow> travel_run s0 trace (invalidate_travel s False)"

lemma travel_transition_frame [simp]:
  "ft_submitted (travel_transition s event reason) = ft_submitted s"
  "ft_eligibility (travel_transition s event reason) = ft_eligibility s"
  "ft_catalog (travel_transition s event reason) = ft_catalog s"
  "ft_map_keys (travel_transition s event reason) = ft_map_keys s"
  "ft_missions (travel_transition s event reason) = ft_missions s"
  by (simp_all add: travel_transition_def Let_def split: prod.split)

definition travel_part :: "fast_travel \<Rightarrow> delivery_key list \<times> delivery_key option \<times> (string \<times> int) list" where
  "travel_part s = (ft_submitted s, ft_eligibility s, ft_missions s)"

lemma reconcile_travel_cases:
  assumes "reconcile_travel s marker room ready items rpc now (sends_recorded send) ((), trace) = (s', ((), trace'), r)"
  shows "(travel_part s' = travel_part s \<and> trace' = trace) \<or>
    (\<exists>key. ft_eligibility s = Some key \<and> key \<notin> set (ft_submitted s) \<and> trace' = trace @ [Sent key] \<and>
       travel_part s' = (key # ft_submitted s, ft_eligibility s, ft_missions s))"
  using assms unfolding reconcile_travel_def Let_def
  by (auto simp: travel_part_def refused_travel_def submitted_travel_def sends_recorded_def
      split: option.splits sum.splits prod.splits if_splits bool.splits)


definition frozen_eligible :: "(string \<times> int) list \<Rightarrow> delivery_key \<Rightarrow> travel_event list \<Rightarrow> bool" where
  "frozen_eligible missions key trace \<longleftrightarrow> (\<exists>identity k epoch h m. key = (identity, PStr k, epoch) \<and>
     map_of missions k = Some m \<and> m \<in> set h \<and> Entered key (Some h) \<in> set trace)"

definition travel_inv :: "(string \<times> int) list \<Rightarrow> travel_event list \<Rightarrow> fast_travel \<Rightarrow> bool" where
  "travel_inv missions trace s \<longleftrightarrow> ft_missions s = missions \<and>
     (\<forall>key. Sent key \<in> set trace \<longrightarrow> key \<in> set (ft_submitted s) \<and> frozen_eligible missions key trace) \<and>
     (\<forall>key. count_list trace (Sent key) \<le> 1) \<and>
     (\<forall>key. ft_eligibility s = Some key \<longrightarrow> frozen_eligible missions key trace)"

lemma frozen_eligible_append: "frozen_eligible missions key trace \<Longrightarrow> frozen_eligible missions key (trace @ later)"
  unfolding frozen_eligible_def by (metis Un_iff set_append)

lemma ineligible_reason_None:
  assumes "ineligible_reason s identity map_key history = None"
  obtains k h m where "map_key = PStr k" "history = Some h" "map_of (ft_missions s) k = Some m" "m \<in> set h"
  using assms unfolding ineligible_reason_def completed_before_def Let_def
  by (auto split: if_splits pyval.splits option.splits)

lemma capture_travel_cases:
  assumes "capture_travel s given cached pending_marker identity history = (s', answer)"
  shows "s' = s \<or> (travel_part s' = (ft_submitted s, None, ft_missions s)) \<or>
    (\<exists>k epoch h m. travel_part s' = (ft_submitted s, Some (identity, PStr k, epoch), ft_missions s) \<and>
       history = Some h \<and> map_of (ft_missions s) k = Some m \<and> m \<in> set h)"
proof -
  consider "s' = s" | map_key epoch where "s' = enter_epoch s identity map_key epoch history"
    using assms unfolding capture_travel_def Let_def by (auto split: option.splits if_splits list.splits)
  then show ?thesis
  proof cases
    case (2 map_key epoch)
    show ?thesis
    proof (cases "ineligible_reason s identity map_key history = None")
      case True
      then obtain k h m where "map_key = PStr k" "history = Some h" "map_of (ft_missions s) k = Some m" "m \<in> set h"
        by (rule ineligible_reason_None)
      with 2 True show ?thesis by (auto simp: enter_epoch_def Let_def travel_part_def)
    next
      case False
      with 2 show ?thesis by (simp add: enter_epoch_def Let_def travel_part_def)
    qed
  qed simp
qed

lemma travel_inv_snoc:
  assumes "travel_inv missions trace s" "ft_submitted s' = ft_submitted s" "ft_missions s' = ft_missions s"
    and other: "\<And>key. ev \<noteq> Sent key" and "\<And>key. ft_eligibility s' = Some key \<Longrightarrow> frozen_eligible missions key (trace @ [ev])"
  shows "travel_inv missions (trace @ [ev]) s'"
proof -
  have "Sent key \<in> set (trace @ [ev]) \<longleftrightarrow> Sent key \<in> set trace" "count_list (trace @ [ev]) (Sent key) = count_list trace (Sent key)" for key
    using other [of key] by auto
  with assms(1-3,5) frozen_eligible_append show ?thesis unfolding travel_inv_def by presburger
qed

lemma travel_inv_capture:
  assumes inv: "travel_inv missions trace s"
    and cap: "capture_travel s given cached pending_marker identity history = (s', answer)"
  shows "travel_inv missions (trace @ [case ft_eligibility s' of Some key \<Rightarrow> (if s' = s then Quiet else Entered key history) | None \<Rightarrow> Quiet]) s'"
    (is "travel_inv missions (trace @ [?ev]) s'")
proof -
  have part: "ft_submitted s' = ft_submitted s" "ft_missions s' = ft_missions s"
    using capture_travel_cases [OF cap] by (auto simp: travel_part_def)
  have "frozen_eligible missions key (trace @ [?ev])" if "ft_eligibility s' = Some key" for key
  proof (cases "s' = s")
    case True
    with inv that have "frozen_eligible missions key trace" unfolding travel_inv_def by blast
    then show ?thesis by (rule frozen_eligible_append)
  next
    case False
    with capture_travel_cases [OF cap] that inv show ?thesis
      by (auto simp: travel_part_def travel_inv_def frozen_eligible_def)
  qed
  moreover have "?ev \<noteq> Sent key" for key by (simp split: option.split)
  ultimately show ?thesis by (intro travel_inv_snoc [OF inv part])
qed

lemma travel_run_inv: "travel_run s0 trace s \<Longrightarrow> s0 = new_fast_travel catalog keys missions \<Longrightarrow> travel_inv missions trace s"
proof (induction rule: travel_run.induct)
  case travel_start
  then show ?case by (simp add: travel_inv_def new_fast_travel_def)
next
  case (travel_capture trace s given cached pending_marker identity history s' answer)
  then show ?case using travel_inv_capture by blast
next
  case (travel_reconcile trace s marker room ready items rpc now send s' trace' r)
  have inv: "travel_inv missions trace s" using travel_reconcile by blast
  from reconcile_travel_cases [OF travel_reconcile.hyps(2)] show ?case
  proof (elim disjE exE conjE)
    assume "travel_part s' = travel_part s" "trace' = trace"
    with inv show ?thesis by (simp add: travel_part_def travel_inv_def)
  next
    fix key
    assume k: "ft_eligibility s = Some key" "key \<notin> set (ft_submitted s)" "trace' = trace @ [Sent key]"
      "travel_part s' = (key # ft_submitted s, ft_eligibility s, ft_missions s)"
    have "Sent key \<notin> set trace" using inv k(2) unfolding travel_inv_def by blast
    then have "count_list trace (Sent key) = 0" by (simp add: count_list_0_iff)
    with inv k show ?thesis using frozen_eligible_append unfolding travel_inv_def travel_part_def by auto
  qed
next
  case (travel_invalidate trace s)
  then show ?case by (auto simp: travel_inv_def invalidate_travel_def Let_def)
qed


lemma retry_backoff_bounds: "1 \<le> attempt \<Longrightarrow> 1 \<le> retry_backoff attempt \<and> retry_backoff attempt \<le> 8"
  by (simp add: retry_backoff_def FAST_TRAVEL_RETRY_MAX_SECONDS_def FAST_TRAVEL_RETRY_BASE_SECONDS_def)

text \<open>While the deadline of a refused attempt is ahead the sender is not called.\<close>

lemma retry_waits:
  assumes "ft_epoch s = Some e" "te_retry_deadline e = Some d" "now < d"
  shows "fst (snd (reconcile_travel s marker room ready items rpc now send w)) = w"
  using assms unfolding reconcile_travel_def Let_def by (simp split: option.split)


section \<open>Witness\<close>

definition sample_marker_of :: pydict where
  "sample_marker_of = [(''gameplay_epoch'', PStr ''1:2''), (''map_key'', PStr ''e1''), (''runtime_map'', PStr ''game/sp/e1'')]"

definition sample_travel :: fast_travel where
  "sample_travel = new_fast_travel [(''e1'', ''game/sp/e1'')] [''e1''] [(''e1'', 9)]"

lemma sample_capture:
  "\<exists>s'. capture_travel sample_travel (Some sample_marker_of) None None (PStr ''room'') (Some [9]) = (s', Some (PStr ''room'', PStr ''e1'', PStr ''1:2'')) \<and>
     ft_eligibility s' = Some (PStr ''room'', PStr ''e1'', PStr ''1:2'') \<and> s' \<noteq> sample_travel \<and> ft_submitted s' = [] \<and>
     ft_catalog s' = [(''e1'', ''game/sp/e1'')] \<and> (\<exists>e. ft_epoch s' = Some e \<and> te_retry_deadline e = None)"
proof -
  have m: "canonical_map_name (PStr ''game/sp/e1'') = PStr ''game/sp/e1''" by code_simp
  have "catalog_map_key sample_travel (PStr ''game/sp/e1'') = PStr ''e1''"
    by (simp add: catalog_map_key_def sample_travel_def new_fast_travel_def m)
  moreover have "ineligible_reason sample_travel (PStr ''room'') (PStr ''e1'') (Some [9]) = None"
    by (simp add: ineligible_reason_def completed_before_def sample_travel_def new_fast_travel_def)
  moreover have "ft_epoch sample_travel = None" "ft_eligibility sample_travel = None" "ft_submitted sample_travel = []"
    "ft_catalog sample_travel = [(''e1'', ''game/sp/e1'')]" by (simp_all add: sample_travel_def new_fast_travel_def)
  ultimately show ?thesis
    by (auto simp: capture_travel_def sample_marker_of_def dget_def dget_or_def m enter_epoch_def travel_transition_def Let_def dest: arg_cong [of _ _ ft_eligibility])
qed

lemma sample_unlock:
  assumes "ft_eligibility s = Some (PStr ''room'', PStr ''e1'', PStr ''1:2'')" "ft_submitted s = []" "ft_catalog s = [(''e1'', ''game/sp/e1'')]"
    and "ft_epoch s = Some e" "te_retry_deadline e = None"
  shows "\<exists>s'. reconcile_travel s (Some sample_marker_of) (PStr ''room'') True True True 0
    (sends_recorded (\<lambda>i k w. (w, Inr True))) ((), trace) = (s', ((), trace @ [Sent (PStr ''room'', PStr ''e1'', PStr ''1:2'')]), Inr True)"
proof -
  have m: "canonical_map_name (PStr ''game/sp/e1'') = PStr ''game/sp/e1''" by code_simp
  have v: "validate_spool_id (PStr ''fast-travel'') = Inr ''fast-travel''" "length (utf8 ''fast-travel'') \<le> 107" by code_simp+
  obtain h where h: "stable_spool_id ''fast-travel'' [PStr ''room'', PStr ''e1'', PStr ''1:2''] = Inr h"
    using stable_spool_id_valid_id [OF v, of "[PStr ''room'', PStr ''e1'', PStr ''1:2'']"] by auto
  have k: "valid_fast_travel_delivery_key (PStr ''room'', PStr ''e1'', PStr ''1:2'')" by code_simp
  have "catalog_map_key s (PStr ''game/sp/e1'') = PStr ''e1''" by (simp add: catalog_map_key_def assms(3) m)
  then have "snapshot_mismatch s (PStr ''room'', PStr ''e1'', PStr ''1:2'') (Some sample_marker_of) (PStr ''room'') = None"
    by (simp add: snapshot_mismatch_def sample_marker_of_def dget_def dget_or_def m)
  with h k assms show ?thesis by (simp add: reconcile_travel_def travel_id_def sends_recorded_def)
qed


end
