(* ===== verification/Client_State_Store.thy ===== *)
theory Client_State_Store
  imports Session_State Receipt_Ledger
begin

text \<open>
  The owner of the client-state document, \<open>doom_eap/runtime/client_state_store.py\<close>: the atomic
  write, the load that quarantines an unreadable document and latches, and the commit of a
  session, over a file whose every operation may fail or be the last one of the process.

  A file's text is the JSON document it parses to, \<open>None\<close> when it does not parse; \<open>json.dump\<close>
  with sorted keys stores \<open>json_sorted\<close> of the document. The temporary name is fresh (a UUID).
  An \<open>OSError\<close> is an exception of that class, subclasses included. Logging is left out.
\<close>

section \<open>The file\<close>

fun json_sorted :: "pyval \<Rightarrow> pyval" where
  "json_sorted (PList vs) = PList (map json_sorted vs)"
| "json_sorted (PDict d) = PDict (sort_key fst (map (\<lambda>(k, v). (k, json_sorted v)) d))"
| "json_sorted v = v"

type_synonym file_text = "pyval option"

record state_file =
  sf_main :: "file_text option"
  sf_temp :: "file_text option"
  sf_quarantine :: "file_text list"

datatype fate = Goes | Fails exn | Dies

datatype 'a outcome = Died | Returned "'a res"

record write_fates =
  wf_mkdir :: fate
  wf_open :: fate
  wf_dump :: fate
  wf_sync :: fate
  wf_replace :: fate
  wf_unlink :: fate

definition file_step :: "fate \<Rightarrow> (state_file \<Rightarrow> state_file) \<Rightarrow> (state_file \<Rightarrow> state_file \<times> unit outcome)
    \<Rightarrow> (exn \<Rightarrow> state_file \<Rightarrow> state_file \<times> unit outcome) \<Rightarrow> state_file \<Rightarrow> state_file \<times> unit outcome" where
  "file_step fate effect continue raising f =
     (case fate of Goes \<Rightarrow> continue (effect f) | Fails e \<Rightarrow> raising e f | Dies \<Rightarrow> (f, Died))"

text \<open>The \<open>finally\<close> block: a missing temporary file is ignored, another error replaces the pending
  result.\<close>

definition unlink_temp :: "fate \<Rightarrow> unit res \<Rightarrow> state_file \<Rightarrow> state_file \<times> unit outcome" where
  "unlink_temp fate pending_result f =
     (if sf_temp f = None then (case fate of Dies \<Rightarrow> (f, Died) | _ \<Rightarrow> (f, Returned pending_result))
      else file_step fate (\<lambda>f. f\<lparr>sf_temp := None\<rparr>) (\<lambda>f. (f, Returned pending_result)) (\<lambda>e f. (f, Returned (Inl e))) f)"

definition atomic_write_json :: "write_fates \<Rightarrow> pyval \<Rightarrow> state_file \<Rightarrow> state_file \<times> unit outcome" where
  "atomic_write_json fates state =
     (let abort = (\<lambda>e. unlink_temp (wf_unlink fates) (Inl e)) in
      file_step (wf_mkdir fates) (\<lambda>f. f)
       (file_step (wf_open fates) (\<lambda>f. f\<lparr>sf_temp := Some None\<rparr>)
         (file_step (wf_dump fates) (\<lambda>f. f\<lparr>sf_temp := Some (Some (json_sorted state))\<rparr>)
           (file_step (wf_sync fates) (\<lambda>f. f)
             (file_step (wf_replace fates) (\<lambda>f. f\<lparr>sf_main := sf_temp f, sf_temp := None\<rparr>)
               (unlink_temp (wf_unlink fates) (Inr ())) abort) abort) abort) abort)
       (\<lambda>e f. (f, Returned (Inl e))))"

section \<open>Metrics\<close>

definition session_metrics :: "pyval \<Rightarrow> int \<times> nat" where
  "session_metrics session =
     (case session of
        PDict s \<Rightarrow>
         ((case dget s ''processed_items'' of PInt p \<Rightarrow> if p \<ge> 0 then p else 0 | _ \<Rightarrow> 0),
          (case dget s ''receipt_history'' of
             PDict h \<Rightarrow> (case dget h ''receipt_ids'' of PList ids \<Rightarrow> length ids | _ \<Rightarrow> 0)
           | _ \<Rightarrow> 0))
      | _ \<Rightarrow> (0, 0))"

definition client_state_metrics :: "pyval \<Rightarrow> nat \<times> int \<times> nat" where
  "client_state_metrics state =
     (case state of
        PDict d \<Rightarrow>
         (case dget_or d ''sessions'' (PDict []) of
            PDict sessions \<Rightarrow>
              (let ms = map (\<lambda>(k, s). session_metrics s) sessions
               in (length sessions, sum_list (map fst ms), sum_list (map snd ms)))
          | _ \<Rightarrow> (0, 0, 0))
      | _ \<Rightarrow> (0, 0, 0))"

section \<open>The store\<close>

type_synonym store = "exn option" \<comment> \<open>the latched load error\<close>

definition load_error :: exn where
  "load_error = Exn ''ClientStateLoadError'' ''Item delivery blocked: cannot load client state''"

definition commit :: "store \<Rightarrow> write_fates \<Rightarrow> pyval \<Rightarrow> state_file \<Rightarrow> state_file \<times> unit outcome" where
  "commit s fates state f = (case s of Some e \<Rightarrow> (f, Returned (Inl e)) | None \<Rightarrow> atomic_write_json fates state f)"

text \<open>\<open>_block_load\<close>: a failed quarantine copy changes only the message.\<close>

definition block_load :: "fate \<Rightarrow> state_file \<Rightarrow> store \<times> state_file \<times> pydict outcome" where
  "block_load copy f =
     (case copy of
        Dies \<Rightarrow> (None, f, Died)
      | Fails e \<Rightarrow> (Some load_error, f, Returned (Inl load_error))
      | Goes \<Rightarrow> (Some load_error,
          f\<lparr>sf_quarantine := sf_quarantine f @ (case sf_main f of None \<Rightarrow> [] | Some t \<Rightarrow> [t])\<rparr>, Returned (Inl load_error)))"

definition empty_state :: pydict where
  "empty_state = [(''version'', PInt CLIENT_STATE_VERSION), (''sessions'', PDict [])]"

text \<open>The boundary check of \<open>load\<close> before migration.\<close>

definition sessions_admitted :: "pyval \<Rightarrow> bool" where
  "sessions_admitted raw =
     (case raw of
        PDict d \<Rightarrow>
         (case dget d ''sessions'' of
            PDict sessions \<Rightarrow>
              list_all (\<lambda>(k, s). case s of
                  PDict session \<Rightarrow> (let b = dget_or session ''processed_items'' (PInt 0) in is_int b \<and> the_int b \<ge> 0)
                | _ \<Rightarrow> False) sessions
          | _ \<Rightarrow> True)
      | _ \<Rightarrow> True)"

definition load_caught :: "exn \<Rightarrow> bool" where
  "load_caught e \<longleftrightarrow> exn_type e \<in> {''OSError'', ''ValueError'', ''TypeError''}"

definition load :: "store \<Rightarrow> fate \<Rightarrow> fate \<Rightarrow> write_fates \<Rightarrow> state_file \<Rightarrow> store \<times> state_file \<times> pydict outcome" where
  "load s read copy fates f =
     (case s of
        Some e \<Rightarrow> (s, f, Returned (Inl e))
      | None \<Rightarrow>
       (case sf_main f of
          None \<Rightarrow> (case read of Dies \<Rightarrow> (s, f, Died) | Fails e \<Rightarrow> block_load copy f | Goes \<Rightarrow> (s, f, Returned (Inr empty_state)))
        | Some text \<Rightarrow>
         (case read of
            Dies \<Rightarrow> (s, f, Died)
          | Fails e \<Rightarrow> block_load copy f
          | Goes \<Rightarrow>
           (case text of
              None \<Rightarrow> block_load copy f
            | Some raw \<Rightarrow>
               (if \<not> sessions_admitted raw then block_load copy f
                else case migrate_client_state raw of
                  Inl e \<Rightarrow> (if load_caught e then block_load copy f else (s, f, Returned (Inl e)))
                | Inr (state, migrated) \<Rightarrow>
                   (if \<not> migrated then (s, f, Returned (Inr state))
                    else case commit s fates (PDict state) f of
                      (f1, Died) \<Rightarrow> (s, f1, Died)
                    | (f1, Returned (Inl e)) \<Rightarrow> (if load_caught e then block_load copy f1 else (s, f1, Returned (Inl e)))
                    | (f1, Returned (Inr _)) \<Rightarrow> (s, f1, Returned (Inr state))))))))"

section \<open>Committing a session\<close>

definition prepared_session :: "pydict \<Rightarrow> int \<Rightarrow> pyval \<Rightarrow> string list \<Rightarrow> pyval \<Rightarrow> pydict" where
  "prepared_session session processed_items cultist received observations =
     foldr dpop [''weapon_masteries_observed'', ''sticky_mastery_observed'', ''fast_travel_delivered'', ''automap_cleanup'']
       (dset ''save_slot_observations'' observations
         (dset ''received_deathlink_event_ids'' (PList (map PStr (last_n 64 (sorted_set received))))
           (dpop ''deathlinked''
             (dset ''cultist_autosave_path'' cultist (project_receipt_boundary session processed_items)))))"

definition with_session :: "string \<Rightarrow> pydict \<Rightarrow> pydict \<Rightarrow> pydict" where
  "with_session key session document =
     dset ''sessions'' (PDict (map (\<lambda>(k, v). (k, if k = key then PDict session else v)) (the_dict (dget document ''sessions'')))) document"

text \<open>\<open>original_session\<close> loses the keys that are gone and takes the others.\<close>

definition refreshed_session :: "pydict \<Rightarrow> pydict \<Rightarrow> pydict" where
  "refreshed_session original session = dmerge (filter (\<lambda>(k, v). has_key session k) original) session"

definition session_at :: "pydict \<Rightarrow> string \<Rightarrow> pydict" where
  "session_at document key = the_dict (dget (the_dict (dget document ''sessions'')) key)"

definition commit_session :: "store \<Rightarrow> write_fates \<Rightarrow> pydict \<Rightarrow> string \<Rightarrow> int \<Rightarrow> pyval \<Rightarrow> string list \<Rightarrow> pyval \<Rightarrow> state_file
    \<Rightarrow> pydict \<times> state_file \<times> unit outcome" where
  "commit_session s fates document key processed_items cultist received observations f =
     (let original = session_at document key;
          session = prepared_session original processed_items cultist received observations
      in case commit s fates (PDict (with_session key session document)) f of
           (f1, Returned (Inr _)) \<Rightarrow> (with_session key (refreshed_session original session) document, f1, Returned (Inr ()))
         | (f1, other) \<Rightarrow> (document, f1, other))"


section \<open>Atomicity\<close>

lemma unlink_temp_frame:
  assumes "unlink_temp fate p f = (f', out)"
  shows "sf_main f' = sf_main f" "sf_quarantine f' = sf_quarantine f"
    "out = Returned (Inr ()) \<Longrightarrow> p = Inr () \<and> sf_temp f' = None"
    "out = Returned (Inl e) \<Longrightarrow> p = Inl e \<or> sf_temp f \<noteq> None"
  using assms by (auto simp: unlink_temp_def file_step_def split: fate.splits if_splits)

lemma atomic_write_cases:
  assumes "atomic_write_json fates state f = (f', out)" "sf_temp f = None"
  shows "sf_quarantine f' = sf_quarantine f \<and>
    (sf_main f' = sf_main f \<and> out \<noteq> Returned (Inr ()) \<or>
     sf_main f' = Some (Some (json_sorted state)) \<and> (out = Died \<or> (out = Returned (Inr ()) \<and> sf_temp f' = None)))"
proof -
  have u: "sf_main g' = sf_main g \<and> sf_quarantine g' = sf_quarantine g \<and> o' \<noteq> Returned (Inr ())"
    if "unlink_temp (wf_unlink fates) (Inl e) g = (g', o')" for e g g' o'
    using unlink_temp_frame [OF that] by auto
  have w: "sf_main g' = sf_main g \<and> sf_quarantine g' = sf_quarantine g \<and> (o' = Died \<or> o' = Returned (Inr ()) \<and> sf_temp g' = None)"
    if "unlink_temp (wf_unlink fates) (Inr ()) g = (g', o')" "sf_temp g = None" for g g' o'
    using that by (auto simp: unlink_temp_def split: fate.splits)
  show ?thesis
    using assms unfolding atomic_write_json_def Let_def file_step_def
    by (auto split: fate.splits dest: u w)
qed

lemma commit_cases:
  assumes "commit s fates state f = (f', out)" "sf_temp f = None"
  shows "sf_quarantine f' = sf_quarantine f \<and>
    (sf_main f' = sf_main f \<and> out \<noteq> Returned (Inr ()) \<or>
     s = None \<and> sf_main f' = Some (Some (json_sorted state)) \<and> (out = Died \<or> (out = Returned (Inr ()) \<and> sf_temp f' = None)))"
  using assms atomic_write_cases by (auto simp: commit_def split: option.splits)

lemma map_of_filter_keys: "map_of (filter (\<lambda>(k, v). P k) d) k = (if P k then map_of d k else None)"
  by (induction d) auto

lemma dget_refreshed:
  assumes "distinct (map fst session)"
  shows "dget (refreshed_session original session) k = dget session k"
proof -
  have "map_of (rev session) = map_of session"
    using assms by (subst map_of_inject_set) (simp_all add: rev_map [symmetric])
  then have "map_of (refreshed_session original session) k = map_of session k"
    by (auto simp: refreshed_session_def map_of_dmerge map_of_filter_keys map_add_def has_key_def split: option.splits)
  then show ?thesis by (simp add: dget_def)
qed

lemma distinct_prepared:
  "distinct (map fst session) \<Longrightarrow> distinct (map fst (prepared_session session p c r ob))"
  by (simp add: prepared_session_def project_receipt_boundary_def Let_def distinct_update distinct_delete)

lemma map_of_map_value: "map_of (map (\<lambda>(k, v). (k, g k v)) d) k = map_option (g k) (map_of d k)"
  by (induction d) auto

lemma session_at_with:
  "session_at (with_session key session document) k =
     (if k = key \<and> map_of (the_dict (dget document ''sessions'')) k \<noteq> None then session else session_at document k)"
  by (auto simp: session_at_def with_session_def dget_def map_of_map_value map_of_update split: option.splits)

text \<open>Property C19. Committing a session is all or nothing: at whatever file operation a fault or the end of the
  process strikes, the state file holds the old document or the complete new one; a commit that
  raises leaves the file and the document in memory as they were, and one that returns has stored
  exactly the session that memory now holds, with every other session untouched.\<close>

theorem commit_session_atomic:
  assumes "commit_session s fates document key boundary cultist received observations f = (document', f', out)"
    and "sf_temp f = None" and "map_of (the_dict (dget document ''sessions'')) key \<noteq> None"
    and "distinct (map fst (session_at document key))"
  shows "let session = prepared_session (session_at document key) boundary cultist received observations;
             stored = Some (Some (json_sorted (PDict (with_session key session document))))
         in sf_main f' \<in> {sf_main f, stored} \<and>
            (out = Returned (Inr ()) \<longrightarrow> sf_main f' = stored \<and> sf_temp f' = None \<and>
               (\<forall>k. dget (session_at document' key) k = dget session k) \<and>
               (\<forall>other. other \<noteq> key \<longrightarrow> session_at document' other = session_at document other)) \<and>
            (\<forall>e. out = Returned (Inl e) \<longrightarrow> sf_main f' = sf_main f \<and> document' = document)"
proof -
  let ?session = "prepared_session (session_at document key) boundary cultist received observations"
  obtain f1 o1 where c: "commit s fates (PDict (with_session key ?session document)) f = (f1, o1)" by fastforce
  note C = commit_cases [OF c assms(2)]
  have run: "(document', f', out) = (case o1 of Returned (Inr _) \<Rightarrow>
      (with_session key (refreshed_session (session_at document key) ?session) document, f1, Returned (Inr ())) | _ \<Rightarrow> (document, f1, o1))"
    using assms(1) c unfolding commit_session_def Let_def by (simp split: outcome.splits sum.splits)
  show ?thesis
  proof (cases "o1 = Returned (Inr ())")
    case True
    with run C assms(3) show ?thesis
      by (auto simp: Let_def session_at_with dget_refreshed [OF distinct_prepared [OF assms(4)]])
  next
    case False
    with run have "document' = document" "f' = f1" "out = o1" by (auto split: outcome.splits sum.splits)
    with C False show ?thesis by (auto simp: Let_def)
  qed
qed

section \<open>A state that cannot be loaded is never overwritten\<close>

inductive store_run :: "store \<Rightarrow> state_file \<Rightarrow> store \<Rightarrow> state_file \<Rightarrow> bool" for s0 f0 where
  store_start: "store_run s0 f0 s0 f0"
| store_load: "store_run s0 f0 s f \<Longrightarrow> load s read copy fates f = (s', f', out) \<Longrightarrow> out \<noteq> Died \<Longrightarrow> store_run s0 f0 s' f'"
| store_commit: "store_run s0 f0 s f \<Longrightarrow> commit s fates state f = (f', out) \<Longrightarrow> out \<noteq> Died \<Longrightarrow> store_run s0 f0 s f'"
| store_session: "store_run s0 f0 s f \<Longrightarrow> commit_session s fates document key boundary cultist received observations f = (document', f', out) \<Longrightarrow>
    out \<noteq> Died \<Longrightarrow> store_run s0 f0 s f'"

lemma latched_run: "store_run s0 f0 s f \<Longrightarrow> s0 = Some e \<Longrightarrow> s = Some e \<and> f = f0"
proof (induction rule: store_run.induct)
  case (store_session s f fates document key boundary cultist received observations document' f' out)
  then show ?case by (auto simp: commit_session_def commit_def Let_def)
qed (auto simp: load_def commit_def)

lemma load_latch:
  assumes "load None read copy fates f = (Some e, f', out)" "sf_temp f = None"
  shows "sf_main f' = sf_main f \<and> out = Returned (Inl e)"
proof -
  have b: "sf_main g' = sf_main g \<and> o' = Returned (Inl x)" if "block_load copy g = (Some x, g', o')" for g g' o' x
    using that by (auto simp: block_load_def split: fate.splits)
  have c: "sf_main g' = sf_main f" if "commit None fates state f = (g', Returned (Inl x))" for g' x state
    using commit_cases [OF that assms(2)] by auto
  show ?thesis using assms(1) unfolding load_def
    by (auto dest: b split: option.splits fate.splits sum.splits prod.splits if_splits outcome.splits) (metis b c)+
qed

text \<open>A client state that cannot be loaded is never overwritten: once a load has been refused, every
  later load, commit and session commit of the process is refused with the same error and the file
  keeps the content that could not be read.\<close>

theorem unreadable_state_preserved:
  assumes "load None read copy fates f = (Some e, f1, out)" and "sf_temp f = None"
    and "store_run (Some e) f1 s f2"
  shows "out = Returned (Inl e) \<and> s = Some e \<and> sf_main f2 = sf_main f \<and>
    commit s later document f2 = (f2, Returned (Inl e)) \<and>
    load s read' copy' fates' f2 = (s, f2, Returned (Inl e))"
  using load_latch [OF assms(1,2)] latched_run [OF assms(3) refl] by (auto simp: commit_def load_def)


section \<open>Witnesses\<close>

definition calm :: write_fates where
  "calm = \<lparr>wf_mkdir = Goes, wf_open = Goes, wf_dump = Goes, wf_sync = Goes, wf_replace = Goes, wf_unlink = Goes\<rparr>"

definition sample_document :: pydict where
  "sample_document = [(''sessions'', PDict [(''k'', PDict [(''deathlinked'', PBool True)])])]"

definition sample_file :: state_file where
  "sample_file = \<lparr>sf_main = Some None, sf_temp = None, sf_quarantine = []\<rparr>"

theorem commit_session_atomic_witness:
  "\<exists>document' f'. commit_session None calm sample_document ''k'' 3 PNone [''b'', ''a''] (PDict []) sample_file =
      (document', f', Returned (Inr ())) \<and>
     dget (session_at document' ''k'') ''processed_items'' = PInt 3 \<and> dget (session_at document' ''k'') ''deathlinked'' = PNone"
proof -
  obtain document' f' where run: "commit_session None calm sample_document ''k'' 3 PNone [''b'', ''a''] (PDict []) sample_file =
      (document', f', Returned (Inr ()))"
    by (simp add: commit_session_def commit_def atomic_write_json_def file_step_def unlink_temp_def calm_def sample_file_def Let_def)
  have clean: "sf_temp sample_file = None" "map_of (the_dict (dget sample_document ''sessions'')) ''k'' \<noteq> None"
    "distinct (map fst (session_at sample_document ''k''))"
    by (simp_all add: sample_file_def sample_document_def session_at_def dget_def)
  have "\<forall>k. dget (session_at document' ''k'') k =
      dget (prepared_session (session_at sample_document ''k'') 3 PNone [''b'', ''a''] (PDict [])) k"
    using commit_session_atomic [OF run clean] by (simp add: Let_def)
  then have "dget (session_at document' ''k'') ''processed_items'' = PInt 3" "dget (session_at document' ''k'') ''deathlinked'' = PNone"
    by (simp_all add: prepared_session_def project_receipt_boundary_def Let_def)
  with run show ?thesis by blast
qed

theorem unreadable_state_preserved_witness:
  "\<exists>f1. load None Goes Goes calm sample_file = (Some load_error, f1, Returned (Inl load_error)) \<and>
     sf_main f1 = Some None \<and> commit (Some load_error) calm (PDict []) f1 = (f1, Returned (Inl load_error))"
proof -
  obtain f1 where run: "load None Goes Goes calm sample_file = (Some load_error, f1, Returned (Inl load_error))"
    by (simp add: load_def sample_file_def block_load_def)
  from unreadable_state_preserved [OF run _ store_start] run show ?thesis by (simp add: sample_file_def)
qed

end
