(* ===== verification/Rune_Reconciliation.thy ===== *)
theory Rune_Reconciliation
  imports Reconciliation_Plan Delivery_Plan Command_Identity
begin

text \<open>
  Rune repairs, \<open>doom_eap/runtime/rune_reconciliation.py\<close>: the native state read from
  \<open>game.details\<close>, the plan that repairs only what the game does not show, and the ledger that
  publishes a plan once.

  The two regular expressions are written out; \<open>\d\<close> is an ASCII digit on the code points modelled.
  The publisher and the persister are functions on a world; time stamps are arguments.
\<close>

section \<open>Native state\<close>

definition strip_quotes :: "string \<Rightarrow> string" where
  "strip_quotes s = rstrip_by (\<lambda>c. c = CHR 0x22) (dropWhile (\<lambda>c. c = CHR 0x22) s)"

definition clean_decl :: "pyval \<Rightarrow> string option" where
  "clean_decl v =
     (case v of
        PStr s \<Rightarrow> (let cleaned = strip_quotes (strip s) in
          if cleaned = [] \<or> ascii_lower cleaned \<in> {''none'', ''null'', ''<none>''} then None else Some cleaned)
      | _ \<Rightarrow> None)"

text \<open>\<open>re.fullmatch(re.escape(prefix) + r"(?:_|\[)?\d+\]?", key)\<close>.\<close>

definition indexed_key :: "string \<Rightarrow> string \<Rightarrow> bool" where
  "indexed_key p key =
     (starts_with key p \<and>
      (let rest = drop (length p) key;
           digits = (if rest \<noteq> [] \<and> hd rest \<in> {CHR ''_'', CHR ''[''} then tl rest else rest);
           tail = dropWhile is_digit digits
       in digits \<noteq> [] \<and> is_digit (hd digits) \<and> tail \<in> {[], '']''}))"

definition field_values :: "pydict \<Rightarrow> string \<Rightarrow> string list" where
  "field_values details p =
     concat (map (\<lambda>(k, v). case clean_decl v of None \<Rightarrow> [] | Some s \<Rightarrow> [s])
       (filter (\<lambda>(k, v). k = p \<or> indexed_key p k) details))"

definition slot_value :: "pydict \<Rightarrow> nat \<Rightarrow> string option" where
  "slot_value details i =
     (case map_of details (''runeSlotName_'' @ str_nat i) of
        Some v \<Rightarrow> clean_decl v
      | None \<Rightarrow> (case map_of details (''runeSlotName['' @ str_nat i @ '']'') of
            Some v \<Rightarrow> clean_decl v
          | None \<Rightarrow> None))"

definition optional_bool :: "pyval \<Rightarrow> bool option" where
  "optional_bool v =
     (case v of
        PBool b \<Rightarrow> Some b
      | PInt i \<Rightarrow> (if i = 0 then Some False else if i = 1 then Some True else None)
      | PStr s \<Rightarrow>
         (let n = ascii_lower (strip s) in
          if n \<in> {''1'', ''true'', ''yes'', ''on''} then Some True
          else if n \<in> {''0'', ''false'', ''no'', ''off''} then Some False
          else None)
      | _ \<Rightarrow> None)"

record rune_native_state =
  rn_available :: "string list"
  rn_active :: "string list"
  rn_registered :: "string list"
  rn_slots :: "string option list"
  rn_page :: "bool option"
  rn_save_slot :: string
  rn_epoch :: pyval
  rn_path :: "string option"
  rn_mtime :: "int option"

definition rune_observed :: "rune_native_state \<Rightarrow> bool" where
  "rune_observed n \<longleftrightarrow> rn_available n \<noteq> [] \<or> rn_active n \<noteq> [] \<or> rn_registered n \<noteq> []
     \<or> list_ex (\<lambda>s. s \<notin> {None, Some []}) (rn_slots n) \<or> rn_page n \<noteq> None"

definition from_game_details :: "pyval \<Rightarrow> string \<Rightarrow> pyval \<Rightarrow> rune_native_state" where
  "from_game_details details save_slot epoch =
     (let source = (case details of PDict d \<Rightarrow> d | _ \<Rightarrow> []) in
      \<lparr>rn_available = field_values source ''availablePerkDeclName'', rn_active = field_values source ''activePerkDeclName'',
       rn_registered = field_values source ''runeName'', rn_slots = map (slot_value source) [0, 1, 2],
       rn_page = optional_bool (dget source ''STAT_RUNE_PAGE_UNLOCKED''), rn_save_slot = save_slot, rn_epoch = epoch,
       rn_path = clean_decl (dget source ''_path''),
       rn_mtime = (case dget source ''_mtime_ns'' of PInt i \<Rightarrow> Some i | _ \<Rightarrow> None)\<rparr>)"

section \<open>The plan\<close>

record rune_entry =
  re_item :: int
  re_perk :: string
  re_disposition :: string
  re_reason :: string

record rune_plan =
  ru_entries :: "rune_entry list"
  ru_fingerprint :: string
  ru_status :: string
  ru_commands :: "reconciliation_command list"

definition rune_repairs :: "rune_plan \<Rightarrow> rune_entry list" where
  "rune_repairs p = filter (\<lambda>e. re_disposition e = ''repair_candidate'') (ru_entries p)"

definition rune_noops :: "rune_plan \<Rightarrow> rune_entry list" where
  "rune_noops p = filter (\<lambda>e. re_disposition e = ''noop'') (ru_entries p)"

definition last_component :: "string \<Rightarrow> string" where
  "last_component s = rev (takeWhile (\<lambda>c. c \<noteq> CHR ''/'') (rev s))"

definition rune_spool_id :: "string \<Rightarrow> pyval \<Rightarrow> int \<Rightarrow> string" where
  "rune_spool_id slot epoch i = ''rune-reconcile-'' @ slot @ ''-e'' @ py_str epoch @ ''-item'' @ str_int i"

definition compile_rune_reconciliation_commands :: "rune_plan \<Rightarrow> pyval \<Rightarrow> pyval \<Rightarrow> reconciliation_command list res" where
  "compile_rune_reconciliation_commands plan slot_identity epoch =
     (case slot_identity of
        PStr slot \<Rightarrow>
         (if slot = [] then Inl (ValueError ''Rune reconciliation requires slot identity'')
          else if \<not> (is_int epoch \<or> is_str epoch) then Inl (ValueError ''Rune reconciliation requires an evidence epoch'')
          else Inr (map (\<lambda>e. \<lparr>rc_item = re_item e, rc_name = last_component (re_perk e), rc_policy = ''rune_visual_repair'', rc_stage = 0,
                 rc_spool_id = rune_spool_id slot epoch (re_item e),
                 rc_command = ''ai_ScriptCmdEnt ap_rpc_v3_'' @ str_int (re_item e) @ '' activate'',
                 rc_description = ''reapply one AP-owned Rune perk without changing equipped slots''\<rparr>) (rune_repairs plan)))
      | _ \<Rightarrow> Inl (ValueError ''Rune reconciliation requires slot identity''))"

definition with_rune_reconciliation_commands :: "rune_plan \<Rightarrow> pyval \<Rightarrow> pyval \<Rightarrow> rune_plan res" where
  "with_rune_reconciliation_commands plan slot_identity epoch =
     bind_res (compile_rune_reconciliation_commands plan slot_identity epoch) (\<lambda>cs. Inr (plan\<lparr>ru_commands := cs\<rparr>))"

definition rune_plan_already_recorded :: "pydict \<Rightarrow> rune_plan \<Rightarrow> bool" where
  "rune_plan_already_recorded state plan \<longleftrightarrow>
     dget state ''fingerprint'' = PStr (ru_fingerprint plan) \<and> dget state ''status'' = PStr (ru_status plan)"

definition rune_command_prefix :: string where
  "rune_command_prefix = ''ai_ScriptCmdEnt player1 givePlayerPerk ''"

definition rune_perk_char :: "char \<Rightarrow> bool" where
  "rune_perk_char c \<longleftrightarrow> is_digit c \<or> (CHR ''A'' \<le> c \<and> c \<le> CHR ''Z'') \<or> (CHR ''a'' \<le> c \<and> c \<le> CHR ''z'') \<or> c \<in> set ''_./-''"

definition rune_command_perk :: "string \<Rightarrow> string option" where
  "rune_command_perk s =
     (let perk = drop (length rune_command_prefix) s in
      if starts_with s rune_command_prefix \<and> starts_with perk ''perk/player/runes/''
         \<and> drop (length ''perk/player/runes/'') perk \<noteq> [] \<and> list_all rune_perk_char (drop (length ''perk/player/runes/'') perk)
      then Some perk else None)"

definition rune_item_perk_mapping :: "(int \<times> pyval) list \<Rightarrow> int list \<Rightarrow> (int \<times> string) list res" where
  "rune_item_perk_mapping definitions ids =
     map_res (\<lambda>i. case map_of definitions i of
         Some (PStr dfn) \<Rightarrow> (case rune_command_perk (strip dfn) of
             Some perk \<Rightarrow> Inr (i, perk)
           | None \<Rightarrow> Inl (ValueError ''Rune item has an unsupported perk command''))
       | _ \<Rightarrow> Inl (ValueError ''Rune item does not have a direct perk command'')) (sorted_set ids)"

definition rune_entry_for :: "rune_native_state \<Rightarrow> int \<Rightarrow> string \<Rightarrow> rune_entry" where
  "rune_entry_for native i perk =
     (let available = perk \<in> set (rn_available native); active = perk \<in> set (rn_active native);
          registered = perk \<in> set (rn_registered native); equipped = Some perk \<in> set (rn_slots native)
      in if registered \<and> available
         then \<lparr>re_item = i, re_perk = perk, re_disposition = ''noop'',
               re_reason = (if equipped then ''equipped_player_choice_preserved'' else ''registered_and_available'')\<rparr>
         else \<lparr>re_item = i, re_perk = perk, re_disposition = ''repair_candidate'',
               re_reason = (if \<not> rune_observed native then ''native_snapshot_unavailable''
                 else if \<not> registered \<and> (available \<or> active \<or> equipped) then ''manager_registration_missing''
                 else if registered then ''perk_availability_missing''
                 else ''perk_and_manager_registration_missing'')\<rparr>)"

definition rune_payload :: "int list \<Rightarrow> rune_native_state \<Rightarrow> pyval" where
  "rune_payload relevant native = PDict
     [(''owned'', PList (map PInt relevant)),
      (''available'', PList (map PStr (sorted_set (rn_available native)))),
      (''active'', PList (map PStr (sorted_set (rn_active native)))),
      (''registered'', PList (map PStr (sorted_set (rn_registered native)))),
      (''slots'', PList (map (\<lambda>s. case s of None \<Rightarrow> PNone | Some t \<Rightarrow> PStr t) (rn_slots native))),
      (''page'', case rn_page native of None \<Rightarrow> PNone | Some b \<Rightarrow> PBool b),
      (''save_slot'', PStr (rn_save_slot native)), (''evidence_epoch'', rn_epoch native)]"

definition compile_rune_reconciliation_plan :: "int list \<Rightarrow> rune_native_state \<Rightarrow> (int \<times> string) list \<Rightarrow> int list option
    \<Rightarrow> rune_plan res" where
  "compile_rune_reconciliation_plan owned native mapping expected_ids =
     (let expected = (case expected_ids of None \<Rightarrow> map fst mapping | Some ids \<Rightarrow> ids);
          relevant = sorted_set (filter (\<lambda>i. i \<in> set expected) owned)
      in if list_ex (\<lambda>i. map_of mapping i = None) relevant
         then Inl (ValueError ''AP-owned Rune has no mapping'')
         else
          let entries = map (\<lambda>i. rune_entry_for native i (case map_of mapping i of Some perk \<Rightarrow> perk | None \<Rightarrow> [])) relevant
          in Inr \<lparr>ru_entries = entries, ru_fingerprint = sha256_hex (json_dumps (rune_payload relevant native)),
               ru_status = (if list_ex (\<lambda>e. re_disposition e = ''repair_candidate'') entries then ''repair_needed'' else ''noop''),
               ru_commands = []\<rparr>)"

section \<open>The ledger\<close>

record rune_reconciliation =
  rr_state :: pydict
  rr_perk :: pydict

definition new_rune_reconciliation :: rune_reconciliation where
  "new_rune_reconciliation = \<lparr>rr_state = [], rr_perk = [(''epoch'', PInt 1), (''delivered'', PDict [])]\<rparr>"

definition bind_runes :: "pydict \<Rightarrow> pydict \<Rightarrow> rune_reconciliation" where
  "bind_runes state perk =
     (let raw = dget_or perk ''epoch'' (PInt 0);
          p1 = dset ''epoch'' (PInt ((if is_int raw then the_int raw else 0) + 1)) perk
      in \<lparr>rr_state = state, rr_perk = (if is_dict (dget p1 ''delivered'') then p1 else dset ''delivered'' (PDict []) p1)\<rparr>)"

definition reset_runes :: "rune_reconciliation \<Rightarrow> rune_reconciliation" where
  "reset_runes s = new_rune_reconciliation"

definition rune_epoch :: "rune_reconciliation \<Rightarrow> int" where
  "rune_epoch s = the_int (dget (rr_perk s) ''epoch'')"

definition advance_runes :: "rune_reconciliation \<Rightarrow> pyval \<Rightarrow> pyval \<Rightarrow> rune_reconciliation \<times> int" where
  "advance_runes s why now =
     (let s1 = s\<lparr>rr_perk := dset ''timestamp'' now (dset ''trigger'' why
                  (dset ''epoch'' (PInt (the_int (dget_or (rr_perk s) ''epoch'' (PInt 0)) + 1)) (rr_perk s)))\<rparr>
      in (s1, rune_epoch s1))"

definition compile_runes :: "int list \<Rightarrow> rune_native_state \<Rightarrow> (int \<times> pyval) list \<Rightarrow> int list \<Rightarrow> rune_plan res" where
  "compile_runes owned native definitions expected =
     bind_res (rune_item_perk_mapping definitions expected)
       (\<lambda>mapping. compile_rune_reconciliation_plan owned native mapping (Some expected))"

type_synonym 'w rune_publisher = "rune_plan \<Rightarrow> 'w \<Rightarrow> 'w \<times> (bool \<times> string option) res"
type_synonym 'w rune_persister = "pydict \<Rightarrow> 'w \<Rightarrow> 'w \<times> unit res"

definition record_runes :: "rune_reconciliation \<Rightarrow> rune_plan \<Rightarrow> pyval \<Rightarrow> pyval \<Rightarrow> 'w rune_persister \<Rightarrow> 'w
    \<Rightarrow> rune_reconciliation \<times> 'w \<times> (rune_plan option \<times> string option) res" where
  "record_runes s plan why now persist w =
     (let s1 = s\<lparr>rr_state := dmerge (rr_state s)
            [(''fingerprint'', PStr (ru_fingerprint plan)), (''status'', PStr (ru_status plan)), (''trigger'', why),
             (''timestamp'', now), (''repair_candidates'', PInt (int (length (rune_repairs plan))))]\<rparr>
      in case persist (rr_state s1) w of
           (w1, Inl e) \<Rightarrow> (s1, w1, Inl e)
         | (w1, Inr _) \<Rightarrow> (s1, w1, Inr (Some plan, None)))"

definition reconcile_runes :: "rune_reconciliation \<Rightarrow> rune_plan \<Rightarrow> pyval \<Rightarrow> pyval \<Rightarrow> bool \<Rightarrow> pyval
    \<Rightarrow> 'w rune_publisher \<Rightarrow> 'w rune_persister \<Rightarrow> 'w \<Rightarrow> rune_reconciliation \<times> 'w \<times> (rune_plan option \<times> string option) res" where
  "reconcile_runes s plan why slot_identity force now publish_plan persist w =
     (if \<not> force \<and> rune_plan_already_recorded (rr_state s) plan then (s, w, Inr (Some plan, None))
      else if rune_repairs plan = [] then record_runes s plan why now persist w
      else case with_rune_reconciliation_commands plan slot_identity (PInt (rune_epoch s)) of
        Inl e \<Rightarrow> (if exn_type e = ''ValueError'' then (s, w, Inr (None, Some (exn_message e))) else (s, w, Inl e))
      | Inr command_plan \<Rightarrow>
         (case publish_plan command_plan w of
            (w1, Inl e) \<Rightarrow> (s, w1, Inl e)
          | (w1, Inr (queued, err)) \<Rightarrow>
             (if queued then record_runes s plan why now persist w1 else (s, w1, Inr (None, err)))))"

section \<open>The plan repairs exactly what is missing\<close>

lemma rune_entry_for_fields [simp]:
  "re_item (rune_entry_for native i perk) = i" "re_perk (rune_entry_for native i perk) = perk"
  by (simp_all add: rune_entry_for_def Let_def)

lemma rune_entry_for_disposition:
  "re_disposition (rune_entry_for native i perk) =
     (if perk \<in> set (rn_registered native) \<and> perk \<in> set (rn_available native) then ''noop'' else ''repair_candidate'')"
  by (simp add: rune_entry_for_def Let_def)

lemma rune_spool_id_inject: "rune_spool_id slot epoch i = rune_spool_id slot epoch j \<longleftrightarrow> i = j"
  by (simp add: rune_spool_id_def)

lemma rune_commands_of:
  assumes "with_rune_reconciliation_commands plan slot_identity epoch = Inr plan'"
  shows "ru_entries plan' = ru_entries plan" "map rc_item (ru_commands plan') = map re_item (rune_repairs plan)"
    "\<exists>slot. map rc_spool_id (ru_commands plan') = map (\<lambda>e. rune_spool_id slot epoch (re_item e)) (rune_repairs plan)"
  using assms by (auto simp: with_rune_reconciliation_commands_def compile_rune_reconciliation_commands_def o_def
      split: pyval.splits if_splits)

text \<open>A rune plan covers exactly the owned runes it is asked about, each with its own perk, and its
  commands repair exactly those that the game does not show as both registered and available, once
  each under distinct identifiers; it is a no-op plan exactly when nothing is to be repaired.\<close>

theorem rune_plan_repairs_missing:
  assumes "compile_rune_reconciliation_plan owned native mapping expected_ids = Inr plan"
    and "with_rune_reconciliation_commands plan slot_identity epoch = Inr plan'"
  shows "map re_item (ru_entries plan) = sorted_set (filter (\<lambda>i. i \<in> set (case expected_ids of None \<Rightarrow> map fst mapping | Some ids \<Rightarrow> ids)) owned) \<and>
    (\<forall>e \<in> set (ru_entries plan). map_of mapping (re_item e) = Some (re_perk e)) \<and>
    map rc_item (ru_commands plan') = map re_item (filter (\<lambda>e. \<not> (re_perk e \<in> set (rn_registered native) \<and> re_perk e \<in> set (rn_available native))) (ru_entries plan)) \<and>
    distinct (map rc_spool_id (ru_commands plan')) \<and> (ru_status plan = ''noop'' \<longleftrightarrow> ru_commands plan' = [])"
proof -
  let ?expected = "case expected_ids of None \<Rightarrow> map fst mapping | Some ids \<Rightarrow> ids"
  let ?relevant = "sorted_set (filter (\<lambda>i. i \<in> set ?expected) owned)"
  have mapped: "\<forall>i \<in> set ?relevant. map_of mapping i \<noteq> None"
    and entries: "ru_entries plan = map (\<lambda>i. rune_entry_for native i (case map_of mapping i of Some perk \<Rightarrow> perk | None \<Rightarrow> [])) ?relevant"
    and status: "ru_status plan = (if list_ex (\<lambda>e. re_disposition e = ''repair_candidate'') (ru_entries plan) then ''repair_needed'' else ''noop'')"
    using assms(1) by (auto simp: compile_rune_reconciliation_plan_def Let_def list_ex_iff split: if_splits)
  have items: "map re_item (ru_entries plan) = ?relevant" unfolding entries by (simp add: o_def)
  have perks: "\<forall>e \<in> set (ru_entries plan). map_of mapping (re_item e) = Some (re_perk e)"
    unfolding entries using mapped by auto
  have missing: "rune_repairs plan = filter (\<lambda>e. \<not> (re_perk e \<in> set (rn_registered native) \<and> re_perk e \<in> set (rn_available native))) (ru_entries plan)"
    unfolding rune_repairs_def by (rule filter_cong [OF refl]) (auto simp: entries rune_entry_for_disposition)
  have "distinct (map re_item (rune_repairs plan))"
    unfolding rune_repairs_def using items by (metis distinct_map_filter sorted_set_props(3))
  moreover obtain slot where ids: "map rc_spool_id (ru_commands plan') = map (\<lambda>e. rune_spool_id slot epoch (re_item e)) (rune_repairs plan)"
    using rune_commands_of(3) [OF assms(2)] by blast
  ultimately have "distinct (map rc_spool_id (ru_commands plan'))"
    by (auto simp: ids distinct_map inj_on_def rune_spool_id_inject)
  moreover have "ru_status plan = ''noop'' \<longleftrightarrow> ru_commands plan' = []"
  proof -
    have "ru_commands plan' = [] \<longleftrightarrow> rune_repairs plan = []" using rune_commands_of(2) [OF assms(2)] by (metis map_is_Nil_conv)
    then show ?thesis by (auto simp: status rune_repairs_def filter_empty_conv list_ex_iff)
  qed
  ultimately show ?thesis using items perks rune_commands_of(2) [OF assms(2)] missing by simp
qed

section \<open>A plan is published once\<close>

definition runes_recorded :: "'w rune_publisher \<Rightarrow> ('w \<times> rune_plan list) rune_publisher" where
  "runes_recorded pub plan = (\<lambda>(w, ps). case pub plan w of
     (w1, answer) \<Rightarrow> ((w1, case answer of Inr (True, err) \<Rightarrow> ps @ [plan] | _ \<Rightarrow> ps), answer))"

definition runes_carried :: "'w rune_persister \<Rightarrow> ('w \<times> rune_plan list) rune_persister" where
  "runes_carried persist document = (\<lambda>(w, ps). case persist document w of (w1, r) \<Rightarrow> ((w1, ps), r))"

inductive rune_run :: "rune_plan \<Rightarrow> rune_reconciliation \<Rightarrow> rune_reconciliation \<Rightarrow> rune_plan list \<Rightarrow> bool" for plan s0 where
  rune_start: "rune_run plan s0 s0 []"
| rune_reconcile: "rune_run plan s0 s ps \<Longrightarrow>
    reconcile_runes s plan why slot_identity False now (runes_recorded pub) (runes_carried persist) ((), ps) = (s', ((), ps'), r) \<Longrightarrow>
    rune_run plan s0 s' ps'"
| rune_advance: "rune_run plan s0 s ps \<Longrightarrow> rune_run plan s0 (fst (advance_runes s why now)) ps"

lemma record_runes_recorded:
  assumes "record_runes s plan why now (runes_carried persist) x = (s', x', r)"
  shows "rune_plan_already_recorded (rr_state s') plan \<and> snd x' = snd x"
  using assms by (cases x) (auto simp: record_runes_def rune_plan_already_recorded_def runes_carried_def Let_def split: prod.splits sum.splits)

lemma runes_recorded_eq:
  "runes_recorded pub plan x = (x', r) \<Longrightarrow> snd x' = (case r of Inr (True, err) \<Rightarrow> snd x @ [plan] | _ \<Rightarrow> snd x)"
  by (cases x) (auto simp: runes_recorded_def split: prod.splits sum.splits bool.splits)

lemma reconcile_runes_step:
  assumes "reconcile_runes s plan why slot_identity False now (runes_recorded pub) (runes_carried persist) x = (s', x', r)"
  shows "(s' = s \<and> snd x' = snd x) \<or>
    (\<not> rune_plan_already_recorded (rr_state s) plan \<and> rune_plan_already_recorded (rr_state s') plan \<and> length (snd x') \<le> length (snd x) + 1)"
  using assms unfolding reconcile_runes_def
  by (auto dest!: record_runes_recorded runes_recorded_eq split: if_splits sum.splits prod.splits bool.splits)

text \<open>A rune plan is published at most once: over any unforced reconciliations and clock advances,
  whatever the publisher and the disk answer, an identical plan is accepted once, never when the
  ledger already carries it, and once accepted the ledger carries it from then on.\<close>

theorem rune_plan_published_once:
  assumes "rune_run plan s0 s published"
  shows "length published \<le> 1 \<and>
    (rune_plan_already_recorded (rr_state s0) plan \<or> published \<noteq> [] \<longrightarrow> rune_plan_already_recorded (rr_state s) plan) \<and>
    (rune_plan_already_recorded (rr_state s0) plan \<longrightarrow> published = [])"
  using assms
proof (induction rule: rune_run.induct)
  case (rune_reconcile s ps why slot_identity now pub persist s' ps' r)
  from reconcile_runes_step [OF rune_reconcile.hyps(2)] show ?case using rune_reconcile.IH by auto
next
  case (rune_advance s ps why now)
  then show ?case by (simp add: advance_runes_def Let_def)
qed simp


section \<open>Witnesses\<close>

definition sample_native :: rune_native_state where
  "sample_native = \<lparr>rn_available = [''p''], rn_active = [], rn_registered = [''p''], rn_slots = [None, None, None], rn_page = None,
     rn_save_slot = ''s'', rn_epoch = PInt 1, rn_path = None, rn_mtime = None\<rparr>"

lemma sample_rune_plan:
  obtains plan where "compile_rune_reconciliation_plan [5, 4] sample_native [(4, ''p''), (5, ''q'')] None = Inr plan"
    "ru_entries plan = [rune_entry_for sample_native 4 ''p'', rune_entry_for sample_native 5 ''q'']" "ru_status plan = ''repair_needed''"
  by (simp add: compile_rune_reconciliation_plan_def sorted_set_def Let_def rune_entry_for_disposition sample_native_def)

theorem rune_plan_repairs_missing_witness:
  "\<exists>plan plan'. compile_rune_reconciliation_plan [5, 4] sample_native [(4, ''p''), (5, ''q'')] None = Inr plan \<and>
     with_rune_reconciliation_commands plan (PStr ''s'') (PInt 1) = Inr plan' \<and> map rc_item (ru_commands plan') = [5]"
proof -
  obtain plan where p: "compile_rune_reconciliation_plan [5, 4] sample_native [(4, ''p''), (5, ''q'')] None = Inr plan"
    "ru_entries plan = [rune_entry_for sample_native 4 ''p'', rune_entry_for sample_native 5 ''q'']" by (rule sample_rune_plan)
  obtain plan' where c: "with_rune_reconciliation_commands plan (PStr ''s'') (PInt 1) = Inr plan'"
    by (simp add: with_rune_reconciliation_commands_def compile_rune_reconciliation_commands_def)
  from rune_plan_repairs_missing [OF p(1) c] p c show ?thesis by (auto simp: sample_native_def)
qed

theorem rune_plan_published_once_witness:
  "\<exists>s plan plan'. rune_run plan new_rune_reconciliation s [plan'] \<and> rune_plan_already_recorded (rr_state s) plan"
proof -
  obtain plan where "compile_rune_reconciliation_plan [5, 4] sample_native [(4, ''p''), (5, ''q'')] None = Inr plan"
    and p: "ru_entries plan = [rune_entry_for sample_native 4 ''p'', rune_entry_for sample_native 5 ''q'']"
    "ru_status plan = ''repair_needed''" by (rule sample_rune_plan)
  have r: "rune_repairs plan \<noteq> []" by (simp add: rune_repairs_def p rune_entry_for_disposition sample_native_def)
  obtain plan' where c: "with_rune_reconciliation_commands plan (PStr ''s'') (PInt (rune_epoch new_rune_reconciliation)) = Inr plan'"
    by (simp add: with_rune_reconciliation_commands_def compile_rune_reconciliation_commands_def)
  have fresh: "\<not> rune_plan_already_recorded (rr_state new_rune_reconciliation) plan"
    by (simp add: rune_plan_already_recorded_def new_rune_reconciliation_def dget_def)
  have "\<exists>s. reconcile_runes new_rune_reconciliation plan (PStr ''t'') (PStr ''s'') False (PInt 0)
      (runes_recorded (\<lambda>p w. (w, Inr (True, None)))) (runes_carried (\<lambda>d w. (w, Inr ()))) ((), []) = (s, ((), [plan']), Inr (Some plan, None))"
    unfolding reconcile_runes_def by (simp add: fresh r c record_runes_def runes_recorded_def runes_carried_def Let_def)
  then obtain s where "reconcile_runes new_rune_reconciliation plan (PStr ''t'') (PStr ''s'') False (PInt 0)
      (runes_recorded (\<lambda>p w. (w, Inr (True, None)))) (runes_carried (\<lambda>d w. (w, Inr ()))) ((), []) = (s, ((), [plan']), Inr (Some plan, None))" ..
  from rune_reconcile [OF rune_start this] have run: "rune_run plan new_rune_reconciliation s [plan']" .
  from rune_plan_published_once [OF run] run show ?thesis by blast
qed

end
