(* ===== verification/Killsanity_Plan.thy ===== *)
theory Killsanity_Plan
  imports PyValue "HOL-Library.Product_Lexorder"
begin

text \<open>
  The kill rewards of a room, \<open>doom_eap/content/killsanity_plan.py\<close>: the finite sources of kills,
  the alternative branches that count as their minimum, the milestones with their stable
  location addresses and the validation of a plan against the room's settings.

  Options, sources and plans are JSON values. \<open>build_campaign_kill_budget\<close>, which walks the
  generated catalog of campaign maps, is left out.
\<close>

definition KILLSANITY_REVISION :: int where "KILLSANITY_REVISION = 4"
definition KILLSANITY_ADDRESS_BASE :: int where "KILLSANITY_ADDRESS_BASE = 7800000"
definition MAXIMUM_MILESTONES :: int where "MAXIMUM_MILESTONES = 65535"
definition MAXIMUM_THRESHOLD :: int where "MAXIMUM_THRESHOLD = 2147483647 - KILLSANITY_ADDRESS_BASE"
definition AUTO_MAXIMUM_MILESTONES :: int where "AUTO_MAXIMUM_MILESTONES = 50"

section \<open>Finite sources\<close>

definition nonempty_str :: "pyval \<Rightarrow> bool" where
  "nonempty_str v \<longleftrightarrow> is_str v \<and> truthy v"

fun text_of :: "pyval \<Rightarrow> string" where
  "text_of (PStr s) = s"
| "text_of v = []"

definition is_bool :: "pyval \<Rightarrow> bool" where
  "is_bool v = (case v of PBool b \<Rightarrow> True | _ \<Rightarrow> False)"

definition source_keys :: "string list" where
  "source_keys = [''source_id'', ''map_key'', ''count'', ''repeatable'']"

definition source_fields_ok :: "pydict \<Rightarrow> bool" where
  "source_fields_ok d \<longleftrightarrow> (\<forall>k \<in> set source_keys. has_key d k) \<and>
     (\<forall>k \<in> set (map fst d). k \<in> set (source_keys @ [''location'', ''region'', ''required_items'']))"

definition source_values_ok :: "bool \<Rightarrow> pydict \<Rightarrow> bool" where
  "source_values_ok allow_zero d \<longleftrightarrow>
     nonempty_str (dget d ''source_id'') \<and> nonempty_str (dget d ''map_key'') \<and> is_int (dget d ''count'') \<and>
     (if allow_zero then 0 else 1) \<le> the_int (dget d ''count'') \<and> is_bool (dget d ''repeatable'')"

definition access_point_ok :: "pydict \<Rightarrow> string \<Rightarrow> bool" where
  "access_point_ok d field \<longleftrightarrow> has_key d field \<longrightarrow> nonempty_str (dget d field)"

definition required_items_ok :: "pyval \<Rightarrow> bool" where
  "required_items_ok v = (case v of PList vs \<Rightarrow> list_all nonempty_str vs \<and> distinct vs | _ \<Rightarrow> False)"

definition sorted_items :: "pydict \<Rightarrow> pydict" where
  "sorted_items d = (if has_key d ''required_items''
     then dset ''required_items'' (case dget d ''required_items'' of
         PList vs \<Rightarrow> PList (map PStr (sort (map text_of vs))) | v \<Rightarrow> v) d
     else d)"

definition source_identity :: "pydict \<Rightarrow> string \<times> string" where
  "source_identity d = (text_of (dget d ''map_key''), text_of (dget d ''source_id''))"

definition checked_source :: "bool \<Rightarrow> pyval \<Rightarrow> pydict res" where
  "checked_source allow_zero v =
     (case v of
        PDict d \<Rightarrow>
         (if \<not> source_fields_ok d then Inl (ValueError ''Killsanity finite source fields are invalid'')
          else if \<not> source_values_ok allow_zero d then Inl (ValueError ''Killsanity finite source identity or count is invalid'')
          else if has_key d ''location'' \<and> has_key d ''region'' then Inl (ValueError ''Killsanity finite source needs one access point'')
          else if \<not> access_point_ok d ''location'' \<or> \<not> access_point_ok d ''region''
          then Inl (ValueError ''Killsanity finite source access point is invalid'')
          else if \<not> required_items_ok (dget_or d ''required_items'' (PList []))
          then Inl (ValueError ''Killsanity finite source required items are invalid'')
          else Inr (sorted_items d))
      | _ \<Rightarrow> Inl (ValueError ''Killsanity finite source fields are invalid''))"

fun checked_sources :: "bool \<Rightarrow> (string \<times> string) list \<Rightarrow> pyval list \<Rightarrow> pydict list res" where
  "checked_sources allow_zero seen [] = Inr []"
| "checked_sources allow_zero seen (v # vs) =
     bind_res (checked_source allow_zero v) (\<lambda>d.
       if source_identity d \<in> set seen then Inl (ValueError ''Killsanity finite sources count one source twice'')
       else bind_res (checked_sources allow_zero (source_identity d # seen) vs) (\<lambda>ds. Inr (d # ds)))"

definition finite_sources :: "pyval \<Rightarrow> bool \<Rightarrow> bool \<Rightarrow> pydict list res" where
  "finite_sources v allow_empty allow_zero =
     (case v of
        PList vs \<Rightarrow>
         (if vs = [] \<and> \<not> allow_empty then Inl (ValueError ''Killsanity requires the final finite campaign sources'')
          else bind_res (checked_sources allow_zero [] vs) (\<lambda>ds. Inr (sort_key source_identity ds)))
      | _ \<Rightarrow> Inl (ValueError ''Killsanity requires the final finite campaign sources''))"

section \<open>The plan\<close>

definition finite_kills_of :: "pydict list \<Rightarrow> int" where
  "finite_kills_of sources = sum_list (map (\<lambda>d. the_int (dget d ''count'')) sources)"

definition milestone_row :: "int \<Rightarrow> int \<Rightarrow> int \<Rightarrow> pyval" where
  "milestone_row interval kills number = PDict [(''threshold'', PInt (number * interval)),
     (''location_id'', PInt (KILLSANITY_ADDRESS_BASE + number * interval)),
     (''finite_supported'', PBool (number * interval \<le> kills))]"

definition milestone_count :: "bool \<Rightarrow> pyval \<Rightarrow> int \<Rightarrow> int \<Rightarrow> int" where
  "milestone_count enabled maximum interval estimate =
     (if \<not> enabled then 0
      else if maximum = PStr ''auto'' then min AUTO_MAXIMUM_MILESTONES (estimate * 110 div (interval * 100))
      else the_int maximum)"

definition killsanity_document :: "bool \<Rightarrow> int \<Rightarrow> int \<Rightarrow> int \<Rightarrow> int \<Rightarrow> pydict list \<Rightarrow> pydict" where
  "killsanity_document enabled interval number kills estimate sources =
     [(''revision'', PInt KILLSANITY_REVISION), (''enabled'', PBool enabled), (''interval'', PInt interval),
      (''maximum_milestones'', PInt number), (''finite_kills'', PInt kills), (''estimated_kills'', PInt estimate),
      (''finite_sources'', PList (map PDict sources)),
      (''milestones'', PList (map (milestone_row interval kills) [1..number]))]"

definition milestone_options_ok :: "pyval \<Rightarrow> pyval \<Rightarrow> pyval \<Rightarrow> unit res" where
  "milestone_options_ok enabled interval maximum =
     (if \<not> is_bool enabled then Inl (ValueError ''Killsanity enabled must be a boolean'')
      else if \<not> is_int interval \<or> \<not> (1 \<le> the_int interval \<and> the_int interval \<le> 2147483647)
      then Inl (ValueError ''Kills per Check must be an integer between 1 and 2147483647'')
      else if maximum \<noteq> PStr ''auto'' \<and> (\<not> is_int maximum \<or> \<not> (1 \<le> the_int maximum \<and> the_int maximum \<le> MAXIMUM_MILESTONES))
      then Inl (ValueError ''Kill Rewards must be Auto or 1..65535'')
      else Inr ())"

definition build_killsanity_plan :: "pydict \<Rightarrow> pyval \<Rightarrow> pyval \<Rightarrow> pydict res" where
  "build_killsanity_plan options sources_value estimated_kills =
     (let enabled_value = dget_or options ''enabled'' (PBool False);
          interval_value = dget_or options ''interval'' (PInt 100);
          maximum = dget_or options ''maximum_milestones'' (PStr ''auto'');
          enabled = truthy enabled_value; interval = the_int interval_value
      in bind_res (milestone_options_ok enabled_value interval_value maximum) (\<lambda>_.
         bind_res (if enabled then finite_sources sources_value (estimated_kills \<noteq> PNone) False else Inr []) (\<lambda>sources.
         let kills = finite_kills_of sources;
             estimate = (if \<not> enabled then PInt 0 else if estimated_kills = PNone then PInt kills else estimated_kills)
         in if \<not> is_int estimate \<or> \<not> (kills \<le> the_int estimate \<and> the_int estimate \<le> 18446744073709551615)
            then Inl (ValueError ''Campaign kill estimate must cover its guaranteed sources and fit the native counter'')
            else
             let number = milestone_count enabled maximum interval (the_int estimate)
             in if number * interval > MAXIMUM_THRESHOLD then Inl (ValueError ''Killsanity's final threshold exceeds the maximum'')
                else Inr (killsanity_document enabled interval number kills (the_int estimate) sources))))"

definition milestone_rows :: "pydict \<Rightarrow> (int \<times> int) list" where
  "milestone_rows plan = (case dget plan ''milestones'' of
     PList rows \<Rightarrow> map (\<lambda>row. case row of
         PDict d \<Rightarrow> (the_int (dget d ''threshold''), the_int (dget d ''location_id'')) | _ \<Rightarrow> (0, 0)) rows
   | _ \<Rightarrow> [])"

definition milestone_name :: "int \<Rightarrow> string" where
  "milestone_name threshold = ''Killed '' @ str_int threshold @ '' Enemies''"

definition milestone_names :: "pydict \<Rightarrow> (string \<times> int) list" where
  "milestone_names plan = map (\<lambda>(threshold, location). (milestone_name threshold, location)) (milestone_rows plan)"

definition milestone_ids :: "pydict \<Rightarrow> int list" where
  "milestone_ids plan = map snd (milestone_rows plan)"

definition validate_killsanity_plan :: "pyval \<Rightarrow> pyval \<Rightarrow> pydict res" where
  "validate_killsanity_plan options plan =
     (case (options, plan) of
        (PDict opts, PDict p) \<Rightarrow>
          bind_res (build_killsanity_plan opts (dget p ''finite_sources'') (dget p ''estimated_kills'')) (\<lambda>expected.
            if json_dumps (PDict p) \<noteq> json_dumps (PDict expected)
            then Inl (ValueError ''Killsanity rewards do not match the room's settings'') else Inr expected)
      | _ \<Rightarrow> Inl (ValueError ''killsanity options and plan must be objects''))"

section \<open>A source list is its own normal form\<close>

lemma required_items_strings:
  assumes "required_items_ok (PList vs)"
  shows "map PStr (map text_of vs) = vs" "distinct (map text_of vs)" "[] \<notin> set (map text_of vs)"
proof -
  have str: "\<forall>v \<in> set vs. \<exists>s. v = PStr s \<and> s \<noteq> []"
    using assms by (auto simp: required_items_ok_def nonempty_str_def is_str_iff list_all_iff)
  then show eq: "map PStr (map text_of vs) = vs" by (induction vs) auto
  have "distinct vs" using assms by (simp add: required_items_ok_def)
  then show "distinct (map text_of vs)" using eq by (metis distinct_map)
  show "[] \<notin> set (map text_of vs)" using str by auto
qed

lemma required_items_sorted:
  "distinct ss \<Longrightarrow> [] \<notin> set ss \<Longrightarrow> required_items_ok (PList (map PStr (sort ss)))"
  by (auto simp: required_items_ok_def nonempty_str_def list_all_iff distinct_map inj_on_def)

lemma dset_twice: "dset k v (dset k v d) = dset k v d"
  by (induction d) auto

lemma sort_texts [simp]: "map (text_of \<circ> PStr) ss = ss"
  by (induction ss) auto

lemma has_key_sorted_items [simp]: "has_key (sorted_items d) k \<longleftrightarrow> has_key d k"
  by (auto simp: sorted_items_def)

lemma keys_sorted_items [simp]: "map fst (sorted_items d) = map fst d"
  by (auto simp: sorted_items_def AList.update_keys has_key_def map_of_eq_None_iff split: option.splits)

lemma dget_sorted_items [simp]: "k \<noteq> ''required_items'' \<Longrightarrow> dget (sorted_items d) k = dget d k"
  by (simp add: sorted_items_def)

lemma checked_source_normal:
  assumes "checked_source z v = Inr d"
  shows "checked_source z (PDict d) = Inr d"
proof -
  obtain e where e: "v = PDict e" "source_fields_ok e" "source_values_ok z e" "\<not> (has_key e ''location'' \<and> has_key e ''region'')"
    "access_point_ok e ''location''" "access_point_ok e ''region''" "required_items_ok (dget_or e ''required_items'' (PList []))"
    and d: "d = sorted_items e"
    using assms by (cases v) (auto simp: checked_source_def split: if_splits)
  have items: "required_items_ok (dget_or d ''required_items'' (PList [])) \<and> sorted_items d = d"
  proof (cases "has_key e ''required_items''")
    case True
    obtain vs where vs: "dget e ''required_items'' = PList vs"
      using e(7) True by (auto simp: dget_or_def dget_def has_key_def required_items_ok_def split: pyval.splits)
    note strings = required_items_strings [of vs]
    have ok: "required_items_ok (PList vs)" using e(7) True vs by (auto simp: dget_or_def dget_def has_key_def)
    have d': "d = dset ''required_items'' (PList (map PStr (sort (map text_of vs)))) e" by (simp add: d sorted_items_def True vs)
    have "sorted_items d = d" by (simp add: d' sorted_items_def dset_twice sorted_sort_id)
    with required_items_sorted [OF strings(2) [OF ok] strings(3) [OF ok]] d' show ?thesis by simp
  next
    case False
    then show ?thesis using e(7) by (simp add: d sorted_items_def)
  qed
  have "source_fields_ok d" using e(2) by (simp add: d source_fields_ok_def)
  moreover have "source_values_ok z d" using e(3) by (simp add: d source_values_ok_def)
  moreover have "access_point_ok d f" if "access_point_ok e f" "f \<noteq> ''required_items''" for f
    using that by (simp add: d access_point_ok_def)
  ultimately show ?thesis using e items by (simp add: checked_source_def d)
qed


lemma source_identity_sorted [simp]: "source_identity (sorted_items d) = source_identity d"
  by (simp add: source_identity_def)

lemma checked_sources_normal:
  "checked_sources z seen vs = Inr ds \<Longrightarrow>
    list_all (\<lambda>d. checked_source z (PDict d) = Inr d) ds \<and> distinct (map source_identity ds) \<and>
    set (map source_identity ds) \<inter> set seen = {}"
proof (induction vs arbitrary: seen ds)
  case (Cons v vs)
  then obtain d ds' where d: "checked_source z v = Inr d" "source_identity d \<notin> set seen"
    and ds': "checked_sources z (source_identity d # seen) vs = Inr ds'" and ds: "ds = d # ds'"
    by (auto split: if_splits)
  from Cons.IH [OF ds'] checked_source_normal [OF d(1)] d(2) show ?case by (auto simp: ds)
qed simp

lemma checked_sources_fixed:
  "list_all (\<lambda>d. checked_source z (PDict d) = Inr d) ds \<Longrightarrow> distinct (map source_identity ds) \<Longrightarrow>
    set (map source_identity ds) \<inter> set seen = {} \<Longrightarrow> checked_sources z seen (map PDict ds) = Inr ds"
  by (induction ds arbitrary: seen) auto

lemma finite_sources_normal:
  assumes "finite_sources v e z = Inr ds"
  shows "finite_sources (PList (map PDict ds)) True z = Inr ds"
proof -
  obtain vs ds' where vs: "checked_sources z [] vs = Inr ds'" and ds: "ds = sort_key source_identity ds'"
    using assms by (auto simp: finite_sources_def split: pyval.splits if_splits)
  have "list_all (\<lambda>d. checked_source z (PDict d) = Inr d) ds" "distinct (map source_identity ds)"
    using checked_sources_normal [OF vs] by (auto simp: ds list_all_iff distinct_map)
  then have "checked_sources z [] (map PDict ds) = Inr ds" by (intro checked_sources_fixed) auto
  moreover have "sort_key source_identity ds = ds" by (simp add: ds sort_key_id_if_sorted)
  ultimately show ?thesis by (simp add: finite_sources_def)
qed

section \<open>Properties of a plan\<close>

lemma build_killsanity_parts:
  assumes "build_killsanity_plan options v est = Inr plan"
  obtains interval number kills estimate sources where
    "plan = killsanity_document (truthy (dget_or options ''enabled'' (PBool False))) interval number kills estimate sources"
    "milestone_options_ok (dget_or options ''enabled'' (PBool False)) (dget_or options ''interval'' (PInt 100))
       (dget_or options ''maximum_milestones'' (PStr ''auto'')) = Inr ()"
    "interval = the_int (dget_or options ''interval'' (PInt 100))" "kills = finite_kills_of sources"
    "number = milestone_count (truthy (dget_or options ''enabled'' (PBool False)))
       (dget_or options ''maximum_milestones'' (PStr ''auto'')) interval estimate"
    "number * interval \<le> MAXIMUM_THRESHOLD" "kills \<le> estimate" "estimate \<le> 18446744073709551615"
    "if truthy (dget_or options ''enabled'' (PBool False)) then finite_sources v (est \<noteq> PNone) False = Inr sources
     else sources = [] \<and> estimate = 0"
proof -
  let ?on = "truthy (dget_or options ''enabled'' (PBool False))"
  obtain sources where ok: "milestone_options_ok (dget_or options ''enabled'' (PBool False)) (dget_or options ''interval'' (PInt 100))
       (dget_or options ''maximum_milestones'' (PStr ''auto'')) = Inr ()"
    and sources: "(if ?on then finite_sources v (est \<noteq> PNone) False else Inr []) = Inr sources"
    using assms by (auto simp: build_killsanity_plan_def Let_def simp del: split_paired_Ex)
  have "\<exists>estimate. (if \<not> ?on then PInt 0 else if est = PNone then PInt (finite_kills_of sources) else est) = PInt estimate"
    using assms ok sources by (auto simp: build_killsanity_plan_def Let_def is_int_iff split: if_splits)
  then obtain estimate where est: "(if \<not> ?on then PInt 0 else if est = PNone then PInt (finite_kills_of sources) else est) = PInt estimate" ..
  show ?thesis
    by (rule that [of "the_int (dget_or options ''interval'' (PInt 100))"
          "milestone_count ?on (dget_or options ''maximum_milestones'' (PStr ''auto'')) (the_int (dget_or options ''interval'' (PInt 100))) estimate"
          "finite_kills_of sources" estimate sources])
      (use assms ok sources est in \<open>auto simp: build_killsanity_plan_def Let_def split: if_splits\<close>)
qed

lemma milestone_options_interval:
  "milestone_options_ok enabled interval maximum = Inr () \<Longrightarrow> 1 \<le> the_int interval \<and> is_bool enabled \<and> is_int interval"
  by (auto simp: milestone_options_ok_def split: if_splits)

lemma milestone_count_bound:
  "milestone_options_ok e interval maximum = Inr () \<Longrightarrow> milestone_count enabled maximum i estimate \<le> MAXIMUM_MILESTONES"
  by (auto simp: milestone_options_ok_def milestone_count_def MAXIMUM_MILESTONES_def AUTO_MAXIMUM_MILESTONES_def split: if_splits)

lemma milestone_rows_document:
  "milestone_rows (killsanity_document enabled interval number kills estimate sources) =
     map (\<lambda>n. (n * interval, KILLSANITY_ADDRESS_BASE + n * interval)) [1..number]"
  by (simp add: milestone_rows_def killsanity_document_def milestone_row_def dget_def)

lemma upto_strict: "sorted_wrt (<) [i..j :: int]"
  by (induction i j rule: upto.induct) (subst upto.simps, auto)

lemma milestones_of_plan:
  assumes "build_killsanity_plan options v est = Inr plan"
  shows "length (milestone_rows plan) \<le> 65535 \<and> sorted_wrt (<) (map fst (milestone_rows plan)) \<and>
    (\<forall>(threshold, location) \<in> set (milestone_rows plan). 0 < threshold \<and> location = 7800000 + threshold \<and> location \<le> 2147483647)"
proof (rule build_killsanity_parts [OF assms])
  fix interval number kills estimate sources
  assume plan: "plan = killsanity_document (truthy (dget_or options ''enabled'' (PBool False))) interval number kills estimate sources"
    and ok: "milestone_options_ok (dget_or options ''enabled'' (PBool False)) (dget_or options ''interval'' (PInt 100))
       (dget_or options ''maximum_milestones'' (PStr ''auto'')) = Inr ()"
    and interval: "interval = the_int (dget_or options ''interval'' (PInt 100))"
    and number: "number = milestone_count (truthy (dget_or options ''enabled'' (PBool False)))
       (dget_or options ''maximum_milestones'' (PStr ''auto'')) interval estimate"
    and bound: "number * interval \<le> MAXIMUM_THRESHOLD"
  let ?rows = "map (\<lambda>n. (n * interval, KILLSANITY_ADDRESS_BASE + n * interval)) [1..number]"
  have pos: "1 \<le> interval" using milestone_options_interval [OF ok] interval by simp
  have rows: "milestone_rows plan = ?rows" by (simp add: plan milestone_rows_document)
  have inc: "sorted_wrt (<) (map fst ?rows)"
    using pos by (auto simp: sorted_wrt_map comp_def intro: sorted_wrt_mono_rel [OF _ upto_strict])
  have "n * interval \<le> MAXIMUM_THRESHOLD" if "n \<le> number" for n
  proof -
    have "n * interval \<le> number * interval" using that pos by (intro mult_right_mono) auto
    then show ?thesis using bound by linarith
  qed
  moreover have "number \<le> 65535" using milestone_count_bound [OF ok] by (simp add: number MAXIMUM_MILESTONES_def)
  ultimately show ?thesis using pos inc
    by (fastforce simp: rows MAXIMUM_THRESHOLD_def KILLSANITY_ADDRESS_BASE_def)
qed

text \<open>The milestones of a room that was accepted are addressable: at most 65535 of them, with strictly
  increasing positive thresholds, distinct names and a location address above the base that fits
  32 bits and is the base plus the threshold, so a threshold keeps its address in every room.\<close>

theorem milestones_addressable:
  assumes "build_killsanity_plan options v est = Inr plan"
  shows "length (milestone_rows plan) \<le> 65535 \<and> sorted_wrt (<) (map fst (milestone_rows plan)) \<and>
    distinct (map fst (milestone_names plan)) \<and>
    (\<forall>(threshold, location) \<in> set (milestone_rows plan). 0 < threshold \<and> location = 7800000 + threshold \<and> location \<le> 2147483647)"
proof -
  have rows: "distinct (map fst (milestone_rows plan))" using milestones_of_plan [OF assms] by (simp add: strict_sorted_iff)
  have names: "map fst (milestone_names plan) = map milestone_name (map fst (milestone_rows plan))"
    by (simp add: milestone_names_def case_prod_beta)
  have "distinct (map fst (milestone_names plan))"
    unfolding names distinct_map [of milestone_name] using rows by (simp add: inj_on_def milestone_name_def)
  with milestones_of_plan [OF assms] show ?thesis by simp
qed

text \<open>A plan validates against the settings it was built from: generation and the client agree, whatever
  estimate or source order was given.\<close>

theorem built_plan_validates:
  assumes "build_killsanity_plan options v est = Inr plan"
  shows "validate_killsanity_plan (PDict options) (PDict plan) = Inr plan"
proof (rule build_killsanity_parts [OF assms])
  fix interval number kills estimate sources
  assume *: "plan = killsanity_document (truthy (dget_or options ''enabled'' (PBool False))) interval number kills estimate sources"
     "milestone_options_ok (dget_or options ''enabled'' (PBool False)) (dget_or options ''interval'' (PInt 100))
       (dget_or options ''maximum_milestones'' (PStr ''auto'')) = Inr ()"
    "interval = the_int (dget_or options ''interval'' (PInt 100))" "kills = finite_kills_of sources"
    "number = milestone_count (truthy (dget_or options ''enabled'' (PBool False)))
       (dget_or options ''maximum_milestones'' (PStr ''auto'')) interval estimate"
    "number * interval \<le> MAXIMUM_THRESHOLD" "kills \<le> estimate" "estimate \<le> 18446744073709551615"
    and sources: "if truthy (dget_or options ''enabled'' (PBool False)) then finite_sources v (est \<noteq> PNone) False = Inr sources
       else sources = [] \<and> estimate = 0"
  have plan: "dget plan ''finite_sources'' = PList (map PDict sources)" "dget plan ''estimated_kills'' = PInt estimate"
    by (simp_all add: *(1) killsanity_document_def dget_def)
  have "build_killsanity_plan options (PList (map PDict sources)) (PInt estimate) = Inr plan"
    unfolding build_killsanity_plan_def Let_def using sources finite_sources_normal [of v "est \<noteq> PNone" False sources] *
    by (auto simp: bind_res_def split: if_splits)
  then show ?thesis by (simp add: validate_killsanity_plan_def plan)
qed

section \<open>Witnesses\<close>

definition sample_kill_options :: pydict where
  "sample_kill_options = [(''enabled'', PBool True), (''interval'', PInt 10)]"

definition sample_kill_sources :: "pydict list" where
  "sample_kill_sources = [[(''source_id'', PStr ''a''), (''map_key'', PStr ''m''), (''count'', PInt 30), (''repeatable'', PBool False)]]"

lemma sample_kill_plan:
  "build_killsanity_plan sample_kill_options (PList (map PDict sample_kill_sources)) PNone =
     Inr (killsanity_document True 10 3 30 30 sample_kill_sources)"
proof -
  have checks: "checked_source False (PDict d) = Inr d" if "d \<in> set sample_kill_sources" for d
    using that by (auto simp: sample_kill_sources_def checked_source_def source_fields_ok_def source_keys_def has_key_def
        source_values_ok_def nonempty_str_def is_bool_def dget_def access_point_ok_def dget_or_def required_items_ok_def sorted_items_def)
  have "checked_sources False [] (map PDict sample_kill_sources) = Inr sample_kill_sources"
    by (rule checked_sources_fixed) (auto simp: list_all_iff checks sample_kill_sources_def)
  then have "finite_sources (PList (map PDict sample_kill_sources)) False False = Inr sample_kill_sources"
    by (simp add: finite_sources_def) (simp add: sample_kill_sources_def)
  then show ?thesis
    by (simp add: build_killsanity_plan_def sample_kill_options_def dget_or_def Let_def milestone_options_ok_def is_bool_def milestone_count_def
        AUTO_MAXIMUM_MILESTONES_def MAXIMUM_THRESHOLD_def KILLSANITY_ADDRESS_BASE_def)
      (simp add: sample_kill_sources_def finite_kills_of_def dget_def)
qed

theorem milestones_addressable_witness:
  "\<exists>plan. build_killsanity_plan sample_kill_options (PList (map PDict sample_kill_sources)) PNone = Inr plan \<and>
     map fst (milestone_rows plan) = [10, 20, 30] \<and> length (milestone_rows plan) \<le> 65535"
  using sample_kill_plan milestones_addressable [OF sample_kill_plan] by (simp add: milestone_rows_document upto.simps)

theorem built_plan_validates_witness:
  "\<exists>plan. build_killsanity_plan sample_kill_options (PList (map PDict sample_kill_sources)) PNone = Inr plan \<and>
     validate_killsanity_plan (PDict sample_kill_options) (PDict plan) = Inr plan"
  using sample_kill_plan built_plan_validates [OF sample_kill_plan] by blast

end
