(* ===== verification/Killsanity.thy ===== *)
theory Killsanity
  imports Killsanity_Plan Goals
begin

text \<open>
  Kill progress of a room, \<open>doom_eap/runtime/killsanity.py\<close>: the counter bound to the session,
  the combat observations it consumes and the milestones it publishes, with the admission of a
  presentation by the native side, \<open>publish_combat_progress\<close> of \<open>runtime/weapon_points.py\<close>.

  The milestones are the rows of a plan. \<open>persist\<close> is a function of the session on a world that
  may raise; \<open>present\<close> and \<open>publish\<close> are split at their awaits.
\<close>

section \<open>State\<close>

record combat_snapshot =
  co_namespace :: string
  co_producer :: "string list"
  co_kills :: int
  co_gaps :: int

record killsanity =
  ks_epoch :: nat
  ks_session :: "pydict option"
  ks_namespace :: "string option"
  ks_milestones :: "(int \<times> int) list"
  ks_toast :: "int \<times> int \<times> int"

definition new_killsanity :: killsanity where
  "new_killsanity = \<lparr>ks_epoch = 0, ks_session = None, ks_namespace = None, ks_milestones = [], ks_toast = (0, 0, 0)\<rparr>"

definition counter_limit :: int where "counter_limit = 18446744073709551616"

definition ks_progress :: "killsanity \<Rightarrow> pyval" where
  "ks_progress s = (case ks_session s of None \<Rightarrow> PDict [] | Some d \<Rightarrow> dget_or d ''killsanity'' (PDict []))"

definition int_field :: "pydict \<Rightarrow> string \<Rightarrow> int" where
  "int_field d k = the_int (dget_or d k (PInt 0))"

definition ks_total :: "killsanity \<Rightarrow> int" where
  "ks_total s = (case ks_progress s of PDict d \<Rightarrow> int_field d ''total'' | _ \<Rightarrow> 0)"

definition ks_enabled :: "killsanity \<Rightarrow> bool" where
  "ks_enabled s \<longleftrightarrow> ks_milestones s \<noteq> []"

definition counter_ok :: "pydict \<Rightarrow> string \<Rightarrow> bool" where
  "counter_ok d k \<longleftrightarrow> is_int (dget_or d k (PInt 0)) \<and> 0 \<le> int_field d k \<and> int_field d k < counter_limit"

definition producer_ok :: "pyval \<Rightarrow> bool" where
  "producer_ok v = (case v of PNone \<Rightarrow> True
     | PList vs \<Rightarrow> length vs = 4 \<and> list_all (\<lambda>v. is_str v \<and> truthy v) vs | _ \<Rightarrow> False)"

definition progress_admitted :: "pydict \<Rightarrow> string option" where
  "progress_admitted d =
     (if \<not> list_all (counter_ok d) [''total'', ''cursor'', ''source_gaps''] then Some ''Killsanity progress has an invalid counter''
      else if dget_or d ''counter_abi'' (PInt 2) \<noteq> PInt 2 \<or> has_key d ''history_lost''
        \<or> (dget d ''producer'' \<noteq> PNone \<and> dget d ''counter_abi'' \<noteq> PInt 2)
      then Some ''Killsanity progress requires a new room with cumulative combat counters''
      else if \<not> producer_ok (dget d ''producer'') then Some ''Killsanity progress has invalid producer identity''
      else if int_field d ''cursor'' \<noteq> 0 \<and> dget d ''producer'' = PNone then Some ''Killsanity cursor has no producer identity''
      else None)"

definition bind_killsanity :: "killsanity \<Rightarrow> pydict \<Rightarrow> string \<Rightarrow> (int \<times> int) list \<Rightarrow> killsanity \<times> unit res" where
  "bind_killsanity s session namespace rows =
     (let s1 = \<lparr>ks_epoch = ks_epoch s + 1, ks_session = Some session, ks_namespace = Some namespace, ks_milestones = rows, ks_toast = (0, 0, 0)\<rparr>
      in (s1, case ks_progress s1 of
          PDict d \<Rightarrow> (case progress_admitted d of Some m \<Rightarrow> Inl (ValueError m) | None \<Rightarrow> Inr ())
        | _ \<Rightarrow> Inl (ValueError ''Killsanity progress must be an object'')))"

section \<open>Consuming an observation\<close>

type_synonym 'w kill_persister = "pydict \<Rightarrow> 'w \<Rightarrow> 'w \<times> unit res"

definition same_dict :: "pydict \<Rightarrow> pydict \<Rightarrow> bool" where
  "same_dict d e \<longleftrightarrow> (\<forall>k \<in> set (map fst d @ map fst e). map_of d k = map_of e k)"

definition rebased :: "pydict \<Rightarrow> combat_snapshot \<Rightarrow> pydict" where
  "rebased d snap =
     (let producer = PList (map PStr (co_producer snap)) in
      if dget d ''producer'' = producer then d
      else dset ''source_gaps'' (PInt 0) (dset ''cursor'' (PInt 0) (dset ''producer'' producer d)))"

definition counted :: "pydict \<Rightarrow> combat_snapshot \<Rightarrow> int \<Rightarrow> pydict" where
  "counted d snap n = dset ''source_gaps'' (PInt (co_gaps snap)) (dset ''cursor'' (PInt (co_kills snap))
     (dset ''total'' (PInt n) (dset ''counter_abi'' (PInt 2) d)))"

definition crossed :: "(int \<times> int) list \<Rightarrow> int \<Rightarrow> int \<Rightarrow> (int \<times> int) list" where
  "crossed milestones before after = filter (\<lambda>(threshold, location). before < threshold \<and> threshold \<le> after) milestones"

definition extend_toast :: "(int \<times> int) list \<Rightarrow> (int \<times> int) list \<Rightarrow> int \<times> int \<times> int \<Rightarrow> int \<times> int \<times> int" where
  "extend_toast milestones reached toast =
     (if reached = [] then toast
      else ((if fst toast \<noteq> 0 then fst toast else fst (hd reached)), fst (last reached), fst (hd milestones)))"

definition with_progress :: "killsanity \<Rightarrow> pydict \<Rightarrow> killsanity" where
  "with_progress s d = s\<lparr>ks_session := map_option (dset ''killsanity'' (PDict d)) (ks_session s)\<rparr>"

definition restored :: "killsanity \<Rightarrow> pydict \<Rightarrow> killsanity" where
  "restored s previous = (if previous \<noteq> [] then with_progress s previous
     else s\<lparr>ks_session := map_option (dpop ''killsanity'') (ks_session s)\<rparr>)"

definition store_progress :: "killsanity \<Rightarrow> pydict \<Rightarrow> pydict \<Rightarrow> 'w kill_persister \<Rightarrow> 'w \<Rightarrow> killsanity \<times> 'w \<times> int list res" where
  "store_progress s previous candidate persist w =
     (let s1 = with_progress s candidate in
      case persist (case ks_session s1 of Some d \<Rightarrow> d | None \<Rightarrow> []) w of
        (w1, Inl e) \<Rightarrow> (restored s1 previous, w1, Inl e)
      | (w1, Inr _) \<Rightarrow>
         (let reached = crossed (ks_milestones s1) (int_field previous ''total'') (ks_total s1)
          in (s1\<lparr>ks_toast := extend_toast (ks_milestones s1) reached (ks_toast s1)\<rparr>, w1, Inr (map snd reached))))"

definition consume_combat :: "killsanity \<Rightarrow> combat_snapshot \<Rightarrow> 'w kill_persister \<Rightarrow> 'w \<Rightarrow> killsanity \<times> 'w \<times> int list res" where
  "consume_combat s snap persist w =
     (case ks_progress s of
        PDict previous \<Rightarrow>
         (if Some (co_namespace snap) \<noteq> ks_namespace s then (s, w, Inl (ValueError ''Combat observation belongs to another room''))
          else
           let d = rebased previous snap in
           if co_kills snap < int_field d ''cursor'' \<or> co_gaps snap < int_field d ''source_gaps''
           then (s, w, Inl (ValueError ''Combat producer counters moved backwards''))
           else
            let n = int_field d ''total'' + co_kills snap - int_field d ''cursor'' in
            if n \<ge> counter_limit then (s, w, Inl (ValueError ''Killsanity total exceeds the native counter range''))
            else if same_dict (counted d snap n) previous then (s, w, Inr [])
            else store_progress s previous (counted d snap n) persist w)
      | _ \<Rightarrow> (s, w, Inl (Exn ''AttributeError'' ''get'')))"

section \<open>Publication and presentation\<close>

text \<open>\<open>publish\<close> sends the due locations and, in the same epoch, marks them submitted.\<close>

definition due_locations :: "killsanity \<Rightarrow> check_facts \<Rightarrow> int list" where
  "due_locations s facts =
     (if \<not> cf_connected facts \<or> \<not> cf_ready facts then []
      else map snd (filter (\<lambda>(threshold, location). threshold \<le> ks_total s \<and> location \<in> cf_server facts
             \<and> location \<notin> cf_checked facts \<and> location \<notin> cf_submitted facts) (ks_milestones s)))"

definition published_locations :: "killsanity \<Rightarrow> nat \<Rightarrow> int list \<Rightarrow> int set \<Rightarrow> int set" where
  "published_locations s epoch due submitted = (if epoch = ks_epoch s then submitted \<union> set due else submitted)"

definition kill_target :: "killsanity \<Rightarrow> int option" where
  "kill_target s = (case filter (\<lambda>(threshold, location). threshold > ks_total s) (ks_milestones s) of
     [] \<Rightarrow> None | row # rows \<Rightarrow> Some (fst row))"

text \<open>The arguments of \<open>publish_combat_progress\<close>: total, target, notices and visibility.\<close>

definition presentation :: "killsanity \<Rightarrow> bool \<Rightarrow> int \<times> int \<times> (int \<times> int \<times> int) \<times> bool" where
  "presentation s visible = (ks_total s, (case kill_target s of None \<Rightarrow> 0 | Some t \<Rightarrow> t), ks_toast s, visible \<and> kill_target s \<noteq> None)"

definition presented :: "killsanity \<Rightarrow> nat \<Rightarrow> int \<times> int \<times> int \<Rightarrow> killsanity" where
  "presented s epoch notices = (if epoch = ks_epoch s \<and> notices = ks_toast s then s\<lparr>ks_toast := (0, 0, 0)\<rparr> else s)"

text \<open>The checks of \<open>publish_combat_progress\<close> before it sends anything.\<close>

definition presentation_admitted :: "int \<times> int \<times> (int \<times> int \<times> int) \<times> bool \<Rightarrow> bool" where
  "presentation_admitted = (\<lambda>(n, target, (first, reached, step), visible).
     list_all (\<lambda>v. 0 \<le> v \<and> v < counter_limit) [n, target, first, reached, step] \<and>
     \<not> (target \<noteq> 0 \<and> target \<le> n) \<and>
     ((first, reached, step) = (0, 0, 0) \<or>
       (0 < first \<and> first \<le> reached \<and> reached \<le> n \<and> step > 0 \<and> (reached - first) mod step = 0)))"

section \<open>The progress of a run\<close>

definition snapshot_ok :: "combat_snapshot \<Rightarrow> bool" where
  "snapshot_ok snap \<longleftrightarrow> length (co_producer snap) = 4 \<and> [] \<notin> set (co_producer snap) \<and>
     0 \<le> co_kills snap \<and> co_kills snap < counter_limit \<and> 0 \<le> co_gaps snap \<and> co_gaps snap < counter_limit"

inductive kill_run :: "killsanity \<Rightarrow> int list \<Rightarrow> killsanity \<Rightarrow> bool" for s0 where
  kill_start: "kill_run s0 [] s0"
| kill_consume: "kill_run s0 out s \<Longrightarrow> snapshot_ok snap \<Longrightarrow>
    consume_combat s snap (persist :: unit kill_persister) () = (s', w, r) \<Longrightarrow>
    kill_run s0 (out @ (case r of Inr locations \<Rightarrow> locations | Inl e \<Rightarrow> [])) s'"
| kill_presented: "kill_run s0 out s \<Longrightarrow> kill_run s0 out (presented s epoch notices)"
| kill_rebind: "kill_run s0 out s \<Longrightarrow> ks_session s = Some d \<Longrightarrow>
    kill_run s0 out (fst (bind_killsanity s d namespace (ks_milestones s)))"

text \<open>What every step keeps: admitted progress, and a toast range that reached milestones span.\<close>

definition toast_ok :: "(int \<times> int) list \<Rightarrow> int \<Rightarrow> int \<times> int \<times> int \<Rightarrow> bool" where
  "toast_ok ms n = (\<lambda>(first, reached, step). (first, reached, step) = (0, 0, 0) \<or>
     (first \<in> set (map fst ms) \<and> reached \<in> set (map fst ms) \<and> first \<le> reached \<and> reached \<le> n \<and> step = fst (hd ms)))"

definition kill_inv :: "(int \<times> int) list \<Rightarrow> killsanity \<Rightarrow> bool" where
  "kill_inv ms s \<longleftrightarrow> ks_milestones s = ms \<and> ks_session s \<noteq> None \<and>
     (\<exists>d. ks_progress s = PDict d \<and> progress_admitted d = None) \<and> toast_ok ms (ks_total s) (ks_toast s)"

lemma progress_with [simp]: "ks_session s \<noteq> None \<Longrightarrow> ks_progress (with_progress s d) = PDict d"
  by (auto simp: ks_progress_def with_progress_def)

lemma progress_restored: "ks_session s \<noteq> None \<Longrightarrow> ks_progress (restored (with_progress s d) previous) = PDict previous"
  by (auto simp: restored_def ks_progress_def with_progress_def dget_or_def has_key_def map_of_delete map_of_update split: option.splits)

lemma with_progress_frame [simp]:
  "ks_milestones (with_progress s d) = ks_milestones s" "ks_toast (with_progress s d) = ks_toast s"
  "ks_session (with_progress s d) = None \<longleftrightarrow> ks_session s = None"
  "ks_milestones (restored s d) = ks_milestones s" "ks_toast (restored s d) = ks_toast s"
  "ks_session (restored s d) = None \<longleftrightarrow> ks_session s = None"
  "(\<exists>y. ks_session (with_progress s d) = Some y) \<longleftrightarrow> (\<exists>y. ks_session s = Some y)"
  "(\<exists>y. ks_session (restored s d) = Some y) \<longleftrightarrow> (\<exists>y. ks_session s = Some y)"
  by (auto simp: with_progress_def restored_def)

lemma progress_updates [simp]:
  "ks_progress (s\<lparr>ks_toast := t\<rparr>) = ks_progress s" "ks_total (s\<lparr>ks_toast := t\<rparr>) = ks_total s"
  by (simp_all add: ks_progress_def ks_total_def)

lemma int_field_dset [simp]: "int_field (dset k (PInt i) d) k' = (if k' = k then i else int_field d k')"
  by (simp add: int_field_def)

lemma int_field_dset_other [simp]: "k' \<noteq> k \<Longrightarrow> int_field (dset k v d) k' = int_field d k'"
  by (simp add: int_field_def)

lemma counter_ok_dset [simp]:
  "counter_ok (dset k v d) k' = (if k' = k then is_int v \<and> 0 \<le> the_int v \<and> the_int v < counter_limit else counter_ok d k')"
  by (simp add: counter_ok_def int_field_def)

lemma rebased_int_field [simp]: "int_field (rebased d snap) ''total'' = int_field d ''total''"
  by (simp add: rebased_def Let_def)

lemma producer_rebased: "dget (rebased d snap) ''producer'' = PList (map PStr (co_producer snap))"
  by (simp add: rebased_def Let_def)

lemma admitted_counted:
  assumes "progress_admitted d = None" "snapshot_ok snap" "int_field d ''total'' \<le> n" "n < counter_limit"
  shows "progress_admitted (counted (rebased d snap) snap n) = None"
proof -
  have "list_all (counter_ok d) [''total'', ''cursor'', ''source_gaps'']" and lost: "\<not> has_key d ''history_lost''"
    using assms(1) by (auto simp: progress_admitted_def split: if_splits)
  then have "0 \<le> n" using assms(3) by (simp add: counter_ok_def)
  moreover have "\<not> has_key (counted (rebased d snap) snap n) ''history_lost''"
    using lost by (simp add: counted_def rebased_def Let_def)
  moreover have "dget (counted (rebased d snap) snap n) ''producer'' = PList (map PStr (co_producer snap))"
    by (simp add: counted_def producer_rebased)
  moreover have "producer_ok (PList (map PStr (co_producer snap)))"
    using assms(2) by (auto simp: producer_ok_def snapshot_ok_def list_all_iff)
  ultimately show ?thesis using assms by (simp add: progress_admitted_def counted_def snapshot_ok_def)
qed

lemma counted_total: "int_field (counted d snap n) ''total'' = n"
  by (simp add: counted_def)

lemma ks_total_progress: "ks_progress s = PDict d \<Longrightarrow> ks_total s = int_field d ''total''"
  by (simp add: ks_total_def)

lemma store_progress_cases:
  assumes "store_progress s d candidate persist w = (s', w', r)" "ks_progress s = PDict d" "ks_session s \<noteq> None"
  shows "(ks_progress s' = ks_progress s \<and> ks_milestones s' = ks_milestones s \<and> ks_toast s' = ks_toast s \<and> ks_session s' \<noteq> None \<and>
      r \<in> range Inl \<union> {Inr []}) \<or>
    (ks_progress s' = PDict candidate \<and> ks_milestones s' = ks_milestones s \<and> ks_session s' \<noteq> None \<and>
      ks_toast s' = extend_toast (ks_milestones s) (crossed (ks_milestones s) (int_field d ''total'') (int_field candidate ''total'')) (ks_toast s) \<and>
      r = Inr (map snd (crossed (ks_milestones s) (int_field d ''total'') (int_field candidate ''total''))))"
  using assms
  by (auto simp: store_progress_def Let_def progress_restored ks_total_progress split: prod.splits sum.splits)

lemma consume_cases:
  assumes "consume_combat s snap persist w = (s', w', r)" "ks_progress s = PDict d" "ks_session s \<noteq> None"
  shows "(ks_progress s' = ks_progress s \<and> ks_milestones s' = ks_milestones s \<and> ks_toast s' = ks_toast s \<and> ks_session s' \<noteq> None \<and>
      r \<in> range Inl \<union> {Inr []}) \<or>
    (\<exists>n. ks_progress s' = PDict (counted (rebased d snap) snap n) \<and> int_field d ''total'' \<le> n \<and> n < counter_limit \<and>
      ks_milestones s' = ks_milestones s \<and> ks_session s' \<noteq> None \<and>
      ks_toast s' = extend_toast (ks_milestones s) (crossed (ks_milestones s) (int_field d ''total'') n) (ks_toast s) \<and>
      r = Inr (map snd (crossed (ks_milestones s) (int_field d ''total'') n)))"
proof -
  let ?e = "rebased d snap"
  let ?n = "int_field ?e ''total'' + co_kills snap - int_field ?e ''cursor''"
  consider (kept) "s' = s" "r \<in> range Inl \<union> {Inr []}"
    | (stored) "store_progress s d (counted ?e snap ?n) persist w = (s', w', r)" "int_field ?e ''cursor'' \<le> co_kills snap" "?n < counter_limit"
    using assms(1,2) unfolding consume_combat_def Let_def by (auto split: if_splits)
  then show ?thesis
  proof cases
    case kept
    then show ?thesis using assms(3) by simp
  next
    case stored
    from store_progress_cases [OF stored(1) assms(2,3)] stored(2,3) show ?thesis
      by (auto simp: counted_total)
  qed
qed

lemma crossed_split:
  assumes "sorted_wrt (<) (map fst ms)" "a \<le> b" "b \<le> c"
  shows "crossed ms a c = crossed ms a b @ crossed ms b c"
  using assms(1)
proof (induction ms)
  case (Cons row ms)
  have "crossed ms a b = []" if "b < fst row"
    using Cons.prems that by (force simp: crossed_def filter_empty_conv)
  with Cons assms(2,3) show ?case by (cases row) (auto simp: crossed_def)
qed (simp add: crossed_def)

lemma crossed_sorted: "sorted_wrt (<) (map fst ms) \<Longrightarrow> sorted_wrt (<) (map fst (crossed ms a b))"
  by (induction ms) (auto simp: crossed_def)

lemma toast_ok_extend:
  assumes "toast_ok ms a toast" "a \<le> b" "sorted_wrt (<) (map fst ms)" "\<forall>t \<in> set (map fst ms). 0 < t"
  shows "toast_ok ms b (extend_toast ms (crossed ms a b) toast)"
proof (cases "crossed ms a b")
  case Nil
  then show ?thesis using assms(1,2) by (auto simp: extend_toast_def toast_ok_def)
next
  case (Cons row rows)
  have sub: "set (crossed ms a b) \<subseteq> set ms" and range: "\<forall>(t, l) \<in> set (crossed ms a b). a < t \<and> t \<le> b" by (auto simp: crossed_def)
  let ?hd = "fst (hd (crossed ms a b))" and ?last = "fst (last (crossed ms a b))"
  have mem: "hd (crossed ms a b) \<in> set (crossed ms a b)" "last (crossed ms a b) \<in> set (crossed ms a b)" using Cons by auto
  have bounds: "a < ?hd" "a < ?last" "?last \<le> b" "?hd \<in> set (map fst ms)" "?last \<in> set (map fst ms)"
    using mem sub range by fastforce+
  have order: "?hd \<le> ?last"
    using crossed_sorted [OF assms(3), of a b] by (auto simp: Cons intro: less_imp_le)
  obtain first reached step where toast: "toast = (first, reached, step)" by (cases toast)
  have ext: "extend_toast ms (crossed ms a b) toast = (if first \<noteq> 0 then first else ?hd, ?last, fst (hd ms))"
    by (simp add: extend_toast_def toast Cons)
  show ?thesis
  proof (cases "first = 0")
    case True
    then show ?thesis unfolding ext using bounds order by (simp add: toast_ok_def)
  next
    case False
    then have "first \<in> set (map fst ms)" "first \<le> a" using assms(1) by (auto simp: toast_ok_def toast)
    then show ?thesis unfolding ext using False bounds by (simp add: toast_ok_def)
  qed
qed

lemma toast_ok_mono: "toast_ok ms a toast \<Longrightarrow> a \<le> b \<Longrightarrow> toast_ok ms b toast"
  by (auto simp: toast_ok_def)

lemma kill_inv_bind:
  "bind_killsanity s session namespace rows = (s', Inr ()) \<Longrightarrow> kill_inv rows s'"
  by (auto simp: bind_killsanity_def Let_def kill_inv_def toast_ok_def split: pyval.splits option.splits)

lemma rebind_frame:
  assumes "kill_inv ms s" "ks_session s = Some d"
  shows "bind_killsanity s d namespace ms = (fst (bind_killsanity s d namespace ms), Inr ())"
    "ks_total (fst (bind_killsanity s d namespace ms)) = ks_total s"
  using assms by (auto simp: kill_inv_def bind_killsanity_def Let_def ks_progress_def ks_total_def split: pyval.splits)

lemma presented_frame [simp]:
  "ks_milestones (presented s e n) = ks_milestones s" "ks_session (presented s e n) = ks_session s"
  "ks_progress (presented s e n) = ks_progress s" "ks_total (presented s e n) = ks_total s"
  by (simp_all add: presented_def)

lemma kill_inv_presented: "kill_inv ms s \<Longrightarrow> kill_inv ms (presented s e n)"
  by (auto simp: kill_inv_def) (auto simp: presented_def toast_ok_def)

lemma crossed_same [simp]: "crossed ms a a = []"
  by (auto simp: crossed_def filter_empty_conv)

lemma kill_inv_consume:
  assumes inv: "kill_inv ms s" and ms: "sorted_wrt (<) (map fst ms)" "\<forall>t \<in> set (map fst ms). 0 < t"
    and snap: "snapshot_ok snap" and step: "consume_combat s snap persist w = (s', w', r)"
  shows "kill_inv ms s' \<and> ks_total s \<le> ks_total s' \<and>
    (case r of Inr locations \<Rightarrow> locations | Inl e \<Rightarrow> []) = map snd (crossed ms (ks_total s) (ks_total s'))"
proof -
  obtain d where d: "ks_progress s = PDict d" "progress_admitted d = None" and m: "ks_milestones s = ms" "ks_session s \<noteq> None"
    and toast: "toast_ok ms (ks_total s) (ks_toast s)"
    using inv by (auto simp: kill_inv_def)
  note total = ks_total_progress [OF d(1)]
  from consume_cases [OF step d(1) m(2)] show ?thesis
  proof
    assume same: "ks_progress s' = ks_progress s \<and> ks_milestones s' = ks_milestones s \<and> ks_toast s' = ks_toast s \<and> ks_session s' \<noteq> None \<and>
      r \<in> range Inl \<union> {Inr []}"
    then have "ks_total s' = ks_total s" by (simp add: ks_total_def)
    with same d m toast show ?thesis by (auto simp: kill_inv_def)
  next
    assume "\<exists>n. ks_progress s' = PDict (counted (rebased d snap) snap n) \<and> int_field d ''total'' \<le> n \<and> n < counter_limit \<and>
      ks_milestones s' = ks_milestones s \<and> ks_session s' \<noteq> None \<and>
      ks_toast s' = extend_toast (ks_milestones s) (crossed (ks_milestones s) (int_field d ''total'') n) (ks_toast s) \<and>
      r = Inr (map snd (crossed (ks_milestones s) (int_field d ''total'') n))"
    then obtain n where n: "ks_progress s' = PDict (counted (rebased d snap) snap n)" "ks_total s \<le> n" "n < counter_limit"
      "ks_milestones s' = ms" "ks_session s' \<noteq> None" "ks_toast s' = extend_toast ms (crossed ms (ks_total s) n) (ks_toast s)"
      "r = Inr (map snd (crossed ms (ks_total s) n))"
      by (auto simp: total m)
    have "ks_total s' = n" using ks_total_progress [OF n(1)] by (simp add: counted_total)
    moreover have "progress_admitted (counted (rebased d snap) snap n) = None"
      using admitted_counted [OF d(2) snap] n(2,3) total by simp
    moreover have "toast_ok ms n (ks_toast s')" using toast_ok_extend [OF toast n(2) ms] n(6) by simp
    ultimately show ?thesis using n by (auto simp: kill_inv_def)
  qed
qed

lemma kill_run_inv:
  assumes "kill_run s0 out s" "kill_inv ms s0" "sorted_wrt (<) (map fst ms)" "\<forall>t \<in> set (map fst ms). 0 < t"
  shows "kill_inv ms s \<and> ks_total s0 \<le> ks_total s \<and> out = map snd (crossed ms (ks_total s0) (ks_total s))"
  using assms(1)
proof induction
  case kill_start
  then show ?case using assms(2) by simp
next
  case (kill_consume out s snap persist s' w r)
  then have "kill_inv ms s" "ks_total s0 \<le> ks_total s" "out = map snd (crossed ms (ks_total s0) (ks_total s))" by simp_all
  with kill_inv_consume [OF this(1) assms(3,4) kill_consume.hyps(2,3)]
    crossed_split [OF assms(3), of "ks_total s0" "ks_total s" "ks_total s'"] show ?case by auto
next
  case (kill_presented out s epoch notices)
  then show ?case by (simp add: kill_inv_presented)
next
  case (kill_rebind out s d namespace)
  then have inv: "kill_inv ms s" "ks_milestones s = ms" by (simp_all add: kill_inv_def)
  from kill_rebind rebind_frame [OF inv(1) kill_rebind.hyps(2), of namespace] kill_inv_bind [OF rebind_frame(1) [OF inv(1) kill_rebind.hyps(2), of namespace]]
  show ?case by (simp add: inv(2))
qed

section \<open>Properties\<close>

text \<open>Property C17. Each milestone is published exactly when the observed kills cross it: over any observations, failed
  saves, acknowledged notices and reconnects, the locations returned are those of the milestones
  between the total at the start and the present one, each once and in order, and the total never decreases.\<close>

theorem milestones_crossed_once:
  assumes "bind_killsanity s session namespace rows = (s0, Inr ())" "kill_run s0 out s1"
    "sorted_wrt (<) (map fst rows)" "\<forall>t \<in> set (map fst rows). 0 < t"
  shows "ks_total s0 \<le> ks_total s1 \<and>
    out = map snd (filter (\<lambda>(threshold, location). ks_total s0 < threshold \<and> threshold \<le> ks_total s1) rows)"
  using kill_run_inv [OF assms(2) kill_inv_bind [OF assms(1)] assms(3,4)] by (simp add: crossed_def)

text \<open>Whatever was stored is accepted again: a reconnect binds the session of any run without an
  error and with the same total.\<close>

theorem stored_progress_readmitted:
  assumes "bind_killsanity s session namespace rows = (s0, Inr ())" "kill_run s0 out s1"
    "sorted_wrt (<) (map fst rows)" "\<forall>t \<in> set (map fst rows). 0 < t"
  shows "\<exists>d s2. ks_session s1 = Some d \<and> bind_killsanity s1 d namespace rows = (s2, Inr ()) \<and> ks_total s2 = ks_total s1"
proof -
  have inv: "kill_inv rows s1" using kill_run_inv [OF assms(2) kill_inv_bind [OF assms(1)] assms(3,4)] by simp
  then obtain d where d: "ks_session s1 = Some d" by (auto simp: kill_inv_def)
  from rebind_frame [OF inv d, of namespace] d show ?thesis by metis
qed

lemma plan_thresholds:
  assumes "build_killsanity_plan options v est = Inr plan"
  shows "\<exists>step. 1 \<le> step \<and> (\<forall>t \<in> set (map fst (milestone_rows plan)). step dvd t) \<and>
    (milestone_rows plan \<noteq> [] \<longrightarrow> fst (hd (milestone_rows plan)) = step)"
proof (rule build_killsanity_parts [OF assms], goal_cases)
  case (1 interval number kills estimate sources)
  have "1 \<le> interval" using milestone_options_interval [OF 1(2)] 1(3) by simp
  moreover have "fst (hd (milestone_rows plan)) = interval" if "milestone_rows plan \<noteq> []"
    using that by (cases "1 \<le> number") (simp_all add: 1(1) milestone_rows_document upto.simps)
  ultimately show ?case by (intro exI [of _ interval]) (auto simp: 1(1) milestone_rows_document)
qed

text \<open>The native side never refuses a presentation for its numbers: for the milestones of an accepted
  plan, in every state of a run, the total, the target and the notices satisfy the checks that
  \<open>publish_combat_progress\<close> makes before sending.\<close>

theorem presentation_always_admitted:
  assumes plan: "build_killsanity_plan options v est = Inr plan"
    and bind: "bind_killsanity s session namespace (milestone_rows plan) = (s0, Inr ())" and run: "kill_run s0 out s1"
  shows "presentation_admitted (presentation s1 visible)"
proof -
  let ?ms = "milestone_rows plan"
  have rows: "sorted_wrt (<) (map fst ?ms)" "\<forall>t \<in> set (map fst ?ms). 0 < t \<and> t < counter_limit"
    using milestones_of_plan [OF plan] by (auto simp: counter_limit_def)
  have inv: "kill_inv ?ms s1" using kill_run_inv [OF run kill_inv_bind [OF bind] rows(1)] rows(2) by blast
  obtain d where d: "ks_progress s1 = PDict d" "progress_admitted d = None" and ms: "ks_milestones s1 = ?ms"
    and toast: "toast_ok ?ms (ks_total s1) (ks_toast s1)"
    using inv by (auto simp: kill_inv_def)
  have total: "0 \<le> ks_total s1" "ks_total s1 < counter_limit"
    using d by (auto simp: ks_total_def progress_admitted_def counter_ok_def split: if_splits)
  have target: "t \<in> set (map fst ?ms) \<and> ks_total s1 < t" if "kill_target s1 = Some t" for t
    using that filter_eq_ConsD by (fastforce simp: kill_target_def ms split: list.splits)
  obtain step where step: "1 \<le> step" "\<forall>t \<in> set (map fst ?ms). step dvd t" "?ms \<noteq> [] \<Longrightarrow> fst (hd ?ms) = step"
    using plan_thresholds [OF plan] by blast
  obtain first reached st where t: "ks_toast s1 = (first, reached, st)" by (cases "ks_toast s1")
  show ?thesis
  proof (cases "(first, reached, st) = (0, 0, 0)")
    case True
    then show ?thesis using total target rows(2) t
      by (auto simp: presentation_admitted_def presentation_def counter_limit_def split: option.splits)
  next
    case False
    then have span: "first \<in> set (map fst ?ms)" "reached \<in> set (map fst ?ms)" "first \<le> reached" "reached \<le> ks_total s1" "st = fst (hd ?ms)"
      using toast by (auto simp: toast_ok_def t)
    then have "?ms \<noteq> []" by auto
    then have "st = step" "st \<in> set (map fst ?ms)" using span(5) step(3) by (simp, metis hd_in_set list.set_map image_eqI)
    moreover have "step dvd first" "step dvd reached" using step(2) span(1,2) by blast+
    then have "(reached - first) mod step = 0" by (intro dvd_imp_mod_0 dvd_diff)
    moreover have "0 < first" "0 < st" "st < counter_limit" "first < counter_limit" "reached < counter_limit" "0 \<le> reached"
      using rows(2) span calculation by fastforce+
    ultimately show ?thesis using total target rows(2) span t
      by (auto simp: presentation_admitted_def presentation_def split: option.splits)
  qed
qed

section \<open>Witnesses\<close>

definition sample_kills :: combat_snapshot where
  "sample_kills = \<lparr>co_namespace = ''n'', co_producer = [''a'', ''b'', ''c'', ''d''], co_kills = 25, co_gaps = 0\<rparr>"

definition sample_rows :: "(int \<times> int) list" where
  "sample_rows = [(10, 7800010), (20, 7800020), (30, 7800030)]"

lemma sample_bind:
  "bind_killsanity new_killsanity [] ''n'' sample_rows = (fst (bind_killsanity new_killsanity [] ''n'' sample_rows), Inr ())"
  "ks_total (fst (bind_killsanity new_killsanity [] ''n'' sample_rows)) = 0"
  by (simp_all add: bind_killsanity_def Let_def ks_progress_def dget_or_def progress_admitted_def counter_ok_def int_field_def
      counter_limit_def has_key_def dget_def producer_ok_def ks_total_def)

lemma sample_consume:
  "\<exists>s. kill_run (fst (bind_killsanity new_killsanity [] ''n'' sample_rows)) [7800010, 7800020] s"
proof -
  let ?s0 = "fst (bind_killsanity new_killsanity [] ''n'' sample_rows)"
  have "snapshot_ok sample_kills" by (simp add: snapshot_ok_def sample_kills_def counter_limit_def)
  moreover have "snd (snd (consume_combat ?s0 sample_kills (\<lambda>d w. (w, Inr ())) ())) = Inr [7800010, 7800020]"
    by (simp add: consume_combat_def bind_killsanity_def ks_progress_def dget_or_def Let_def rebased_def sample_kills_def int_field_def
        dget_def counter_limit_def same_dict_def counted_def store_progress_def with_progress_def crossed_def sample_rows_def ks_total_def)
  ultimately show ?thesis
    using kill_consume [OF kill_start, of sample_kills ?s0 "\<lambda>d w. (w, Inr ())"] by (metis append_Nil prod.collapse sum.case(2))
qed

theorem milestones_crossed_once_witness:
  "\<exists>s0 s1. kill_run s0 [7800010, 7800020] s1 \<and> ks_total s0 = 0 \<and> 20 \<le> ks_total s1 \<and> ks_total s1 < 30"
proof -
  obtain s where run: "kill_run (fst (bind_killsanity new_killsanity [] ''n'' sample_rows)) [7800010, 7800020] s"
    using sample_consume by blast
  have "sorted_wrt (<) (map fst sample_rows)" "\<forall>t \<in> set (map fst sample_rows). 0 < t" by (simp_all add: sample_rows_def)
  from milestones_crossed_once [OF sample_bind(1) run this] have "20 \<le> ks_total s \<and> ks_total s < 30"
    by (auto simp: sample_rows_def sample_bind(2) split: if_splits)
  with run sample_bind(2) show ?thesis by blast
qed

theorem stored_progress_readmitted_witness:
  "\<exists>s1 d s2. kill_run (fst (bind_killsanity new_killsanity [] ''n'' sample_rows)) [7800010, 7800020] s1 \<and>
     bind_killsanity s1 d ''n'' sample_rows = (s2, Inr ())"
proof -
  obtain s where run: "kill_run (fst (bind_killsanity new_killsanity [] ''n'' sample_rows)) [7800010, 7800020] s"
    using sample_consume by blast
  have "sorted_wrt (<) (map fst sample_rows)" "\<forall>t \<in> set (map fst sample_rows). 0 < t" by (simp_all add: sample_rows_def)
  from stored_progress_readmitted [OF sample_bind(1) run this] run show ?thesis by blast
qed

theorem presentation_always_admitted_witness:
  "\<exists>s1. kill_run (fst (bind_killsanity new_killsanity [] ''n'' sample_rows)) [7800010, 7800020] s1 \<and>
     presentation_admitted (presentation s1 True)"
proof -
  obtain s where run: "kill_run (fst (bind_killsanity new_killsanity [] ''n'' sample_rows)) [7800010, 7800020] s"
    using sample_consume by blast
  have rows: "milestone_rows (killsanity_document True 10 3 30 30 sample_kill_sources) = sample_rows"
    by (simp add: milestone_rows_document sample_rows_def KILLSANITY_ADDRESS_BASE_def upto.simps)
  from presentation_always_admitted [OF sample_kill_plan, unfolded rows, OF sample_bind(1) run] run show ?thesis by blast
qed

end
