(* ===== verification/Save_Observer.thy ===== *)
theory Save_Observer
  imports Goals
begin

text \<open>
  The observation of the encrypted saves, \<open>doom_eap/runtime/save_observer.py\<close> over the values of
  \<open>doom_eap/contracts/save_observation.py\<close>: which save slot is proven to be the active one, and the
  persistent baselines that tell a completion earned in this room from one the save already had.

  The baseline document is a record with the fields that \<open>observe\<close> writes. Paths are texts.
\<close>

section \<open>Observed values\<close>

record gameplay_evidence =
  ge_state :: string
  ge_epoch :: int
  ge_slot :: string
  ge_map :: string
  ge_provisional :: bool
  ge_native_safe :: bool
  ge_namespace :: string
  ge_native_root :: string
  ge_pid :: int
  ge_process_created :: string
  ge_instance :: string
  ge_source_file :: string

record selection_snapshot =
  sn_slot :: "string option"
  sn_path :: "string option"
  sn_token :: "int option"
  sn_evidence :: "int option"

record save_readiness =
  sr_authoritative :: bool
  sr_slot :: "string option"
  sr_evidence :: "int option"
  sr_load :: "int option"
  sr_frozen :: bool

definition no_readiness :: save_readiness where
  "no_readiness = \<lparr>sr_authoritative = False, sr_slot = None, sr_evidence = None, sr_load = None, sr_frozen = True\<rparr>"

record candidate_decision =
  cd_action :: string
  cd_reason :: "string option"
  cd_target :: "string option"
  cd_continued :: "save_selection option"
  cd_reset :: bool

record proof_decision =
  pd_action :: string
  pd_reason :: "string option"
  pd_new_evidence :: bool
  pd_reset :: bool

text \<open>\<open>str(v)\<close> of a JSON value; a list or dictionary, which no process time is, has none here.\<close>

fun str_value :: "pyval \<Rightarrow> string option" where
  "str_value PNone = Some ''None''"
| "str_value (PBool b) = Some (if b then ''True'' else ''False'')"
| "str_value (PInt i) = Some (str_int i)"
| "str_value (PFloat r) = Some r"
| "str_value (PStr t) = Some t"
| "str_value _ = None"

text \<open>\<open>resolved\<close> is \<open>Path.resolve\<close> and \<open>details_of\<close> the \<open>game.details\<close> beside the selected file.\<close>

definition admitted_evidence_matches ::
  "(string \<Rightarrow> string) \<Rightarrow> (string \<Rightarrow> string) \<Rightarrow> gameplay_evidence option \<Rightarrow> save_selection option \<Rightarrow> string \<Rightarrow> int \<Rightarrow> pydict \<Rightarrow> bool" where
  "admitted_evidence_matches resolved details_of evidence_seen selection namespace pid admission =
     (case (evidence_seen, selection) of
        (Some e, Some sel) \<Rightarrow>
          ge_state e = ''gameplay'' \<and> ge_namespace e = namespace \<and> PStr (ge_native_root e) = dget admission ''native_root'' \<and>
          ge_pid e = pid \<and> Some (ge_process_created e) = str_value (dget admission ''process_created'') \<and>
          PStr (ge_instance e) = dget admission ''instance_id'' \<and> ge_slot e = ss_slot sel \<and>
          resolved (map (\<lambda>c. if c = CHR 0x5C then CHR ''/'' else c) (ge_source_file e)) = resolved (details_of (ss_path sel))
      | _ \<Rightarrow> False)"

definition expected_save_prefix_for_campaign :: "string option \<Rightarrow> string option" where
  "expected_save_prefix_for_campaign campaign =
     (case campaign of
        None \<Rightarrow> None
      | Some c \<Rightarrow>
         (if c = ''Base'' then Some ''GAME-AUTOSAVE''
          else if c \<in> {''TAG1'', ''ARC''} then Some ''DLC1-AUTOSAVE''
          else if c \<in> {''TAG2'', ''Dark Lord''} then Some ''DLC2-AUTOSAVE''
          else if c = ''Horde'' then Some ''HORDE-AUTOSAVE''
          else None))"

text \<open>\<open>(?:GAME|DLC[12]|HORDE)-AUTOSAVE[0-9]+\<close>; with \<open>$\<close> a final newline is accepted.\<close>

definition autosave_slot :: "string \<Rightarrow> bool" where
  "autosave_slot s \<longleftrightarrow> (\<exists>p \<in> set [''GAME-AUTOSAVE'', ''DLC1-AUTOSAVE'', ''DLC2-AUTOSAVE'', ''HORDE-AUTOSAVE''].
     starts_with s p \<and> drop (length p) s \<noteq> [] \<and> list_all is_digit (drop (length p) s))"

definition autosave_match :: "string \<Rightarrow> bool" where
  "autosave_match s \<longleftrightarrow> autosave_slot s \<or> (s \<noteq> [] \<and> last s = CHR 0x0A \<and> autosave_slot (butlast s))"

section \<open>Baselines\<close>

record baseline_observer =
  bo_preexisting :: "string list"
  bo_last :: "(string \<times> bool) list"
  bo_pending :: "string list"

record baseline_binding =
  bb_observers :: "(string \<times> baseline_observer) list"
  bb_revision :: string

type_synonym baselines = "(string \<times> baseline_binding) list"

definition binding_key :: "string \<Rightarrow> int \<Rightarrow> int \<Rightarrow> string \<Rightarrow> string \<Rightarrow> string" where
  "binding_key session_identity team slot save_slot revision = join ''|'' [session_identity, str_int team, str_int slot, save_slot, revision]"

definition last_part :: "string \<Rightarrow> string" where \<comment> \<open>\<open>key.rsplit("|", 1)[-1]\<close>\<close>
  "last_part s = rev (takeWhile (\<lambda>c. c \<noteq> CHR ''|'') (rev s))"

type_synonym sample = "(string \<times> bool) list \<times> string list \<times> string list" \<comment> \<open>records, acknowledged, first sample\<close>

definition recovered :: "sample \<Rightarrow> string list" where
  "recovered = (\<lambda>(records, acknowledged, first_sample).
     filter (\<lambda>k. map_of records k = Some True \<and> k \<notin> set acknowledged) first_sample)"

definition first_observer :: "sample \<Rightarrow> baseline_observer" where
  "first_observer sample = \<lparr>bo_preexisting = sorted_set (map fst (filter snd (fst sample))), bo_last = fst sample,
     bo_pending = sorted_set (recovered sample)\<rparr>"

fun edge_loop :: "(string \<times> bool) list \<Rightarrow> (string \<times> bool) list \<Rightarrow> string list \<Rightarrow> (string \<times> bool) list \<times> string list" where
  "edge_loop [] previous edges = (previous, edges)"
| "edge_loop ((k, current) # records) previous edges =
     edge_loop records (AList.update k current previous)
       (if current \<and> map_of previous k = Some False then k # edges else edges)"

definition next_observer :: "baseline_observer \<Rightarrow> sample \<Rightarrow> baseline_observer \<times> string list" where
  "next_observer b sample =
     (case sample of (records, acknowledged, first_sample) \<Rightarrow>
       let kept = filter (\<lambda>k. k \<notin> set acknowledged) (bo_pending b @ recovered sample);
           (previous, edges) = edge_loop records (bo_last b) []
       in (b\<lparr>bo_last := previous, bo_pending := sorted_set (kept @ edges)\<rparr>, sorted_set edges))"

text \<open>\<open>observe\<close>: the pending edges, whether the baseline is new and the new edges.\<close>

definition observe_baseline :: "baselines \<Rightarrow> string \<Rightarrow> string \<Rightarrow> sample \<Rightarrow> baselines \<times> string list \<times> bool \<times> string list" where
  "observe_baseline store key observer_key sample =
     (let created = (map_of store key = None);
          binding = (case map_of store key of Some b \<Rightarrow> b | None \<Rightarrow> \<lparr>bb_observers = [], bb_revision = last_part key\<rparr>);
          put = (\<lambda>b. AList.update key (binding\<lparr>bb_observers := AList.update observer_key b (bb_observers binding)\<rparr>) store)
      in case map_of (bb_observers binding) observer_key of
           None \<Rightarrow> (put (first_observer sample), sorted_set (recovered sample), True, sorted_set (recovered sample))
         | Some b \<Rightarrow> (case next_observer b sample of (b', edges) \<Rightarrow> (put b', bo_pending b', created, edges)))"

section \<open>The observer\<close>

record save_observer =
  so_readiness :: save_readiness
  so_selection :: selection_snapshot
  so_tokens :: "(string \<times> (string \<times> int)) list"
  so_observations :: pydict
  so_slot :: "string option"
  so_duration :: "(string \<times> string \<times> int) option"
  so_records :: "((string \<times> string \<times> string) \<times> pyval) list"
  so_revision :: nat
  so_baselines :: baselines
  so_mission :: "string option \<times> int option"
  so_last_mission :: "int option"
  so_provider :: string

definition new_save_observer :: save_observer where
  "new_save_observer = \<lparr>so_readiness = no_readiness,
     so_selection = \<lparr>sn_slot = None, sn_path = None, sn_token = None, sn_evidence = None\<rparr>, so_tokens = [], so_observations = [],
     so_slot = None, so_duration = None, so_records = [], so_revision = 0, so_baselines = [], so_mission = (None, None),
     so_last_mission = None, so_provider = ''unbound''\<rparr>"

definition clear_mission_select :: "save_observer \<Rightarrow> save_observer" where
  "clear_mission_select s = s\<lparr>so_mission := (None, None)\<rparr>"

definition accept_mission_select :: "save_observer \<Rightarrow> string \<Rightarrow> int \<Rightarrow> save_observer \<times> bool" where
  "accept_mission_select s map_name epoch =
     (s\<lparr>so_mission := (Some map_name, Some epoch), so_last_mission := Some epoch\<rparr>, so_last_mission s \<noteq> Some epoch)"

definition plan_proof :: "save_observer \<Rightarrow> save_selection \<Rightarrow> int option \<Rightarrow> int option \<Rightarrow> proof_decision" where
  "plan_proof s selected proof_evidence_epoch evidence_epoch =
     (let sn = so_selection s in
      if \<not> (sn_slot sn = Some (ss_slot selected) \<and> sn_path sn = Some (ss_path selected))
      then (if sn_evidence sn = proof_evidence_epoch \<and> sn_slot sn \<noteq> None
            then \<lparr>pd_action = ''reject'', pd_reason = Some ''unproven_epoch'', pd_new_evidence = False, pd_reset = False\<rparr>
            else \<lparr>pd_action = ''activate'', pd_reason = None, pd_new_evidence = True, pd_reset = False\<rparr>)
      else
       let new_evidence = (evidence_epoch \<noteq> None \<and> sn_evidence sn \<noteq> evidence_epoch)
       in \<lparr>pd_action = ''refresh'', pd_reason = None, pd_new_evidence = new_evidence,
            pd_reset = (new_evidence \<and> sn_token sn \<noteq> Some (ss_mtime selected))\<rparr>)"

definition requires_mission_select :: "string \<Rightarrow> string option \<Rightarrow> bool \<Rightarrow> string list \<Rightarrow> bool" where
  "requires_mission_select active_map continue_target lag challenge_maps =
     (let target = (if lag then Some active_map else continue_target)
      in active_map \<in> set challenge_maps \<and> target \<notin> {None, Some []} \<and> target \<noteq> Some active_map)"

definition bind_baselines :: "save_observer \<Rightarrow> baselines \<Rightarrow> save_observer" where
  "bind_baselines s store = s\<lparr>so_baselines := store\<rparr>"

definition bind_ap_provider :: "save_observer \<Rightarrow> string \<Rightarrow> string \<Rightarrow> save_observer" where
  "bind_ap_provider s namespace native_root = s\<lparr>so_provider := namespace @ '':'' @ native_root\<rparr>"

definition capture_observation :: "save_observer \<Rightarrow> nat \<times> selection_snapshot \<times> save_readiness \<times> (string option \<times> int option)" where
  "capture_observation s = (so_revision s, so_selection s, so_readiness s, so_mission s)"

definition duration_is_current :: "save_observer \<Rightarrow> save_selection \<Rightarrow> bool" where
  "duration_is_current s selected \<longleftrightarrow> so_duration s = Some (ss_slot selected, ss_path selected, ss_mtime selected)"

definition accept_duration :: "save_observer \<Rightarrow> save_selection \<Rightarrow> save_observer" where
  "accept_duration s selected = s\<lparr>so_duration := Some (ss_slot selected, ss_path selected, ss_mtime selected)\<rparr>"

definition observe_record :: "save_observer \<Rightarrow> string \<Rightarrow> string \<Rightarrow> string \<Rightarrow> pyval \<Rightarrow> save_observer \<times> bool" where
  "observe_record s kind slot unlockable record_value =
     (if map_of (so_records s) (kind, slot, unlockable) = Some record_value then (s, False)
      else (s\<lparr>so_records := AList.update (kind, slot, unlockable) record_value (so_records s)\<rparr>, True))"

definition observe_edges :: "save_observer \<Rightarrow> string \<Rightarrow> int \<Rightarrow> int \<Rightarrow> string \<Rightarrow> string \<Rightarrow> string \<Rightarrow> sample
    \<Rightarrow> save_observer \<times> string list \<times> bool \<times> string list" where
  "observe_edges s session_identity team slot revision save_slot observer_key sample =
     (case observe_baseline (so_baselines s) (binding_key (session_identity @ '':'' @ so_provider s) team slot save_slot revision) observer_key sample of
        (store, answer) \<Rightarrow> (s\<lparr>so_baselines := store\<rparr>, answer))"

definition restore_slot_observations :: "save_observer \<Rightarrow> pyval \<Rightarrow> save_observer" where
  "restore_slot_observations s raw =
     s\<lparr>so_observations := filter (\<lambda>(slot, state). autosave_slot slot \<and> is_dict state) (case raw of PDict d \<Rightarrow> d | _ \<Rightarrow> []),
       so_slot := None\<rparr>"

definition select_observation_slot :: "save_observer \<Rightarrow> string \<Rightarrow> save_observer \<times> bool" where
  "select_observation_slot s slot =
     (if so_slot s = Some slot then (s, False)
      else let state = (case dget_or (so_observations s) slot (PDict []) of PDict d \<Rightarrow> d | _ \<Rightarrow> [])
           in (s\<lparr>so_slot := Some slot,
                 so_observations := dset slot (PDict (dpop ''mission_challenges'' (dpop ''weapon_masteries'' state))) (so_observations s)\<rparr>, True))"

definition invalidate_observation_slot :: "save_observer \<Rightarrow> string \<Rightarrow> save_observer" where
  "invalidate_observation_slot s slot = s\<lparr>so_observations := dset slot (PDict []) (so_observations s), so_slot := None\<rparr>"

definition observe_token :: "save_observer \<Rightarrow> save_selection \<Rightarrow> save_observer \<times> bool" where
  "observe_token s selected =
     (if map_of (so_tokens s) (ss_slot selected) = Some (ss_path selected, ss_mtime selected) then (s, False)
      else (s\<lparr>so_tokens := AList.update (ss_slot selected) (ss_path selected, ss_mtime selected) (so_tokens s)\<rparr>, True))"

definition update_selection :: "save_observer \<Rightarrow> (selection_snapshot \<Rightarrow> selection_snapshot) \<Rightarrow> save_observer" where
  "update_selection s changes = s\<lparr>so_selection := changes (so_selection s)\<rparr>"

definition invalidate_proof :: "save_observer \<Rightarrow> save_observer" where
  "invalidate_proof s = s\<lparr>so_revision := so_revision s + 1, so_readiness := no_readiness\<rparr>"

definition activate_slot :: "save_observer \<Rightarrow> string \<Rightarrow> save_observer" where
  "activate_slot s slot = s\<lparr>so_readiness := (so_readiness s)\<lparr>sr_authoritative := True, sr_slot := Some slot\<rparr>\<rparr>"

definition accept_proof :: "save_observer \<Rightarrow> string \<Rightarrow> int option \<Rightarrow> int option \<Rightarrow> save_observer" where
  "accept_proof s slot evidence_epoch load_epoch =
     s\<lparr>so_readiness := \<lparr>sr_authoritative = True, sr_slot = Some slot, sr_evidence = evidence_epoch, sr_load = load_epoch, sr_frozen = False\<rparr>\<rparr>"

definition set_frozen :: "save_observer \<Rightarrow> bool \<Rightarrow> save_observer" where
  "set_frozen s frozen = s\<lparr>so_readiness := (so_readiness s)\<lparr>sr_frozen := frozen\<rparr>\<rparr>"

definition present_text :: "string option \<Rightarrow> string option" where \<comment> \<open>\<open>None\<close> for the empty text, which is false\<close>
  "present_text t = (case t of Some (c # s) \<Rightarrow> Some (c # s) | _ \<Rightarrow> None)"

definition observe_expected_family :: "save_observer \<Rightarrow> string option \<Rightarrow> save_observer \<times> bool \<times> int option" where
  "observe_expected_family s expected_prefix =
     (let mismatch = (case (present_text expected_prefix, present_text (sn_slot (so_selection s))) of
            (Some p, Some slot) \<Rightarrow> \<not> starts_with slot p | _ \<Rightarrow> False)
      in (if mismatch then update_selection (invalidate_proof s) (\<lambda>sn. sn\<lparr>sn_evidence := None\<rparr>) else s,
          mismatch, sr_evidence (so_readiness s)))"

definition reject_candidate :: "save_observer \<Rightarrow> string \<Rightarrow> save_observer \<times> candidate_decision" where
  "reject_candidate s reason = (set_frozen s True,
     \<lparr>cd_action = ''reject'', cd_reason = Some reason, cd_target = None, cd_continued = None, cd_reset = False\<rparr>)"

definition newer_unproven :: "save_selection option \<Rightarrow> save_selection option \<Rightarrow> bool" where
  "newer_unproven newest active =
     (case (newest, active) of (Some n, Some a) \<Rightarrow> ss_slot n \<noteq> ss_slot a \<and> ss_mtime n > ss_mtime a | _ \<Rightarrow> False)"

definition continue_active :: "save_observer \<Rightarrow> save_selection option \<Rightarrow> save_selection option \<Rightarrow> string option \<Rightarrow> int option \<Rightarrow> string
    \<Rightarrow> save_observer \<times> candidate_decision" where
  "continue_active s newest active mission_select_map load_epoch reason =
     (let proof_state = so_readiness s in
      case active of
        None \<Rightarrow> reject_candidate s reason
      | Some a \<Rightarrow>
         (if present_text mission_select_map \<noteq> None \<or> \<not> sr_authoritative proof_state
             \<or> sr_slot proof_state \<noteq> sn_slot (so_selection s) \<or> sr_load proof_state \<noteq> load_epoch \<or> newer_unproven newest active
          then reject_candidate s reason
          else (s, \<lparr>cd_action = ''continue'', cd_reason = None, cd_target = None, cd_continued = Some a,
                  cd_reset = (sn_token (so_selection s) \<noteq> Some (ss_mtime a))\<rparr>)))"

definition target_slot :: "string option \<Rightarrow> string option \<Rightarrow> save_selection option \<Rightarrow> save_selection option \<Rightarrow> string option" where
  "target_slot evidence_slot expected_prefix newest active =
     (let candidate = map_option ss_slot newest;
          target = (case present_text evidence_slot of
              Some t \<Rightarrow> Some t
            | None \<Rightarrow> (case present_text (map_option ss_slot active) of Some t \<Rightarrow> Some t | None \<Rightarrow> candidate))
      in case (present_text expected_prefix, present_text target) of
           (Some p, Some t) \<Rightarrow> (if starts_with t p then target else candidate)
         | _ \<Rightarrow> target)"

definition select_candidate :: "save_observer \<Rightarrow> gameplay_evidence option \<Rightarrow> bool \<Rightarrow> string option \<Rightarrow> string option
    \<Rightarrow> save_selection option \<Rightarrow> save_selection option \<Rightarrow> bool \<Rightarrow> int option \<Rightarrow> string option \<Rightarrow> bool
    \<Rightarrow> save_observer \<times> candidate_decision" where
  "select_candidate s seen marker_present evidence_slot expected_prefix newest active process_running load_epoch
       mission_select_map provisional_family_switch =
     (let continuing = continue_active s newest active mission_select_map load_epoch in
      if \<not> process_running then reject_candidate (invalidate_proof s) ''game_not_running''
      else if seen = None \<and> \<not> marker_present then continuing ''no_gameplay_evidence''
      else if (case seen of Some e \<Rightarrow> ge_state e \<noteq> ''gameplay'' | None \<Rightarrow> False)
      then reject_candidate (invalidate_proof s) ''menu''
      else if (case seen of Some e \<Rightarrow> ge_provisional e | None \<Rightarrow> False) \<and> \<not> marker_present \<and> \<not> provisional_family_switch
      then continuing ''provisional''
      else
       let target = target_slot evidence_slot expected_prefix newest active
       in case target of
            Some t \<Rightarrow>
             (if autosave_match t
              then (s, \<lparr>cd_action = ''read_details'', cd_reason = None, cd_target = Some t, cd_continued = None, cd_reset = False\<rparr>)
              else reject_candidate s ''invalid_evidence_slot'')
          | None \<Rightarrow> reject_candidate s ''invalid_evidence_slot'')"

definition continue_selection :: "save_observer \<Rightarrow> save_selection \<Rightarrow> save_observer" where
  "continue_selection s selected =
     set_frozen (update_selection s (\<lambda>sn. sn\<lparr>sn_path := Some (ss_path selected), sn_token := Some (ss_mtime selected)\<rparr>)) False"

definition permits_provisional_family_switch :: "gameplay_evidence option \<Rightarrow> bool \<Rightarrow> bool \<Rightarrow> string option \<Rightarrow> bool
    \<Rightarrow> save_selection option \<Rightarrow> save_selection option \<Rightarrow> int option \<Rightarrow> int option \<Rightarrow> bool" where
  "permits_provisional_family_switch seen marker_absent context_known expected_prefix family_mismatch newest active
       evidence_epoch prior_evidence_epoch \<longleftrightarrow>
     (case (seen, newest, active, present_text expected_prefix) of
        (Some e, Some n, Some a, Some p) \<Rightarrow>
          ge_state e = ''gameplay'' \<and> ge_provisional e \<and> ge_native_safe e \<and> marker_absent \<and> context_known \<and> family_mismatch \<and>
          starts_with (ss_slot n) p \<and> ss_mtime n > ss_mtime a \<and> evidence_epoch \<noteq> None \<and> evidence_epoch \<noteq> prior_evidence_epoch
      | _ \<Rightarrow> False)"

definition has_authoritative_proof :: "save_observer \<Rightarrow> bool \<Rightarrow> int option \<Rightarrow> bool" where
  "has_authoritative_proof s lease_present gameplay_loaded =
     (let p = so_readiness s in
      if sr_frozen p then False
      else if \<not> sr_authoritative p then False
      else if lease_present \<and> sr_load p \<noteq> gameplay_loaded then False
      else (case sn_slot (so_selection s) of Some slot \<Rightarrow> sr_slot p = Some slot | None \<Rightarrow> True))"

section \<open>The baselines hold exactly the unacknowledged edges\<close>

type_synonym baseline_event = "string \<times> string \<times> sample"

definition baseline_run :: "baseline_event list \<Rightarrow> baselines" where
  "baseline_run evs = foldl (\<lambda>store (key, observer_key, sample). fst (observe_baseline store key observer_key sample)) [] evs"

definition history_of :: "string \<Rightarrow> string \<Rightarrow> baseline_event list \<Rightarrow> sample list" where
  "history_of key observer_key evs = map (\<lambda>(k, o', sample). sample) (filter (\<lambda>(k, o', sample). k = key \<and> o' = observer_key) evs)"

definition lookup_observer :: "baselines \<Rightarrow> string \<Rightarrow> string \<Rightarrow> baseline_observer option" where
  "lookup_observer store key observer_key =
     (case map_of store key of None \<Rightarrow> None | Some b \<Rightarrow> map_of (bb_observers b) observer_key)"

definition step_observer :: "baseline_observer option \<Rightarrow> sample \<Rightarrow> baseline_observer" where
  "step_observer b sample = (case b of None \<Rightarrow> first_observer sample | Some b \<Rightarrow> fst (next_observer b sample))"

fun last_value :: "sample list \<Rightarrow> string \<Rightarrow> bool option" where \<comment> \<open>latest sample first\<close>
  "last_value [] k = None"
| "last_value ((records, acknowledged, first_sample) # older) k =
     (case map_of records k of Some c \<Rightarrow> Some c | None \<Rightarrow> last_value older k)"

text \<open>A key is raised by a sample when its record completes after it was last seen incomplete, or when
  its first sample counts and it is complete and unacknowledged.\<close>

definition raised :: "sample list \<Rightarrow> sample \<Rightarrow> string \<Rightarrow> bool" where
  "raised older sample k \<longleftrightarrow>
     (map_of (fst sample) k = Some True \<and> last_value older k = Some False) \<or> k \<in> set (recovered sample)"

fun unacknowledged :: "sample list \<Rightarrow> string \<Rightarrow> bool" where
  "unacknowledged [] k = False"
| "unacknowledged (sample # older) k \<longleftrightarrow>
     raised older sample k \<or> (unacknowledged older k \<and> k \<notin> set (fst (snd sample)))"

lemma lookup_observe:
  "lookup_observer (fst (observe_baseline store k ob sample)) k' ob' =
     (if k' = k \<and> ob' = ob then Some (step_observer (lookup_observer store k ob) sample) else lookup_observer store k' ob')"
  by (auto simp: lookup_observer_def observe_baseline_def step_observer_def Let_def map_of_update
      split: option.splits prod.splits)

fun observer_of :: "sample list \<Rightarrow> baseline_observer option" where \<comment> \<open>latest sample first\<close>
  "observer_of [] = None"
| "observer_of (sample # older) = Some (step_observer (observer_of older) sample)"

lemma lookup_run: "lookup_observer (baseline_run evs) k ob = observer_of (rev (history_of k ob evs))"
proof (induction evs rule: rev_induct)
  case Nil
  then show ?case by (simp add: baseline_run_def history_of_def lookup_observer_def)
next
  case (snoc e evs)
  obtain k' ob' sm where e: "e = (k', ob', sm)" by (cases e)
  have "baseline_run (evs @ [e]) = fst (observe_baseline (baseline_run evs) k' ob' sm)" by (simp add: baseline_run_def e)
  moreover have "history_of k ob (evs @ [e]) = (if k = k' \<and> ob = ob' then history_of k ob evs @ [sm] else history_of k ob evs)"
    by (auto simp: history_of_def e)
  ultimately show ?case using snoc by (auto simp: lookup_observe)
qed

lemma edge_loop_values:
  "distinct (map fst records) \<Longrightarrow> map_of (fst (edge_loop records previous edges)) k =
     (case map_of records k of Some c \<Rightarrow> Some c | None \<Rightarrow> map_of previous k)"
proof (induction records arbitrary: previous edges)
  case (Cons r records)
  obtain k' c where r: "r = (k', c)" by (cases r)
  have "map_of records k' = None" using Cons.prems by (simp add: r map_of_eq_None_iff)
  moreover have "distinct (map fst records)" using Cons.prems by simp
  ultimately show ?case using Cons.IH [of "AList.update k' c previous"] by (cases "k = k'") (simp_all add: r map_of_update split: option.split)
qed simp

lemma edge_loop_edges:
  "distinct (map fst records) \<Longrightarrow> set (snd (edge_loop records previous edges)) =
     set edges \<union> {k. map_of records k = Some True \<and> map_of previous k = Some False}"
proof (induction records arbitrary: previous edges)
  case (Cons r records)
  obtain k' c where r: "r = (k', c)" by (cases r)
  have "map_of records k' = None" using Cons.prems by (simp add: r map_of_eq_None_iff)
  then have "{k. map_of records k = Some True \<and> map_of (AList.update k' c previous) k = Some False} =
      {k. map_of records k = Some True \<and> map_of previous k = Some False}"
    by (auto simp: map_of_update)
  moreover have "map_of (r # records) k = Some True \<longleftrightarrow> (k = k' \<and> c) \<or> map_of records k = Some True" for k
    using \<open>map_of records k' = None\<close> by (auto simp: r)
  moreover have "distinct (map fst records)" using Cons.prems by simp
  ultimately show ?case using Cons.IH [of "AList.update k' c previous"] by (auto simp: r simp del: map_of.simps)
qed simp

definition sample_ok :: "sample \<Rightarrow> bool" where
  "sample_ok sample \<longleftrightarrow> distinct (map fst (fst sample))"

lemma observer_of_last:
  "list_all sample_ok hist \<Longrightarrow> observer_of hist = Some b \<Longrightarrow> map_of (bo_last b) k = last_value hist k"
proof (induction hist arbitrary: b)
  case (Cons sm older)
  obtain records ack first where sm: "sm = (records, ack, first)" by (cases sm)
  have ok: "distinct (map fst records)" "list_all sample_ok older" using Cons.prems(1) by (simp_all add: sm sample_ok_def [of "(records, ack, first)"])
  show ?case
  proof (cases "observer_of older")
    case None
    then have "older = []" by (cases older) auto
    with Cons.prems(2) show ?thesis by (auto simp: sm step_observer_def first_observer_def split: option.splits)
  next
    case (Some b0)
    with Cons.prems(2) have "b = fst (next_observer b0 sm)" by (simp add: step_observer_def)
    then have "bo_last b = fst (edge_loop records (bo_last b0) [])" by (simp add: next_observer_def sm split: prod.splits)
    with Cons.IH [OF ok(2) Some] show ?thesis by (simp add: edge_loop_values [OF ok(1)] sm split: option.split)
  qed
qed simp

lemma observer_of_pending:
  "list_all sample_ok hist \<Longrightarrow> observer_of hist = Some b \<Longrightarrow> set (bo_pending b) = {k. unacknowledged hist k}"
proof (induction hist arbitrary: b)
  case (Cons sm older)
  obtain records ack first where sm: "sm = (records, ack, first)" by (cases sm)
  have ok: "distinct (map fst records)" "list_all sample_ok older" using Cons.prems(1) by (simp_all add: sm sample_ok_def [of "(records, ack, first)"])
  show ?case
  proof (cases "observer_of older")
    case None
    then have "older = []" by (cases older) auto
    with Cons.prems(2) show ?thesis by (auto simp: sm step_observer_def first_observer_def raised_def)
  next
    case (Some b0)
    with Cons.prems(2) have "b = fst (next_observer b0 sm)" by (simp add: step_observer_def)
    then have "set (bo_pending b) = (set (bo_pending b0) \<union> set (recovered sm)) - set ack \<union> set (snd (edge_loop records (bo_last b0) []))"
      by (auto simp: next_observer_def sm split: prod.splits)
    moreover have "set (recovered sm) \<inter> set ack = {}" by (auto simp: recovered_def sm)
    ultimately show ?thesis using Cons.IH [OF ok(2) Some] observer_of_last [OF ok(2) Some]
      by (auto simp: edge_loop_edges [OF ok(1)] raised_def sm)
  qed
qed simp

text \<open>Property C40. A baseline holds exactly the unacknowledged edges: after any interleaved observations of rooms, slots and
  observers, the pending keys of one observer are those raised by one of its own samples - completed
  after it was last seen incomplete, or complete in a first sample that counts - and not acknowledged
  by any later one. A completion that the save already had is never pending.\<close>

theorem pending_edges_exact:
  assumes "list_all (\<lambda>(key, observer_key, sample). distinct (map fst (fst sample))) evs" "history_of key ob evs \<noteq> []"
  shows "\<exists>b. lookup_observer (baseline_run evs) key ob = Some b \<and>
    set (bo_pending b) = {k. unacknowledged (rev (history_of key ob evs)) k}"
proof -
  have "list_all sample_ok (rev (history_of key ob evs))"
    using assms(1) by (auto simp: history_of_def list_all_iff sample_ok_def)
  moreover obtain b where "observer_of (rev (history_of key ob evs)) = Some b"
    using assms(2) by (cases "rev (history_of key ob evs)") auto
  ultimately show ?thesis by (auto simp: lookup_run observer_of_pending)
qed

section \<open>Proofs come from acceptance\<close>

datatype proof_event = Accepted string "int option" | Activated string | Invalidated | Quiet_step

type_synonym proof_part = "string option \<times> int option"

fun proof_after :: "proof_part \<Rightarrow> proof_event \<Rightarrow> proof_part" where
  "proof_after (slot, load) (Accepted slot' load') = (Some slot', load')"
| "proof_after (slot, load) (Activated slot') = (Some slot', load)"
| "proof_after (slot, load) Invalidated = (None, None)"
| "proof_after (slot, load) Quiet_step = (slot, load)"

definition proven :: "proof_event list \<Rightarrow> proof_part" where
  "proven trace = foldl proof_after (None, None) trace"

definition logged :: "save_observer \<Rightarrow> save_observer \<Rightarrow> proof_event" where
  "logged s s' = (if so_revision s' \<noteq> so_revision s then Invalidated else Quiet_step)"

text \<open>The operations that leave the readiness alone.\<close>

definition quiet_observation :: "save_observer \<Rightarrow> save_observer \<Rightarrow> bool" where
  "quiet_observation s s' \<longleftrightarrow> s' = clear_mission_select s \<or> (\<exists>m e. s' = fst (accept_mission_select s m e)) \<or>
     (\<exists>store. s' = bind_baselines s store) \<or> (\<exists>n r. s' = bind_ap_provider s n r) \<or> (\<exists>sel. s' = accept_duration s sel) \<or>
     (\<exists>k sl u v. s' = fst (observe_record s k sl u v)) \<or> (\<exists>i t n r sl ob sm. s' = fst (observe_edges s i t n r sl ob sm)) \<or>
     (\<exists>raw. s' = restore_slot_observations s raw) \<or> (\<exists>sl. s' = fst (select_observation_slot s sl)) \<or>
     (\<exists>sl. s' = invalidate_observation_slot s sl) \<or> (\<exists>sel. s' = fst (observe_token s sel)) \<or> (\<exists>f. s' = update_selection s f) \<or>
     (\<exists>b. s' = set_frozen s b) \<or> (\<exists>sel. s' = continue_selection s sel)"

inductive observer_run :: "proof_event list \<Rightarrow> save_observer \<Rightarrow> bool" where
  observer_start: "observer_run [] new_save_observer"
| observer_accept: "observer_run trace s \<Longrightarrow> observer_run (trace @ [Accepted slot load]) (accept_proof s slot epoch load)"
| observer_activate: "observer_run trace s \<Longrightarrow> observer_run (trace @ [Activated slot]) (activate_slot s slot)"
| observer_invalidate: "observer_run trace s \<Longrightarrow> observer_run (trace @ [Invalidated]) (invalidate_proof s)"
| observer_family: "observer_run trace s \<Longrightarrow> s' = fst (observe_expected_family s p) \<Longrightarrow> observer_run (trace @ [logged s s']) s'"
| observer_select: "observer_run trace s \<Longrightarrow> s' = fst (select_candidate s ev mk es p n a running load mission switch) \<Longrightarrow>
    observer_run (trace @ [logged s s']) s'"
| observer_quiet: "observer_run trace s \<Longrightarrow> quiet_observation s s' \<Longrightarrow> observer_run (trace @ [Quiet_step]) s'"

definition readiness_part :: "save_observer \<Rightarrow> bool \<times> string option \<times> int option" where
  "readiness_part s = (sr_authoritative (so_readiness s), sr_slot (so_readiness s), sr_load (so_readiness s))"

definition readiness_of :: "proof_part \<Rightarrow> bool \<times> string option \<times> int option" where
  "readiness_of = (\<lambda>(slot, load). (slot \<noteq> None, slot, load))"

lemma readiness_frames [simp]:
  "readiness_part (set_frozen s b) = readiness_part s" "so_revision (set_frozen s b) = so_revision s"
  "readiness_part (update_selection s f) = readiness_part s" "so_revision (update_selection s f) = so_revision s"
  "readiness_part (invalidate_proof s) = (False, None, None)" "so_revision (invalidate_proof s) = so_revision s + 1"
  "fst (reject_candidate s r) = set_frozen s True" "cd_action (snd (reject_candidate s r)) = ''reject''"
  by (simp_all add: readiness_part_def set_frozen_def update_selection_def invalidate_proof_def no_readiness_def reject_candidate_def)

lemma quiet_readiness:
  "so_readiness (clear_mission_select s) = so_readiness s" "so_readiness (fst (accept_mission_select s m e)) = so_readiness s"
  "so_readiness (bind_baselines s store) = so_readiness s" "so_readiness (bind_ap_provider s n r) = so_readiness s"
  "so_readiness (accept_duration s sel) = so_readiness s" "so_readiness (fst (observe_record s k sl u v)) = so_readiness s"
  "so_readiness (fst (observe_edges s i t n' r' sl ob sm)) = so_readiness s" "so_readiness (restore_slot_observations s raw) = so_readiness s"
  "so_readiness (fst (select_observation_slot s sl)) = so_readiness s" "so_readiness (invalidate_observation_slot s sl) = so_readiness s"
  "so_readiness (fst (observe_token s sel)) = so_readiness s"
  by (simp_all add: clear_mission_select_def accept_mission_select_def bind_baselines_def bind_ap_provider_def accept_duration_def
      observe_record_def observe_edges_def restore_slot_observations_def select_observation_slot_def invalidate_observation_slot_def
      observe_token_def Let_def split: prod.split)

lemma quiet_frame: "quiet_observation s s' \<Longrightarrow> readiness_part s' = readiness_part s"
  unfolding quiet_observation_def
  by (elim disjE exE) (simp_all add: continue_selection_def, simp_all add: readiness_part_def quiet_readiness)

lemma continue_active_frame:
  "readiness_part (fst (continue_active s newest active mission load reason)) = readiness_part s"
  "so_revision (fst (continue_active s newest active mission load reason)) = so_revision s"
  by (simp_all add: continue_active_def Let_def split: option.split)

lemma select_candidate_frame:
  "readiness_part (fst (select_candidate s ev mk es p n a running load mission switch)) =
     (if so_revision (fst (select_candidate s ev mk es p n a running load mission switch)) = so_revision s then readiness_part s
      else (False, None, None))"
  by (simp add: select_candidate_def Let_def continue_active_frame split: option.split)

lemma family_frame:
  "readiness_part (fst (observe_expected_family s p)) =
     (if so_revision (fst (observe_expected_family s p)) = so_revision s then readiness_part s else (False, None, None))"
  by (simp add: observe_expected_family_def Let_def)

lemma proven_snoc [simp]: "proven (trace @ [e]) = proof_after (proven trace) e"
  by (simp add: proven_def)

lemma observer_run_readiness: "observer_run trace s \<Longrightarrow> readiness_part s = readiness_of (proven trace)"
proof (induction rule: observer_run.induct)
  case observer_start
  then show ?case by (simp add: readiness_part_def new_save_observer_def no_readiness_def proven_def readiness_of_def)
next
  case (observer_accept trace s slot load epoch)
  then show ?case by (cases "proven trace") (simp add: accept_proof_def readiness_part_def readiness_of_def)
next
  case (observer_activate trace s slot)
  then show ?case by (cases "proven trace") (simp add: activate_slot_def readiness_part_def readiness_of_def)
next
  case (observer_invalidate trace s)
  then show ?case by (cases "proven trace") (simp add: readiness_of_def)
next
  case (observer_family trace s s' p)
  then show ?case using family_frame [of s p] by (cases "proven trace") (auto simp: logged_def readiness_of_def split: if_splits)
next
  case (observer_select trace s s' ev mk es p n a running load mission switch)
  then show ?case using select_candidate_frame [of s ev mk es p n a running load mission switch]
    by (cases "proven trace") (auto simp: logged_def readiness_of_def split: if_splits)
next
  case (observer_quiet trace s s')
  then show ?case by (cases "proven trace") (simp add: quiet_frame)
qed

lemma continued_candidate:
  assumes "cd_action (snd (select_candidate s ev mk es p n a running load mission switch)) = ''continue''"
  shows "running \<and> sr_authoritative (so_readiness s) \<and> sr_slot (so_readiness s) = sn_slot (so_selection s) \<and>
    sr_load (so_readiness s) = load \<and> a \<noteq> None \<and> \<not> newer_unproven n a"
  using assms by (auto simp: select_candidate_def Let_def continue_active_def split: if_splits option.splits)

text \<open>A save slot counts as proven only from an acceptance that still stands: over any order of the
  observer's operations, an authoritative proof - and every decision to go on with the active save -
  has the slot of the last accepted or activated proof after the last invalidation, under a lease
  also its load, and the decision is taken only while the game runs and no newer save is unproven.\<close>

theorem proof_needs_acceptance:
  assumes "observer_run trace s"
  shows "(has_authoritative_proof s lease loaded \<longrightarrow>
      (\<exists>slot. fst (proven trace) = Some slot \<and> sn_slot (so_selection s) \<in> {None, Some slot} \<and> (lease \<longrightarrow> snd (proven trace) = loaded))) \<and>
    (cd_action (snd (select_candidate s ev mk es p n a running load mission switch)) = ''continue'' \<longrightarrow>
      running \<and> \<not> newer_unproven n a \<and> fst (proven trace) = sn_slot (so_selection s) \<and> fst (proven trace) \<noteq> None \<and> snd (proven trace) = load)"
proof -
  have part: "sr_authoritative (so_readiness s) \<longleftrightarrow> fst (proven trace) \<noteq> None" "sr_slot (so_readiness s) = fst (proven trace)"
    "sr_load (so_readiness s) = snd (proven trace)"
    using observer_run_readiness [OF assms] by (auto simp: readiness_part_def readiness_of_def split: prod.splits)
  show ?thesis
  proof (intro conjI impI)
    assume "has_authoritative_proof s lease loaded"
    then show "\<exists>slot. fst (proven trace) = Some slot \<and> sn_slot (so_selection s) \<in> {None, Some slot} \<and> (lease \<longrightarrow> snd (proven trace) = loaded)"
      by (auto simp: has_authoritative_proof_def Let_def part split: if_splits option.splits)
  qed (use continued_candidate [of s ev mk es p n a running load mission switch] part in auto)
qed

section \<open>Witnesses\<close>

theorem pending_edges_exact_witness:
  "\<exists>b. lookup_observer (baseline_run [(''k'', ''m'', [(''x'', False), (''y'', True)], [], []),
       (''k'', ''m'', [(''x'', True), (''y'', True)], [], [])]) ''k'' ''m'' = Some b \<and> set (bo_pending b) = {''x''}"
proof -
  let ?evs = "[(''k'', ''m'', [(''x'', False), (''y'', True)], [], []), (''k'', ''m'', [(''x'', True), (''y'', True)], [], [])] :: baseline_event list"
  have "{k. unacknowledged (rev (history_of ''k'' ''m'' ?evs)) k} = {''x''}"
    by (auto simp: history_of_def raised_def recovered_def split: if_splits)
  with pending_edges_exact [of ?evs "''k''" "''m''"] show ?thesis by (simp add: history_of_def)
qed

theorem proof_needs_acceptance_witness:
  "\<exists>s. observer_run [Accepted ''GAME-AUTOSAVE0'' (Some 1)] s \<and> has_authoritative_proof s True (Some 1) \<and>
     snd (proven [Accepted ''GAME-AUTOSAVE0'' (Some 1)]) = Some 1"
proof -
  let ?s = "accept_proof new_save_observer ''GAME-AUTOSAVE0'' (Some 1) (Some 1)"
  have run: "observer_run [Accepted ''GAME-AUTOSAVE0'' (Some 1)] ?s"
    using observer_accept [OF observer_start, of "''GAME-AUTOSAVE0''" "Some 1" "Some 1"] by simp
  have "has_authoritative_proof ?s True (Some 1)"
    by (simp add: has_authoritative_proof_def accept_proof_def new_save_observer_def)
  with proof_needs_acceptance [OF run] run show ?thesis by blast
qed

end
