(* ===== verification/Save_Checks.thy ===== *)
theory Save_Checks
  imports Save_Observer
begin

text \<open>
  The checks that the save proves, \<open>doom_eap/runtime/save_checks.py\<close>, with the adapter to the
  baselines, \<open>doom_eap/runtime/save_check_observation.py\<close>, the completeness of a record of
  \<open>doom_eap/contracts/save_observation.py\<close> and the aggregates of
  \<open>doom_eap/contracts/challenge_registry.py\<close>.

  Registry entries and decoded records are typed. A coroutine is split at its await; the outcome of
  \<open>persist\<close> is an argument. Diagnostics other than the remembered records are left out.
\<close>

section \<open>Records and entries\<close>

record unlockable_record =
  ur_rules :: int
  ur_statname :: string
  ur_count :: int
  ur_duration :: int
  ur_satisfied :: bool
  ur_unlocked :: bool

record check_entry =
  ce_location :: int
  ce_kind :: string
  ce_unlockable :: string
  ce_expected :: unlockable_record
  ce_count :: "int option"
  ce_physical :: "int list"
  ce_required :: int

definition unlockable_record_complete :: "unlockable_record \<Rightarrow> check_entry \<Rightarrow> bool" where
  "unlockable_record_complete r e \<longleftrightarrow>
     ur_rules r = ur_rules (ce_expected e) \<and> ur_statname r = ur_statname (ce_expected e) \<and>
     (case ce_count e of None \<Rightarrow> True | Some n \<Rightarrow> n \<le> ur_count r) \<and>
     ur_duration r = ur_duration (ce_expected e) \<and> ur_satisfied r = ur_satisfied (ce_expected e) \<and>
     ur_unlocked r = ur_unlocked (ce_expected e)"

definition record_value :: "unlockable_record \<Rightarrow> pyval" where
  "record_value r = PList [PInt (ur_rules r), PStr (ur_statname r), PInt (ur_count r), PInt (ur_duration r),
     PBool (ur_satisfied r), PBool (ur_unlocked r)]"

record aggregate =
  ag_location :: int
  ag_authority :: string
  ag_children :: "int list"
  ag_required :: int
  ag_complete :: int

definition aggregate_ready :: "aggregate \<Rightarrow> int set \<Rightarrow> int set \<Rightarrow> bool res" where
  "aggregate_ready a checked server =
     (if ag_authority a \<noteq> ''server_checked_locations'' then Inl (ValueError ''aggregate authority must be server_checked_locations'')
      else if ag_children a = [] \<or> ag_required a \<noteq> int (card (set (ag_children a)))
      then Inl (ValueError ''aggregate requires every authored child'')
      else let children = set (ag_children a) \<inter> server
           in Inr (if children = {} then ag_complete a \<in> server \<and> ag_complete a \<in> checked else children \<subseteq> checked))"

section \<open>Observation\<close>

record save_check_binding =
  sb_identity :: string
  sb_team :: int
  sb_slot :: int
  sb_revision :: string
  sb_checked :: "int set"
  sb_item_ready :: bool
  sb_persist :: bool

type_synonym decoded = "(string \<times> unlockable_record) list"

definition completion_states :: "decoded \<Rightarrow> (string \<times> check_entry) list \<Rightarrow> (string \<times> bool) list" where
  "completion_states records entries =
     map (\<lambda>(u, e). (u, case map_of records u of None \<Rightarrow> False | Some r \<Rightarrow> unlockable_record_complete r e)) entries"

text \<open>\<open>SaveCheckObservations.observe_edges\<close>: the pending edges, or the exception of \<open>persist\<close>.\<close>

definition observe_check_edges :: "save_observer \<Rightarrow> save_check_binding \<Rightarrow> string \<Rightarrow> (string \<times> bool) list \<Rightarrow> (string \<times> check_entry) list
    \<Rightarrow> string \<Rightarrow> string list \<Rightarrow> unit res \<Rightarrow> save_observer \<times> string list res" where
  "observe_check_edges observer scope observer_key records entries slot_directory first_sample persisted =
     (if \<not> sb_item_ready scope then (observer, Inr [])
      else
       let acknowledged = map fst (filter (\<lambda>(u, e). ce_location e \<in> sb_checked scope) entries)
       in case observe_edges observer (sb_identity scope) (sb_team scope) (sb_slot scope) (sb_revision scope) slot_directory observer_key
            (records, acknowledged, first_sample) of
          (observer', pending_edges, created, new_edges) \<Rightarrow>
            (observer', if sb_persist scope then bind_res persisted (\<lambda>_. Inr pending_edges) else Inr pending_edges))"

record save_checks =
  sc_mastery_entries :: "(string \<times> check_entry) list"
  sc_challenge_entries :: "(string \<times> check_entry) list"
  sc_challenge_maps :: "(string \<times> string) list"
  sc_aggregates :: "aggregate list"
  sc_masteries :: "(string \<times> bool) list"
  sc_challenges :: "(string \<times> bool) list"
  sc_mastery_warned :: "int set"
  sc_challenge_warned :: "int set"
  sc_generation :: nat

definition new_save_checks :: "(string \<times> check_entry) list \<Rightarrow> (string \<times> check_entry) list \<Rightarrow> (string \<times> string) list \<Rightarrow> aggregate list \<Rightarrow> save_checks" where
  "new_save_checks masteries challenges maps aggregates = \<lparr>sc_mastery_entries = masteries, sc_challenge_entries = challenges,
     sc_challenge_maps = maps, sc_aggregates = aggregates, sc_masteries = [], sc_challenges = [], sc_mastery_warned = {},
     sc_challenge_warned = {}, sc_generation = 0\<rparr>"

definition invalidate_checks :: "save_checks \<Rightarrow> save_checks" where
  "invalidate_checks s = s\<lparr>sc_generation := sc_generation s + 1\<rparr>"

definition reset_observations :: "save_checks \<Rightarrow> bool \<Rightarrow> save_checks" where
  "reset_observations s populate =
     s\<lparr>sc_masteries := (if populate then map (\<lambda>(u, e). (u, False)) (sc_mastery_entries s) else []),
       sc_challenges := (if populate then map (\<lambda>(u, e). (u, False)) (sc_challenge_entries s) else [])\<rparr>"

definition bind_checks :: "save_checks \<Rightarrow> (string \<times> check_entry) list option \<Rightarrow> save_checks" where
  "bind_checks s masteries =
     reset_observations (invalidate_checks (case masteries of None \<Rightarrow> s | Some m \<Rightarrow> s\<lparr>sc_mastery_entries := m\<rparr>)) False"

text \<open>\<open>d.setdefault(k, False)\<close> for every entry, and the loop over the records.\<close>

definition with_defaults :: "(string \<times> check_entry) list \<Rightarrow> (string \<times> bool) list \<Rightarrow> (string \<times> bool) list" where
  "with_defaults entries flags = foldl (\<lambda>d (u, e). if map_of d u = None then AList.update u False d else d) flags entries"

fun record_loop :: "string \<Rightarrow> string \<Rightarrow> (string \<times> check_entry) list \<Rightarrow> string list \<Rightarrow> decoded \<Rightarrow> save_observer \<Rightarrow> (string \<times> bool) list
    \<Rightarrow> save_observer \<times> (string \<times> bool) list" where
  "record_loop kind slot_directory entries pending_edges [] observer flags = (observer, flags)"
| "record_loop kind slot_directory entries pending_edges ((u, r) # records) observer flags =
     (if map_of entries u = None then record_loop kind slot_directory entries pending_edges records observer flags
      else record_loop kind slot_directory entries pending_edges records
        (fst (observe_record observer kind slot_directory u (record_value r)))
        (if u \<in> set pending_edges then AList.update u True flags else flags))"

definition observe_masteries :: "save_checks \<Rightarrow> save_observer \<Rightarrow> save_check_binding \<Rightarrow> decoded \<Rightarrow> string \<Rightarrow> bool \<Rightarrow> unit res
    \<Rightarrow> save_checks \<times> save_observer \<times> unit res" where
  "observe_masteries s observer scope records slot_directory authoritative persisted =
     (if \<not> authoritative then (s, observer, Inr ())
      else case observe_check_edges observer scope ''weapon_masteries'' (completion_states records (sc_mastery_entries s))
          (sc_mastery_entries s) slot_directory [] persisted of
        (observer1, Inl e) \<Rightarrow> (s, observer1, Inl e)
      | (observer1, Inr pending_edges) \<Rightarrow>
         (case record_loop ''mastery'' slot_directory (sc_mastery_entries s) pending_edges records observer1
             (with_defaults (sc_mastery_entries s) (sc_masteries s)) of
            (observer2, flags) \<Rightarrow> (s\<lparr>sc_masteries := flags\<rparr>, observer2, Inr ())))"

definition save_kind :: "check_entry \<Rightarrow> bool" where
  "save_kind e \<longleftrightarrow> ce_kind e \<in> {''unlockable_record'', ''stat_threshold''}"

definition challenge_observer_key :: "string option \<Rightarrow> int option \<Rightarrow> string" where
  "challenge_observer_key mission_map mission_epoch =
     (case present_text mission_map of
        None \<Rightarrow> ''mission_challenges''
      | Some m \<Rightarrow> ''mission_challenges:mission_select:'' @ (case mission_epoch of None \<Rightarrow> ''None'' | Some e \<Rightarrow> str_int e) @ '':'' @ m)"

definition observed_challenges :: "save_checks \<Rightarrow> string option \<Rightarrow> (string \<times> check_entry) list" where
  "observed_challenges s mission_map =
     filter (\<lambda>(u, e). save_kind e \<and> (case present_text mission_map of None \<Rightarrow> True | Some m \<Rightarrow> map_of (sc_challenge_maps s) u = Some m))
       (sc_challenge_entries s)"

definition observe_challenges :: "save_checks \<Rightarrow> save_observer \<Rightarrow> save_check_binding \<Rightarrow> decoded \<Rightarrow> string \<Rightarrow> string option \<Rightarrow> int option \<Rightarrow> bool
    \<Rightarrow> int set \<Rightarrow> unit res \<Rightarrow> save_checks \<times> save_observer \<times> unit res" where
  "observe_challenges s observer scope records slot_directory mission_map mission_epoch authoritative first_locations persisted =
     (if \<not> authoritative then (s, observer, Inr ())
      else
       let entries = observed_challenges s mission_map
       in case observe_check_edges observer scope (challenge_observer_key mission_map mission_epoch) (completion_states records entries) entries
            slot_directory (map fst (filter (\<lambda>(u, e). ce_location e \<in> first_locations) entries)) persisted of
          (observer1, Inl e) \<Rightarrow> (s, observer1, Inl e)
        | (observer1, Inr pending_edges) \<Rightarrow>
           (case record_loop ''challenge'' slot_directory (filter (\<lambda>(u, e). save_kind e) (sc_challenge_entries s)) pending_edges records
               observer1 (sc_challenges s) of
              (observer2, flags) \<Rightarrow> (s\<lparr>sc_challenges := flags\<rparr>, observer2, Inr ())))"

section \<open>Checks\<close>

record check_readiness =
  cr_item_ready :: bool
  cr_authoritative :: bool

text \<open>A check either ends or sends its location in the present generation.\<close>

datatype check_step = No_check | Send_location int nat

definition begin_mastery :: "save_checks \<Rightarrow> check_entry \<Rightarrow> check_readiness \<Rightarrow> check_facts \<Rightarrow> save_checks \<times> check_step" where
  "begin_mastery s e readiness facts =
     (if \<not> cr_item_ready readiness \<or> \<not> cr_authoritative readiness \<or> map_of (sc_masteries s) (ce_unlockable e) \<noteq> Some True
         \<or> ce_location e \<in> cf_checked facts \<or> ce_location e \<in> cf_submitted facts then (s, No_check)
      else if ce_location e \<notin> cf_server facts then (s\<lparr>sc_mastery_warned := insert (ce_location e) (sc_mastery_warned s)\<rparr>, No_check)
      else if \<not> cf_connected facts then (s, No_check)
      else (s, Send_location (ce_location e) (sc_generation s)))"

text \<open>After the await: the location to mark as submitted.\<close>

definition finish_mastery :: "save_checks \<Rightarrow> check_entry \<Rightarrow> nat \<Rightarrow> exn option \<Rightarrow> int option" where
  "finish_mastery s e generation outcome =
     (if outcome \<noteq> None \<or> generation \<noteq> sc_generation s then None else Some (ce_location e))"

definition challenge_shown :: "save_checks \<Rightarrow> check_entry \<Rightarrow> check_facts \<Rightarrow> bool" where
  "challenge_shown s e facts =
     (if ce_kind e = ''physical_event_equivalent''
      then ce_required e \<le> int (card (set (ce_physical e) \<inter> cf_checked facts))
      else map_of (sc_challenges s) (ce_unlockable e) = Some True)"

definition begin_challenge :: "save_checks \<Rightarrow> check_entry \<Rightarrow> check_readiness \<Rightarrow> check_facts \<Rightarrow> save_checks \<times> check_step" where
  "begin_challenge s e readiness facts =
     (if \<not> cr_item_ready readiness \<or> (ce_kind e \<noteq> ''physical_event_equivalent'' \<and> \<not> cr_authoritative readiness)
         \<or> \<not> challenge_shown s e facts \<or> ce_location e \<in> cf_checked facts then (s, No_check)
      else if ce_location e \<notin> cf_server facts then (s\<lparr>sc_challenge_warned := insert (ce_location e) (sc_challenge_warned s)\<rparr>, No_check)
      else if \<not> cf_connected facts then (s, No_check)
      else (s, Send_location (ce_location e) (sc_generation s)))"

text \<open>\<open>check_aggregates\<close>: the generation seen after each await is an argument; a changed one ends the loop.\<close>

fun aggregate_loop :: "nat \<Rightarrow> check_facts \<Rightarrow> aggregate list \<Rightarrow> nat list \<Rightarrow> int set \<Rightarrow> int set \<times> int list \<times> unit res" where
  "aggregate_loop generation facts [] awaits warned = (warned, [], Inr ())"
| "aggregate_loop generation facts (a # as) awaits warned =
     (case aggregate_ready a (cf_checked facts) (cf_server facts) of
        Inl e \<Rightarrow> (warned, [], Inl e)
      | Inr ready \<Rightarrow>
         (if \<not> ready \<or> ag_location a \<in> cf_checked facts then aggregate_loop generation facts as awaits warned
          else if ag_location a \<notin> cf_server facts then aggregate_loop generation facts as awaits (insert (ag_location a) warned)
          else if \<not> cf_connected facts then aggregate_loop generation facts as awaits warned
          else (case awaits of
              [] \<Rightarrow> (warned, [ag_location a], Inr ())
            | g # later \<Rightarrow>
               (if g \<noteq> generation then (warned, [ag_location a], Inr ())
                else case aggregate_loop generation facts as later warned of
                  (warned', sent, r) \<Rightarrow> (warned', ag_location a # sent, r)))))"

definition check_aggregates :: "save_checks \<Rightarrow> check_readiness \<Rightarrow> check_facts \<Rightarrow> nat list \<Rightarrow> save_checks \<times> int list \<times> unit res" where
  "check_aggregates s readiness facts awaits =
     (if \<not> cr_item_ready readiness then (s, [], Inr ())
      else case aggregate_loop (sc_generation s) facts (sc_aggregates s) awaits (sc_challenge_warned s) of
        (warned, sent, r) \<Rightarrow> (s\<lparr>sc_challenge_warned := warned\<rparr>, sent, r))"

section \<open>Masteries are sent for edges only\<close>

definition scope_key :: "save_observer \<Rightarrow> save_check_binding \<Rightarrow> string \<Rightarrow> string" where
  "scope_key observer scope slot_directory =
     binding_key (sb_identity scope @ '':'' @ so_provider observer) (sb_team scope) (sb_slot scope) slot_directory (sb_revision scope)"

definition acknowledged_keys :: "save_check_binding \<Rightarrow> (string \<times> check_entry) list \<Rightarrow> string list" where
  "acknowledged_keys scope entries = map fst (filter (\<lambda>(u, e). ce_location e \<in> sb_checked scope) entries)"

definition mastery_event :: "save_checks \<Rightarrow> save_observer \<Rightarrow> save_check_binding \<Rightarrow> decoded \<Rightarrow> string \<Rightarrow> baseline_event" where
  "mastery_event s observer scope records slot_directory = (scope_key observer scope slot_directory, ''weapon_masteries'',
     completion_states records (sc_mastery_entries s), acknowledged_keys scope (sc_mastery_entries s), [])"

definition challenge_event :: "save_checks \<Rightarrow> save_observer \<Rightarrow> save_check_binding \<Rightarrow> decoded \<Rightarrow> string \<Rightarrow> string option \<Rightarrow> int option \<Rightarrow> int set
    \<Rightarrow> baseline_event" where
  "challenge_event s observer scope records slot_directory mission_map mission_epoch first_locations =
     (let entries = observed_challenges s mission_map
      in (scope_key observer scope slot_directory, challenge_observer_key mission_map mission_epoch, completion_states records entries,
          acknowledged_keys scope entries, map fst (filter (\<lambda>(u, e). ce_location e \<in> first_locations) entries)))"

definition logged_when :: "bool \<Rightarrow> save_check_binding \<Rightarrow> baseline_event \<Rightarrow> baseline_event list" where
  "logged_when authoritative scope ev = (if authoritative \<and> sb_item_ready scope then [ev] else [])"

inductive checks_run :: "baseline_event list \<Rightarrow> save_checks \<Rightarrow> save_observer \<Rightarrow> bool" where
  checks_start: "so_baselines observer = [] \<Longrightarrow> sc_masteries s = [] \<Longrightarrow> checks_run [] s observer"
| checks_masteries: "checks_run evs s observer \<Longrightarrow> distinct (map fst (sc_mastery_entries s)) \<Longrightarrow>
    observe_masteries s observer scope records slot_directory authoritative persisted = (s', observer', r) \<Longrightarrow>
    checks_run (evs @ logged_when authoritative scope (mastery_event s observer scope records slot_directory)) s' observer'"
| checks_challenges: "checks_run evs s observer \<Longrightarrow> distinct (map fst (sc_challenge_entries s)) \<Longrightarrow>
    observe_challenges s observer scope records slot_directory mission_map mission_epoch authoritative first_locations persisted =
      (s', observer', r) \<Longrightarrow>
    checks_run (evs @ logged_when authoritative scope
      (challenge_event s observer scope records slot_directory mission_map mission_epoch first_locations)) s' observer'"
| checks_mastery: "checks_run evs s observer \<Longrightarrow> checks_run evs (fst (begin_mastery s e readiness facts)) observer"
| checks_challenge: "checks_run evs s observer \<Longrightarrow> checks_run evs (fst (begin_challenge s e readiness facts)) observer"
| checks_aggregates: "checks_run evs s observer \<Longrightarrow> checks_run evs (fst (check_aggregates s readiness facts awaits)) observer"
| checks_invalidate: "checks_run evs s observer \<Longrightarrow> checks_run evs (invalidate_checks s) observer"
| checks_reset: "checks_run evs s observer \<Longrightarrow> checks_run evs (reset_observations s populate) observer"
| checks_bind: "checks_run evs s observer \<Longrightarrow> checks_run evs (bind_checks s masteries) observer"
| checks_observer: "checks_run evs s observer \<Longrightarrow> so_baselines observer' = so_baselines observer \<Longrightarrow> checks_run evs s observer'"

definition mastered :: "baseline_event list \<Rightarrow> string \<Rightarrow> bool" where
  "mastered evs u \<longleftrightarrow> (\<exists>pre key sample post. evs = pre @ (key, ''weapon_masteries'', sample) # post \<and>
     map_of (fst sample) u = Some True \<and> last_value (rev (history_of key ''weapon_masteries'' pre)) u = Some False)"

lemma observe_pending: "fst (snd (observe_baseline store k ob sample)) = bo_pending (step_observer (lookup_observer store k ob) sample)"
  by (auto simp: observe_baseline_def lookup_observer_def step_observer_def first_observer_def Let_def split: option.split prod.split)

lemma unacknowledged_raised: "unacknowledged hist u \<Longrightarrow> \<exists>newer sample older. hist = newer @ sample # older \<and> raised older sample u"
proof (induction hist)
  case (Cons sample older)
  then show ?case by (cases "raised older sample u") (fastforce, metis append_Cons unacknowledged.simps(2))
qed simp

lemma history_of_snoc [simp]:
  "history_of k ob (evs @ [(k', ob', sample)]) = (if k' = k \<and> ob' = ob then history_of k ob evs @ [sample] else history_of k ob evs)"
  by (simp add: history_of_def)

lemma history_of_split:
  "rev (history_of k ob evs) = newer @ sample # older \<Longrightarrow>
     \<exists>pre post. evs = pre @ (k, ob, sample) # post \<and> rev (history_of k ob pre) = older"
proof (induction evs arbitrary: newer rule: rev_induct)
  case Nil
  then show ?case by (simp add: history_of_def)
next
  case (snoc e evs)
  obtain k' ob' sm where e: "e = (k', ob', sm)" by (cases e)
  show ?case
  proof (cases "k' = k \<and> ob' = ob")
    case True
    then have split: "sm # rev (history_of k ob evs) = newer @ sample # older" using snoc.prems by (simp add: e)
    show ?thesis
    proof (cases newer)
      case Nil
      with split True show ?thesis by (auto simp: e)
    next
      case (Cons x newer')
      with split have "rev (history_of k ob evs) = newer' @ sample # older" by simp
      from snoc.IH [OF this] show ?thesis by fastforce
    qed
  next
    case False
    then have "rev (history_of k ob evs) = newer @ sample # older" using snoc.prems by (auto simp: e)
    from snoc.IH [OF this] show ?thesis by fastforce
  qed
qed

definition baseline_event_ok :: "baseline_event \<Rightarrow> bool" where
  "baseline_event_ok = (\<lambda>(key, observer_key, sample). sample_ok sample \<and> (observer_key = ''weapon_masteries'' \<longrightarrow> snd (snd sample) = []))"

lemma history_event_ok:
  "list_all baseline_event_ok evs \<Longrightarrow> sample \<in> set (history_of k ob evs) \<Longrightarrow> sample_ok sample \<and> (ob = ''weapon_masteries'' \<longrightarrow> snd (snd sample) = [])"
  by (fastforce simp: history_of_def list_all_iff baseline_event_ok_def)

lemma pending_mastered:
  assumes ok: "list_all baseline_event_ok (evs @ [(key, ''weapon_masteries'', sample)])"
    and pending_key: "u \<in> set (bo_pending (step_observer (lookup_observer (baseline_run evs) key ''weapon_masteries'') sample))"
  shows "mastered (evs @ [(key, ''weapon_masteries'', sample)]) u"
proof -
  let ?evs = "evs @ [(key, ''weapon_masteries'', sample)]"
  let ?hist = "rev (history_of key ''weapon_masteries'' ?evs)"
  have "list_all sample_ok ?hist" using history_event_ok [OF ok] by (auto simp: list_all_iff simp del: history_of_snoc)
  moreover have "observer_of ?hist = Some (step_observer (lookup_observer (baseline_run evs) key ''weapon_masteries'') sample)"
    by (simp add: lookup_run)
  ultimately have "unacknowledged ?hist u" using observer_of_pending pending_key by blast
  then obtain newer sm older where split: "?hist = newer @ sm # older" and raise: "raised older sm u"
    using unacknowledged_raised by blast
  from history_of_split [OF split] obtain pre post where evs: "?evs = pre @ (key, ''weapon_masteries'', sm) # post"
    and older: "rev (history_of key ''weapon_masteries'' pre) = older" by blast
  have "(key, ''weapon_masteries'', sm) \<in> set ?evs" by (simp only: evs) simp
  then have "snd (snd sm) = []" using ok unfolding list_all_iff baseline_event_ok_def by blast
  then have "recovered sm = []" by (cases sm) (simp add: recovered_def)
  with raise have "map_of (fst sm) u = Some True \<and> last_value older u = Some False" by (simp add: raised_def)
  with evs older show ?thesis unfolding mastered_def by blast
qed

lemma mastered_append: "mastered evs u \<Longrightarrow> mastered (evs @ more_evs) u"
  unfolding mastered_def by fastforce

lemma baseline_run_snoc:
  "baseline_run (evs @ [(key, ob, sample)]) = fst (observe_baseline (baseline_run evs) key ob sample)"
  by (simp add: baseline_run_def)

lemma check_edges_result:
  assumes "observe_check_edges observer scope ob records entries slot_directory first_sample persisted = (observer', r)"
  shows "(\<not> sb_item_ready scope \<and> observer' = observer \<and> r = Inr []) \<or>
    (sb_item_ready scope \<and>
     so_baselines observer' = fst (observe_baseline (so_baselines observer) (scope_key observer scope slot_directory) ob
       (records, acknowledged_keys scope entries, first_sample)) \<and>
     (\<forall>p. r = Inr p \<longrightarrow> p = bo_pending (step_observer (lookup_observer (so_baselines observer) (scope_key observer scope slot_directory) ob)
       (records, acknowledged_keys scope entries, first_sample))))"
  using assms
  by (auto simp: observe_check_edges_def observe_edges_def Let_def scope_key_def acknowledged_keys_def observe_pending [symmetric]
      split: if_splits prod.splits)

lemma record_loop_result:
  "record_loop kind slot entries pending_edges records observer flags = (observer', flags') \<Longrightarrow>
     so_baselines observer' = so_baselines observer \<and>
     (map_of flags' u = Some True \<longrightarrow> map_of flags u = Some True \<or> u \<in> set pending_edges)"
proof (induction kind slot entries pending_edges records observer flags rule: record_loop.induct)
  case (2 kind slot entries pending_edges u' r records observer flags)
  have "so_baselines (fst (observe_record observer kind slot u' (record_value r))) = so_baselines observer"
    by (simp add: observe_record_def)
  with 2 show ?case by (auto simp: map_of_update split: if_splits)
qed simp

lemma with_defaults_True: "map_of (with_defaults entries flags) u = Some True \<longleftrightarrow> map_of flags u = Some True"
  unfolding with_defaults_def
proof (induction entries arbitrary: flags)
  case (Cons x xs)
  obtain k e where x: "x = (k, e)" by (cases x)
  have "map_of (if map_of flags k = None then AList.update k False flags else flags) u = Some True \<longleftrightarrow> map_of flags u = Some True"
    by (simp add: map_of_update)
  with Cons.IH [of "if map_of flags k = None then AList.update k False flags else flags"] show ?case by (simp add: x del: if_split)
qed simp

lemma completion_states_keys [simp]: "map fst (completion_states records entries) = map fst entries"
  by (simp add: completion_states_def case_prod_beta)

definition checks_inv :: "baseline_event list \<Rightarrow> save_checks \<Rightarrow> save_observer \<Rightarrow> bool" where
  "checks_inv evs s observer \<longleftrightarrow> so_baselines observer = baseline_run evs \<and> list_all baseline_event_ok evs \<and>
     (\<forall>u. map_of (sc_masteries s) u = Some True \<longrightarrow> mastered evs u)"

lemma checks_inv_masteries:
  assumes inv: "checks_inv evs s observer" and keys: "distinct (map fst (sc_mastery_entries s))"
    and step: "observe_masteries s observer scope records slot_directory authoritative persisted = (s', observer', r)"
  shows "checks_inv (evs @ logged_when authoritative scope (mastery_event s observer scope records slot_directory)) s' observer'"
proof (cases "authoritative \<and> sb_item_ready scope")
  case False
  have "so_baselines observer' = so_baselines observer \<and> (map_of (sc_masteries s') u = Some True \<longrightarrow> map_of (sc_masteries s) u = Some True)" for u
    using step False
    by (auto simp: observe_masteries_def observe_check_edges_def with_defaults_True dest!: record_loop_result [of _ _ _ _ _ _ _ _ _ u]
        split: if_splits prod.splits)
  with inv False show ?thesis by (auto simp: logged_when_def checks_inv_def)
next
  case True
  let ?ev = "mastery_event s observer scope records slot_directory"
  let ?key = "scope_key observer scope slot_directory" 
    and ?sm = "(completion_states records (sc_mastery_entries s), acknowledged_keys scope (sc_mastery_entries s), [] :: string list)"
  have ev: "?ev = (?key, ''weapon_masteries'', ?sm)" by (simp add: mastery_event_def)
  have ok: "list_all baseline_event_ok (evs @ [?ev])"
    using inv keys by (simp add: checks_inv_def baseline_event_ok_def mastery_event_def sample_ok_def)
  obtain observer1 answer where edges: "observe_check_edges observer scope ''weapon_masteries'' (completion_states records (sc_mastery_entries s))
      (sc_mastery_entries s) slot_directory [] persisted = (observer1, answer)" by fastforce
  have store: "so_baselines observer1 = baseline_run (evs @ [?ev])" and
    answer: "\<And>p. answer = Inr p \<Longrightarrow> p = bo_pending (step_observer (lookup_observer (baseline_run evs) ?key ''weapon_masteries'') ?sm)"
    using check_edges_result [OF edges] True inv by (simp_all add: checks_inv_def mastery_event_def baseline_run_snoc)
  have kept: "mastered (evs @ [?ev]) u" if "map_of (sc_masteries s) u = Some True" for u
    using that inv by (simp add: checks_inv_def mastered_append)
  have raised_now: "mastered (evs @ [?ev]) u"
    if "u \<in> set (bo_pending (step_observer (lookup_observer (baseline_run evs) ?key ''weapon_masteries'') ?sm))" for u
    using pending_mastered [OF ok [unfolded ev] that] by (simp only: ev [symmetric])
  have "so_baselines observer' = so_baselines observer1 \<and> (map_of (sc_masteries s') u = Some True \<longrightarrow> mastered (evs @ [?ev]) u)" for u
    using step True edges kept [of u] raised_now [of u] answer
    by (auto simp: observe_masteries_def with_defaults_True dest!: record_loop_result [of _ _ _ _ _ _ _ _ _ u]
        split: sum.splits prod.splits)
  with store ok True show ?thesis by (simp add: checks_inv_def logged_when_def)
qed

lemma challenge_observer_key_neq: "challenge_observer_key mission_map mission_epoch \<noteq> ''weapon_masteries''"
  by (simp add: challenge_observer_key_def split: option.split)

lemma checks_inv_challenges:
  assumes inv: "checks_inv evs s observer" and keys: "distinct (map fst (sc_challenge_entries s))"
    and step: "observe_challenges s observer scope records slot_directory mission_map mission_epoch authoritative first_locations persisted =
      (s', observer', r)"
  shows "checks_inv (evs @ logged_when authoritative scope
    (challenge_event s observer scope records slot_directory mission_map mission_epoch first_locations)) s' observer'"
proof -
  let ?ev = "challenge_event s observer scope records slot_directory mission_map mission_epoch first_locations"
  let ?entries = "observed_challenges s mission_map"
  have same: "sc_masteries s' = sc_masteries s"
    using step by (auto simp: observe_challenges_def Let_def split: if_splits sum.splits prod.splits)
  obtain observer1 answer where edges: "observe_check_edges observer scope (challenge_observer_key mission_map mission_epoch)
      (completion_states records ?entries) ?entries slot_directory
      (map fst (filter (\<lambda>(u, e). ce_location e \<in> first_locations) ?entries)) persisted = (observer1, answer)" by fastforce
  have "distinct (map fst ?entries)" using keys by (auto simp: observed_challenges_def intro: distinct_map_filter)
  then have ok: "baseline_event_ok ?ev"
    by (simp add: challenge_event_def baseline_event_ok_def sample_ok_def Let_def challenge_observer_key_neq)
  have "so_baselines observer1 = baseline_run (evs @ [?ev])" if "sb_item_ready scope"
    using check_edges_result [OF edges] that inv by (simp add: checks_inv_def challenge_event_def Let_def baseline_run_snoc)
  moreover have "observer1 = observer" if "\<not> sb_item_ready scope"
    using check_edges_result [OF edges] that by simp
  moreover have "so_baselines observer' = (if authoritative then so_baselines observer1 else so_baselines observer)"
    using step edges
    by (auto simp: observe_challenges_def Let_def dest!: record_loop_result split: if_splits sum.splits prod.splits)
  ultimately have "so_baselines observer' = baseline_run (evs @ logged_when authoritative scope ?ev)"
    using inv by (auto simp: logged_when_def checks_inv_def)
  with inv ok same show ?thesis by (auto simp: checks_inv_def logged_when_def mastered_append)
qed

lemma check_frames [simp]:
  "sc_masteries (fst (begin_mastery s e readiness facts)) = sc_masteries s"
  "sc_masteries (fst (begin_challenge s e readiness facts)) = sc_masteries s"
  "sc_masteries (fst (check_aggregates s readiness facts awaits)) = sc_masteries s"
  "sc_masteries (invalidate_checks s) = sc_masteries s"
  by (simp_all add: begin_mastery_def begin_challenge_def check_aggregates_def invalidate_checks_def split: prod.split)

lemma reset_masteries: "map_of (sc_masteries (reset_observations s populate)) u \<noteq> Some True"
proof -
  have "(u, True) \<notin> set (map (\<lambda>(u, e). (u, False)) entries)" for entries :: "(string \<times> check_entry) list" by auto
  then show ?thesis by (auto simp: reset_observations_def simp del: set_map dest: map_of_SomeD)
qed

lemma checks_run_inv: "checks_run evs s observer \<Longrightarrow> checks_inv evs s observer"
proof (induction rule: checks_run.induct)
  case checks_start
  then show ?case by (simp add: checks_inv_def baseline_run_def)
next
  case checks_masteries
  from checks_inv_masteries [OF checks_masteries.IH checks_masteries.hyps(2,3)] show ?case .
next
  case checks_challenges
  from checks_inv_challenges [OF checks_challenges.IH checks_challenges.hyps(2,3)] show ?case .
qed (simp_all add: checks_inv_def reset_masteries bind_checks_def)

text \<open>A mastery location is sent only for an edge within one room and save slot: in any run of
  observations, checks, resets and rebinds, a mastery that is sent was seen complete in a sample of one
  baseline whose previous sight of it was incomplete, so a mastery the save brought along is never
  claimed, and it is sent only while unchecked, unsubmitted, in the slot and proven.\<close>

theorem mastery_needs_edge:
  assumes "checks_run evs s observer" "snd (begin_mastery s e readiness facts) = Send_location location generation"
  shows "(\<exists>pre key sample post. evs = pre @ (key, ''weapon_masteries'', sample) # post \<and>
      map_of (fst sample) (ce_unlockable e) = Some True \<and>
      last_value (rev (history_of key ''weapon_masteries'' pre)) (ce_unlockable e) = Some False) \<and>
    location = ce_location e \<and> cr_authoritative readiness \<and> location \<in> cf_server facts - cf_checked facts - cf_submitted facts"
proof -
  have "mastered evs (ce_unlockable e)"
    using checks_run_inv [OF assms(1)] assms(2) by (auto simp: checks_inv_def begin_mastery_def split: if_splits)
  then show ?thesis using assms(2) unfolding mastered_def by (simp add: begin_mastery_def split: if_splits)
qed

section \<open>Witness\<close>

definition mastery_unlock :: unlockable_record where
  "mastery_unlock = \<lparr>ur_rules = 1, ur_statname = ''kills'', ur_count = 30, ur_duration = 0, ur_satisfied = True, ur_unlocked = True\<rparr>"

definition sample_entry :: check_entry where
  "sample_entry = \<lparr>ce_location = 5, ce_kind = ''unlockable_record'', ce_unlockable = ''u'', ce_expected = mastery_unlock, ce_count = Some 25,
     ce_physical = [], ce_required = 1\<rparr>"

definition mastery_scope :: save_check_binding where
  "mastery_scope = \<lparr>sb_identity = ''room'', sb_team = 0, sb_slot = 1, sb_revision = ''r'', sb_checked = {}, sb_item_ready = True, sb_persist = True\<rparr>"

definition sample_checks :: save_checks where
  "sample_checks = new_save_checks [(''u'', sample_entry)] [] [] []"

lemma sample_observed:
  "\<exists>evs s observer. checks_run evs s observer \<and> map_of (sc_masteries s) ''u'' = Some True \<and> sc_generation s = 0"
proof -
  let ?o1 = "observe_masteries sample_checks new_save_observer mastery_scope [] ''GAME-AUTOSAVE0'' True (Inr ())"
  let ?o2 = "observe_masteries (fst ?o1) (fst (snd ?o1)) mastery_scope [(''u'', mastery_unlock)] ''GAME-AUTOSAVE0'' True (Inr ())"
  note defs = observe_masteries_def sample_checks_def new_save_checks_def observe_check_edges_def mastery_scope_def completion_states_def
    observe_edges_def new_save_observer_def observe_baseline_def Let_def recovered_def first_observer_def with_defaults_def
    sample_entry_def sorted_set_def
  have first: "fst ?o1 = sample_checks\<lparr>sc_masteries := [(''u'', False)]\<rparr>"
    by (simp add: defs)
  have second: "map_of (sc_masteries (fst ?o2)) ''u'' = Some True \<and> sc_generation (fst ?o2) = 0"
    by (simp add: defs unlockable_record_complete_def mastery_unlock_def next_observer_def observe_record_def)
  have start: "checks_run [] sample_checks new_save_observer"
    by (rule checks_start) (simp_all add: new_save_observer_def sample_checks_def new_save_checks_def)
  have "\<exists>evs. checks_run evs (fst ?o1) (fst (snd ?o1))"
    using checks_masteries [OF start, of mastery_scope "[]" "''GAME-AUTOSAVE0''" True "Inr ()" "fst ?o1" "fst (snd ?o1)" "snd (snd ?o1)"]
    by (auto simp: sample_checks_def new_save_checks_def)
  then obtain evs where evs: "checks_run evs (fst ?o1) (fst (snd ?o1))" ..
  have "\<exists>evs. checks_run evs (fst ?o2) (fst (snd ?o2))"
    using checks_masteries [OF evs, of mastery_scope "[(''u'', mastery_unlock)]" "''GAME-AUTOSAVE0''" True "Inr ()" "fst ?o2" "fst (snd ?o2)" "snd (snd ?o2)"] first
    by (auto simp: sample_checks_def new_save_checks_def)
  with second show ?thesis by blast
qed

theorem mastery_needs_edge_witness:
  "\<exists>evs s observer. checks_run evs s observer \<and>
     snd (begin_mastery s sample_entry \<lparr>cr_item_ready = True, cr_authoritative = True\<rparr>
       \<lparr>cf_checked = {}, cf_submitted = {}, cf_server = {5}, cf_ready = True, cf_connected = True\<rparr>) = Send_location 5 0 \<and>
     (\<exists>pre key sample post. evs = pre @ (key, ''weapon_masteries'', sample) # post \<and> map_of (fst sample) ''u'' = Some True)"
proof -
  obtain evs s observer where run: "checks_run evs s observer" and s: "map_of (sc_masteries s) ''u'' = Some True" "sc_generation s = 0"
    using sample_observed by blast
  have send: "snd (begin_mastery s sample_entry \<lparr>cr_item_ready = True, cr_authoritative = True\<rparr>
       \<lparr>cf_checked = {}, cf_submitted = {}, cf_server = {5}, cf_ready = True, cf_connected = True\<rparr>) = Send_location 5 0"
    by (simp add: begin_mastery_def sample_entry_def s)
  have "ce_unlockable sample_entry = ''u''" by (simp add: sample_entry_def)
  with mastery_needs_edge [OF run send] run send show ?thesis by fastforce
qed

end
