(* ===== verification/Save_Records.thy ===== *)
theory Save_Records
  imports Save_Checks
begin

text \<open>
  Decoding an unlockable record from decrypted save bytes, \<open>doom_eap/runtime/save_records.py\<close>. Bytes
  are characters, offsets natural numbers; \<open>find\<close> answers \<open>None\<close> for \<open>-1\<close>.
\<close>

section \<open>Reading\<close>

definition MASTERY_MANAGER :: string where "MASTERY_MANAGER = ''UnlockableManager_0_1_2''"
definition MASTERY_MANAGER_TYPE :: string where "MASTERY_MANAGER_TYPE = ''idUnlockableManager_2''"

definition starts_at :: "string \<Rightarrow> nat \<Rightarrow> string \<Rightarrow> bool" where
  "starts_at payload i field \<longleftrightarrow> take (length field) (drop i payload) = field"

definition find_bytes :: "string \<Rightarrow> string \<Rightarrow> nat \<Rightarrow> nat option" where
  "find_bytes payload field start =
     (case filter (\<lambda>i. starts_at payload i field) [start..<length payload + 1 - length field] of [] \<Rightarrow> None | i # more_hits \<Rightarrow> Some i)"

fun le_value :: "string \<Rightarrow> nat" where
  "le_value [] = 0"
| "le_value (c # cs) = of_char c + 256 * le_value cs"

definition read_serialized_uint :: "string \<Rightarrow> nat \<Rightarrow> (nat \<times> nat) res" where
  "read_serialized_uint payload i =
     (if i \<ge> length payload then Inl (ValueError ''metric value width is missing'')
      else let width = of_char (payload ! i) in
        if width < 1 \<or> width > 8 \<or> i + 1 + width > length payload then Inl (ValueError ''invalid metric value width'')
        else Inr (le_value (take width (drop (i + 1) payload)), i + 1 + width))"

definition read_structured_bool :: "string \<Rightarrow> nat \<Rightarrow> string \<Rightarrow> (bool \<times> nat) res" where
  "read_structured_bool payload i field =
     (if \<not> starts_at payload i field then Inl (ValueError ''unlockable record missing field'')
      else let j = i + length field in
        if j < length payload \<and> payload ! j = CHR 0x0B then Inr (False, j + 1)
        else if j < length payload \<and> payload ! j = CHR 0x0C then Inr (True, j + 1)
        else Inl (ValueError ''unlockable record has invalid field''))"

definition mastery_manager_type_offset :: "string \<Rightarrow> nat res" where
  "mastery_manager_type_offset payload =
     (case find_bytes payload MASTERY_MANAGER 0 of
        None \<Rightarrow> Inl (ValueError ''native unlockable manager is missing or ambiguous'')
      | Some m \<Rightarrow>
         (if find_bytes payload MASTERY_MANAGER (m + 1) \<noteq> None then Inl (ValueError ''native unlockable manager is missing or ambiguous'')
          else case find_bytes payload MASTERY_MANAGER_TYPE m of
            None \<Rightarrow> Inl (ValueError ''native unlockable manager type is missing or ambiguous'')
          | Some t \<Rightarrow>
             (if find_bytes payload MASTERY_MANAGER_TYPE (t + 1) \<noteq> None
              then Inl (ValueError ''native unlockable manager type is missing or ambiguous'')
              else Inr t)))"

definition rules_field :: string where "rules_field = [CHR 0x0E, CHR 0x0C] @ ''$numUnlockableRules''"
definition satisfied_field :: string where "satisfied_field = '' rule_0_satisfied''"
definition count_field :: string where "count_field = '' rule_0_statCount''"
definition duration_field :: string where "duration_field = ''&rule_0_statDuration''"
definition statname_field :: string where "statname_field = [CHR 0x1E] @ ''rule_0_statname'' @ [CHR 0x0A]"
definition unlocked_field :: string where "unlocked_field = ''(unlockableIsUnlocked''"

definition record_prefix :: "string \<Rightarrow> string" where
  "record_prefix unlockable = char_of (length unlockable * 2) # unlockable @ rules_field"

definition expect_field :: "string \<Rightarrow> nat \<Rightarrow> string \<Rightarrow> nat res" where
  "expect_field payload i field = (if starts_at payload i field then Inr (i + length field) else Inl (ValueError ''missing field''))"

definition ascii_text :: "string \<Rightarrow> string" where \<comment> \<open>\<open>decode("ascii", errors="ignore")\<close>\<close>
  "ascii_text s = filter (\<lambda>c. (of_char c :: nat) < 128) s"

definition read_statname :: "string \<Rightarrow> nat \<Rightarrow> (string \<times> nat) res" where
  "read_statname payload i =
     (if i \<ge> length payload then Inl (Exn ''IndexError'' ''index out of range'')
      else let n = of_char (payload ! i) div 2 in Inr (take n (drop (i + 1) payload), i + 1 + n))"

definition read_record_at :: "string \<Rightarrow> nat \<Rightarrow> unlockable_record res" where
  "read_record_at payload cursor =
     bind_res (read_serialized_uint payload cursor) (\<lambda>(rules, c1).
     bind_res (read_structured_bool payload c1 satisfied_field) (\<lambda>(satisfied, c2).
     bind_res (expect_field payload c2 count_field) (\<lambda>c3.
     bind_res (read_serialized_uint payload c3) (\<lambda>(stat_count, c4).
     bind_res (expect_field payload c4 duration_field) (\<lambda>c5.
     bind_res (read_serialized_uint payload c5) (\<lambda>(duration, c6).
     bind_res (expect_field payload c6 statname_field) (\<lambda>c7.
     bind_res (read_statname payload c7) (\<lambda>(stat_bytes, c8).
     bind_res (read_structured_bool payload c8 unlocked_field) (\<lambda>(unlocked, c9).
       Inr \<lparr>ur_rules = int rules, ur_statname = ascii_text stat_bytes, ur_count = int stat_count, ur_duration = int duration,
         ur_satisfied = satisfied, ur_unlocked = unlocked\<rparr>)))))))))"

definition read_unlockable_record :: "string \<Rightarrow> string \<Rightarrow> unlockable_record option res" where
  "read_unlockable_record payload unlockable =
     (if list_ex (\<lambda>c. (of_char c :: nat) \<ge> 128) unlockable then Inl (Exn ''UnicodeEncodeError'' ''ordinal not in range(128)'')
      else bind_res (mastery_manager_type_offset payload) (\<lambda>manager.
        if length unlockable * 2 > 255 then Inl (ValueError ''bytes must be in range(0, 256)'')
        else case find_bytes payload (record_prefix unlockable) manager of
          None \<Rightarrow> Inr None
        | Some i \<Rightarrow>
           (if find_bytes payload (record_prefix unlockable) (i + 1) \<noteq> None then Inl (ValueError ''native record is ambiguous'')
            else bind_res (read_record_at payload (i + length (record_prefix unlockable))) (\<lambda>r. Inr (Some r)))))"

section \<open>What a written record reads as\<close>

fun le_bytes :: "nat \<Rightarrow> nat \<Rightarrow> string" where
  "le_bytes 0 n = []"
| "le_bytes (Suc w) n = char_of (n mod 256) # le_bytes w (n div 256)"

definition uint_bytes :: "nat \<Rightarrow> nat \<Rightarrow> string" where
  "uint_bytes w n = char_of w # le_bytes w n"

definition bool_byte :: "bool \<Rightarrow> char" where
  "bool_byte b = (if b then CHR 0x0C else CHR 0x0B)"

definition record_bytes :: "nat \<Rightarrow> unlockable_record \<Rightarrow> string" where
  "record_bytes w r = uint_bytes w (nat (ur_rules r)) @ satisfied_field @ [bool_byte (ur_satisfied r)] @
     count_field @ uint_bytes w (nat (ur_count r)) @ duration_field @ uint_bytes w (nat (ur_duration r)) @
     statname_field @ [char_of (length (ur_statname r) * 2)] @ ur_statname r @ unlocked_field @ [bool_byte (ur_unlocked r)]"

definition record_fits :: "nat \<Rightarrow> unlockable_record \<Rightarrow> bool" where
  "record_fits w r \<longleftrightarrow> 1 \<le> w \<and> w \<le> 8 \<and> (\<forall>n \<in> {ur_rules r, ur_count r, ur_duration r}. 0 \<le> n \<and> n < 256 ^ w) \<and>
     length (ur_statname r) \<le> 127 \<and> list_all (\<lambda>c. (of_char c :: nat) < 128) (ur_statname r)"

lemma length_le_bytes [simp]: "length (le_bytes w n) = w"
  by (induction w arbitrary: n) auto

lemma le_value_bytes: "n < 256 ^ w \<Longrightarrow> le_value (le_bytes w n) = n"
proof (induction w arbitrary: n)
  case (Suc w)
  then have "n div 256 < 256 ^ w" by (simp add: less_mult_imp_div_less mult.commute)
  with Suc show ?case by simp
qed simp

lemma length_uint_bytes [simp]: "length (uint_bytes w n) = Suc w"
  by (simp add: uint_bytes_def)

lemma read_uint_bytes:
  assumes "1 \<le> w" "w \<le> 8" "n < 256 ^ w" "length pre = i"
  shows "read_serialized_uint (pre @ uint_bytes w n @ post) i = Inr (n, i + length (uint_bytes w n))"
proof -
  have "(pre @ uint_bytes w n @ post) ! i = char_of w" using assms(4) by (auto simp: nth_append uint_bytes_def)
  moreover have "of_char (char_of w :: char) = w" using assms(2) by simp
  moreover have "take w (drop (Suc i) (pre @ uint_bytes w n @ post)) = le_bytes w n"
    using assms(4) by (simp add: uint_bytes_def)
  ultimately show ?thesis using assms by (simp add: read_serialized_uint_def le_value_bytes Let_def)
qed

lemma starts_at_append: "length pre = i \<Longrightarrow> starts_at (pre @ field @ post) i field"
  by (auto simp: starts_at_def)

lemma expect_field_append: "length pre = i \<Longrightarrow> expect_field (pre @ field @ post) i field = Inr (i + length field)"
  by (simp add: expect_field_def starts_at_append)

lemma read_bool_append:
  "length pre = i \<Longrightarrow> read_structured_bool (pre @ field @ bool_byte b # post) i field = Inr (b, i + length field + 1)"
  by (auto simp: read_structured_bool_def Let_def starts_at_append nth_append bool_byte_def)

lemma read_statname_append:
  "length pre = i \<Longrightarrow> length s \<le> 127 \<Longrightarrow> read_statname (pre @ char_of (length s * 2) # s @ post) i = Inr (s, i + 1 + length s)"
  by (auto simp: read_statname_def Let_def nth_append)

lemma ascii_text_id: "list_all (\<lambda>c. (of_char c :: nat) < 128) s \<Longrightarrow> ascii_text s = s"
  by (auto simp: ascii_text_def list_all_iff filter_id_conv)

lemma read_record_bytes:
  assumes fits: "record_fits w r"
  shows "read_record_at (pre @ record_bytes w r @ post) (length pre) = Inr r"
proof -
  have w: "1 \<le> w" "w \<le> 8" and small: "nat (ur_rules r) < 256 ^ w" "nat (ur_count r) < 256 ^ w" "nat (ur_duration r) < 256 ^ w"
    and nonneg: "0 \<le> ur_rules r" "0 \<le> ur_count r" "0 \<le> ur_duration r" and name: "length (ur_statname r) \<le> 127"
      "ascii_text (ur_statname r) = ur_statname r"
    using fits by (auto simp: record_fits_def nat_less_iff ascii_text_id)
  let ?u = "\<lambda>n. uint_bytes w (nat n)" and ?sat = "bool_byte (ur_satisfied r)" and ?unl = "bool_byte (ur_unlocked r)"
  let ?name = "char_of (length (ur_statname r) * 2) # ur_statname r"
  let ?r9 = "post" let ?r8 = "unlocked_field @ ?unl # ?r9" let ?r7 = "?name @ ?r8" let ?r6 = "statname_field @ ?r7"
  let ?r5 = "?u (ur_duration r) @ ?r6" let ?r4 = "duration_field @ ?r5" let ?r3 = "?u (ur_count r) @ ?r4" let ?r2 = "count_field @ ?r3"
  let ?r1 = "satisfied_field @ ?sat # ?r2" let ?r0 = "?u (ur_rules r) @ ?r1"
  let ?p1 = "pre @ ?u (ur_rules r)" let ?p2 = "?p1 @ satisfied_field @ [?sat]" let ?p3 = "?p2 @ count_field" let ?p4 = "?p3 @ ?u (ur_count r)"
  let ?p5 = "?p4 @ duration_field" let ?p6 = "?p5 @ ?u (ur_duration r)" let ?p7 = "?p6 @ statname_field" let ?p8 = "?p7 @ ?name"
  let ?payload = "pre @ record_bytes w r @ post"
  have at: "?payload = pre @ ?r0" "?payload = ?p1 @ ?r1" "?payload = ?p2 @ ?r2" "?payload = ?p3 @ ?r3" "?payload = ?p4 @ ?r4"
    "?payload = ?p5 @ ?r5" "?payload = ?p6 @ ?r6" "?payload = ?p7 @ ?name @ ?r8" "?payload = ?p8 @ ?r8"
    by (simp_all add: record_bytes_def)
  have "read_serialized_uint ?payload (length pre) = Inr (nat (ur_rules r), length ?p1)"
    unfolding at(1) using read_uint_bytes [OF w small(1) refl, of pre ?r1] by simp
  moreover have "read_structured_bool ?payload (length ?p1) satisfied_field = Inr (ur_satisfied r, length ?p2)"
    unfolding at(2) using read_bool_append [OF refl, of ?p1 satisfied_field "ur_satisfied r" ?r2] by simp
  moreover have "expect_field ?payload (length ?p2) count_field = Inr (length ?p3)"
    unfolding at(3) using expect_field_append [OF refl, of ?p2 count_field ?r3] by simp
  moreover have "read_serialized_uint ?payload (length ?p3) = Inr (nat (ur_count r), length ?p4)"
    unfolding at(4) using read_uint_bytes [OF w small(2) refl, of ?p3 ?r4] by simp
  moreover have "expect_field ?payload (length ?p4) duration_field = Inr (length ?p5)"
    unfolding at(5) using expect_field_append [OF refl, of ?p4 duration_field ?r5] by simp
  moreover have "read_serialized_uint ?payload (length ?p5) = Inr (nat (ur_duration r), length ?p6)"
    unfolding at(6) using read_uint_bytes [OF w small(3) refl, of ?p5 ?r6] by simp
  moreover have "expect_field ?payload (length ?p6) statname_field = Inr (length ?p7)"
    unfolding at(7) using expect_field_append [OF refl, of ?p6 statname_field ?r7] by simp
  moreover have "read_statname ?payload (length ?p7) = Inr (ur_statname r, length ?p8)"
    unfolding at(8) using read_statname_append [OF refl name(1), of ?p7 ?r8] by simp
  moreover have "read_structured_bool ?payload (length ?p8) unlocked_field = Inr (ur_unlocked r, length ?p8 + length unlocked_field + 1)"
    unfolding at(9) using read_bool_append [OF refl, of ?p8 unlocked_field "ur_unlocked r" ?r9] by simp
  ultimately show ?thesis using nonneg name(2) by (simp add: read_record_at_def)
qed

lemma find_bytes_unique:
  assumes "start \<le> i" "i + length field \<le> length payload" "starts_at payload i field" "\<forall>j \<ge> start. starts_at payload j field \<longrightarrow> j = i"
  shows "find_bytes payload field start = Some i" "find_bytes payload field (i + 1) = None"
proof -
  have "filter (\<lambda>j. starts_at payload j field) [start..<length payload + 1 - length field] =
      filter (\<lambda>j. j = i) [start..<length payload + 1 - length field]"
    using assms(3,4) by (intro filter_cong) auto
  also have split: "[start..<length payload + 1 - length field] = [start..<i] @ i # [Suc i..<length payload + 1 - length field]"
    using assms(1,2) upt_add_eq_append [of start i "length payload + 1 - length field - i"] by (simp add: upt_conv_Cons)
  also have "filter (\<lambda>j. j = i) \<dots> = [i]" by (simp add: filter_empty_conv)
  finally have hits: "filter (\<lambda>j. starts_at payload j field) [start..<length payload + 1 - length field] = [i]"
    using split by simp
  show "find_bytes payload field start = Some i" unfolding find_bytes_def hits by simp
  have "filter (\<lambda>j. starts_at payload j field) [i + 1..<length payload + 1 - length field] = []"
  proof (rule filter_False, rule ballI)
    fix j assume "j \<in> set [i + 1..<length payload + 1 - length field]"
    with assms(1) have "start \<le> j \<and> j \<noteq> i" by simp
    then show "\<not> starts_at payload j field" using assms(4) by blast
  qed
  then show "find_bytes payload field (i + 1) = None" unfolding find_bytes_def by (simp only: list.case)
qed

text \<open>Whatever the game writes around it, a record reads back: if the payload has one manager, holds the record of an
  unlockable in any byte width from 1 to 8 that fits, and its name occurs only there behind the
  manager, decoding yields exactly its rules, statistic, counters and flags.\<close>

theorem unlockable_record_roundtrip:
  assumes "record_fits w r" "list_all (\<lambda>c. (of_char c :: nat) < 128) u" "length u \<le> 127"
    and payload: "payload = pre @ record_prefix u @ record_bytes w r @ post"
    and manager: "mastery_manager_type_offset payload = Inr m" "m \<le> length pre"
    and unique: "\<forall>j \<ge> m. starts_at payload j (record_prefix u) \<longrightarrow> j = length pre"
  shows "read_unlockable_record payload u = Inr (Some r)"
proof -
  have "starts_at payload (length pre) (record_prefix u)" unfolding payload by (rule starts_at_append) simp
  moreover have "length pre + length (record_prefix u) \<le> length payload" by (simp add: payload)
  ultimately have "find_bytes payload (record_prefix u) m = Some (length pre)" "find_bytes payload (record_prefix u) (length pre + 1) = None"
    using find_bytes_unique [OF manager(2)] unique by blast+
  moreover have "read_record_at payload (length pre + length (record_prefix u)) = Inr r"
    using read_record_bytes [OF assms(1), of "pre @ record_prefix u" post] by (simp add: payload)
  moreover have "\<not> list_ex (\<lambda>c. (of_char c :: nat) \<ge> 128) u" using assms(2) by (auto simp: list_all_iff list_ex_iff)
  ultimately show ?thesis using assms(3) manager(1) by (simp add: read_unlockable_record_def)
qed

section \<open>Witness\<close>

definition sample_payload :: string where
  "sample_payload = MASTERY_MANAGER @ MASTERY_MANAGER_TYPE @ record_prefix ''u'' @ record_bytes 1 mastery_unlock @ ''.''"

definition positions :: "char \<Rightarrow> string \<Rightarrow> nat list" where
  "positions c s = map fst (filter (\<lambda>(i, d). d = c) (List.enumerate 0 s))"

lemma starts_at_positions:
  assumes "starts_at payload j field" "k < length field"
  shows "j + k \<in> set (positions (field ! k) payload)"
proof -
  have eq: "take (length field) (drop j payload) = field" using assms(1) by (simp add: starts_at_def)
  have "length (take (length field) (drop j payload)) = length field" by (simp only: eq)
  with assms(2) have len: "j + k < length payload" by simp
  have "payload ! (j + k) = field ! k" using arg_cong [OF eq, of "\<lambda>s. s ! k"] assms(2) len by simp
  with len show ?thesis by (force simp: positions_def in_set_enumerate_eq)
qed

lemma sample_positions:
  "positions (MASTERY_MANAGER ! 20) sample_payload = [20]" "positions (MASTERY_MANAGER_TYPE ! 20) sample_payload = [22, 43]"
  "2 \<notin> set (positions (MASTERY_MANAGER_TYPE ! 0) sample_payload)" "positions (record_prefix ''u'' ! 0) sample_payload = [44]"
  by code_simp+

lemma sample_fields:
  "length MASTERY_MANAGER = 23" "length MASTERY_MANAGER_TYPE = 21" "starts_at sample_payload 0 MASTERY_MANAGER"
  "starts_at sample_payload 23 MASTERY_MANAGER_TYPE" "44 \<le> length sample_payload"
  by code_simp+

lemma sample_payload_manager: "mastery_manager_type_offset sample_payload = Inr 23"
proof -
  have one: "\<forall>j \<ge> 0. starts_at sample_payload j MASTERY_MANAGER \<longrightarrow> j = 0"
    using starts_at_positions [of sample_payload _ MASTERY_MANAGER 20] by (auto simp: sample_positions sample_fields)
  have manager: "find_bytes sample_payload MASTERY_MANAGER 0 = Some 0" "find_bytes sample_payload MASTERY_MANAGER (0 + 1) = None"
    by (rule find_bytes_unique [OF _ _ sample_fields(3) one]; use sample_fields in simp)+
  have two: "\<forall>j \<ge> 0. starts_at sample_payload j MASTERY_MANAGER_TYPE \<longrightarrow> j = 23"
  proof (intro allI impI)
    fix j assume at: "starts_at sample_payload j MASTERY_MANAGER_TYPE"
    have "j + 20 \<in> {22, 43}" using starts_at_positions [OF at, of 20] by (simp add: sample_positions sample_fields)
    moreover have "j \<noteq> 2" using starts_at_positions [OF at, of 0] sample_positions(3) sample_fields(2) by auto
    ultimately show "j = 23" by auto
  qed
  have "find_bytes sample_payload MASTERY_MANAGER_TYPE 0 = Some 23" "find_bytes sample_payload MASTERY_MANAGER_TYPE (23 + 1) = None"
    by (rule find_bytes_unique [OF _ _ sample_fields(4) two]; use sample_fields in simp)+
  with manager show ?thesis by (simp add: mastery_manager_type_offset_def)
qed

theorem unlockable_record_roundtrip_witness:
  "read_unlockable_record sample_payload ''u'' = Inr (Some mastery_unlock)"
proof (rule unlockable_record_roundtrip [OF _ _ _ _ sample_payload_manager])
  show "record_fits 1 mastery_unlock" by (simp add: record_fits_def mastery_unlock_def)
  show "sample_payload = (MASTERY_MANAGER @ MASTERY_MANAGER_TYPE) @ record_prefix ''u'' @ record_bytes 1 mastery_unlock @ ''.''"
    by (simp add: sample_payload_def)
  have "j = 44" if "starts_at sample_payload j (record_prefix ''u'')" for j
    using starts_at_positions [OF that, of 0] by (simp add: sample_positions) (simp add: record_prefix_def)
  then show "\<forall>j \<ge> 23. starts_at sample_payload j (record_prefix ''u'') \<longrightarrow> j = length (MASTERY_MANAGER @ MASTERY_MANAGER_TYPE)"
    by (simp add: sample_fields)
qed (simp_all add: sample_fields)

end
