(* ===== verification/Ammo_Refill.thy ===== *)
theory Ammo_Refill
  imports Command_Identity PyValue
begin

text \<open>
  Ammo Refill, \<open>doom_eap/runtime/ammo_refill.py\<close>, and the publication of its commands,
  \<open>doom_eap/runtime/ammo_adapters.py\<close>: a charge is spent in the server's storage first, and the
  staged commands are published only when the storage answers with the spent charge.

  \<open>AmmoCommandsPort\<close> is a record of functions on a state \<open>'p\<close> that may raise. The coroutines are
  split at their awaits. Emitted balances are left out, except that they refresh the available count.
\<close>

section \<open>State\<close>

definition AMMO_REFILL_CAPACITY :: int where "AMMO_REFILL_CAPACITY = 3"

record ammo_scope =
  as_state_key :: string
  as_crucible :: bool
  as_lease :: "string option"

record 'p ammo_port =
  ap_pause :: "'p \<Rightarrow> 'p \<times> unit res"
  ap_stage :: "ammo_scope \<Rightarrow> 'p \<Rightarrow> 'p \<times> bool res"
  ap_confirm :: "'p \<Rightarrow> 'p \<times> bool res"
  ap_cancel :: "'p \<Rightarrow> 'p"

record ammo =
  am_generation :: nat
  am_overflow :: bool
  am_received :: int
  am_timer :: bool
  am_pending :: bool
  am_discard :: "int option"
  am_state_key :: string
  am_consumed :: "int option"
  am_discarded :: "int option"
  am_available :: "int option"
  am_uncertain :: bool

definition active_crucible :: "string \<Rightarrow> int list \<Rightarrow> bool" where
  "active_crucible special_mode processed =
     (if special_mode \<in> {''the_crucible'', ''The Crucible''} then 7770007 \<in> set processed
      else if special_mode \<in> {''progressive_special_weapon'', ''Progressive Special Weapon''} then 7770901 \<in> set processed
      else False)"

text \<open>The first failing predicate of \<open>ammo_readiness\<close>.\<close>

definition ammo_readiness :: "bool \<Rightarrow> bool \<Rightarrow> bool \<Rightarrow> bool \<Rightarrow> pydict option \<Rightarrow> pyval \<Rightarrow> bool \<Rightarrow> bool \<Rightarrow> string option" where
  "ammo_readiness placement_ready item_ready server_connected namespace_match marker active_lease native_safe runtime_ready =
     (let marker_epoch = (case marker of None \<Rightarrow> PNone | Some m \<Rightarrow> dget m ''gameplay_epoch'');
          lease_match = (truthy marker_epoch \<and> active_lease = marker_epoch);
          predicates = [(''placement_connected'', placement_ready), (''item_state_ready'', item_ready), (''connected'', server_connected),
            (''namespace_match'', namespace_match),
            (''marker_valid'', case marker of None \<Rightarrow> False | Some m \<Rightarrow> \<not> truthy (dget m ''materialization_suspended'')),
            (''lease_match'', lease_match), (''native_safe'', native_safe), (''runtime_effects_ready'', runtime_ready)]
      in case filter (\<lambda>(name, passed). \<not> passed) predicates of [] \<Rightarrow> None | failed # others \<Rightarrow> Some (fst failed))"

definition storage_key :: "ammo \<Rightarrow> string option" where
  "storage_key s = (if am_state_key s = [] then None else Some (''doom_eap:'' @ am_state_key s @ '':ammo_refill_consumed''))"

definition discarded_key :: "ammo \<Rightarrow> string option" where
  "discarded_key s = (if am_state_key s = [] then None else Some (''doom_eap:'' @ am_state_key s @ '':ammo_refill_discarded''))"

definition invalidate_ammo :: "'p ammo_port \<Rightarrow> ammo \<times> 'p \<Rightarrow> ammo \<times> 'p" where
  "invalidate_ammo port = (\<lambda>(s, p). (s\<lparr>am_generation := am_generation s + 1, am_overflow := False, am_pending := False,
     am_timer := False, am_discard := None\<rparr>, ap_cancel port p))"

definition bind_ammo :: "'p ammo_port \<Rightarrow> string \<Rightarrow> ammo \<times> 'p \<Rightarrow> ammo \<times> 'p" where
  "bind_ammo port state_key x = (case invalidate_ammo port x of (s, p) \<Rightarrow>
     (s\<lparr>am_state_key := state_key, am_consumed := None, am_discarded := None, am_available := None, am_uncertain := False,
        am_received := 0\<rparr>, p))"

definition overflow_target :: "ammo \<Rightarrow> int option" where
  "overflow_target s =
     (case (am_consumed s, am_discarded s) of
        (Some c, Some d) \<Rightarrow> (if c < 0 \<or> d < 0 then None else Some (max d (am_received s - c - AMMO_REFILL_CAPACITY)))
      | _ \<Rightarrow> None)"

definition available_of :: "ammo \<Rightarrow> int option" where
  "available_of s =
     (case (am_consumed s, am_discarded s) of
        (Some c, Some d) \<Rightarrow>
         (if am_uncertain s \<or> c < 0 \<or> d < 0 then None
          else
           let effective = (case am_discard s of None \<Rightarrow> d | Some x \<Rightarrow> max d x);
               raw = max (am_received s - c - effective) 0
           in Some (if am_discard s \<noteq> None \<or> (case overflow_target s of None \<Rightarrow> False | Some t \<Rightarrow> t > d)
                    then min raw AMMO_REFILL_CAPACITY else raw))
      | _ \<Rightarrow> None)"

definition refresh :: "ammo \<Rightarrow> ammo" where
  "refresh s = s\<lparr>am_available := available_of s\<rparr>"

definition observe_receipts :: "ammo \<Rightarrow> int \<Rightarrow> ammo" where
  "observe_receipts s n = refresh (s\<lparr>am_received := n\<rparr>)"

definition confirmation_expired :: "'p ammo_port \<Rightarrow> ammo \<times> 'p \<Rightarrow> ammo \<times> 'p" where
  "confirmation_expired port = (\<lambda>(s, p).
     (if \<not> am_timer s then (s, p)
      else if \<not> am_pending s then (s\<lparr>am_timer := False\<rparr>, p)
      else (refresh (s\<lparr>am_timer := False, am_pending := False, am_uncertain := True\<rparr>), ap_cancel port p)))"

section \<open>Overflow\<close>

definition schedule_overflow :: "bool \<Rightarrow> ammo \<Rightarrow> ammo" where
  "schedule_overflow loop_running s =
     (if am_discard s \<noteq> None \<or> am_overflow s \<or> \<not> loop_running then s else s\<lparr>am_overflow := True\<rparr>)"

text \<open>\<open>normalize_overflow\<close> up to the increment of the discarded counter, and after it.\<close>

definition begin_overflow :: "ammo \<Rightarrow> ammo \<times> (int \<times> int) option" where
  "begin_overflow s =
     (case (overflow_target s, am_discarded s) of
        (Some t, Some d) \<Rightarrow> (if t \<le> d then (s\<lparr>am_overflow := False\<rparr>, None) else (s\<lparr>am_discard := Some t\<rparr>, Some (d, t - d)))
      | _ \<Rightarrow> (s\<lparr>am_overflow := False\<rparr>, None))"

definition finish_overflow :: "ammo \<Rightarrow> nat \<Rightarrow> exn option \<Rightarrow> ammo" where
  "finish_overflow s generation outcome =
     (if generation \<noteq> am_generation s then s
      else case outcome of
        None \<Rightarrow> s\<lparr>am_overflow := False\<rparr>
      | Some e \<Rightarrow> s\<lparr>am_discard := None, am_overflow := False\<rparr>)"

definition consume_discarded :: "bool \<Rightarrow> ammo \<Rightarrow> pyval \<Rightarrow> ammo" where
  "consume_discarded loop_running s v =
     (case v of
        PInt n \<Rightarrow>
         (if n < 0 \<or> (case am_discarded s of Some d \<Rightarrow> n < d | None \<Rightarrow> False) \<or> (case am_discard s of Some x \<Rightarrow> n < x | None \<Rightarrow> False)
          then s
          else schedule_overflow loop_running (refresh (s\<lparr>am_discarded := Some n, am_discard := None\<rparr>)))
      | _ \<Rightarrow> s)"

section \<open>Spending a charge\<close>

definition dropped :: "'p ammo_port \<Rightarrow> ammo \<times> 'p \<Rightarrow> ammo \<times> 'p" where
  "dropped port = (\<lambda>(s, p). if am_pending s then (refresh (s\<lparr>am_pending := False\<rparr>), ap_cancel port p) else (refresh s, p))"

definition settle_charge :: "'p ammo_port \<Rightarrow> bool \<Rightarrow> ammo \<Rightarrow> int \<Rightarrow> 'p \<Rightarrow> ammo \<times> 'p" where
  "settle_charge port loop_running s n p =
     (let s1 = refresh (s\<lparr>am_consumed := Some n, am_uncertain := False\<rparr>) in
      if \<not> am_pending s1 then (schedule_overflow loop_running s1, p)
      else let s2 = s1\<lparr>am_pending := False\<rparr>
           in case ap_confirm port p of
                (p1, Inr True) \<Rightarrow> (schedule_overflow loop_running s2, p1)
              | (p1, _) \<Rightarrow> (s2, p1))"

definition consume_consumed :: "'p ammo_port \<Rightarrow> bool \<Rightarrow> pyval \<Rightarrow> ammo \<times> 'p \<Rightarrow> ammo \<times> 'p" where
  "consume_consumed port loop_running v = (\<lambda>(s0, p).
     let s = s0\<lparr>am_timer := False\<rparr> in
     case v of
       PInt n \<Rightarrow>
        (if n < 0 \<or> (case am_consumed s of Some c \<Rightarrow> n < c | None \<Rightarrow> False) then dropped port (s, p)
         else if am_pending s \<and> (case am_consumed s of None \<Rightarrow> True | Some c \<Rightarrow> n \<noteq> c + 1) then dropped port (s, p)
         else settle_charge port loop_running s n p)
     | _ \<Rightarrow> dropped port (s, p))"

datatype ammo_request = Refused | Raised exn | Increment string int nat

definition begin_request :: "'p ammo_port \<Rightarrow> ammo_scope \<Rightarrow> string option \<Rightarrow> ammo \<times> 'p \<Rightarrow> ammo \<times> 'p \<times> ammo_request" where
  "begin_request port scope failing = (\<lambda>(s0, p).
     if as_state_key scope \<noteq> am_state_key s0 \<or> failing \<noteq> None then (s0, p, Refused)
     else
      let s = refresh s0 in
      if am_available s \<in> {None, Some 0} \<or> am_pending s then (s, p, Refused)
      else case (storage_key s, am_consumed s) of
        (Some key, Some c) \<Rightarrow>
         (case ap_pause port p of
            (p1, Inl e) \<Rightarrow> (refresh (s\<lparr>am_pending := False\<rparr>), p1, Refused)
          | (p1, Inr _) \<Rightarrow>
             (case ap_stage port scope p1 of
                (p2, Inl e) \<Rightarrow> (s\<lparr>am_pending := True\<rparr>, p2, Raised e)
              | (p2, Inr False) \<Rightarrow> (refresh (s\<lparr>am_pending := False\<rparr>), ap_cancel port p2, Refused)
              | (p2, Inr True) \<Rightarrow> (s\<lparr>am_pending := True, am_timer := True\<rparr>, p2, Increment key c (am_generation s))))
      | _ \<Rightarrow> (s, p, Refused))"

text \<open>After the await: \<open>consumed\<close> and \<open>generation\<close> are those at the beginning.\<close>

definition finish_request :: "'p ammo_port \<Rightarrow> int \<Rightarrow> nat \<Rightarrow> exn option \<Rightarrow> ammo \<times> 'p \<Rightarrow> ammo \<times> 'p \<times> bool" where
  "finish_request port consumed generation outcome = (\<lambda>(s, p).
     if generation \<noteq> am_generation s then (s, p, False)
     else if \<not> am_pending s then (s, p, am_consumed s = Some (consumed + 1))
     else case outcome of
       None \<Rightarrow> (refresh s, p, True)
     | Some e \<Rightarrow> (refresh (s\<lparr>am_timer := False, am_pending := False, am_uncertain := True\<rparr>), ap_cancel port p, False))"

section \<open>The published commands\<close>

record staged_command =
  st_command :: string
  st_key :: string
  st_scope :: ammo_scope
  st_stage :: nat

record ammo_commands =
  ac_staged :: "staged_command list"
  ac_state_key :: string
  ac_restore :: bool

record 'w ammo_link =
  al_uuid :: "'w \<Rightarrow> 'w \<times> string"
  al_send :: "staged_command \<Rightarrow> 'w \<Rightarrow> 'w \<times> bool res"
  al_discard :: "string \<Rightarrow> string \<Rightarrow> 'w \<Rightarrow> 'w"
  al_enabled :: "'w \<Rightarrow> bool"
  al_set :: "bool \<Rightarrow> 'w \<Rightarrow> 'w \<times> bool res"

definition pause_commands :: "'w ammo_link \<Rightarrow> ammo_commands \<times> 'w \<Rightarrow> (ammo_commands \<times> 'w) \<times> unit res" where
  "pause_commands link = (\<lambda>(c, w).
     if \<not> al_enabled link w then ((c\<lparr>ac_restore := False\<rparr>, w), Inr ())
     else case al_set link False w of
       (w1, Inl e) \<Rightarrow> ((c\<lparr>ac_restore := False\<rparr>, w1), Inl e)
     | (w1, Inr False) \<Rightarrow> ((c\<lparr>ac_restore := False\<rparr>, w1), Inl (RuntimeError ''could not pause command execution''))
     | (w1, Inr True) \<Rightarrow> ((c\<lparr>ac_restore := True\<rparr>, w1), Inr ()))"

definition command_plan :: "bool \<Rightarrow> string list" where
  "command_plan crucible = ''give ammo'' # (if crucible then [''judgementMeter_Set 3''] else [])"

fun enumerate_staged :: "ammo_scope \<Rightarrow> string \<Rightarrow> nat \<Rightarrow> string list \<Rightarrow> staged_command list" where
  "enumerate_staged scope key_base stage [] = []"
| "enumerate_staged scope key_base stage (c # cs) =
     \<lparr>st_command = c, st_key = key_base @ str_nat stage, st_scope = scope, st_stage = stage\<rparr> #
     enumerate_staged scope key_base (stage + 1) cs"

text \<open>\<open>al_uuid\<close> draws the fresh UUID; \<open>command_plan\<close> is what \<open>expected\<close> lists.\<close>

definition stage_commands :: "'w ammo_link \<Rightarrow> ammo_scope \<Rightarrow> ammo_commands \<times> 'w \<Rightarrow> (ammo_commands \<times> 'w) \<times> bool res" where
  "stage_commands link scope = (\<lambda>(c, w).
     case queue_session_namespace (PStr (as_state_key scope)) of
       None \<Rightarrow> ((c, w), Inr False)
     | Some namespace \<Rightarrow>
        (case al_uuid link w of (w1, attempt) \<Rightarrow>
          ((c\<lparr>ac_staged := enumerate_staged scope (''ammo-refill-'' @ namespace @ ''-'' @ attempt @ ''-stage'') 0 (command_plan (as_crucible scope)),
              ac_state_key := as_state_key scope\<rparr>, w1), Inr True)))"

text \<open>The send loop: the keys published before it ends or raises.\<close>

fun send_staged :: "'w ammo_link \<Rightarrow> staged_command list \<Rightarrow> string list \<Rightarrow> 'w \<Rightarrow> 'w \<times> string list \<times> unit res" where
  "send_staged link [] published w = (w, published, Inr ())"
| "send_staged link (c # cs) published w =
     (case al_send link c w of
        (w1, Inl e) \<Rightarrow> (w1, published, Inl e)
      | (w1, Inr False) \<Rightarrow> (w1, published, Inl (RuntimeError ''could not publish paid refill command''))
      | (w1, Inr True) \<Rightarrow> send_staged link cs (published @ [st_key c]) w1)"

definition enable_again :: "'w ammo_link \<Rightarrow> bool res \<Rightarrow> 'w \<Rightarrow> 'w \<times> bool res" where
  "enable_again link result w =
     (case al_set link True w of
        (w1, Inl e) \<Rightarrow> (w1, Inl e)
      | (w1, Inr False) \<Rightarrow> (w1, Inl (RuntimeError ''execution gate refused enable''))
      | (w1, Inr True) \<Rightarrow> (w1, result))"

definition confirm_commands :: "'w ammo_link \<Rightarrow> ammo_commands \<times> 'w \<Rightarrow> (ammo_commands \<times> 'w) \<times> bool res" where
  "confirm_commands link = (\<lambda>(c, w).
     let c1 = c\<lparr>ac_staged := [], ac_restore := False\<rparr> in
     case send_staged link (ac_staged c) [] w of
       (w1, published, Inr _) \<Rightarrow> (case enable_again link (Inr True) w1 of (w2, r) \<Rightarrow> ((c1, w2), r))
     | (w1, published, Inl e) \<Rightarrow>
        (let w2 = foldl (\<lambda>w key. al_discard link key (ac_state_key c) w) w1 published
         in case enable_again link (Inl e) w2 of (w3, r) \<Rightarrow> ((c1, w3), r)))"

definition cancel_commands :: "'w ammo_link \<Rightarrow> ammo_commands \<times> 'w \<Rightarrow> ammo_commands \<times> 'w" where
  "cancel_commands link = (\<lambda>(c, w).
     (c\<lparr>ac_staged := [], ac_restore := False\<rparr>, if ac_restore c then fst (al_set link True w) else w))"

definition command_port :: "'w ammo_link \<Rightarrow> (ammo_commands \<times> 'w) ammo_port" where
  "command_port link = \<lparr>ap_pause = pause_commands link, ap_stage = stage_commands link, ap_confirm = confirm_commands link,
     ap_cancel = cancel_commands link\<rparr>"

section \<open>The request pump\<close>

record ammo_pump =
  pu_queue :: "string list"
  pu_task :: bool
  pu_generation :: nat

datatype pump_turn = Ended | Waiting | Requesting string

definition reset_pump :: "ammo_pump \<Rightarrow> ammo_pump" where
  "reset_pump s = s\<lparr>pu_generation := pu_generation s + 1, pu_queue := [], pu_task := False\<rparr>"

text \<open>\<open>removal\<close> is the outcome of \<open>os.remove\<close>; a failed removal drops the path.\<close>

definition consume_requests :: "(string \<Rightarrow> exn option) \<Rightarrow> string list \<Rightarrow> ammo_pump \<Rightarrow> ammo_pump \<times> bool" where
  "consume_requests removal paths s =
     (let removed = filter (\<lambda>path. removal path = None) paths
      in if removed = [] then (s, False) else (s\<lparr>pu_queue := pu_queue s @ removed, pu_task := True\<rparr>, True))"

definition run_ended :: "nat \<Rightarrow> ammo_pump \<Rightarrow> ammo_pump" where
  "run_ended generation s = (if generation = pu_generation s then s\<lparr>pu_task := False\<rparr> else s)"

text \<open>One pass of \<open>_run\<close> up to its next await; a request that raises ends the run.\<close>

definition run_turn :: "bool \<Rightarrow> bool \<Rightarrow> nat \<Rightarrow> ammo_pump \<Rightarrow> ammo_pump \<times> pump_turn" where
  "run_turn exiting pending generation s =
     (case pu_queue s of
        [] \<Rightarrow> (run_ended generation s, Ended)
      | path # paths \<Rightarrow>
         (if exiting \<or> generation \<noteq> pu_generation s then (run_ended generation s, Ended)
          else if pending then (s, Waiting)
          else (s\<lparr>pu_queue := paths\<rparr>, Requesting path)))"

section \<open>Charges stay within the capacity\<close>

definition ammo_five :: ammo where
  "ammo_five = \<lparr>am_generation = 0, am_overflow = False, am_received = 5, am_timer = False, am_pending = False, am_discard = None,
     am_state_key = ''room'', am_consumed = Some 1, am_discarded = Some 0, am_available = None, am_uncertain = False\<rparr>"

text \<open>The charges offered are bounded and honest: an available count lies between 0 and the capacity of 3 and never
  exceeds what was received, less what was spent and discarded; normalizing an overflow asks to
  discard exactly the surplus, so that the full capacity remains.\<close>

theorem charges_within_capacity:
  assumes "am_consumed s = Some c" "am_discarded s = Some d" "d \<le> am_received s - c"
  shows "(case available_of s of None \<Rightarrow> True | Some a \<Rightarrow> 0 \<le> a \<and> a \<le> 3 \<and> a \<le> am_received s - c - d) \<and>
    (case snd (begin_overflow s) of None \<Rightarrow> True
     | Some (current, delta) \<Rightarrow> current = d \<and> 0 < delta \<and> am_received s - c - (d + delta) = 3 \<and>
         am_discard (fst (begin_overflow s)) = Some (d + delta))"
proof (intro conjI)
  show "case available_of s of None \<Rightarrow> True | Some a \<Rightarrow> 0 \<le> a \<and> a \<le> 3 \<and> a \<le> am_received s - c - d"
    using assms(3) by (cases "am_discard s") (auto simp: assms(1,2) available_of_def overflow_target_def AMMO_REFILL_CAPACITY_def Let_def min_def max_def)
  show "case snd (begin_overflow s) of None \<Rightarrow> True
     | Some (current, delta) \<Rightarrow> current = d \<and> 0 < delta \<and> am_received s - c - (d + delta) = 3 \<and>
         am_discard (fst (begin_overflow s)) = Some (d + delta)"
    using assms by (simp add: begin_overflow_def overflow_target_def AMMO_REFILL_CAPACITY_def split: option.split)
qed

theorem charges_within_capacity_witness:
  "available_of ammo_five = Some 3 \<and> snd (begin_overflow ammo_five) = Some (0, 1)"
  using charges_within_capacity [of ammo_five 1 0]
  by (simp add: ammo_five_def available_of_def begin_overflow_def overflow_target_def AMMO_REFILL_CAPACITY_def)

section \<open>No refill without a spent charge\<close>

text \<open>What the accounting relies on: \<open>published\<close> counts the refills that reached the command queue;
  only a confirmation raises it, by one at most, and \<open>ready\<close> is kept.\<close>

locale refill_port =
  fixes port :: "'p ammo_port" and published :: "'p \<Rightarrow> nat" and ready :: "'p \<Rightarrow> bool"
  assumes pause_law: "ready p \<Longrightarrow> published (fst (ap_pause port p)) = published p \<and> ready (fst (ap_pause port p))"
    and stage_law: "ready p \<Longrightarrow> published (fst (ap_stage port scope p)) = published p \<and> ready (fst (ap_stage port scope p))"
    and cancel_law: "ready p \<Longrightarrow> published (ap_cancel port p) = published p \<and> ready (ap_cancel port p)"
    and confirm_law: "ready p \<Longrightarrow> published (fst (ap_confirm port p)) \<le> published p + 1 \<and> ready (fst (ap_confirm port p))"

text \<open>A run within one binding; \<open>base\<close> is the first spent count that the storage told.\<close>

datatype ammo_event =
    Receipts int | Timeout | Schedule bool | Overflow_begin | Overflow_end nat "exn option" | Discarded_update bool pyval
  | Consumed_update bool pyval | Request ammo_scope "string option" | Request_end int nat "exn option" | Invalidate

definition ammo_step :: "'p ammo_port \<Rightarrow> ammo_event \<Rightarrow> ammo \<times> 'p \<Rightarrow> ammo \<times> 'p" where
  "ammo_step port ev x =
     (case ev of
        Receipts n \<Rightarrow> (observe_receipts (fst x) n, snd x)
      | Timeout \<Rightarrow> confirmation_expired port x
      | Schedule running \<Rightarrow> (schedule_overflow running (fst x), snd x)
      | Overflow_begin \<Rightarrow> (fst (begin_overflow (fst x)), snd x)
      | Overflow_end generation outcome \<Rightarrow> (finish_overflow (fst x) generation outcome, snd x)
      | Discarded_update running v \<Rightarrow> (consume_discarded running (fst x) v, snd x)
      | Consumed_update running v \<Rightarrow> consume_consumed port running v x
      | Request scope failing \<Rightarrow> (case begin_request port scope failing x of (s, p, decision) \<Rightarrow> (s, p))
      | Request_end consumed generation outcome \<Rightarrow> (case finish_request port consumed generation outcome x of (s, p, answer) \<Rightarrow> (s, p))
      | Invalidate \<Rightarrow> invalidate_ammo port x)"

definition first_told :: "int option \<Rightarrow> ammo \<Rightarrow> int option" where
  "first_told base s = (case base of Some b \<Rightarrow> Some b | None \<Rightarrow> am_consumed s)"

fun ammo_run :: "'p ammo_port \<Rightarrow> ammo_event list \<Rightarrow> ammo \<times> 'p \<Rightarrow> int option \<Rightarrow> (ammo \<times> 'p) \<times> int option" where
  "ammo_run port [] x base = (x, base)"
| "ammo_run port (ev # evs) x base =
     (let y = ammo_step port ev x in ammo_run port evs y (first_told base (fst y)))"

definition spent_since :: "int option \<Rightarrow> ammo \<Rightarrow> int" where
  "spent_since base s = (case (base, am_consumed s) of (Some b, Some c) \<Rightarrow> c - b | _ \<Rightarrow> 0)"

definition told_ok :: "int option \<Rightarrow> ammo \<Rightarrow> bool" where
  "told_ok base s \<longleftrightarrow> (base = None \<longleftrightarrow> am_consumed s = None) \<and>
     (case (base, am_consumed s) of (Some b, Some c) \<Rightarrow> b \<le> c | _ \<Rightarrow> True)"

lemma consumed_frames [simp]:
  "am_consumed (refresh s) = am_consumed s" "am_consumed (observe_receipts s n) = am_consumed s"
  "am_consumed (schedule_overflow b s) = am_consumed s" "am_consumed (fst (begin_overflow s)) = am_consumed s"
  "am_consumed (finish_overflow s g e) = am_consumed s" "am_consumed (consume_discarded b s v) = am_consumed s"
  "am_pending (refresh s) = am_pending s" "am_pending (schedule_overflow b s) = am_pending s"
  by (simp_all add: refresh_def observe_receipts_def schedule_overflow_def begin_overflow_def finish_overflow_def consume_discarded_def
      split: option.split pyval.split)

context refill_port
begin

lemma quiet_ports:
  assumes "ready p"
  shows "published (snd (confirmation_expired port (s, p))) = published p \<and> ready (snd (confirmation_expired port (s, p)))"
    "published (snd (invalidate_ammo port (s, p))) = published p \<and> ready (snd (invalidate_ammo port (s, p)))"
    "published (snd (dropped port (s, p))) = published p \<and> ready (snd (dropped port (s, p)))"
  using cancel_law [OF assms] assms by (simp_all add: confirmation_expired_def invalidate_ammo_def dropped_def)

lemma request_port:
  assumes "ready p" "begin_request port scope failing (s, p) = (s', p', decision)"
  shows "published p' = published p \<and> ready p' \<and> am_consumed s' = am_consumed s"
proof -
  obtain p1 r1 where pause: "ap_pause port p = (p1, r1)" by fastforce
  obtain p2 r2 where stage: "ap_stage port scope p1 = (p2, r2)" by fastforce
  have "published p1 = published p \<and> ready p1" using pause_law [OF assms(1)] pause by simp
  moreover from this have "published p2 = published p1 \<and> ready p2" using stage_law [of p1 scope] stage by simp
  moreover from this have "published (ap_cancel port p2) = published p2 \<and> ready (ap_cancel port p2)" using cancel_law by blast
  ultimately show ?thesis using assms
    by (auto simp: begin_request_def Let_def pause stage split: if_splits option.splits sum.splits bool.splits)
qed

lemma finish_port:
  assumes "ready p" "finish_request port c g outcome (s, p) = (s', p', answer)"
  shows "published p' = published p \<and> ready p' \<and> am_consumed s' = am_consumed s"
  using assms cancel_law [OF assms(1)] by (auto simp: finish_request_def split: if_splits option.splits)

lemma settle_port:
  assumes "ready p" "settle_charge port running s n p = (s', p')"
  shows "ready p' \<and> am_consumed s' = Some n \<and> published p' \<le> published p + (if am_pending s then 1 else 0)"
  using assms(2) confirm_law [OF assms(1)] assms(1)
  by (auto simp: settle_charge_def Let_def split: if_splits prod.splits sum.splits bool.splits)

lemma dropped_port:
  assumes "ready p" "dropped port (s, p) = (s', p')"
  shows "ready p' \<and> published p' = published p \<and> am_consumed s' = am_consumed s"
  using assms(2) cancel_law [OF assms(1)] assms(1) by (auto simp: dropped_def split: if_splits)

lemma consumed_port:
  assumes "ready p" "consume_consumed port running v (s, p) = (s', p')"
  shows "ready p' \<and>
    ((published p' = published p \<and> am_consumed s' = am_consumed s) \<or>
     (\<exists>n. am_consumed s' = Some n \<and> (case am_consumed s of None \<Rightarrow> published p' \<le> published p
        | Some c \<Rightarrow> c \<le> n \<and> int (published p') \<le> int (published p) + (n - c))))"
proof (cases "\<exists>n. v = PInt n \<and> consume_consumed port running v (s, p) = settle_charge port running (s\<lparr>am_timer := False\<rparr>) n p")
  case True
  then obtain n where v: "v = PInt n" and run: "settle_charge port running (s\<lparr>am_timer := False\<rparr>) n p = (s', p')" using assms(2) by auto
  show ?thesis
  proof (cases "dropped port (s\<lparr>am_timer := False\<rparr>, p) = (s', p')")
    case True
    from dropped_port [OF assms(1) this] show ?thesis by simp
  next
    case False
    with assms(2) v have "case am_consumed s of Some c \<Rightarrow> c \<le> n | None \<Rightarrow> True"
      "am_pending s \<Longrightarrow> \<exists>c. am_consumed s = Some c \<and> n = c + 1"
      by (auto simp: consume_consumed_def Let_def split: if_splits option.splits)
    then show ?thesis using settle_port [OF assms(1) run] by (cases "am_consumed s"; cases "am_pending s") auto
  qed
next
  case False
  then have "dropped port (s\<lparr>am_timer := False\<rparr>, p) = (s', p')"
    using assms(2) by (auto simp: consume_consumed_def Let_def split: if_splits pyval.splits)
  from dropped_port [OF assms(1) this] show ?thesis by simp
qed

text \<open>The account of a run: refills published so far against charges spent since the first told count.\<close>

lemma step_port:
  assumes "ready p" "ammo_step port ev (s, p) = (s', p')"
  shows "ready p' \<and>
    ((published p' = published p \<and> am_consumed s' = am_consumed s) \<or>
     (\<exists>n. am_consumed s' = Some n \<and> (case am_consumed s of None \<Rightarrow> published p' \<le> published p
        | Some c \<Rightarrow> c \<le> n \<and> int (published p') \<le> int (published p) + (n - c))))"
proof (cases ev)
  case Timeout
  then show ?thesis using assms quiet_ports(1) [OF assms(1), of s] by (auto simp: ammo_step_def confirmation_expired_def split: if_splits)
next
  case Invalidate
  then show ?thesis using assms quiet_ports(2) [OF assms(1), of s] by (auto simp: ammo_step_def invalidate_ammo_def)
next
  case (Consumed_update running v)
  then show ?thesis using consumed_port [OF assms(1)] assms(2) by (simp add: ammo_step_def)
next
  case (Request scope failing)
  then show ?thesis using request_port [OF assms(1)] assms(2) by (force simp: ammo_step_def split: prod.splits)
next
  case (Request_end consumed generation outcome)
  then show ?thesis using finish_port [OF assms(1)] assms(2) by (force simp: ammo_step_def split: prod.splits)
qed (use assms in \<open>auto simp: ammo_step_def\<close>)

lemma account_step:
  assumes "ready p" "told_ok base s" "ammo_step port ev (s, p) = (s', p')"
  shows "ready p' \<and> told_ok (first_told base s') s' \<and>
    int (published p') - int (published p) \<le> spent_since (first_told base s') s' - spent_since base s"
  using step_port [OF assms(1,3)] assms(2)
  by (cases base; cases "am_consumed s") (auto simp: told_ok_def first_told_def spent_since_def)

lemma account_run:
  "ready p \<Longrightarrow> told_ok base s \<Longrightarrow> ammo_run port evs (s, p) base = ((s', p'), base') \<Longrightarrow>
   int (published p') - int (published p) \<le> spent_since base' s' - spent_since base s"
proof (induction evs arbitrary: s p base)
  case (Cons ev evs)
  obtain s1 p1 where step: "ammo_step port ev (s, p) = (s1, p1)" by fastforce
  from account_step [OF Cons.prems(1,2) step] Cons.IH [of p1 "first_told base s1" s1] Cons.prems(3)
  show ?case by (simp add: step)
qed simp

end

text \<open>The link with the list of the commands it accepted; \<open>refills\<close> counts those that refill.\<close>

definition traced :: "'w ammo_link \<Rightarrow> ('w \<times> string list) ammo_link" where
  "traced link = \<lparr>
     al_uuid = (\<lambda>(w, t). case al_uuid link w of (w1, u) \<Rightarrow> ((w1, t), u)),
     al_send = (\<lambda>c (w, t). case al_send link c w of (w1, r) \<Rightarrow> ((w1, if r = Inr True then t @ [st_command c] else t), r)),
     al_discard = (\<lambda>k key (w, t). (al_discard link k key w, t)),
     al_enabled = (\<lambda>(w, t). al_enabled link w),
     al_set = (\<lambda>b (w, t). case al_set link b w of (w1, r) \<Rightarrow> ((w1, t), r))\<rparr>"

definition refills :: "ammo_commands \<times> 'w \<times> string list \<Rightarrow> nat" where
  "refills p = length (filter (\<lambda>c. c = ''give ammo'') (snd (snd p)))"

definition staged_refills :: "staged_command list \<Rightarrow> nat" where
  "staged_refills cs = length (filter (\<lambda>c. st_command c = ''give ammo'') cs)"

definition one_staged :: "ammo_commands \<times> 'w \<times> string list \<Rightarrow> bool" where
  "one_staged p \<longleftrightarrow> staged_refills (ac_staged (fst p)) \<le> 1"

lemma traced_frames:
  "al_set (traced link) b (w, t) = ((fst (al_set link b w), t), snd (al_set link b w))"
  "al_discard (traced link) k key (w, t) = (al_discard link k key w, t)"
  "al_uuid (traced link) (w, t) = ((fst (al_uuid link w), t), snd (al_uuid link w))"
  by (simp_all add: traced_def split_beta)

lemma discards_trace: "snd (foldl (\<lambda>x key. al_discard (traced link) key k x) x keys) = snd x"
  by (induction keys arbitrary: x) (simp_all add: traced_def split_beta)

lemma enable_trace: "snd (fst (enable_again (traced link) r x)) = snd x"
  by (cases x) (simp add: enable_again_def traced_frames split: sum.split bool.split prod.split)

lemma send_trace:
  "length (filter (\<lambda>c. c = ''give ammo'') (snd (fst (send_staged (traced link) cs published (w, t)))))
   \<le> length (filter (\<lambda>c. c = ''give ammo'') t) + staged_refills cs"
proof (induction cs arbitrary: published w t)
  case (Cons c cs)
  show ?case using Cons [of "published @ [st_key c]" "fst (al_send link c w)" "t @ [st_command c]"]
    by (auto simp: traced_def staged_refills_def split: prod.splits sum.splits bool.splits)
qed (simp add: staged_refills_def)

lemma confirm_trace:
  "one_staged p \<Longrightarrow> refills (fst (confirm_commands (traced link) p)) \<le> refills p + 1 \<and> one_staged (fst (confirm_commands (traced link) p))"
proof -
  obtain c w t where p: "p = (c, w, t)" by (cases p) auto
  obtain x published r where run: "send_staged (traced link) (ac_staged c) [] (w, t) = (x, published, r)" by (metis surj_pair)
  have "refills (fst (confirm_commands (traced link) p)) = length (filter (\<lambda>c. c = ''give ammo'') (snd x))"
    by (simp add: p confirm_commands_def run refills_def Let_def enable_trace discards_trace split_beta split: sum.split)
  moreover have "ac_staged (fst (fst (confirm_commands (traced link) p))) = []"
    by (simp add: p confirm_commands_def run Let_def split_beta split: sum.split)
  moreover assume "one_staged p"
  ultimately show ?thesis using send_trace [of link "ac_staged c" "[]" w t] by (simp add: p run refills_def one_staged_def staged_refills_def)
qed

interpretation refill_commands: refill_port "command_port (traced link)" refills one_staged for link :: "'w ammo_link"
proof
  fix p :: "ammo_commands \<times> 'w \<times> string list" and scope :: ammo_scope
  obtain c w t where p: "p = (c, w, t)" by (cases p) auto
  assume ready: "one_staged p"
  show "refills (fst (ap_pause (command_port (traced link)) p)) = refills p \<and> one_staged (fst (ap_pause (command_port (traced link)) p))"
    using ready by (simp add: p command_port_def pause_commands_def traced_frames refills_def one_staged_def split: sum.split bool.split)
  show "refills (fst (ap_stage (command_port (traced link)) scope p)) = refills p \<and> one_staged (fst (ap_stage (command_port (traced link)) scope p))"
    using ready by (simp add: p command_port_def stage_commands_def command_plan_def staged_refills_def traced_frames refills_def one_staged_def
        split: option.split)
  show "refills (ap_cancel (command_port (traced link)) p) = refills p \<and> one_staged (ap_cancel (command_port (traced link)) p)"
    by (simp add: p command_port_def cancel_commands_def traced_frames staged_refills_def refills_def one_staged_def)
  show "refills (fst (ap_confirm (command_port (traced link)) p)) \<le> refills p + 1 \<and> one_staged (fst (ap_confirm (command_port (traced link)) p))"
    using confirm_trace [OF ready] by (simp add: command_port_def)
qed

text \<open>Property C39. No refill without a spent charge: after a binding and any sequence of receipts, storage updates, timeouts,
  requests, their completions and invalidations, with any link that publishes commands (refusing, raising
  or losing them), the refill commands the link accepted are at most the charges the server's
  storage has counted as spent since the count it first told.\<close>

theorem refills_are_paid:
  "case ammo_run (command_port (traced link)) evs (bind_ammo (command_port (traced link)) room (s, c, w, [])) None of
     ((s', p'), base) \<Rightarrow> int (refills p') \<le> spent_since base s'"
proof -
  obtain s0 p0 where bound: "bind_ammo (command_port (traced link)) room (s, c, w, []) = (s0, p0)" by (metis surj_pair)
  then have start: "am_consumed s0 = None" "refills p0 = 0" "one_staged p0"
    by (auto simp: bind_ammo_def invalidate_ammo_def command_port_def cancel_commands_def traced_frames refills_def one_staged_def staged_refills_def)
  obtain s' p' base where run: "ammo_run (command_port (traced link)) evs (s0, p0) None = ((s', p'), base)" by (metis surj_pair)
  show ?thesis using refill_commands.account_run [OF start(3) _ run] start(1,2) by (simp add: bound run told_ok_def spent_since_def)
qed

definition quiet_link :: "unit ammo_link" where
  "quiet_link = \<lparr>al_uuid = (\<lambda>w. (w, ''u'')), al_send = (\<lambda>c w. (w, Inr True)), al_discard = (\<lambda>k key w. w), al_enabled = (\<lambda>w. True),
     al_set = (\<lambda>b w. (w, Inr True))\<rparr>"

text \<open>A run that publishes: one receipt, one request, one spent charge, one refill.\<close>

lemma refill_published:
  "case ammo_run (command_port (traced quiet_link))
      [Consumed_update True (PInt 0), Discarded_update True (PInt 0), Receipts 1,
       Request \<lparr>as_state_key = ''seed'', as_crucible = True, as_lease = None\<rparr> None, Consumed_update True (PInt 1)]
      (bind_ammo (command_port (traced quiet_link)) ''seed'' (ammo_five, \<lparr>ac_staged = [], ac_state_key = [], ac_restore = False\<rparr>, (), [])) None of
     ((s, p), base) \<Rightarrow> snd (snd p) = [''give ammo'', ''judgementMeter_Set 3''] \<and> spent_since base s = 1 \<and> am_available s = Some 0"
  by (simp add: bind_ammo_def invalidate_ammo_def ammo_step_def command_port_def consume_consumed_def consume_discarded_def settle_charge_def
      begin_request_def pause_commands_def stage_commands_def confirm_commands_def cancel_commands_def enable_again_def command_plan_def
      queue_session_namespace_def traced_def quiet_link_def ammo_five_def refresh_def available_of_def overflow_target_def storage_key_def
      observe_receipts_def schedule_overflow_def spent_since_def first_told_def AMMO_REFILL_CAPACITY_def Let_def)

end
