(* ===== verification/Enemy_Draws.thy ===== *)
theory Enemy_Draws
  imports Sha256 PyValue
begin

text \<open>
  The draws of the enemy randomizer, \<open>doom_eap/content/enemy_plan.py\<close>: combat costs, the weights of
  the species, the sampled species and attributes of one body and the interpolated special limits.

  \<open>random.Random\<close>, seeded with a SHA-256 digest, is a function \<open>rng\<close> from the seed and a bound to the
  first \<open>randrange\<close> of that generator; \<open>randint(a, b)\<close> is \<open>a + randrange(b - a + 1)\<close>. Its only law is
  that a draw is below its bound. A \<open>Fraction\<close> is a \<open>rat\<close>.
\<close>

section \<open>Species and costs\<close>

definition SPECIES_GROUPS :: "(string \<times> string list) list" where
  "SPECIES_GROUPS =
    [(''fodder'', [''chaingun_soldier'', ''demonic_trooper'', ''gargoyle'', ''hell_soldier'', ''imp'', ''lost_soul'',
       ''maykr_angel'', ''shotgun_soldier'', ''stone_imp'', ''zombie_maykr'', ''zombie_t1_screecher'',
       ''zombie_tier_1'', ''zombie_tier_3'']),
     (''heavy'', [''arachnotron'', ''blood_angel'', ''cacodemon'', ''carcass'', ''cursed_prowler'', ''cyber_mancubus'',
       ''dread_knight'', ''hell_knight'', ''mancubus'', ''pain_elemental'', ''pinky'', ''prowler'', ''revenant'',
       ''spectre'', ''whiplash'']),
     (''superheavy'', [''archvile'', ''armored_baron'', ''baron'', ''doom_hunter'', ''marauder'', ''tyrant'']),
     (''support'', [''spirit'']),
     (''stationary'', [''buff_pod'', ''cueball'', ''super_tentacle'', ''tentacle'', ''turret''])]"

definition BASE_COMBAT_COST :: "(string \<times> rat) list" where
  "BASE_COMBAT_COST =
    [(''zombie_tier_1'', 1 / 2), (''zombie_tier_3'', 1), (''imp'', 1), (''hell_soldier'', 2),
     (''stone_imp'', 10), (''zombie_maykr'', 4), (''gargoyle'', 3 / 2), (''lost_soul'', 3 / 2),
     (''shotgun_soldier'', 3), (''chaingun_soldier'', 4), (''demonic_trooper'', 2), (''zombie_t1_screecher'', 1),
     (''cueball'', 1 / 2), (''tentacle'', 2), (''buff_pod'', 1), (''turret'', 4),
     (''super_tentacle'', 16), (''arachnotron'', 10), (''revenant'', 8), (''hell_knight'', 8),
     (''dread_knight'', 12), (''prowler'', 5), (''cursed_prowler'', 20), (''carcass'', 6),
     (''pinky'', 8), (''spectre'', 9), (''cacodemon'', 7), (''mancubus'', 14),
     (''cyber_mancubus'', 18), (''pain_elemental'', 16), (''whiplash'', 10), (''baron'', 24),
     (''armored_baron'', 36), (''doom_hunter'', 30), (''marauder'', 32), (''tyrant'', 40),
     (''archvile'', 48), (''spirit'', 32), (''blood_angel'', 24), (''maykr_angel'', 64)]"

definition base_cost :: "string \<Rightarrow> rat" where
  "base_cost species = (case map_of BASE_COMBAT_COST species of Some c \<Rightarrow> c | None \<Rightarrow> 0)"

record body_attributes =
  ba_health :: int
  ba_damage :: int
  ba_speed :: int
  ba_size :: int

definition attribute_list :: "body_attributes \<Rightarrow> int list" where
  "attribute_list a = [ba_health a, ba_damage a, ba_speed a, ba_size a]"

definition enemy_combat_cost :: "string \<Rightarrow> body_attributes \<Rightarrow> bool \<Rightarrow> bool \<Rightarrow> rat res" where
  "enemy_combat_cost species a buff_totems screechers =
     (if \<not> list_all (\<lambda>v. 1 \<le> v \<and> v \<le> 10000) (attribute_list a)
      then Inl (ValueError ''Enemy combat attributes require integer percentages in 1..10000'')
      else case map_of BASE_COMBAT_COST species of
        None \<Rightarrow> Inl (KeyError species)
      | Some base \<Rightarrow>
         (let cost = base * (if buff_totems \<and> species = ''buff_pod'' then 12 else 1)
                * (if screechers \<and> species = ''zombie_t1_screecher'' then 12 else 1);
              (size_up, size_down) = (if 100 \<le> ba_size a then (300 + ba_size a, 400) else (3 * ba_size a + 100, 4 * ba_size a))
          in Inr (cost * of_int (max (ba_health a) 25 * (100 + ba_damage a) * (300 + ba_speed a) * size_up) /
               of_int (100 * 200 * 400 * size_down))))"

section \<open>Counters\<close>

type_synonym counter = "(string \<times> int) list"

definition cget :: "counter \<Rightarrow> string \<Rightarrow> int" where
  "cget c k = (case map_of c k of Some n \<Rightarrow> n | None \<Rightarrow> 0)"

definition cput :: "string \<Rightarrow> int \<Rightarrow> counter \<Rightarrow> counter" where
  "cput = AList.update"

definition cadd :: "string \<Rightarrow> int \<Rightarrow> counter \<Rightarrow> counter" where
  "cadd k n c = cput k (cget c k + n) c"

definition csum :: "counter \<Rightarrow> int" where
  "csum c = sum_list (map snd c)"

lemma cget_cput [simp]: "cget (cput k n c) j = (if j = k then n else cget c j)"
  by (simp add: cget_def cput_def map_of_update)

lemma cget_cadd [simp]: "cget (cadd k n c) j = cget c j + (if j = k then n else 0)"
  by (simp add: cadd_def)

lemma cget_Nil [simp]: "cget [] k = 0" by (simp add: cget_def)

lemma csum_Nil [simp]: "csum [] = 0" by (simp add: csum_def)

lemma distinct_cput [simp]: "distinct (map fst c) \<Longrightarrow> distinct (map fst (cput k n c))"
  by (simp add: cput_def distinct_update)

lemma csum_cput: "distinct (map fst c) \<Longrightarrow> csum (cput k n c) = csum c - cget c k + n"
proof (induction c)
  case (Cons x c)
  then show ?case by (cases x) (auto simp: csum_def cget_def cput_def dom_map_of_conv_image_fst split: option.split)
qed (simp add: csum_def cget_def cput_def)

lemma csum_cadd: "distinct (map fst c) \<Longrightarrow> csum (cadd k n c) = csum c + n"
  by (simp add: cadd_def csum_cput)

lemma distinct_cadd [simp]: "distinct (map fst c) \<Longrightarrow> distinct (map fst (cadd k n c))"
  by (simp add: cadd_def)

lemma csum_adds: "distinct (map fst c) \<Longrightarrow>
  csum (foldl (\<lambda>c s. cadd (f s) (g s) c) c xs) = csum c + sum_list (map g xs) \<and> distinct (map fst (foldl (\<lambda>c s. cadd (f s) (g s) c) c xs))"
  by (induction xs arbitrary: c) (simp_all add: csum_cadd)

lemma cget_adds: "cget (foldl (\<lambda>c s. cadd (f s) (g s) c) c xs) k = cget c k + sum_list (map g (filter (\<lambda>s. f s = k) xs))"
  by (induction xs arbitrary: c) simp_all

section \<open>Settings and the generator\<close>

text \<open>The bounds of an attribute at the early and the late end, for all species and for named ones.\<close>

record attribute_bounds =
  ab_early :: "int \<times> int"
  ab_late :: "int \<times> int"

record attribute_ranges =
  ar_global :: attribute_bounds
  ar_species :: "(string \<times> attribute_bounds) list"

record enemy_settings =
  es_weights :: counter
  es_density :: int
  es_health :: attribute_ranges
  es_damage :: attribute_ranges
  es_speed :: attribute_ranges
  es_size :: attribute_ranges
  es_size_exclusions :: "string list"
  es_size_chance :: int
  es_limits :: counter
  es_late_limits :: "counter option"
  es_revision :: int

type_synonym random_source = "nat \<Rightarrow> int \<Rightarrow> int"

definition rng_ok :: "random_source \<Rightarrow> bool" where
  "rng_ok rng \<longleftrightarrow> (\<forall>s n. 0 < n \<longrightarrow> 0 \<le> rng s n \<and> rng s n < n)"

definition ENEMY_DRAW_REVISION :: int where "ENEMY_DRAW_REVISION = 3"

definition draw_seed :: "pyval \<Rightarrow> pyval \<Rightarrow> string \<Rightarrow> nat" where
  "draw_seed seed instance_key field =
     foldl (\<lambda>n b. n * 256 + unat b) 0 (sha256 (utf8 (json_dumps (PList [PInt ENEMY_DRAW_REVISION, seed, instance_key, PStr field]))))"

definition randrange :: "random_source \<Rightarrow> pyval \<Rightarrow> pyval \<Rightarrow> string \<Rightarrow> int \<Rightarrow> int" where
  "randrange rng seed instance_key field n = rng (draw_seed seed instance_key field) n"

definition randint :: "random_source \<Rightarrow> pyval \<Rightarrow> pyval \<Rightarrow> string \<Rightarrow> int \<Rightarrow> int \<Rightarrow> int" where
  "randint rng seed instance_key field low high = low + randrange rng seed instance_key field (high - low + 1)"

section \<open>Sampling\<close>

fun pick_weighted :: "(string \<times> int) list \<Rightarrow> int \<Rightarrow> string option" where
  "pick_weighted [] n = None"
| "pick_weighted ((s, w) # rest) n = (if n < w then Some s else pick_weighted rest (n - w))"

definition weighted_species :: "counter \<Rightarrow> string list \<Rightarrow> (string \<times> int) list" where
  "weighted_species weights eligible = filter (\<lambda>(s, w). 0 < w) (map (\<lambda>s. (s, cget weights s)) (sorted_set eligible))"

definition sample_species :: "random_source \<Rightarrow> pyval \<Rightarrow> counter \<Rightarrow> string list \<Rightarrow> pyval \<Rightarrow> string option res" where
  "sample_species rng seed weights eligible instance_key =
     (let weighted = weighted_species weights eligible in
      if weighted = [] then Inl (ValueError ''No enabled enemy species fits this spawn's qualified restrictions'')
      else Inr (pick_weighted weighted (randrange rng seed instance_key ''species'' (csum weighted))))"

definition stage_bound :: "int \<Rightarrow> int \<Rightarrow> int \<Rightarrow> int \<Rightarrow> int" where
  "stage_bound denominator stage early late = (early * (denominator - stage) + late * stage + denominator div 2) div denominator"

definition bounds_for :: "attribute_ranges \<Rightarrow> string \<Rightarrow> attribute_bounds" where
  "bounds_for r species = (case map_of (ar_species r) species of Some b \<Rightarrow> b | None \<Rightarrow> ar_global r)"

definition sample_attribute :: "random_source \<Rightarrow> pyval \<Rightarrow> pyval \<Rightarrow> string \<Rightarrow> attribute_bounds \<Rightarrow> int \<Rightarrow> int \<Rightarrow> int" where
  "sample_attribute rng seed instance_key field b stage denominator =
     (let low = stage_bound denominator stage (fst (ab_early b)) (fst (ab_late b));
          high = stage_bound denominator stage (snd (ab_early b)) (snd (ab_late b))
      in if low = high then low else randint rng seed instance_key field low high)"

definition varied_size :: "int \<Rightarrow> int \<Rightarrow> int" where
  "varied_size chance variation = (if variation < chance then 50 else if variation < 2 * chance then 200 else 100)"

text \<open>\<open>speed_of\<close> is \<open>enemy_speed_capabilities\<close>; the shared \<open>random_draws\<close> repeat the draws of the same generator.\<close>

definition sample_instance_attributes ::
  "random_source \<Rightarrow> (string \<Rightarrow> string option) \<Rightarrow> pyval \<Rightarrow> enemy_settings \<Rightarrow> string \<Rightarrow> pyval \<Rightarrow> int \<Rightarrow> int \<Rightarrow> body_attributes res" where
  "sample_instance_attributes rng speed_of seed settings species instance_key stage_index stage_count =
     (if \<not> (0 \<le> stage_index \<and> stage_index < stage_count) then Inl (ValueError ''Enemy progression requires an included stage index'')
      else
       let denominator = max 1 (stage_count - 1);
           draw = (\<lambda>field r. sample_attribute rng seed instance_key field (bounds_for r species) stage_index denominator);
           speed = draw ''speed'' (es_speed settings);
           size = draw ''size'' (es_size settings);
           variation = (if es_size_chance settings \<noteq> 0 then randint rng seed instance_key ''size_variation'' 0 199 else 0)
       in Inr \<lparr>ba_health = draw ''health'' (es_health settings), ba_damage = draw ''damage'' (es_damage settings),
            ba_speed = (if speed_of species \<noteq> Some ''qualified'' then 100 else speed),
            ba_size = (if species \<in> set (es_size_exclusions settings) then size else varied_size (es_size_chance settings) variation)\<rparr>)"

definition effective_special_limits :: "counter \<Rightarrow> counter option \<Rightarrow> int \<Rightarrow> int \<Rightarrow> counter res" where
  "effective_special_limits early late_limits stage_index stage_count =
     (if \<not> (0 \<le> stage_index \<and> stage_index < stage_count) then Inl (ValueError ''Enemy limit progression is invalid'')
      else
       let denominator = max 1 (stage_count - 1);
           late = (case late_limits of Some l \<Rightarrow> l | None \<Rightarrow> early);
           limits = map (\<lambda>(name, value). (name, stage_bound denominator stage_index value (cget late name))) early
       in Inr (if cget early ''combined_special'' \<noteq> cget late ''combined_special''
            then cput ''combined_special'' (min (cget limits ''combined_special'')
              (sum_list (map (cget limits) [''marauder'', ''archvile'', ''spirit'']))) limits
            else limits))"

section \<open>Weights by density\<close>

definition weight_numbers :: "(string \<times> rat) list \<Rightarrow> counter" where
  "weight_numbers adjusted =
     (let denominator = fold lcm (map (\<lambda>(s, w). snd (quotient_of w)) adjusted) 1;
          integers = map (\<lambda>(s, w). (s, \<lfloor>w * of_int denominator\<rfloor>)) adjusted;
          divisor = fold gcd (map snd integers) 0
      in map (\<lambda>(s, n). (s, n div divisor)) integers)"

text \<open>\<open>costs\<close> are the estimated costs of the candidates.\<close>

definition density_weights :: "counter \<Rightarrow> int \<Rightarrow> string list \<Rightarrow> (string \<Rightarrow> rat) \<Rightarrow> counter" where
  "density_weights weights density candidates costs =
     (let own = map (\<lambda>s. (s, cget weights s)) candidates in
      if density = 100 then own
      else
       let reference = sum_list (map (\<lambda>(s, w). costs s * of_int w) own) / of_int (csum own);
           tilt = of_int \<bar>density - 100\<bar> / 100;
           adjust = (\<lambda>s. (1 + tilt * costs s / reference) ^ 4)
       in weight_numbers (map (\<lambda>(s, w). (s, if density < 100 then of_int w * adjust s else of_int w / adjust s)) own))"

section \<open>Species are drawn by weight\<close>

definition picks :: "(string \<times> int) list \<Rightarrow> string \<Rightarrow> int set" where
  "picks ws s = {n. 0 \<le> n \<and> n < csum ws \<and> pick_weighted ws n = Some s}"

lemma pick_weighted_member: "pick_weighted ws n = Some s \<Longrightarrow> s \<in> fst ` set ws"
  by (induction ws n rule: pick_weighted.induct) (auto split: if_splits)

lemma pick_weighted_total: "0 \<le> n \<Longrightarrow> n < csum ws \<Longrightarrow> \<exists>s. pick_weighted ws n = Some s"
  by (induction ws n rule: pick_weighted.induct) (auto simp: csum_def)

lemma csum_positive: "\<forall>(s, w) \<in> set ws. 0 < w \<Longrightarrow> ws \<noteq> [] \<Longrightarrow> 0 < csum ws"
  by (induction ws) (fastforce simp: csum_def)+

lemma picks_Cons:
  assumes "0 < w" "0 \<le> csum ws" "s \<notin> fst ` set ws"
  shows "picks ((s, w) # ws) t = (if t = s then {0..<w} else (\<lambda>n. n + w) ` picks ws t)"
proof -
  have "(n \<in> picks ((s, w) # ws) t) = (n \<in> (if t = s then {0..<w} else (\<lambda>n. n + w) ` picks ws t))" for n
  proof (cases "n < w")
    case True
    then show ?thesis using assms by (auto simp: picks_def csum_def)
  next
    case False
    have "n \<in> (\<lambda>n. n + w) ` picks ws t \<longleftrightarrow> n - w \<in> picks ws t" by (auto simp: image_iff intro: bexI [of _ "n - w"])
    then show ?thesis using False assms pick_weighted_member [of ws "n - w" t] by (auto simp: picks_def csum_def)
  qed
  then show ?thesis by blast
qed

lemma card_picks:
  "\<forall>(s, w) \<in> set ws. 0 < w \<Longrightarrow> distinct (map fst ws) \<Longrightarrow> card (picks ws t) = nat (cget ws t)"
proof (induction ws)
  case (Cons x ws)
  obtain s w where x: "x = (s, w)" by (cases x)
  have pos: "0 \<le> csum ws" using Cons.prems(1) csum_positive [of ws] by (cases "ws = []") (auto simp: csum_def)
  have "card ((\<lambda>n. n + w) ` picks ws t) = card (picks ws t)" by (intro card_image) (simp add: inj_on_def)
  then show ?case using Cons picks_Cons [OF _ pos, of w s t] by (auto simp: x cget_def)
qed (simp add: picks_def csum_def cget_def)

lemma weighted_species_facts:
  "\<forall>(s, w) \<in> set (weighted_species weights eligible). 0 < w" "distinct (map fst (weighted_species weights eligible))"
  "cget (weighted_species weights eligible) s = (if s \<in> set eligible \<and> 0 < cget weights s then cget weights s else 0)"
proof -
  show "\<forall>(s, w) \<in> set (weighted_species weights eligible). 0 < w" by (auto simp: weighted_species_def)
  show "distinct (map fst (weighted_species weights eligible))"
    by (simp add: weighted_species_def filter_map comp_def distinct_map inj_on_def)
  have "map_of (filter (\<lambda>(s, w). 0 < w) (map (\<lambda>s. (s, cget weights s)) xs)) s =
      (if s \<in> set xs \<and> 0 < cget weights s then Some (cget weights s) else None)" for xs
    by (induction xs) auto
  then show "cget (weighted_species weights eligible) s = (if s \<in> set eligible \<and> 0 < cget weights s then cget weights s else 0)"
    by (simp add: weighted_species_def cget_def [of "filter _ _"])
qed

lemma sample_species_drawn:
  assumes "rng_ok rng" "\<exists>s \<in> set eligible. 0 < cget weights s"
  shows "\<exists>s \<in> set eligible. 0 < cget weights s \<and> sample_species rng seed weights eligible key = Inr (Some s)"
proof -
  define ws where "ws = weighted_species weights eligible"
  note facts = weighted_species_facts [of weights eligible, folded ws_def]
  have "ws \<noteq> []" using assms(2) facts(3) by (metis cget_Nil less_irrefl)
  then have pos: "0 < csum ws" using csum_positive facts(1) by blast
  define n where "n = randrange rng seed key ''species'' (csum ws)"
  have "0 \<le> n" "n < csum ws" using assms(1) pos by (auto simp: n_def randrange_def rng_ok_def)
  then obtain s where s: "pick_weighted ws n = Some s" using pick_weighted_total by blast
  from pick_weighted_member [OF s] have "s \<in> set eligible \<and> 0 < cget weights s"
    by (auto simp: ws_def weighted_species_def)
  then show ?thesis using s \<open>ws \<noteq> []\<close>
    by (auto simp: sample_species_def ws_def [symmetric] n_def [symmetric] Let_def)
qed


section \<open>Attributes stay within their ranges\<close>

definition within_bounds :: "attribute_bounds \<Rightarrow> int \<Rightarrow> bool" where
  "within_bounds b v \<longleftrightarrow> min (fst (ab_early b)) (fst (ab_late b)) \<le> v \<and> v \<le> max (snd (ab_early b)) (snd (ab_late b))"

definition bounds_ok :: "attribute_bounds \<Rightarrow> bool" where
  "bounds_ok b \<longleftrightarrow> (\<forall>(low, high) \<in> {ab_early b, ab_late b}. 1 \<le> low \<and> low \<le> high \<and> high \<le> 10000)"

definition ranges_ok :: "attribute_ranges \<Rightarrow> bool" where
  "ranges_ok r \<longleftrightarrow> bounds_ok (ar_global r) \<and> (\<forall>(s, b) \<in> set (ar_species r). bounds_ok b)"

lemma stage_bound_between:
  assumes "0 \<le> stage" "stage \<le> d" "0 < d"
  shows "min a b \<le> stage_bound d stage a b \<and> stage_bound d stage a b \<le> max a b"
proof -
  have weighted: "min a b * d \<le> a * (d - stage) + b * stage" "a * (d - stage) + b * stage \<le> max a b * d"
  proof -
    have "min a b * (d - stage) \<le> a * (d - stage)" "min a b * stage \<le> b * stage" "a * (d - stage) \<le> max a b * (d - stage)" "b * stage \<le> max a b * stage"
      using assms by (simp_all add: mult_right_mono)
    then show "min a b * d \<le> a * (d - stage) + b * stage" "a * (d - stage) + b * stage \<le> max a b * d"
      by (simp_all add: right_diff_distrib)
  qed
  have half: "0 \<le> d div 2" "d div 2 < d" using assms(3) by simp_all
  have "min a b * d div d \<le> stage_bound d stage a b"
    unfolding stage_bound_def using weighted half assms(3) by (intro zdiv_mono1) simp_all
  moreover have "stage_bound d stage a b \<le> (max a b * d + d div 2) div d"
    unfolding stage_bound_def using weighted half assms(3) by (intro zdiv_mono1) simp_all
  moreover have "(max a b * d + d div 2) div d = max a b"
    using half assms(3) by (simp add: div_pos_pos_trivial)
  ultimately show ?thesis using assms(3) by simp
qed

lemma stage_bound_mono:
  assumes "0 \<le> stage" "stage \<le> d" "0 < d" "a \<le> a'" "b \<le> b'"
  shows "stage_bound d stage a b \<le> stage_bound d stage a' b'"
  unfolding stage_bound_def using assms by (intro zdiv_mono1 add_mono mult_right_mono) auto

lemma bounds_for_ok: "ranges_ok r \<Longrightarrow> bounds_ok (bounds_for r species)"
  by (auto simp: ranges_ok_def bounds_for_def split: option.split dest: map_of_SomeD)

lemma sample_attribute_within:
  assumes "rng_ok rng" "bounds_ok b" "0 \<le> stage" "stage \<le> d" "0 < d"
  shows "within_bounds b (sample_attribute rng seed key field b stage d) \<and> 1 \<le> sample_attribute rng seed key field b stage d \<and>
    sample_attribute rng seed key field b stage d \<le> 10000"
proof -
  define low where "low = stage_bound d stage (fst (ab_early b)) (fst (ab_late b))"
  define high where "high = stage_bound d stage (snd (ab_early b)) (snd (ab_late b))"
  define v where "v = sample_attribute rng seed key field b stage d"
  have b: "1 \<le> fst (ab_early b)" "fst (ab_early b) \<le> snd (ab_early b)" "snd (ab_early b) \<le> 10000"
    "1 \<le> fst (ab_late b)" "fst (ab_late b) \<le> snd (ab_late b)" "snd (ab_late b) \<le> 10000"
    using assms(2) by (auto simp: bounds_ok_def split: prod.splits)
  have "low \<le> high" unfolding low_def high_def using assms(3-) b by (intro stage_bound_mono)
  then have "0 < high - low + 1" by simp
  then have "0 \<le> randrange rng seed key field (high - low + 1) \<and> randrange rng seed key field (high - low + 1) < high - low + 1"
    using assms(1) unfolding randrange_def rng_ok_def by blast
  then have "low \<le> v \<and> v \<le> high" using \<open>low \<le> high\<close>
    by (auto simp: v_def sample_attribute_def Let_def low_def [symmetric] high_def [symmetric] randint_def)
  moreover have "min (fst (ab_early b)) (fst (ab_late b)) \<le> low" "high \<le> max (snd (ab_early b)) (snd (ab_late b))"
    using stage_bound_between [OF assms(3-)] by (auto simp: low_def high_def)
  ultimately show ?thesis using b by (auto simp: v_def [symmetric] within_bounds_def)
qed

definition settings_ok :: "enemy_settings \<Rightarrow> bool" where
  "settings_ok s \<longleftrightarrow> ranges_ok (es_health s) \<and> ranges_ok (es_damage s) \<and> ranges_ok (es_speed s) \<and> ranges_ok (es_size s)"

lemma combat_cost_positive:
  assumes "\<forall>v \<in> set (attribute_list a). 1 \<le> v \<and> v \<le> 10000" "species \<in> fst ` set BASE_COMBAT_COST"
  shows "\<exists>c. enemy_combat_cost species a buff_totems screechers = Inr c \<and> 0 < c"
proof -
  obtain base where base: "map_of BASE_COMBAT_COST species = Some base" using assms(2) by (cases "map_of BASE_COMBAT_COST species") (auto simp: map_of_eq_None_iff)
  have "\<forall>(s, c) \<in> set BASE_COMBAT_COST. 0 < c" by (simp add: BASE_COMBAT_COST_def)
  with base have pos: "0 < base" by (auto dest: map_of_SomeD)
  have a: "1 \<le> ba_health a" "1 \<le> ba_damage a" "1 \<le> ba_speed a" "1 \<le> ba_size a" using assms(1) by (simp_all add: attribute_list_def)
  define up where "up = (if 100 \<le> ba_size a then 300 + ba_size a else 3 * ba_size a + 100)"
  define down where "down = (if 100 \<le> ba_size a then 400 else 4 * ba_size a)"
  define scale :: rat where "scale = (if buff_totems \<and> species = ''buff_pod'' then 12 else 1) * (if screechers \<and> species = ''zombie_t1_screecher'' then 12 else 1)"
  have "enemy_combat_cost species a buff_totems screechers =
      Inr (base * scale * of_int (max (ba_health a) 25 * (100 + ba_damage a) * (300 + ba_speed a) * up) / of_int (100 * 200 * 400 * down))"
    using assms(1) by (simp add: enemy_combat_cost_def base list_all_iff Let_def up_def down_def scale_def)
  moreover have "0 < scale" by (simp add: scale_def)
  moreover have "0 < max (ba_health a) 25 * (100 + ba_damage a) * (300 + ba_speed a) * up" "0 < 100 * 200 * 400 * down"
    using a by (auto simp: up_def down_def intro!: mult_pos_pos)
  ultimately show ?thesis using pos by (metis (no_types) divide_pos_pos mult_pos_pos of_int_0_less_iff)
qed

lemma varied_size_values: "varied_size chance variation \<in> {50, 100, 200}"
  by (simp add: varied_size_def)

text \<open>Every sampled body is within the room's settings and can be costed: for any seed and any stage of the
  campaign, each attribute lies between the early and late bounds that apply to the species (an
  unqualified species keeps the native speed, a size outside the exclusions is 50, 100 or 200), and the
  combat cost of the body is a positive number.\<close>

theorem sampled_body_within_settings:
  assumes "rng_ok rng" "settings_ok settings" "0 \<le> stage_index" "stage_index < stage_count" "species \<in> fst ` set BASE_COMBAT_COST"
  shows "\<exists>a c. sample_instance_attributes rng speed_of seed settings species key stage_index stage_count = Inr a \<and>
    within_bounds (bounds_for (es_health settings) species) (ba_health a) \<and>
    within_bounds (bounds_for (es_damage settings) species) (ba_damage a) \<and>
    (if speed_of species = Some ''qualified'' then within_bounds (bounds_for (es_speed settings) species) (ba_speed a) else ba_speed a = 100) \<and>
    (if species \<in> set (es_size_exclusions settings) then within_bounds (bounds_for (es_size settings) species) (ba_size a)
     else ba_size a \<in> {50, 100, 200}) \<and>
    enemy_combat_cost species a buff_totems screechers = Inr c \<and> 0 < c"
proof -
  define d where "d = max 1 (stage_count - 1)"
  have d: "stage_index \<le> d" "0 < d" using assms(4) by (auto simp: d_def)
  have ok: "bounds_ok (bounds_for r species)" if "r \<in> {es_health settings, es_damage settings, es_speed settings, es_size settings}" for r
    using that assms(2) bounds_for_ok by (auto simp: settings_ok_def)
  note sampled = sample_attribute_within [OF assms(1) ok assms(3) d]
  obtain a where run: "sample_instance_attributes rng speed_of seed settings species key stage_index stage_count = Inr a"
    using assms(3,4) by (simp add: sample_instance_attributes_def Let_def)
  have parts: "ba_health a = sample_attribute rng seed key ''health'' (bounds_for (es_health settings) species) stage_index d"
    "ba_damage a = sample_attribute rng seed key ''damage'' (bounds_for (es_damage settings) species) stage_index d"
    "ba_speed a = (if speed_of species = Some ''qualified''
       then sample_attribute rng seed key ''speed'' (bounds_for (es_speed settings) species) stage_index d else 100)"
    "species \<in> set (es_size_exclusions settings) \<Longrightarrow>
       ba_size a = sample_attribute rng seed key ''size'' (bounds_for (es_size settings) species) stage_index d"
    "species \<notin> set (es_size_exclusions settings) \<Longrightarrow> \<exists>v. ba_size a = varied_size (es_size_chance settings) v"
    using run assms(3,4) by (auto simp: sample_instance_attributes_def Let_def d_def)
  have size: "species \<notin> set (es_size_exclusions settings) \<Longrightarrow> ba_size a \<in> {50, 100, 200}"
    using parts(5) varied_size_values by metis
  have "\<forall>v \<in> set (attribute_list a). 1 \<le> v \<and> v \<le> 10000"
    using sampled parts(1-4) size by (cases "species \<in> set (es_size_exclusions settings)") (auto simp: attribute_list_def)
  from combat_cost_positive [OF this assms(5)] obtain c where
    cost: "enemy_combat_cost species a buff_totems screechers = Inr c" "0 < c" by blast
  show ?thesis using run parts(1-4) size sampled cost by auto
qed

definition modest :: "attribute_ranges" where
  "modest = \<lparr>ar_global = \<lparr>ab_early = (75, 135), ab_late = (90, 180)\<rparr>, ar_species = []\<rparr>"

definition sample_settings :: enemy_settings where
  "sample_settings = \<lparr>es_weights = [(''imp'', 3), (''pinky'', 1)], es_density = 100, es_health = modest, es_damage = modest,
     es_speed = modest, es_size = modest, es_size_exclusions = [], es_size_chance = 3, es_limits = [], es_late_limits = None,
     es_revision = 9\<rparr>"

lemma modular_source: "rng_ok (\<lambda>s n. int s mod n)"
  by (simp add: rng_ok_def)


theorem sampled_body_within_settings_witness:
  "\<exists>a c. sample_instance_attributes (\<lambda>s n. int s mod n) (\<lambda>s. None) PNone sample_settings ''imp'' PNone 1 3 = Inr a \<and>
     ba_health a \<le> 180 \<and> enemy_combat_cost ''imp'' a False False = Inr c \<and> 0 < c"
proof -
  have "bounds_ok \<lparr>ab_early = (75, 135), ab_late = (90, 180)\<rparr>" by (simp add: bounds_ok_def)
  then have "settings_ok sample_settings" by (simp add: settings_ok_def sample_settings_def modest_def ranges_ok_def)
  moreover have "''imp'' \<in> fst ` set BASE_COMBAT_COST" by (simp add: BASE_COMBAT_COST_def)
  ultimately show ?thesis
    using sampled_body_within_settings [OF modular_source, of sample_settings 1 3 "''imp''" "\<lambda>s. None" PNone PNone False False]
    by (auto simp: sample_settings_def modest_def bounds_for_def within_bounds_def)
qed

end
