(* ===== verification/Enemy_Budget.thy ===== *)
theory Enemy_Budget
  imports Enemy_Draws "HOL-Library.Word" "HOL-Library.Product_Lexorder" "HOL-Library.Multiset"
begin

text \<open>
  The arithmetic behind the vanilla balance of the enemy randomizer,
  \<open>doom_eap/content/native_enemy_balance.py\<close>: how many bodies each native spawn gets, how the
  threat budget is scaled, which bodies carry a category, and how the ammunition pool is reserved.

  Quantities are \<open>int\<close>, a \<open>Fraction\<close> is a \<open>rat\<close>, a \<open>Counter\<close> an association list read with
  default 0. The seeded generator of a slot is a function from the draw's number and its bound.
  Division by a count of zero, which the catalog excludes, is the total division of HOL.
\<close>

unbundle bit_operations_syntax

section \<open>Species and categories\<close>

definition ROLES :: "(string \<times> string) list" where
  "ROLES = concat (map (\<lambda>(role, members). map (\<lambda>s. (s, role)) members) SPECIES_GROUPS)"

definition SPECIAL_SPECIES :: "string list" where
  "SPECIAL_SPECIES = [''archvile'', ''marauder'', ''spirit'', ''buff_pod'', ''zombie_t1_screecher'', ''blood_angel'',
     ''cursed_prowler'', ''stone_imp'', ''armored_baron'']"

definition AMMO_FODDER :: "string list" where
  "AMMO_FODDER = [''zombie_tier_1'', ''zombie_tier_3'', ''imp'', ''gargoyle'', ''hell_soldier'']"

definition role_of :: "string \<Rightarrow> string" where
  "role_of species = (case map_of ROLES species of Some r \<Rightarrow> r | None \<Rightarrow> [])"

text \<open>\<open>mobile\<close> is the revision's level: 0 for \<open>False\<close>, 1 for \<open>True\<close>, 2 and 3.\<close>

definition category_of :: "string \<Rightarrow> nat \<Rightarrow> string" where
  "category_of species mobile =
     (if mobile = 3 \<and> species = ''stone_imp'' then ''fodder''
      else if mobile \<ge> 2 \<and> species \<in> {''marauder'', ''archvile'', ''armored_baron''} then ''special_superheavy''
      else if mobile \<ge> 2 \<and> species \<in> {''blood_angel'', ''cursed_prowler''} then ''special_heavy''
      else if mobile \<ge> 2 \<and> species \<in> {''spirit'', ''buff_pod'', ''zombie_t1_screecher''} then ''special_support''
      else if mobile \<ge> 1 \<and> species = ''tentacle'' then ''fodder''
      else if mobile \<ge> 1 \<and> species \<in> {''super_tentacle'', ''turret''} then ''heavy''
      else if species \<in> set SPECIAL_SPECIES then species else role_of species)"

text \<open>\<open>_scope\<close>: the 64-bit FNV-1a hash of the owner's bytes.\<close>

definition scope_hash :: "string \<Rightarrow> 64 word" where
  "scope_hash owner = foldl (\<lambda>v b. (v XOR ucast b) * 1099511628211) 14695981039346656037 (utf8 owner)"

section \<open>Sources and counters\<close>

record spawn_source =
  sp_id :: string
  sp_logical :: int
  sp_maximum :: int
  sp_renews :: "bool option"
  sp_allowed :: "string list"

record spawn_slot =
  sl_source :: string
  sl_count :: nat
  sl_maximum :: nat
  sl_renewable :: bool
  sl_species :: "string list"

definition emissions :: "spawn_source \<Rightarrow> int \<Rightarrow> int" where
  "emissions s n = (sp_maximum s * n + sp_logical s - 1) div sp_logical s"

definition renewable :: "spawn_source \<Rightarrow> bool" where
  "renewable s = (case sp_renews s of Some b \<Rightarrow> b | None \<Rightarrow> sp_maximum s = 0)"

definition quantile_index :: "int \<Rightarrow> int \<Rightarrow> int \<Rightarrow> int" where
  "quantile_index index count_of_stages len =
     (if len = 1 \<or> count_of_stages = 1 then 0 else (index * (len - 1) * 2 + count_of_stages - 1) div (2 * (count_of_stages - 1)))"

definition corresponding_index :: "int \<Rightarrow> int \<Rightarrow> int \<Rightarrow> int" where
  "corresponding_index index count_of_owners len = min (len - 1) ((2 * index + 1) * len div (2 * count_of_owners))"

section \<open>Peaks and populations\<close>

record wave_peak =
  pk_maximum :: int
  pk_heavy :: int
  pk_superheavy :: int
  pk_pressure :: int
  pk_mixed :: int
  pk_combined :: int
  pk_specials :: counter

record wave =
  wv_peak :: "wave_peak option"
  wv_slots :: "spawn_slot list"
  wv_total :: int

definition slot_counts :: "(spawn_slot \<Rightarrow> string list) \<Rightarrow> spawn_slot list \<Rightarrow> counter" where
  "slot_counts names slots = foldl (\<lambda>c slot. foldl (\<lambda>c k. cadd k (int (sl_count slot)) c) c (remdups (names slot))) [] slots"

definition peak_of_wave :: "wave \<Rightarrow> wave_peak" where
  "peak_of_wave w =
     (case wv_peak w of
        Some p \<Rightarrow> p
      | None \<Rightarrow>
         (let roles = slot_counts (\<lambda>slot. map role_of (sl_species slot)) (wv_slots w);
              specials = slot_counts (\<lambda>slot. filter (\<lambda>s. s \<in> set SPECIAL_SPECIES) (sl_species slot)) (wv_slots w)
          in \<lparr>pk_maximum = wv_total w, pk_heavy = cget roles ''heavy'', pk_superheavy = cget roles ''superheavy'',
               pk_pressure = wv_total w, pk_mixed = (if specials \<noteq> [] \<and> cget roles ''superheavy'' \<noteq> 0 then 1 else 0),
               pk_combined = csum specials, pk_specials = specials\<rparr>))"

definition join_peaks :: "wave_peak \<Rightarrow> wave_peak \<Rightarrow> wave_peak" where
  "join_peaks m p =
     \<lparr>pk_maximum = max (pk_maximum m) (pk_maximum p), pk_heavy = max (pk_heavy m) (pk_heavy p),
      pk_superheavy = max (pk_superheavy m) (pk_superheavy p), pk_pressure = max (pk_pressure m) (pk_pressure p),
      pk_mixed = max (pk_mixed m) (pk_mixed p), pk_combined = max (pk_combined m) (pk_combined p),
      pk_specials = foldl (\<lambda>c (s, n). cput s (max (cget c s) n) c) (pk_specials m) (pk_specials p)\<rparr>"

definition peak_of_waves :: "wave list \<Rightarrow> wave_peak" where
  "peak_of_waves waves = foldl join_peaks
     \<lparr>pk_maximum = 0, pk_heavy = 0, pk_superheavy = 0, pk_pressure = 0, pk_mixed = 0, pk_combined = 0, pk_specials = []\<rparr>
     (map peak_of_wave waves)"

record population_settings =
  ps_mobile :: nat
  ps_stage_caps :: counter
  ps_density :: int
  ps_automatic :: bool
  ps_overrides :: counter

record spawn_population =
  po_maximum :: int
  po_heavy :: int
  po_superheavy :: int
  po_pressure :: int
  po_mixed :: int
  po_scope :: "64 word"
  po_species :: counter
  po_combined :: int
  po_reserve :: int

definition share_groups :: "counter \<Rightarrow> counter \<Rightarrow> counter \<Rightarrow> counter" where
  "share_groups specials stage_caps species =
     foldl (\<lambda>c names. foldl (\<lambda>c name. cput name (min (sum_list (map (cget specials) names)) (max 1 (cget stage_caps name))) c) c names)
       species [[''marauder'', ''archvile'', ''armored_baron''], [''blood_angel'', ''cursed_prowler''],
         [''spirit'', ''buff_pod'', ''zombie_t1_screecher'']]"

definition percent_up :: "int \<Rightarrow> int \<Rightarrow> int" where
  "percent_up density n = (n * density + 99) div 100"

definition override_limit :: "spawn_population \<Rightarrow> string \<times> int \<Rightarrow> spawn_population" where
  "override_limit p = (\<lambda>(name, n).
     if name = ''combined_special'' then p\<lparr>po_combined := n\<rparr>
     else let capped = cput name n (po_species p) in
       p\<lparr>po_species := (if name = ''archvile''
         then foldl (\<lambda>c related. cput related (min n (cget c related)) c) capped [''buff_pod'', ''zombie_t1_screecher'']
         else capped)\<rparr>)"

definition population :: "wave_peak \<Rightarrow> string \<Rightarrow> bool \<Rightarrow> population_settings option \<Rightarrow> int \<Rightarrow> spawn_population" where
  "population peak owner opening settings reserve =
     (let base = \<lparr>po_maximum = max 1 (pk_maximum peak), po_heavy = pk_heavy peak,
            po_superheavy = (if opening then 0 else pk_superheavy peak), po_pressure = max 1 (pk_maximum peak), po_mixed = pk_mixed peak,
            po_scope = scope_hash owner, po_species = pk_specials peak, po_combined = pk_combined peak, po_reserve = 0\<rparr>;
          scaled = (case settings of
              None \<Rightarrow> base
            | Some s \<Rightarrow>
               (let grouped = (if ps_mobile s = 2 then share_groups (pk_specials peak) (ps_stage_caps s) (po_species base) else po_species base);
                    up = percent_up (if ps_automatic s then ps_density s else 100)
                in foldl override_limit
                     (base\<lparr>po_maximum := up (po_maximum base), po_heavy := up (po_heavy base), po_superheavy := up (po_superheavy base),
                        po_pressure := up (po_pressure base), po_combined := up (po_combined base),
                        po_species := map (\<lambda>(name, n). (name, up n)) grouped\<rparr>)
                     (ps_overrides s)))
      in if reserve \<noteq> 0
         then scaled\<lparr>po_maximum := po_maximum scaled + reserve, po_pressure := po_pressure scaled + reserve, po_reserve := reserve\<rparr>
         else scaled)"

definition special_limits :: "wave_peak \<Rightarrow> counter \<Rightarrow> counter" where
  "special_limits peak overrides =
     (let get = cget (pk_specials peak);
          limits = [(''marauder'', get ''marauder''), (''archvile'', max (max (get ''archvile'') (get ''buff_pod'')) (get ''zombie_t1_screecher'')),
            (''spirit'', get ''spirit''), (''combined_special'', pk_combined peak)]
      in foldl (\<lambda>c (k, n). cput k n c) limits overrides)"

definition compatible :: "spawn_source \<Rightarrow> string list \<Rightarrow> spawn_population \<Rightarrow> counter \<Rightarrow> nat \<Rightarrow> string list" where
  "compatible s candidates p limits mobile =
     filter (\<lambda>species.
         (role_of species \<noteq> ''heavy'' \<and> (mobile = 0 \<or> species \<notin> {''super_tentacle'', ''turret''}) \<or> 0 < po_heavy p) \<and>
         (role_of species \<noteq> ''superheavy'' \<or> 0 < po_superheavy p) \<and>
         (species \<notin> set SPECIAL_SPECIES \<or> 0 < cget (po_species p) species) \<and>
         (species \<notin> {''marauder'', ''archvile'', ''spirit''} \<or> 0 < cget limits species) \<and>
         (species \<notin> {''buff_pod'', ''zombie_t1_screecher''} \<or> 0 < cget limits ''archvile''))
       (filter (\<lambda>species. sp_allowed s = [] \<or> species \<in> set (sp_allowed s)) candidates)"

section \<open>Allocation\<close>

text \<open>The first of the elements with the greatest key.\<close>

fun first_max :: "('a \<Rightarrow> int) \<Rightarrow> 'a \<Rightarrow> 'a list \<Rightarrow> 'a" where
  "first_max f m [] = m"
| "first_max f m (x # xs) = first_max f (if f m < f x then x else m) xs"

definition slice_to :: "int \<Rightarrow> 'a list \<Rightarrow> 'a list" where \<comment> \<open>\<open>xs[:n]\<close>\<close>
  "slice_to n xs = (if 0 \<le> n then take (nat n) xs else take (length xs - nat (- n)) xs)"

definition count_map :: "(spawn_source \<Rightarrow> int) \<Rightarrow> spawn_source list \<Rightarrow> counter" where
  "count_map f sources = foldl (\<lambda>c s. cput (sp_id s) (f s) c) [] sources"

definition allocate_pool_counts :: "spawn_source list \<Rightarrow> int \<Rightarrow> counter" where
  "allocate_pool_counts sources target =
     (let original = sum_list (map sp_logical sources) in
      if original = 0 then []
      else let counts = count_map (\<lambda>s. target * sp_logical s div original) sources;
               order = sort_key (\<lambda>s. (- (target * sp_logical s mod original), sp_id s)) sources
           in foldl (\<lambda>c s. cadd (sp_id s) 1 c) counts (slice_to (target - csum counts) order))"

definition single :: "spawn_source \<Rightarrow> bool" where
  "single s \<longleftrightarrow> sp_logical s = sp_maximum s"

fun total_bodies :: "counter \<Rightarrow> nat" where
  "total_bodies [] = 0"
| "total_bodies ((k, n) # c) = nat n + total_bodies c"

lemma total_bodies_decreases:
  "0 < cget c k \<Longrightarrow> total_bodies (cput k (cget c k - 1) c) < total_bodies c"
  by (induction c) (auto simp: cget_def cput_def split: if_splits)

definition largest_emitter :: "spawn_source list \<Rightarrow> counter \<Rightarrow> spawn_source option" where
  "largest_emitter sources counts =
     (case filter (\<lambda>s. cget counts (sp_id s) \<noteq> 0) sources of
        [] \<Rightarrow> None
      | s # ss \<Rightarrow> Some (first_max (\<lambda>s. emissions s (cget counts (sp_id s))) s ss))"

text \<open>The loop that takes a body from the largest emitter until the target is met; a negative count, which no
  allocation has, stops it.\<close>

function shrink_counts :: "spawn_source list \<Rightarrow> int \<Rightarrow> counter \<Rightarrow> int \<Rightarrow> (counter \<times> int) res" where
  "shrink_counts sources target counts emitted =
     (if emitted \<le> target then Inr (counts, emitted)
      else case largest_emitter sources counts of
        None \<Rightarrow> Inl (ValueError ''max() arg is an empty sequence'')
      | Some s \<Rightarrow>
         (let n = cget counts (sp_id s) in
          if n \<le> 0 then Inl (ValueError ''negative count'')
          else shrink_counts sources target (cput (sp_id s) (n - 1) counts) (emitted - (emissions s n - emissions s (n - 1)))))"
  by pat_completeness auto
termination
  by (relation "measure (\<lambda>(sources, target, counts, emitted). total_bodies counts)") (auto intro: total_bodies_decreases)

declare shrink_counts.simps [simp del]

text \<open>The dictionary \<open>states\<close> of the search: total to the least distance and the counts that reach it.\<close>

type_synonym alloc_states = "(int \<times> (int \<times> int list)) list"

fun extend_state :: "int \<Rightarrow> (int \<Rightarrow> int) \<Rightarrow> (int \<times> int) list \<Rightarrow> int \<times> int \<times> int list \<Rightarrow> alloc_states \<Rightarrow> alloc_states" where
  "extend_state target deviation [] state following = following"
| "extend_state target deviation ((n, emitted) # choices) (current, cost, selected) following =
     (let total = current + emitted; distance = cost + deviation emitted in
      if target < total then following
      else extend_state target deviation choices (current, cost, selected)
        (if (case map_of following total of None \<Rightarrow> True | Some (d, sel) \<Rightarrow> distance < d)
         then AList.update total (distance, selected @ [n]) following else following))"

definition choices_of :: "int \<Rightarrow> spawn_source \<Rightarrow> (int \<times> int) list" where
  "choices_of target s = map (\<lambda>n. (n, emissions s n)) [0..target * sp_logical s div sp_maximum s]"

definition deviation_of :: "int \<Rightarrow> int \<Rightarrow> spawn_source \<Rightarrow> int \<Rightarrow> int" where
  "deviation_of original target s emitted = \<bar>emitted * original - target * sp_maximum s\<bar>"

definition next_states :: "int \<Rightarrow> int \<Rightarrow> spawn_source \<Rightarrow> alloc_states \<Rightarrow> alloc_states" where
  "next_states original target s states =
     foldl (\<lambda>following state. extend_state target (deviation_of original target s) (choices_of target s) state following) [] states"

definition search_states :: "int \<Rightarrow> int \<Rightarrow> spawn_source list \<Rightarrow> alloc_states" where
  "search_states original target sources = foldl (\<lambda>states s. next_states original target s states) [(0, (0, []))] sources"

text \<open>\<open>states[max(states)][1]\<close>\<close>

definition chosen_counts :: "alloc_states \<Rightarrow> int list option" where
  "chosen_counts states =
     (case states of
        [] \<Rightarrow> None
      | (t, state) # others \<Rightarrow> map_option snd (map_of states (foldl max t (map fst others))))"

definition allocate_counts :: "spawn_source list \<Rightarrow> int \<Rightarrow> (counter \<times> int) res" where
  "allocate_counts sources target =
     (if sources = [] then Inr ([], target)
      else let original = sum_list (map sp_maximum sources) in
      if list_ex single sources then
        (let shared = filter (\<lambda>s. \<not> single s) sources;
             counts = count_map (\<lambda>s. target * sp_logical s div original) shared;
             emitted = sum_list (map (\<lambda>s. emissions s (cget counts (sp_id s))) shared)
         in bind_res (shrink_counts shared target counts emitted) (\<lambda>(counts1, emitted1).
              Inr (foldl (\<lambda>c (k, n). cput k n c) counts1 (allocate_pool_counts (filter single sources) (target - emitted1)), target)))
      else case chosen_counts (search_states original target sources) of
        None \<Rightarrow> Inl (ValueError ''max() arg is an empty sequence'')
      | Some counts \<Rightarrow>
         (let assigned = foldl (\<lambda>c (s, n). cput (sp_id s) n c) [] (zip sources counts)
          in Inr (assigned, sum_list (map (\<lambda>s. emissions s (cget assigned (sp_id s))) sources))))"

section \<open>Budgets\<close>

text \<open>One slot's emissions spread over its bodies; \<open>draw\<close> is \<open>randrange\<close> of the slot's generator.\<close>

definition share :: "nat \<Rightarrow> nat \<Rightarrow> nat \<Rightarrow> nat" where
  "share amount bodies i = amount div bodies + (if i < amount mod bodies then 1 else 0)"

definition slot_total :: "bool \<Rightarrow> spawn_slot \<Rightarrow> nat" where
  "slot_total renews slot = (if renews then sl_count slot else sl_maximum slot)"

definition slot_draws :: "(string \<Rightarrow> nat \<Rightarrow> nat \<Rightarrow> nat) \<Rightarrow> bool \<Rightarrow> spawn_slot \<Rightarrow> (string \<times> nat) list" where
  "slot_draws draw renews slot =
     map (\<lambda>i. (sl_species slot ! draw (sl_source slot) i (length (sl_species slot)), share (slot_total renews slot) (sl_count slot) i))
       [0..<sl_count slot]"

definition native_budget :: "(string \<Rightarrow> nat \<Rightarrow> nat \<Rightarrow> nat) \<Rightarrow> spawn_slot list \<Rightarrow> bool \<Rightarrow> nat \<Rightarrow> counter" where
  "native_budget draw slots renews mobile =
     foldl (\<lambda>c (species, n). cadd (category_of species mobile) (int n) c) []
       (concat (map (slot_draws draw renews) (filter (\<lambda>slot. sl_renewable slot = renews \<and> slot_total renews slot \<noteq> 0) slots)))"

definition native_costs :: "(string \<Rightarrow> nat \<Rightarrow> nat \<Rightarrow> nat) \<Rightarrow> spawn_slot list \<Rightarrow> bool \<Rightarrow> nat \<Rightarrow> (string \<times> rat) list" where
  "native_costs draw slots renews mobile =
     foldl (\<lambda>c (species, n). let k = category_of species mobile in
         AList.update k ((case map_of c k of Some v \<Rightarrow> v | None \<Rightarrow> 0) + base_cost species * of_nat n) c) []
       (concat (map (slot_draws draw renews) (filter (\<lambda>slot. sl_renewable slot = renews \<and> slot_total renews slot \<noteq> 0) slots)))"

definition cost_budget ::
  "(string \<Rightarrow> nat \<Rightarrow> nat \<Rightarrow> nat) \<Rightarrow> spawn_slot list \<Rightarrow> counter \<Rightarrow> bool \<Rightarrow> string list \<Rightarrow> nat \<Rightarrow> (string \<times> rat) list" where
  "cost_budget draw slots desired renews candidates mobile =
     (let counts = native_budget draw slots renews mobile; costs = native_costs draw slots renews mobile in
      map (\<lambda>(category, quantity). (category, of_int quantity *
          (if cget counts category \<noteq> 0 then (case map_of costs category of Some v \<Rightarrow> v | None \<Rightarrow> 0) / of_int (cget counts category)
           else case map base_cost (filter (\<lambda>name. category_of name mobile = category) candidates) of
             [] \<Rightarrow> 0 | c # cs \<Rightarrow> foldl min c cs))) desired)"

definition volume :: "int \<Rightarrow> int \<Rightarrow> bool \<Rightarrow> rat" where
  "volume len multiplier multiplied = of_int (len * (if multiplied then multiplier else 100)) / 10000"

definition native_ammo_pool :: "spawn_slot list \<Rightarrow> nat" where
  "native_ammo_pool slots = sum_list (map sl_count (filter (\<lambda>slot. sl_renewable slot \<and> sl_species slot \<noteq> [] \<and>
     set (sl_species slot) \<subseteq> set AMMO_FODDER) slots))"

text \<open>\<open>round\<close> of a fraction: to the nearest integer, a half to the even one.\<close>

definition round_half_even :: "rat \<Rightarrow> int" where
  "round_half_even x =
     (let low = \<lfloor>x\<rfloor>; part = x - of_int low in
      if part < 1 / 2 then low else if part > 1 / 2 then low + 1 else if even low then low else low + 1)"

fun cap_threats :: "string list \<Rightarrow> int \<Rightarrow> counter \<Rightarrow> counter" where
  "cap_threats [] remainder c = c"
| "cap_threats (k # ks) remainder c =
     (let n = min (cget c k) remainder in cap_threats ks (remainder - n) (cput k n c))"

definition threat_keys :: "counter \<Rightarrow> string list" where
  "threat_keys c = filter (\<lambda>k. k \<notin> {''fodder'', ''stationary''}) (map fst c)"

definition modified_budget :: "counter \<Rightarrow> rat \<Rightarrow> int \<Rightarrow> counter" where
  "modified_budget counts factor budget =
     (let threats = threat_keys counts;
          scaled = foldl (\<lambda>c k. cput k (max 0 (round_half_even (of_int (cget counts k) * factor))) c) counts threats;
          threat_total = sum_list (map (cget scaled) threats);
          capped = (if budget < threat_total
                    then cap_threats (sort_key (\<lambda>k. (k \<notin> set SPECIAL_SPECIES, k)) threats) budget scaled else scaled);
          threats_left = sum_list (map (cget capped) threats);
          stationary = min (cget capped ''stationary'') (max 0 (budget - threats_left));
          settled = cput ''stationary'' stationary capped
      in cput ''fodder'' (max 0 (budget - stationary - sum_list (map (cget settled) threats))) settled)"

text \<open>\<open>_subset\<close>: the indices of a greatest weight up to \<open>needed\<close>; \<open>states\<close> maps each reached weight to its indices.\<close>

type_synonym subset_states = "(int \<times> nat list) list"

definition add_index :: "int \<Rightarrow> int \<Rightarrow> nat \<Rightarrow> subset_states \<Rightarrow> subset_states" where
  "add_index needed weight index states =
     foldl (\<lambda>st (total, selected).
       if total + weight \<le> needed \<and> map_of st (total + weight) = None then st @ [(total + weight, selected @ [index])] else st)
       states (rev states)"

fun subset_search :: "(nat \<Rightarrow> int) \<Rightarrow> int \<Rightarrow> nat list \<Rightarrow> subset_states \<Rightarrow> nat list" where
  "subset_search weight needed [] states = (case map_of states (foldl max 0 (map fst states)) of Some sel \<Rightarrow> sel | None \<Rightarrow> [])"
| "subset_search weight needed (index # candidates) states =
     (let states1 = add_index needed (weight index) index states in
      case map_of states1 needed of Some sel \<Rightarrow> sel | None \<Rightarrow> subset_search weight needed candidates states1)"

definition subset_indices :: "(nat \<Rightarrow> int) \<Rightarrow> int \<Rightarrow> nat list \<Rightarrow> nat list" where
  "subset_indices weight needed candidates = subset_search weight needed candidates [(0, [])]"

section \<open>Ammunition\<close>

text \<open>\<open>chosen\<close> is the compatible source that receives what is missing.\<close>

fun move_counts :: "string \<Rightarrow> spawn_source list \<Rightarrow> int \<Rightarrow> counter \<Rightarrow> counter" where
  "move_counts chosen [] missing counts = counts"
| "move_counts chosen (s # sources) missing counts =
     (let moved = min missing (cget counts (sp_id s));
          counts1 = cadd chosen moved (cadd (sp_id s) (- moved) counts)
      in if missing - moved = 0 then counts1 else move_counts chosen sources (missing - moved) counts1)"

definition fodder_sources :: "(spawn_source \<Rightarrow> string list) \<Rightarrow> spawn_source list \<Rightarrow> spawn_source list" where
  "fodder_sources species_for sources = filter (\<lambda>s. set (species_for s) \<inter> set AMMO_FODDER \<noteq> {}) sources"

definition reserve_ammo_counts ::
  "(spawn_source \<Rightarrow> string list) \<Rightarrow> string list \<Rightarrow> spawn_source list \<Rightarrow> counter \<Rightarrow> int \<Rightarrow> counter res" where
  "reserve_ammo_counts species_for supplies sources counts required =
     (if required = 0 then Inr counts
      else let fitting = fodder_sources species_for sources in
      if fitting = [] \<or> csum counts < required then Inl (ValueError ''Renewable ammunition has no species_for chainsaw fodder'')
      else let identities = set (map sp_id fitting);
               missing = max 0 (required - sum_list (map (cget counts) (remdups (map sp_id fitting))))
           in if missing = 0 then Inr counts
           else let chosen = hd (sort_key (\<lambda>s. (sp_id s \<notin> set supplies, - sp_logical s, sp_id s)) fitting)
                in Inr (move_counts (sp_id chosen)
                     (sort_key (\<lambda>s. (- cget counts (sp_id s), sp_id s)) (filter (\<lambda>s. sp_id s \<notin> identities) sources)) missing counts))"

section \<open>The pool is split exactly\<close>

lemma count_map_snoc: "count_map f (xs @ [s]) = cput (sp_id s) (f s) (count_map f xs)"
  by (simp add: count_map_def)

lemma count_map_result:
  assumes "distinct (map sp_id sources)"
  shows "distinct (map fst (count_map f sources)) \<and> csum (count_map f sources) = sum_list (map f sources) \<and>
    (\<forall>s \<in> set sources. cget (count_map f sources) (sp_id s) = f s) \<and> (\<forall>k. k \<notin> sp_id ` set sources \<longrightarrow> cget (count_map f sources) k = 0)"
  using assms
proof (induction sources rule: rev_induct)
  case (snoc s xs)
  then have "sp_id s \<notin> sp_id ` set xs" "\<And>sa. sa \<in> set xs \<Longrightarrow> sp_id sa \<noteq> sp_id s" by (auto intro: rev_image_eqI)
  with snoc show ?case by (auto simp: count_map_snoc csum_cput)
qed (simp add: count_map_def)

lemma sum_floors:
  fixes original target :: int
  assumes "0 < original"
  shows "sum_list (map (\<lambda>s. target * f s mod original) xs) =
    target * sum_list (map f xs) - original * sum_list (map (\<lambda>s. target * f s div original) xs)"
  by (induction xs) (simp_all add: algebra_simps minus_mult_div_eq_mod [symmetric])

lemma sum_remainders:
  fixes r :: "'a \<Rightarrow> int"
  assumes "\<And>s. 0 \<le> r s \<and> r s < original" "sum_list (map r xs) = original * k" "0 < original"
  shows "0 \<le> k \<and> k \<le> int (length (filter (\<lambda>s. r s \<noteq> 0) xs))"
proof -
  have nonneg: "0 \<le> sum_list (map r xs)" using assms(1) by (intro sum_list_nonneg) auto
  have bound: "sum_list (map r xs) \<le> original * int (length (filter (\<lambda>s. r s \<noteq> 0) xs))"
  proof (induction xs)
    case (Cons x xs)
    then show ?case using assms(1) [of x] by (simp add: algebra_simps)
  qed simp
  have "0 \<le> k" using nonneg assms(2,3) by (simp add: zero_le_mult_iff)
  moreover have "k \<le> int (length (filter (\<lambda>s. r s \<noteq> 0) xs))" using bound assms(2,3) by simp
  ultimately show ?thesis by simp
qed

lemma taken_nonzero:
  fixes r :: "'a \<Rightarrow> int"
  assumes "sorted (map (\<lambda>s. (- r s, g s)) xs)" "\<And>s. 0 \<le> r s" "k \<le> length (filter (\<lambda>s. r s \<noteq> 0) xs)" "x \<in> set (take k xs)"
  shows "r x \<noteq> 0"
proof
  assume zero: "r x = 0"
  obtain i where i: "i < k" "i < length xs" "xs ! i = x" using assms(4) by (auto simp: in_set_conv_nth)
  have "filter (\<lambda>s. r s \<noteq> 0) (drop i xs) = []"
  proof (rule filter_False, safe)
    fix y assume "y \<in> set (drop i xs)" "r y \<noteq> 0"
    then obtain j where "j < length (drop i xs)" "drop i xs ! j = y" by (auto simp: in_set_conv_nth)
    then have j: "i + j < length xs" "xs ! (i + j) = y" by simp_all
    have "(- r x, g x) \<le> (- r y, g y)" using sorted_nth_mono [OF assms(1), of i "i + j"] i j by simp
    then show False using zero \<open>r y \<noteq> 0\<close> assms(2) [of y] by (auto simp: less_eq_prod_def)
  qed
  then have "filter (\<lambda>s. r s \<noteq> 0) xs = filter (\<lambda>s. r s \<noteq> 0) (take i xs)"
    by (metis append_Nil2 append_take_drop_id filter_append)
  then have "length (filter (\<lambda>s. r s \<noteq> 0) xs) \<le> i"
    by (metis length_filter_le length_take min.cobounded2 order_trans)
  then show False using assms(3) i(1) by simp
qed

lemma distinct_key_once: "distinct (map f xs) \<Longrightarrow> length (filter (\<lambda>x. f x = k) xs) \<le> 1"
  by (induction xs) (auto simp: filter_empty_conv intro: rev_image_eqI)

lemma pool_split:
  assumes "distinct (map sp_id sources)" "\<forall>s \<in> set sources. 0 \<le> sp_logical s" "0 < sum_list (map sp_logical sources)"
  shows "csum (allocate_pool_counts sources target) = target \<and>
    (\<forall>s \<in> set sources. \<bar>cget (allocate_pool_counts sources target) (sp_id s) * sum_list (map sp_logical sources) - target * sp_logical s\<bar>
       < sum_list (map sp_logical sources))"
proof -
  define original where "original = sum_list (map sp_logical sources)"
  define r :: "spawn_source \<Rightarrow> int" where "r = (\<lambda>s. target * sp_logical s mod original)"
  define counts where "counts = count_map (\<lambda>s. target * sp_logical s div original) sources"
  define order where "order = sort_key (\<lambda>s. (- r s, sp_id s)) sources"
  define k where "k = target - csum counts"
  have pos: "0 < original" using assms(3) by (simp add: original_def)
  have r_eq: "r s = target * sp_logical s mod original" for s by (simp add: r_def)
  have r: "0 \<le> r s \<and> r s < original" for s using pos by (simp add: r_def)
  note counts = count_map_result [OF assms(1), of "\<lambda>s. target * sp_logical s div original", folded counts_def]
  have "sum_list (map r sources) = original * k"
    using sum_floors [OF pos, of target sp_logical sources] counts by (simp add: r_def k_def original_def algebra_simps)
  then have k: "0 \<le> k" "k \<le> int (length (filter (\<lambda>s. r s \<noteq> 0) sources))"
    using sum_remainders [of r original sources k] r pos by auto
  have order: "mset order = mset sources" "sorted (map (\<lambda>s. (- r s, sp_id s)) order)" by (simp_all add: order_def)
  have len: "length (filter (\<lambda>s. r s \<noteq> 0) order) = length (filter (\<lambda>s. r s \<noteq> 0) sources)"
    by (metis mset_filter order(1) size_mset)
  define given where "given = take (nat k) order"
  have "csum counts \<le> target" using k(1) by (simp add: k_def)
  then have result: "allocate_pool_counts sources target = foldl (\<lambda>c s. cadd (sp_id s) 1 c) counts given"
    using pos k(1) by (simp add: allocate_pool_counts_def Let_def original_def [symmetric] counts_def [symmetric] r_eq [symmetric]
        order_def [symmetric] k_def [symmetric] slice_to_def given_def)
  have "length given = nat k" using k(2) len length_filter_le [of "\<lambda>s. r s \<noteq> 0" order] by (simp add: given_def)
  then have "csum (allocate_pool_counts sources target) = target"
    using csum_adds [of counts sp_id "\<lambda>_. 1" given] counts k(1) by (simp add: result sum_list_triv k_def)
  moreover have "\<bar>cget (allocate_pool_counts sources target) (sp_id s) * original - target * sp_logical s\<bar> < original"
    if s: "s \<in> set sources" for s
  proof -
    define extra where "extra = int (length (filter (\<lambda>x. sp_id x = sp_id s) given))"
    have "distinct (map sp_id given)"
      using assms(1) order(1) by (metis distinct_map distinct_take given_def mset_eq_imp_distinct_iff mset_map take_map)
    from distinct_key_once [OF this, of "sp_id s"] have "extra \<in> {0, 1}" by (auto simp: extra_def le_Suc_eq)
    moreover have "r s \<noteq> 0" if "extra = 1"
    proof -
      from that have "filter (\<lambda>x. sp_id x = sp_id s) given \<noteq> []" by (auto simp: extra_def)
      then obtain x where x: "x \<in> set given" "sp_id x = sp_id s" by (auto simp: filter_empty_conv)
      then have "x \<in> set sources" using order(1) by (metis given_def in_set_takeD mset_eq_setD)
      then have "x = s" using x(2) s assms(1) by (auto simp: distinct_map dest: inj_onD)
      with taken_nonzero [OF order(2), of "nat k" x] x(1) r k len show ?thesis by (simp add: given_def)
    qed
    moreover have "cget (allocate_pool_counts sources target) (sp_id s) = target * sp_logical s div original + extra"
      using counts s by (simp add: result cget_adds extra_def sum_list_triv)
    moreover have "target * sp_logical s div original * original = target * sp_logical s - r s"
      by (simp add: r_def minus_mod_eq_div_mult [symmetric])
    ultimately show ?thesis using r [of s] by (auto simp: distrib_right)
  qed
  ultimately show ?thesis by (simp add: original_def)
qed


definition sample_spawn :: "string \<Rightarrow> int \<Rightarrow> int \<Rightarrow> spawn_source" where
  "sample_spawn i logical_count maximum =
     \<lparr>sp_id = i, sp_logical = logical_count, sp_maximum = maximum, sp_renews = None, sp_allowed = []\<rparr>"

lemma sample_spawn_simps [simp]:
  "sp_id (sample_spawn i n m) = i" "sp_logical (sample_spawn i n m) = n" "sp_maximum (sample_spawn i n m) = m"
  by (simp_all add: sample_spawn_def)


end
