(* ===== verification/Enemy_Allocation.thy ===== *)
theory Enemy_Allocation
  imports Enemy_Budget
begin

text \<open>
  What the allocation of \<open>Enemy_Budget\<close> guarantees: it always returns, meets the target exactly
  when a spawn emits one body per count, and otherwise finds the best total there is.
\<close>

section \<open>The allocation always meets the target\<close>

definition emitted_by :: "spawn_source list \<Rightarrow> (spawn_source \<Rightarrow> int) \<Rightarrow> int" where
  "emitted_by sources f = sum_list (map (\<lambda>s. emissions s (f s)) sources)"

definition source_ok :: "spawn_source \<Rightarrow> bool" where
  "source_ok s \<longleftrightarrow> 0 < sp_logical s \<and> 0 < sp_maximum s"

lemma emissions_bounds:
  assumes "source_ok s" "0 \<le> n"
  shows "0 \<le> emissions s n" "emissions s 0 = 0" "emissions s n \<le> t \<Longrightarrow> n \<le> t * sp_logical s div sp_maximum s" "m \<le> n \<Longrightarrow> emissions s m \<le> emissions s n"
proof -
  have pos: "0 < sp_logical s" "0 < sp_maximum s" using assms by (auto simp: source_ok_def)
  have "0 \<le> sp_maximum s * n" using pos assms(2) by simp
  then show "0 \<le> emissions s n" using pos by (simp add: emissions_def pos_imp_zdiv_nonneg_iff)
  show "emissions s 0 = 0" using pos by (simp add: emissions_def div_pos_pos_trivial)
  have "m \<le> n \<Longrightarrow> sp_maximum s * m \<le> sp_maximum s * n" using pos by simp
  then show "m \<le> n \<Longrightarrow> emissions s m \<le> emissions s n" using pos by (auto simp: emissions_def intro!: zdiv_mono1 diff_mono add_mono)
  assume "emissions s n \<le> t"
  then have "(emissions s n + 1) * sp_logical s \<le> (t + 1) * sp_logical s" using pos by simp
  moreover have "sp_maximum s * n + sp_logical s - 1 < (emissions s n + 1) * sp_logical s"
    using pos_mod_bound [OF pos(1), of "sp_maximum s * n + sp_logical s - 1"]
      div_mult_mod_eq [of "sp_maximum s * n + sp_logical s - 1" "sp_logical s"]
    by (simp only: emissions_def distrib_right)
  ultimately have "sp_maximum s * n + sp_logical s - 1 < (t + 1) * sp_logical s" by simp
  then have "n * sp_maximum s \<le> t * sp_logical s" by (simp add: algebra_simps)
  from zdiv_mono1 [OF this pos(2)] show "n \<le> t * sp_logical s div sp_maximum s" using pos by simp
qed

lemma emissions_single: "source_ok s \<Longrightarrow> single s \<Longrightarrow> emissions s n = n"
  by (simp add: emissions_def single_def source_ok_def add_diff_eq [symmetric] div_pos_pos_trivial)

lemma emitted_by_cput:
  assumes "distinct (map sp_id sources)" "s \<in> set sources"
  shows "emitted_by sources (\<lambda>x. if sp_id x = sp_id s then m else cget c (sp_id x)) =
    emitted_by sources (\<lambda>x. cget c (sp_id x)) - emissions s (cget c (sp_id s)) + emissions s m"
  using assms
proof (induction sources)
  case (Cons a xs)
  show ?case
  proof (cases "a = s")
    case True
    with Cons.prems have "\<And>x. x \<in> set xs \<Longrightarrow> sp_id x \<noteq> sp_id s" by (auto intro: rev_image_eqI)
    with True show ?thesis by (simp add: emitted_by_def cong: map_cong)
  next
    case False
    with Cons.prems have "s \<in> set xs" "sp_id a \<noteq> sp_id s" by (auto intro: rev_image_eqI)
    with Cons show ?thesis by (simp add: emitted_by_def)
  qed
qed simp

lemma first_max_member: "first_max f m xs \<in> set (m # xs)"
  by (induction xs arbitrary: m) (auto split: if_splits)

lemma largest_emitter_Some: "largest_emitter sources counts = Some s \<Longrightarrow> s \<in> set sources \<and> cget counts (sp_id s) \<noteq> 0"
proof -
  assume some: "largest_emitter sources counts = Some s"
  then obtain a xs where "filter (\<lambda>s. cget counts (sp_id s) \<noteq> 0) sources = a # xs" "s = first_max (\<lambda>s. emissions s (cget counts (sp_id s))) a xs"
    by (auto simp: largest_emitter_def split: list.splits)
  then have "s \<in> set (filter (\<lambda>s. cget counts (sp_id s) \<noteq> 0) sources)" using first_max_member by metis
  then show ?thesis by simp
qed

lemma largest_emitter_None: "largest_emitter sources counts = None \<Longrightarrow> s \<in> set sources \<Longrightarrow> cget counts (sp_id s) = 0"
  by (auto simp: largest_emitter_def filter_empty_conv split: list.splits)

lemma shrink_counts_result:
  assumes "distinct (map sp_id sources)" "\<forall>s \<in> set sources. source_ok s" "0 \<le> target"
  shows "emitted = emitted_by sources (\<lambda>s. cget counts (sp_id s)) \<Longrightarrow> \<forall>s \<in> set sources. 0 \<le> cget counts (sp_id s) \<Longrightarrow>
    \<exists>counts' emitted'. shrink_counts sources target counts emitted = Inr (counts', emitted') \<and> emitted' \<le> target \<and>
      emitted' = emitted_by sources (\<lambda>s. cget counts' (sp_id s)) \<and> (\<forall>s \<in> set sources. 0 \<le> cget counts' (sp_id s)) \<and>
      (\<forall>k. k \<notin> sp_id ` set sources \<longrightarrow> cget counts' k = cget counts k)"
  using assms
proof (induction sources target counts emitted rule: shrink_counts.induct)
  case (1 sources target counts emitted)
  show ?case
  proof (cases "emitted \<le> target")
    case True
    with 1(2,3) show ?thesis by (simp add: shrink_counts.simps)
  next
    case False
    obtain s where s: "largest_emitter sources counts = Some s"
    proof (cases "largest_emitter sources counts")
      case None
      then have "emitted_by sources (\<lambda>s. cget counts (sp_id s)) = emitted_by sources (\<lambda>s. 0)"
        unfolding emitted_by_def by (intro arg_cong [of _ _ sum_list] map_cong) (simp_all add: largest_emitter_None)
      also have "\<dots> = sum_list (map (\<lambda>s. 0) sources)"
        using 1(5) emissions_bounds(2) unfolding emitted_by_def by (intro arg_cong [of _ _ sum_list] map_cong) auto
      also have "\<dots> = 0" by simp
      finally show ?thesis using 1(2,6) False by simp
    qed
    define n where "n = cget counts (sp_id s)"
    have n: "s \<in> set sources" "0 < n" using largest_emitter_Some [OF s] 1(3) by (auto simp: n_def order.strict_iff_order)
    have ih: "\<exists>counts' emitted'. shrink_counts sources target (cput (sp_id s) (n - 1) counts) (emitted - (emissions s n - emissions s (n - 1)))
        = Inr (counts', emitted') \<and> emitted' \<le> target \<and>
      emitted' = emitted_by sources (\<lambda>s. cget counts' (sp_id s)) \<and> (\<forall>s \<in> set sources. 0 \<le> cget counts' (sp_id s)) \<and>
      (\<forall>k. k \<notin> sp_id ` set sources \<longrightarrow> cget counts' k = cget (cput (sp_id s) (n - 1) counts) k)"
      by (rule 1(1) [OF _ s]) (use False n 1(2-) in \<open>auto simp: n_def emitted_by_cput\<close>)
    then show ?thesis using False s n by (auto simp: shrink_counts.simps [of sources target counts emitted] n_def [symmetric] Let_def)
  qed
qed

lemma cput_keys: "set (map fst (cput k n c)) = insert k (set (map fst c))"
  by (simp add: cput_def update_keys del: set_map) (auto simp: dom_map_of_conv_image_fst)

lemma pool_keys:
  "set (map fst (count_map f sources)) = sp_id ` set sources"
  "sp_id ` set xs \<subseteq> set (map fst c) \<Longrightarrow> set (map fst (foldl (\<lambda>c s. cadd (sp_id s) 1 c) c xs)) = set (map fst c)"
proof -
  show "set (map fst (count_map f sources)) = sp_id ` set sources"
    by (induction sources rule: rev_induct) (simp_all add: count_map_snoc cput_keys count_map_def [of _ "[]"] del: set_map)
  show "set (map fst (foldl (\<lambda>c s. cadd (sp_id s) 1 c) c xs)) = set (map fst c)" if "sp_id ` set xs \<subseteq> set (map fst c)"
    using that by (induction xs arbitrary: c) (simp_all add: cadd_def cput_keys insert_absorb del: set_map)
qed

lemma set_slice: "set (slice_to n xs) \<subseteq> set xs"
  by (auto simp: slice_to_def dest: in_set_takeD)

lemma pool_domain:
  assumes "distinct (map sp_id sources)" "sum_list (map sp_logical sources) \<noteq> 0"
  shows "distinct (map fst (allocate_pool_counts sources target)) \<and> set (map fst (allocate_pool_counts sources target)) = sp_id ` set sources"
proof -
  let ?counts = "count_map (\<lambda>s. target * sp_logical s div sum_list (map sp_logical sources)) sources"
  let ?given = "slice_to (target - csum ?counts) (sort_key (\<lambda>s. (- (target * sp_logical s mod sum_list (map sp_logical sources)), sp_id s)) sources)"
  have "sp_id ` set ?given \<subseteq> set (map fst ?counts)"
    unfolding pool_keys(1) by (rule image_mono) (rule order_trans [OF set_slice], simp)
  then show ?thesis using assms count_map_result [OF assms(1)] csum_adds [of ?counts sp_id "\<lambda>_. 1" ?given]
    by (simp add: allocate_pool_counts_def Let_def pool_keys del: set_map)
qed

lemma cget_sum:
  assumes "distinct (map fst c)" "distinct (map f xs)" "set (map fst c) = f ` set xs"
  shows "sum_list (map (\<lambda>x. cget c (f x)) xs) = csum c"
proof -
  have "csum c = sum_list (map (cget c) (map fst c))"
    using assms(1) by (auto simp: csum_def cget_def intro!: arg_cong [of _ _ sum_list] map_cong)
  also have "\<dots> = sum (cget c) (f ` set xs)" using sum_list_distinct_conv_sum_set [OF assms(1)] assms(3) by metis
  also have "\<dots> = sum_list (map (cget c) (map f xs))" using sum_list_distinct_conv_sum_set [OF assms(2), of "cget c"] by simp
  finally show ?thesis by (simp add: comp_def)
qed

lemma cget_Cons: "cget ((a, b) # d) k = (if a = k then b else cget d k)"
  by (simp add: cget_def)

lemma cget_absent: "k \<notin> fst ` set d \<Longrightarrow> cget d k = 0"
  by (cases "map_of d k") (auto simp: cget_def dest: map_of_SomeD intro: rev_image_eqI)

lemma cget_puts:
  assumes "distinct (map fst d)"
  shows "cget (foldl (\<lambda>c (k, n). cput k n c) c d) k = (if k \<in> set (map fst d) then cget d k else cget c k)"
  using assms
proof (induction d arbitrary: c)
  case (Cons x d)
  then show ?case by (cases x) (auto simp: cget_Cons cget_absent)
qed simp

lemma sum_list_pos:
  fixes f :: "'a \<Rightarrow> int"
  assumes "\<forall>x \<in> set xs. 0 < f x" "xs \<noteq> []"
  shows "0 < sum_list (map f xs)"
proof -
  have "0 \<le> sum_list (map f ys)" if "\<forall>x \<in> set ys. 0 < f x" for ys
    using that by (intro sum_list_nonneg) (auto intro: less_imp_le)
  then show ?thesis using assms by (cases xs) (auto intro: add_pos_nonneg)
qed

text \<open>Property C14. The allocation of a finite encounter returns and emits the target exactly, as soon as one spawn
  emits one body per count: the loop that takes bodies from the largest emitters ends, never finds
  nothing to take, and what it leaves is given to the single spawns.\<close>

theorem allocation_returns_target:
  assumes "distinct (map sp_id sources)" "\<forall>s \<in> set sources. source_ok s" "0 \<le> target" "\<exists>s \<in> set sources. single s"
  shows "\<exists>counts. allocate_counts sources target = Inr (counts, target) \<and>
    emitted_by sources (\<lambda>s. cget counts (sp_id s)) = target \<and> (\<forall>s \<in> set sources. \<not> single s \<longrightarrow> 0 \<le> cget counts (sp_id s))"
proof -
  define original where "original = sum_list (map sp_maximum sources)"
  define shared where "shared = filter (\<lambda>s. \<not> single s) sources"
  define singles where "singles = filter single sources"
  define counts where "counts = count_map (\<lambda>s. target * sp_logical s div original) shared"
  have distinct: "distinct (map sp_id shared)" "distinct (map sp_id singles)"
    using assms(1) by (simp_all add: shared_def singles_def distinct_map_filter)
  have "0 < original" unfolding original_def using assms(2,4) by (intro sum_list_pos) (auto simp: source_ok_def)
  note start = count_map_result [OF distinct(1), of "\<lambda>s. target * sp_logical s div original", folded counts_def]
  have "\<forall>s \<in> set shared. 0 \<le> cget counts (sp_id s)"
    using start assms(2,3) \<open>0 < original\<close> by (auto simp: shared_def source_ok_def pos_imp_zdiv_nonneg_iff)
  moreover have "\<forall>s \<in> set shared. source_ok s" using assms(2) by (simp add: shared_def)
  ultimately obtain counts1 emitted1 where shrunk:
    "shrink_counts shared target counts (emitted_by shared (\<lambda>s. cget counts (sp_id s))) = Inr (counts1, emitted1)"
    "emitted1 = emitted_by shared (\<lambda>s. cget counts1 (sp_id s))" "\<forall>s \<in> set shared. 0 \<le> cget counts1 (sp_id s)"
    using shrink_counts_result [OF distinct(1) _ assms(3) refl, of counts] by auto
  define pool where "pool = allocate_pool_counts singles (target - emitted1)"
  define result where "result = foldl (\<lambda>c (k, n). cput k n c) counts1 pool"
  have run: "allocate_counts sources target = Inr (result, target)"
    using assms(4) shrunk(1) by (auto simp: allocate_counts_def Let_def list_ex_iff result_def pool_def emitted_by_def
        original_def shared_def singles_def counts_def)
  obtain s0 where s0: "s0 \<in> set singles" using assms(4) by (auto simp: singles_def)
  have sum_pos: "0 < sum_list (map sp_logical singles)"
    using s0 assms(2) by (intro sum_list_pos) (auto simp: singles_def source_ok_def filter_empty_conv)
  have pool: "distinct (map fst pool)" "set (map fst pool) = sp_id ` set singles" "csum pool = target - emitted1"
    using pool_domain [OF distinct(2), of "target - emitted1"] pool_split [OF distinct(2) _ sum_pos, of "target - emitted1"] sum_pos assms(2)
    by (auto simp: pool_def singles_def source_ok_def less_imp_le)
  have shared_result: "cget result (sp_id s) = cget counts1 (sp_id s)" if "s \<in> set shared" for s
  proof -
    have "sp_id s \<notin> sp_id ` set singles" using that assms(1) by (auto simp: shared_def singles_def distinct_map dest: inj_onD)
    then show ?thesis by (simp add: result_def cget_puts [OF pool(1)] pool(2) del: set_map)
  qed
  have single_result: "cget result (sp_id s) = cget pool (sp_id s)" if "s \<in> set singles" for s
    using that pool(2) by (auto simp: result_def cget_puts [OF pool(1)])
  have "emitted_by sources (\<lambda>s. cget result (sp_id s)) =
    emitted_by shared (\<lambda>s. cget result (sp_id s)) + emitted_by singles (\<lambda>s. cget result (sp_id s))"
    unfolding emitted_by_def shared_def singles_def by (induction sources) auto
  also have "emitted_by shared (\<lambda>s. cget result (sp_id s)) = emitted1"
    unfolding shrunk(2) emitted_by_def by (simp add: shared_result cong: map_cong)
  also have "emitted_by singles (\<lambda>s. cget result (sp_id s)) = target - emitted1"
    unfolding emitted_by_def pool(3) [symmetric] cget_sum [OF pool(1) distinct(2) pool(2), symmetric]
    using assms(2) by (intro arg_cong [of _ _ sum_list] map_cong) (auto simp: single_result emissions_single singles_def)
  finally show ?thesis using run shrunk(3) shared_result by (auto simp: shared_def)
qed

section \<open>The search finds the best total\<close>

lemma extend_state_sound:
  "map_of (extend_state target dev choices (cur, cost, sel) following) t = Some (d, ns) \<Longrightarrow>
   map_of following t = Some (d, ns) \<or>
   (\<exists>n e. (n, e) \<in> set choices \<and> t = cur + e \<and> t \<le> target \<and> d = cost + dev e \<and> ns = sel @ [n])"
proof (induction target dev choices "(cur, cost, sel)" following rule: extend_state.induct)
  case (2 target dev n e choices following)
  show ?case
  proof (cases "target < cur + e")
    case False
    from 2(1) [OF refl refl False] 2(2) False show ?thesis
      by (auto simp: Let_def map_of_update split: if_splits)
  qed (use 2(2) in simp)
qed simp

lemma extend_state_improves:
  "map_of following t = Some (d, ns) \<Longrightarrow>
   \<exists>d' ns'. map_of (extend_state target dev choices (cur, cost, sel) following) t = Some (d', ns') \<and> d' \<le> d"
proof (induction target dev choices "(cur, cost, sel)" following arbitrary: d ns rule: extend_state.induct)
  case (2 target dev n e choices following)
  show ?case
  proof (cases "target < cur + e")
    case False
    let ?next = "if (case map_of following (cur + e) of None \<Rightarrow> True | Some (d, s) \<Rightarrow> cost + dev e < d)
         then AList.update (cur + e) (cost + dev e, sel @ [n]) following else following"
    have "\<exists>d1 ns1. map_of ?next t = Some (d1, ns1) \<and> d1 \<le> d" using 2(2) by (auto simp: map_of_update)
    then obtain d1 ns1 where "map_of ?next t = Some (d1, ns1)" "d1 \<le> d" by blast
    from 2(1) [OF refl refl False this(1)] this(2) False show ?thesis by (auto simp: Let_def)
  qed (use 2(2) in simp)
qed simp

lemma extend_state_complete:
  "(n, e) \<in> set choices \<Longrightarrow> sorted (map snd choices) \<Longrightarrow> cur + e \<le> target \<Longrightarrow>
   \<exists>d ns. map_of (extend_state target dev choices (cur, cost, sel) following) (cur + e) = Some (d, ns) \<and> d \<le> cost + dev e"
proof (induction target dev choices "(cur, cost, sel)" following rule: extend_state.induct)
  case (2 target dev n' e' choices following)
  then have e': "\<not> target < cur + e'" by auto
  let ?next = "if (case map_of following (cur + e') of None \<Rightarrow> True | Some (d, s) \<Rightarrow> cost + dev e' < d)
       then AList.update (cur + e') (cost + dev e', sel @ [n']) following else following"
  show ?case
  proof (cases "(n, e) = (n', e')")
    case True
    have "\<exists>d1 ns1. map_of ?next (cur + e) = Some (d1, ns1) \<and> d1 \<le> cost + dev e"
      using True by (auto simp: map_of_update split: option.split)
    then obtain d1 ns1 where "map_of ?next (cur + e) = Some (d1, ns1)" "d1 \<le> cost + dev e" by blast
    from extend_state_improves [OF this(1), of target dev choices cur cost sel] this(2) e' show ?thesis
      by (auto simp: Let_def)
  next
    case False
    with 2 e' have "\<exists>d ns. map_of (extend_state target dev choices (cur, cost, sel) ?next) (cur + e) = Some (d, ns) \<and> d \<le> cost + dev e"
      by (intro 2(1)) auto
    then show ?thesis using e' by (auto simp: Let_def)
  qed
qed simp

lemma distinct_extend: "distinct (map fst following) \<Longrightarrow> distinct (map fst (extend_state target dev choices state following))"
proof (induction target dev choices state following rule: extend_state.induct)
  case (2 target dev n e choices cur cost sel following)
  then show ?case by (auto simp: Let_def distinct_update)
qed simp

definition step_states :: "int \<Rightarrow> (int \<Rightarrow> int) \<Rightarrow> (int \<times> int) list \<Rightarrow> alloc_states \<Rightarrow> alloc_states \<Rightarrow> alloc_states" where
  "step_states target dev choices states following =
     foldl (\<lambda>following state. extend_state target dev choices state following) following states"

lemma distinct_step: "distinct (map fst following) \<Longrightarrow> distinct (map fst (step_states target dev choices states following))"
  by (induction states arbitrary: following) (simp_all add: step_states_def distinct_extend)

lemma step_states_sound:
  "map_of (step_states target dev choices states following) t = Some (d, ns) \<Longrightarrow>
   map_of following t = Some (d, ns) \<or>
   (\<exists>cur cost sel n e. (cur, cost, sel) \<in> set states \<and> (n, e) \<in> set choices \<and> t = cur + e \<and> t \<le> target \<and> d = cost + dev e \<and> ns = sel @ [n])"
proof (induction states arbitrary: following)
  case (Cons state states)
  obtain cur cost sel where state: "state = (cur, cost, sel)" by (cases state)
  from Cons.IH [of "extend_state target dev choices state following"] Cons.prems
    extend_state_sound [of target dev choices cur cost sel following t d ns]
  show ?case by (fastforce simp: step_states_def state)
qed (simp add: step_states_def)

lemma step_states_improves:
  "map_of following t = Some (d, ns) \<Longrightarrow>
   \<exists>d' ns'. map_of (step_states target dev choices states following) t = Some (d', ns') \<and> d' \<le> d"
proof (induction states arbitrary: following d ns)
  case (Cons state states)
  obtain cur cost sel where state: "state = (cur, cost, sel)" by (cases state)
  from extend_state_improves [OF Cons.prems, of target dev choices cur cost sel] obtain d1 ns1
    where one: "map_of (extend_state target dev choices state following) t = Some (d1, ns1)" "d1 \<le> d" by (auto simp: state)
  from Cons.IH [OF one(1)] one(2) show ?case by (force simp: step_states_def)
qed (simp add: step_states_def)

lemma step_states_complete:
  "(cur, cost, sel) \<in> set states \<Longrightarrow> (n, e) \<in> set choices \<Longrightarrow> sorted (map snd choices) \<Longrightarrow> cur + e \<le> target \<Longrightarrow>
   \<exists>d ns. map_of (step_states target dev choices states following) (cur + e) = Some (d, ns) \<and> d \<le> cost + dev e"
proof (induction states arbitrary: following)
  case (Cons state states)
  show ?case
  proof (cases "state = (cur, cost, sel)")
    case True
    from extend_state_complete [OF Cons.prems(2-), of dev cost sel following] obtain d1 ns1
      where one: "map_of (extend_state target dev choices state following) (cur + e) = Some (d1, ns1)" "d1 \<le> cost + dev e" by (auto simp: True)
    from step_states_improves [OF one(1), of target dev choices states] one(2) show ?thesis by (force simp: step_states_def)
  next
    case False
    with Cons show ?thesis by (simp add: step_states_def)
  qed
qed simp

lemma next_states_step: "next_states original target s states = step_states target (deviation_of original target s) (choices_of target s) states []"
  by (simp add: next_states_def step_states_def)

text \<open>The total and the distance of a list of counts.\<close>

definition total_of :: "spawn_source list \<Rightarrow> int list \<Rightarrow> int" where
  "total_of sources ns = sum_list (map (\<lambda>(s, n). emissions s n) (zip sources ns))"

definition distance_of :: "int \<Rightarrow> int \<Rightarrow> spawn_source list \<Rightarrow> int list \<Rightarrow> int" where
  "distance_of original target sources ns = sum_list (map (\<lambda>(s, n). deviation_of original target s (emissions s n)) (zip sources ns))"

lemma total_of_snoc: "length sources = length ns \<Longrightarrow> total_of (sources @ [s]) (ns @ [n]) = total_of sources ns + emissions s n"
  "length sources = length ns \<Longrightarrow> distance_of original target (sources @ [s]) (ns @ [n]) =
     distance_of original target sources ns + deviation_of original target s (emissions s n)"
  by (simp_all add: total_of_def distance_of_def)

lemma choices_of_iff:
  assumes "source_ok s"
  shows "(n, e) \<in> set (choices_of target s) \<longleftrightarrow> 0 \<le> n \<and> n \<le> target * sp_logical s div sp_maximum s \<and> e = emissions s n"
    "sorted (map snd (choices_of target s))"
proof -
  show "(n, e) \<in> set (choices_of target s) \<longleftrightarrow> 0 \<le> n \<and> n \<le> target * sp_logical s div sp_maximum s \<and> e = emissions s n"
    by (auto simp: choices_of_def)
  have "sorted (map (emissions s) (filter (\<lambda>n. 0 \<le> n) [0..m]))" for m
    using emissions_bounds(4) [OF assms] by (intro sorted_map_mono) (auto simp: mono_on_def)
  then show "sorted (map snd (choices_of target s))" by (simp add: choices_of_def comp_def)
qed

lemma search_states_sound:
  assumes "\<forall>s \<in> set sources. source_ok s"
  shows "distinct (map fst (search_states original target sources)) \<and>
    (map_of (search_states original target sources) t = Some (d, ns) \<longrightarrow>
      length ns = length sources \<and> (\<forall>n \<in> set ns. 0 \<le> n) \<and> t = total_of sources ns \<and> d = distance_of original target sources ns \<and>
      (0 \<le> target \<longrightarrow> t \<le> target))"
  using assms
proof (induction sources arbitrary: t d ns rule: rev_induct)
  case (snoc s sources)
  let ?states = "search_states original target sources"
  have states: "search_states original target (sources @ [s]) = next_states original target s ?states"
    by (simp add: search_states_def)
  have dist: "distinct (map fst ?states)" using snoc by auto
  have "length ns = length (sources @ [s]) \<and> (\<forall>n \<in> set ns. 0 \<le> n) \<and> t = total_of (sources @ [s]) ns \<and>
      d = distance_of original target (sources @ [s]) ns \<and> (0 \<le> target \<longrightarrow> t \<le> target)"
    if "map_of (search_states original target (sources @ [s])) t = Some (d, ns)"
  proof -
    from step_states_sound [OF that [unfolded states next_states_step]] obtain cur cost sel n e where step:
      "(cur, cost, sel) \<in> set ?states" "(n, e) \<in> set (choices_of target s)" "t = cur + e" "t \<le> target"
      "d = cost + deviation_of original target s e" "ns = sel @ [n]" by auto
    from step(1) dist have "map_of ?states cur = Some (cost, sel)" by simp
    with snoc have "length sel = length sources" "\<forall>n \<in> set sel. 0 \<le> n" "cur = total_of sources sel" "cost = distance_of original target sources sel"
      by auto
    with step snoc.prems show ?thesis by (auto simp: total_of_snoc choices_of_iff)
  qed
  then show ?case by (auto simp: states next_states_step distinct_step)
qed (auto simp: search_states_def total_of_def distance_of_def split: if_splits)

lemma search_states_complete:
  assumes "\<forall>s \<in> set sources. source_ok s" "length ns = length sources" "\<forall>n \<in> set ns. 0 \<le> n" "total_of sources ns \<le> target"
  shows "\<exists>d ms. map_of (search_states original target sources) (total_of sources ns) = Some (d, ms) \<and> d \<le> distance_of original target sources ns"
  using assms
proof (induction sources arbitrary: ns rule: rev_induct)
  case (snoc s sources)
  obtain ms n where ns: "ns = ms @ [n]" "length ms = length sources" using snoc.prems(2) by (metis length_append_singleton length_Suc_conv_rev)
  have ok: "source_ok s" "0 \<le> n" "\<forall>n \<in> set ms. 0 \<le> n" using snoc.prems ns by auto
  have total: "total_of (sources @ [s]) ns = total_of sources ms + emissions s n" using ns total_of_snoc by simp
  have nonneg: "0 \<le> total_of sources ms"
    unfolding total_of_def
  proof (intro sum_list_nonneg)
    fix x assume "x \<in> set (map (\<lambda>(s, n). emissions s n) (zip sources ms))"
    then obtain a b where "(a, b) \<in> set (zip sources ms)" "x = emissions a b" by auto
    then show "0 \<le> x" using snoc.prems(1) ok(3) by (auto dest: set_zip_leftD set_zip_rightD intro!: emissions_bounds(1))
  qed
  have "emissions s n \<le> target" "total_of sources ms \<le> target" using snoc.prems(4) total nonneg emissions_bounds(1) [OF ok(1,2)] by auto
  with snoc.IH [of ms] snoc.prems(1) ns ok obtain d js where
    prefix: "map_of (search_states original target sources) (total_of sources ms) = Some (d, js)" "d \<le> distance_of original target sources ms" by auto
  have "(n, emissions s n) \<in> set (choices_of target s)"
    using emissions_bounds(3) [OF ok(1,2) \<open>emissions s n \<le> target\<close>] ok by (simp add: choices_of_iff)
  from step_states_complete [OF map_of_SomeD [OF prefix(1)] this choices_of_iff(2) [OF ok(1)], of target "deviation_of original target s" "[]"]
  show ?case using prefix(2) snoc.prems(4) total ns total_of_snoc(2) [of sources ms]
    by (force simp: search_states_def next_states_step)
qed (simp add: search_states_def total_of_def distance_of_def)

lemma foldl_max: "foldl max t ts \<in> set (t # ts) \<and> (\<forall>x \<in> set (t # ts). x \<le> foldl max (t::int) ts)"
proof (induction ts arbitrary: t)
  case (Cons a ts)
  from Cons.IH [of "max t a"] show ?case by (auto simp: max_def split: if_splits)
qed simp

lemma assigned_counts:
  "distinct (map sp_id xs) \<Longrightarrow> length ns = length xs \<Longrightarrow>
   map (\<lambda>s. cget (foldl (\<lambda>c (s, n). cput (sp_id s) n c) c (zip xs ns)) (sp_id s)) xs = ns \<and>
   (\<forall>k. k \<notin> sp_id ` set xs \<longrightarrow> cget (foldl (\<lambda>c (s, n). cput (sp_id s) n c) c (zip xs ns)) k = cget c k)"
proof (induction xs arbitrary: ns c)
  case (Cons x xs)
  then obtain m ms where "ns = m # ms" by (cases ns) auto
  with Cons.IH [of ms "cput (sp_id x) m c"] Cons.prems show ?case by auto
qed simp

lemma map_totals:
  "total_of sources (map f sources) = emitted_by sources f"
  "distance_of original target sources (map f sources) = sum_list (map (\<lambda>s. deviation_of original target s (emissions s (f s))) sources)"
  by (induction sources) (simp_all add: total_of_def distance_of_def emitted_by_def)

text \<open>Property C13. Where every spawn emits in bursts, the allocation equals an exhaustive search: its total stays
  within the target, no other choice of counts within the target emits more, and none that emits as
  much is closer to the native proportions of the spawns.\<close>

theorem allocation_is_optimal:
  assumes "distinct (map sp_id sources)" "\<forall>s \<in> set sources. source_ok s \<and> \<not> single s" "sources \<noteq> []" "0 \<le> target"
  shows "\<exists>counts emitted. allocate_counts sources target = Inr (counts, emitted) \<and> emitted \<le> target \<and>
    emitted = emitted_by sources (\<lambda>s. cget counts (sp_id s)) \<and> (\<forall>s \<in> set sources. 0 \<le> cget counts (sp_id s)) \<and>
    (\<forall>f. (\<forall>s \<in> set sources. 0 \<le> f s) \<and> emitted_by sources f \<le> target \<longrightarrow>
       emitted_by sources f \<le> emitted \<and>
       (emitted_by sources f = emitted \<longrightarrow>
         sum_list (map (\<lambda>s. deviation_of (sum_list (map sp_maximum sources)) target s (emissions s (cget counts (sp_id s)))) sources)
         \<le> sum_list (map (\<lambda>s. deviation_of (sum_list (map sp_maximum sources)) target s (emissions s (f s))) sources)))"
proof -
  let ?states = "search_states (sum_list (map sp_maximum sources)) target sources"
  have ok: "\<forall>s \<in> set sources. source_ok s" using assms(2) by simp
  note sound = search_states_sound [OF ok, of "sum_list (map sp_maximum sources)" target]
  have complete: "\<exists>d ms. map_of ?states (emitted_by sources f) = Some (d, ms) \<and>
      d \<le> sum_list (map (\<lambda>s. deviation_of (sum_list (map sp_maximum sources)) target s (emissions s (f s))) sources)"
    if "\<forall>s \<in> set sources. 0 \<le> f s" "emitted_by sources f \<le> target" for f
    using search_states_complete [OF ok, of "map f sources" target "sum_list (map sp_maximum sources)"] that
    by (simp add: map_totals)
  have "emitted_by sources (\<lambda>s. 0) = 0" using ok emissions_bounds(2) [of _ 0] by (simp add: emitted_by_def cong: map_cong)
  with complete [of "\<lambda>s. 0"] assms(4) obtain t state states where states: "?states = (t, state) # states" by (cases ?states) auto
  define best where "best = foldl max t (map fst states)"
  from foldl_max [of t "map fst states"] have best: "best \<in> fst ` set ?states" "\<forall>x \<in> fst ` set ?states. x \<le> best"
    by (auto simp: best_def states)
  from best(1) obtain d ns where found: "map_of ?states best = Some (d, ns)"
    by (metis domD dom_map_of_conv_image_fst surj_pair)
  with sound have sel: "length ns = length sources" "\<forall>n \<in> set ns. 0 \<le> n" "best = total_of sources ns"
    "d = distance_of (sum_list (map sp_maximum sources)) target sources ns" "best \<le> target"
    using assms(4) by blast+
  define counts where "counts = foldl (\<lambda>c (s, n). cput (sp_id s) n c) [] (zip sources ns)"
  have counts: "map (\<lambda>s. cget counts (sp_id s)) sources = ns"
    using assigned_counts [OF assms(1) sel(1), of "[]"] by (simp add: counts_def)
  then have total: "best = emitted_by sources (\<lambda>s. cget counts (sp_id s))"
    using map_totals(1) [of sources "\<lambda>s. cget counts (sp_id s)"] sel(3) by simp
  have "\<not> list_ex single sources" using assms(2) by (simp add: list_ex_iff)
  moreover have "chosen_counts ?states = Some ns"
    using found by (simp only: chosen_counts_def states best_def list.case prod.case) simp
  ultimately have run: "allocate_counts sources target = Inr (counts, best)"
    using assms(3) total by (simp add: allocate_counts_def Let_def counts_def emitted_by_def)
  have "\<forall>s \<in> set sources. 0 \<le> cget counts (sp_id s)" using counts sel(2) by (metis (mono_tags) imageI set_map)
  moreover have "emitted_by sources f \<le> best \<and> (emitted_by sources f = best \<longrightarrow>
      sum_list (map (\<lambda>s. deviation_of (sum_list (map sp_maximum sources)) target s (emissions s (cget counts (sp_id s)))) sources)
      \<le> sum_list (map (\<lambda>s. deviation_of (sum_list (map sp_maximum sources)) target s (emissions s (f s))) sources))"
    if "(\<forall>s \<in> set sources. 0 \<le> f s) \<and> emitted_by sources f \<le> target" for f
  proof -
    from complete [of f] that obtain e ms where reached: "map_of ?states (emitted_by sources f) = Some (e, ms)"
      "e \<le> sum_list (map (\<lambda>s. deviation_of (sum_list (map sp_maximum sources)) target s (emissions s (f s))) sources)" by auto
    then have "emitted_by sources f \<le> best" using best(2) by (metis fst_conv imageI map_of_SomeD)
    moreover have "d \<le> sum_list (map (\<lambda>s. deviation_of (sum_list (map sp_maximum sources)) target s (emissions s (f s))) sources)"
      if "emitted_by sources f = best" using reached found that by simp
    ultimately show ?thesis
      using sel(4) counts map_totals(2) [of "sum_list (map sp_maximum sources)" target sources "\<lambda>s. cget counts (sp_id s)"] by simp
  qed
  ultimately show ?thesis using run sel(5) total by blast
qed

lemma sample_spawn_kinds [simp]:
  "source_ok (sample_spawn i n m) \<longleftrightarrow> 0 < n \<and> 0 < m" "single (sample_spawn i n m) \<longleftrightarrow> n = m"
  by (simp_all add: source_ok_def single_def)

theorem allocation_returns_target_witness:
  "\<exists>counts. allocate_counts [sample_spawn ''a'' 2 2, sample_spawn ''b'' 2 6] 5 = Inr (counts, 5) \<and>
    emitted_by [sample_spawn ''a'' 2 2, sample_spawn ''b'' 2 6] (\<lambda>s. cget counts (sp_id s)) = 5"
  using allocation_returns_target [of "[sample_spawn ''a'' 2 2, sample_spawn ''b'' 2 6]" 5] by auto

theorem allocation_is_optimal_witness:
  "\<exists>counts emitted. allocate_counts [sample_spawn ''b'' 2 6, sample_spawn ''c'' 3 7] 8 = Inr (counts, emitted) \<and>
    emitted \<le> 8 \<and> 8 \<le> emitted"
proof -
  let ?sources = "[sample_spawn ''b'' 2 6, sample_spawn ''c'' 3 7]"
  from allocation_is_optimal [of ?sources 8] obtain counts emitted where
    best: "allocate_counts ?sources 8 = Inr (counts, emitted)" "emitted \<le> 8"
      "\<And>f. (\<forall>s \<in> set ?sources. 0 \<le> f s) \<Longrightarrow> emitted_by ?sources f \<le> 8 \<Longrightarrow> emitted_by ?sources f \<le> emitted" by auto
  have "emitted_by ?sources (\<lambda>s. if sp_id s = ''b'' then 1 else 2) = 8" by (simp add: emitted_by_def emissions_def)
  with best(3) [of "\<lambda>s. if sp_id s = ''b'' then 1 else 2"] best(1,2) show ?thesis by auto
qed

end
