(* ===== verification/Enemy_Balance.thy ===== *)
theory Enemy_Balance
  imports Enemy_Allocation
begin

text \<open>
  What the budgets of \<open>Enemy_Budget\<close> guarantee: the selection of bodies for a category is a best
  subset, a scaled threat budget adds up to the encounter's total, and reserving ammunition moves
  bodies without losing any.
\<close>

section \<open>The selection is a best subset\<close>

definition add_one :: "int \<Rightarrow> int \<Rightarrow> nat \<Rightarrow> subset_states \<Rightarrow> int \<times> nat list \<Rightarrow> subset_states" where
  "add_one needed weight index st = (\<lambda>(t, selected).
     if t + weight \<le> needed \<and> map_of st (t + weight) = None then st @ [(t + weight, selected @ [index])] else st)"

lemma add_index_fold: "add_index needed weight index states = foldl (add_one needed weight index) states (rev states)"
  by (simp add: add_index_def add_one_def [abs_def] case_prod_beta)

lemma add_one_sound:
  "e \<in> set (foldl (add_one needed w i) st xs) \<Longrightarrow> e \<in> set st \<or> (\<exists>t sel. (t, sel) \<in> set xs \<and> t + w \<le> needed \<and> e = (t + w, sel @ [i]))"
proof (induction xs arbitrary: st)
  case (Cons x xs)
  have "e \<in> set (add_one needed w i st x) \<Longrightarrow> e \<in> set st \<or> (\<exists>t sel. (t, sel) = x \<and> t + w \<le> needed \<and> e = (t + w, sel @ [i]))"
    by (cases x) (auto simp: add_one_def split: if_splits)
  with Cons.IH [of "add_one needed w i st x"] Cons.prems show ?case by (metis foldl_Cons list.set_intros)
qed simp

lemma add_one_keeps: "set st \<subseteq> set (foldl (add_one needed w i) st xs)"
proof (induction xs arbitrary: st)
  case (Cons x xs)
  have "set st \<subseteq> set (add_one needed w i st x)" by (cases x) (auto simp: add_one_def)
  with Cons.IH [of "add_one needed w i st x"] show ?case by auto
qed simp

lemma add_one_complete:
  "(t, sel) \<in> set xs \<Longrightarrow> t + w \<le> needed \<Longrightarrow> t + w \<in> fst ` set (foldl (add_one needed w i) st xs)"
proof (induction xs arbitrary: st)
  case (Cons x xs)
  show ?case
  proof (cases "x = (t, sel)")
    case True
    have "t + w \<in> fst ` set (add_one needed w i st x)"
      using Cons.prems(2) by (auto simp: True add_one_def image_iff map_of_eq_None_iff)
    with add_one_keeps [of "add_one needed w i st x" needed w i xs] show ?thesis by auto
  next
    case False
    with Cons show ?thesis by simp
  qed
qed simp

abbreviation weight_of :: "(nat \<Rightarrow> int) \<Rightarrow> nat list \<Rightarrow> int" where
  "weight_of weight xs \<equiv> sum_list (map weight xs)"

definition subset_inv :: "(nat \<Rightarrow> int) \<Rightarrow> int \<Rightarrow> nat list \<Rightarrow> subset_states \<Rightarrow> bool" where
  "subset_inv weight needed done states \<longleftrightarrow>
     (\<forall>(t, sel) \<in> set states. subseq sel done \<and> t = weight_of weight sel \<and> t \<le> needed) \<and>
     (\<forall>xs. subseq xs done \<and> weight_of weight xs \<le> needed \<longrightarrow> weight_of weight xs \<in> fst ` set states)"

lemma subseq_snoc: "subseq xs (ys @ [y]) \<longleftrightarrow> subseq xs ys \<or> (\<exists>zs. xs = zs @ [y] \<and> subseq zs ys)"
proof -
  have last: "subseq vs [y] \<longleftrightarrow> vs = [] \<or> vs = [y]" for vs
    by (cases vs) (auto elim: list_emb.cases simp: subseq_Cons')
  show ?thesis by (auto simp: subseq_append_iff last)
qed

lemma subset_inv_step:
  assumes "subset_inv weight needed done states" "0 \<le> weight i"
  shows "subset_inv weight needed (done @ [i]) (add_index needed (weight i) i states)"
  unfolding subset_inv_def
proof (intro conjI allI impI)
  show "\<forall>(t, sel) \<in> set (add_index needed (weight i) i states). subseq sel (done @ [i]) \<and> t = weight_of weight sel \<and> t \<le> needed"
  proof (safe)
    fix t sel assume "(t, sel) \<in> set (add_index needed (weight i) i states)"
    then have "(t, sel) \<in> set states \<or> (\<exists>t0 sel0. (t0, sel0) \<in> set states \<and> t0 + weight i \<le> needed \<and> (t, sel) = (t0 + weight i, sel0 @ [i]))"
      using add_one_sound [of "(t, sel)" needed "weight i" i states "rev states"] by (simp add: add_index_fold)
    then show "subseq sel (done @ [i])" "t = weight_of weight sel" "t \<le> needed"
      using assms(1) by (auto simp: subset_inv_def subseq_snoc)
  qed
  fix xs assume xs: "subseq xs (done @ [i]) \<and> weight_of weight xs \<le> needed"
  show "weight_of weight xs \<in> fst ` set (add_index needed (weight i) i states)"
  proof (cases "subseq xs done")
    case True
    with xs assms(1) have "weight_of weight xs \<in> fst ` set states" by (simp add: subset_inv_def)
    then show ?thesis using add_one_keeps [of states needed "weight i" i "rev states"] by (auto simp: add_index_fold)
  next
    case False
    with xs obtain zs where zs: "xs = zs @ [i]" "subseq zs done" by (auto simp: subseq_snoc)
    with xs assms have "weight_of weight zs \<in> fst ` set states" by (simp add: subset_inv_def)
    then obtain sel where "(weight_of weight zs, sel) \<in> set (rev states)" by auto
    from add_one_complete [OF this, of "weight i" needed i states] xs zs show ?thesis by (simp add: add_index_fold)
  qed
qed

lemma subset_search_best:
  assumes "subset_inv weight needed done states" "\<forall>i \<in> set candidates. 0 \<le> weight i" "0 \<le> needed"
  shows "subseq (subset_search weight needed candidates states) (done @ candidates) \<and>
    weight_of weight (subset_search weight needed candidates states) \<le> needed \<and>
    (\<forall>xs. subseq xs (done @ candidates) \<and> weight_of weight xs \<le> needed \<longrightarrow>
       weight_of weight xs \<le> weight_of weight (subset_search weight needed candidates states))"
  using assms
proof (induction weight needed candidates states arbitrary: "done" rule: subset_search.induct)
  case (1 weight needed states)
  define best where "best = foldl max 0 (map fst states)"
  have "\<forall>xs. subseq xs done \<and> weight_of weight xs \<le> needed \<longrightarrow> weight_of weight xs \<in> fst ` set states"
    using 1(1) by (simp add: subset_inv_def)
  from spec [OF this, of "[]"] 1(3) have zero: "0 \<in> fst ` set states" by simp
  have "best \<in> insert 0 (fst ` set states) \<and> (\<forall>x \<in> insert 0 (fst ` set states). x \<le> best)"
    using foldl_max [of 0 "map fst states"] by (simp add: best_def)
  then have best: "best \<in> fst ` set states" "\<forall>x \<in> fst ` set states. x \<le> best" using zero by (auto simp: insert_absorb)
  from best(1) obtain sel where sel: "map_of states best = Some sel" by (metis domD dom_map_of_conv_image_fst)
  then have "subseq sel done" "weight_of weight sel = best" "best \<le> needed" using 1(1) by (auto simp: subset_inv_def dest: map_of_SomeD)
  moreover have "subset_search weight needed [] states = sel" using sel by (simp add: best_def)
  moreover have "weight_of weight xs \<le> best" if "subseq xs done \<and> weight_of weight xs \<le> needed" for xs
    using \<open>\<forall>xs. subseq xs done \<and> _ \<longrightarrow> _\<close> best(2) that by blast
  ultimately show ?case by simp
next
  case (2 weight needed i candidates states)
  let ?states = "add_index needed (weight i) i states"
  have inv: "subset_inv weight needed (done @ [i]) ?states" using subset_inv_step [OF 2(2)] 2(3) by simp
  show ?case
  proof (cases "map_of ?states needed")
    case None
    with 2(1) [OF refl None inv] 2(3,4) show ?thesis by (simp add: Let_def)
  next
    case (Some sel)
    with inv have "subseq sel (done @ [i])" "weight_of weight sel = needed" by (auto simp: subset_inv_def dest: map_of_SomeD)
    then have "subseq sel (done @ i # candidates)" using subseq_rev_drop_many [of sel "done @ [i]" candidates] by simp
    with Some \<open>weight_of weight sel = needed\<close> show ?thesis by (simp add: Let_def)
  qed
qed

text \<open>Property C16. The bodies that carry a threat category are a best subset: those the search selects keep their
  drawing order, stay within the budget, and no other selection of the available bodies comes closer.\<close>

theorem selection_is_best:
  assumes "\<forall>i \<in> set candidates. 0 \<le> weight i" "0 \<le> needed"
  shows "subseq (subset_indices weight needed candidates) candidates \<and>
    weight_of weight (subset_indices weight needed candidates) \<le> needed \<and>
    (\<forall>xs. subseq xs candidates \<and> weight_of weight xs \<le> needed \<longrightarrow>
       weight_of weight xs \<le> weight_of weight (subset_indices weight needed candidates))"
proof -
  have "subset_inv weight needed [] [(0, [])]" using assms(2) by (auto simp: subset_inv_def dest: list_emb_Nil2)
  from subset_search_best [OF this assms] show ?thesis by (simp add: subset_indices_def)
qed

theorem selection_is_best_witness:
  "8 \<le> weight_of (\<lambda>i. [5, 4, 3, 3] ! i) (subset_indices (\<lambda>i. [5, 4, 3, 3] ! i) 8 [0, 1, 2, 3])"
  using selection_is_best [of "[0, 1, 2, 3]" "\<lambda>i. [5, 4, 3, 3] ! i" 8] by (auto dest!: spec [of _ "[0, 2]"])

section \<open>The threat budget adds up\<close>

lemma cap_threats_result:
  assumes "distinct ks" "\<forall>k \<in> set ks. 0 \<le> cget c k" "0 \<le> remainder"
  shows "sum_list (map (cget (cap_threats ks remainder c)) ks) = min remainder (sum_list (map (cget c) ks)) \<and>
    (\<forall>k \<in> set ks. 0 \<le> cget (cap_threats ks remainder c) k \<and> cget (cap_threats ks remainder c) k \<le> cget c k) \<and>
    (\<forall>k. k \<notin> set ks \<longrightarrow> cget (cap_threats ks remainder c) k = cget c k) \<and>
    (distinct (map fst c) \<longrightarrow> distinct (map fst (cap_threats ks remainder c))) \<and>
    set (map fst (cap_threats ks remainder c)) = set ks \<union> set (map fst c)"
  using assms
proof (induction ks remainder c rule: cap_threats.induct)
  case (2 k ks remainder c)
  have nonneg: "0 \<le> sum_list (map (cget c) ks)" using 2(3) by (intro sum_list_nonneg) auto
  define n where "n = min (cget c k) remainder"
  define c' where "c' = cput k n c"
  have c': "cget c' k = n" "\<And>j. j \<noteq> k \<Longrightarrow> cget c' j = cget c j" "distinct (map fst c) \<Longrightarrow> distinct (map fst c')"
    "set (map fst c') = insert k (set (map fst c))" by (simp_all add: c'_def cput_keys del: set_map)
  have k: "k \<notin> set ks" "0 \<le> remainder - n" "0 \<le> n" "n \<le> cget c k" using 2(2-) by (auto simp: n_def)
  have same: "sum_list (map (cget c') ks) = sum_list (map (cget c) ks)" using k(1) c'(2) by (metis map_cong)
  have "\<forall>j \<in> set ks. 0 \<le> cget c' j" using 2(3) k(1) c'(2) by (metis list.set_intros(2))
  then have ih: "sum_list (map (cget (cap_threats ks (remainder - n) c')) ks) = min (remainder - n) (sum_list (map (cget c) ks))"
    "\<forall>j \<in> set ks. 0 \<le> cget (cap_threats ks (remainder - n) c') j \<and> cget (cap_threats ks (remainder - n) c') j \<le> cget c' j"
    "\<forall>j. j \<notin> set ks \<longrightarrow> cget (cap_threats ks (remainder - n) c') j = cget c' j"
    "distinct (map fst c') \<longrightarrow> distinct (map fst (cap_threats ks (remainder - n) c'))"
    "set (map fst (cap_threats ks (remainder - n) c')) = set ks \<union> set (map fst c')"
    using 2(1) [OF refl] 2(2) k(2) by (auto simp: n_def [symmetric] c'_def [symmetric] same simp del: set_map)
  have head: "cget (cap_threats ks (remainder - n) c') k = n" using ih(3) k(1) c'(1) by simp
  have step: "cap_threats (k # ks) remainder c = cap_threats ks (remainder - n) c'" by (simp add: n_def c'_def Let_def)
  have "n + min (remainder - n) (sum_list (map (cget c) ks)) = min remainder (cget c k + sum_list (map (cget c) ks))"
    using nonneg k by (auto simp: n_def min_def)
  moreover have "\<forall>j \<in> set ks. cget c' j = cget c j" using k(1) c'(2) by metis
  ultimately show ?case using ih head k c' by (auto simp: step simp del: set_map cap_threats.simps)
qed auto

lemma scaled_threats:
  "distinct ks \<Longrightarrow> cget (foldl (\<lambda>c k. cput k (f k) c) c ks) j = (if j \<in> set ks then f j else cget c j)"
  "set ks \<subseteq> set (map fst c) \<Longrightarrow> set (map fst (foldl (\<lambda>c k. cput k (f k) c) c ks)) = set (map fst c)"
  "distinct (map fst c) \<Longrightarrow> distinct (map fst (foldl (\<lambda>c k. cput k (f k) c) c ks))"
proof -
  show "distinct ks \<Longrightarrow> cget (foldl (\<lambda>c k. cput k (f k) c) c ks) j = (if j \<in> set ks then f j else cget c j)"
    by (induction ks arbitrary: c) auto
  show "set ks \<subseteq> set (map fst c) \<Longrightarrow> set (map fst (foldl (\<lambda>c k. cput k (f k) c) c ks)) = set (map fst c)"
    by (induction ks arbitrary: c) (auto simp: cput_keys insert_absorb simp del: set_map)
  show "distinct (map fst c) \<Longrightarrow> distinct (map fst (foldl (\<lambda>c k. cput k (f k) c) c ks))"
    by (induction ks arbitrary: c) auto
qed

lemma csum_keys: "distinct (map fst c) \<Longrightarrow> csum c = (\<Sum>k \<in> set (map fst c). cget c k)"
proof -
  assume distinct: "distinct (map fst c)"
  then have "csum c = sum_list (map (cget c) (map fst c))"
    by (auto simp: csum_def cget_def intro!: arg_cong [of _ _ sum_list] map_cong)
  with sum_list_distinct_conv_sum_set [OF distinct, of "cget c"] show ?thesis by simp
qed

definition scaled_threat :: "counter \<Rightarrow> rat \<Rightarrow> string \<Rightarrow> int" where
  "scaled_threat counts factor k = max 0 (round_half_even (of_int (cget counts k) * factor))"

text \<open>The counter after the threats are scaled and capped.\<close>

definition capped_budget :: "counter \<Rightarrow> rat \<Rightarrow> int \<Rightarrow> counter" where
  "capped_budget counts factor budget =
     (let scaled = foldl (\<lambda>c k. cput k (scaled_threat counts factor k) c) counts (threat_keys counts) in
      if budget < sum_list (map (cget scaled) (threat_keys counts))
      then cap_threats (sort_key (\<lambda>k. (k \<notin> set SPECIAL_SPECIES, k)) (threat_keys counts)) budget scaled else scaled)"

lemma capped_budget_result:
  fixes factor :: rat
  assumes "distinct (map fst counts)" "0 \<le> budget"
  defines "capped \<equiv> capped_budget counts factor budget" and "ks \<equiv> threat_keys counts"
  shows "sum_list (map (cget capped) ks) = min budget (sum_list (map (scaled_threat counts factor) ks))"
    "\<forall>k \<in> set ks. 0 \<le> cget capped k \<and> cget capped k \<le> scaled_threat counts factor k"
    "distinct (map fst capped)" "set (map fst capped) = set (map fst counts)"
proof -
  have ks: "distinct ks" "set ks \<subseteq> set (map fst counts)" using assms(1) by (auto simp: ks_def threat_keys_def)
  define scaled where "scaled = foldl (\<lambda>c k. cput k (scaled_threat counts factor k) c) counts ks"
  note scaled = scaled_threats(1) [OF ks(1), of "scaled_threat counts factor" counts, folded scaled_def]
    scaled_threats(2) [OF ks(2), of "scaled_threat counts factor", folded scaled_def]
    scaled_threats(3) [OF assms(1), of "scaled_threat counts factor" ks, folded scaled_def]
  define order where "order = sort_key (\<lambda>k. (k \<notin> set SPECIAL_SPECIES, k)) ks"
  have order: "distinct order" "set order = set ks" "\<And>f. sum_list (map f order) = (sum_list (map f ks) :: int)"
    using ks(1) by (simp_all add: order_def flip: sum_mset_sum_list)
  have nonneg: "\<forall>k \<in> set ks. 0 \<le> cget scaled k" by (simp add: scaled(1) scaled_threat_def)
  have total: "map (cget scaled) ks = map (scaled_threat counts factor) ks" using scaled(1) by simp
  have capped: "capped = (if budget < sum_list (map (scaled_threat counts factor) ks) then cap_threats order budget scaled else scaled)"
    by (simp only: capped_def capped_budget_def Let_def scaled_def [symmetric] ks_def [symmetric] order_def [symmetric] total)
  note cap = cap_threats_result [OF order(1) _ assms(2), of scaled, unfolded order, OF nonneg]
  show "sum_list (map (cget capped) ks) = min budget (sum_list (map (scaled_threat counts factor) ks))"
    "\<forall>k \<in> set ks. 0 \<le> cget capped k \<and> cget capped k \<le> scaled_threat counts factor k"
    "distinct (map fst capped)" "set (map fst capped) = set (map fst counts)"
    using cap scaled ks(2) nonneg arg_cong [OF total, of sum_list] unfolding capped total by (auto simp: total simp del: set_map map_eq_conv)
qed

lemma modified_budget_capped:
  "modified_budget counts factor budget =
     (let capped = capped_budget counts factor budget;
          stationary = min (cget capped ''stationary'') (max 0 (budget - sum_list (map (cget capped) (threat_keys counts))));
          settled = cput ''stationary'' stationary capped
      in cput ''fodder'' (max 0 (budget - stationary - sum_list (map (cget settled) (threat_keys counts)))) settled)"
  by (simp only: modified_budget_def capped_budget_def Let_def scaled_threat_def)

text \<open>A scaled threat budget adds up: whatever the intensity factor, the threats, the stationary bodies
  and the fodder together are the encounter's total; no threat is negative or above its scaled
  share, and when the scaled threats fit, none is cut.\<close>

theorem budget_adds_up:
  assumes "distinct (map fst counts)" "0 \<le> budget"
  shows "csum (modified_budget counts factor budget) = budget \<and>
    (\<forall>k \<in> set (threat_keys counts). 0 \<le> cget (modified_budget counts factor budget) k \<and>
       cget (modified_budget counts factor budget) k \<le> scaled_threat counts factor k \<and>
       (sum_list (map (scaled_threat counts factor) (threat_keys counts)) \<le> budget \<longrightarrow>
         cget (modified_budget counts factor budget) k = scaled_threat counts factor k))"
proof -
  define ks where "ks = threat_keys counts"
  define capped where "capped = capped_budget counts factor budget"
  define left where "left = sum_list (map (cget capped) ks)"
  define stationary where "stationary = min (cget capped ''stationary'') (max 0 (budget - left))"
  note capped = capped_budget_result [OF assms, of factor, folded capped_def ks_def]
  have plain: "k \<noteq> ''stationary'' \<and> k \<noteq> ''fodder''" if "k \<in> set ks" for k using that by (auto simp: ks_def threat_keys_def)
  have settled: "map (cget (cput ''stationary'' stationary capped)) ks = map (cget capped) ks" using plain by auto
  have result: "modified_budget counts factor budget =
      cput ''fodder'' (max 0 (budget - stationary - left)) (cput ''stationary'' stationary capped)"
    by (simp only: modified_budget_capped Let_def ks_def [symmetric] capped_def [symmetric] left_def [symmetric] stationary_def [symmetric]
        settled)
  have distinct: "distinct (map fst (modified_budget counts factor budget))" using capped(3) by (simp add: result)
  have "left \<le> budget" using capped(1) by (simp add: left_def)
  then have rest: "0 \<le> budget - stationary - left" by (simp add: stationary_def)
  have keys: "set (map fst (modified_budget counts factor budget)) = insert ''fodder'' (insert ''stationary'' (set ks))"
    unfolding result cput_keys capped(4) by (auto simp: ks_def threat_keys_def)
  have "distinct ks" using assms(1) by (simp add: ks_def threat_keys_def)
  have threats: "cget (modified_budget counts factor budget) k = cget capped k" if "k \<in> set ks" for k
    using plain [OF that] by (simp add: result)
  have fresh: "''fodder'' \<notin> insert ''stationary'' (set ks)" "''stationary'' \<notin> set ks" using plain by auto
  have "(\<Sum>k \<in> set ks. cget (modified_budget counts factor budget) k) = left"
    using \<open>distinct ks\<close> threats by (simp add: left_def sum_list_distinct_conv_sum_set cong: sum.cong)
  moreover have "cget (modified_budget counts factor budget) ''fodder'' = budget - stationary - left"
    "cget (modified_budget counts factor budget) ''stationary'' = stationary" using rest by (simp_all add: result)
  ultimately have "csum (modified_budget counts factor budget) = budget"
    unfolding csum_keys [OF distinct] keys using fresh by simp
  moreover have "cget capped k = scaled_threat counts factor k"
    if "k \<in> set ks" "sum_list (map (scaled_threat counts factor) ks) \<le> budget" for k
    using that capped(1,2) \<open>distinct ks\<close>
    by (intro sum_mono_inv [of "cget capped" "set ks" "scaled_threat counts factor"]) (simp_all add: sum_list_distinct_conv_sum_set)
  ultimately show ?thesis using capped(2) threats by (simp add: ks_def)
qed

theorem budget_adds_up_witness:
  "csum (modified_budget [(''heavy'', 4), (''fodder'', 9), (''marauder'', 1), (''stationary'', 2)] (3 / 2) 12) = 12"
  using budget_adds_up [of "[(''heavy'', 4), (''fodder'', 9), (''marauder'', 1), (''stationary'', 2)]" 12 "3 / 2"] by simp

section \<open>Every emission is budgeted\<close>

lemma shares_add_up: "0 < bodies \<Longrightarrow> sum_list (map (share amount bodies) [0..<bodies]) = amount"
proof -
  assume pos: "0 < bodies"
  have "sum_list (map (share amount bodies) [0..<bodies]) = (\<Sum>i < bodies. amount div bodies + (if i < amount mod bodies then 1 else 0))"
    by (simp add: share_def interv_sum_list_conv_sum_set_nat atLeast0LessThan)
  also have "\<dots> = bodies * (amount div bodies) + card ({..<bodies} \<inter> {i. i < amount mod bodies})"
    by (simp add: sum.distrib sum.If_cases)
  also have "{..<bodies} \<inter> {i. i < amount mod bodies} = {..<amount mod bodies}"
    using pos by (auto intro: less_trans [OF _ mod_less_divisor])
  finally show ?thesis by simp
qed

lemma int_sum_list: "int (sum_list (map f xs)) = sum_list (map (\<lambda>x. int (f x)) xs)"
  by (induction xs) simp_all

text \<open>The native budget counts every emission once: for any draws of the generator, the categories' counts add up
  to what the slots emit.\<close>

theorem native_budget_complete:
  assumes "\<forall>slot \<in> set slots. 0 < sl_count slot"
  shows "csum (native_budget draw slots renews mobile) =
    int (sum_list (map (slot_total renews) (filter (\<lambda>slot. sl_renewable slot = renews) slots)))"
proof -
  let ?used = "filter (\<lambda>slot. sl_renewable slot = renews \<and> slot_total renews slot \<noteq> 0) slots"
  have one: "sum_list (map (\<lambda>(species, n). int n) (slot_draws draw renews slot)) = int (slot_total renews slot)" if "slot \<in> set slots" for slot
  proof -
    have "sum_list (map (\<lambda>(species, n). int n) (slot_draws draw renews slot)) =
        int (sum_list (map (share (slot_total renews slot) (sl_count slot)) [0..<sl_count slot]))"
      by (simp add: slot_draws_def comp_def int_sum_list)
    with shares_add_up assms that show ?thesis by simp
  qed
  have "csum (native_budget draw slots renews mobile) =
      sum_list (map (\<lambda>(species, n). int n) (concat (map (slot_draws draw renews) ?used)))"
    using csum_adds [of "[]" "\<lambda>x. category_of (fst x) mobile" "\<lambda>x. int (snd x)"]
    by (simp add: native_budget_def case_prod_unfold)
  also have "\<dots> = int (sum_list (map (slot_total renews) ?used))"
    using one by (induction slots) auto
  also have "sum_list (map (slot_total renews) ?used) = sum_list (map (slot_total renews) (filter (\<lambda>slot. sl_renewable slot = renews) slots))"
    by (induction slots) auto
  finally show ?thesis .
qed

definition population_slot :: "nat \<Rightarrow> nat \<Rightarrow> spawn_slot" where
  "population_slot n maximum = \<lparr>sl_source = ''a'', sl_count = n, sl_maximum = maximum, sl_renewable = False, sl_species = [''imp'', ''pinky'']\<rparr>"

theorem native_budget_complete_witness:
  "csum (native_budget (\<lambda>source i bound. i mod bound) [population_slot 2 5, population_slot 3 0] False 0) = 5"
  using native_budget_complete [of "[population_slot 2 5, population_slot 3 0]" "\<lambda>source i bound. i mod bound" False 0]
  by (simp add: population_slot_def slot_total_def)

section \<open>The ammunition reserve moves bodies\<close>

lemma move_counts_result:
  assumes "distinct (map sp_id sources)" "chosen \<notin> sp_id ` set sources" "0 \<le> missing" "distinct (map fst counts)"
    "\<forall>s \<in> set sources. 0 \<le> cget counts (sp_id s)"
  shows "csum (move_counts chosen sources missing counts) = csum counts \<and>
    cget (move_counts chosen sources missing counts) chosen =
      cget counts chosen + min missing (sum_list (map (\<lambda>s. cget counts (sp_id s)) sources)) \<and>
    (\<forall>s \<in> set sources. 0 \<le> cget (move_counts chosen sources missing counts) (sp_id s)) \<and>
    (\<forall>k. k \<notin> insert chosen (sp_id ` set sources) \<longrightarrow> cget (move_counts chosen sources missing counts) k = cget counts k)"
  using assms
proof (induction chosen sources missing counts rule: move_counts.induct)
  case (2 chosen s sources missing counts)
  define moved where "moved = min missing (cget counts (sp_id s))"
  define c' where "c' = cadd chosen moved (cadd (sp_id s) (- moved) counts)"
  have rest: "0 \<le> sum_list (map (\<lambda>s. cget counts (sp_id s)) sources)" using 2(6) by (intro sum_list_nonneg) auto
  have ids: "chosen \<noteq> sp_id s" "\<And>x. x \<in> set sources \<Longrightarrow> sp_id x \<noteq> sp_id s \<and> sp_id x \<noteq> chosen"
    using 2(2,3) by (auto intro: rev_image_eqI)
  have m: "0 \<le> moved" "moved \<le> missing" "moved \<le> cget counts (sp_id s)" using 2(4,6) by (auto simp: moved_def)
  have c': "csum c' = csum counts" "distinct (map fst c')" "cget c' chosen = cget counts chosen + moved"
    "cget c' (sp_id s) = cget counts (sp_id s) - moved" "\<And>k. k \<noteq> chosen \<Longrightarrow> k \<noteq> sp_id s \<Longrightarrow> cget c' k = cget counts k"
    using 2(5) ids(1) by (simp_all add: c'_def csum_cadd)
  have same: "map (\<lambda>s. cget c' (sp_id s)) sources = map (\<lambda>s. cget counts (sp_id s)) sources" using ids(2) c'(5) by simp
  show ?case
  proof (cases "missing - moved = 0")
    case True
    have "move_counts chosen (s # sources) missing counts = c'" using True by (simp add: moved_def c'_def Let_def)
    then show ?thesis using c' m rest True 2(6) ids same by (auto simp: min_def simp del: move_counts.simps)
  next
    case False
    have step: "move_counts chosen (s # sources) missing counts = move_counts chosen sources (missing - moved) c'"
      using False unfolding move_counts.simps Let_def moved_def [symmetric] c'_def [symmetric] by simp
    have nonneg: "\<forall>x \<in> set sources. 0 \<le> cget c' (sp_id x)" using 2(6) ids(2) c'(5) by simp
    have ih: "csum (move_counts chosen sources (missing - moved) c') = csum c' \<and>
      cget (move_counts chosen sources (missing - moved) c') chosen =
        cget c' chosen + min (missing - moved) (sum_list (map (\<lambda>s. cget c' (sp_id s)) sources)) \<and>
      (\<forall>s \<in> set sources. 0 \<le> cget (move_counts chosen sources (missing - moved) c') (sp_id s)) \<and>
      (\<forall>k. k \<notin> insert chosen (sp_id ` set sources) \<longrightarrow> cget (move_counts chosen sources (missing - moved) c') k = cget c' k)"
      by (rule 2(1) [OF moved_def c'_def])
        (use False 2(2,3) m c'(2) nonneg in \<open>auto\<close>)
    have "cget (move_counts chosen sources (missing - moved) c') (sp_id s) = cget counts (sp_id s) - moved"
      using ih ids c'(4) by (metis image_iff insert_iff)
    moreover have "min missing (cget counts (sp_id s) + sum_list (map (\<lambda>s. cget counts (sp_id s)) sources)) =
        moved + min (missing - moved) (sum_list (map (\<lambda>s. cget c' (sp_id s)) sources))"
      using rest m same by (auto simp: moved_def min_def simp del: map_eq_conv)
    ultimately show ?thesis using ih c' m by (auto simp: step simp del: move_counts.simps)
  qed
qed auto

lemma sum_one_hit:
  fixes f :: "'a \<Rightarrow> int"
  shows "distinct (map g xs) \<Longrightarrow> sum_list (map (\<lambda>x. f x + (if g x = k then m else 0)) xs) =
    sum_list (map f xs) + (if k \<in> g ` set xs then m else 0)"
proof (induction xs)
  case (Cons x xs)
  then show ?case by (cases "g x = k") auto
qed simp

lemma hd_sort_member: "xs \<noteq> [] \<Longrightarrow> hd (sort_key f xs) \<in> set xs"
proof -
  assume "xs \<noteq> []"
  then have "0 < length (sort_key f xs)" by simp
  then have "sort_key f xs \<noteq> []" by force
  then have "hd (sort_key f xs) \<in> set (sort_key f xs)" by (rule hd_in_set)
  then show ?thesis by simp
qed

lemma sum_filter_split:
  fixes f :: "'a \<Rightarrow> int"
  shows "sum_list (map f xs) = sum_list (map f (filter P xs)) + sum_list (map f (filter (\<lambda>x. \<not> P x) xs))"
  by (induction xs) auto

text \<open>Reserving ammunition moves bodies and loses none: the spawns that can carry chainsaw fodder end with at
  least the required bodies, none of them gives any up, and the total is unchanged; it is refused only
  when no spawn fits or the whole pool is too small.\<close>

theorem ammunition_reserved:
  assumes "distinct (map sp_id sources)" "distinct (map fst counts)" "set (map fst counts) = sp_id ` set sources"
    "\<forall>s \<in> set sources. 0 \<le> cget counts (sp_id s)" "0 \<le> required"
  shows "case reserve_ammo_counts species_for supplies sources counts required of
      Inl e \<Rightarrow> 0 < required \<and> (fodder_sources species_for sources = [] \<or> csum counts < required)
    | Inr c \<Rightarrow> csum c = csum counts \<and> (\<forall>s \<in> set sources. 0 \<le> cget c (sp_id s)) \<and>
        required \<le> sum_list (map (\<lambda>s. cget c (sp_id s)) (fodder_sources species_for sources)) \<and>
        (\<forall>s \<in> set (fodder_sources species_for sources). cget counts (sp_id s) \<le> cget c (sp_id s))"
proof -
  define fitting where "fitting = fodder_sources species_for sources"
  note fitting_def' = fitting_def [unfolded fodder_sources_def]
  define others where "others = filter (\<lambda>s. sp_id s \<notin> set (map sp_id fitting)) sources"
  define available where "available = sum_list (map (\<lambda>s. cget counts (sp_id s)) fitting)"
  define missing where "missing = max 0 (required - available)"
  define chosen where "chosen = hd (sort_key (\<lambda>s. (sp_id s \<notin> set supplies, - sp_logical s, sp_id s)) fitting)"
  define order where "order = sort_key (\<lambda>s. (- cget counts (sp_id s), sp_id s)) others"
  have distinct: "distinct (map sp_id fitting)" "distinct (map sp_id order)"
  proof -
    show "distinct (map sp_id fitting)" using assms(1) by (simp add: fitting_def' distinct_map_filter)
    have "distinct (map sp_id others)" using assms(1) by (simp add: others_def distinct_map_filter)
    then show "distinct (map sp_id order)" by (simp add: order_def distinct_map)
  qed
  have sums: "sum_list (map (cget counts) (remdups (map sp_id fitting))) = available"
    using distinct(1) by (simp add: available_def distinct_remdups_id comp_def)
  have "csum counts = sum_list (map (\<lambda>s. cget counts (sp_id s)) sources)" using cget_sum [OF assms(2,1,3)] by simp
  also have "\<dots> = available + sum_list (map (\<lambda>s. cget counts (sp_id s)) others)"
  proof -
    have "s \<in> set sources \<Longrightarrow> sp_id s \<in> set (map sp_id fitting) \<longleftrightarrow> set (species_for s) \<inter> set AMMO_FODDER \<noteq> {}" for s
      using assms(1) by (auto simp: fitting_def' distinct_map dest: inj_onD)
    then have "others = filter (\<lambda>s. \<not> set (species_for s) \<inter> set AMMO_FODDER \<noteq> {}) sources"
      unfolding others_def by (intro filter_cong) auto
    then show ?thesis unfolding available_def fitting_def' by (simp only: sum_filter_split [symmetric])
  qed
  finally have csum: "csum counts = available + sum_list (map (\<lambda>s. cget counts (sp_id s)) order)"
    by (simp add: order_def flip: sum_mset_sum_list)
  show ?thesis
  proof (cases "required = 0 \<or> fitting = [] \<or> csum counts < required \<or> missing = 0")
    case True
    have "0 \<le> available" unfolding available_def using assms(4) by (intro sum_list_nonneg) (auto simp: fitting_def')
    then have kept: "required \<le> available" if "required = 0 \<or> missing = 0" using that by (auto simp: missing_def)
    show ?thesis
    proof (cases "required \<noteq> 0 \<and> (fitting = [] \<or> csum counts < required)")
      case True
      then have "reserve_ammo_counts species_for supplies sources counts required =
          Inl (ValueError ''Renewable ammunition has no species_for chainsaw fodder'')"
        by (simp add: reserve_ammo_counts_def fitting_def Let_def)
      then show ?thesis using True assms(5) by (simp add: fitting_def)
    next
      case False
      with True have "required = 0 \<or> missing = 0" by blast
      moreover have "reserve_ammo_counts species_for supplies sources counts required = Inr counts"
      proof (cases "required = 0")
        case True
        then show ?thesis by (simp add: reserve_ammo_counts_def)
      next
        case nonzero: False
        with \<open>required = 0 \<or> missing = 0\<close> have "missing = 0" by simp
        moreover have "\<not> (fitting = [] \<or> csum counts < required)" using False nonzero by blast
        ultimately show ?thesis using nonzero
          by (simp only: reserve_ammo_counts_def Let_def fitting_def [symmetric] sums missing_def [symmetric] if_False if_True refl)
      qed
      ultimately show ?thesis using kept assms(4) by (simp add: available_def fitting_def)
    qed
  next
    case False
    have run: "reserve_ammo_counts species_for supplies sources counts required = Inr (move_counts (sp_id chosen) order missing counts)"
    proof -
      have "required \<noteq> 0" "\<not> (fitting = [] \<or> csum counts < required)" "missing \<noteq> 0" using False by blast+
      then show ?thesis
        by (simp only: reserve_ammo_counts_def Let_def fitting_def [symmetric] sums missing_def [symmetric] chosen_def order_def others_def
            if_False refl)
    qed
    have "fitting \<noteq> []" using False by blast
    then have chosen: "chosen \<in> set fitting" unfolding chosen_def by (rule hd_sort_member)
    have order: "set order = set others" by (simp add: order_def)
    then have "sp_id chosen \<notin> sp_id ` set order" using chosen by (auto simp: others_def) (metis imageI)
    moreover have "\<forall>s \<in> set order. 0 \<le> cget counts (sp_id s)" using order assms(4) by (auto simp: others_def)
    ultimately have moved: "csum (move_counts (sp_id chosen) order missing counts) = csum counts"
      "cget (move_counts (sp_id chosen) order missing counts) (sp_id chosen) =
        cget counts (sp_id chosen) + min missing (sum_list (map (\<lambda>s. cget counts (sp_id s)) order))"
      "\<forall>s \<in> set order. 0 \<le> cget (move_counts (sp_id chosen) order missing counts) (sp_id s)"
      "\<forall>k. k \<notin> insert (sp_id chosen) (sp_id ` set order) \<longrightarrow> cget (move_counts (sp_id chosen) order missing counts) k = cget counts k"
      using move_counts_result [OF distinct(2) _ _ assms(2), of "sp_id chosen" missing] by (auto simp: missing_def)
    define m where "m = min missing (sum_list (map (\<lambda>s. cget counts (sp_id s)) order))"
    have m: "0 \<le> m" "available + m \<ge> required"
      using False csum \<open>\<forall>s \<in> set order. 0 \<le> cget counts (sp_id s)\<close> sum_list_nonneg [of "map (\<lambda>s. cget counts (sp_id s)) order"]
      by (auto simp: m_def missing_def)
    have kept: "cget (move_counts (sp_id chosen) order missing counts) (sp_id s) = cget counts (sp_id s) + (if sp_id s = sp_id chosen then m else 0)"
      if "s \<in> set fitting" for s
    proof -
      have "sp_id s \<notin> sp_id ` set order" using that order by (auto simp: others_def) (metis imageI)
      then show ?thesis using moved(2,4) by (auto simp: m_def)
    qed
    have "sum_list (map (\<lambda>s. cget (move_counts (sp_id chosen) order missing counts) (sp_id s)) fitting) =
        sum_list (map (\<lambda>s. cget counts (sp_id s) + (if sp_id s = sp_id chosen then m else 0)) fitting)"
      using kept by (intro arg_cong [of _ _ sum_list] map_cong) auto
    also have "\<dots> = available + m" using sum_one_hit [OF distinct(1)] chosen by (simp add: available_def)
    finally have "required \<le> sum_list (map (\<lambda>s. cget (move_counts (sp_id chosen) order missing counts) (sp_id s)) fitting)" using m by simp
    moreover have "0 \<le> cget (move_counts (sp_id chosen) order missing counts) (sp_id s)" if "s \<in> set sources" for s
    proof (cases "sp_id s \<in> set (map sp_id fitting)")
      case True
      then obtain x where "x \<in> set fitting" "sp_id s = sp_id x" by auto
      then show ?thesis using kept [of x] assms(4) that m(1) by (auto split: if_splits)
    next
      case False
      then show ?thesis using that moved(3) order by (simp add: others_def)
    qed
    ultimately show ?thesis using kept m(1) moved(1) by (simp add: run fitting_def [symmetric])
  qed
qed

theorem ammunition_reserved_witness:
  "case reserve_ammo_counts (\<lambda>s. if sp_id s = ''a'' then [''imp''] else [''pinky'']) [''a'']
      [sample_spawn ''a'' 2 2, sample_spawn ''b'' 3 3] [(''a'', 1), (''b'', 4)] 3 of
    Inl e \<Rightarrow> False | Inr c \<Rightarrow> csum c = 5 \<and> 3 \<le> cget c ''a''"
  using ammunition_reserved [of "[sample_spawn ''a'' 2 2, sample_spawn ''b'' 3 3]" "[(''a'', 1), (''b'', 4)]" 3
      "\<lambda>s. if sp_id s = ''a'' then [''imp''] else [''pinky'']" "[''a'']"]
  by (simp add: fodder_sources_def AMMO_FODDER_def cget_def csum_def split: sum.splits)

end
