(* ===== verification/Publisher_Contracts.thy ===== *)
theory Publisher_Contracts
  imports Goals
begin

text \<open>
  The publisher contracts, \<open>doom_eap/contracts/publisher_contracts.py\<close>: validation of a document,
  the publishers it declares, the index by trigger and the acknowledgement of a publisher.

  Triggers and effects stay dictionaries, as the document carries them; freezing them into read-only
  mappings and tuples does not change their value, so \<open>_freeze\<close> and \<open>_thaw\<close> are not visible here.
\<close>

section \<open>Loops that may raise\<close>

fun fold_res :: "('s \<Rightarrow> 'a \<Rightarrow> 's res) \<Rightarrow> 's \<Rightarrow> 'a list \<Rightarrow> 's res" where
  "fold_res f s [] = Inr s"
| "fold_res f s (x # xs) = bind_res (f s x) (\<lambda>s'. fold_res f s' xs)"

fun filter_res :: "('a \<Rightarrow> bool res) \<Rightarrow> 'a list \<Rightarrow> 'a list res" where
  "filter_res f [] = Inr []"
| "filter_res f (x # xs) = bind_res (f x) (\<lambda>b. bind_res (filter_res f xs) (\<lambda>ys. Inr (if b then x # ys else ys)))"

lemma filter_res_filter: "(\<And>x. x \<in> set xs \<Longrightarrow> f x = Inr (p x)) \<Longrightarrow> filter_res f xs = Inr (filter p xs)"
  by (induction xs) auto

definition subscript :: "pydict \<Rightarrow> string \<Rightarrow> pyval res" where \<comment> \<open>\<open>d[k]\<close>\<close>
  "subscript d k = (case map_of d k of None \<Rightarrow> Inl (KeyError k) | Some v \<Rightarrow> Inr v)"

lemma subscript_dget: "dget d k \<noteq> PNone \<Longrightarrow> subscript d k = Inr (dget d k)"
  by (auto simp: subscript_def dget_def split: option.splits)

lemma subscript_Inr: "subscript d k = Inr v \<Longrightarrow> dget d k = v"
  by (auto simp: subscript_def dget_def split: option.splits)

lemma subscript_dset: "subscript (dset k v d) k' = (if k' = k then Inr v else subscript d k')"
  by (simp add: subscript_def map_of_update)

definition no_attribute :: "string \<Rightarrow> exn" where "no_attribute a = Exn ''AttributeError'' a"

section \<open>Names and strategies\<close>

definition TRIGGER_STRATEGIES :: "string list" where
  "TRIGGER_STRATEGIES = [''native_transition'', ''map_event_file'', ''terminal_owner'']"

definition EFFECT_STRATEGIES :: "string list" where
  "EFFECT_STRATEGIES = [''location_check'', ''campaign_goal'', ''preserved_native_target'']"

definition FALLBACK_POLICIES :: "string list" where
  "FALLBACK_POLICIES = [''first_success_wins'']"

text \<open>\<open>canonical_map_name\<close> of this module, which returns a text for every value.\<close>

definition publisher_map_name :: "pyval \<Rightarrow> string" where
  "publisher_map_name name =
     (let normalized = rstrip_by (\<lambda>c. c = CHR ''/'') (forward_slashes (strip (if truthy name then py_str name else [])))
      in if normalized \<in> {''game/hub/hub'', ''game/sp/hub/hub''} then ''game/hub/hub'' else normalized)"

record publisher =
  pb_key :: string
  pb_map_key :: pyval
  pb_triggers :: "pydict list"
  pb_effects :: "pydict list"
  pb_dedupe_scope :: pyval
  pb_fallback_policy :: pyval

definition triggers_for :: "publisher \<Rightarrow> string \<Rightarrow> pydict list res" where
  "triggers_for p strategy = filter_res (\<lambda>t. bind_res (subscript t ''strategy'') (\<lambda>v. Inr (v = PStr strategy))) (pb_triggers p)"

section \<open>The index by trigger\<close>

definition trigger_key :: "pyval \<Rightarrow> pydict \<Rightarrow> string list res" where
  "trigger_key strategy payload =
     (if strategy = PStr ''native_transition''
      then Inr [''native_transition'', publisher_map_name (dget payload ''from_map''), publisher_map_name (dget payload ''to_map'')]
      else if strategy = PStr ''map_event_file'' then Inr [''map_event_file'', py_str (dget_or payload ''filename'' (PStr []))]
      else if strategy = PStr ''terminal_owner'' then Inr [''terminal_owner'', py_str (dget_or payload ''owner'' (PStr []))]
      else Inl (ValueError ''unsupported publisher trigger strategy''))"

definition own_key :: "pydict \<Rightarrow> string list res" where \<comment> \<open>\<open>trigger_key(trigger["strategy"], trigger)\<close>\<close>
  "own_key t = bind_res (subscript t ''strategy'') (\<lambda>s. trigger_key s t)"

type_synonym trigger_index = "(string list \<times> publisher list) list"

definition add_trigger :: "publisher \<Rightarrow> trigger_index \<Rightarrow> pydict \<Rightarrow> trigger_index res" where
  "add_trigger p grouped t =
     bind_res (own_key t) (\<lambda>k. Inr (AList.update k ((case map_of grouped k of None \<Rightarrow> [] | Some ps \<Rightarrow> ps) @ [p]) grouped))"

definition publishers_by_trigger :: "publisher list \<Rightarrow> trigger_index res" where
  "publishers_by_trigger publishers =
     bind_res (fold_res (\<lambda>g p. fold_res (add_trigger p) g (pb_triggers p)) [] publishers)
       (\<lambda>grouped. Inr (map (\<lambda>(k, ps). (k, sort_key pb_key ps)) grouped))"

definition found_in :: "trigger_index \<Rightarrow> string list \<Rightarrow> publisher list" where \<comment> \<open>\<open>index.get(key, ())\<close>\<close>
  "found_in index k = (case map_of index k of None \<Rightarrow> [] | Some ps \<Rightarrow> ps)"

definition publishers_for_transition :: "publisher list \<Rightarrow> pyval \<Rightarrow> pyval \<Rightarrow> publisher list res" where
  "publishers_for_transition publishers from_map to_map =
     bind_res (publishers_by_trigger publishers) (\<lambda>index.
       bind_res (trigger_key (PStr ''native_transition'') [(''from_map'', from_map), (''to_map'', to_map)]) (\<lambda>k. Inr (found_in index k)))"

definition owned_by :: "string \<Rightarrow> publisher \<Rightarrow> string \<Rightarrow> bool res" where
  "owned_by map_key p owner =
     (if pb_map_key p \<noteq> PStr map_key then Inr False
      else bind_res (triggers_for p ''map_event_file'') (\<lambda>files. bind_res (triggers_for p ''terminal_owner'') (\<lambda>owners.
        Inr (\<exists>t\<in>set (files @ owners). dget t ''owner'' = PStr owner))))"

definition map_publishers_for_owner :: "publisher list \<Rightarrow> string \<Rightarrow> string \<Rightarrow> publisher list res" where
  "map_publishers_for_owner publishers map_key owner =
     bind_res (filter_res (\<lambda>p. owned_by map_key p owner) publishers) (\<lambda>ps. Inr (sort_key pb_key ps))"

record publisher_engine =
  pe_publishers :: "publisher list"
  pe_index :: trigger_index

definition new_engine :: "publisher list \<Rightarrow> publisher_engine res" where
  "new_engine publishers = bind_res (publishers_by_trigger publishers) (\<lambda>index. Inr \<lparr>pe_publishers = publishers, pe_index = index\<rparr>)"

definition engine_observe :: "publisher_engine \<Rightarrow> pyval \<Rightarrow> pydict \<Rightarrow> publisher list res" where
  "engine_observe e strategy payload = bind_res (trigger_key strategy payload) (\<lambda>k. Inr (found_in (pe_index e) k))"

section \<open>Acknowledgement\<close>

definition effect_acknowledged :: "pydict \<Rightarrow> int set \<Rightarrow> bool \<Rightarrow> bool res" where
  "effect_acknowledged e checked goal_sent =
     bind_res (subscript e ''strategy'') (\<lambda>strategy.
       if strategy = PStr ''location_check''
       then bind_res (subscript e ''location_id'') (\<lambda>v. Inr (is_int_or_bool v \<and> the_int v \<in> checked))
       else if strategy = PStr ''campaign_goal'' then Inr goal_sent
       else if strategy = PStr ''preserved_native_target'' then Inr True
       else Inl (ValueError ''unsupported publisher effect''))"

fun all_res :: "('a \<Rightarrow> bool res) \<Rightarrow> 'a list \<Rightarrow> bool res" where \<comment> \<open>\<open>all(...)\<close> stops at the first \<open>False\<close>\<close>
  "all_res f [] = Inr True"
| "all_res f (x # xs) = bind_res (f x) (\<lambda>b. if b then all_res f xs else Inr False)"

lemma all_res_True: "all_res f xs = Inr True \<longleftrightarrow> (\<forall>x\<in>set xs. f x = Inr True)"
proof (induction xs)
  case (Cons x xs)
  then show ?case by (cases "f x") auto
qed simp

definition publisher_acknowledged :: "publisher \<Rightarrow> int set \<Rightarrow> bool \<Rightarrow> bool res" where
  "publisher_acknowledged p checked goal_sent = all_res (\<lambda>e. effect_acknowledged e checked goal_sent) (pb_effects p)"

section \<open>Validation\<close>

definition is_one :: "pyval \<Rightarrow> bool" where \<comment> \<open>\<open>value == 1\<close>\<close>
  "is_one v \<longleftrightarrow> v \<in> {PInt 1, PBool True, PFloat ''1.0''}"

definition not_a :: "string \<Rightarrow> string \<Rightarrow> 'a res" where
  "not_a key message = Inl (ValueError (key @ '': '' @ message))"

definition strategy_in :: "string list \<Rightarrow> pyval \<Rightarrow> bool res" where \<comment> \<open>\<open>value in frozenset\<close>\<close>
  "strategy_in strategies v = (if \<not> hashable v then Inl unhashable else Inr (v \<in> PStr ` set strategies))"

type_synonym event_names = "(string \<rightharpoonup> string) \<times> (string \<rightharpoonup> string)"

definition validate_event_file :: "string \<Rightarrow> event_names \<Rightarrow> pydict \<Rightarrow> event_names res" where
  "validate_event_file key names t =
     (case dget t ''filename'' of
        PStr filename \<Rightarrow>
         (if \<not> ends_with filename ''.txt'' then not_a key ''map_event_file requires a .txt filename''
          else case dget t ''marker'' of
            PStr marker \<Rightarrow>
             (if marker = [] then not_a key ''map_event_file requires a marker''
              else if fst names filename \<notin> {None, Some marker} then not_a key ''shared filename has a different marker''
              else if snd names marker \<notin> {None, Some filename} then not_a key ''shared marker has a different filename''
              else Inr ((fst names)(filename \<mapsto> marker), (snd names)(marker \<mapsto> filename)))
          | _ \<Rightarrow> not_a key ''map_event_file requires a marker'')
      | _ \<Rightarrow> not_a key ''map_event_file requires a .txt filename'')"

definition validate_trigger :: "string \<Rightarrow> event_names \<Rightarrow> pyval \<Rightarrow> event_names res" where
  "validate_trigger key names trigger =
     (case trigger of
        PDict t \<Rightarrow>
          bind_res (strategy_in TRIGGER_STRATEGIES (dget t ''strategy'')) (\<lambda>supported.
            if \<not> supported then not_a key ''unsupported trigger strategy''
            else if dget t ''strategy'' = PStr ''native_transition''
            then if publisher_map_name (dget t ''from_map'') = [] \<or> publisher_map_name (dget t ''to_map'') = []
                 then not_a key ''native_transition requires from_map/to_map'' else Inr names
            else if dget t ''strategy'' = PStr ''map_event_file'' then validate_event_file key names t
            else if \<not> truthy (dget t ''owner'') then not_a key ''terminal_owner requires owner''
            else Inr names)
      | _ \<Rightarrow> Inl (no_attribute ''get''))"

definition validate_effect :: "string \<Rightarrow> pyval \<Rightarrow> unit res" where
  "validate_effect key eff =
     (case eff of
        PDict e \<Rightarrow>
          bind_res (strategy_in EFFECT_STRATEGIES (dget e ''strategy'')) (\<lambda>supported.
            if \<not> supported then not_a key ''unsupported effect strategy''
            else if dget e ''strategy'' = PStr ''location_check''
            then if \<not> is_int (dget e ''location_id'') then not_a key ''location_check requires integer location_id'' else Inr ()
            else if dget e ''strategy'' = PStr ''preserved_native_target'' \<and> \<not> truthy (dget e ''target'')
            then not_a key ''preserved_native_target requires target''
            else Inr ())
      | _ \<Rightarrow> Inl (no_attribute ''get''))"

definition validate_publisher :: "string set \<times> event_names \<Rightarrow> pyval \<Rightarrow> (string set \<times> event_names) res" where
  "validate_publisher s publisher =
     (case publisher of
        PDict p \<Rightarrow>
         (case dget p ''key'' of
            PStr key \<Rightarrow>
             (if key = [] \<or> key \<in> fst s then Inl (ValueError ''publisher key must be unique and non-empty'')
              else bind_res (strategy_in FALLBACK_POLICIES (dget p ''fallback_policy'')) (\<lambda>supported.
                if \<not> supported then not_a key ''unsupported fallback_policy''
                else case dget p ''triggers'' of
                  PList (t # ts) \<Rightarrow>
                   (case dget p ''effects'' of
                      PList (e # es) \<Rightarrow>
                        bind_res (fold_res (validate_trigger key) (snd s) (t # ts)) (\<lambda>names.
                          bind_res (map_res (validate_effect key) (e # es)) (\<lambda>_. Inr (insert key (fst s), names)))
                    | _ \<Rightarrow> not_a key ''effects must be non-empty'')
                | _ \<Rightarrow> not_a key ''triggers must be non-empty''))
          | _ \<Rightarrow> Inl (ValueError ''publisher key must be unique and non-empty''))
      | _ \<Rightarrow> Inl (no_attribute ''get''))"

definition validate_publisher_contracts :: "pydict \<Rightarrow> unit res" where
  "validate_publisher_contracts document =
     (if \<not> is_one (dget document ''schema_version'') then Inl (ValueError ''publisher contract schema_version must be 1'')
      else case dget document ''publishers'' of
        PList (p # ps) \<Rightarrow> bind_res (fold_res validate_publisher ({}, Map.empty, Map.empty) (p # ps)) (\<lambda>_. Inr ())
      | _ \<Rightarrow> Inl (ValueError ''publisher contracts require a non-empty publishers list''))"

section \<open>Documents\<close>

fun as_dict :: "pyval \<Rightarrow> pydict" where \<comment> \<open>a value that validation found to be a dictionary\<close>
  "as_dict (PDict d) = d"
| "as_dict _ = []"

fun as_list :: "pyval \<Rightarrow> pyval list" where
  "as_list (PList vs) = vs"
| "as_list _ = []"

fun as_text :: "pyval \<Rightarrow> string" where
  "as_text (PStr s) = s"
| "as_text _ = []"

definition load_trigger :: "pydict \<Rightarrow> pydict res" where
  "load_trigger t =
     bind_res (subscript t ''strategy'') (\<lambda>strategy.
       if strategy \<noteq> PStr ''native_transition'' then Inr t
       else bind_res (subscript t ''from_map'') (\<lambda>f.
         let t1 = dset ''from_map'' (PStr (publisher_map_name f)) t
         in bind_res (subscript t1 ''to_map'') (\<lambda>g. Inr (dset ''to_map'' (PStr (publisher_map_name g)) t1))))"

definition load_publisher :: "pydict \<Rightarrow> publisher res" where
  "load_publisher p =
     bind_res (subscript p ''triggers'') (\<lambda>triggers.
     bind_res (map_res (\<lambda>t. load_trigger (as_dict t)) (as_list triggers)) (\<lambda>loaded.
     bind_res (subscript p ''key'') (\<lambda>key.
     bind_res (subscript p ''effects'') (\<lambda>effects.
     bind_res (subscript p ''dedupe_scope'') (\<lambda>scope.
     bind_res (subscript p ''fallback_policy'') (\<lambda>policy.
       Inr \<lparr>pb_key = as_text key, pb_map_key = dget_or p ''map_key'' (PStr []), pb_triggers = loaded,
         pb_effects = map as_dict (as_list effects), pb_dedupe_scope = scope, pb_fallback_policy = policy\<rparr>))))))"

definition publisher_contracts_from_document :: "pydict \<Rightarrow> bool \<Rightarrow> publisher list res" where
  "publisher_contracts_from_document document allow_empty =
     (if allow_empty \<and> dget document ''publishers'' = PList []
      then if \<not> is_one (dget document ''schema_version'')
           then Inl (ValueError ''publisher contract schema_version must be 1'') else Inr []
      else bind_res (validate_publisher_contracts document) (\<lambda>_.
        map_res (\<lambda>p. load_publisher (as_dict p)) (as_list (dget document ''publishers''))))"

definition publisher_document :: "publisher \<Rightarrow> pyval" where
  "publisher_document p = PDict [(''key'', PStr (pb_key p)), (''map_key'', pb_map_key p),
     (''triggers'', PList (map PDict (pb_triggers p))), (''effects'', PList (map PDict (pb_effects p))),
     (''dedupe_scope'', pb_dedupe_scope p), (''fallback_policy'', pb_fallback_policy p)]"

definition publisher_contracts_document :: "publisher list \<Rightarrow> pydict" where
  "publisher_contracts_document publishers =
     [(''schema_version'', PInt 1), (''publishers'', PList (map publisher_document publishers))]"

end
