(* ===== verification/Publisher_Documents.thy ===== *)
theory Publisher_Documents
  imports Publisher_Contracts
begin

text \<open>
  What the functions of \<open>doom_eap/contracts/publisher_contracts.py\<close> promise: which documents
  validation accepts, the round trip of loaded contracts and the publishers an observation finds.
  Validation remembers keys and event files while it goes; \<open>remembering_check\<close> states the contract
  of such a check once, for the triggers of a publisher and for the publishers of a document.
\<close>

section \<open>What a valid document is\<close>

definition one_to_one :: "(string \<times> string) list \<Rightarrow> bool" where
  "one_to_one pairs \<longleftrightarrow> (\<forall>(f, m)\<in>set pairs. \<forall>(f', m')\<in>set pairs. f = f' \<longleftrightarrow> m = m')"

fun event_files :: "pyval \<Rightarrow> (string \<times> string) list" where
  "event_files (PDict t) = (if dget t ''strategy'' = PStr ''map_event_file''
     then [(as_text (dget t ''filename''), as_text (dget t ''marker''))] else [])"
| "event_files _ = []"

fun trigger_ok :: "pyval \<Rightarrow> bool" where
  "trigger_ok (PDict t) \<longleftrightarrow>
     (dget t ''strategy'' = PStr ''native_transition'' \<and> publisher_map_name (dget t ''from_map'') \<noteq> [] \<and>
        publisher_map_name (dget t ''to_map'') \<noteq> []) \<or>
     (dget t ''strategy'' = PStr ''map_event_file'' \<and> is_str (dget t ''filename'') \<and> ends_with (as_text (dget t ''filename'')) ''.txt'' \<and>
        is_str (dget t ''marker'') \<and> as_text (dget t ''marker'') \<noteq> []) \<or>
     (dget t ''strategy'' = PStr ''terminal_owner'' \<and> truthy (dget t ''owner''))"
| "trigger_ok _ = False"

fun effect_ok :: "pyval \<Rightarrow> bool" where
  "effect_ok (PDict e) \<longleftrightarrow>
     (dget e ''strategy'' = PStr ''location_check'' \<and> is_int (dget e ''location_id'')) \<or>
     dget e ''strategy'' = PStr ''campaign_goal'' \<or>
     (dget e ''strategy'' = PStr ''preserved_native_target'' \<and> truthy (dget e ''target''))"
| "effect_ok _ = False"

fun publisher_ok :: "pyval \<Rightarrow> bool" where
  "publisher_ok (PDict p) \<longleftrightarrow> is_str (dget p ''key'') \<and> as_text (dget p ''key'') \<noteq> [] \<and>
     dget p ''fallback_policy'' = PStr ''first_success_wins'' \<and>
     as_list (dget p ''triggers'') \<noteq> [] \<and> list_all trigger_ok (as_list (dget p ''triggers'')) \<and>
     as_list (dget p ''effects'') \<noteq> [] \<and> list_all effect_ok (as_list (dget p ''effects''))"
| "publisher_ok _ = False"

definition publisher_facts :: "pyval \<Rightarrow> (string + string \<times> string) list" where
  "publisher_facts p = Inl (as_text (dget (as_dict p) ''key'')) #
     map Inr (concat (map event_files (as_list (dget (as_dict p) ''triggers''))))"

fun lefts :: "('a + 'b) list \<Rightarrow> 'a list" where
  "lefts [] = []"
| "lefts (Inl x # xs) = x # lefts xs"
| "lefts (Inr y # xs) = lefts xs"

fun rights :: "('a + 'b) list \<Rightarrow> 'b list" where
  "rights [] = []"
| "rights (Inl x # xs) = rights xs"
| "rights (Inr y # xs) = y # rights xs"

lemma lefts_rights [simp]:
  "lefts (xs @ ys) = lefts xs @ lefts ys" "rights (xs @ ys) = rights xs @ rights ys"
  "lefts (map Inr zs) = []" "rights (map Inr zs) = zs"
  by (induction xs rule: lefts.induct) (auto, (induction zs; simp)+)

definition publishers_coherent :: "(string + string \<times> string) list \<Rightarrow> bool" where
  "publishers_coherent facts \<longleftrightarrow> distinct (lefts facts) \<and> one_to_one (rights facts)"

definition document_ok :: "pydict \<Rightarrow> bool" where
  "document_ok document \<longleftrightarrow> is_one (dget document ''schema_version'') \<and>
     as_list (dget document ''publishers'') \<noteq> [] \<and> list_all publisher_ok (as_list (dget document ''publishers'')) \<and>
     publishers_coherent (concat (map publisher_facts (as_list (dget document ''publishers''))))"

section \<open>Checks that remember what they saw\<close>

locale remembering_check =
  fixes check :: "'s \<Rightarrow> 'a \<Rightarrow> 's res" and ok :: "'a \<Rightarrow> bool" and facts :: "'a \<Rightarrow> 'f list"
    and coherent :: "'f list \<Rightarrow> bool" and remembers :: "'f list \<Rightarrow> 's \<Rightarrow> bool"
  assumes remembers_coherent: "remembers F s \<Longrightarrow> coherent F"
    and coherent_prefix: "coherent (F @ G) \<Longrightarrow> coherent F"
    and check_sound: "remembers F s \<Longrightarrow> check s x = Inr s' \<Longrightarrow> ok x \<and> remembers (F @ facts x) s'"
    and check_complete: "remembers F s \<Longrightarrow> ok x \<Longrightarrow> coherent (F @ facts x) \<Longrightarrow> \<exists>s'. check s x = Inr s'"
begin

lemma fold_sound:
  "remembers F s \<Longrightarrow> fold_res check s xs = Inr s' \<Longrightarrow> list_all ok xs \<and> remembers (F @ concat (map facts xs)) s'"
proof (induction xs arbitrary: F s)
  case (Cons x xs)
  then obtain s1 where s1: "check s x = Inr s1" "fold_res check s1 xs = Inr s'" by auto
  from check_sound [OF Cons.prems(1) s1(1)] Cons.IH [of "F @ facts x" s1] s1(2) show ?case by simp
qed simp

lemma fold_complete:
  "remembers F s \<Longrightarrow> list_all ok xs \<Longrightarrow> coherent (F @ concat (map facts xs)) \<Longrightarrow> \<exists>s'. fold_res check s xs = Inr s'"
proof (induction xs arbitrary: F s)
  case (Cons x xs)
  from Cons.prems(3) have "coherent ((F @ facts x) @ concat (map facts xs))" by simp
  then have "coherent (F @ facts x)" by (rule coherent_prefix)
  then obtain s1 where s1: "check s x = Inr s1" using check_complete [OF Cons.prems(1)] Cons.prems(2) by auto
  from check_sound [OF Cons.prems(1) s1] have "remembers (F @ facts x) s1" by simp
  from Cons.IH [OF this] Cons.prems s1 show ?case by simp
qed simp

lemma fold_accepts:
  assumes "remembers F s"
  shows "(\<exists>s'. fold_res check s xs = Inr s') \<longleftrightarrow> list_all ok xs \<and> coherent (F @ concat (map facts xs))"
  using assms fold_sound fold_complete remembers_coherent by metis

end

definition names_remember :: "(string \<times> string) list \<Rightarrow> event_names \<Rightarrow> bool" where
  "names_remember seen names \<longleftrightarrow> one_to_one seen \<and>
     (\<forall>f m. fst names f = Some m \<longleftrightarrow> (f, m) \<in> set seen) \<and> (\<forall>f m. snd names m = Some f \<longleftrightarrow> (f, m) \<in> set seen)"

lemma one_to_one_iff:
  "one_to_one pairs \<longleftrightarrow> (\<forall>f m f' m'. (f, m) \<in> set pairs \<longrightarrow> (f', m') \<in> set pairs \<longrightarrow> f = f' \<longleftrightarrow> m = m')"
  by (auto simp: one_to_one_def)

lemma one_to_one_prefix: "one_to_one (xs @ ys) \<Longrightarrow> one_to_one xs"
  unfolding one_to_one_iff by simp

lemma one_to_one_snoc:
  "one_to_one (xs @ [(f, m)]) \<longleftrightarrow> one_to_one xs \<and> (\<forall>(f', m')\<in>set xs. f' = f \<longleftrightarrow> m' = m)"
  by (auto simp: one_to_one_def)

lemma names_remember_step:
  assumes "names_remember seen names"
  shows "fst names f \<in> {None, Some m} \<and> snd names m \<in> {None, Some f} \<longleftrightarrow> one_to_one (seen @ [(f, m)])"
    and "one_to_one (seen @ [(f, m)]) \<Longrightarrow>
      names_remember (seen @ [(f, m)]) ((fst names)(f \<mapsto> m), (snd names)(m \<mapsto> f))"
proof -
  have r: "one_to_one seen" "\<And>f m. fst names f = Some m \<longleftrightarrow> (f, m) \<in> set seen"
    "\<And>f m. snd names m = Some f \<longleftrightarrow> (f, m) \<in> set seen"
    using assms by (auto simp: names_remember_def)
  have option_in: "x \<in> {None, Some y} \<longleftrightarrow> (\<forall>z. x = Some z \<longrightarrow> z = y)" for x :: "string option" and y
    by (cases x) auto
  show "fst names f \<in> {None, Some m} \<and> snd names m \<in> {None, Some f} \<longleftrightarrow> one_to_one (seen @ [(f, m)])"
    unfolding option_in r(2,3) one_to_one_snoc using r(1) by auto
  show "one_to_one (seen @ [(f, m)]) \<Longrightarrow> names_remember (seen @ [(f, m)]) ((fst names)(f \<mapsto> m), (snd names)(m \<mapsto> f))"
    using r by (auto simp: names_remember_def one_to_one_snoc fun_upd_def split: if_splits)
qed

lemma strategy_in_Inr: "strategy_in ss v = Inr b \<longleftrightarrow> hashable v \<and> b = (v \<in> PStr ` set ss)"
  by (auto simp: strategy_in_def)

lemma strategy_in_PStr [simp]: "strategy_in ss (PStr s) = Inr (s \<in> set ss)"
  by (auto simp: strategy_in_def)

lemma not_a_neq [simp]: "not_a key m \<noteq> Inr x"
  by (simp add: not_a_def)

lemma validate_event_file_iff:
  assumes "names_remember seen names"
  shows "validate_event_file key names t = Inr names' \<longleftrightarrow>
    (\<exists>f m. dget t ''filename'' = PStr f \<and> dget t ''marker'' = PStr m \<and> ends_with f ''.txt'' \<and> m \<noteq> [] \<and>
       one_to_one (seen @ [(f, m)]) \<and> names' = ((fst names)(f \<mapsto> m), (snd names)(m \<mapsto> f)))"
  by (auto simp: validate_event_file_def names_remember_step(1) [OF assms, symmetric] split: pyval.split)

definition remember_file :: "event_names \<Rightarrow> string \<times> string \<Rightarrow> event_names" where
  "remember_file names = (\<lambda>(f, m). ((fst names)(f \<mapsto> m), (snd names)(m \<mapsto> f)))"

lemma validate_trigger_iff:
  assumes "names_remember seen names"
  shows "validate_trigger key names v = Inr names' \<longleftrightarrow>
    trigger_ok v \<and> one_to_one (seen @ event_files v) \<and> names' = foldl remember_file names (event_files v)"
proof (cases "\<exists>t. v = PDict t \<and> dget t ''strategy'' = PStr ''map_event_file''")
  case True
  then show ?thesis
    by (auto simp: validate_trigger_def TRIGGER_STRATEGIES_def validate_event_file_iff [OF assms] is_str_iff remember_file_def)
next
  case False
  moreover have "one_to_one seen" using assms by (simp add: names_remember_def)
  ultimately show ?thesis
    by (cases v) (auto simp: validate_trigger_def strategy_in_Inr TRIGGER_STRATEGIES_def split: if_splits)
qed

lemma remember_event_files:
  assumes "names_remember seen names" and "one_to_one (seen @ event_files v)"
  shows "names_remember (seen @ event_files v) (foldl remember_file names (event_files v))"
  using assms names_remember_step(2) [OF assms(1)]
  by (cases v) (auto simp: remember_file_def)

lemma validate_trigger_sound:
  "names_remember seen names \<Longrightarrow> validate_trigger key names v = Inr names' \<Longrightarrow>
     trigger_ok v \<and> names_remember (seen @ event_files v) names'"
  by (auto simp: validate_trigger_iff intro: remember_event_files)

lemma validate_trigger_complete:
  "names_remember seen names \<Longrightarrow> trigger_ok v \<Longrightarrow> one_to_one (seen @ event_files v) \<Longrightarrow>
     \<exists>names'. validate_trigger key names v = Inr names'"
  by (simp add: validate_trigger_iff)

interpretation triggers: remembering_check "validate_trigger key" trigger_ok event_files one_to_one names_remember for key
  by unfold_locales
    (use names_remember_def one_to_one_prefix validate_trigger_sound validate_trigger_complete in blast)+

lemma validate_effect_iff: "validate_effect key v = Inr () \<longleftrightarrow> effect_ok v"
  by (cases v) (auto simp: validate_effect_def strategy_in_def EFFECT_STRATEGIES_def split: if_splits)

lemma map_res_unit: "(\<exists>ys. map_res (f :: 'a \<Rightarrow> unit res) xs = Inr ys) \<longleftrightarrow> (\<forall>x\<in>set xs. f x = Inr ())"
  by (induction xs) auto

definition all_remember :: "(string + string \<times> string) list \<Rightarrow> string set \<times> event_names \<Rightarrow> bool" where
  "all_remember seen s \<longleftrightarrow> distinct (lefts seen) \<and> fst s = set (lefts seen) \<and> names_remember (rights seen) (snd s)"

lemma validate_publisher_iff:
  "validate_publisher s v = Inr s' \<longleftrightarrow>
    (\<exists>p key names. v = PDict p \<and> dget p ''key'' = PStr key \<and> key \<noteq> [] \<and> key \<notin> fst s \<and> dget p ''fallback_policy'' = PStr ''first_success_wins'' \<and>
       as_list (dget p ''triggers'') \<noteq> [] \<and> as_list (dget p ''effects'') \<noteq> [] \<and>
       fold_res (validate_trigger key) (snd s) (as_list (dget p ''triggers'')) = Inr names \<and>
       list_all effect_ok (as_list (dget p ''effects'')) \<and> s' = (insert key (fst s), names))"
  (is "_ \<longleftrightarrow> ?rhs")
proof (cases "\<exists>p key t ts e es. v = PDict p \<and> dget p ''key'' = PStr key \<and> dget p ''triggers'' = PList (t # ts) \<and> dget p ''effects'' = PList (e # es)")
  case True
  then obtain p key t ts e es where v: "v = PDict p" "dget p ''key'' = PStr key" "dget p ''triggers'' = PList (t # ts)"
    "dget p ''effects'' = PList (e # es)" by blast
  have eff: "(\<exists>ys. map_res (validate_effect key) (e # es) = Inr ys) \<longleftrightarrow> list_all effect_ok (e # es)"
    unfolding map_res_unit validate_effect_iff list_all_iff ..
  have "validate_publisher s v = Inr s' \<longleftrightarrow> key \<noteq> [] \<and> key \<notin> fst s \<and> dget p ''fallback_policy'' = PStr ''first_success_wins'' \<and>
     (\<exists>names. fold_res (validate_trigger key) (snd s) (t # ts) = Inr names \<and> (\<exists>ys. map_res (validate_effect key) (e # es) = Inr ys) \<and>
       s' = (insert key (fst s), names))"
    by (auto simp: validate_publisher_def v strategy_in_Inr FALLBACK_POLICIES_def simp del: fold_res.simps map_res.simps)
  then show ?thesis unfolding eff by (auto simp: v simp del: fold_res.simps)
next
  case False
  have "validate_publisher s v \<noteq> Inr s'" 
    using False by (auto simp: validate_publisher_def split: pyval.splits list.splits if_splits)
  moreover have "\<not> ?rhs"
    using False by (auto elim!: as_list.elims simp: neq_Nil_conv)
  ultimately show ?thesis by blast
qed

lemma validate_publisher_sound:
  assumes "all_remember seen s" and "validate_publisher s v = Inr s'"
  shows "publisher_ok v \<and> all_remember (seen @ publisher_facts v) s'"
proof -
  from assms(2) obtain p key names where p: "v = PDict p" "dget p ''key'' = PStr key" "key \<noteq> []" "key \<notin> fst s"
    "dget p ''fallback_policy'' = PStr ''first_success_wins''" "as_list (dget p ''triggers'') \<noteq> []" "as_list (dget p ''effects'') \<noteq> []"
    "list_all effect_ok (as_list (dget p ''effects''))" and s': "s' = (insert key (fst s), names)"
    and names: "fold_res (validate_trigger key) (snd s) (as_list (dget p ''triggers'')) = Inr names"
    unfolding validate_publisher_iff by blast
  have "names_remember (rights seen) (snd s)" using assms(1) by (simp add: all_remember_def)
  from triggers.fold_sound [OF this names] show ?thesis
    using assms(1) p by (auto simp: s' all_remember_def publisher_facts_def)
qed

lemma validate_publisher_complete:
  assumes "all_remember seen s" and "publisher_ok v" and "publishers_coherent (seen @ publisher_facts v)"
  shows "\<exists>s'. validate_publisher s v = Inr s'"
proof -
  from assms(2) obtain p key where p: "v = PDict p" "dget p ''key'' = PStr key" by (cases v) (auto simp: is_str_iff)
  have r: "names_remember (rights seen) (snd s)" using assms(1) by (simp add: all_remember_def)
  have "\<exists>names. fold_res (validate_trigger key) (snd s) (as_list (dget p ''triggers'')) = Inr names"
    using triggers.fold_complete [OF r] assms(2,3) by (simp add: p publishers_coherent_def publisher_facts_def)
  then show ?thesis using assms unfolding validate_publisher_iff
    by (auto simp: p all_remember_def publishers_coherent_def publisher_facts_def)
qed

interpretation publishers: remembering_check validate_publisher publisher_ok publisher_facts publishers_coherent all_remember
proof unfold_locales
  show "all_remember F s \<Longrightarrow> publishers_coherent F" for F s
    by (simp add: all_remember_def publishers_coherent_def names_remember_def)
  show "publishers_coherent (F @ G) \<Longrightarrow> publishers_coherent F" for F G
    by (auto simp: publishers_coherent_def intro: one_to_one_prefix)
qed (blast intro: validate_publisher_sound validate_publisher_complete dest: validate_publisher_sound)+

lemma nothing_remembered: "all_remember [] ({}, Map.empty, Map.empty)"
  by (simp add: all_remember_def names_remember_def one_to_one_def)

lemma document_accepted: "validate_publisher_contracts document = Inr () \<longleftrightarrow> document_ok document"
proof (cases "\<exists>p ps. dget document ''publishers'' = PList (p # ps)")
  case True
  then obtain p ps where d: "dget document ''publishers'' = PList (p # ps)" by blast
  show ?thesis using publishers.fold_accepts [OF nothing_remembered, of "p # ps"]
    by (auto simp: validate_publisher_contracts_def document_ok_def d simp del: fold_res.simps)
next
  case False
  then show ?thesis
    by (auto simp: validate_publisher_contracts_def document_ok_def split: pyval.splits list.splits)
qed

text \<open>Property C12. Validation accepts exactly the documents of version 1 whose publishers are
  well formed, have distinct keys and relate event files and markers one to one.\<close>

theorem contracts_accepted_exactly: "validate_publisher_contracts document = Inr () \<longleftrightarrow> document_ok document"
  by (rule document_accepted)

section \<open>Loading and projecting\<close>

definition plain_trigger :: "pydict \<Rightarrow> bool" where \<comment> \<open>no blank inside the names of a transition\<close>
  "plain_trigger t \<longleftrightarrow> dget t ''strategy'' = PStr ''native_transition'' \<longrightarrow>
     list_all (\<lambda>c. \<not> py_space c) (as_text (dget t ''from_map'')) \<and> list_all (\<lambda>c. \<not> py_space c) (as_text (dget t ''to_map''))"

lemma dropWhile_plain: "list_all (\<lambda>c. \<not> p c) s \<Longrightarrow> dropWhile p s = s"
  by (cases s) auto

lemma strip_plain: "list_all (\<lambda>c. \<not> py_space c) s \<Longrightarrow> strip s = s"
  by (simp add: strip_def rstrip_by_def dropWhile_plain)

lemma rstrip_by_subset: "set (rstrip_by p s) \<subseteq> set s"
  using set_dropWhileD by (fastforce simp: rstrip_by_def)

lemma forward_slashes_fixed: "CHR 0x5C \<notin> set s \<Longrightarrow> forward_slashes s = s"
  by (induction s) (auto simp: forward_slashes_def)

lemma no_backslash: "CHR 0x5C \<notin> set (forward_slashes s)"
  by (auto simp: forward_slashes_def)

lemma map_name_fixed:
  assumes n: "n = publisher_map_name v" and plain: "list_all (\<lambda>c. \<not> py_space c) n"
  shows "publisher_map_name (PStr n) = n"
proof -
  define m where "m = rstrip_by (\<lambda>c. c = CHR ''/'') (forward_slashes (strip (if truthy v then py_str v else [])))"
  show ?thesis
  proof (cases "m \<in> {''game/hub/hub'', ''game/sp/hub/hub''}")
    case True
    then have "n = ''game/hub/hub''" by (simp add: n publisher_map_name_def m_def [symmetric])
    moreover have "publisher_map_name (PStr ''game/hub/hub'') = ''game/hub/hub''" by code_simp
    ultimately show ?thesis by simp
  next
    case False
    then have nm: "n = m" by (simp add: n publisher_map_name_def m_def [symmetric])
    have "CHR 0x5C \<notin> set m" using rstrip_by_subset no_backslash unfolding m_def by blast
    moreover have "rstrip_by (\<lambda>c. c = CHR ''/'') m = m" by (simp add: m_def)
    ultimately have "rstrip_by (\<lambda>c. c = CHR ''/'') (forward_slashes (strip m)) = m"
      using plain by (simp add: nm strip_plain forward_slashes_fixed)
    moreover have "(if truthy (PStr n) then py_str (PStr n) else []) = m" by (auto simp: py_str_def nm)
    ultimately show ?thesis using False unfolding publisher_map_name_def Let_def by (simp only: nm if_False)
  qed
qed

lemma load_trigger_iff:
  "load_trigger t = Inr t' \<longleftrightarrow> (\<exists>s. map_of t ''strategy'' = Some s \<and>
     (if s \<noteq> PStr ''native_transition'' then t' = t
      else \<exists>f g. map_of t ''from_map'' = Some f \<and> map_of t ''to_map'' = Some g \<and>
        t' = dset ''to_map'' (PStr (publisher_map_name g)) (dset ''from_map'' (PStr (publisher_map_name f)) t)))"
  by (cases "map_of t ''strategy''"; cases "map_of t ''from_map''"; cases "map_of t ''to_map''")
    (auto simp: load_trigger_def subscript_def map_of_update Let_def)

lemma dget_Some: "map_of d k = Some v \<Longrightarrow> dget d k = v"
  by (simp add: dget_def)

lemma loaded_trigger:
  assumes "load_trigger t = Inr t'" and "plain_trigger t'" and "trigger_ok (PDict t)"
  shows "load_trigger t' = Inr t' \<and> trigger_ok (PDict t') \<and> event_files (PDict t') = event_files (PDict t)"
proof -
  obtain s where s: "map_of t ''strategy'' = Some s" using assms(1) by (auto simp: load_trigger_iff)
  show ?thesis
  proof (cases "s = PStr ''native_transition''")
    case False
    then show ?thesis using assms by (auto simp: load_trigger_iff s)
  next
    case True
    then obtain f g where fg: "map_of t ''from_map'' = Some f" "map_of t ''to_map'' = Some g"
      and t': "t' = dset ''to_map'' (PStr (publisher_map_name g)) (dset ''from_map'' (PStr (publisher_map_name f)) t)"
      using assms(1) by (auto simp: load_trigger_iff s)
    have d: "dget t ''strategy'' = PStr ''native_transition''" "dget t ''from_map'' = f" "dget t ''to_map'' = g"
      using s fg True by (simp_all add: dget_Some)
    have fixed: "publisher_map_name (PStr (publisher_map_name f)) = publisher_map_name f"
      "publisher_map_name (PStr (publisher_map_name g)) = publisher_map_name g"
      using assms(2) by (auto simp: plain_trigger_def t' d intro: map_name_fixed [OF refl])
    have "load_trigger t' = Inr t'"
      by (simp add: load_trigger_iff) (simp add: t' map_of_update s True fg fixed dset_same)
    moreover have "trigger_ok (PDict t')" using assms(3) by (simp add: t' d fixed)
    moreover have "event_files (PDict t') = event_files (PDict t)" by (simp add: t' d)
    ultimately show ?thesis by blast
  qed
qed

lemma map_res_list: "map_res f xs = Inr ys \<longleftrightarrow> list_all2 (\<lambda>x y. f x = Inr y) xs ys"
  by (induction xs arbitrary: ys) (auto simp: list_all2_Cons1)

lemma map_res_stable:
  "list_all2 (\<lambda>x y. P x y \<and> f (g y) = Inr y) xs ys \<Longrightarrow> map_res (\<lambda>v. f v) (map g ys) = Inr ys"
  by (induction rule: list_all2_induct) auto

lemma dicts_of: "(\<And>v. v \<in> set vs \<Longrightarrow> is_dict v) \<Longrightarrow> map PDict (map as_dict vs) = vs"
  unfolding map_map by (rule map_idI) (metis as_dict.simps(1) comp_apply is_dict_iff)

lemma ok_is_dict: "trigger_ok v \<Longrightarrow> is_dict v" "effect_ok v \<Longrightarrow> is_dict v" "publisher_ok v \<Longrightarrow> is_dict v"
  by (cases v; simp)+

lemma loaded_triggers:
  assumes "map_res (\<lambda>t. load_trigger (as_dict t)) vs = Inr ts" and "list_all trigger_ok vs" and "list_all plain_trigger ts"
  shows "map_res (\<lambda>t. load_trigger (as_dict t)) (map PDict ts) = Inr ts \<and> list_all trigger_ok (map PDict ts) \<and>
    map event_files (map PDict ts) = map event_files vs"
  using assms(1,2,3) unfolding map_res_list
proof (induction rule: list_all2_induct)
  case (Cons v vs t ts)
  then obtain d where v: "v = PDict d" using ok_is_dict(1) by (auto simp: is_dict_iff)
  from loaded_trigger [of d t] Cons show ?case by (simp add: v)
qed simp

definition plain_publisher :: "publisher \<Rightarrow> bool" where
  "plain_publisher p \<longleftrightarrow> list_all plain_trigger (pb_triggers p)"

lemma load_publisher_iff:
  "load_publisher p = Inr q \<longleftrightarrow> (\<exists>triggers effects.
     map_of p ''triggers'' = Some triggers \<and> map_of p ''effects'' = Some effects \<and> map_of p ''key'' \<noteq> None \<and>
     map_res (\<lambda>t. load_trigger (as_dict t)) (as_list triggers) = Inr (pb_triggers q) \<and>
     pb_key q = as_text (dget p ''key'') \<and> pb_map_key q = dget_or p ''map_key'' (PStr []) \<and>
     pb_effects q = map as_dict (as_list effects) \<and> map_of p ''dedupe_scope'' = Some (pb_dedupe_scope q) \<and>
     map_of p ''fallback_policy'' = Some (pb_fallback_policy q))"
  by (cases q) (auto simp: load_publisher_def subscript_def dget_def split: option.splits)

lemma loaded_publisher:
  assumes "publisher_ok v" and "load_publisher (as_dict v) = Inr q" and "plain_publisher q"
  shows "load_publisher (as_dict (publisher_document q)) = Inr q \<and> publisher_ok (publisher_document q) \<and>
    publisher_facts (publisher_document q) = publisher_facts v"
proof -
  obtain p where v: "v = PDict p" using assms(1) ok_is_dict(3) by (auto simp: is_dict_iff)
  from assms(2) obtain triggers effects where q: "map_of p ''triggers'' = Some triggers" "map_of p ''effects'' = Some effects"
     "map_res (\<lambda>t. load_trigger (as_dict t)) (as_list triggers) = Inr (pb_triggers q)"
     "pb_key q = as_text (dget p ''key'')" "pb_effects q = map as_dict (as_list effects)"
     "map_of p ''fallback_policy'' = Some (pb_fallback_policy q)"
    unfolding load_publisher_iff by (auto simp: v)
  have ok: "list_all trigger_ok (as_list triggers)" "list_all effect_ok (as_list effects)" "as_list triggers \<noteq> []" "as_list effects \<noteq> []"
    "pb_key q \<noteq> []" "pb_fallback_policy q = PStr ''first_success_wins''"
    using assms(1) by (simp_all add: v q dget_Some [OF q(1)] dget_Some [OF q(2)] dget_Some [OF q(6), symmetric])
  have t: "map_res (\<lambda>t. load_trigger (as_dict t)) (map PDict (pb_triggers q)) = Inr (pb_triggers q)"
    "list_all trigger_ok (map PDict (pb_triggers q))" "map event_files (map PDict (pb_triggers q)) = map event_files (as_list triggers)"
    using loaded_triggers [OF q(3) ok(1)] assms(3) by (simp_all add: plain_publisher_def)
  have e: "map PDict (pb_effects q) = as_list effects"
    unfolding q(5) by (rule dicts_of) (use ok(2) ok_is_dict(2) in \<open>auto simp: list_all_iff\<close>)
  have ne: "pb_triggers q \<noteq> []" using map_res_length [OF q(3)] ok(3) by auto
  have fields: "as_dict (publisher_document q) = [(''key'', PStr (pb_key q)), (''map_key'', pb_map_key q),
     (''triggers'', PList (map PDict (pb_triggers q))), (''effects'', PList (as_list effects)),
     (''dedupe_scope'', pb_dedupe_scope q), (''fallback_policy'', pb_fallback_policy q)]"
    by (simp add: publisher_document_def e)
  have "load_publisher (as_dict (publisher_document q)) = Inr q"
    unfolding load_publisher_iff fields using t(1) q(5) by (simp add: dget_def dget_or_def)
  moreover have "publisher_ok (publisher_document q)"
    using t(2) ne ok by (simp add: publisher_document_def e dget_def)
  moreover have "publisher_facts (publisher_document q) = publisher_facts v"
    unfolding publisher_facts_def fields using t(3) q(4) by (simp add: dget_def v) (simp add: q(1) [folded dget_def])
  ultimately show ?thesis by blast
qed


lemma loaded_publishers:
  assumes "map_res (\<lambda>p. load_publisher (as_dict p)) vs = Inr ps" and "list_all publisher_ok vs" and "list_all plain_publisher ps"
  shows "map_res (\<lambda>p. load_publisher (as_dict p)) (map publisher_document ps) = Inr ps \<and>
    list_all publisher_ok (map publisher_document ps) \<and> map publisher_facts (map publisher_document ps) = map publisher_facts vs"
  using assms unfolding map_res_list
proof (induction rule: list_all2_induct)
  case (Cons v vs p ps)
  from loaded_publisher [of v p] Cons show ?case by simp
qed simp

lemma contracts_document_fields [simp]:
  "dget (publisher_contracts_document ps) ''schema_version'' = PInt 1"
  "dget (publisher_contracts_document ps) ''publishers'' = PList (map publisher_document ps)"
  by (simp_all add: publisher_contracts_document_def dget_def)

lemma from_document_Inr:
  "publisher_contracts_from_document document allow_empty = Inr ps \<longleftrightarrow>
     (if allow_empty \<and> dget document ''publishers'' = PList [] then is_one (dget document ''schema_version'') \<and> ps = []
      else document_ok document \<and> map_res (\<lambda>p. load_publisher (as_dict p)) (as_list (dget document ''publishers'')) = Inr ps)"
  by (auto simp: publisher_contracts_from_document_def document_accepted)

text \<open>Property C11. Loading the document projected from loaded contracts gives the same contracts,
  when the canonical map names have no blank inside.\<close>

theorem contracts_roundtrip:
  assumes "publisher_contracts_from_document document allow_empty = Inr ps" and "list_all plain_publisher ps"
  shows "publisher_contracts_from_document (publisher_contracts_document ps) allow_empty = Inr ps"
proof (cases "allow_empty \<and> dget document ''publishers'' = PList []")
  case True
  then show ?thesis using assms(1) by (simp add: from_document_Inr is_one_def)
next
  case False
  then have d: "document_ok document" "map_res (\<lambda>p. load_publisher (as_dict p)) (as_list (dget document ''publishers'')) = Inr ps"
    using assms(1) by (auto simp: from_document_Inr)
  have r: "map_res (\<lambda>p. load_publisher (as_dict p)) (map publisher_document ps) = Inr ps"
    "list_all publisher_ok (map publisher_document ps)"
    "map publisher_facts (map publisher_document ps) = map publisher_facts (as_list (dget document ''publishers''))"
    using loaded_publishers [OF d(2)] d(1) assms(2) by (auto simp: document_ok_def)
  have ne: "ps \<noteq> []" using map_res_length [OF d(2)] d(1) by (auto simp: document_ok_def)
  have "document_ok (publisher_contracts_document ps)"
    using d(1) r(2) ne unfolding document_ok_def contracts_document_fields as_list.simps r(3) by (simp add: is_one_def)
  then show ?thesis using r(1) ne by (simp add: from_document_Inr)
qed

section \<open>The index finds every publisher\<close>

definition declared_for :: "string list \<Rightarrow> publisher list \<Rightarrow> publisher list" where \<comment> \<open>once for each trigger of the key\<close>
  "declared_for k ps = concat (map (\<lambda>p. replicate (length (filter (\<lambda>t. own_key t = Inr k) (pb_triggers p))) p) ps)"

lemma add_trigger_found:
  "own_key t = Inr k \<Longrightarrow> \<exists>g'. add_trigger p g t = Inr g' \<and> (\<forall>k'. found_in g' k' = found_in g k' @ (if k' = k then [p] else []))"
  by (auto simp: add_trigger_def found_in_def map_of_update split: option.split)

lemma add_triggers_found:
  "(\<forall>t\<in>set ts. \<exists>k. own_key t = Inr k) \<Longrightarrow> \<exists>g'. fold_res (add_trigger p) g ts = Inr g' \<and>
     (\<forall>k. found_in g' k = found_in g k @ replicate (length (filter (\<lambda>t. own_key t = Inr k) ts)) p)"
proof (induction ts arbitrary: g)
  case (Cons t ts)
  then obtain k where k: "own_key t = Inr k" by auto
  from add_trigger_found [OF k, of p g] obtain g1 where g1: "add_trigger p g t = Inr g1"
    "\<And>k'. found_in g1 k' = found_in g k' @ (if k' = k then [p] else [])" by blast
  from Cons obtain g' where g': "fold_res (add_trigger p) g1 ts = Inr g'"
    "\<And>k. found_in g' k = found_in g1 k @ replicate (length (filter (\<lambda>t. own_key t = Inr k) ts)) p" by force
  then show ?case by (auto simp: k g1)
qed simp

lemma add_publishers_found:
  "(\<forall>p\<in>set ps. \<forall>t\<in>set (pb_triggers p). \<exists>k. own_key t = Inr k) \<Longrightarrow>
     \<exists>g'. fold_res (\<lambda>g p. fold_res (add_trigger p) g (pb_triggers p)) g ps = Inr g' \<and>
     (\<forall>k. found_in g' k = found_in g k @ declared_for k ps)"
proof (induction ps arbitrary: g)
  case (Cons p ps)
  then obtain g1 where g1: "fold_res (add_trigger p) g (pb_triggers p) = Inr g1"
    "\<And>k. found_in g1 k = found_in g k @ replicate (length (filter (\<lambda>t. own_key t = Inr k) (pb_triggers p))) p"
    using add_triggers_found [of "pb_triggers p" p g] by auto
  from Cons obtain g' where g': "fold_res (\<lambda>g p. fold_res (add_trigger p) g (pb_triggers p)) g1 ps = Inr g'"
    "\<And>k. found_in g' k = found_in g1 k @ declared_for k ps" by force
  then show ?case by (simp add: g1 declared_for_def)
qed (simp add: declared_for_def)

lemma found_in_map: "found_in (map (\<lambda>(k, ps). (k, sort_key pb_key ps)) g) k = sort_key pb_key (found_in g k)"
  by (induction g) (auto simp: found_in_def)

lemma index_found:
  assumes "\<forall>p\<in>set ps. \<forall>t\<in>set (pb_triggers p). \<exists>k. own_key t = Inr k"
  shows "\<exists>index. publishers_by_trigger ps = Inr index \<and> (\<forall>k. found_in index k = sort_key pb_key (declared_for k ps))"
proof -
  from add_publishers_found [OF assms, of "[]"] obtain g where
    "fold_res (\<lambda>g p. fold_res (add_trigger p) g (pb_triggers p)) [] ps = Inr g" "\<And>k. found_in g k = declared_for k ps"
    by (auto simp: found_in_def)
  then show ?thesis by (simp add: publishers_by_trigger_def found_in_map)
qed

lemma loaded_own_key:
  assumes "load_trigger t = Inr t'" and "trigger_ok (PDict t)"
  shows "\<exists>k. own_key t' = Inr k"
proof -
  have s: "dget t' ''strategy'' = dget t ''strategy''" using assms(1) by (auto simp: load_trigger_iff split: if_splits)
  then have "subscript t' ''strategy'' = Inr (dget t ''strategy'')" using assms(2) by (subst subscript_dget) auto
  then show ?thesis using assms(2) by (auto simp: own_key_def trigger_key_def)
qed

lemma list_all2_member: "list_all2 P xs ys \<Longrightarrow> y \<in> set ys \<Longrightarrow> \<exists>x\<in>set xs. P x y"
  by (induction rule: list_all2_induct) auto

lemma loaded_keys:
  assumes "publisher_contracts_from_document document allow_empty = Inr ps" and "p \<in> set ps" and "t \<in> set (pb_triggers p)"
  shows "\<exists>k. own_key t = Inr k"
proof -
  have "\<not> (allow_empty \<and> dget document ''publishers'' = PList [])"
    using assms(1,2) unfolding from_document_Inr by (metis empty_iff list.set(1))
  then have d: "document_ok document" and "list_all2 (\<lambda>v p. load_publisher (as_dict v) = Inr p) (as_list (dget document ''publishers'')) ps"
    using assms(1) unfolding from_document_Inr map_res_list by presburger+
  from list_all2_member [OF this(2) assms(2)] obtain v where "v \<in> set (as_list (dget document ''publishers''))"
    and p: "load_publisher (as_dict v) = Inr p" by blast
  with d have v: "publisher_ok v" by (simp add: document_ok_def list_all_iff)
  from p obtain triggers where triggers: "map_of (as_dict v) ''triggers'' = Some triggers"
    "list_all2 (\<lambda>x y. load_trigger (as_dict x) = Inr y) (as_list triggers) (pb_triggers p)"
    by (auto simp: load_publisher_iff map_res_list)
  from list_all2_member [OF triggers(2) assms(3)] obtain x where x: "x \<in> set (as_list triggers)" "load_trigger (as_dict x) = Inr t"
    by blast
  have "list_all trigger_ok (as_list triggers)" using triggers(1) v by (cases v) (simp_all add: dget_Some)
  with x(1) have "trigger_ok x" by (simp add: list_all_iff)
  with x(2) have "load_trigger (as_dict x) = Inr t" "trigger_ok x" by simp_all
  then show ?thesis using loaded_own_key ok_is_dict(1) by (metis as_dict.simps(1) is_dict_iff)
qed

text \<open>On loaded contracts the engine is built, and an observation finds the publishers
  of its key in the order of their own keys, once for each trigger that has it.\<close>

theorem engine_finds_exactly:
  assumes "publisher_contracts_from_document document allow_empty = Inr ps"
  shows "\<exists>e. new_engine ps = Inr e \<and> (\<forall>strategy payload. engine_observe e strategy payload =
     bind_res (trigger_key strategy payload) (\<lambda>k. Inr (sort_key pb_key (declared_for k ps))))"
proof -
  from index_found [of ps] loaded_keys [OF assms] obtain index where
    "publishers_by_trigger ps = Inr index" "\<And>k. found_in index k = sort_key pb_key (declared_for k ps)" by blast
  then show ?thesis by (simp add: new_engine_def engine_observe_def)
qed

section \<open>A sample document\<close>

definition sample_contracts :: pydict where
  "sample_contracts = [(''schema_version'', PInt 1), (''publishers'', PList [PDict [
     (''key'', PStr ''finish''), (''map_key'', PStr ''intro''),
     (''triggers'', PList [PDict [(''strategy'', PStr ''native_transition''), (''from_map'', PStr '' game/sp/hub/hub/ ''), (''to_map'', PStr ''game/sp/intro/'')]]),
     (''effects'', PList [PDict [(''strategy'', PStr ''location_check''), (''location_id'', PInt 7770001)]]),
     (''dedupe_scope'', PStr ''room''), (''fallback_policy'', PStr ''first_success_wins'')]])]"

definition sample_publisher :: publisher where
  "sample_publisher = \<lparr>pb_key = ''finish'', pb_map_key = PStr ''intro'',
     pb_triggers = [[(''strategy'', PStr ''native_transition''), (''from_map'', PStr ''game/hub/hub''), (''to_map'', PStr ''game/sp/intro'')]],
     pb_effects = [[(''strategy'', PStr ''location_check''), (''location_id'', PInt 7770001)]],
     pb_dedupe_scope = PStr ''room'', pb_fallback_policy = PStr ''first_success_wins''\<rparr>"

lemma sample_loaded: "publisher_contracts_from_document sample_contracts False = Inr [sample_publisher]"
  by code_simp

lemma sample_plain: "list_all plain_publisher [sample_publisher]"
  by code_simp

theorem contracts_roundtrip_witness:
  "publisher_contracts_from_document (publisher_contracts_document [sample_publisher]) False = Inr [sample_publisher]"
  by (rule contracts_roundtrip [OF sample_loaded sample_plain])

theorem engine_finds_exactly_witness:
  "\<exists>e. new_engine [sample_publisher] = Inr e \<and> (\<forall>strategy payload. engine_observe e strategy payload =
     bind_res (trigger_key strategy payload) (\<lambda>k. Inr (sort_key pb_key (declared_for k [sample_publisher]))))"
  by (rule engine_finds_exactly [OF sample_loaded])

end
