(* ===== verification/Publisher_Dispatch.thy ===== *)
theory Publisher_Dispatch
  imports Publisher_Documents
begin

text \<open>
  The dispatch of publisher effects, \<open>doom_eap/runtime/publisher_dispatch.py\<close>. A coroutine is split
  at its await: the part before it ends in the location to send, the part after it takes the outcome
  in a state that other operations may have changed. Whether the campaign goal was sent and the outcome
  of \<open>persist\<close> are arguments. Logging is left out.
\<close>

section \<open>State\<close>

type_synonym effect_key = "string \<times> nat"
type_synonym effect_ack = "pyval \<times> pyval" \<comment> \<open>strategy and location\<close>
type_synonym acknowledgements = "(string \<times> (string \<times> effect_ack) list) list"

record dispatch =
  pd_publishers :: "publisher list"
  pd_acks :: acknowledgements
  pd_in_flight :: "effect_key set"
  pd_generation :: nat
  pd_facts :: check_facts

definition new_dispatch :: "publisher list \<Rightarrow> dispatch" where
  "new_dispatch publishers = \<lparr>pd_publishers = publishers, pd_acks = [], pd_in_flight = {}, pd_generation = 0,
     pd_facts = \<lparr>cf_checked = {}, cf_submitted = {}, cf_server = {}, cf_ready = False, cf_connected = False\<rparr>\<rparr>"

definition observe_protocol :: "dispatch \<Rightarrow> check_facts \<Rightarrow> dispatch" where
  "observe_protocol d facts = d\<lparr>pd_facts := facts\<rparr>"

definition invalidate_dispatch :: "dispatch \<Rightarrow> dispatch" where
  "invalidate_dispatch d = d\<lparr>pd_generation := pd_generation d + 1, pd_in_flight := {}\<rparr>"

definition bind_dispatch :: "dispatch \<Rightarrow> acknowledgements \<Rightarrow> dispatch" where
  "bind_dispatch d acks = (invalidate_dispatch d)\<lparr>pd_acks := acks\<rparr>"

definition discard :: "effect_key \<Rightarrow> dispatch \<Rightarrow> dispatch" where
  "discard k d = d\<lparr>pd_in_flight := pd_in_flight d - {k}\<rparr>"

definition record_ack :: "dispatch \<Rightarrow> effect_key \<Rightarrow> pydict \<Rightarrow> unit res \<Rightarrow> dispatch \<times> unit res" where
  "record_ack d k e persisted =
     (let own = (case map_of (pd_acks d) (fst k) of None \<Rightarrow> [] | Some a \<Rightarrow> a)
      in case subscript e ''strategy'' of
        Inl x \<Rightarrow> (d\<lparr>pd_acks := AList.update (fst k) own (pd_acks d)\<rparr>, Inl x)
      | Inr strategy \<Rightarrow>
          (d\<lparr>pd_acks := AList.update (fst k) (AList.update (str_nat (snd k)) (strategy, dget e ''location_id'') own) (pd_acks d)\<rparr>,
           persisted))"

section \<open>One effect\<close>

text \<open>What the part before the await decides: a result, or a location to send.\<close>

datatype send_step = Settled "bool res" | Send int

definition acknowledge :: "dispatch \<Rightarrow> effect_key \<Rightarrow> pydict \<Rightarrow> unit res \<Rightarrow> dispatch \<times> bool res" where
  "acknowledge d k e persisted =
     (case record_ack (discard k d) k e persisted of (d', r) \<Rightarrow> (d', bind_res r (\<lambda>_. Inr True)))"

definition begin_location :: "dispatch \<Rightarrow> effect_key \<Rightarrow> pydict \<Rightarrow> int \<Rightarrow> unit res \<Rightarrow> dispatch \<times> send_step" where
  "begin_location d k e location persisted =
     (if location \<in> cf_checked (pd_facts d)
      then (case acknowledge d k e persisted of (d', r) \<Rightarrow> (d', Settled r))
      else if location \<in> cf_submitted (pd_facts d) \<or> k \<in> pd_in_flight d then (d, Settled (Inr False))
      else if location \<notin> cf_server (pd_facts d) then (d, Settled (Inr False))
      else if \<not> cf_connected (pd_facts d) then (d, Settled (Inr False))
      else (d\<lparr>pd_in_flight := insert k (pd_in_flight d)\<rparr>, Send location))"

definition begin_effect :: "dispatch \<Rightarrow> bool \<Rightarrow> effect_key \<Rightarrow> pydict \<Rightarrow> unit res \<Rightarrow> dispatch \<times> send_step" where
  "begin_effect d goal_sent k e persisted =
     (case subscript e ''strategy'' of
        Inl x \<Rightarrow> (d, Settled (Inl x))
      | Inr strategy \<Rightarrow>
         (if strategy = PStr ''preserved_native_target'' then (d, Settled (Inr True))
          else if strategy = PStr ''location_check''
          then (case subscript e ''location_id'' of
                  Inl x \<Rightarrow> (d, Settled (Inl x))
                | Inr location \<Rightarrow> begin_location d k e (the_int location) persisted)
          else if strategy = PStr ''campaign_goal''
          then (if goal_sent then (case acknowledge d k e persisted of (d', r) \<Rightarrow> (d', Settled r))
                else (discard k d, Settled (Inr True)))
          else (d, Settled (Inl (ValueError ''unsupported publisher effect strategy'')))))"

text \<open>After the await of \<open>publication.location\<close>: the state, the location to mark as submitted and the
  result. Only \<open>location_check\<close> effects reach it.\<close>

definition finish_effect :: "dispatch \<Rightarrow> nat \<Rightarrow> effect_key \<Rightarrow> pydict \<Rightarrow> int \<Rightarrow> exn option \<Rightarrow> unit res
    \<Rightarrow> dispatch \<times> int option \<times> bool res" where
  "finish_effect d generation k e location outcome persisted =
     (if generation \<noteq> pd_generation d then (d, None, Inr False)
      else case outcome of
        Some x \<Rightarrow> (discard k d, None, Inl x)
      | None \<Rightarrow>
         (let d1 = d\<lparr>pd_facts := (pd_facts d)\<lparr>cf_submitted := insert location (cf_submitted (pd_facts d))\<rparr>\<rparr>
          in if location \<in> cf_checked (pd_facts d1)
             then (case acknowledge d1 k e persisted of (d2, r) \<Rightarrow> (d2, Some location, r))
             else (d1, Some location, Inr False)))"

section \<open>All effects of a publisher\<close>

text \<open>A loop over effects that is suspended at an await: the effect being sent, the effects still to
  come, the results so far and the generation it began in.\<close>

record effect_job =
  ej_publisher :: publisher
  ej_index :: nat
  ej_location :: int
  ej_rest :: "(nat \<times> pydict) list"
  ej_results :: "bool list"
  ej_generation :: nat

datatype job_step = Returned "bool res" | Suspended effect_job

definition ej_key :: "effect_job \<Rightarrow> effect_key" where
  "ej_key j = (pb_key (ej_publisher j), ej_index j)"

definition ej_effect :: "effect_job \<Rightarrow> pydict" where
  "ej_effect j = pb_effects (ej_publisher j) ! ej_index j"

text \<open>The loop of \<open>execute\<close>, up to its next await. Exceptions of an effect count as \<open>False\<close>. An effect
  settled without an await leaves the generation as it is; \<open>persist\<close> is called in order, its outcomes
  are a function of the effect.\<close>

fun execute_effects :: "dispatch \<Rightarrow> bool \<Rightarrow> publisher \<Rightarrow> (nat \<Rightarrow> unit res) \<Rightarrow> (nat \<times> pydict) list \<Rightarrow> bool list \<Rightarrow> dispatch \<times> job_step" where
  "execute_effects d goal_sent p persisted [] results = (d, Returned (Inr (list_all id results)))"
| "execute_effects d goal_sent p persisted ((i, e) # rest) results =
     (case begin_effect d goal_sent (pb_key p, i) e (persisted i) of
        (d', Send location) \<Rightarrow> (d', Suspended \<lparr>ej_publisher = p, ej_index = i, ej_location = location, ej_rest = rest,
           ej_results = results, ej_generation = pd_generation d'\<rparr>)
      | (d', Settled (Inr b)) \<Rightarrow> execute_effects d' goal_sent p persisted rest (results @ [b])
      | (d', Settled (Inl x)) \<Rightarrow> execute_effects d' goal_sent p persisted rest (results @ [False]))"

definition begin_execute :: "dispatch \<Rightarrow> bool \<Rightarrow> publisher \<Rightarrow> (nat \<Rightarrow> unit res) \<Rightarrow> dispatch \<times> job_step" where
  "begin_execute d goal_sent p persisted =
     (case publisher_acknowledged p (cf_checked (pd_facts d)) goal_sent of
        Inl x \<Rightarrow> (d, Returned (Inl x))
      | Inr True \<Rightarrow> (d, Returned (Inr True))
      | Inr False \<Rightarrow> execute_effects d goal_sent p persisted (enumerate 0 (pb_effects p)) [])"

definition resume_execute :: "dispatch \<Rightarrow> bool \<Rightarrow> effect_job \<Rightarrow> exn option \<Rightarrow> (nat \<Rightarrow> unit res) \<Rightarrow> dispatch \<times> int option \<times> job_step" where
  "resume_execute d goal_sent j outcome persisted =
     (case finish_effect d (ej_generation j) (ej_key j) (ej_effect j) (ej_location j) outcome (persisted (ej_index j)) of
        (d', submitted, r) \<Rightarrow>
         (if ej_generation j \<noteq> pd_generation d' then (d', submitted, Returned (Inr False))
          else case execute_effects d' goal_sent (ej_publisher j) persisted (ej_rest j)
              (ej_results j @ [case r of Inl x \<Rightarrow> False | Inr b \<Rightarrow> b]) of
            (d'', next) \<Rightarrow> (d'', submitted, next)))"

text \<open>\<open>mission\<close>: the first publisher that checks the location; an exception of an effect ends it.\<close>

definition checks_location :: "int \<Rightarrow> publisher \<Rightarrow> bool" where
  "checks_location location p \<longleftrightarrow>
     (\<exists>e\<in>set (pb_effects p). dget e ''strategy'' = PStr ''location_check'' \<and> dget e ''location_id'' = PInt location)"

fun mission_effects :: "dispatch \<Rightarrow> bool \<Rightarrow> publisher \<Rightarrow> (nat \<Rightarrow> unit res) \<Rightarrow> (nat \<times> pydict) list \<Rightarrow> bool list \<Rightarrow> dispatch \<times> job_step" where
  "mission_effects d goal_sent p persisted [] results = (d, Returned (Inr (results \<noteq> [] \<and> list_all id results)))"
| "mission_effects d goal_sent p persisted ((i, e) # rest) results =
     (if dget e ''strategy'' = PStr ''preserved_native_target'' then mission_effects d goal_sent p persisted rest results
      else case begin_effect d goal_sent (pb_key p, i) e (persisted i) of
        (d', Send location) \<Rightarrow> (d', Suspended \<lparr>ej_publisher = p, ej_index = i, ej_location = location, ej_rest = rest,
           ej_results = results, ej_generation = pd_generation d'\<rparr>)
      | (d', Settled (Inr b)) \<Rightarrow> mission_effects d' goal_sent p persisted rest (results @ [b])
      | (d', Settled (Inl x)) \<Rightarrow> (d', Returned (Inl x)))"

definition begin_mission :: "dispatch \<Rightarrow> bool \<Rightarrow> int \<Rightarrow> (nat \<Rightarrow> unit res) \<Rightarrow> dispatch \<times> job_step" where
  "begin_mission d goal_sent location persisted =
     (case find (checks_location location) (pd_publishers d) of
        None \<Rightarrow> (d, Returned (Inr False))
      | Some p \<Rightarrow> mission_effects d goal_sent p persisted (enumerate 0 (pb_effects p)) [])"

definition resume_mission :: "dispatch \<Rightarrow> bool \<Rightarrow> effect_job \<Rightarrow> exn option \<Rightarrow> (nat \<Rightarrow> unit res) \<Rightarrow> dispatch \<times> int option \<times> job_step" where
  "resume_mission d goal_sent j outcome persisted =
     (case finish_effect d (ej_generation j) (ej_key j) (ej_effect j) (ej_location j) outcome (persisted (ej_index j)) of
        (d', submitted, Inl x) \<Rightarrow> (d', submitted, Returned (Inl x))
      | (d', submitted, Inr b) \<Rightarrow>
         (if ej_generation j \<noteq> pd_generation d' then (d', submitted, Returned (Inr False))
          else case mission_effects d' goal_sent (ej_publisher j) persisted (ej_rest j) (ej_results j @ [b]) of
            (d'', next) \<Rightarrow> (d'', submitted, next)))"

end
