(* ===== verification/Publisher_Runs.thy ===== *)
theory Publisher_Runs
  imports Publisher_Dispatch
begin

text \<open>
  Executions of the publisher dispatch: calls of \<open>execute\<close> and \<open>mission\<close> that overlap at their awaits,
  protocol observations, invalidation and binding. A log, latest event first, keeps what was sent,
  failed, observed and reported. \<open>dispatch_invariant\<close> states what an invariant has to show for a
  single effect; it lifts the invariant to all calls and executions, and is interpreted for the bound
  on repeated sends and for the evidence behind acknowledgements.
\<close>

section \<open>Overlapping calls\<close>

datatype publisher_call = Execute publisher | Mission int

fun begin_call :: "dispatch \<Rightarrow> bool \<Rightarrow> publisher_call \<Rightarrow> (nat \<Rightarrow> unit res) \<Rightarrow> dispatch \<times> job_step" where
  "begin_call d goal_sent (Execute p) persisted = begin_execute d goal_sent p persisted"
| "begin_call d goal_sent (Mission location) persisted = begin_mission d goal_sent location persisted"

fun resume_call :: "dispatch \<Rightarrow> bool \<Rightarrow> publisher_call \<Rightarrow> effect_job \<Rightarrow> exn option \<Rightarrow> (nat \<Rightarrow> unit res) \<Rightarrow> dispatch \<times> int option \<times> job_step" where
  "resume_call d goal_sent (Execute p) j outcome persisted = resume_execute d goal_sent j outcome persisted"
| "resume_call d goal_sent (Mission location) j outcome persisted = resume_mission d goal_sent j outcome persisted"

datatype dispatch_event =
    Sent effect_key
  | Failed effect_key
  | Observed "int set"
  | Succeeded publisher
  | Renewed
  | Bound acknowledgements

fun step_events :: "publisher_call \<Rightarrow> job_step \<Rightarrow> dispatch_event list" where
  "step_events call (Suspended j) = [Sent (ej_key j)]"
| "step_events (Execute p) (Returned (Inr True)) = [Succeeded p]"
| "step_events call (Returned r) = []"

fun jobs_of :: "publisher_call \<Rightarrow> job_step \<Rightarrow> (publisher_call \<times> effect_job) list" where
  "jobs_of call (Suspended j) = [(call, j)]"
| "jobs_of call (Returned r) = []"

definition failed_events :: "dispatch \<Rightarrow> nat \<Rightarrow> effect_key \<Rightarrow> exn option \<Rightarrow> dispatch_event list" where
  "failed_events d generation k outcome = (if outcome \<noteq> None \<and> generation = pd_generation d then [Failed k] else [])"

fun renews :: "dispatch_event \<Rightarrow> bool" where
  "renews Renewed = True"
| "renews (Bound acks) = True"
| "renews ev = False"

definition present :: "dispatch_event list \<Rightarrow> dispatch_event list" where \<comment> \<open>the events of this generation\<close>
  "present evs = takeWhile (\<lambda>ev. \<not> renews ev) evs"

inductive publisher_run :: "publisher list \<Rightarrow> dispatch_event list \<Rightarrow> dispatch \<Rightarrow> (publisher_call \<times> effect_job) list \<Rightarrow> bool" for ps where
  run_start: "publisher_run ps [Bound []] (new_dispatch ps) []"
| run_begin: "publisher_run ps evs d jobs \<Longrightarrow> (\<And>p. call = Execute p \<Longrightarrow> p \<in> set ps) \<Longrightarrow>
    begin_call d goal_sent call persisted = (d', next) \<Longrightarrow>
    publisher_run ps (step_events call next @ evs) d' (jobs_of call next @ jobs)"
| run_resume: "publisher_run ps evs d jobs \<Longrightarrow> (call, j) \<in> set jobs \<Longrightarrow>
    resume_call d goal_sent call j outcome persisted = (d', submitted, next) \<Longrightarrow>
    publisher_run ps (step_events call next @ failed_events d (ej_generation j) (ej_key j) outcome @ evs) d'
      (jobs_of call next @ remove1 (call, j) jobs)"
| run_observe: "publisher_run ps evs d jobs \<Longrightarrow> present evs = [] \<or> cf_checked (pd_facts d) \<subseteq> cf_checked facts \<Longrightarrow>
    publisher_run ps (Observed (cf_checked facts) # evs) (observe_protocol d facts) jobs"
| run_invalidate: "publisher_run ps evs d jobs \<Longrightarrow> publisher_run ps (Renewed # evs) (invalidate_dispatch d) jobs"
| run_bind: "publisher_run ps evs d jobs \<Longrightarrow> publisher_run ps (Bound acks # evs) (bind_dispatch d acks) jobs"

section \<open>Effects of the declared publishers\<close>

definition declared :: "publisher list \<Rightarrow> effect_key \<Rightarrow> pydict \<Rightarrow> bool" where
  "declared ps k e \<longleftrightarrow> (\<exists>p\<in>set ps. fst k = pb_key p \<and> snd k < length (pb_effects p) \<and> e = pb_effects p ! snd k)"

definition location_of :: "pydict \<Rightarrow> int option" where
  "location_of e = (if dget e ''strategy'' = PStr ''location_check'' then Some (the_int (dget e ''location_id'')) else None)"

lemma declared_unique: "distinct (map pb_key ps) \<Longrightarrow> declared ps k e \<Longrightarrow> declared ps k e' \<Longrightarrow> e' = e"
  unfolding declared_def by (metis distinct_map inj_onD)

definition todo_ok :: "publisher \<Rightarrow> (nat \<times> pydict) list \<Rightarrow> bool" where
  "todo_ok p todo \<longleftrightarrow> (\<forall>(i, e)\<in>set todo. i < length (pb_effects p) \<and> e = pb_effects p ! i)"

lemma todo_ok_simps [simp]:
  "todo_ok p []" "todo_ok p ((i, e) # rest) \<longleftrightarrow> i < length (pb_effects p) \<and> e = pb_effects p ! i \<and> todo_ok p rest"
  by (simp_all add: todo_ok_def)

lemma todo_ok_all [simp]: "todo_ok p (enumerate 0 (pb_effects p))"
  unfolding todo_ok_def by (clarsimp simp: in_set_enumerate_eq)

definition job_ok :: "publisher list \<Rightarrow> effect_job \<Rightarrow> bool" where
  "job_ok ps j \<longleftrightarrow> ej_publisher j \<in> set ps \<and> ej_index j < length (pb_effects (ej_publisher j)) \<and>
     location_of (ej_effect j) = Some (ej_location j) \<and> todo_ok (ej_publisher j) (ej_rest j)"

lemma job_declared: "job_ok ps j \<Longrightarrow> declared ps (ej_key j) (ej_effect j)"
  by (auto simp: job_ok_def declared_def ej_key_def ej_effect_def)

lemma acknowledge_fields:
  assumes "acknowledge d k e persisted = (d', r)"
  shows "pd_publishers d' = pd_publishers d \<and> pd_in_flight d' = pd_in_flight d - {k} \<and> pd_generation d' = pd_generation d \<and>
    pd_facts d' = pd_facts d"
  using assms by (auto simp: acknowledge_def record_ack_def discard_def Let_def split: sum.splits)

lemma begin_location_cases:
  assumes "begin_location d k e location persisted = (d', st)"
  obtains (acked) r where "location \<in> cf_checked (pd_facts d)" "acknowledge d k e persisted = (d', r)" "st = Settled r"
  | (held) "d' = d" "st = Settled (Inr False)"
  | (sent) "location \<notin> cf_checked (pd_facts d)" "k \<notin> pd_in_flight d" "location \<notin> cf_submitted (pd_facts d)"
      "location \<in> cf_server (pd_facts d)" "cf_connected (pd_facts d)"
      "d' = d\<lparr>pd_in_flight := insert k (pd_in_flight d)\<rparr>" "st = Send location"
proof (cases "location \<in> cf_checked (pd_facts d)")
  case True
  then show thesis using assms acked by (simp add: begin_location_def split: prod.splits)
next
  case fresh: False
  show thesis
  proof (cases "location \<in> cf_submitted (pd_facts d) \<or> k \<in> pd_in_flight d \<or> location \<notin> cf_server (pd_facts d) \<or> \<not> cf_connected (pd_facts d)")
    case True
    then show thesis using assms fresh held by (simp add: begin_location_def split: if_splits)
  next
    case False
    then show thesis using assms fresh sent by (simp add: begin_location_def)
  qed
qed

lemma begin_effect_cases:
  assumes "begin_effect d goal_sent k e persisted = (d', st)"
  obtains (settled) r where "d' = d" "st = Settled r" "r = Inr True \<Longrightarrow> location_of e = None"
  | (goal) r where "location_of e = None" "acknowledge d k e persisted = (d', r)" "st = Settled r" "dget e ''strategy'' = PStr ''campaign_goal''"
  | (fact) "location_of e = None" "d' = discard k d" "st = Settled (Inr True)"
  | (acked) r location where "location_of e = Some location" "location \<in> cf_checked (pd_facts d)" "acknowledge d k e persisted = (d', r)"
      "st = Settled r"
  | (sent) location where "location_of e = Some location" "location \<notin> cf_checked (pd_facts d)" "k \<notin> pd_in_flight d"
      "d' = d\<lparr>pd_in_flight := insert k (pd_in_flight d)\<rparr>" "st = Send location"
proof (cases "subscript e ''strategy''")
  case (Inl x)
  then show thesis using assms settled by (auto simp: begin_effect_def)
next
  case strategy: (Inr strategy)
  note d = subscript_Inr [OF strategy]
  consider "strategy = PStr ''location_check''" | "strategy = PStr ''campaign_goal''"
    | "strategy \<noteq> PStr ''location_check''" "strategy \<noteq> PStr ''campaign_goal''" by blast
  then show thesis
  proof cases
    case 1
    show ?thesis
    proof (cases "subscript e ''location_id''")
      case (Inl x)
      then show ?thesis using assms settled by (auto simp: begin_effect_def strategy 1)
    next
      case (Inr v)
      then have l: "location_of e = Some (the_int v)" using subscript_Inr [OF Inr] by (simp add: location_of_def d 1)
      have "begin_location d k e (the_int v) persisted = (d', st)" using assms by (simp add: begin_effect_def strategy 1 Inr)
      then show ?thesis by (cases rule: begin_location_cases) (use settled acked [OF l] sent [OF l] in auto)
    qed
  next
    case 2
    then show ?thesis using assms goal fact by (auto simp: begin_effect_def strategy location_of_def d split: prod.splits if_splits)
  next
    case 3
    then show ?thesis using assms settled by (auto simp: begin_effect_def strategy location_of_def d split: if_splits)
  qed
qed

lemma begin_effect_fields:
  "begin_effect d goal_sent k e persisted = (d', st) \<Longrightarrow>
     pd_publishers d' = pd_publishers d \<and> pd_generation d' = pd_generation d \<and> pd_facts d' = pd_facts d \<and>
     (\<forall>location. st = Send location \<longrightarrow> location_of e = Some location)"
  by (erule begin_effect_cases) (auto dest: acknowledge_fields simp: discard_def)

lemma finish_effect_cases:
  assumes "finish_effect d generation k e location outcome persisted = (d', submitted, r)"
  obtains (stale) "generation \<noteq> pd_generation d" "d' = d" "r = Inr False"
  | (failed) x where "generation = pd_generation d" "outcome = Some x" "d' = discard k d" "r = Inl x"
  | (confirmed) d1 where "generation = pd_generation d" "outcome = None" "location \<in> cf_checked (pd_facts d)"
      "d1 = d\<lparr>pd_facts := (pd_facts d)\<lparr>cf_submitted := insert location (cf_submitted (pd_facts d))\<rparr>\<rparr>"
      "acknowledge d1 k e persisted = (d', r)"
  | (submitted) "generation = pd_generation d" "outcome = None" "r = Inr False"
      "d' = d\<lparr>pd_facts := (pd_facts d)\<lparr>cf_submitted := insert location (cf_submitted (pd_facts d))\<rparr>\<rparr>"
proof (cases "generation = pd_generation d")
  case False
  with assms have "d' = d" "r = Inr False" by (simp_all add: finish_effect_def)
  with False show thesis by (rule stale)
next
  case current: True
  show thesis
  proof (cases outcome)
    case (Some x)
    with assms current have "d' = discard k d" "r = Inl x" by (simp_all add: finish_effect_def)
    with current Some show thesis by (rule failed)
  next
    case None
    define d1 where "d1 = d\<lparr>pd_facts := (pd_facts d)\<lparr>cf_submitted := insert location (cf_submitted (pd_facts d))\<rparr>\<rparr>"
    show thesis
    proof (cases "location \<in> cf_checked (pd_facts d)")
      case True
      with assms current None have "acknowledge d1 k e persisted = (d', r)"
        by (simp add: finish_effect_def d1_def Let_def split: prod.splits)
      with current None True d1_def show thesis by (rule confirmed)
    next
      case False
      with assms current None have "d' = d1" "r = Inr False" by (simp_all add: finish_effect_def d1_def Let_def)
      with current None show thesis using submitted by (simp add: d1_def)
    qed
  qed
qed

lemma finish_effect_fields:
  "finish_effect d generation k e location outcome persisted = (d', submitted, r) \<Longrightarrow>
     pd_publishers d' = pd_publishers d \<and> pd_generation d' = pd_generation d \<and>
     cf_checked (pd_facts d') = cf_checked (pd_facts d)"
proof (erule finish_effect_cases)
  fix d1
  assume d1: "d1 = d\<lparr>pd_facts := (pd_facts d)\<lparr>cf_submitted := insert location (cf_submitted (pd_facts d))\<rparr>\<rparr>"
    and "acknowledge d1 k e persisted = (d', r)"
  then show "pd_publishers d' = pd_publishers d \<and> pd_generation d' = pd_generation d \<and>
     cf_checked (pd_facts d') = cf_checked (pd_facts d)"
    using acknowledge_fields [of d1 k e persisted d' r] by simp
qed (simp_all add: discard_def)

end
