(* ===== verification/Publisher_Safety.thy ===== *)
theory Publisher_Safety
  imports Publisher_Runs
begin

text \<open>
  What the executions of the publisher dispatch keep: an effect is sent again only after a failure,
  acknowledgements rest on checks the server confirmed, and a publisher that reports success has all
  its locations confirmed.
\<close>

section \<open>Invariants of single effects hold of executions\<close>

fun sent_events :: "effect_key \<Rightarrow> send_step \<Rightarrow> dispatch_event list" where
  "sent_events k (Send location) = [Sent k]"
| "sent_events k (Settled r) = []"

locale dispatch_invariant =
  fixes ps :: "publisher list" and inv :: "dispatch_event list \<Rightarrow> dispatch \<Rightarrow> bool"
  assumes starts: "inv [Bound []] (new_dispatch ps)"
    and begins: "inv evs d \<Longrightarrow> declared ps k e \<Longrightarrow> begin_effect d goal_sent k e persisted = (d', st) \<Longrightarrow> inv (sent_events k st @ evs) d'"
    and finishes: "inv evs d \<Longrightarrow> declared ps k e \<Longrightarrow> location_of e = Some location \<Longrightarrow>
      finish_effect d generation k e location outcome persisted = (d', submitted, r) \<Longrightarrow> inv (failed_events d generation k outcome @ evs) d'"
    and succeeds: "inv evs d \<Longrightarrow> inv (Succeeded p # evs) d"
    and observes: "inv evs d \<Longrightarrow> present evs = [] \<or> cf_checked (pd_facts d) \<subseteq> cf_checked facts \<Longrightarrow>
      inv (Observed (cf_checked facts) # evs) (observe_protocol d facts)"
    and invalidates: "inv evs d \<Longrightarrow> inv (Renewed # evs) (invalidate_dispatch d)"
    and binds: "inv evs d \<Longrightarrow> inv (Bound acks # evs) (bind_dispatch d acks)"
begin

lemma reports: "inv evs d \<Longrightarrow> inv (step_events call (Returned r) @ evs) d"
  by (cases "(call, Returned r)" rule: step_events.cases) (auto intro: succeeds)

lemma execute_effects_keeps:
  "inv evs d \<Longrightarrow> p \<in> set ps \<Longrightarrow> todo_ok p todo \<Longrightarrow> execute_effects d goal_sent p persisted todo results = (d', next) \<Longrightarrow>
     inv (step_events call next @ evs) d' \<and> pd_publishers d' = pd_publishers d \<and> (\<forall>j. next = Suspended j \<longrightarrow> job_ok ps j)"
proof (induction todo arbitrary: d results)
  case Nil
  then show ?case using reports by auto
next
  case (Cons ie todo)
  obtain i e where ie: "ie = (i, e)" by (cases ie)
  obtain d1 st where b: "begin_effect d goal_sent (pb_key p, i) e (persisted i) = (d1, st)" by fastforce
  have e: "declared ps (pb_key p, i) e" "i < length (pb_effects p)" "e = pb_effects p ! i" "todo_ok p todo"
    using Cons.prems by (auto simp: ie declared_def)
  note keep = begins [OF Cons.prems(1) e(1) b] begin_effect_fields [OF b]
  show ?case
  proof (cases st)
    case (Settled r)
    then have "execute_effects d1 goal_sent p persisted todo (results @ [case r of Inl x \<Rightarrow> False | Inr b \<Rightarrow> b]) = (d', next)"
      using Cons.prems(4) by (cases r) (simp_all add: ie b)
    from Cons.IH [OF _ Cons.prems(2) e(4) this] keep show ?thesis by (simp add: Settled)
  next
    case (Send location)
    then have stop: "d' = d1" "next = Suspended \<lparr>ej_publisher = p, ej_index = i, ej_location = location, ej_rest = todo,
        ej_results = results, ej_generation = pd_generation d1\<rparr>" using Cons.prems(4) by (auto simp: ie b)
    show ?thesis using keep Cons.prems(2) e by (simp add: stop Send job_ok_def ej_key_def ej_effect_def)
  qed
qed

lemma mission_effects_keeps:
  "inv evs d \<Longrightarrow> p \<in> set ps \<Longrightarrow> todo_ok p todo \<Longrightarrow> mission_effects d goal_sent p persisted todo results = (d', next) \<Longrightarrow>
     inv (step_events call next @ evs) d' \<and> pd_publishers d' = pd_publishers d \<and> (\<forall>j. next = Suspended j \<longrightarrow> job_ok ps j)"
proof (induction todo arbitrary: d results)
  case Nil
  then show ?case using reports by auto
next
  case (Cons ie todo)
  obtain i e where ie: "ie = (i, e)" by (cases ie)
  obtain d1 st where b: "begin_effect d goal_sent (pb_key p, i) e (persisted i) = (d1, st)" by fastforce
  have e: "declared ps (pb_key p, i) e" "i < length (pb_effects p)" "e = pb_effects p ! i" "todo_ok p todo"
    using Cons.prems by (auto simp: ie declared_def)
  note keep = begins [OF Cons.prems(1) e(1) b] begin_effect_fields [OF b]
  show ?case
  proof (cases "dget e ''strategy'' = PStr ''preserved_native_target''")
    case True
    then have "mission_effects d goal_sent p persisted todo results = (d', next)" using Cons.prems(4) by (simp add: ie)
    from Cons.IH [OF Cons.prems(1,2) e(4) this] show ?thesis .
  next
    case False
    show ?thesis
    proof (cases st)
      case (Settled r)
      show ?thesis
      proof (cases r)
        case (Inl x)
        then have "d' = d1" "next = Returned (Inl x)" using Cons.prems(4) False by (simp_all add: ie b Settled)
        with keep reports [of evs d1 call "Inl x"] show ?thesis by (simp add: Settled)
      next
        case (Inr v)
        then have "mission_effects d1 goal_sent p persisted todo (results @ [v]) = (d', next)"
          using Cons.prems(4) False by (simp add: ie b Settled)
        from Cons.IH [OF _ Cons.prems(2) e(4) this] keep show ?thesis by (simp add: Settled)
      qed
    next
      case (Send location)
      then have stop: "d' = d1" "next = Suspended \<lparr>ej_publisher = p, ej_index = i, ej_location = location, ej_rest = todo,
          ej_results = results, ej_generation = pd_generation d1\<rparr>" using Cons.prems(4) False by (auto simp: ie b)
      show ?thesis using keep Cons.prems(2) e by (simp add: stop Send job_ok_def ej_key_def ej_effect_def)
    qed
  qed
qed

definition keeps :: "dispatch_event list \<Rightarrow> dispatch \<Rightarrow> job_step \<Rightarrow> bool" where
  "keeps evs d step \<longleftrightarrow> inv evs d \<and> pd_publishers d = ps \<and> (\<forall>j. step = Suspended j \<longrightarrow> job_ok ps j)"

lemma begin_keeps:
  assumes "inv evs d" and "pd_publishers d = ps" and "\<And>p. call = Execute p \<Longrightarrow> p \<in> set ps"
    and b: "begin_call d goal_sent call persisted = (d', next)"
  shows "keeps (step_events call next @ evs) d' next"
proof (cases call)
  case (Execute p)
  show ?thesis
  proof (cases "publisher_acknowledged p (cf_checked (pd_facts d)) goal_sent = Inr False")
    case True
    then show ?thesis
      using execute_effects_keeps [OF assms(1) assms(3) [OF Execute] todo_ok_all, of goal_sent persisted "[]" d' "next" call] b assms(2)
      by (simp add: Execute begin_execute_def keeps_def)
  next
    case False
    then have "d' = d \<and> (\<exists>r. next = Returned r)"
      using b by (auto simp: Execute begin_execute_def split: sum.splits bool.splits)
    with reports [OF assms(1)] assms(2) show ?thesis by (auto simp: keeps_def)
  qed
next
  case (Mission location)
  show ?thesis
  proof (cases "find (checks_location location) (pd_publishers d)")
    case None
    then have "d' = d" "next = Returned (Inr False)" using b by (simp_all add: Mission begin_mission_def)
    with assms(1,2) show ?thesis by (auto simp: keeps_def)
  next
    case (Some p)
    then have "p \<in> set ps" using assms(2) by (auto simp: find_Some_iff)
    moreover have "mission_effects d goal_sent p persisted (enumerate 0 (pb_effects p)) [] = (d', next)"
      using b Some by (simp add: Mission begin_mission_def)
    ultimately show ?thesis using mission_effects_keeps [OF assms(1) _ todo_ok_all] assms(2) by (simp add: keeps_def)
  qed
qed

lemma resume_keeps:
  assumes "inv evs d" and "pd_publishers d = ps" and j: "job_ok ps j"
    and b: "resume_call d goal_sent call j outcome persisted = (d', submitted, next)"
  shows "keeps (step_events call next @ failed_events d (ej_generation j) (ej_key j) outcome @ evs) d' next"
proof -
  obtain d1 sub r where f: "finish_effect d (ej_generation j) (ej_key j) (ej_effect j) (ej_location j) outcome (persisted (ej_index j)) = (d1, sub, r)"
    by (metis prod_cases3)
  have l: "location_of (ej_effect j) = Some (ej_location j)" and p: "ej_publisher j \<in> set ps" "todo_ok (ej_publisher j) (ej_rest j)"
    using j by (auto simp: job_ok_def)
  let ?evs = "failed_events d (ej_generation j) (ej_key j) outcome @ evs"
  have k: "inv ?evs d1" by (rule finishes [OF assms(1) job_declared [OF j] l f])
  have d1: "pd_publishers d1 = ps" using finish_effect_fields [OF f] assms(2) by simp
  have returned: ?thesis if "d' = d1" "next = Returned x" for x
    using reports [OF k] d1 that by (simp add: keeps_def)
  have executed: ?thesis if "execute_effects d1 goal_sent (ej_publisher j) persisted (ej_rest j) results = (d', next)" for results
    using execute_effects_keeps [OF k p that] d1 by (simp add: keeps_def)
  have missioned: ?thesis if "mission_effects d1 goal_sent (ej_publisher j) persisted (ej_rest j) results = (d', next)" for results
    using mission_effects_keeps [OF k p that] d1 by (simp add: keeps_def)
  show ?thesis
  proof (cases call)
    case (Execute q)
    then show ?thesis using b returned executed
      by (auto simp: resume_execute_def f split: if_splits prod.splits)
  next
    case (Mission location)
    then show ?thesis using b returned missioned
      by (auto simp: resume_mission_def f split: if_splits prod.splits sum.splits)
  qed
qed

lemma run_keeps: "publisher_run ps evs d jobs \<Longrightarrow> inv evs d \<and> pd_publishers d = ps \<and> (\<forall>(call, j)\<in>set jobs. job_ok ps j)"
proof (induction rule: publisher_run.induct)
  case run_start
  then show ?case using starts by (simp add: new_dispatch_def)
next
  case (run_begin evs d jobs call goal_sent persisted d' "next")
  then have "keeps (step_events call next @ evs) d' next" using begin_keeps by blast
  with run_begin.IH show ?case by (cases "next") (auto simp: keeps_def)
next
  case (run_resume evs d jobs call j goal_sent outcome persisted d' submitted "next")
  then have "keeps (step_events call next @ failed_events d (ej_generation j) (ej_key j) outcome @ evs) d' next"
    using resume_keeps by blast
  moreover have "\<forall>(call, j)\<in>set (remove1 (call, j) jobs). job_ok ps j"
    using run_resume.IH set_remove1_subset by fastforce
  ultimately show ?case by (cases "next") (auto simp: keeps_def)
next
  case (run_observe evs d jobs facts)
  then show ?case using observes by (simp add: observe_protocol_def)
next
  case (run_invalidate evs d jobs)
  then show ?case using invalidates by (simp add: invalidate_dispatch_def)
next
  case (run_bind evs d jobs acks)
  then show ?case using binds by (simp add: bind_dispatch_def invalidate_dispatch_def)
qed

lemma run_inv: "publisher_run ps evs d jobs \<Longrightarrow> inv evs d"
  using run_keeps by blast

end

section \<open>An effect is sent again only after a failure\<close>

definition times :: "dispatch_event \<Rightarrow> dispatch_event list \<Rightarrow> nat" where
  "times ev evs = count_list (present evs) ev"

lemma times_simps [simp]:
  "times ev (Sent k # evs) = (if ev = Sent k then 1 else 0) + times ev evs"
  "times ev (Failed k # evs) = (if ev = Failed k then 1 else 0) + times ev evs"
  "times (Sent k) (Succeeded p # evs) = times (Sent k) evs" "times (Failed k) (Succeeded p # evs) = times (Failed k) evs"
  "times (Sent k) (Observed C # evs) = times (Sent k) evs" "times (Failed k) (Observed C # evs) = times (Failed k) evs"
  "times ev (Renewed # evs) = 0" "times ev (Bound acks # evs) = 0"
  by (simp_all add: times_def present_def)

lemma nothing_sent: "present evs = [] \<Longrightarrow> times ev evs = 0"
  by (simp add: times_def)

definition settled :: "publisher list \<Rightarrow> dispatch \<Rightarrow> effect_key \<Rightarrow> bool" where \<comment> \<open>in flight, or confirmed\<close>
  "settled ps d k \<longleftrightarrow> k \<in> pd_in_flight d \<or> (\<exists>e l. declared ps k e \<and> location_of e = Some l \<and> l \<in> cf_checked (pd_facts d))"

definition sends_bounded :: "publisher list \<Rightarrow> dispatch_event list \<Rightarrow> dispatch \<Rightarrow> bool" where
  "sends_bounded ps evs d \<longleftrightarrow> (\<forall>k. times (Sent k) evs \<le> times (Failed k) evs + of_bool (settled ps d k) \<and>
     (times (Sent k) evs > 0 \<longrightarrow> (\<exists>e l. declared ps k e \<and> location_of e = Some l)))"

lemma times_sent_events [simp]: "times (Failed k) (sent_events k' st @ evs) = times (Failed k) evs"
  by (cases st) simp_all

lemma bounded_transfer:
  assumes "sends_bounded ps evs d" and "\<And>k. times (Sent k) evs' = times (Sent k) evs"
    and "\<And>k. times (Failed k) evs \<le> times (Failed k) evs'"
    and "\<And>k. settled ps d k \<Longrightarrow> settled ps d' k \<or> times (Sent k) evs = 0 \<or> times (Failed k) evs < times (Failed k) evs'"
  shows "sends_bounded ps evs' d'"
  unfolding sends_bounded_def
proof (intro allI conjI)
  fix k
  have b: "times (Sent k) evs \<le> times (Failed k) evs + of_bool (settled ps d k)"
    "times (Sent k) evs > 0 \<Longrightarrow> \<exists>e l. declared ps k e \<and> location_of e = Some l"
    using assms(1) unfolding sends_bounded_def by blast+
  then show "times (Sent k) evs' \<le> times (Failed k) evs' + of_bool (settled ps d' k)"
    using assms(2,3,4) [of k] by (cases "settled ps d k"; cases "settled ps d' k") auto
  show "times (Sent k) evs' > 0 \<longrightarrow> (\<exists>e l. declared ps k e \<and> location_of e = Some l)" using b(2) assms(2) by simp
qed

lemma never_sent:
  assumes "distinct (map pb_key ps)" and "sends_bounded ps evs d" and "declared ps k e" and "location_of e = None"
  shows "times (Sent k) evs = 0"
  using assms declared_unique unfolding sends_bounded_def by (metis gr_zeroI option.distinct(1))

lemma begin_bounded:
  assumes dist: "distinct (map pb_key ps)" and b: "sends_bounded ps evs d" and e: "declared ps k e"
    and s: "begin_effect d goal_sent k e persisted = (d', st)"
  shows "sends_bounded ps (sent_events k st @ evs) d'"
  using s
proof (cases rule: begin_effect_cases)
  case (settled r)
  with b show ?thesis by simp
next
  case (goal r)
  show ?thesis
    by (rule bounded_transfer [OF b])
      (use goal never_sent [OF dist b e goal(1)] acknowledge_fields [OF goal(2)] in \<open>auto simp: settled_def\<close>)
next
  case fact
  show ?thesis
    by (rule bounded_transfer [OF b]) (use fact never_sent [OF dist b e fact(1)] in \<open>auto simp: settled_def discard_def\<close>)
next
  case (acked r location)
  show ?thesis
    by (rule bounded_transfer [OF b]) (use acked e acknowledge_fields [OF acked(3)] in \<open>auto simp: settled_def\<close>)
next
  case (sent location)
  have new: "\<not> settled ps d k" using sent(1,2,3) declared_unique [OF dist e] by (auto simp: settled_def)
  have still: "settled ps d k' \<Longrightarrow> settled ps d' k'" and "settled ps d' k" for k' by (auto simp: settled_def sent(4))
  show ?thesis unfolding sends_bounded_def sent(5)
  proof (intro allI)
    fix k'
    have "times (Sent k') evs \<le> times (Failed k') evs + of_bool (settled ps d k')"
      "times (Sent k') evs > 0 \<longrightarrow> (\<exists>e l. declared ps k' e \<and> location_of e = Some l)"
      using b unfolding sends_bounded_def by blast+
    then show "times (Sent k') (sent_events k (Send location) @ evs) \<le> times (Failed k') (sent_events k (Send location) @ evs) + of_bool (settled ps d' k') \<and>
       (times (Sent k') (sent_events k (Send location) @ evs) > 0 \<longrightarrow> (\<exists>e l. declared ps k' e \<and> location_of e = Some l))"
      using new still [of k'] \<open>settled ps d' k\<close> e sent(1)
      by (cases "k' = k"; cases "settled ps d k'"; cases "settled ps d' k'") auto
  qed
qed

lemma finish_bounded:
  assumes b: "sends_bounded ps evs d" and e: "declared ps k e" "location_of e = Some location"
    and f: "finish_effect d generation k e location outcome persisted = (d', submitted, r)"
  shows "sends_bounded ps (failed_events d generation k outcome @ evs) d'"
  using f
proof (cases rule: finish_effect_cases)
  case stale
  with b show ?thesis by (simp add: failed_events_def)
next
  case (failed x)
  show ?thesis
    by (rule bounded_transfer [OF b]) (use failed in \<open>auto simp: failed_events_def settled_def discard_def\<close>)
next
  case (confirmed d1)
  show ?thesis
    by (rule bounded_transfer [OF b])
      (use confirmed e acknowledge_fields [OF confirmed(5)] in \<open>auto simp: failed_events_def settled_def\<close>)
next
  case submitted
  show ?thesis
    by (rule bounded_transfer [OF b]) (use submitted in \<open>auto simp: failed_events_def settled_def\<close>)
qed

lemma observe_bounded:
  assumes b: "sends_bounded ps evs d" and grows: "present evs = [] \<or> cf_checked (pd_facts d) \<subseteq> cf_checked facts"
  shows "sends_bounded ps (Observed (cf_checked facts) # evs) (observe_protocol d facts)"
  by (rule bounded_transfer [OF b])
    (use grows in \<open>auto simp: settled_def observe_protocol_def nothing_sent\<close>)

lemma bounded_invariant: "distinct (map pb_key ps) \<Longrightarrow> dispatch_invariant ps (sends_bounded ps)"
proof (unfold_locales, goal_cases)
  case (2 evs d k e goal_sent persisted d' st)
  then show ?case by (rule begin_bounded)
next
  case (3 evs d k e location generation outcome persisted d' submitted r)
  then show ?case using finish_bounded by blast
next
  case (5 evs d facts)
  then show ?case using observe_bounded by blast
qed (simp_all add: sends_bounded_def settled_def)

text \<open>Property C9. In every execution, since the last invalidation an effect has been sent at most once
  more than its sends failed.\<close>

theorem resent_only_after_failure:
  assumes "distinct (map pb_key ps)" and "publisher_run ps evs d jobs"
  shows "times (Sent k) evs \<le> times (Failed k) evs + 1"
proof -
  have "sends_bounded ps evs d" by (rule dispatch_invariant.run_inv [OF bounded_invariant [OF assms(1)] assms(2)])
  then show ?thesis unfolding sends_bounded_def by (metis add_left_mono le_trans of_bool_less_eq_one)
qed

section \<open>Acknowledgements rest on confirmed checks\<close>

definition ack_entry :: "acknowledgements \<Rightarrow> effect_key \<Rightarrow> effect_ack option" where
  "ack_entry acks k = map_of (case map_of acks (fst k) of None \<Rightarrow> [] | Some own \<Rightarrow> own) (str_nat (snd k))"

definition confirmed :: "dispatch_event list \<Rightarrow> int \<Rightarrow> bool" where
  "confirmed evs l \<longleftrightarrow> (\<exists>C. Observed C \<in> set evs \<and> l \<in> C)"

definition loaded_ack :: "dispatch_event list \<Rightarrow> effect_key \<Rightarrow> effect_ack \<Rightarrow> bool" where
  "loaded_ack evs k a \<longleftrightarrow> (\<exists>acks. Bound acks \<in> set evs \<and> ack_entry acks k = Some a)"

definition acks_founded :: "dispatch_event list \<Rightarrow> dispatch \<Rightarrow> bool" where
  "acks_founded evs d \<longleftrightarrow> (\<forall>l\<in>cf_checked (pd_facts d). confirmed evs l) \<and>
     (\<forall>k v. ack_entry (pd_acks d) k = Some (PStr ''location_check'', v) \<longrightarrow>
        confirmed evs (the_int v) \<or> loaded_ack evs k (PStr ''location_check'', v))"

lemma confirmed_more [intro]: "confirmed evs l \<Longrightarrow> confirmed (xs @ evs) l"
  by (auto simp: confirmed_def)

lemma loaded_more [intro]: "loaded_ack evs k a \<Longrightarrow> loaded_ack (xs @ evs) k a"
  by (auto simp: loaded_ack_def)

lemma founded_more: "acks_founded evs d \<Longrightarrow> acks_founded (xs @ evs) d"
  unfolding acks_founded_def by blast

lemma acknowledge_entry:
  assumes "acknowledge d k e persisted = (d', r)" and "ack_entry (pd_acks d') k' = Some a"
  shows "ack_entry (pd_acks d) k' = Some a \<or> (k' = k \<and> a = (dget e ''strategy'', dget e ''location_id''))"
  using assms
  by (cases k; cases k')
    (auto simp: acknowledge_def record_ack_def discard_def ack_entry_def Let_def map_of_update dest: subscript_Inr
      split: sum.splits if_splits)

lemma acknowledge_founded:
  assumes f: "acks_founded evs d" and a: "acknowledge d k e persisted = (d', r)"
    and l: "dget e ''strategy'' = PStr ''location_check'' \<Longrightarrow> confirmed evs (the_int (dget e ''location_id''))"
  shows "acks_founded evs d'"
proof -
  have "cf_checked (pd_facts d') = cf_checked (pd_facts d)" using acknowledge_fields [OF a] by simp
  moreover have "confirmed evs (the_int v) \<or> loaded_ack evs k' (PStr ''location_check'', v)"
    if "ack_entry (pd_acks d') k' = Some (PStr ''location_check'', v)" for k' v
    using acknowledge_entry [OF a that]
  proof
    assume "ack_entry (pd_acks d) k' = Some (PStr ''location_check'', v)"
    then show ?thesis using f unfolding acks_founded_def by blast
  qed (use l in simp)
  ultimately show ?thesis using f by (simp add: acks_founded_def)
qed

lemma location_strategy: "location_of e = Some l \<longleftrightarrow> dget e ''strategy'' = PStr ''location_check'' \<and> l = the_int (dget e ''location_id'')"
  by (auto simp: location_of_def)

lemma begin_founded:
  assumes "acks_founded evs d" and "begin_effect d goal_sent k e persisted = (d', st)"
  shows "acks_founded (sent_events k st @ evs) d'"
proof (rule founded_more, use assms(2) in \<open>cases rule: begin_effect_cases\<close>)
  case (goal r)
  show "acks_founded evs d'" by (rule acknowledge_founded [OF assms(1) goal(2)]) (simp add: goal(4))
next
  case (acked r location)
  show "acks_founded evs d'"
    by (rule acknowledge_founded [OF assms(1) acked(3)]) (use assms(1) acked(1,2) in \<open>auto simp: acks_founded_def location_strategy\<close>)
qed (use assms(1) in \<open>auto simp: acks_founded_def discard_def\<close>)

lemma finish_founded:
  assumes "acks_founded evs d" and "location_of e = Some location"
    and "finish_effect d generation k e location outcome persisted = (d', submitted, r)"
  shows "acks_founded (xs @ evs) d'"
proof (rule founded_more, use assms(3) in \<open>cases rule: finish_effect_cases\<close>)
  case (confirmed d1)
  have "acks_founded evs d1" using assms(1) by (simp add: acks_founded_def confirmed(4))
  then show "acks_founded evs d'"
    by (rule acknowledge_founded [OF _ confirmed(5)])
      (use assms(1,2) confirmed(3) in \<open>auto simp: acks_founded_def location_strategy\<close>)
qed (use assms(1) in \<open>auto simp: acks_founded_def discard_def\<close>)

interpretation founded: dispatch_invariant ps acks_founded for ps
proof (unfold_locales, goal_cases)
  case 1
  then show ?case by (simp add: acks_founded_def new_dispatch_def ack_entry_def)
next
  case (2 evs d k e goal_sent persisted d' st)
  then show ?case using begin_founded by blast
next
  case (3 evs d k e location generation outcome persisted d' submitted r)
  then show ?case using finish_founded by blast
next
  case (4 evs d p)
  then show ?case using founded_more [of evs d "[Succeeded p]"] by simp
next
  case (5 evs d facts)
  from founded_more [OF 5(1), of "[Observed (cf_checked facts)]"] show ?case
    by (auto simp: acks_founded_def observe_protocol_def confirmed_def)
next
  case (6 evs d)
  from founded_more [OF 6, of "[Renewed]"] show ?case by (simp add: acks_founded_def invalidate_dispatch_def)
next
  case (7 evs d acks)
  from founded_more [OF 7, of "[Bound acks]"] show ?case
    by (auto simp: acks_founded_def bind_dispatch_def invalidate_dispatch_def loaded_ack_def)
qed

text \<open>In every execution, an acknowledged location check was confirmed by the server, or
  came with the bound session.\<close>

theorem acknowledged_only_when_confirmed:
  assumes "publisher_run ps evs d jobs" and "ack_entry (pd_acks d) k = Some (PStr ''location_check'', PInt l)"
  shows "confirmed evs l \<or> loaded_ack evs k (PStr ''location_check'', PInt l)"
  using founded.run_inv [OF assms(1)] assms(2) unfolding acks_founded_def by (metis the_int.simps(1))

section \<open>A publisher that succeeds has all its locations confirmed\<close>

definition effect_confirmed :: "dispatch_event list \<Rightarrow> pydict \<Rightarrow> bool" where
  "effect_confirmed evs e \<longleftrightarrow> (\<forall>l. location_of e = Some l \<longrightarrow> confirmed evs l)"

definition publisher_confirmed :: "dispatch_event list \<Rightarrow> publisher \<Rightarrow> bool" where
  "publisher_confirmed evs p \<longleftrightarrow> list_all (effect_confirmed evs) (pb_effects p)"

definition results_confirmed :: "dispatch_event list \<Rightarrow> publisher \<Rightarrow> bool list \<Rightarrow> bool" where
  "results_confirmed evs p results \<longleftrightarrow> (\<forall>i<length results. results ! i \<longrightarrow> effect_confirmed evs (pb_effects p ! i))"

fun progress_ok :: "dispatch_event list \<Rightarrow> publisher_call \<times> effect_job \<Rightarrow> bool" where
  "progress_ok evs (Execute p, j) \<longleftrightarrow> ej_publisher j = p \<and> length (ej_results j) = ej_index j \<and> ej_index j < length (pb_effects p) \<and>
     ej_rest j = drop (Suc (ej_index j)) (enumerate 0 (pb_effects p)) \<and> results_confirmed evs p (ej_results j)"
| "progress_ok evs (Mission l, j) = True"

fun step_confirmed :: "dispatch_event list \<Rightarrow> publisher_call \<Rightarrow> job_step \<Rightarrow> bool" where
  "step_confirmed evs call (Suspended j) = progress_ok evs (call, j)"
| "step_confirmed evs (Execute p) (Returned (Inr True)) = publisher_confirmed evs p"
| "step_confirmed evs call (Returned r) = True"

lemma effect_confirmed_more: "effect_confirmed evs e \<Longrightarrow> effect_confirmed (xs @ evs) e"
  by (auto simp: effect_confirmed_def)

lemma progress_more: "progress_ok evs cj \<Longrightarrow> progress_ok (xs @ evs) cj"
  by (cases "(evs, cj)" rule: progress_ok.cases) (auto simp: results_confirmed_def intro: effect_confirmed_more)

lemma results_confirmed_snoc:
  "results_confirmed evs p (results @ [b]) \<longleftrightarrow> results_confirmed evs p results \<and> (b \<longrightarrow> effect_confirmed evs (pb_effects p ! length results))"
  by (auto simp: results_confirmed_def nth_append less_Suc_eq)

lemma begin_true_confirmed:
  assumes "acks_founded evs d" and "begin_effect d goal_sent k e persisted = (d', Settled (Inr True))"
  shows "effect_confirmed evs e"
  using assms(2) by (cases rule: begin_effect_cases) (use assms(1) in \<open>auto simp: effect_confirmed_def acks_founded_def\<close>)

lemma finish_true_confirmed:
  assumes "acks_founded evs d" and "location_of e = Some location"
    and "finish_effect d generation k e location outcome persisted = (d', submitted, Inr True)"
  shows "effect_confirmed evs e"
  using assms(3) by (cases rule: finish_effect_cases) (use assms(1,2) in \<open>auto simp: effect_confirmed_def acks_founded_def\<close>)

lemma execute_confirmed:
  "acks_founded evs d \<Longrightarrow> results_confirmed evs p results \<Longrightarrow> length results \<le> length (pb_effects p) \<Longrightarrow>
     todo = drop (length results) (enumerate 0 (pb_effects p)) \<Longrightarrow> execute_effects d goal_sent p persisted todo results = (d', next) \<Longrightarrow>
     step_confirmed evs (Execute p) next"
proof (induction todo arbitrary: d results)
  case Nil
  then have all: "length results = length (pb_effects p)" by simp
  show ?case
  proof (cases "list_all id results")
    case True
    then have "publisher_confirmed evs p" using Nil.prems(2) all
      by (auto simp: publisher_confirmed_def results_confirmed_def list_all_length)
    then show ?thesis using Nil.prems(5) True by auto
  qed (use Nil.prems(5) in auto)
next
  case (Cons ie todo)
  let ?n = "length results"
  from Cons.prems(4) have n: "?n < length (pb_effects p)" by (metis drop_all length_enumerate list.distinct(1) not_le)
  have "drop ?n (enumerate 0 (pb_effects p)) = (?n, pb_effects p ! ?n) # drop (Suc ?n) (enumerate 0 (pb_effects p))"
    using n by (simp add: Cons_nth_drop_Suc [symmetric] nth_enumerate_eq)
  with Cons.prems(4) have ie: "ie = (?n, pb_effects p ! ?n)" and todo: "todo = drop (Suc ?n) (enumerate 0 (pb_effects p))" by auto
  obtain d1 st where b: "begin_effect d goal_sent (pb_key p, ?n) (pb_effects p ! ?n) (persisted ?n) = (d1, st)" by fastforce
  show ?case
  proof (cases st)
    case (Settled r)
    let ?b = "case r of Inl x \<Rightarrow> False | Inr b \<Rightarrow> b"
    have "execute_effects d1 goal_sent p persisted todo (results @ [?b]) = (d', next)"
      using Cons.prems(5) by (cases r) (simp_all add: ie b Settled)
    moreover have "results_confirmed evs p (results @ [?b])" using Cons.prems(2) begin_true_confirmed [OF Cons.prems(1)] b Settled
      by (auto simp: results_confirmed_snoc split: sum.splits)
    moreover have "acks_founded evs d1" using begin_founded [OF Cons.prems(1) b] by (simp add: Settled)
    ultimately show ?thesis using Cons.IH [of d1 "results @ [?b]"] n todo by simp
  next
    case (Send location)
    then have "next = Suspended \<lparr>ej_publisher = p, ej_index = ?n, ej_location = location, ej_rest = todo,
        ej_results = results, ej_generation = pd_generation d1\<rparr>" using Cons.prems(5) by (auto simp: ie b)
    then show ?thesis using Cons.prems(2) n todo by simp
  qed
qed

lemma acknowledged_confirmed:
  assumes "acks_founded evs d" and "publisher_acknowledged p (cf_checked (pd_facts d)) goal_sent = Inr True"
  shows "publisher_confirmed evs p"
proof -
  have "effect_confirmed evs e" if "effect_acknowledged e (cf_checked (pd_facts d)) goal_sent = Inr True" for e
    using that assms(1) by (auto simp: effect_acknowledged_def effect_confirmed_def location_strategy acks_founded_def
        dest!: subscript_Inr split: if_splits)
  then show ?thesis using assms(2) by (auto simp: publisher_acknowledged_def all_res_True publisher_confirmed_def list_all_iff)
qed

lemma begin_call_confirmed:
  assumes "acks_founded evs d" and b: "begin_call d goal_sent call persisted = (d', next)"
  shows "step_confirmed evs call next"
proof (cases call)
  case (Mission l)
  then show ?thesis by (cases "next") auto
next
  case (Execute p)
  show ?thesis
  proof (cases "publisher_acknowledged p (cf_checked (pd_facts d)) goal_sent")
    case (Inl x)
    then show ?thesis using b by (auto simp: Execute begin_execute_def)
  next
    case (Inr v)
    show ?thesis
    proof (cases v)
      case True
      then show ?thesis using b acknowledged_confirmed [OF assms(1)] Inr by (auto simp: Execute begin_execute_def)
    next
      case False
      then show ?thesis using b execute_confirmed [OF assms(1), of p "[]"] Inr
        by (simp add: Execute begin_execute_def results_confirmed_def)
    qed
  qed
qed

lemma resume_call_confirmed:
  assumes "acks_founded evs d" and j: "job_ok ps j" and o: "progress_ok evs (call, j)"
    and b: "resume_call d goal_sent call j outcome persisted = (d', submitted, next)"
  shows "step_confirmed evs call next"
proof (cases call)
  case (Mission l)
  then show ?thesis by (cases "next") auto
next
  case (Execute p)
  obtain d1 sub r where f: "finish_effect d (ej_generation j) (ej_key j) (ej_effect j) (ej_location j) outcome (persisted (ej_index j)) = (d1, sub, r)"
    by (metis prod_cases3)
  have l: "location_of (ej_effect j) = Some (ej_location j)" using j by (simp add: job_ok_def)
  let ?b = "case r of Inl x \<Rightarrow> False | Inr b \<Rightarrow> b"
  have p: "ej_publisher j = p" "length (ej_results j) = ej_index j" "ej_index j < length (pb_effects p)"
    "ej_rest j = drop (Suc (ej_index j)) (enumerate 0 (pb_effects p))" "results_confirmed evs p (ej_results j)"
    using o by (simp_all add: Execute)
  have d1: "acks_founded evs d1" using finish_founded [OF assms(1) l f, of "[]"] by simp
  have rs: "results_confirmed evs p (ej_results j @ [?b])"
  proof (cases "r = Inr True")
    case True
    then show ?thesis using p finish_true_confirmed [OF assms(1) l f [unfolded True]] by (simp add: results_confirmed_snoc ej_effect_def)
  next
    case False
    then have "\<not> ?b" by (cases r) auto
    then show ?thesis using p by (simp add: results_confirmed_snoc)
  qed
  show ?thesis
  proof (cases "ej_generation j = pd_generation d1")
    case False
    then show ?thesis using b by (auto simp: Execute resume_execute_def f)
  next
    case True
    then have "execute_effects d1 goal_sent p persisted (ej_rest j) (ej_results j @ [?b]) = (d', next)"
      using b f p(1) by (cases "execute_effects d1 goal_sent p persisted (ej_rest j) (ej_results j @ [?b])") (simp add: Execute resume_execute_def)
    from execute_confirmed [OF d1 rs _ _ this] show ?thesis using p by (simp add: Execute)
  qed
qed

definition calls_confirmed :: "dispatch_event list \<Rightarrow> (publisher_call \<times> effect_job) list \<Rightarrow> bool" where
  "calls_confirmed evs jobs \<longleftrightarrow> (\<forall>cj\<in>set jobs. progress_ok evs cj) \<and> (\<forall>p. Succeeded p \<in> set evs \<longrightarrow> publisher_confirmed evs p)"

lemma publisher_confirmed_more: "publisher_confirmed evs p \<Longrightarrow> publisher_confirmed (xs @ evs) p"
  by (auto simp: publisher_confirmed_def list_all_iff intro: effect_confirmed_more)

lemma calls_confirmed_more:
  "calls_confirmed evs jobs \<Longrightarrow> (\<forall>p. Succeeded p \<notin> set xs) \<Longrightarrow> calls_confirmed (xs @ evs) jobs"
  by (auto simp: calls_confirmed_def intro: progress_more publisher_confirmed_more)

lemma calls_confirmed_step:
  assumes "calls_confirmed evs jobs" and "step_confirmed evs call next"
  shows "calls_confirmed (step_events call next @ evs) (jobs_of call next @ jobs)"
proof (cases "next")
  case (Suspended j)
  then show ?thesis using calls_confirmed_more [OF assms(1), of "[Sent (ej_key j)]"] assms(2) progress_more [of evs _ "[Sent (ej_key j)]"]
    by (auto simp: calls_confirmed_def)
next
  case (Returned r)
  show ?thesis
  proof (cases "\<exists>p. call = Execute p \<and> r = Inr True")
    case True
    then show ?thesis
      using assms progress_more [of evs _ "step_events call next"] publisher_confirmed_more [of evs _ "step_events call next"]
      by (auto simp: calls_confirmed_def Returned)
  next
    case False
    then have "step_events call (Returned r) = []" by (cases "(call, Returned r)" rule: step_events.cases) auto
    then show ?thesis using assms(1) by (simp add: Returned)
  qed
qed

lemma calls_are_confirmed: "publisher_run ps evs d jobs \<Longrightarrow> calls_confirmed evs jobs"
proof (induction rule: publisher_run.induct)
  case run_start
  then show ?case by (simp add: calls_confirmed_def)
next
  case (run_begin evs d jobs call goal_sent persisted d' "next")
  then show ?case using calls_confirmed_step begin_call_confirmed founded.run_inv by blast
next
  case (run_resume evs d jobs call j goal_sent outcome persisted d' submitted "next")
  let ?failed = "failed_events d (ej_generation j) (ej_key j) outcome"
  have jobs: "calls_confirmed evs (remove1 (call, j) jobs)" and "progress_ok evs (call, j)"
    using run_resume.IH run_resume.hyps(2) set_remove1_subset by (fastforce simp: calls_confirmed_def)+
  moreover have "job_ok ps j" using founded.run_keeps [OF run_resume.hyps(1)] run_resume.hyps(2) by blast
  ultimately have "step_confirmed (?failed @ evs) call next"
    using resume_call_confirmed [of "?failed @ evs" d ps j call] founded_more progress_more founded.run_inv [OF run_resume.hyps(1)]
      run_resume.hyps(3) by blast
  moreover have "calls_confirmed (?failed @ evs) (remove1 (call, j) jobs)"
    using calls_confirmed_more [OF jobs] by (simp add: failed_events_def)
  ultimately show ?case using calls_confirmed_step by blast
next
  case (run_observe evs d jobs facts)
  from calls_confirmed_more [OF run_observe.IH, of "[Observed (cf_checked facts)]"] show ?case by simp
next
  case (run_invalidate evs d jobs)
  from calls_confirmed_more [OF run_invalidate.IH, of "[Renewed]"] show ?case by simp
next
  case (run_bind evs d jobs acks)
  from calls_confirmed_more [OF run_bind.IH, of "[Bound acks]"] show ?case by simp
qed

text \<open>Property C10. In every execution, a publisher is reported as done only when the server has
  confirmed every location it checks.\<close>

theorem success_is_confirmed:
  assumes "publisher_run ps evs d jobs" and "Succeeded p \<in> set evs" and "e \<in> set (pb_effects p)" and "location_of e = Some l"
  shows "confirmed evs l"
  using calls_are_confirmed [OF assms(1)] assms(2,3,4)
  by (auto simp: calls_confirmed_def publisher_confirmed_def list_all_iff effect_confirmed_def)

section \<open>Sample executions\<close>

definition sample_facts_at :: "int set \<Rightarrow> check_facts" where
  "sample_facts_at checked = \<lparr>cf_checked = checked, cf_submitted = {}, cf_server = {7770001}, cf_ready = True, cf_connected = True\<rparr>"

abbreviation sample_key :: effect_key where "sample_key \<equiv> (''finish'', 0)"

definition sample_sending :: "int set \<Rightarrow> effect_key set \<Rightarrow> acknowledgements \<Rightarrow> dispatch" where
  "sample_sending checked flying acks = \<lparr>pd_publishers = [sample_publisher], pd_acks = acks, pd_in_flight = flying, pd_generation = 0,
     pd_facts = sample_facts_at checked\<rparr>"

definition sample_job :: effect_job where
  "sample_job = \<lparr>ej_publisher = sample_publisher, ej_index = 0, ej_location = 7770001, ej_rest = [], ej_results = [], ej_generation = 0\<rparr>"

lemmas sample_simps = sample_sending_def sample_job_def sample_facts_at_def sample_publisher_def ej_key_def ej_effect_def

lemma sample_sends:
  "begin_execute (sample_sending {} {} []) False sample_publisher (\<lambda>i. Inr ()) = (sample_sending {} {sample_key} [], Suspended sample_job)"
  by (simp add: begin_execute_def publisher_acknowledged_def effect_acknowledged_def subscript_def begin_effect_def begin_location_def sample_simps)

lemma sample_fails:
  "resume_execute (sample_sending {} {sample_key} []) False sample_job (Some (Exn ''OSError'' [])) (\<lambda>i. Inr ()) =
     (sample_sending {} {} [], None, Returned (Inr False))"
  by (simp add: resume_execute_def finish_effect_def discard_def sample_simps)

lemma sample_facts_seen: "publisher_run [sample_publisher] [Observed {}, Bound []] (sample_sending {} {} []) []"
  using run_observe [OF run_start [of "[sample_publisher]"], of "sample_facts_at {}"]
  by (simp add: present_def observe_protocol_def new_dispatch_def sample_sending_def) (simp add: sample_facts_at_def)

lemma sample_resent:
  "publisher_run [sample_publisher] [Sent sample_key, Failed sample_key, Sent sample_key, Observed {}, Bound []]
     (sample_sending {} {sample_key} []) [(Execute sample_publisher, sample_job)]"
proof -
  have sent: "publisher_run [sample_publisher] [Sent sample_key, Observed {}, Bound []] (sample_sending {} {sample_key} [])
      [(Execute sample_publisher, sample_job)]"
    using run_begin [OF sample_facts_seen, of "Execute sample_publisher" False "\<lambda>i. Inr ()"] sample_sends
    by (simp add: ej_key_def) (simp add: sample_job_def sample_publisher_def)
  have "publisher_run [sample_publisher] [Failed sample_key, Sent sample_key, Observed {}, Bound []] (sample_sending {} {} []) []"
    using run_resume [OF sent, of "Execute sample_publisher" sample_job False "Some (Exn ''OSError'' [])" "\<lambda>i. Inr ()"] sample_fails
    by (simp add: failed_events_def ej_key_def) (simp add: sample_job_def sample_publisher_def sample_sending_def)
  from run_begin [OF this, of "Execute sample_publisher" False "\<lambda>i. Inr ()"] sample_sends
  show ?thesis by (simp add: ej_key_def) (simp add: sample_job_def sample_publisher_def)
qed

theorem resent_only_after_failure_witness:
  "times (Sent sample_key) [Sent sample_key, Failed sample_key, Sent sample_key, Observed {}, Bound []] \<le>
     times (Failed sample_key) [Sent sample_key, Failed sample_key, Sent sample_key, Observed {}, Bound []] + 1"
  by (rule resent_only_after_failure [OF _ sample_resent]) simp

lemma sample_confirmed: "publisher_run [sample_publisher] [Observed {7770001}, Observed {}, Bound []] (sample_sending {7770001} {} []) []"
  using run_observe [OF sample_facts_seen, of "sample_facts_at {7770001}"]
  by (simp add: observe_protocol_def sample_sending_def) (simp add: sample_facts_at_def)

lemma sample_acknowledges:
  "begin_mission (sample_sending {7770001} {} []) False 7770001 (\<lambda>i. Inr ()) =
     (sample_sending {7770001} {} [(''finish'', [(''0'', (PStr ''location_check'', PInt 7770001))])], Returned (Inr True))"
  by (simp add: begin_mission_def checks_location_def begin_effect_def begin_location_def acknowledge_def record_ack_def discard_def
      subscript_def dget_def str_nat.simps digit_char_def sample_simps)

theorem acknowledged_only_when_confirmed_witness:
  "confirmed [Observed {7770001}, Observed {}, Bound []] 7770001 \<or>
     loaded_ack [Observed {7770001}, Observed {}, Bound []] sample_key (PStr ''location_check'', PInt 7770001)"
proof (rule acknowledged_only_when_confirmed)
  show "publisher_run [sample_publisher] [Observed {7770001}, Observed {}, Bound []]
      (sample_sending {7770001} {} [(''finish'', [(''0'', (PStr ''location_check'', PInt 7770001))])]) []"
    using run_begin [OF sample_confirmed, of "Mission 7770001" False "\<lambda>i. Inr ()"] sample_acknowledges by simp
  show "ack_entry (pd_acks (sample_sending {7770001} {} [(''finish'', [(''0'', (PStr ''location_check'', PInt 7770001))])])) sample_key =
      Some (PStr ''location_check'', PInt 7770001)"
    by (simp add: ack_entry_def sample_sending_def str_nat.simps digit_char_def)
qed

theorem success_is_confirmed_witness: "confirmed [Succeeded sample_publisher, Observed {7770001}, Observed {}, Bound []] 7770001"
proof (rule success_is_confirmed [where e = "[(''strategy'', PStr ''location_check''), (''location_id'', PInt 7770001)]"])
  have "begin_execute (sample_sending {7770001} {} []) False sample_publisher (\<lambda>i. Inr ()) = (sample_sending {7770001} {} [], Returned (Inr True))"
    by (simp add: begin_execute_def publisher_acknowledged_def effect_acknowledged_def subscript_def sample_simps)
  with run_begin [OF sample_confirmed, of "Execute sample_publisher" False "\<lambda>i. Inr ()"]
  show "publisher_run [sample_publisher] [Succeeded sample_publisher, Observed {7770001}, Observed {}, Bound []] (sample_sending {7770001} {} []) []"
    by simp
  show "[(''strategy'', PStr ''location_check''), (''location_id'', PInt 7770001)] \<in> set (pb_effects sample_publisher)"
    unfolding sample_publisher_def publisher.select_convs by simp
qed (simp_all add: location_of_def dget_def)

end
