(* ===== verification/Campaign_Plan.thy ===== *)
theory Campaign_Plan
  imports Publisher_Contracts
begin

text \<open>
  Validation of the campaign plan that a generated room carries: \<open>validate_plan\<close> of
  \<open>doom_eap/runtime/unified_campaign.py\<close> and \<open>doom_eap/content/fortress_economy.py\<close>, with what an
  accepted plan is known to satisfy.

  The stage catalog and the Fortress policy are data files, arguments of the definitions.
\<close>

section \<open>Values\<close>

text \<open>Equality of values: booleans are the integers 0 and 1, dictionaries are compared without order.\<close>

function (sequential) py_same :: "pyval \<Rightarrow> pyval \<Rightarrow> bool" where
  "py_same (PList xs) v = (case v of PList ys \<Rightarrow> length xs = length ys \<and> (\<forall>(x, y)\<in>set (zip xs ys). py_same x y) | _ \<Rightarrow> False)"
| "py_same (PDict d) v = (case v of PDict e \<Rightarrow> set (map fst d) = set (map fst e) \<and>
     (\<forall>(k, x)\<in>set d. case map_of e k of None \<Rightarrow> False | Some y \<Rightarrow> py_same x y) | _ \<Rightarrow> False)"
| "py_same (PBool b) v = (is_int_or_bool v \<and> the_int v = of_bool b)"
| "py_same (PInt i) v = (is_int_or_bool v \<and> the_int v = i)"
| "py_same u v = (u = v)"
  by pat_completeness auto
termination
  by (relation "measure (size \<circ> fst)") (auto dest!: set_zip_leftD simp: less_Suc_eq_le intro: size_list_estimation')

definition in_value :: "string \<Rightarrow> pyval \<Rightarrow> bool res" where \<comment> \<open>\<open>text in value\<close>\<close>
  "in_value t v = (case v of
      PList vs \<Rightarrow> Inr (PStr t \<in> set vs)
    | PDict d \<Rightarrow> Inr (has_key d t)
    | PStr s \<Rightarrow> Inr (contains s t)
    | _ \<Rightarrow> Inl (TypeError ''argument is not iterable''))"

definition reject_if :: "bool \<Rightarrow> string \<Rightarrow> unit res" where
  "reject_if b message = (if b then Inl (ValueError message) else Inr ())"

lemma reject_if_Inr [simp]: "reject_if b m = Inr u \<longleftrightarrow> \<not> b"
  by (simp add: reject_if_def)

definition text_list :: "pyval \<Rightarrow> bool" where
  "text_list v \<longleftrightarrow> is_list v \<and> list_all is_str (as_list v)"

abbreviation texts_of :: "pyval \<Rightarrow> string list" where
  "texts_of v \<equiv> map as_text (as_list v)"

section \<open>Catalog and policy\<close>

record stage =
  st_id :: string
  st_name :: string
  st_source :: string
  st_map :: string
  st_completion :: int
  st_access :: int
  st_value :: pyval \<comment> \<open>the entry as the catalog carries it\<close>

type_synonym catalog = "stage list"

definition stage_of :: "catalog \<Rightarrow> string \<Rightarrow> stage res" where \<comment> \<open>\<open>STAGES[key]\<close>\<close>
  "stage_of c key = (case find (\<lambda>s. st_id s = key) c of None \<Rightarrow> Inl (KeyError key) | Some s \<Rightarrow> Inr s)"

record fortress_policy =
  fp_denominator :: int
  fp_weights :: "int list"
  fp_groups :: "(string \<times> int) list" \<comment> \<open>spend groups and their cost\<close>
  fp_surplus_percent :: int

definition MODES :: "string list" where
  "MODES = [''Vanilla Order'', ''Random Mission Order'', ''Mission Access as Items'']"

definition CAPABILITY :: string where "CAPABILITY = ''unified_campaign_v1''"

section \<open>Battery economy\<close>

definition battery_surplus_limit :: "int \<Rightarrow> int \<Rightarrow> int" where
  "battery_surplus_limit cost percent = (cost * percent + 99) div 100"

definition validate_battery_economy :: "pyval \<Rightarrow> int \<Rightarrow> int \<Rightarrow> int \<Rightarrow> unit res" where
  "validate_battery_economy economy cost percent native_first_battery =
     (let surplus = (case economy of PDict d \<Rightarrow> dget d ''surplus'' | _ \<Rightarrow> PNone);
          n = the_int surplus
      in reject_if (\<not> is_int surplus \<or> n < 0 \<or> battery_surplus_limit cost percent < n \<or>
           \<not> py_same economy (PDict [(''cost'', PInt cost), (''surplus'', surplus), (''total'', PInt (cost + n)),
               (''surplus_percent'', PInt percent), (''native_first_battery'', PInt native_first_battery)]))
         ''Fortress Battery economy contradicts its native spend groups'')"

section \<open>The plan\<close>

definition enabled_stages :: "catalog \<Rightarrow> pydict \<Rightarrow> pydict \<Rightarrow> pyval list res" where
  "enabled_stages c slot_data plan =
     (case map_of plan ''stage_ids'' of
        Some (PList ids) \<Rightarrow> (if list_all hashable ids then Inr (remdups ids) else Inl unhashable)
      | _ \<Rightarrow> Inr (map (\<lambda>s. PStr (st_id s))
          (filter (\<lambda>s. truthy (dget_or slot_data ''include_dlc_missions'' (PBool False)) \<or> st_source s = ''base'') c)))"

definition check_sequence :: "pyval list \<Rightarrow> pydict \<Rightarrow> unit res" where
  "check_sequence enabled plan =
     (let sequence = dget plan ''sequence''; fixed_dash = dget plan ''fixed_dash_completion_stage'' in
      bind_res (reject_if (\<not> text_list sequence \<or> length (as_list sequence) \<noteq> length enabled \<or> set (as_list sequence) \<noteq> set enabled)
        ''sequence must contain each enabled stage exactly once'') (\<lambda>_.
      reject_if (fixed_dash \<noteq> PNone \<and> (\<not> is_str fixed_dash \<or> fixed_dash \<notin> set (as_list sequence)))
        ''Fixed Dash acquisition must belong to the campaign''))"

definition expected_goal :: "string \<Rightarrow> pyval" where
  "expected_goal name = (if name = ''Kill the Icon of Sin'' then PStr ''e3m4_boss''
     else if name = ''Kill the Dark Lord'' then PStr ''e5m4_boss'' else PNone)"

definition check_goal :: "pydict \<Rightarrow> pyval list \<Rightarrow> pydict \<Rightarrow> unit res" where
  "check_goal slot_data enabled plan =
     (let goal = dget plan ''goal_stage''; sequence = as_list (dget plan ''sequence'') in
      bind_res (subscript slot_data ''goal'') (\<lambda>name.
      if \<not> hashable name then Inl unhashable
      else bind_res
        (if name = PStr ''Complete the Full Saga''
         then if \<not> hashable goal then Inl unhashable
              else reject_if (goal \<notin> {PStr ''e3m4_boss'', PStr ''e5m4_boss''}) ''Full Saga requires a concrete final boss''
         else reject_if (goal \<noteq> expected_goal (as_text name)) ''final stage contradicts the selected Goal'') (\<lambda>_.
        reject_if (goal \<noteq> PNone \<and> (goal \<notin> set enabled \<or> last sequence \<noteq> goal)) ''selected goal stage must be final'')))"

definition access_mode :: "pydict \<Rightarrow> bool" where
  "access_mode plan \<longleftrightarrow> dget plan ''mode'' = PStr ''Mission Access as Items''"

definition check_starts :: "pydict \<Rightarrow> unit res" where
  "check_starts plan =
     (let starts = dget plan ''starting_stages''; sequence = as_list (dget plan ''sequence'');
          unprepared = dget_or plan ''unprepared_start_stages'' (PList []) in
      bind_res (reject_if (\<not> is_list starts \<or> as_list starts = [] \<or> (if access_mode plan then 3 else 1) < length (as_list starts)
          \<or> as_list starts \<noteq> take (length (as_list starts)) sequence \<or> dget plan ''goal_stage'' \<in> set (as_list starts))
        ''invalid Starting Stages'') (\<lambda>_.
      reject_if (\<not> text_list unprepared \<or> \<not> set (as_list unprepared) \<subseteq> set (as_list starts) \<or> \<not> distinct (as_list unprepared))
        ''Unprepared starting stages must belong to Starting Stages''))"

definition bootstrap_items :: "pyval \<Rightarrow> pydict \<Rightarrow> string list \<Rightarrow> pydict" where
  "bootstrap_items randomize_dash slot_data starts =
     (if \<not> truthy randomize_dash \<and> (\<exists>key\<in>set starts. key \<notin> {''e1m1_intro'', ''e1m2_war''}) then [(''Dash'', PInt 1)] else []) @
     (if \<not> truthy (dget_or slot_data ''randomize_chainsaw'' (PBool False)) \<and> (\<exists>key\<in>set starts. key \<noteq> ''e1m1_intro'')
      then [(''Chainsaw'', PInt 1)] else [])"

definition check_bootstrap :: "pydict \<Rightarrow> pydict \<Rightarrow> unit res" where
  "check_bootstrap slot_data plan =
     bind_res (subscript slot_data ''randomize_dash'') (\<lambda>randomize_dash.
     let bootstrap = bootstrap_items randomize_dash slot_data (texts_of (dget plan ''starting_stages'')) in
     bind_res (reject_if (\<not> py_same (dget plan ''bootstrap_inventory'') (PDict bootstrap))
        ''Equipment bootstrap contradicts randomization/Starting Stages'') (\<lambda>_.
     if bootstrap = [] then Inr ()
     else case dget_or slot_data ''starting_inventory'' (PDict []) of
        PDict inventory \<Rightarrow> reject_if (\<exists>(k, n)\<in>set bootstrap. \<not> py_same n (dget inventory k))
          ''Equipment bootstrap is absent from initial materialization''
      | _ \<Rightarrow> Inl (no_attribute ''get'')))"

definition check_access :: "catalog \<Rightarrow> pyval list \<Rightarrow> pydict \<Rightarrow> unit res" where
  "check_access c enabled plan =
     (let goal = dget plan ''goal_stage''; as_item = dget plan ''goal_as_item'' in
      bind_res (reject_if (as_item \<notin> {PBool True, PBool False} \<or> (as_item = PBool True \<and> \<not> (access_mode plan \<and> truthy goal)))
        ''Goal Mission as Item requires Access mode and a boss stage'') (\<lambda>_.
      bind_res (map_res (\<lambda>key. bind_res (stage_of c key) (\<lambda>s. Inr (str_int (st_access s), PStr key)))
        (filter (\<lambda>key. access_mode plan \<and> PStr key \<notin> set (as_list (dget plan ''starting_stages'')) \<and> (PStr key \<noteq> goal \<or> as_item = PBool True))
          (texts_of (dget plan ''sequence'')))) (\<lambda>expected.
      bind_res (reject_if (\<not> py_same (dget plan ''access_items'') (PDict (dmerge [] expected)))
        ''Access pool contradicts starting/goal decisions'') (\<lambda>_.
      bind_res (reject_if (\<not> py_same (dget plan ''stages'') (PList (map st_value (filter (\<lambda>s. PStr (st_id s) \<in> set enabled) c))))
        ''stage catalog differs from compiled content'') (\<lambda>_.
      reject_if (\<not> py_same (dget plan ''hub'') (PDict [(''id'', PStr ''hub''), (''map'', PStr ''game/hub/hub'')]))
        ''universal Fortress contract is invalid'')))))"

definition ceiling_share :: "int \<Rightarrow> int \<Rightarrow> int \<Rightarrow> int" where
  "ceiling_share weight ordinary denominator = (weight * ordinary + denominator - 1) div denominator"

definition check_fortress :: "fortress_policy \<Rightarrow> pydict \<Rightarrow> pydict \<Rightarrow> unit res" where
  "check_fortress f slot_data plan =
     (let sequence = texts_of (dget plan ''sequence'');
          ordinary = int (length sequence) - of_bool (dget plan ''goal_stage'' \<noteq> PNone);
          active = dget slot_data ''active_fortress_spend_group_ids'' in
      bind_res (reject_if (\<not> py_same (dget plan ''fortress_phase_thresholds'')
          (PList (map (\<lambda>w. PInt (ceiling_share w ordinary (fp_denominator f))) (fp_weights f))))
        ''Fortress thresholds differ from the authored campaign chronology'') (\<lambda>_.
      bind_res (reject_if (\<not> text_list active \<or> \<not> distinct (as_list active) \<or> \<not> set (texts_of active) \<subseteq> fst ` set (fp_groups f))
        ''Fortress spend groups are invalid'') (\<lambda>_.
      bind_res (subscript slot_data ''randomize_first_battery'') (\<lambda>first_battery.
      validate_battery_economy (dget plan ''battery_economy'')
        (sum_list (map (\<lambda>k. case map_of (fp_groups f) k of None \<Rightarrow> 0 | Some n \<Rightarrow> n) (texts_of active))) (fp_surplus_percent f)
        (of_bool (\<not> truthy first_battery \<and> ''e1m2_war'' \<in> set sequence))))))"

definition check_order :: "catalog \<Rightarrow> pydict \<Rightarrow> pyval list \<Rightarrow> pydict \<Rightarrow> unit res" where
  "check_order c slot_data enabled plan =
     (let goal = dget plan ''goal_stage'' in
      if dget plan ''mode'' \<noteq> PStr ''Vanilla Order'' then Inr ()
      else bind_res (reject_if (as_list (dget plan ''sequence'') \<noteq>
          filter (\<lambda>key. key \<in> set enabled \<and> key \<noteq> goal) (map (\<lambda>s. PStr (st_id s)) c) @ (if truthy goal then [goal] else []))
        ''Vanilla Order is not chronological'') (\<lambda>_.
      reject_if (dget slot_data ''goal'' = PStr ''Complete the Full Saga'' \<and> goal \<noteq> PStr ''e5m4_boss'')
        ''Vanilla Full Saga must end at Davoth''))"

definition validate_plan :: "catalog \<Rightarrow> fortress_policy \<Rightarrow> pydict \<Rightarrow> pydict res" where
  "validate_plan c f slot_data =
     (let capabilities = dget_or slot_data ''required_capabilities'' (PList []) in
      bind_res (in_value CAPABILITY capabilities) (\<lambda>supported.
      bind_res (reject_if (\<not> supported) ''unified_campaign_v1 is required; generate a compatible DOOM Eternal seed'') (\<lambda>_.
      case dget slot_data ''campaign_plan'' of
        PDict plan \<Rightarrow>
          bind_res (if is_one (dget plan ''schema'') then strategy_in MODES (dget plan ''mode'') else Inr False) (\<lambda>known.
          bind_res (reject_if (\<not> known) ''unsupported unified campaign plan'') (\<lambda>_.
          bind_res (reject_if (\<not> is_int (dget plan ''difficulty'') \<or> the_int (dget plan ''difficulty'') < 0 \<or> 3 < the_int (dget plan ''difficulty''))
            ''campaign difficulty must be fixed by the generated room'') (\<lambda>_.
          bind_res (enabled_stages c slot_data plan) (\<lambda>enabled.
          bind_res (check_sequence enabled plan) (\<lambda>_.
          bind_res (check_goal slot_data enabled plan) (\<lambda>_.
          bind_res (check_starts plan) (\<lambda>_.
          bind_res (check_bootstrap slot_data plan) (\<lambda>_.
          bind_res (check_access c enabled plan) (\<lambda>_.
          bind_res (in_value ''fortress_economy_v1'' capabilities) (\<lambda>fortress.
          bind_res (if fortress then check_fortress f slot_data plan else Inr ()) (\<lambda>_.
          bind_res (check_order c slot_data enabled plan) (\<lambda>_. Inr plan))))))))))))
      | _ \<Rightarrow> Inl (ValueError ''unsupported unified campaign plan''))))"

end
