(* ===== verification/Campaign.thy ===== *)
theory Campaign
  imports Campaign_Plan
begin

text \<open>
  The campaign of a room, class \<open>UnifiedCampaign\<close> of \<open>doom_eap/runtime/unified_campaign.py\<close>: which
  stages are unlocked, revealed and completed, derived from the locations the server checked and the
  items received, and the stage the player selected.
\<close>

section \<open>The plan as the projection reads it\<close>

record campaign_view =
  cv_mode :: string
  cv_sequence :: "string list"
  cv_starts :: "string list"
  cv_goal :: "string option"
  cv_goal_item :: bool
  cv_access :: "(string \<times> string) list" \<comment> \<open>printed item number and stage\<close>
  cv_thresholds :: "int list option"
  cv_hub_map :: string

definition view_of :: "pydict \<Rightarrow> campaign_view res" where
  "view_of plan =
     bind_res (subscript plan ''goal_stage'') (\<lambda>goal. Inr
       \<lparr>cv_mode = as_text (dget plan ''mode''), cv_sequence = texts_of (dget plan ''sequence''),
        cv_starts = texts_of (dget plan ''starting_stages''), cv_goal = (case goal of PStr g \<Rightarrow> Some g | _ \<Rightarrow> None),
        cv_goal_item = (dget plan ''goal_as_item'' = PBool True),
        cv_access = map (\<lambda>(i, v). (i, as_text v)) (as_dict (dget plan ''access_items'')),
        cv_thresholds = (case dget plan ''fortress_phase_thresholds'' of PList ts \<Rightarrow> Some (map the_int ts) | _ \<Rightarrow> None),
        cv_hub_map = as_text (dget (as_dict (dget plan ''hub'')) ''map'')\<rparr>)"

abbreviation cv_by_access :: "campaign_view \<Rightarrow> bool" where
  "cv_by_access v \<equiv> cv_mode v = ''Mission Access as Items''"

definition completed_stages :: "catalog \<Rightarrow> int set \<Rightarrow> string list \<Rightarrow> string list res" where
  "completed_stages c checked = filter_res (\<lambda>key. bind_res (stage_of c key) (\<lambda>s. Inr (st_completion s \<in> checked)))"

section \<open>Goal admission\<close>

definition structural_goal_admitted :: "catalog \<Rightarrow> campaign_view \<Rightarrow> int set \<Rightarrow> int list \<Rightarrow> bool res" where
  "structural_goal_admitted c v checked received =
     (case cv_goal v of
        None \<Rightarrow> Inr True
      | Some goal \<Rightarrow>
          bind_res (all_res (\<lambda>key. bind_res (stage_of c key) (\<lambda>s. Inr (st_completion s \<in> checked))) (filter (\<lambda>key. key \<noteq> goal) (cv_sequence v)))
            (\<lambda>done. if done then Inr True
               else if \<not> cv_goal_item v then Inr False
               else if received = [] then Inr False
               else bind_res (stage_of c goal) (\<lambda>s. Inr (st_access s \<in> set received))))"

section \<open>Unlocked and revealed stages\<close>

definition add_new :: "'a \<Rightarrow> 'a list \<Rightarrow> 'a list" where
  "add_new x xs = (if x \<in> set xs then xs else xs @ [x])"

fun item_loop :: "(string \<times> string) list \<Rightarrow> int list \<Rightarrow> string list \<times> string set \<Rightarrow> string list \<times> string set" where
  "item_loop access [] acc = acc"
| "item_loop access (i # received) (revealed, unlocked) = item_loop access received
     (case map_of access (str_int i) of None \<Rightarrow> (revealed, unlocked) | Some key \<Rightarrow> (add_new key revealed, insert key unlocked))"

fun linear_loop :: "string option \<Rightarrow> string set \<Rightarrow> string list \<Rightarrow> string list \<times> string set \<Rightarrow> string list \<times> string set" where
  "linear_loop goal completed [] acc = acc"
| "linear_loop goal completed (key # keys) (revealed, unlocked) =
     (if goal = Some key then (revealed, unlocked)
      else if key \<notin> completed then (add_new key revealed, insert key unlocked)
      else linear_loop goal completed keys (add_new key revealed, insert key unlocked))"

definition project_stages :: "campaign_view \<Rightarrow> string set \<Rightarrow> int list \<Rightarrow> string list \<times> string set" where
  "project_stages v completed received =
     (let (revealed, unlocked) =
        (if cv_by_access v
         then (case item_loop (cv_access v) received (cv_starts v, set (cv_starts v) \<union> completed) of
                 (revealed, unlocked) \<Rightarrow> (fold add_new (filter (\<lambda>key. key \<in> completed) (cv_sequence v)) revealed, unlocked))
         else linear_loop (cv_goal v) completed (cv_sequence v) (cv_starts v, set (cv_starts v) \<union> completed))
      in case cv_goal v of
           None \<Rightarrow> (revealed, unlocked)
         | Some goal \<Rightarrow> (add_new goal revealed,
             if \<forall>key\<in>set (cv_sequence v). key \<noteq> goal \<longrightarrow> key \<in> completed then insert goal unlocked else unlocked))"

section \<open>The snapshot\<close>

record campaign_row =
  cw_stage :: string
  cw_title :: string
  cw_map :: string
  cw_revealed :: bool
  cw_unlocked :: bool
  cw_completed :: bool
  cw_goal :: bool
  cw_details :: bool

record campaign_snapshot =
  cs_rows :: "campaign_row list"
  cs_hub_map :: string
  cs_phase :: nat
  cs_selected :: string

definition row_of :: "catalog \<Rightarrow> campaign_view \<Rightarrow> string list \<Rightarrow> string set \<Rightarrow> string set \<Rightarrow> string \<Rightarrow> campaign_row res" where
  "row_of c v revealed unlocked completed key =
     (let visible = (key \<in> set revealed \<or> key \<in> completed) in
      bind_res (stage_of c key) (\<lambda>s. Inr
        \<lparr>cw_stage = key, cw_title = (if visible then st_name s else ''???''), cw_map = (if visible then st_map s else []),
         cw_revealed = visible, cw_unlocked = (key \<in> unlocked), cw_completed = (key \<in> completed), cw_goal = (cv_goal v = Some key),
         cw_details = (visible \<and> key \<in> unlocked)\<rparr>))"

definition phase_thresholds :: "campaign_view \<Rightarrow> int \<Rightarrow> int list" where
  "phase_thresholds v ordinary = (case cv_thresholds v of
      Some ts \<Rightarrow> ts
    | None \<Rightarrow> map (\<lambda>count. ceiling_share count ordinary 13) [1, 2, 4, 5, 6, 8, 9])"

definition fortress_phase :: "campaign_view \<Rightarrow> string set \<Rightarrow> nat" where
  "fortress_phase v completed =
     (let ordinary = filter (\<lambda>key. Some key \<noteq> cv_goal v) (cv_sequence v);
          count = int (length (filter (\<lambda>key. key \<in> completed) ordinary))
      in length (filter (\<lambda>t. t \<le> count) (phase_thresholds v (int (length ordinary)))))"

definition row_order :: "campaign_view \<Rightarrow> string list \<Rightarrow> string list" where
  "row_order v revealed =
     (if cv_by_access v then revealed @ filter (\<lambda>key. key \<notin> set revealed) (cv_sequence v) else cv_sequence v)"

definition snapshot :: "catalog \<Rightarrow> campaign_view \<Rightarrow> string \<Rightarrow> int set \<Rightarrow> int list \<Rightarrow> campaign_snapshot res" where
  "snapshot c v selected checked received =
     bind_res (completed_stages c checked (cv_sequence v)) (\<lambda>done.
     let completed = set done; (revealed, unlocked) = project_stages v completed received in
     bind_res (map_res (row_of c v revealed unlocked completed) (row_order v revealed)) (\<lambda>rows. Inr
       \<lparr>cs_rows = rows, cs_hub_map = cv_hub_map v, cs_phase = fortress_phase v completed, cs_selected = selected\<rparr>))"

section \<open>Navigation\<close>

record campaign =
  uc_plan :: pydict
  uc_session :: pydict \<comment> \<open>holds the navigation document\<close>

definition navigation :: "campaign \<Rightarrow> pydict" where
  "navigation u = as_dict (dget (uc_session u) ''campaign_navigation'')"

text \<open>The state of the session comes back also where the constructor raises.\<close>

definition new_campaign :: "catalog \<Rightarrow> fortress_policy \<Rightarrow> pydict \<Rightarrow> pydict \<Rightarrow> pydict \<times> campaign res" where
  "new_campaign c f slot_data session =
     (case validate_plan c f slot_data of
        Inl x \<Rightarrow> (session, Inl x)
      | Inr plan \<Rightarrow>
         (case subscript slot_data ''native_generation_fingerprint'' of
            Inl x \<Rightarrow> (session, Inl x)
          | Inr fingerprint \<Rightarrow>
             (let session1 = (if has_key session ''campaign_navigation'' then session
                else dset ''campaign_navigation'' (PDict [(''generation'', fingerprint), (''selected'', PStr ''hub'')]) session)
              in case dget session1 ''campaign_navigation'' of
                   PDict saved \<Rightarrow> if \<not> py_same (dget saved ''generation'') fingerprint
                     then (session1, Inl (ValueError ''navigation belongs to another generation''))
                     else (session1, Inr \<lparr>uc_plan = plan, uc_session = session1\<rparr>)
                 | _ \<Rightarrow> (session1, Inl (no_attribute ''get'')))))"

definition selected_stage :: "campaign \<Rightarrow> pyval res" where
  "selected_stage u = subscript (navigation u) ''selected''"

definition snapshot_of :: "catalog \<Rightarrow> campaign \<Rightarrow> int set \<Rightarrow> int list \<Rightarrow> campaign_snapshot res" where
  "snapshot_of c u checked received =
     bind_res (view_of (uc_plan u)) (\<lambda>v. bind_res (selected_stage u) (\<lambda>selected. snapshot c v (as_text selected) checked received))"

definition select_stage :: "campaign \<Rightarrow> string \<Rightarrow> campaign_snapshot \<Rightarrow> unit res \<Rightarrow> campaign \<times> unit res" where
  "select_stage u key snap persisted =
     (if key \<noteq> ''hub'' \<and> (\<forall>row\<in>set (cs_rows snap). \<not> (cw_stage row = key \<and> cw_unlocked row))
      then (u, Inl (ValueError ''native selection is unavailable in the authoritative projection''))
      else case selected_stage u of
        Inl x \<Rightarrow> (u, Inl x)
      | Inr current \<Rightarrow>
         (if current = PStr key then (u, Inr ())
          else (u\<lparr>uc_session := dset ''campaign_navigation'' (PDict (dset ''selected'' (PStr key) (navigation u))) (uc_session u)\<rparr>, persisted)))"

end
