(* ===== verification/Campaign_Progress.thy ===== *)
theory Campaign_Progress
  imports Campaign "HOL-Library.Multiset"
begin

text \<open>
  What the projection of a campaign guarantees: its unlocked stages in closed form, that it depends on
  the set of received items only and never takes a stage back, that the goal is unlocked exactly when
  it is admitted, and that a campaign can always be finished.
\<close>

section \<open>Well-formed campaigns\<close>

text \<open>What validation leaves of a plan, read over the stages that the catalog knows.\<close>

definition view_ok :: "catalog \<Rightarrow> campaign_view \<Rightarrow> bool" where
  "view_ok c v \<longleftrightarrow> distinct (cv_sequence v) \<and> set (cv_starts v) \<subseteq> set (cv_sequence v) \<and> distinct (cv_starts v) \<and>
     (\<forall>g. cv_goal v = Some g \<longrightarrow> cv_sequence v \<noteq> [] \<and> last (cv_sequence v) = g \<and> g \<notin> set (cv_starts v)) \<and>
     (if cv_by_access v
      then \<forall>i key. map_of (cv_access v) i = Some key \<longleftrightarrow> key \<in> set (cv_sequence v) \<and> key \<notin> set (cv_starts v) \<and>
             (cv_goal v \<noteq> Some key \<or> cv_goal_item v) \<and> (\<exists>s. stage_of c key = Inr s \<and> i = str_int (st_access s))
      else \<not> cv_goal_item v)"

definition known_stages :: "catalog \<Rightarrow> string list \<Rightarrow> bool" where
  "known_stages c keys \<longleftrightarrow> (\<forall>key\<in>set keys. \<exists>s. stage_of c key = Inr s)"

definition done_in :: "catalog \<Rightarrow> int set \<Rightarrow> string \<Rightarrow> bool" where
  "done_in c checked key \<longleftrightarrow> (\<exists>s. stage_of c key = Inr s \<and> st_completion s \<in> checked)"

lemma completed_stages_known:
  "known_stages c keys \<Longrightarrow> completed_stages c checked keys = Inr (filter (done_in c checked) keys)"
  unfolding completed_stages_def by (rule filter_res_filter) (auto simp: known_stages_def done_in_def)

section \<open>The unlocked stages in closed form\<close>

fun visited :: "string option \<Rightarrow> string set \<Rightarrow> string list \<Rightarrow> string list" where
  "visited goal completed [] = []"
| "visited goal completed (key # keys) =
     (if goal = Some key then [] else if key \<notin> completed then [key] else key # visited goal completed keys)"

definition opened :: "campaign_view \<Rightarrow> int set \<Rightarrow> string set" where \<comment> \<open>by a received access item\<close>
  "opened v items = {key. \<exists>i\<in>items. map_of (cv_access v) (str_int i) = Some key}"

definition others_done :: "campaign_view \<Rightarrow> string set \<Rightarrow> bool" where
  "others_done v completed \<longleftrightarrow> (\<forall>key\<in>set (cv_sequence v). cv_goal v \<noteq> Some key \<longrightarrow> key \<in> completed)"

definition unlocked_stages :: "campaign_view \<Rightarrow> string set \<Rightarrow> int set \<Rightarrow> string set" where
  "unlocked_stages v completed items = set (cv_starts v) \<union> completed \<union>
     (if cv_by_access v then opened v items else set (visited (cv_goal v) completed (cv_sequence v))) \<union>
     (case cv_goal v of None \<Rightarrow> {} | Some goal \<Rightarrow> if others_done v completed then {goal} else {})"

lemma set_add_new [simp]: "set (add_new x xs) = insert x (set xs)"
  by (auto simp: add_new_def)

lemma distinct_add_new [simp]: "distinct (add_new x xs) = distinct xs"
  by (simp add: add_new_def)

lemma set_fold_add_new [simp]: "set (fold add_new xs ys) = set xs \<union> set ys"
  by (induction xs arbitrary: ys) auto

lemma distinct_fold_add_new [simp]: "distinct (fold add_new xs ys) = distinct ys"
  by (induction xs arbitrary: ys) auto

lemma item_loop_result:
  "\<exists>r. item_loop access received (revealed, unlocked) = (r, unlocked \<union> {key. \<exists>i\<in>set received. map_of access (str_int i) = Some key}) \<and>
     set r = set revealed \<union> {key. \<exists>i\<in>set received. map_of access (str_int i) = Some key} \<and> (distinct revealed \<longrightarrow> distinct r)"
proof (induction received arbitrary: revealed unlocked)
  case (Cons i received)
  show ?case
  proof (cases "map_of access (str_int i)")
    case None
    with Cons.IH [of revealed unlocked] show ?thesis by auto
  next
    case (Some key)
    with Cons.IH [of "add_new key revealed" "insert key unlocked"] show ?thesis by auto
  qed
qed simp

lemma linear_loop_result:
  "linear_loop goal completed keys (revealed, unlocked) =
     (fold add_new (visited goal completed keys) revealed, unlocked \<union> set (visited goal completed keys))"
  by (induction keys arbitrary: revealed unlocked) auto

lemma visited_subset: "set (visited goal completed keys) \<subseteq> set keys"
  by (induction keys) auto

lemma project_unlocked: "snd (project_stages v completed received) = unlocked_stages v completed (set received)"
proof -
  obtain r where r: "item_loop (cv_access v) received (cv_starts v, set (cv_starts v) \<union> completed) =
      (r, set (cv_starts v) \<union> completed \<union> opened v (set received))"
    using item_loop_result [of "cv_access v" received "cv_starts v"] unfolding opened_def by blast
  have eq: "(\<forall>key\<in>set (cv_sequence v). key \<noteq> g \<longrightarrow> key \<in> completed) \<longleftrightarrow> others_done v completed" if "cv_goal v = Some g" for g
    using that by (auto simp: others_done_def)
  show ?thesis
    by (cases "cv_goal v") (auto simp: project_stages_def unlocked_stages_def r linear_loop_result eq)
qed

lemma opened_sequence: "view_ok c v \<Longrightarrow> cv_by_access v \<Longrightarrow> opened v items \<subseteq> set (cv_sequence v)"
  by (auto simp: view_ok_def opened_def)

lemma goal_in_sequence: "view_ok c v \<Longrightarrow> cv_goal v = Some g \<Longrightarrow> g \<in> set (cv_sequence v)"
  unfolding view_ok_def by (metis last_in_set)

lemma project_revealed:
  assumes ok: "view_ok c v"
  shows "distinct (fst (project_stages v completed received)) \<and> set (fst (project_stages v completed received)) \<subseteq> set (cv_sequence v)"
proof -
  have starts: "distinct (cv_starts v)" "set (cv_starts v) \<subseteq> set (cv_sequence v)" using ok by (auto simp: view_ok_def)
  obtain r where r: "item_loop (cv_access v) received (cv_starts v, set (cv_starts v) \<union> completed) =
      (r, set (cv_starts v) \<union> completed \<union> opened v (set received))" "set r = set (cv_starts v) \<union> opened v (set received)" "distinct r"
    using item_loop_result [of "cv_access v" received "cv_starts v"] starts(1) unfolding opened_def by blast
  show ?thesis
    using starts r(2,3) opened_sequence [OF ok, of "set received"] goal_in_sequence [OF ok]
      visited_subset [of "cv_goal v" completed "cv_sequence v"]
    by (cases "cv_goal v"; cases "cv_by_access v") (auto simp: project_stages_def r(1) linear_loop_result)
qed

section \<open>What a snapshot shows\<close>

definition row_unlocked :: "campaign_snapshot \<Rightarrow> string \<Rightarrow> bool" where
  "row_unlocked snap key \<longleftrightarrow> (\<exists>row\<in>set (cs_rows snap). cw_stage row = key \<and> cw_unlocked row)"

lemma map_res_rows:
  assumes "map_res f xs = Inr ys" and "\<And>x y. f x = Inr y \<Longrightarrow> g y = h x"
  shows "map g ys = map h xs"
  using assms(1)
proof (induction xs arbitrary: ys)
  case (Cons x xs)
  then obtain y zs where "f x = Inr y" "map_res f xs = Inr zs" "ys = y # zs" by auto
  with Cons.IH assms(2) show ?case by simp
qed simp

lemma row_of_fields:
  "row_of c v revealed unlocked completed key = Inr row \<Longrightarrow>
     (cw_stage row, cw_unlocked row, cw_completed row) = (key, key \<in> unlocked, key \<in> completed)"
  by (auto simp: row_of_def Let_def)

definition completed_in :: "catalog \<Rightarrow> campaign_view \<Rightarrow> int set \<Rightarrow> string set" where
  "completed_in c v checked = {key \<in> set (cv_sequence v). done_in c checked key}"

lemma snapshot_rows:
  assumes "known_stages c (cv_sequence v)" and "snapshot c v selected checked received = Inr snap"
  shows "map (\<lambda>row. (cw_stage row, cw_unlocked row, cw_completed row)) (cs_rows snap) =
     map (\<lambda>key. (key, key \<in> unlocked_stages v (completed_in c v checked) (set received), key \<in> completed_in c v checked))
       (row_order v (fst (project_stages v (completed_in c v checked) received)))"
    and "cs_phase snap = fortress_phase v (completed_in c v checked)"
proof -
  obtain revealed unlocked where p: "project_stages v (completed_in c v checked) received = (revealed, unlocked)" by fastforce
  obtain rows where rows: "map_res (row_of c v revealed unlocked (completed_in c v checked)) (row_order v revealed) = Inr rows"
    and snap: "snap = \<lparr>cs_rows = rows, cs_hub_map = cv_hub_map v, cs_phase = fortress_phase v (completed_in c v checked), cs_selected = selected\<rparr>"
    using assms(2) by (auto simp: snapshot_def completed_stages_known [OF assms(1)] completed_in_def [symmetric] p Let_def)
  have "unlocked = unlocked_stages v (completed_in c v checked) (set received)"
    using project_unlocked [of v "completed_in c v checked" received] by (simp add: p)
  with map_res_rows [OF rows row_of_fields] show "map (\<lambda>row. (cw_stage row, cw_unlocked row, cw_completed row)) (cs_rows snap) =
     map (\<lambda>key. (key, key \<in> unlocked_stages v (completed_in c v checked) (set received), key \<in> completed_in c v checked))
       (row_order v (fst (project_stages v (completed_in c v checked) received)))"
    by (simp add: snap p)
  show "cs_phase snap = fortress_phase v (completed_in c v checked)" by (simp add: snap)
qed

lemma mset_row_order:
  assumes "view_ok c v"
  shows "mset (row_order v (fst (project_stages v completed received))) = mset (cv_sequence v)"
proof -
  let ?r = "fst (project_stages v completed received)"
  have r: "distinct ?r" "set ?r \<subseteq> set (cv_sequence v)" using project_revealed [OF assms] by auto
  have "distinct (row_order v ?r)" "set (row_order v ?r) = set (cv_sequence v)"
    using r assms by (auto simp: row_order_def view_ok_def)
  then show ?thesis using assms by (metis set_eq_iff_mset_eq_distinct view_ok_def)
qed

lemma snapshot_stages:
  assumes "view_ok c v" and "known_stages c (cv_sequence v)" and "snapshot c v selected checked received = Inr snap"
  shows "mset (map cw_stage (cs_rows snap)) = mset (cv_sequence v)"
    and "row_unlocked snap key \<longleftrightarrow> key \<in> set (cv_sequence v) \<and> key \<in> unlocked_stages v (completed_in c v checked) (set received)"
proof -
  note rows = snapshot_rows(1) [OF assms(2,3)]
  from arg_cong [OF rows, of "map fst"]
  have stages: "map cw_stage (cs_rows snap) = row_order v (fst (project_stages v (completed_in c v checked) received))"
    by (simp add: comp_def)
  then show "mset (map cw_stage (cs_rows snap)) = mset (cv_sequence v)" using mset_row_order [OF assms(1)] by simp
  then have order: "set (row_order v (fst (project_stages v (completed_in c v checked) received))) = set (cv_sequence v)"
    using stages by (metis set_mset_mset)
  have "row_unlocked snap key \<longleftrightarrow>
      (\<exists>x\<in>set (map (\<lambda>row. (cw_stage row, cw_unlocked row, cw_completed row)) (cs_rows snap)). fst x = key \<and> fst (snd x))"
    by (auto simp: row_unlocked_def)
  then show "row_unlocked snap key \<longleftrightarrow> key \<in> set (cv_sequence v) \<and> key \<in> unlocked_stages v (completed_in c v checked) (set received)"
    unfolding rows using order by auto
qed

lemma snapshot_total:
  assumes "view_ok c v" and "known_stages c (cv_sequence v)"
  shows "\<exists>snap. snapshot c v selected checked received = Inr snap"
proof -
  have rows: "\<exists>rows. map_res (row_of c v revealed unlocked completed) keys = Inr rows" if "set keys \<subseteq> set (cv_sequence v)"
    for revealed unlocked completed keys
    using that
  proof (induction keys)
    case (Cons key keys)
    moreover obtain s where "stage_of c key = Inr s" using Cons.prems assms(2) by (auto simp: known_stages_def)
    ultimately show ?case by (auto simp: row_of_def Let_def)
  qed simp
  obtain revealed unlocked where p: "project_stages v (completed_in c v checked) received = (revealed, unlocked)"
    by fastforce
  have "mset (row_order v revealed) = mset (cv_sequence v)" using mset_row_order [OF assms(1)] p by (metis fst_conv)
  then have "set (row_order v revealed) \<subseteq> set (cv_sequence v)" by (metis order_refl set_mset_mset)
  from rows [OF this, of revealed unlocked "completed_in c v checked"] show ?thesis
    by (auto simp: snapshot_def completed_stages_known [OF assms(2)] completed_in_def [symmetric] p Let_def)
qed

section \<open>Nothing is taken back\<close>

lemma visited_mono: "completed \<subseteq> completed' \<Longrightarrow> set (visited goal completed keys) \<subseteq> set (visited goal completed' keys)"
  by (induction keys) auto

lemma unlocked_mono: "completed \<subseteq> completed' \<Longrightarrow> items \<subseteq> items' \<Longrightarrow> unlocked_stages v completed items \<subseteq> unlocked_stages v completed' items'"
  using visited_mono [of completed completed'] unfolding unlocked_stages_def others_done_def opened_def
  by (cases "cv_goal v") (simp_all, blast+)

lemma completed_mono: "checked \<subseteq> checked' \<Longrightarrow> completed_in c v checked \<subseteq> completed_in c v checked'"
  by (auto simp: completed_in_def done_in_def)

lemma length_filter_mono: "(\<And>x. P x \<Longrightarrow> Q x) \<Longrightarrow> length (filter P xs) \<le> length (filter Q xs)"
  by (induction xs) auto

lemma phase_mono: "completed \<subseteq> completed' \<Longrightarrow> fortress_phase v completed \<le> fortress_phase v completed'"
proof -
  assume sub: "completed \<subseteq> completed'"
  let ?ordinary = "filter (\<lambda>key. Some key \<noteq> cv_goal v) (cv_sequence v)"
  have "length (filter (\<lambda>key. key \<in> completed) ?ordinary) \<le> length (filter (\<lambda>key. key \<in> completed') ?ordinary)"
    by (rule length_filter_mono) (use sub in blast)
  then show ?thesis unfolding fortress_phase_def Let_def by (intro length_filter_mono) linarith
qed


section \<open>The goal is unlocked when it is admitted\<close>

lemma goal_not_visited: "g \<notin> set (visited (Some g) completed keys)"
  by (induction keys) auto

lemma all_res_known:
  "(\<And>x. x \<in> set xs \<Longrightarrow> f x = Inr (p x)) \<Longrightarrow> all_res f xs = Inr (list_all p xs)"
  by (induction xs) auto

lemma structural_goal_known:
  assumes known: "known_stages c (cv_sequence v)" and ok: "view_ok c v" and g: "cv_goal v = Some g"
  shows "structural_goal_admitted c v checked received = Inr True \<longleftrightarrow>
    others_done v (completed_in c v checked) \<or> (cv_goal_item v \<and> (\<exists>s. stage_of c g = Inr s \<and> st_access s \<in> set received))"
proof -
  obtain s where s: "stage_of c g = Inr s" using known goal_in_sequence [OF ok g] by (auto simp: known_stages_def)
  have "all_res (\<lambda>key. bind_res (stage_of c key) (\<lambda>s. Inr (st_completion s \<in> checked))) (filter (\<lambda>key. key \<noteq> g) (cv_sequence v)) =
      Inr (list_all (done_in c checked) (filter (\<lambda>key. key \<noteq> g) (cv_sequence v)))"
    by (rule all_res_known) (use known in \<open>auto simp: known_stages_def done_in_def\<close>)
  moreover have "list_all (done_in c checked) (filter (\<lambda>key. key \<noteq> g) (cv_sequence v)) \<longleftrightarrow> others_done v (completed_in c v checked)"
    using g by (auto simp: list_all_iff others_done_def completed_in_def)
  ultimately show ?thesis using s by (auto simp: structural_goal_admitted_def g)
qed

text \<open>Property C6. The goal stage is unlocked in a snapshot exactly when the goal is admitted or its own
  completion was already checked.\<close>

theorem goal_unlocked_iff_admitted:
  assumes "view_ok c v" and "known_stages c (cv_sequence v)" and "cv_goal v = Some g"
    and "snapshot c v selected checked received = Inr snap"
  shows "row_unlocked snap g \<longleftrightarrow> done_in c checked g \<or> structural_goal_admitted c v checked received = Inr True"
proof -
  have g: "g \<in> set (cv_sequence v)" "g \<notin> set (cv_starts v)" using goal_in_sequence [OF assms(1,3)] assms(1,3) by (auto simp: view_ok_def)
  have opened: "g \<in> opened v (set received) \<longleftrightarrow> cv_goal_item v \<and> (\<exists>s. stage_of c g = Inr s \<and> st_access s \<in> set received)"
    if "cv_by_access v"
    using assms(1,3) that g by (auto simp: view_ok_def opened_def)
  have "\<not> cv_goal_item v" if "\<not> cv_by_access v" using assms(1) that by (simp add: view_ok_def)
  then show ?thesis
    using g opened goal_not_visited [of g "completed_in c v checked" "cv_sequence v"]
    unfolding snapshot_stages(2) [OF assms(1,2,4)] structural_goal_known [OF assms(2,1,3)] unlocked_stages_def
    by (auto simp: assms(3) completed_in_def)
qed

section \<open>Every campaign can be finished\<close>

definition access_received :: "campaign_view \<Rightarrow> int list \<Rightarrow> bool" where
  "access_received v received \<longleftrightarrow> (\<forall>i key. map_of (cv_access v) i = Some key \<longrightarrow> (\<exists>n\<in>set received. str_int n = i))"

text \<open>The player completes a stage that the snapshot shows as unlocked.\<close>

inductive played :: "catalog \<Rightarrow> campaign_view \<Rightarrow> int list \<Rightarrow> int set \<Rightarrow> int set \<Rightarrow> bool" for c v received where
  played_nothing: "played c v received checked checked"
| played_stage: "snapshot c v selected checked received = Inr snap \<Longrightarrow> row_unlocked snap key \<Longrightarrow> stage_of c key = Inr s \<Longrightarrow>
    played c v received (insert (st_completion s) checked) checked' \<Longrightarrow> played c v received checked checked'"

lemma first_incomplete_visited:
  "key \<in> set keys \<Longrightarrow> key \<notin> completed \<Longrightarrow> goal \<noteq> Some key \<Longrightarrow> (\<forall>g. goal = Some g \<longrightarrow> last keys = g) \<Longrightarrow> distinct keys \<Longrightarrow>
     \<exists>k\<in>set (visited goal completed keys). k \<notin> completed"
proof (induction keys)
  case (Cons k keys)
  have "goal \<noteq> Some k" using Cons.prems by (cases "keys = []") auto
  then show ?case using Cons by (cases "keys = []"; cases "k \<in> completed") auto
qed simp

lemma something_to_play:
  assumes ok: "view_ok c v" and known: "known_stages c (cv_sequence v)" and items: "access_received v received"
    and left: "key \<in> set (cv_sequence v)" "key \<notin> completed"
  shows "\<exists>k\<in>set (cv_sequence v). k \<in> unlocked_stages v completed (set received) \<and> k \<notin> completed"
proof (cases "others_done v completed")
  case True
  then have "cv_goal v = Some key" using left by (auto simp: others_done_def)
  then show ?thesis using True left by (auto simp: unlocked_stages_def)
next
  case False
  then obtain k where k: "k \<in> set (cv_sequence v)" "k \<notin> completed" "cv_goal v \<noteq> Some k" by (auto simp: others_done_def)
  show ?thesis
  proof (cases "cv_by_access v")
    case False
    have "\<exists>k\<in>set (visited (cv_goal v) completed (cv_sequence v)). k \<notin> completed"
      using first_incomplete_visited [OF k] ok by (auto simp: view_ok_def)
    then show ?thesis using False visited_subset by (fastforce simp: unlocked_stages_def)
  next
    case True
    show ?thesis
    proof (cases "k \<in> set (cv_starts v)")
      case False
      obtain s where "stage_of c k = Inr s" using known k(1) by (auto simp: known_stages_def)
      with True False k ok have "map_of (cv_access v) (str_int (st_access s)) = Some k" by (auto simp: view_ok_def)
      then have "k \<in> opened v (set received)" using items unfolding opened_def access_received_def by force
      then show ?thesis using k True by (auto simp: unlocked_stages_def)
    next
      case True
      then show ?thesis using k by (auto simp: unlocked_stages_def)
    qed
  qed
qed

definition stages_left :: "catalog \<Rightarrow> campaign_view \<Rightarrow> int set \<Rightarrow> nat" where
  "stages_left c v checked = card (set (cv_sequence v) - completed_in c v checked)"

text \<open>Property C4. From any checked locations, once all access items are received, the campaign can be
  finished by playing stages that a snapshot shows as unlocked.\<close>

theorem campaign_can_be_finished:
  assumes ok: "view_ok c v" and known: "known_stages c (cv_sequence v)" and items: "access_received v received"
  shows "\<exists>checked'. played c v received checked checked' \<and> completed_in c v checked' = set (cv_sequence v)"
proof (induction "stages_left c v checked" arbitrary: checked rule: less_induct)
  case less
  show ?case
  proof (cases "completed_in c v checked = set (cv_sequence v)")
    case True
    then show ?thesis using played_nothing by blast
  next
    case False
    then obtain key where "key \<in> set (cv_sequence v)" "key \<notin> completed_in c v checked" by (auto simp: completed_in_def)
    from something_to_play [OF ok known items this] obtain k where k: "k \<in> set (cv_sequence v)"
      "k \<in> unlocked_stages v (completed_in c v checked) (set received)" "k \<notin> completed_in c v checked" by blast
    obtain snap where snap: "snapshot c v [] checked received = Inr snap" using snapshot_total [OF ok known] by blast
    have row: "row_unlocked snap k" using snapshot_stages(2) [OF ok known snap] k by blast
    obtain s where s: "stage_of c k = Inr s" using known k(1) by (auto simp: known_stages_def)
    let ?next = "insert (st_completion s) checked"
    have "k \<in> completed_in c v ?next" using s k(1) by (auto simp: completed_in_def done_in_def)
    then have "set (cv_sequence v) - completed_in c v ?next \<subset> set (cv_sequence v) - completed_in c v checked"
      using k completed_mono [of checked ?next c v] by blast
    then have "stages_left c v ?next < stages_left c v checked" unfolding stages_left_def by (intro psubset_card_mono) auto
    from less [OF this] obtain checked' where "played c v received ?next checked'" "completed_in c v checked' = set (cv_sequence v)"
      by blast
    then show ?thesis using played_stage [OF snap row s] by blast
  qed
qed

end
