(* ===== verification/Campaign_Navigation.thy ===== *)
theory Campaign_Navigation
  imports Campaign_Progress
begin

text \<open>
  Accepted plans are well-formed campaigns, and over restarts, checks, items and selections the
  selected stage is the hub or a stage that is unlocked.
\<close>

section \<open>Accepted plans\<close>

definition catalog_ok :: "catalog \<Rightarrow> bool" where
  "catalog_ok c \<longleftrightarrow> distinct (map st_id c) \<and> distinct (map st_access c)"

lemma validate_plan_Inr:
  assumes "validate_plan c f slot_data = Inr plan"
  obtains enabled where "dget slot_data ''campaign_plan'' = PDict plan" "enabled_stages c slot_data plan = Inr enabled"
    "check_sequence enabled plan = Inr ()" "check_goal slot_data enabled plan = Inr ()" "check_starts plan = Inr ()"
    "check_access c enabled plan = Inr ()"
  using assms by (auto simp: validate_plan_def Let_def split: pyval.splits if_splits)

lemma enabled_distinct: "catalog_ok c \<Longrightarrow> enabled_stages c slot_data plan = Inr enabled \<Longrightarrow> distinct enabled"
  by (auto simp: enabled_stages_def catalog_ok_def distinct_map inj_on_def split: option.splits pyval.splits if_splits)

lemma texts_PStr: "text_list v \<Longrightarrow> map PStr (texts_of v) = as_list v"
  unfolding map_map text_list_def
  by (rule map_idI) (auto simp: list_all_iff is_str_iff)

lemma check_sequence_facts:
  assumes "check_sequence enabled plan = Inr ()"
  shows "text_list (dget plan ''sequence'')" and "length (as_list (dget plan ''sequence'')) = length enabled"
    and "set (as_list (dget plan ''sequence'')) = set enabled"
  using assms by (auto simp: check_sequence_def Let_def)

lemma same_PStr: "py_same x (PStr s) \<Longrightarrow> x = PStr s"
  by (cases x) auto

lemma same_dictionary:
  assumes same: "py_same v (PDict e)" and texts: "\<And>k x. map_of e k = Some x \<Longrightarrow> is_str x"
  shows "map_of (as_dict v) = map_of e"
proof
  fix k
  obtain d where d: "v = PDict d" and keys: "set (map fst d) = set (map fst e)"
    and vals: "\<And>k x. (k, x) \<in> set d \<Longrightarrow> case map_of e k of None \<Rightarrow> False | Some y \<Rightarrow> py_same x y"
    using same by (cases v) auto
  show "map_of (as_dict v) k = map_of e k"
  proof (cases "map_of d k")
    case None
    then have "k \<notin> set (map fst e)" using keys by (auto simp: map_of_eq_None_iff)
    then have "map_of e k = None" by (simp add: map_of_eq_None_iff)
    then show ?thesis using None d by simp
  next
    case (Some x)
    then obtain y where y: "map_of e k = Some y" "py_same x y" using vals [OF map_of_SomeD [OF Some]] by (auto split: option.splits)
    then show ?thesis using Some d texts [OF y(1)] same_PStr by (auto simp: is_str_iff)
  qed
qed

lemma map_of_distinct_rev: "distinct (map fst xs) \<Longrightarrow> map_of (rev xs) = map_of xs"
  by (rule map_of_inject_set [THEN iffD2]) (simp_all add: rev_map [symmetric])

lemma stage_of_Inr: "stage_of c key = Inr s \<Longrightarrow> s \<in> set c \<and> st_id s = key"
  by (auto simp: stage_of_def find_Some_iff split: option.splits)

definition access_pairs :: "catalog \<Rightarrow> string list \<Rightarrow> (string \<times> pyval) list res" where
  "access_pairs c = map_res (\<lambda>key. bind_res (stage_of c key) (\<lambda>s. Inr (str_int (st_access s), PStr key)))"

lemma access_pairs_set:
  "access_pairs c keys = Inr expected \<Longrightarrow>
     (i, x) \<in> set expected \<longleftrightarrow> (\<exists>key\<in>set keys. x = PStr key \<and> (\<exists>s. stage_of c key = Inr s \<and> i = str_int (st_access s)))"
  unfolding access_pairs_def by (induction keys arbitrary: expected) auto

lemma access_pairs_distinct:
  assumes c: "catalog_ok c"
  shows "distinct keys \<Longrightarrow> access_pairs c keys = Inr expected \<Longrightarrow> distinct (map fst expected)"
proof (induction keys arbitrary: expected)
  case Nil
  then show ?case by (simp add: access_pairs_def)
next
  case (Cons key keys)
  then obtain s rest where s: "stage_of c key = Inr s" "expected = (str_int (st_access s), PStr key) # rest" "access_pairs c keys = Inr rest"
    by (auto simp: access_pairs_def)
  have "key' = key" if "stage_of c key' = Inr s'" "st_access s' = st_access s" for key' s'
    using c that s(1) stage_of_Inr unfolding catalog_ok_def by (metis distinct_map inj_onD)
  then have "str_int (st_access s) \<notin> set (map fst rest)"
    using Cons.prems(1) access_pairs_set [OF s(3)] by fastforce
  then show ?case using Cons.IH [OF _ s(3)] Cons.prems(1) s(2) by simp
qed

lemma access_map:
  assumes "catalog_ok c" and "distinct keys" and m: "access_pairs c keys = Inr expected"
  shows "map_of (dmerge [] expected) i = Some x \<longleftrightarrow> (\<exists>key\<in>set keys. x = PStr key \<and> (\<exists>s. stage_of c key = Inr s \<and> i = str_int (st_access s)))"
proof -
  have d: "distinct (map fst expected)" using access_pairs_distinct assms by blast
  then have "map_of (dmerge [] expected) i = Some x \<longleftrightarrow> (i, x) \<in> set expected"
    by (simp add: map_of_dmerge map_of_distinct_rev map_add_def)
  then show ?thesis using access_pairs_set [OF m] by simp
qed

lemma check_access_facts:
  assumes "check_access c enabled plan = Inr ()"
  shows "dget plan ''goal_as_item'' = PBool True \<longrightarrow> access_mode plan"
    and "\<exists>expected. access_pairs c (filter (\<lambda>key. access_mode plan \<and> PStr key \<notin> set (as_list (dget plan ''starting_stages'')) \<and>
         (PStr key \<noteq> dget plan ''goal_stage'' \<or> dget plan ''goal_as_item'' = PBool True)) (texts_of (dget plan ''sequence''))) = Inr expected \<and>
       py_same (dget plan ''access_items'') (PDict (dmerge [] expected))"
  using assms by (auto simp: check_access_def access_pairs_def Let_def)

lemma view_of_Inr:
  assumes "view_of plan = Inr v"
  shows "cv_mode v = as_text (dget plan ''mode'')" "cv_sequence v = texts_of (dget plan ''sequence'')"
    "cv_starts v = texts_of (dget plan ''starting_stages'')" "cv_goal_item v \<longleftrightarrow> dget plan ''goal_as_item'' = PBool True"
    "cv_access v = map (\<lambda>(i, v). (i, as_text v)) (as_dict (dget plan ''access_items''))"
    "cv_goal v = (case dget plan ''goal_stage'' of PStr g \<Rightarrow> Some g | _ \<Rightarrow> None)"
  using assms by (auto simp: view_of_def dest: subscript_Inr)

lemma check_goal_facts:
  assumes "check_goal slot_data enabled plan = Inr ()"
  shows "dget plan ''goal_stage'' = PNone \<or> (\<exists>g. dget plan ''goal_stage'' = PStr g \<and> PStr g \<in> set enabled \<and>
     last (as_list (dget plan ''sequence'')) = PStr g)"
  using assms by (auto simp: check_goal_def Let_def expected_goal_def split: if_splits)

lemma check_starts_facts:
  assumes "check_starts plan = Inr ()"
  shows "as_list (dget plan ''starting_stages'') = take (length (as_list (dget plan ''starting_stages''))) (as_list (dget plan ''sequence''))"
    and "dget plan ''goal_stage'' \<notin> set (as_list (dget plan ''starting_stages''))" and "as_list (dget plan ''starting_stages'') \<noteq> []"
  using assms by (auto simp: check_starts_def Let_def)

lemma as_text_eq: "s \<noteq> [] \<Longrightarrow> as_text x = s \<longleftrightarrow> x = PStr s"
  by (cases x) auto

lemma by_access_mode: "view_of plan = Inr v \<Longrightarrow> cv_by_access v \<longleftrightarrow> access_mode plan"
  by (simp add: view_of_Inr access_mode_def as_text_eq)

lemma text_image: "(\<exists>x. (\<exists>k\<in>K. x = PStr k \<and> Q k) \<and> as_text x = key) \<longleftrightarrow> key \<in> K \<and> Q key"
  by force

lemma view_access:
  assumes c: "catalog_ok c" and a: "check_access c enabled plan = Inr ()" and v: "view_of plan = Inr v"
    and seq: "distinct (cv_sequence v)" and mode: "cv_by_access v"
  shows "map_of (cv_access v) i = Some key \<longleftrightarrow> key \<in> set (cv_sequence v) \<and> PStr key \<notin> set (as_list (dget plan ''starting_stages'')) \<and>
    (PStr key \<noteq> dget plan ''goal_stage'' \<or> cv_goal_item v) \<and> (\<exists>s. stage_of c key = Inr s \<and> i = str_int (st_access s))"
proof -
  let ?keys = "filter (\<lambda>key. access_mode plan \<and> PStr key \<notin> set (as_list (dget plan ''starting_stages'')) \<and>
         (PStr key \<noteq> dget plan ''goal_stage'' \<or> dget plan ''goal_as_item'' = PBool True)) (texts_of (dget plan ''sequence''))"
  obtain expected where e: "access_pairs c ?keys = Inr expected" "py_same (dget plan ''access_items'') (PDict (dmerge [] expected))"
    using check_access_facts(2) [OF a] by blast
  have "distinct ?keys" using seq by (simp add: view_of_Inr [OF v])
  note m = access_map [OF c this e(1)]
  have "map_of (as_dict (dget plan ''access_items'')) = map_of (dmerge [] expected)"
    by (rule same_dictionary [OF e(2)]) (auto simp: m)
  then have "map_of (cv_access v) i = map_option as_text (map_of (dmerge [] expected) i)"
    by (simp add: view_of_Inr [OF v] map_of_map)
  then have "map_of (cv_access v) i = Some key \<longleftrightarrow> (\<exists>x. map_of (dmerge [] expected) i = Some x \<and> as_text x = key)" by auto
  also have "\<dots> \<longleftrightarrow> key \<in> set ?keys \<and> (\<exists>s. stage_of c key = Inr s \<and> i = str_int (st_access s))"
    unfolding m by (rule text_image)
  finally have "map_of (cv_access v) i = Some key \<longleftrightarrow> key \<in> set ?keys \<and> (\<exists>s. stage_of c key = Inr s \<and> i = str_int (st_access s))" .
  moreover have "access_mode plan" using mode by_access_mode [OF v] by blast
  ultimately show ?thesis unfolding view_of_Inr(2,4) [OF v] set_filter mem_Collect_eq by blast
qed

lemma accepted_view:
  assumes c: "catalog_ok c" and plan: "validate_plan c f slot_data = Inr plan" and v: "view_of plan = Inr v"
  shows "view_ok c v"
proof -
  obtain enabled where e: "enabled_stages c slot_data plan = Inr enabled" "check_sequence enabled plan = Inr ()"
    "check_goal slot_data enabled plan = Inr ()" "check_starts plan = Inr ()" "check_access c enabled plan = Inr ()"
    using validate_plan_Inr [OF plan] by metis
  let ?seq = "as_list (dget plan ''sequence'')" and ?starts = "as_list (dget plan ''starting_stages'')"
  note q = check_sequence_facts [OF e(2)] and st = check_starts_facts [OF e(4)] and vs = view_of_Inr [OF v]
  have seq: "map PStr (cv_sequence v) = ?seq" using texts_PStr [OF q(1)] by (simp add: vs)
  have "card (set ?seq) = length ?seq" using q(2,3) distinct_card [OF enabled_distinct [OF c e(1)]] by simp
  then have "distinct ?seq" by (rule card_distinct)
  then have "distinct (map PStr (cv_sequence v))" by (simp only: seq)
  then have dseq: "distinct (cv_sequence v)" by (simp only: distinct_map)
  have starts: "cv_starts v = take (length ?starts) (cv_sequence v)"
    unfolding vs(2,3) take_map by (rule arg_cong [OF st(1)])
  then have dstarts: "distinct (cv_starts v)" "set (cv_starts v) \<subseteq> set (cv_sequence v)"
    using dseq by (simp_all add: set_take_subset)
  have "map PStr (cv_starts v) = ?starts" unfolding starts take_map [symmetric] seq by (rule st(1) [symmetric])
  then have in_starts: "PStr key \<in> set ?starts \<longleftrightarrow> key \<in> set (cv_starts v)" for key by (metis image_iff pyval.inject(4) set_map)
  have goal: "dget plan ''goal_stage'' = PStr g \<and> cv_sequence v \<noteq> [] \<and> last (cv_sequence v) = g" if "cv_goal v = Some g" for g
  proof -
    have g1: "dget plan ''goal_stage'' = PStr g" using that unfolding vs(6) by (simp split: pyval.splits)
    have "PStr g \<in> set enabled" and g3: "last ?seq = PStr g" using check_goal_facts [OF e(3)] unfolding g1 by simp_all
    then have g2: "PStr g \<in> set ?seq" unfolding q(3) by blast
    note g = g1 g2 g3
    have "cv_sequence v \<noteq> []"
    proof
      assume "cv_sequence v = []"
      then have "?seq = []" using seq by (metis list.map_disc_iff)
      then show False using g(2) by (metis empty_iff list.set(1))
    qed
    then have "last (map PStr (cv_sequence v)) = PStr (last (cv_sequence v))" by (rule last_map)
    then have "PStr g = PStr (last (cv_sequence v))" unfolding seq g(3) .
    then have "last (cv_sequence v) = g" by (metis pyval.inject(4))
    then show ?thesis using g(1) \<open>cv_sequence v \<noteq> []\<close> by blast
  qed
  have key_goal: "PStr key = dget plan ''goal_stage'' \<longleftrightarrow> cv_goal v = Some key" for key by (auto simp: vs split: pyval.splits)
  have goal_start: "key \<notin> set (cv_starts v)" if "cv_goal v = Some key" for key
    using st(2) that in_starts key_goal by metis
  show ?thesis unfolding view_ok_def
  proof (intro conjI)
    show "\<forall>g. cv_goal v = Some g \<longrightarrow> cv_sequence v \<noteq> [] \<and> last (cv_sequence v) = g \<and> g \<notin> set (cv_starts v)"
      using goal goal_start by blast
    show "if cv_by_access v
      then \<forall>i key. map_of (cv_access v) i = Some key \<longleftrightarrow> key \<in> set (cv_sequence v) \<and> key \<notin> set (cv_starts v) \<and>
             (cv_goal v \<noteq> Some key \<or> cv_goal_item v) \<and> (\<exists>s. stage_of c key = Inr s \<and> i = str_int (st_access s))
      else \<not> cv_goal_item v"
      using view_access [OF c e(5) v dseq] check_access_facts(1) [OF e(5)] by_access_mode [OF v] vs(4)
      unfolding in_starts key_goal by auto
  qed (rule dseq dstarts)+
qed


section \<open>The selected stage\<close>

inductive campaign_run :: "catalog \<Rightarrow> fortress_policy \<Rightarrow> pydict \<Rightarrow> campaign \<Rightarrow> int set \<Rightarrow> int list \<Rightarrow> bool" for c f slot_data where
  campaign_start: "\<not> has_key session ''campaign_navigation'' \<Longrightarrow> new_campaign c f slot_data session = (session', Inr u) \<Longrightarrow>
    campaign_run c f slot_data u checked received"
| campaign_restart: "campaign_run c f slot_data u checked received \<Longrightarrow> new_campaign c f slot_data (uc_session u) = (session', Inr u') \<Longrightarrow>
    campaign_run c f slot_data u' checked received"
| campaign_server: "campaign_run c f slot_data u checked received \<Longrightarrow> checked \<subseteq> checked' \<Longrightarrow> set received \<subseteq> set received' \<Longrightarrow>
    campaign_run c f slot_data u checked' received'"
| campaign_select: "campaign_run c f slot_data u checked received \<Longrightarrow> snapshot_of c u checked received = Inr snap \<Longrightarrow>
    select_stage u key snap persisted = (u', r) \<Longrightarrow> campaign_run c f slot_data u' checked received"

definition selection_ok :: "catalog \<Rightarrow> campaign \<Rightarrow> int set \<Rightarrow> int list \<Rightarrow> bool" where
  "selection_ok c u checked received \<longleftrightarrow> (\<exists>key. selected_stage u = Inr (PStr key) \<and> (key = ''hub'' \<or>
     (\<exists>v. view_of (uc_plan u) = Inr v \<and> key \<in> set (cv_sequence v) \<and> key \<in> unlocked_stages v (completed_in c v checked) (set received))))"

lemma new_campaign_Inr:
  assumes "new_campaign c f slot_data session = (session', Inr u)"
  shows "validate_plan c f slot_data = Inr (uc_plan u)"
    and "has_key session ''campaign_navigation'' \<Longrightarrow> uc_session u = session"
    and "\<not> has_key session ''campaign_navigation'' \<Longrightarrow> selected_stage u = Inr (PStr ''hub'')"
proof -
  obtain plan fingerprint where p: "validate_plan c f slot_data = Inr plan" "subscript slot_data ''native_generation_fingerprint'' = Inr fingerprint"
    using assms by (auto simp: new_campaign_def split: sum.splits)
  let ?s = "if has_key session ''campaign_navigation'' then session
     else dset ''campaign_navigation'' (PDict [(''generation'', fingerprint), (''selected'', PStr ''hub'')]) session"
  have u: "u = \<lparr>uc_plan = plan, uc_session = ?s\<rparr>"
    using assms by (auto simp: new_campaign_def p Let_def split: pyval.splits if_splits)
  show "validate_plan c f slot_data = Inr (uc_plan u)" by (simp add: u p)
  show "has_key session ''campaign_navigation'' \<Longrightarrow> uc_session u = session" by (simp add: u)
  show "\<not> has_key session ''campaign_navigation'' \<Longrightarrow> selected_stage u = Inr (PStr ''hub'')"
    by (simp add: u selected_stage_def navigation_def subscript_def)
qed

lemma filter_res_known: "filter_res f xs = Inr ys \<Longrightarrow> \<forall>x\<in>set xs. \<exists>b. f x = Inr b"
  by (induction xs arbitrary: ys) auto

lemma snapshot_known: "snapshot c v selected checked received = Inr snap \<Longrightarrow> known_stages c (cv_sequence v)"
  by (auto simp: snapshot_def completed_stages_def known_stages_def dest!: filter_res_known)

lemma has_navigation: "selected_stage u = Inr x \<Longrightarrow> has_key (uc_session u) ''campaign_navigation''"
  by (auto simp: selected_stage_def navigation_def subscript_def has_key_def dget_def split: option.splits)

lemma run_selection:
  assumes c: "catalog_ok c" and "campaign_run c f slot_data u checked received"
  shows "validate_plan c f slot_data = Inr (uc_plan u) \<and> selection_ok c u checked received"
  using assms(2)
proof (induction rule: campaign_run.induct)
  case (campaign_start session session' u checked received)
  then show ?case using new_campaign_Inr(1,3) by (auto simp: selection_ok_def)
next
  case (campaign_restart u checked received session' u')
  have "has_key (uc_session u) ''campaign_navigation''" using campaign_restart.IH has_navigation by (auto simp: selection_ok_def)
  then have "uc_session u' = uc_session u" "uc_plan u' = uc_plan u"
    using new_campaign_Inr(1,2) [OF campaign_restart.hyps(2)] campaign_restart.IH by auto
  then show ?case using campaign_restart.IH by (simp add: selection_ok_def selected_stage_def navigation_def)
next
  case (campaign_server u checked received checked' received')
  have "unlocked_stages v (completed_in c v checked) (set received) \<subseteq> unlocked_stages v (completed_in c v checked') (set received')" for v
    by (rule unlocked_mono [OF completed_mono [OF campaign_server.hyps(2)] campaign_server.hyps(3)])
  then show ?case using campaign_server.IH unfolding selection_ok_def by blast
next
  case (campaign_select u checked received snap key persisted u' r)
  show ?case
  proof (cases "u' = u")
    case True
    then show ?thesis using campaign_select.IH by simp
  next
    case False
    obtain v selected where v: "view_of (uc_plan u) = Inr v" and snap: "snapshot c v selected checked received = Inr snap"
      using campaign_select.hyps(2) by (auto simp: snapshot_of_def)
    have ok: "view_ok c v" using accepted_view [OF c _ v] campaign_select.IH by blast
    have u': "u' = u\<lparr>uc_session := dset ''campaign_navigation'' (PDict (dset ''selected'' (PStr key) (navigation u))) (uc_session u)\<rparr>"
      and row: "key = ''hub'' \<or> row_unlocked snap key"
      using campaign_select.hyps(3) False by (auto simp: select_stage_def row_unlocked_def split: if_splits sum.splits)
    have "selected_stage u' = Inr (PStr key)"
      by (simp add: u' selected_stage_def navigation_def subscript_dset)
    moreover have "uc_plan u' = uc_plan u" by (simp add: u')
    ultimately show ?thesis
      using row snapshot_stages(2) [OF ok snapshot_known [OF snap] snap] v campaign_select.IH unfolding selection_ok_def by auto
  qed
qed

text \<open>Property C5. Over any restarts, checks, items and selections, the selected stage is the hub or a
  stage that the present snapshot shows as unlocked.\<close>

theorem selected_stage_unlocked:
  assumes c: "catalog_ok c" and run: "campaign_run c f slot_data u checked received"
    and snap: "snapshot_of c u checked received = Inr snap"
  shows "cs_selected snap = ''hub'' \<or> row_unlocked snap (cs_selected snap)"
proof -
  note inv = run_selection [OF c run]
  obtain key where key: "selected_stage u = Inr (PStr key)"
    and k: "key = ''hub'' \<or> (\<exists>v. view_of (uc_plan u) = Inr v \<and> key \<in> set (cv_sequence v) \<and>
       key \<in> unlocked_stages v (completed_in c v checked) (set received))"
    using inv unfolding selection_ok_def by blast
  obtain v where v: "view_of (uc_plan u) = Inr v" and s: "snapshot c v key checked received = Inr snap"
    using snap by (auto simp: snapshot_of_def key)
  have ok: "view_ok c v" using accepted_view [OF c _ v] inv by blast
  have "cs_selected snap = key" using s by (auto simp: snapshot_def Let_def case_prod_beta)
  then show ?thesis using k v snapshot_stages(2) [OF ok snapshot_known [OF s] s] by auto
qed

section \<open>A sample campaign\<close>

definition sample_catalog :: catalog where
  "sample_catalog =
     [\<lparr>st_id = ''e1m1_intro'', st_name = ''Hell on Earth'', st_source = ''base'', st_map = ''game/sp/e1m1_intro/e1m1_intro'',
       st_completion = 7770122, st_access = 7771000, st_value = PStr ''e1m1_intro''\<rparr>,
      \<lparr>st_id = ''e1m2_war'', st_name = ''Exultia'', st_source = ''base'', st_map = ''game/sp/e1m2_battle/e1m2_battle'',
       st_completion = 7770123, st_access = 7771001, st_value = PStr ''e1m2_war''\<rparr>,
      \<lparr>st_id = ''e3m4_boss'', st_name = ''Final Sin'', st_source = ''base'', st_map = ''game/sp/e3m4_boss/e3m4_boss'',
       st_completion = 7770414, st_access = 7771012, st_value = PStr ''e3m4_boss''\<rparr>]"

definition sample_policy :: fortress_policy where
  "sample_policy = \<lparr>fp_denominator = 13, fp_weights = [1, 2, 4, 5, 6, 8, 9], fp_groups = [(''SG_SENTINEL_ARMOR'', 2)], fp_surplus_percent = 25\<rparr>"

definition sample_campaign_plan :: pydict where
  "sample_campaign_plan = [(''schema'', PInt 1), (''mode'', PStr ''Mission Access as Items''), (''difficulty'', PInt 2),
     (''sequence'', PList [PStr ''e1m1_intro'', PStr ''e1m2_war'', PStr ''e3m4_boss'']),
     (''starting_stages'', PList [PStr ''e1m1_intro'']), (''goal_stage'', PStr ''e3m4_boss''), (''goal_as_item'', PBool False),
     (''bootstrap_inventory'', PDict []), (''access_items'', PDict [(''7771001'', PStr ''e1m2_war'')]),
     (''stages'', PList [PStr ''e1m1_intro'', PStr ''e1m2_war'', PStr ''e3m4_boss'']),
     (''hub'', PDict [(''id'', PStr ''hub''), (''map'', PStr ''game/hub/hub'')])]"

definition sample_slot_data :: pydict where
  "sample_slot_data = [(''required_capabilities'', PList [PStr ''unified_campaign_v1'']), (''campaign_plan'', PDict sample_campaign_plan),
     (''goal'', PStr ''Kill the Icon of Sin''), (''randomize_dash'', PBool True), (''native_generation_fingerprint'', PStr ''seed'')]"

definition sample_view :: campaign_view where
  "sample_view = \<lparr>cv_mode = ''Mission Access as Items'', cv_sequence = [''e1m1_intro'', ''e1m2_war'', ''e3m4_boss''],
     cv_starts = [''e1m1_intro''], cv_goal = Some ''e3m4_boss'', cv_goal_item = False, cv_access = [(''7771001'', ''e1m2_war'')],
     cv_thresholds = None, cv_hub_map = ''game/hub/hub''\<rparr>"

lemma sample_catalog_ok: "catalog_ok sample_catalog"
  by code_simp

lemma sample_number: "str_int 7771001 = ''7771001''"
  by (simp add: str_int_def str_nat.simps digit_char_def)

lemmas sample_defs = sample_slot_data_def sample_campaign_plan_def sample_catalog_def sample_policy_def

lemma sample_accepted: "validate_plan sample_catalog sample_policy sample_slot_data = Inr sample_campaign_plan"
  by (simp add: validate_plan_def sample_defs CAPABILITY_def in_value_def dget_def dget_or_def is_one_def strategy_in_def MODES_def
      enabled_stages_def check_sequence_def text_list_def check_goal_def subscript_def expected_goal_def check_starts_def access_mode_def
      check_bootstrap_def bootstrap_items_def check_access_def stage_of_def sample_number check_order_def insert_commute)

lemma sample_viewed: "view_of sample_campaign_plan = Inr sample_view"
  by code_simp

lemma sample_view_ok: "view_ok sample_catalog sample_view"
  by (rule accepted_view [OF sample_catalog_ok sample_accepted sample_viewed])

lemma sample_known: "known_stages sample_catalog (cv_sequence sample_view)"
  by (simp add: known_stages_def sample_view_def sample_catalog_def stage_of_def)

definition sample_start :: campaign_snapshot where
  "sample_start = (case snapshot sample_catalog sample_view ''hub'' {} [] of Inr snap \<Rightarrow> snap)"

definition sample_later :: campaign_snapshot where
  "sample_later = (case snapshot sample_catalog sample_view ''hub'' {7770122} [7771001] of Inr snap \<Rightarrow> snap)"

lemma sample_snapshots:
  "snapshot sample_catalog sample_view ''hub'' {} [] = Inr sample_start"
  "snapshot sample_catalog sample_view ''hub'' {7770122} [7771001] = Inr sample_later"
  using snapshot_total [OF sample_view_ok sample_known] by (auto simp: sample_start_def sample_later_def) (metis sum.simps(6))+


theorem goal_unlocked_iff_admitted_witness:
  "row_unlocked sample_start ''e3m4_boss'' \<longleftrightarrow>
     done_in sample_catalog {} ''e3m4_boss'' \<or> structural_goal_admitted sample_catalog sample_view {} [] = Inr True"
  by (rule goal_unlocked_iff_admitted [OF sample_view_ok sample_known _ sample_snapshots(1)]) (simp add: sample_view_def)

lemma sample_received: "access_received sample_view [7771001]"
  by (simp add: access_received_def sample_view_def sample_number)

theorem campaign_can_be_finished_witness:
  "\<exists>checked'. played sample_catalog sample_view [7771001] {} checked' \<and> completed_in sample_catalog sample_view checked' = set (cv_sequence sample_view)"
  by (rule campaign_can_be_finished [OF sample_view_ok sample_known sample_received])


definition sample_campaign :: "string \<Rightarrow> campaign" where
  "sample_campaign key = \<lparr>uc_plan = sample_campaign_plan,
     uc_session = [(''campaign_navigation'', PDict [(''generation'', PStr ''seed''), (''selected'', PStr key)])]\<rparr>"

lemma sample_created: "new_campaign sample_catalog sample_policy sample_slot_data [] = (uc_session (sample_campaign ''hub''), Inr (sample_campaign ''hub''))"
  by (simp add: new_campaign_def sample_accepted)
    (simp add: sample_slot_data_def sample_campaign_def subscript_def has_key_def dget_def Let_def)

lemma sample_view_snapshot:
  "selected_stage (sample_campaign key) = Inr (PStr key)"
  "snapshot_of sample_catalog (sample_campaign key) checked received = snapshot sample_catalog sample_view key checked received"
  using sample_viewed by (simp_all add: sample_campaign_def snapshot_of_def selected_stage_def navigation_def subscript_def dget_def)

lemma sample_start_rows: "row_unlocked sample_start ''e1m1_intro''"
  unfolding snapshot_stages(2) [OF sample_view_ok sample_known sample_snapshots(1)]
  by (simp add: sample_view_def unlocked_stages_def)

lemma sample_selected: "campaign_run sample_catalog sample_policy sample_slot_data (sample_campaign ''e1m1_intro'') {} []"
proof (rule campaign_select)
  show "campaign_run sample_catalog sample_policy sample_slot_data (sample_campaign ''hub'') {} []"
    by (rule campaign_start [OF _ sample_created]) (simp add: has_key_def)
  show "snapshot_of sample_catalog (sample_campaign ''hub'') {} [] = Inr sample_start"
    by (simp add: sample_view_snapshot sample_snapshots)
  show "select_stage (sample_campaign ''hub'') ''e1m1_intro'' sample_start (Inr ()) = (sample_campaign ''e1m1_intro'', Inr ())"
    using sample_start_rows
    by (auto simp: select_stage_def sample_view_snapshot row_unlocked_def) (simp_all add: sample_campaign_def navigation_def dget_def)
qed

theorem selected_stage_unlocked_witness:
  "\<exists>snap. snapshot_of sample_catalog (sample_campaign ''e1m1_intro'') {} [] = Inr snap \<and>
     (cs_selected snap = ''hub'' \<or> row_unlocked snap (cs_selected snap))"
proof -
  obtain snap where snap: "snapshot_of sample_catalog (sample_campaign ''e1m1_intro'') {} [] = Inr snap"
    using snapshot_total [OF sample_view_ok sample_known, of "''e1m1_intro''" "{}" "[]"]
    by (auto simp: sample_view_snapshot)
  from selected_stage_unlocked [OF sample_catalog_ok sample_selected snap] snap show ?thesis by blast
qed

section \<open>A plan may name a stage that the catalog does not have\<close>

definition foreign_plan :: pydict where
  "foreign_plan = [(''schema'', PInt 1), (''mode'', PStr ''Random Mission Order''), (''difficulty'', PInt 2),
     (''stage_ids'', PList [PStr ''e1m1_intro'', PStr ''e9m9'', PStr ''e3m4_boss'']),
     (''sequence'', PList [PStr ''e1m1_intro'', PStr ''e9m9'', PStr ''e3m4_boss'']),
     (''starting_stages'', PList [PStr ''e1m1_intro'']), (''goal_stage'', PStr ''e3m4_boss''), (''goal_as_item'', PBool False),
     (''bootstrap_inventory'', PDict []), (''access_items'', PDict []),
     (''stages'', PList [PStr ''e1m1_intro'', PStr ''e3m4_boss'']),
     (''hub'', PDict [(''id'', PStr ''hub''), (''map'', PStr ''game/hub/hub'')])]"

definition foreign_slot_data :: pydict where
  "foreign_slot_data = [(''required_capabilities'', PList [PStr ''unified_campaign_v1'']), (''campaign_plan'', PDict foreign_plan),
     (''goal'', PStr ''Kill the Icon of Sin''), (''randomize_dash'', PBool True), (''native_generation_fingerprint'', PStr ''seed'')]"

lemma foreign_accepted: "validate_plan sample_catalog sample_policy foreign_slot_data = Inr foreign_plan"
  by (simp add: validate_plan_def foreign_slot_data_def foreign_plan_def sample_catalog_def sample_policy_def CAPABILITY_def in_value_def
      dget_def dget_or_def is_one_def strategy_in_def MODES_def
      enabled_stages_def check_sequence_def text_list_def check_goal_def subscript_def expected_goal_def check_starts_def access_mode_def
      check_bootstrap_def bootstrap_items_def check_access_def check_order_def insert_commute)

theorem unknown_stage_accepted:
  "\<exists>v. validate_plan sample_catalog sample_policy foreign_slot_data = Inr foreign_plan \<and> view_of foreign_plan = Inr v \<and>
     snapshot sample_catalog v ''hub'' checked received = Inl (KeyError ''e9m9'')"
proof -
  have "\<exists>v. view_of foreign_plan = Inr v \<and> cv_sequence v = [''e1m1_intro'', ''e9m9'', ''e3m4_boss'']"
    by (simp add: view_of_def foreign_plan_def subscript_def dget_def)
  moreover have "completed_stages sample_catalog checked [''e1m1_intro'', ''e9m9'', ''e3m4_boss''] = Inl (KeyError ''e9m9'')"
    by (simp add: completed_stages_def sample_catalog_def stage_of_def)
  ultimately show ?thesis using foreign_accepted by (auto simp: snapshot_def)
qed

end
