(* ===== verification/Transient_Effects.thy ===== *)
theory Transient_Effects
  imports Sha256 Prelude
begin

text \<open>
  The temporary effects of received items, \<open>doom_eap/runtime/transient_effects.py\<close>: at most five
  named effects with an expiry each, the three commands that hold their joint value, and the scope
  that binds them to a native attachment. The publication is a pair of functions on a world. Factors
  and clock readings are rationals.
\<close>

section \<open>Effects\<close>

record transient_effect =
  te_name :: string
  te_cvar :: string
  te_factor :: rat
  te_duration :: time

definition TRANSIENT_EFFECTS :: "(int \<times> transient_effect) list" where
  "TRANSIENT_EFFECTS =
     [(7770156, \<lparr>te_name = ''damage_boost'', te_cvar = ''g_damageScaleAllToAI'', te_factor = 3 / 2, te_duration = 20\<rparr>),
      (7770157, \<lparr>te_name = ''damage_resistance'', te_cvar = ''g_damageScaleAllToSlayer'', te_factor = 13 / 20, te_duration = 20\<rparr>),
      (7770158, \<lparr>te_name = ''infinite_ammo'', te_cvar = ''g_infiniteAmmo'', te_factor = 1, te_duration = 10\<rparr>),
      (7770159, \<lparr>te_name = ''weakness_trap'', te_cvar = ''g_damageScaleAllToAI'', te_factor = 7 / 10, te_duration = 12\<rparr>),
      (7770160, \<lparr>te_name = ''vulnerability_trap'', te_cvar = ''g_damageScaleAllToSlayer'', te_factor = 27 / 20, te_duration = 12\<rparr>)]"

record transient_runtime =
  tr_state_key :: string
  tr_binding :: "(string \<times> string) option"
  tr_ready :: bool

text \<open>\<open>publish_scope\<close> and \<open>send\<close>; the last argument of \<open>send\<close> is \<open>room_scoped\<close>.\<close>

record 'w transient_port =
  tp_scope :: "'w \<Rightarrow> string option \<Rightarrow> 'w"
  tp_send :: "'w \<Rightarrow> string \<Rightarrow> string \<Rightarrow> string \<Rightarrow> string \<Rightarrow> bool \<Rightarrow> 'w \<times> bool"

record transient_manager =
  tm_process :: int
  tm_active :: "(string \<times> (time \<times> rat \<times> string)) list" \<comment> \<open>expiry, factor and variable by name\<close>
  tm_scope_generation :: nat
  tm_bound :: "(string \<times> string) option"
  tm_reset_pending :: bool

definition new_manager :: "int \<Rightarrow> transient_manager" where
  "new_manager process = \<lparr>tm_process = process, tm_active = [], tm_scope_generation = 0, tm_bound = None, tm_reset_pending = False\<rparr>"

section \<open>Commands\<close>

text \<open>\<open>f"{x:.2f}"\<close> of a non-negative number; ties go to the even neighbour.\<close>

definition round_even :: "rat \<Rightarrow> int" where
  "round_even x = (let n = floor x; d = x - of_int n in
     if d < 1 / 2 \<or> (d = 1 / 2 \<and> even n) then n else n + 1)"

definition two_places :: "rat \<Rightarrow> string" where
  "two_places x = (let n = nat (round_even (100 * x))
     in str_nat (n div 100) @ ''.'' @ [digit_char (n div 10 mod 10), digit_char (n mod 10)])"

definition scale_of :: "transient_manager \<Rightarrow> time \<Rightarrow> string \<Rightarrow> rat" where
  "scale_of m now cvar = foldl (\<lambda>x (name, (expiry, factor, v)). if now < expiry \<and> v = cvar then x * factor else x) 1 (tm_active m)"

definition ammo_of :: "transient_manager \<Rightarrow> time \<Rightarrow> int" where
  "ammo_of m now = of_bool (\<exists>(name, (expiry, factor, v))\<in>set (tm_active m). now < expiry \<and> v = ''g_infiniteAmmo'')"

definition effect_commands :: "transient_manager \<Rightarrow> time \<Rightarrow> (string \<times> string) list" where
  "effect_commands m now =
     [(''g_damageScaleAllToAI'', ''g_damageScaleAllToAI '' @ two_places (scale_of m now ''g_damageScaleAllToAI'')),
      (''g_damageScaleAllToSlayer'', ''g_damageScaleAllToSlayer '' @ two_places (scale_of m now ''g_damageScaleAllToSlayer'')),
      (''g_infiniteAmmo'', ''g_infiniteAmmo '' @ str_int (ammo_of m now))]"

section \<open>Scope\<close>

definition scope_name :: "transient_manager \<Rightarrow> string \<Rightarrow> string \<times> string \<Rightarrow> string" where
  "scope_name m state_key binding =
     ''effectscope-'' @ take 16 (sha256_hex (join ''|'' [state_key, take 16 (sha256_hex state_key), str_int (tm_process m),
        fst binding, snd binding, str_nat (tm_scope_generation m)]))"

definition effect_scope :: "'w transient_port \<Rightarrow> transient_manager \<times> 'w \<Rightarrow> transient_runtime \<Rightarrow> (transient_manager \<times> 'w) \<times> string option" where
  "effect_scope port mw runtime =
     (case mw of (m, w) \<Rightarrow>
       if tr_state_key runtime = [] then (mw, None)
       else case tr_binding runtime of
         None \<Rightarrow> (mw, None)
       | Some binding \<Rightarrow>
          (if tm_bound m = Some binding then (mw, Some (scope_name m (tr_state_key runtime) binding))
           else let m1 = (if tm_bound m \<noteq> None then m\<lparr>tm_active := [], tm_reset_pending := False\<rparr> else m);
                    w1 = (if tm_bound m \<noteq> None then tp_scope port w None else w);
                    m2 = m1\<lparr>tm_bound := Some binding\<rparr>
                in ((m2, w1), Some (scope_name m2 (tr_state_key runtime) binding))))"

fun send_commands :: "'w transient_port \<Rightarrow> 'w \<Rightarrow> string \<Rightarrow> string \<Rightarrow> bool \<Rightarrow> (string \<times> string) list \<Rightarrow> 'w \<times> bool" where
  "send_commands port w state_key scope room_scoped [] = (w, True)"
| "send_commands port w state_key scope room_scoped ((cvar, command) # cs) =
     (case tp_send port w cvar command state_key scope room_scoped of
        (w', True) \<Rightarrow> send_commands port w' state_key scope room_scoped cs
      | (w', False) \<Rightarrow> (w', False))"

definition emit_effects :: "'w transient_port \<Rightarrow> transient_manager \<times> 'w \<Rightarrow> time \<Rightarrow> transient_runtime \<Rightarrow> bool \<Rightarrow> (transient_manager \<times> 'w) \<times> bool" where
  "emit_effects port mw now runtime room_scoped =
     (case effect_scope port mw runtime of
        ((m, w), None) \<Rightarrow> ((m, w), False)
      | ((m, w), Some scope) \<Rightarrow>
         (if \<not> tr_ready runtime then ((m, w), False)
          else case send_commands port (tp_scope port w (Some scope)) (tr_state_key runtime) scope room_scoped (effect_commands m now) of
            (w', ok) \<Rightarrow> ((m, w'), ok)))"

section \<open>Operations\<close>

definition expire_effects :: "transient_manager \<Rightarrow> time \<Rightarrow> transient_manager \<times> bool" where
  "expire_effects m now =
     (let live = filter (\<lambda>(name, (expiry, factor, cvar)). now < expiry) (tm_active m);
          expired = (length live < length (tm_active m))
      in (m\<lparr>tm_active := live, tm_reset_pending := (tm_reset_pending m \<or> expired)\<rparr>, expired))"

definition tick_effects :: "'w transient_port \<Rightarrow> transient_manager \<times> 'w \<Rightarrow> transient_runtime \<Rightarrow> time \<Rightarrow> bool \<Rightarrow> (transient_manager \<times> 'w) \<times> bool" where
  "tick_effects port mw runtime now emit =
     (case mw of (m, w) \<Rightarrow> case expire_effects m now of (m1, expired) \<Rightarrow>
       if \<not> emit then ((m1, w), \<not> expired)
       else if expired \<or> tm_reset_pending m1
       then (case emit_effects port (m1, w) now runtime True of
               ((m2, w2), emitted) \<Rightarrow> ((if emitted then m2\<lparr>tm_reset_pending := False\<rparr> else m2, w2), emitted))
       else ((m1, w), True))"

text \<open>The result says whether the effect was applied and whether the receipt may be tried again.\<close>

definition apply_effect :: "'w transient_port \<Rightarrow> transient_manager \<times> 'w \<Rightarrow> int \<Rightarrow> transient_runtime \<Rightarrow> time
    \<Rightarrow> (transient_manager \<times> 'w) \<times> bool \<times> string \<times> bool" where
  "apply_effect port mw item_id runtime now =
     (case map_of TRANSIENT_EFFECTS item_id of
        None \<Rightarrow> (mw, False, ''not a transient effect'', False)
      | Some effect \<Rightarrow>
         (case fst (tick_effects port mw runtime now False) of (m, w) \<Rightarrow>
            if \<not> tr_ready runtime then ((m, w), False, ''transient baseline or safe gameplay unavailable'', False)
            else
             let expiry = (case map_of (tm_active m) (te_name effect) of None \<Rightarrow> now | Some (e, _) \<Rightarrow> max now e);
                 m1 = m\<lparr>tm_active := AList.update (te_name effect) (expiry + te_duration effect, te_factor effect, te_cvar effect) (tm_active m)\<rparr>
             in case emit_effects port (m1, w) now runtime True of
                  ((m2, w2), False) \<Rightarrow> ((m2, w2), False, ''transient command spool rejected'', True)
                | ((m2, w2), True) \<Rightarrow> ((m2\<lparr>tm_reset_pending := False\<rparr>, w2), True, te_name effect, False)))"

definition reset_effects :: "'w transient_port \<Rightarrow> transient_manager \<times> 'w \<Rightarrow> transient_runtime \<Rightarrow> time \<Rightarrow> transient_manager \<times> 'w" where
  "reset_effects port mw runtime now =
     (case mw of (m, w) \<Rightarrow>
       let m1 = m\<lparr>tm_active := [], tm_scope_generation := tm_scope_generation m + 1, tm_reset_pending := True\<rparr>;
           w1 = tp_scope port w None
       in if \<not> tr_ready runtime then (m1, w1)
          else case emit_effects port (m1, w1) now runtime False of
            ((m2, w2), emitted) \<Rightarrow> (if emitted then m2\<lparr>tm_reset_pending := False\<rparr> else m2, w2))"

end
