(* ===== verification/Transient_Runs.thy ===== *)
theory Transient_Runs
  imports Transient_Effects
begin

text \<open>
  The game variables under the temporary effects: whatever commands are refused, when no effect is
  active and no reset is pending, the variables hold their neutral values.
\<close>

section \<open>A world of game variables\<close>

text \<open>Each command is accepted or refused by the next answer; an accepted one sets its variable.\<close>

record game_world =
  gw_vars :: "string \<Rightarrow> string"
  gw_answers :: "bool list"

definition game_send :: "game_world \<Rightarrow> string \<Rightarrow> string \<Rightarrow> string \<Rightarrow> string \<Rightarrow> bool \<Rightarrow> game_world \<times> bool" where
  "game_send w cvar command state_key scope room_scoped =
     (case gw_answers w of
        True # rest \<Rightarrow> (w\<lparr>gw_vars := (gw_vars w)(cvar := command), gw_answers := rest\<rparr>, True)
      | False # rest \<Rightarrow> (w\<lparr>gw_answers := rest\<rparr>, False)
      | [] \<Rightarrow> (w, False))"

definition game_port :: "game_world transient_port" where
  "game_port = \<lparr>tp_scope = (\<lambda>w scope. w), tp_send = game_send\<rparr>"

lemma game_port_scope [simp]: "tp_scope game_port w scope = w"
  by (simp add: game_port_def)

definition neutral :: "string \<Rightarrow> string" where
  "neutral cvar = (if cvar = ''g_damageScaleAllToAI'' then ''g_damageScaleAllToAI 1.00''
     else if cvar = ''g_damageScaleAllToSlayer'' then ''g_damageScaleAllToSlayer 1.00''
     else if cvar = ''g_infiniteAmmo'' then ''g_infiniteAmmo 0'' else [])"

text \<open>The variables follow the manager of one native attachment.\<close>

inductive effects_run :: "string \<times> string \<Rightarrow> transient_manager \<times> game_world \<Rightarrow> bool" for b where
  effects_start: "gw_vars w = neutral \<Longrightarrow> effects_run b (new_manager process, w)"
| effects_tick: "effects_run b mw \<Longrightarrow> tr_binding runtime \<in> {None, Some b} \<Longrightarrow> effects_run b (fst (tick_effects game_port mw runtime now emit))"
| effects_apply: "effects_run b mw \<Longrightarrow> tr_binding runtime \<in> {None, Some b} \<Longrightarrow> effects_run b (fst (apply_effect game_port mw item runtime now))"
| effects_reset: "effects_run b mw \<Longrightarrow> tr_binding runtime \<in> {None, Some b} \<Longrightarrow> effects_run b (reset_effects game_port mw runtime now)"
| effects_answers: "effects_run b (m, w) \<Longrightarrow> effects_run b (m, w\<lparr>gw_answers := answers\<rparr>)"

definition cvars :: "string list" where
  "cvars = [''g_damageScaleAllToAI'', ''g_damageScaleAllToSlayer'', ''g_infiniteAmmo'']"

definition effects_held :: "string \<times> string \<Rightarrow> transient_manager \<times> game_world \<Rightarrow> bool" where
  "effects_held b mw \<longleftrightarrow> tm_bound (fst mw) \<in> {None, Some b} \<and> (\<forall>c. c \<notin> set cvars \<longrightarrow> gw_vars (snd mw) c = neutral c) \<and>
     (tm_active (fst mw) = [] \<and> \<not> tm_reset_pending (fst mw) \<longrightarrow> gw_vars (snd mw) = neutral)"

lemma neutral_commands: "tm_active m = [] \<Longrightarrow> effect_commands m now = map (\<lambda>c. (c, neutral c)) cvars"
proof -
  assume a: "tm_active m = []"
  have one: "two_places 1 = ''1.00''" by (simp add: two_places_def round_even_def str_nat.simps digit_char_def)
  have zero: "str_int 0 = ''0''" by (simp add: str_int_def str_nat.simps digit_char_def)
  show ?thesis by (simp add: effect_commands_def scale_of_def ammo_of_def a one zero cvars_def neutral_def)
qed

lemma send_commands_vars:
  assumes "send_commands game_port w state_key scope room_scoped cs = (w', ok)"
  shows "(\<forall>c. c \<notin> fst ` set cs \<longrightarrow> gw_vars w' c = gw_vars w c) \<and>
     (ok \<longrightarrow> distinct (map fst cs) \<longrightarrow> (\<forall>(c, t)\<in>set cs. gw_vars w' c = t))"
  using assms
proof (induction cs arbitrary: w)
  case (Cons ct cs)
  obtain c t where ct: "ct = (c, t)" by (cases ct)
  show ?case
  proof (cases "\<exists>rest. gw_answers w = True # rest")
    case True
    then obtain rest where rest: "gw_answers w = True # rest" by blast
    then have "send_commands game_port (w\<lparr>gw_vars := (gw_vars w)(c := t), gw_answers := rest\<rparr>) state_key scope room_scoped cs = (w', ok)"
      using Cons.prems by (simp add: ct game_port_def game_send_def)
    from Cons.IH [OF this] show ?thesis by (force simp: ct)
  next
    case False
    then have "ok = False \<and> gw_vars w' = gw_vars w"
      using Cons.prems by (auto simp: ct game_port_def game_send_def split: list.splits bool.splits)
    then show ?thesis by simp
  qed
qed simp

lemma effect_commands_cvars: "map fst (effect_commands m now) = cvars"
  by (simp add: effect_commands_def cvars_def)

lemma distinct_cvars: "distinct cvars"
  by (simp add: cvars_def)

lemma effect_scope_same:
  assumes "tr_binding runtime \<in> {None, Some b}" and "tm_bound m \<in> {None, Some b}"
    and "effect_scope game_port (m, w) runtime = ((m', w'), scope)"
  shows "tm_active m' = tm_active m \<and> tm_reset_pending m' = tm_reset_pending m \<and> tm_bound m' \<in> {None, Some b} \<and> w' = w"
  using assms by (auto simp: effect_scope_def Let_def split: if_splits option.splits)

lemma emit_effects_same:
  assumes b: "tr_binding runtime \<in> {None, Some b}" "tm_bound m \<in> {None, Some b}"
    and e: "emit_effects game_port (m, w) now runtime room_scoped = ((m', w'), ok)"
  shows "tm_active m' = tm_active m \<and> tm_reset_pending m' = tm_reset_pending m \<and> tm_bound m' \<in> {None, Some b} \<and>
    (\<forall>c. c \<notin> set cvars \<longrightarrow> gw_vars w' c = gw_vars w c) \<and>
    (\<not> ok \<or> (\<forall>(c, t)\<in>set (effect_commands m' now). gw_vars w' c = t))"
proof -
  obtain m1 w1 scope where s: "effect_scope game_port (m, w) runtime = ((m1, w1), scope)" by (metis surj_pair)
  note same = effect_scope_same [OF b s]
  show ?thesis
  proof (cases "scope = None \<or> \<not> tr_ready runtime")
    case True
    then have "m' = m1" "w' = w1" "\<not> ok" using e by (auto simp: emit_effects_def s split: option.splits if_splits)
    then show ?thesis using same by simp
  next
    case False
    then obtain sc where sc: "scope = Some sc" "tr_ready runtime" by auto
    obtain w2 ok2 where w2: "send_commands game_port w1 (tr_state_key runtime) sc room_scoped (effect_commands m1 now) = (w2, ok2)" by fastforce
    have "m' = m1" "w' = w2" "ok = ok2" using e w2 by (simp_all add: emit_effects_def s sc)
    then show ?thesis using same send_commands_vars [OF w2] distinct_cvars effect_commands_cvars [of m1 now]
      by (metis (no_types, lifting) list.set_map)
  qed
qed

lemma emitted_neutral:
  assumes "\<forall>(c, t)\<in>set (effect_commands m now). gw_vars w c = t" and "tm_active m = []" and "\<forall>c. c \<notin> set cvars \<longrightarrow> gw_vars w c = neutral c"
  shows "gw_vars w = neutral"
proof
  fix c
  show "gw_vars w c = neutral c" using assms(1,3) unfolding neutral_commands [OF assms(2)] by (cases "c \<in> set cvars") auto
qed

lemma emit_held:
  assumes b: "tr_binding runtime \<in> {None, Some b}" and h: "tm_bound m \<in> {None, Some b}" "\<forall>c. c \<notin> set cvars \<longrightarrow> gw_vars w c = neutral c"
    and e: "emit_effects game_port (m, w) now runtime room_scoped = ((m', w'), ok)"
    and pending: "ok \<or> tm_active m \<noteq> [] \<or> tm_reset_pending m"
  shows "effects_held b (if ok then m'\<lparr>tm_reset_pending := False\<rparr> else m', w')"
  using emit_effects_same [OF b h(1) e] h(2) pending emitted_neutral [of m' now w'] by (auto simp: effects_held_def)

section \<open>No effect outlives its expiry\<close>

lemma expire_fields:
  assumes "expire_effects m now = (m1, expired)"
  shows "tm_bound m1 = tm_bound m \<and> (tm_active m1 \<noteq> tm_active m \<longrightarrow> tm_reset_pending m1) \<and>
    (expired \<longrightarrow> tm_reset_pending m1) \<and> (tm_reset_pending m1 \<longrightarrow> expired \<or> tm_reset_pending m) \<and>
    (tm_reset_pending m \<longrightarrow> tm_reset_pending m1) \<and>
    tm_active m1 = filter (\<lambda>(name, (expiry, factor, cvar)). now < expiry) (tm_active m)"
proof -
  have "length (filter p xs) < length xs" if "filter p xs \<noteq> xs" for p and xs :: "(string \<times> time \<times> rat \<times> string) list"
    using that by (metis filter_True length_filter_less)
  then show ?thesis using assms by (auto simp: expire_effects_def Let_def)
qed

lemma expire_held:
  assumes "effects_held b (m, w)" and "expire_effects m now = (m1, expired)"
  shows "effects_held b (m1, w)"
  using assms(1) expire_fields [OF assms(2)] by (auto simp: effects_held_def)

lemma tick_held:
  assumes h: "effects_held b mw" and b: "tr_binding runtime \<in> {None, Some b}"
  shows "effects_held b (fst (tick_effects game_port mw runtime now emit))"
proof -
  obtain m w m1 expired where mw: "mw = (m, w)" and x: "expire_effects m now = (m1, expired)" by (metis surj_pair)
  have h1: "effects_held b (m1, w)" using expire_held h x by (simp add: mw)
  show ?thesis
  proof (cases "emit \<and> (expired \<or> tm_reset_pending m1)")
    case False
    then show ?thesis using h1 by (auto simp: tick_effects_def mw x)
  next
    case True
    obtain m2 w2 ok where e: "emit_effects game_port (m1, w) now runtime True = ((m2, w2), ok)" by (metis surj_pair)
    have "tm_reset_pending m1" using True expire_fields [OF x] by auto
    then have "effects_held b (if ok then m2\<lparr>tm_reset_pending := False\<rparr> else m2, w2)"
      using emit_held [OF b _ _ e] h1 by (simp add: effects_held_def)
    then show ?thesis using True by (simp add: tick_effects_def mw x e)
  qed
qed

lemma AList_update_nonempty: "AList.update k v xs \<noteq> []"
  by (cases xs) (auto split: if_splits)

lemma apply_held:
  assumes h: "effects_held b mw" and b: "tr_binding runtime \<in> {None, Some b}"
  shows "effects_held b (fst (apply_effect game_port mw item runtime now))"
proof (cases "map_of TRANSIENT_EFFECTS item")
  case None
  then show ?thesis using h by (simp add: apply_effect_def)
next
  case (Some te)
  obtain m w where t: "fst (tick_effects game_port mw runtime now False) = (m, w)" by fastforce
  have h1: "effects_held b (m, w)" using tick_held [OF h b, of now False] t by simp
  show ?thesis
  proof (cases "tr_ready runtime")
    case False
    then show ?thesis using h1 by (simp add: apply_effect_def Some t)
  next
    case True
    define m1 where "m1 = m\<lparr>tm_active := AList.update (te_name te)
      ((case map_of (tm_active m) (te_name te) of None \<Rightarrow> now | Some (e, _) \<Rightarrow> max now e) + te_duration te, te_factor te, te_cvar te) (tm_active m)\<rparr>"
    obtain m2 w2 ok where e: "emit_effects game_port (m1, w) now runtime True = ((m2, w2), ok)" by (metis surj_pair)
    have "tm_active m1 \<noteq> []" by (simp add: m1_def AList_update_nonempty)
    then have "effects_held b (if ok then m2\<lparr>tm_reset_pending := False\<rparr> else m2, w2)"
      using emit_held [OF b _ _ e] h1 by (simp add: effects_held_def m1_def)
    then show ?thesis using True e by (cases ok) (simp_all add: apply_effect_def Some t m1_def [symmetric])
  qed
qed

lemma reset_held:
  assumes h: "effects_held b mw" and b: "tr_binding runtime \<in> {None, Some b}"
  shows "effects_held b (reset_effects game_port mw runtime now)"
proof -
  obtain m w where mw: "mw = (m, w)" by fastforce
  define m1 where "m1 = m\<lparr>tm_active := [], tm_scope_generation := tm_scope_generation m + 1, tm_reset_pending := True\<rparr>"
  have h1: "effects_held b (m1, w)" using h by (simp add: mw m1_def effects_held_def)
  show ?thesis
  proof (cases "tr_ready runtime")
    case False
    then show ?thesis using h1 by (simp add: reset_effects_def mw m1_def)
  next
    case True
    obtain m2 w2 ok where e: "emit_effects game_port (m1, w) now runtime False = ((m2, w2), ok)" by (metis surj_pair)
    have "tm_reset_pending m1" by (simp add: m1_def)
    then have "effects_held b (if ok then m2\<lparr>tm_reset_pending := False\<rparr> else m2, w2)"
      using emit_held [OF b _ _ e] h1 by (simp add: effects_held_def)
    then show ?thesis using True e [unfolded m1_def] by (simp add: reset_effects_def mw)
  qed
qed

lemma run_held: "effects_run b mw \<Longrightarrow> effects_held b mw"
proof (induction rule: effects_run.induct)
  case (effects_start w process)
  then show ?case by (simp add: effects_held_def new_manager_def)
next
  case (effects_answers m w answers)
  then show ?case by (simp add: effects_held_def)
qed (rule tick_held apply_held reset_held; assumption)+

text \<open>Property C36. Over any receipts, resets and refused commands of one attachment, a tick that
  reports success after all effects have expired leaves every game variable neutral.\<close>

theorem effects_are_taken_back:
  assumes run: "effects_run b (m, w)" and b: "tr_binding runtime \<in> {None, Some b}"
    and tick: "tick_effects game_port (m, w) runtime now True = ((m', w'), True)"
    and expired: "\<forall>(name, (expiry, factor, cvar))\<in>set (tm_active m). expiry \<le> now"
  shows "gw_vars w' = neutral"
proof -
  have held: "effects_held b (m', w')" using tick_held [OF run_held [OF run] b, of now True] tick by simp
  obtain m1 x where x: "expire_effects m now = (m1, x)" by fastforce
  have none: "tm_active m1 = []" using expire_fields [OF x] expired by (auto simp: filter_empty_conv)
  show ?thesis
  proof (cases "x \<or> tm_reset_pending m1")
    case False
    then have "m' = m1" using tick by (simp add: tick_effects_def x)
    then show ?thesis using held none False by (simp add: effects_held_def)
  next
    case True
    obtain m2 w2 ok where e: "emit_effects game_port (m1, w) now runtime True = ((m2, w2), ok)" by (metis surj_pair)
    have m': "m' = m2\<lparr>tm_reset_pending := False\<rparr>" using tick True e by (auto simp: tick_effects_def x split: if_splits)
    have "effects_held b (m1, w)" using expire_held [OF run_held [OF run] x] .
    then have "tm_active m2 = []" using emit_effects_same [OF b _ e] none by (simp add: effects_held_def)
    then show ?thesis using held by (simp add: effects_held_def m')
  qed
qed

section \<open>A sample run\<close>

definition sample_attachment :: transient_runtime where
  "sample_attachment = \<lparr>tr_state_key = ''room'', tr_binding = Some (''100'', ''1''), tr_ready = True\<rparr>"

definition sample_game :: game_world where
  "sample_game = \<lparr>gw_vars = neutral, gw_answers = [True, True, True, True, True, True]\<rparr>"

definition sample_applied :: "transient_manager \<times> game_world" where
  "sample_applied = fst (apply_effect game_port (new_manager 1, sample_game) 7770158 sample_attachment 0)"

lemma sample_applied_run: "effects_run (''100'', ''1'') sample_applied"
  unfolding sample_applied_def
  by (rule effects_apply) (simp_all add: effects_start sample_game_def sample_attachment_def)

lemma sample_active:
  "tm_active (fst sample_applied) = [(''infinite_ammo'', (10, 1, ''g_infiniteAmmo''))]"
  "tm_reset_pending (fst sample_applied) = False" "tm_bound (fst sample_applied) = Some (''100'', ''1'')"
  "gw_answers (snd sample_applied) = [True, True, True]"
  by (simp_all add: sample_applied_def apply_effect_def TRANSIENT_EFFECTS_def tick_effects_def expire_effects_def new_manager_def
      sample_attachment_def sample_game_def emit_effects_def effect_scope_def effect_commands_def game_port_def game_send_def Let_def)

lemma sample_tick: "snd (tick_effects game_port sample_applied sample_attachment 20 True)"
proof -
  obtain m w where mw: "sample_applied = (m, w)" by fastforce
  have "tm_active m = [(''infinite_ammo'', (10, 1, ''g_infiniteAmmo''))]" "tm_reset_pending m = False"
    "tm_bound m = Some (''100'', ''1'')" "gw_answers w = [True, True, True]"
    using sample_active by (simp_all add: mw)
  then show ?thesis unfolding mw
    by (simp add: tick_effects_def expire_effects_def sample_attachment_def emit_effects_def effect_scope_def effect_commands_def
        game_port_def game_send_def Let_def)
qed

theorem effects_are_taken_back_witness:
  "gw_vars (snd (fst (tick_effects game_port sample_applied sample_attachment 20 True))) = neutral"
proof (rule effects_are_taken_back)
  show "effects_run (''100'', ''1'') (fst sample_applied, snd sample_applied)" using sample_applied_run by simp
  show "tr_binding sample_attachment \<in> {None, Some (''100'', ''1'')}" by (simp add: sample_attachment_def)
  show "tick_effects game_port (fst sample_applied, snd sample_applied) sample_attachment 20 True =
      ((fst (fst (tick_effects game_port sample_applied sample_attachment 20 True)),
        snd (fst (tick_effects game_port sample_applied sample_attachment 20 True))), True)"
    using sample_tick by (simp add: prod_eq_iff)
  show "\<forall>(name, (expiry, factor, cvar))\<in>set (tm_active (fst sample_applied)). expiry \<le> 20" by (simp add: sample_active)
qed

section \<open>Refused and rebound receipts\<close>

text \<open>A receipt that is tried again after a refusal extends its effect once more.\<close>

definition refusing_game :: game_world where
  "refusing_game = \<lparr>gw_vars = neutral, gw_answers = [False, True, True, True]\<rparr>"

definition retried :: "transient_manager" where
  "retried = (let first = apply_effect game_port (new_manager 1, refusing_game) 7770158 sample_attachment 0
     in fst (fst (apply_effect game_port (fst first) 7770158 sample_attachment 0)))"

lemma retry_extends_effect: "tm_active retried = [(''infinite_ammo'', (20, 1, ''g_infiniteAmmo''))]"
  by (simp add: retried_def apply_effect_def TRANSIENT_EFFECTS_def tick_effects_def expire_effects_def new_manager_def refusing_game_def
      sample_attachment_def emit_effects_def effect_scope_def effect_commands_def game_port_def game_send_def Let_def)

text \<open>A receipt that is the first to meet a new attachment is reported as applied and lost.\<close>

lemma rebound_receipt_lost:
  assumes "tm_bound m = Some b" and "b' \<noteq> b" and "tr_state_key runtime \<noteq> []" and "tr_binding runtime = Some b'" and "tr_ready runtime"
    and "gw_answers w = [True, True, True]" and "map_of TRANSIENT_EFFECTS item = Some te"
  shows "\<exists>m' w'. apply_effect game_port (m, w) item runtime now = ((m', w'), True, te_name te, False) \<and> tm_active m' = []"
  using assms
  by (simp add: apply_effect_def tick_effects_def expire_effects_def emit_effects_def effect_scope_def effect_commands_def
      game_port_def game_send_def Let_def)

end
