(* ===== verification/Level_Ready.thy ===== *)
theory Level_Ready
  imports Command_Identity Goals
begin

text \<open>
  Admission of the work that a level load needs, \<open>doom_eap/runtime/level_ready.py\<close>, and the physical
  checks that a map reports, \<open>doom_eap/runtime/physical_checks.py\<close>. Python compares jobs by identity,
  so a job carries the number of its creation. What serves logging only is left out.
\<close>

section \<open>Jobs and state\<close>

record level_job =
  lj_number :: nat
  lj_epoch :: string
  lj_generation :: nat
  lj_path :: pyval
  lj_settle :: bool

record level_ready =
  lr_generation :: nat
  lr_pending :: "(string \<times> pyval) list"
  lr_completed :: "string set"
  lr_settled :: "string set"
  lr_active :: "(string \<times> level_job) list"
  lr_prepared :: "(string \<times> string set) list"
  lr_created :: nat

definition new_level_ready :: level_ready where
  "new_level_ready = \<lparr>lr_generation = 0, lr_pending = [], lr_completed = {}, lr_settled = {}, lr_active = [], lr_prepared = [],
     lr_created = 0\<rparr>"

section \<open>Operations\<close>

definition invalidate_level :: "level_ready \<Rightarrow> level_ready" where
  "invalidate_level s = s\<lparr>lr_generation := lr_generation s + 1, lr_active := [], lr_prepared := []\<rparr>"

definition queue_level :: "level_ready \<Rightarrow> pyval \<Rightarrow> pyval \<Rightarrow> level_ready" where
  "queue_level s epoch path =
     (case epoch of
        PStr e \<Rightarrow> if valid_materialization_epoch epoch \<and> e \<notin> lr_completed s \<and> map_of (lr_pending s) e = None
          then s\<lparr>lr_pending := lr_pending s @ [(e, path)]\<rparr> else s
      | _ \<Rightarrow> s)"

definition can_start :: "level_ready \<Rightarrow> pyval \<Rightarrow> bool" where
  "can_start s epoch = (case epoch of PStr e \<Rightarrow> map_of (lr_pending s) e \<noteq> None \<and> map_of (lr_active s) e = None | _ \<Rightarrow> False)"

definition observe_readiness :: "bool \<Rightarrow> bool" where
  "observe_readiness runtime_ready = runtime_ready"

text \<open>\<open>start\<close>: the campaign of the context, and the DLC evidence as its status and reason. The result is
  the blocking reason or the job.\<close>

definition start_level :: "level_ready \<Rightarrow> string \<Rightarrow> string option \<Rightarrow> bool \<Rightarrow> string \<times> string \<Rightarrow> pyval \<Rightarrow> level_ready \<times> (string + level_job)" where
  "start_level s epoch campaign use_dlc dlc_evidence fallback_path =
     (if use_dlc \<and> campaign \<notin> {None, Some ''Base''} \<and> fst dlc_evidence = ''missing'' then (s, Inl (snd dlc_evidence))
      else
       let path = (case map_of (lr_pending s) epoch of None \<Rightarrow> fallback_path | Some p \<Rightarrow> if truthy p then p else fallback_path);
           job = \<lparr>lj_number = lr_created s, lj_epoch = epoch, lj_generation = lr_generation s, lj_path = path,
              lj_settle = (campaign \<notin> {None, Some ''Base''} \<and> epoch \<notin> lr_settled s)\<rparr>
       in (s\<lparr>lr_active := AList.update epoch job (lr_active s), lr_created := lr_created s + 1\<rparr>, Inr job))"

definition is_current_job :: "level_ready \<Rightarrow> level_job \<Rightarrow> bool" where
  "is_current_job s job \<longleftrightarrow> lj_generation job = lr_generation s \<and>
     (case map_of (lr_active s) (lj_epoch job) of None \<Rightarrow> False | Some j \<Rightarrow> lj_number j = lj_number job)"

definition prepared_steps :: "level_ready \<Rightarrow> string \<Rightarrow> string set" where
  "prepared_steps s epoch = (case map_of (lr_prepared s) epoch of None \<Rightarrow> {} | Some steps \<Rightarrow> steps)"

definition needs_preparation :: "level_ready \<Rightarrow> level_job \<Rightarrow> string \<Rightarrow> bool" where
  "needs_preparation s job step \<longleftrightarrow> is_current_job s job \<and> step \<notin> prepared_steps s (lj_epoch job)"

definition mark_prepared :: "level_ready \<Rightarrow> level_job \<Rightarrow> string \<Rightarrow> level_ready" where
  "mark_prepared s job step =
     (if is_current_job s job
      then s\<lparr>lr_prepared := AList.update (lj_epoch job) (insert step (prepared_steps s (lj_epoch job))) (lr_prepared s)\<rparr> else s)"

definition observe_resume :: "level_ready \<Rightarrow> level_job \<Rightarrow> pydict option \<Rightarrow> bool \<Rightarrow> bool \<Rightarrow> level_ready \<times> bool" where
  "observe_resume s job marker runtime_ready settled =
     (if \<not> is_current_job s job then (s, False)
      else case marker of
        None \<Rightarrow> (s, False)
      | Some m \<Rightarrow>
         (if \<not> runtime_ready \<or> dget m ''gameplay_epoch'' \<noteq> PStr (lj_epoch job) then (s, False)
          else (if settled then s\<lparr>lr_settled := insert (lj_epoch job) (lr_settled s)\<rparr> else s, True)))"

definition complete_level :: "level_ready \<Rightarrow> level_job \<Rightarrow> level_ready" where
  "complete_level s job = s\<lparr>lr_pending := AList.delete (lj_epoch job) (lr_pending s), lr_completed := insert (lj_epoch job) (lr_completed s),
     lr_prepared := AList.delete (lj_epoch job) (lr_prepared s)\<rparr>"

definition finish_level :: "level_ready \<Rightarrow> level_job \<Rightarrow> level_ready" where
  "finish_level s job = (if is_current_job s job then s\<lparr>lr_active := AList.delete (lj_epoch job) (lr_active s)\<rparr> else s)"

section \<open>Physical checks\<close>

record physical_checks =
  pc_generation :: nat
  pc_last_event :: "int option"
  pc_pending :: "int set"

definition invalidate_physical :: "physical_checks \<Rightarrow> physical_checks" where
  "invalidate_physical s = s\<lparr>pc_generation := pc_generation s + 1, pc_pending := {}\<rparr>"

definition physical_pending :: "physical_checks \<Rightarrow> check_facts \<Rightarrow> physical_checks \<times> int set" where
  "physical_pending s facts =
     (let kept = pc_pending s - cf_checked facts in (s\<lparr>pc_pending := kept\<rparr>, kept \<inter> cf_server facts))"

definition disposition :: "physical_checks \<Rightarrow> int \<Rightarrow> check_facts \<Rightarrow> bool \<Rightarrow> physical_checks \<times> string" where
  "disposition s location facts item_ready =
     (if location \<in> cf_checked facts then (s, ''acknowledged'')
      else if item_ready \<and> cf_server facts \<noteq> {} \<and> location \<notin> cf_server facts then (s, ''quarantine'')
      else if location \<notin> cf_server facts then (s, ''outside_slot'')
      else (s\<lparr>pc_pending := insert location (pc_pending s)\<rparr>, if location \<in> cf_submitted facts then ''submitted'' else ''submit''))"

text \<open>\<open>publish\<close>: the part before its await, and the locations marked as submitted after it.\<close>

definition begin_publish :: "physical_checks \<Rightarrow> int list \<Rightarrow> physical_checks" where
  "begin_publish s locations =
     (if locations = [] then s
      else s\<lparr>pc_pending := pc_pending s \<union> set locations, pc_last_event := Some (last locations)\<rparr>)"

definition finish_publish :: "physical_checks \<Rightarrow> nat \<Rightarrow> int list \<Rightarrow> exn option \<Rightarrow> int list" where
  "finish_publish s generation locations outcome =
     (if locations = [] \<or> outcome \<noteq> None \<or> generation \<noteq> pc_generation s then [] else locations)"

section \<open>Each preparation once, each level once\<close>

datatype level_event = Started string | Prepared string string | Completed string | Invalidated

text \<open>The client works on one job at a time; queueing and invalidation happen at its awaits. The log
  has the latest event first.\<close>

inductive level_run :: "level_event list \<Rightarrow> level_ready \<Rightarrow> level_job option \<Rightarrow> bool" where
  level_begin: "level_run [] new_level_ready None"
| level_queue: "level_run evs s work \<Longrightarrow> level_run evs (queue_level s epoch path) work"
| level_invalidate: "level_run evs s work \<Longrightarrow> level_run (Invalidated # evs) (invalidate_level s) work"
| level_start: "level_run evs s None \<Longrightarrow> can_start s (PStr epoch) \<Longrightarrow>
    start_level s epoch campaign use_dlc dlc_evidence path = (s', Inr job) \<Longrightarrow> level_run (Started epoch # evs) s' (Some job)"
| level_blocked: "level_run evs s None \<Longrightarrow> start_level s epoch campaign use_dlc dlc_evidence path = (s', Inl reason) \<Longrightarrow> level_run evs s' None"
| level_prepare: "level_run evs s (Some job) \<Longrightarrow> needs_preparation s job step \<Longrightarrow>
    level_run (Prepared (lj_epoch job) step # evs) (mark_prepared s job step) (Some job)"
| level_resume: "level_run evs s (Some job) \<Longrightarrow> level_run evs (fst (observe_resume s job marker runtime_ready settled)) (Some job)"
| level_complete: "level_run evs s (Some job) \<Longrightarrow>
    level_run (Completed (lj_epoch job) # evs) (finish_level (complete_level s job) job) None"
| level_finish: "level_run evs s (Some job) \<Longrightarrow> level_run evs (finish_level s job) None"

definition this_generation :: "level_event list \<Rightarrow> level_event list" where
  "this_generation evs = takeWhile (\<lambda>ev. ev \<noteq> Invalidated) evs"

definition level_inv :: "level_event list \<Rightarrow> level_ready \<Rightarrow> level_job option \<Rightarrow> bool" where
  "level_inv evs s work \<longleftrightarrow>
     (\<forall>e. Completed e \<in> set evs \<longleftrightarrow> e \<in> lr_completed s) \<and> (\<forall>e\<in>lr_completed s. map_of (lr_pending s) e = None) \<and>
     (\<forall>e j. map_of (lr_active s) e = Some j \<longrightarrow> work = Some j \<and> lj_epoch j = e \<and> lj_generation j = lr_generation s) \<and>
     (\<forall>job. work = Some job \<longrightarrow> lj_epoch job \<notin> lr_completed s) \<and>
     (\<forall>e st. count_list (this_generation evs) (Prepared e st) \<le> 1 \<and>
        (Prepared e st \<in> set (this_generation evs) \<longrightarrow> st \<in> prepared_steps s e \<or> e \<in> lr_completed s))"

lemma this_generation_simps [simp]:
  "this_generation (Started e # evs) = Started e # this_generation evs"
  "this_generation (Prepared e st # evs) = Prepared e st # this_generation evs"
  "this_generation (Completed e # evs) = Completed e # this_generation evs"
  "this_generation (Invalidated # evs) = []"
  by (simp_all add: this_generation_def)

lemma level_fields [simp]:
  "lr_completed (queue_level s epoch path) = lr_completed s" "lr_active (queue_level s epoch path) = lr_active s"
  "prepared_steps (queue_level s epoch path) e = prepared_steps s e"
  "lr_completed (invalidate_level s) = lr_completed s" "lr_active (invalidate_level s) = []" "lr_pending (invalidate_level s) = lr_pending s"
  "prepared_steps (invalidate_level s) e = {}"
  "lr_completed (mark_prepared s job step) = lr_completed s" "lr_active (mark_prepared s job step) = lr_active s"
  "lr_pending (mark_prepared s job step) = lr_pending s"
  "lr_completed (finish_level s job) = lr_completed s" "lr_pending (finish_level s job) = lr_pending s"
  "prepared_steps (finish_level s job) e = prepared_steps s e"
  by (auto simp: queue_level_def invalidate_level_def mark_prepared_def finish_level_def prepared_steps_def split: pyval.split)

lemma observe_resume_fields [simp]:
  "lr_completed (fst (observe_resume s job marker ready settled)) = lr_completed s"
  "lr_active (fst (observe_resume s job marker ready settled)) = lr_active s"
  "lr_pending (fst (observe_resume s job marker ready settled)) = lr_pending s"
  "prepared_steps (fst (observe_resume s job marker ready settled)) e = prepared_steps s e"
  by (auto simp: observe_resume_def prepared_steps_def split: option.split)

lemma queue_pending: "map_of (lr_pending (queue_level s epoch path)) e \<noteq> None \<Longrightarrow> map_of (lr_pending s) e \<noteq> None \<or> e \<notin> lr_completed s"
  by (auto simp: queue_level_def map_add_def split: pyval.splits if_splits option.splits)

lemma mark_prepared_steps:
  "is_current_job s job \<Longrightarrow> prepared_steps (mark_prepared s job step) e =
     (if e = lj_epoch job then insert step (prepared_steps s e) else prepared_steps s e)"
  by (auto simp: mark_prepared_def prepared_steps_def map_of_update)

lemma level_generations [simp]:
  "lr_generation (queue_level s epoch path) = lr_generation s" "lr_generation (mark_prepared s job step) = lr_generation s"
  "lr_generation (fst (observe_resume s job marker ready settled)) = lr_generation s"
  by (auto simp: queue_level_def mark_prepared_def observe_resume_def split: pyval.split option.split)

lemma level_inv_parts:
  assumes "level_inv evs s work"
  shows "Completed e \<in> set evs \<longleftrightarrow> e \<in> lr_completed s" and "e \<in> lr_completed s \<Longrightarrow> map_of (lr_pending s) e = None"
    and "map_of (lr_active s) e = Some j \<Longrightarrow> work = Some j \<and> lj_epoch j = e \<and> lj_generation j = lr_generation s"
    and "work = Some job \<Longrightarrow> lj_epoch job \<notin> lr_completed s"
    and "count_list (this_generation evs) (Prepared e st) \<le> 1"
    and "Prepared e st \<in> set (this_generation evs) \<Longrightarrow> st \<in> prepared_steps s e \<or> e \<in> lr_completed s"
  using assms unfolding level_inv_def by blast+

lemma level_invI:
  assumes "\<And>e. Completed e \<in> set evs \<longleftrightarrow> e \<in> lr_completed s" and "\<And>e. e \<in> lr_completed s \<Longrightarrow> map_of (lr_pending s) e = None"
    and "\<And>e j. map_of (lr_active s) e = Some j \<Longrightarrow> work = Some j \<and> lj_epoch j = e \<and> lj_generation j = lr_generation s"
    and "\<And>job. work = Some job \<Longrightarrow> lj_epoch job \<notin> lr_completed s"
    and "\<And>e st. count_list (this_generation evs) (Prepared e st) \<le> 1"
    and "\<And>e st. Prepared e st \<in> set (this_generation evs) \<Longrightarrow> st \<in> prepared_steps s e \<or> e \<in> lr_completed s"
  shows "level_inv evs s work"
  unfolding level_inv_def using assms by blast

lemma finish_inactive:
  assumes inv: "level_inv evs s (Some job)"
  shows "map_of (lr_active (finish_level s job)) e = None"
proof (cases "map_of (lr_active s) (lj_epoch job)")
  case None
  have "map_of (lr_active s) e = None"
    using level_inv_parts(3) [OF inv, of e] None by (cases "map_of (lr_active s) e") auto
  then show ?thesis by (auto simp: finish_level_def map_of_delete)
next
  case (Some j)
  have j: "j = job" "lj_generation job = lr_generation s" using level_inv_parts(3) [OF inv Some] by blast+
  then have "is_current_job s job" using Some by (simp add: is_current_job_def)
  then have active: "map_of (lr_active (finish_level s job)) e = (if e = lj_epoch job then None else map_of (lr_active s) e)"
    by (simp add: finish_level_def delete_conv)
  show ?thesis
  proof (cases "map_of (lr_active s) e")
    case None
    then show ?thesis by (simp add: active)
  next
    case (Some k)
    then have "e = lj_epoch job" using level_inv_parts(3) [OF inv Some] by simp
    then show ?thesis by (subst active) simp
  qed
qed

lemma run_level_inv: "level_run evs s work \<Longrightarrow> level_inv evs s work"
proof (induction rule: level_run.induct)
  case level_begin
  then show ?case by (simp add: level_inv_def new_level_ready_def this_generation_def)
next
  case (level_queue evs s work epoch path)
  note inv = level_inv_parts [OF level_queue.IH]
  have "map_of (lr_pending (queue_level s epoch path)) e = None" if "e \<in> lr_completed s" for e
    using queue_pending [of s epoch path e] inv(2) [OF that] that by (cases "map_of (lr_pending (queue_level s epoch path)) e") simp_all
  then show ?case using level_queue.IH by (simp add: level_inv_def)
next
  case (level_invalidate evs s work)
  then show ?case by (simp add: level_inv_def)
next
  case (level_start evs s epoch campaign use_dlc dlc_evidence path s' job)
  note inv = level_inv_parts [OF level_start.IH]
  have s': "s' = s\<lparr>lr_active := AList.update epoch job (lr_active s), lr_created := lr_created s + 1\<rparr>"
    and job: "lj_epoch job = epoch" "lj_generation job = lr_generation s"
    using level_start.hyps(3) by (auto simp: start_level_def Let_def split: if_splits)
  have fresh: "epoch \<notin> lr_completed s" using inv(2) level_start.hyps(2) by (auto simp: can_start_def)
  have idle: "map_of (lr_active s) e = None" for e using inv(3) [of e] by (cases "map_of (lr_active s) e") auto
  have steps: "prepared_steps s' e = prepared_steps s e" for e by (simp add: s' prepared_steps_def)
  show ?case
  proof (rule level_invI)
    show "Completed e \<in> set (Started epoch # evs) \<longleftrightarrow> e \<in> lr_completed s'" for e using inv(1) [of e] by (simp add: s')
    show "map_of (lr_pending s') e = None" if "e \<in> lr_completed s'" for e using inv(2) [of e] that by (simp add: s')
    show "Some job = Some j \<and> lj_epoch j = e \<and> lj_generation j = lr_generation s'" if "map_of (lr_active s') e = Some j" for e j
      using that idle [of e] job by (simp add: s' map_of_update split: if_splits)
    show "lj_epoch job' \<notin> lr_completed s'" if "Some job = Some job'" for job' using that fresh job by (simp add: s')
    show "count_list (this_generation (Started epoch # evs)) (Prepared e st) \<le> 1" for e st using inv(5) [of e st] by simp
    show "st \<in> prepared_steps s' e \<or> e \<in> lr_completed s'" if "Prepared e st \<in> set (this_generation (Started epoch # evs))" for e st
      using inv(6) [of e st] that unfolding steps by (simp add: s')
  qed
next
  case (level_blocked evs s epoch campaign use_dlc dlc_evidence path s' reason)
  then have "s' = s" by (auto simp: start_level_def Let_def split: if_splits)
  then show ?case using level_blocked.IH by simp
next
  case (level_prepare evs s job step)
  note inv = level_inv_parts [OF level_prepare.IH]
  have cur: "is_current_job s job" and "step \<notin> prepared_steps s (lj_epoch job)"
    using level_prepare.hyps(2) by (simp_all add: needs_preparation_def)
  then have "Prepared (lj_epoch job) step \<notin> set (this_generation evs)" using inv(4,6) by blast
  then have "count_list (this_generation evs) (Prepared (lj_epoch job) step) = 0" by (simp add: count_list_0_iff)
  then have counts: "count_list (this_generation (Prepared (lj_epoch job) step # evs)) (Prepared e st) \<le> 1" for e st
    using inv(5) [of e st] by (cases "Prepared (lj_epoch job) step = Prepared e st") auto
  show ?case
  proof (rule level_invI)
    show "Completed e \<in> set (Prepared (lj_epoch job) step # evs) \<longleftrightarrow> e \<in> lr_completed (mark_prepared s job step)" for e
      using inv(1) [of e] by simp
    show "map_of (lr_pending (mark_prepared s job step)) e = None" if "e \<in> lr_completed (mark_prepared s job step)" for e
      using inv(2) [of e] that by simp
    show "Some job = Some j \<and> lj_epoch j = e \<and> lj_generation j = lr_generation (mark_prepared s job step)"
      if "map_of (lr_active (mark_prepared s job step)) e = Some j" for e j using inv(3) [of e j] that by simp
    show "lj_epoch job' \<notin> lr_completed (mark_prepared s job step)" if "Some job = Some job'" for job' using inv(4) that by simp
    show "st \<in> prepared_steps (mark_prepared s job step) e \<or> e \<in> lr_completed (mark_prepared s job step)"
      if "Prepared e st \<in> set (this_generation (Prepared (lj_epoch job) step # evs))" for e st
      using that inv(6) [of e st] unfolding mark_prepared_steps [OF cur] by auto
  qed (rule counts)
next
  case (level_resume evs s job marker runtime_ready settled)
  then show ?case by (simp add: level_inv_def)
next
  case (level_complete evs s job)
  note inv = level_inv_parts [OF level_complete.IH]
  let ?c = "complete_level s job"
  have "finish_level ?c job = (finish_level s job)\<lparr>lr_pending := lr_pending ?c, lr_completed := lr_completed ?c, lr_prepared := lr_prepared ?c\<rparr>"
    by (auto simp: finish_level_def complete_level_def is_current_job_def)
  moreover have "prepared_steps ?c e = (if e = lj_epoch job then {} else prepared_steps s e)" for e
    by (auto simp: complete_level_def prepared_steps_def map_of_delete)
  ultimately show ?case using inv finish_inactive [OF level_complete.IH] unfolding level_inv_def
    by (auto simp: complete_level_def map_of_delete prepared_steps_def)
next
  case (level_finish evs s job)
  then show ?case using finish_inactive [OF level_finish.IH] by (simp add: level_inv_def)
qed

lemma started_after_completion:
  "level_run evs s work \<Longrightarrow> evs = later @ Completed e # earlier \<Longrightarrow> Started e \<notin> set later \<and> Completed e \<notin> set later"
proof (induction arbitrary: later rule: level_run.induct)
  case (level_start evs s epoch campaign use_dlc dlc_evidence path s' job)
  note inv = level_inv_parts [OF run_level_inv [OF level_start.hyps(1)]]
  obtain later' where l: "later = Started epoch # later'" "evs = later' @ Completed e # earlier"
    using level_start.prems by (cases later) auto
  have "e \<in> lr_completed s" using inv(1) [of e] l(2) by simp
  then have "epoch \<noteq> e" using inv(2) level_start.hyps(2) by (auto simp: can_start_def)
  then show ?case using level_start.IH [OF l(2)] l(1) by simp
next
  case (level_complete evs s job)
  note inv = level_inv_parts [OF run_level_inv [OF level_complete.hyps(1)]]
  show ?case
  proof (cases later)
    case (Cons x later')
    then have l: "x = Completed (lj_epoch job)" "evs = later' @ Completed e # earlier" using level_complete.prems by auto
    have "e \<in> lr_completed s" using inv(1) [of e] l(2) by simp
    then have "lj_epoch job \<noteq> e" using inv(4) by blast
    then show ?thesis using level_complete.IH [OF l(2)] Cons l(1) by simp
  qed simp
next
  case (level_prepare evs s job step)
  then obtain later' where "later = Prepared (lj_epoch job) step # later'" "evs = later' @ Completed e # earlier" by (cases later) auto
  then show ?case using level_prepare.IH by simp
next
  case (level_invalidate evs s work)
  then obtain later' where "later = Invalidated # later'" "evs = later' @ Completed e # earlier" by (cases later) auto
  then show ?case using level_invalidate.IH by simp
qed auto


definition sample_level_queue :: level_ready where
  "sample_level_queue = queue_level new_level_ready (PStr ''1:2'') PNone"

definition sample_level_job :: level_job where
  "sample_level_job = \<lparr>lj_number = 0, lj_epoch = ''1:2'', lj_generation = 0, lj_path = PNone, lj_settle = False\<rparr>"

definition sample_started :: level_ready where
  "sample_started = fst (start_level sample_level_queue ''1:2'' None False (''present'', ''present'') PNone)"

lemma sample_epoch: "valid_materialization_epoch (PStr ''1:2'')"
  by code_simp

lemma sample_level: "level_run [Prepared ''1:2'' ''runes'', Started ''1:2''] (mark_prepared sample_started sample_level_job ''runes'') (Some sample_level_job)"
proof -
  have queued: "level_run [] sample_level_queue None" unfolding sample_level_queue_def by (rule level_queue [OF level_begin])
  have can: "can_start sample_level_queue (PStr ''1:2'')"
    using sample_epoch by (simp add: can_start_def sample_level_queue_def queue_level_def new_level_ready_def)
  have "start_level sample_level_queue ''1:2'' None False (''present'', ''present'') PNone = (sample_started, Inr sample_level_job)"
    using sample_epoch by (simp add: start_level_def sample_started_def sample_level_queue_def queue_level_def new_level_ready_def sample_level_job_def Let_def)
  from level_start [OF queued can this] have started: "level_run [Started ''1:2''] sample_started (Some sample_level_job)" .
  have "needs_preparation sample_started sample_level_job ''runes''"
    using sample_epoch by (simp add: needs_preparation_def is_current_job_def prepared_steps_def sample_started_def start_level_def
      sample_level_queue_def queue_level_def new_level_ready_def sample_level_job_def Let_def)
  from level_prepare [OF started this] show ?thesis by (simp add: sample_level_job_def)
qed


end
