(* ===== verification/Location_Setup.thy ===== *)
theory Location_Setup
  imports PyValue
begin

text \<open>
  Collecting the placements of a connection, \<open>doom_eap/runtime/location_setup.py\<close>, with the way the
  bridge client drives it: a rejected packet fails the connection, and the placements are resolved as
  soon as they are complete. Equality of packet rows is that of Python.
\<close>

section \<open>Rows\<close>

definition same_rows :: "pyval list \<Rightarrow> pyval list \<Rightarrow> bool" where
  "same_rows r r' \<longleftrightarrow> map plain r = map plain r'"

lemma same_rows_refl [simp]: "same_rows r r"
  by (simp add: same_rows_def)

lemma same_rows_sym: "same_rows r r' \<Longrightarrow> same_rows r' r"
  by (simp add: same_rows_def)

lemma same_rows_trans: "same_rows r r' \<Longrightarrow> same_rows r' r'' \<Longrightarrow> same_rows r r''"
  by (simp add: same_rows_def)

section \<open>State\<close>

record location_setup =
  ls_generation :: nat
  ls_expected :: "int set option"
  ls_rows :: "(int \<times> pyval list) list"
  ls_failed :: bool
  ls_complete :: bool

definition invalidate_setup :: "location_setup \<Rightarrow> location_setup" where
  "invalidate_setup s = \<lparr>ls_generation = ls_generation s + 1, ls_expected = None, ls_rows = [], ls_failed = False, ls_complete = False\<rparr>"

definition new_setup :: location_setup where
  "new_setup = invalidate_setup \<lparr>ls_generation = 0, ls_expected = None, ls_rows = [], ls_failed = False, ls_complete = False\<rparr>"

definition received_ids :: "location_setup \<Rightarrow> int set" where
  "received_ids s = fst ` set (ls_rows s)"

definition ready_to_resolve :: "location_setup \<Rightarrow> bool" where
  "ready_to_resolve s \<longleftrightarrow> \<not> ls_failed s \<and> \<not> ls_complete s \<and> ls_expected s = Some (received_ids s)"

section \<open>Operations\<close>

definition connected_ids :: "pydict \<Rightarrow> string \<Rightarrow> int set res" where
  "connected_ids args field =
     (case dget args field of
        PList values \<Rightarrow>
          if \<exists>v\<in>set values. \<not> is_int v then Inl (ValueError (''Connected.'' @ field @ '' contains invalid location ID''))
          else Inr (the_int ` set values)
      | _ \<Rightarrow> Inl (ValueError (''Connected.'' @ field @ '' must be a location list'')))"

definition begin_setup :: "location_setup \<Rightarrow> pydict \<Rightarrow> int set \<Rightarrow> int set \<Rightarrow> location_setup \<times> int set res" where
  "begin_setup s args supported unscouted =
     (let s1 = invalidate_setup s
      in case bind_res (connected_ids args ''missing_locations'') (\<lambda>missing. bind_res (connected_ids args ''checked_locations'') (\<lambda>checked.
           if missing \<inter> checked \<noteq> {} then Inl (ValueError ''Connected location sets overlap'')
           else if missing \<union> checked - supported - unscouted \<noteq> {} then Inl (ValueError ''Connected contains unknown DOOM location IDs'')
           else Inr (missing \<union> checked - unscouted))) of
         Inl e \<Rightarrow> (s1, Inl e)
       | Inr active \<Rightarrow> (s1\<lparr>ls_expected := Some active\<rparr>, Inr active))"

definition fail_setup :: "location_setup \<Rightarrow> location_setup \<times> bool" where
  "fail_setup s = (if ls_failed s then (s, False) else (s\<lparr>ls_failed := True\<rparr>, True))"

text \<open>\<open>scout\<close> awaits the publication; the result is whether its generation is still current, and an error.\<close>

definition finish_scout :: "location_setup \<Rightarrow> nat \<Rightarrow> exn option \<Rightarrow> bool \<times> string option" where
  "finish_scout s generation outcome =
     (if generation \<noteq> ls_generation s then (False, None)
      else (True, map_option (\<lambda>e. ''LocationScouts failed: '' @ exn_message e) outcome))"

fun consume_rows :: "int set \<Rightarrow> int set \<Rightarrow> pyval list \<Rightarrow> (int \<times> pyval list) list \<Rightarrow> int list \<Rightarrow> (int \<times> pyval list) list \<times> (string + int list)" where
  "consume_rows expected materialized [] stored ids = (stored, Inr ids)"
| "consume_rows expected materialized (row # rows) stored ids =
     (case row of
        PList xs \<Rightarrow>
          if length xs \<noteq> 4 then (stored, Inl ''LocationInfo contains malformed placement'')
          else if \<not> is_int (xs ! 1) then (stored, Inl ''LocationInfo contains invalid location ID'')
          else let l = the_int (xs ! 1)
               in if l \<notin> expected then (stored, Inl ''LocationInfo contains unknown location ID'')
                  else if l \<notin> materialized then (stored, Inl ''LocationInfo did not materialize location ID'')
                  else if (case map_of stored l of None \<Rightarrow> False | Some previous \<Rightarrow> \<not> same_rows previous xs)
                  then (stored, Inl ''LocationInfo conflicts at location ID'')
                  else consume_rows expected materialized rows (AList.update l xs stored) (ids @ [l])
      | _ \<Rightarrow> (stored, Inl ''LocationInfo contains malformed placement''))"

definition location_rows :: "pyval \<Rightarrow> pyval list option" where
  "location_rows args = (case args of PDict d \<Rightarrow> (case dget d ''locations'' of PList rows \<Rightarrow> Some rows | _ \<Rightarrow> None) | _ \<Rightarrow> None)"

definition consume_info :: "location_setup \<Rightarrow> pyval \<Rightarrow> int set \<Rightarrow> location_setup \<times> string option" where
  "consume_info s args materialized =
     (case ls_expected s of
        None \<Rightarrow> (s, None)
      | Some expected \<Rightarrow>
         (if ls_failed s then (s, None)
          else case location_rows args of
            None \<Rightarrow> (s, Some ''LocationInfo.locations is not a list'')
          | Some rows \<Rightarrow>
             (case consume_rows expected materialized rows (ls_rows s) [] of
                (stored, Inl message) \<Rightarrow> (s\<lparr>ls_rows := stored\<rparr>, Some message)
              | (stored, Inr ids) \<Rightarrow> (s\<lparr>ls_rows := stored\<rparr>, if distinct ids then None else Some ''LocationInfo contains duplicate location IDs''))))"

definition resolved_setup :: "location_setup \<Rightarrow> location_setup" where
  "resolved_setup s = s\<lparr>ls_complete := True\<rparr>"

section \<open>The connection\<close>

text \<open>The steps of the bridge client: \<open>_try_complete_location_scouts\<close>, and a packet with its outcome.
  Whether the placements of the slot can be resolved is an argument.\<close>

datatype setup_event = Began "int set option" | Placed int "pyval list" | Rejected | Resolved

definition try_complete :: "location_setup \<Rightarrow> bool \<Rightarrow> location_setup \<times> setup_event list" where
  "try_complete s resolvable =
     (if \<not> ready_to_resolve s then (s, [])
      else if \<not> resolvable then (fst (fail_setup s), [Rejected])
      else (resolved_setup s, [Resolved]))"

definition placed :: "pyval \<Rightarrow> setup_event list" where
  "placed args = (case location_rows args of None \<Rightarrow> []
     | Some rows \<Rightarrow> rev (map (\<lambda>row. case row of PList xs \<Rightarrow> Placed (the_int (xs ! 1)) xs | _ \<Rightarrow> Rejected) rows))"

definition on_location_info :: "location_setup \<Rightarrow> pyval \<Rightarrow> int set \<Rightarrow> bool \<Rightarrow> location_setup \<times> setup_event list" where
  "on_location_info s args materialized resolvable =
     (if ls_expected s = None \<or> ls_failed s then (s, [])
      else case consume_info s args materialized of
        (s1, Some message) \<Rightarrow> (fst (fail_setup s1), [Rejected])
      | (s1, None) \<Rightarrow> (case try_complete s1 resolvable of (s2, evs) \<Rightarrow> (s2, evs @ placed args)))"

text \<open>The log has the latest event first.\<close>

inductive setup_run :: "setup_event list \<Rightarrow> location_setup \<Rightarrow> bool" where
  setup_start: "setup_run [Began None] new_setup"
| setup_invalidate: "setup_run evs s \<Longrightarrow> setup_run (Began None # evs) (invalidate_setup s)"
| setup_begin: "setup_run evs s \<Longrightarrow> begin_setup s args supported unscouted = (s', Inr active) \<Longrightarrow> setup_run (Began (Some active) # evs) s'"
| setup_refused: "setup_run evs s \<Longrightarrow> begin_setup s args supported unscouted = (s', Inl e) \<Longrightarrow>
    setup_run (Rejected # Began None # evs) (fst (fail_setup s'))"
| setup_scouted: "setup_run evs s \<Longrightarrow> finish_scout s generation outcome = (True, None) \<Longrightarrow> try_complete s resolvable = (s', evs') \<Longrightarrow>
    setup_run (evs' @ evs) s'"
| setup_scout_failed: "setup_run evs s \<Longrightarrow> finish_scout s generation outcome = (True, Some message) \<Longrightarrow>
    setup_run (Rejected # evs) (fst (fail_setup s))"
| setup_packet: "setup_run evs s \<Longrightarrow> on_location_info s args materialized resolvable = (s', evs') \<Longrightarrow> setup_run (evs' @ evs) s'"

fun is_began :: "setup_event \<Rightarrow> bool" where
  "is_began (Began _) = True"
| "is_began _ = False"

definition this_setup :: "setup_event list \<Rightarrow> setup_event list" where
  "this_setup evs = takeWhile (\<lambda>ev. \<not> is_began ev) evs"

fun expected_of :: "setup_event list \<Rightarrow> int set option" where
  "expected_of [] = None"
| "expected_of (Began expected # evs) = expected"
| "expected_of (_ # evs) = expected_of evs"

definition complete_placements :: "setup_event list \<Rightarrow> bool" where
  "complete_placements evs \<longleftrightarrow>
     Resolved \<notin> set (this_setup evs) \<and> Rejected \<notin> set (this_setup evs) \<and>
     (\<exists>expected. expected_of evs = Some expected \<and> (\<forall>i. i \<in> expected \<longleftrightarrow> (\<exists>r. Placed i r \<in> set (this_setup evs)))) \<and>
     (\<forall>i r r'. Placed i r \<in> set (this_setup evs) \<longrightarrow> Placed i r' \<in> set (this_setup evs) \<longrightarrow> same_rows r r')"

fun resolutions_ok :: "setup_event list \<Rightarrow> bool" where
  "resolutions_ok [] = True"
| "resolutions_ok (Resolved # evs) = (complete_placements evs \<and> resolutions_ok evs)"
| "resolutions_ok (_ # evs) = resolutions_ok evs"

section \<open>Placements are complete, consistent and resolved once\<close>

lemma this_setup_simps [simp]:
  "this_setup (Began expected # evs) = []" "this_setup (Rejected # evs) = Rejected # this_setup evs"
  "this_setup (Resolved # evs) = Resolved # this_setup evs"
  by (simp_all add: this_setup_def)

lemma placed_events:
  assumes "\<And>ev. ev \<in> set evs' \<Longrightarrow> \<exists>i r. ev = Placed i r"
  shows "this_setup (evs' @ evs) = evs' @ this_setup evs \<and> expected_of (evs' @ evs) = expected_of evs \<and>
    (resolutions_ok (evs' @ evs) \<longleftrightarrow> resolutions_ok evs)"
  using assms
proof (induction evs')
  case (Cons ev evs')
  then obtain i r where "ev = Placed i r" by (meson list.set_intros(1))
  then show ?case using Cons by (simp add: this_setup_def)
qed simp

lemma resolutions_ok_split: "resolutions_ok (later @ Resolved # earlier) \<Longrightarrow> complete_placements earlier"
proof (induction later)
  case (Cons ev later)
  then show ?case by (cases ev) auto
qed simp

lemma consume_rows_ok:
  assumes "consume_rows expected materialized rows stored ids = (stored', Inr ids')"
  shows "(\<forall>row\<in>set rows. \<exists>xs r. row = PList xs \<and> map_of stored' (the_int (xs ! 1)) = Some r \<and> same_rows r xs) \<and>
    (\<forall>i r. map_of stored i = Some r \<longrightarrow> (\<exists>r'. map_of stored' i = Some r' \<and> same_rows r' r)) \<and>
    (\<forall>i r. map_of stored' i = Some r \<longrightarrow> map_of stored i = Some r \<or> (PList r \<in> set rows \<and> the_int (r ! 1) = i))"
  using assms
proof (induction rows arbitrary: stored ids)
  case (Cons row rows)
  obtain xs where row: "row = PList xs" using Cons.prems by (cases row) auto
  define l where "l = the_int (xs ! 1)"
  have same: "case map_of stored l of None \<Rightarrow> True | Some p \<Rightarrow> same_rows p xs"
    and rest: "consume_rows expected materialized rows (AList.update l xs stored) (ids @ [l]) = (stored', Inr ids')"
    using Cons.prems unfolding row l_def by (auto simp: Let_def split: if_splits option.splits)
  note ih = Cons.IH [OF rest]
  have l: "\<exists>r. map_of stored' l = Some r \<and> same_rows r xs" using ih by (simp add: map_of_update)
  have old: "\<exists>r'. map_of stored' i = Some r' \<and> same_rows r' r" if "map_of stored i = Some r" for i r
  proof (cases "i = l")
    case True
    then have "same_rows r xs" using same that by simp
    then show ?thesis using l True same_rows_sym same_rows_trans by blast
  next
    case False
    then show ?thesis using ih that by (simp add: map_of_update)
  qed
  have new: "map_of stored i = Some r \<or> PList r \<in> set (row # rows) \<and> the_int (r ! 1) = i" if "map_of stored' i = Some r" for i r
    using ih that by (auto simp: map_of_update row l_def split: if_splits)
  show ?case using l old new ih by (auto simp: row l_def)
qed auto

definition setup_inv :: "setup_event list \<Rightarrow> location_setup \<Rightarrow> bool" where
  "setup_inv evs s \<longleftrightarrow> expected_of evs = ls_expected s \<and> resolutions_ok evs \<and>
     count_list (this_setup evs) Resolved \<le> of_bool (ls_complete s) \<and> (Rejected \<in> set (this_setup evs) \<longrightarrow> ls_failed s) \<and>
     (\<not> ls_failed s \<longrightarrow>
        (\<forall>i r. Placed i r \<in> set (this_setup evs) \<longrightarrow> (\<exists>r'. map_of (ls_rows s) i = Some r' \<and> same_rows r' r)) \<and>
        (\<forall>i r. map_of (ls_rows s) i = Some r \<longrightarrow> Placed i r \<in> set (this_setup evs)))"

lemma fail_setup_fields [simp]:
  "ls_failed (fst (fail_setup s))" "ls_complete (fst (fail_setup s)) = ls_complete s" "ls_rows (fst (fail_setup s)) = ls_rows s"
  "ls_expected (fst (fail_setup s)) = ls_expected s"
  by (simp_all add: fail_setup_def)

lemma began_inv:
  assumes "setup_inv evs s" and "ls_expected s' = expected" and "ls_rows s' = []" and "\<not> ls_failed s'" and "\<not> ls_complete s'"
  shows "setup_inv (Began expected # evs) s'"
  using assms by (simp add: setup_inv_def)

lemma reject_inv: "setup_inv evs s \<Longrightarrow> setup_inv (Rejected # evs) (fst (fail_setup s))"
  by (simp add: setup_inv_def)

lemma ready_complete:
  assumes inv: "setup_inv evs s" and ready: "ready_to_resolve s"
  shows "complete_placements evs"
proof -
  note i = inv [unfolded setup_inv_def]
  have none: "Resolved \<notin> set (this_setup evs)" "Rejected \<notin> set (this_setup evs)"
    using i ready by (simp_all add: ready_to_resolve_def count_list_0_iff)
  have ids: "i \<in> received_ids s \<longleftrightarrow> (\<exists>r. Placed i r \<in> set (this_setup evs))" for i
  proof -
    have a: "Placed i r \<in> set (this_setup evs)" if "map_of (ls_rows s) i = Some r" for r
      using i ready that by (simp add: ready_to_resolve_def)
    have b: "\<exists>r'. map_of (ls_rows s) i = Some r'" if "Placed i r \<in> set (this_setup evs)" for r
      using i ready that unfolding ready_to_resolve_def by blast
    have "i \<in> received_ids s \<longleftrightarrow> map_of (ls_rows s) i \<noteq> None" by (simp add: received_ids_def map_of_eq_None_iff)
    then show ?thesis using a b by blast
  qed
  have same: "same_rows r r'" if two: "Placed i r \<in> set (this_setup evs)" "Placed i r' \<in> set (this_setup evs)" for i r r'
  proof -
    have stored: "\<exists>p. map_of (ls_rows s) i = Some p \<and> same_rows p x" if "Placed i x \<in> set (this_setup evs)" for x
      using conjunct2 [OF conjunct2 [OF conjunct2 [OF conjunct2 [OF i]]]] ready that unfolding ready_to_resolve_def by blast
    obtain p where "map_of (ls_rows s) i = Some p" "same_rows p r" using stored [OF two(1)] by blast
    moreover obtain q where "map_of (ls_rows s) i = Some q" "same_rows q r'" using stored [OF two(2)] by blast
    ultimately show ?thesis using same_rows_sym same_rows_trans by (metis option.inject)
  qed
  have "expected_of evs = Some (received_ids s)" using i ready by (simp add: ready_to_resolve_def)
  then show ?thesis unfolding complete_placements_def using none ids same by blast
qed

lemma try_complete_inv:
  assumes "setup_inv evs s" and "try_complete s resolvable = (s', evs')"
  shows "setup_inv (evs' @ evs) s'"
  using assms reject_inv [OF assms(1)] ready_complete [OF assms(1)] unfolding try_complete_def
  by (auto simp: setup_inv_def resolved_setup_def ready_to_resolve_def split: if_splits)

lemma packet_inv:
  assumes inv: "setup_inv evs s" and p: "on_location_info s args materialized resolvable = (s', evs')"
  shows "setup_inv (evs' @ evs) s'"
proof (cases "ls_expected s = None \<or> ls_failed s")
  case True
  then show ?thesis using inv p by (auto simp: on_location_info_def)
next
  case False
  then obtain expected where e: "ls_expected s = Some expected" "\<not> ls_failed s" by auto
  obtain s1 m where c: "consume_info s args materialized = (s1, m)" by fastforce
  show ?thesis
  proof (cases m)
    case (Some message)
    then have "ls_complete s1 = ls_complete s" "ls_expected s1 = ls_expected s" using c e
      by (auto simp: consume_info_def split: option.splits prod.splits sum.splits if_splits)
    then show ?thesis using inv p Some c e by (auto simp: on_location_info_def setup_inv_def)
  next
    case None
    then obtain rows stored ids where r: "location_rows args = Some rows"
        "consume_rows expected materialized rows (ls_rows s) [] = (stored, Inr ids)" and s1: "s1 = s\<lparr>ls_rows := stored\<rparr>"
      using c e by (auto simp: consume_info_def split: option.splits prod.splits sum.splits if_splits)
    note ok = consume_rows_ok [OF r(2)]
    have lists: "\<exists>xs. row = PList xs" if "row \<in> set rows" for row using ok that by blast
    have placed: "Placed i xs \<in> set (placed args) \<longleftrightarrow> PList xs \<in> set rows \<and> i = the_int (xs ! 1)"
      and only: "Rejected \<notin> set (placed args)" "Resolved \<notin> set (placed args)" for i xs
      using lists by (force simp: placed_def r(1) split: pyval.splits)+
    have "\<exists>i r. ev = Placed i r" if ev: "ev \<in> set (placed args)" for ev
    proof -
      obtain row where "row \<in> set rows" "ev = (case row of PList xs \<Rightarrow> Placed (the_int (xs ! 1)) xs | _ \<Rightarrow> Rejected)"
        using ev unfolding placed_def r(1) option.case set_rev set_map by blast
      then show ?thesis using lists by fastforce
    qed
    note pe = placed_events [of "placed args" evs, OF this]
    have old: "\<exists>r'. map_of (ls_rows s) i = Some r' \<and> same_rows r' xs" if "Placed i xs \<in> set (this_setup evs)" for i xs
      using inv e(2) that by (simp add: setup_inv_def)
    have covers: "\<exists>r'. map_of stored i = Some r' \<and> same_rows r' xs" if pl: "Placed i xs \<in> set (placed args @ this_setup evs)" for i xs
    proof (cases "Placed i xs \<in> set (placed args)")
      case True
      then show ?thesis using ok placed by fastforce
    next
      case False
      then obtain r' where "map_of (ls_rows s) i = Some r'" "same_rows r' xs" using old [of i xs] pl by auto
      then show ?thesis using ok same_rows_trans by blast
    qed
    have from_packet: "Placed i r \<in> set (placed args @ this_setup evs)" if st: "map_of stored i = Some r" for i r
    proof -
      have known: "Placed i r \<in> set (this_setup evs)" if "map_of (ls_rows s) i = Some r"
        using inv e(2) that by (simp add: setup_inv_def)
      have "map_of (ls_rows s) i = Some r \<or> PList r \<in> set rows \<and> the_int (r ! 1) = i" using ok st by blast
      then show ?thesis using known placed by auto
    qed
    have count: "count_list (placed args @ this_setup evs) Resolved \<le> of_bool (ls_complete s)" "Rejected \<notin> set (placed args @ this_setup evs)"
      using inv only e(2) by (simp_all add: setup_inv_def count_list_append count_list_0_iff [THEN iffD2])
    have "setup_inv (placed args @ evs) s1"
      unfolding setup_inv_def
    proof (intro conjI impI allI)
      show "expected_of (placed args @ evs) = ls_expected s1" "resolutions_ok (placed args @ evs)"
        using pe inv by (simp_all add: setup_inv_def s1)
      show "count_list (this_setup (placed args @ evs)) Resolved \<le> of_bool (ls_complete s1)" using count(1) pe by (simp add: s1)
      show "ls_failed s1" if "Rejected \<in> set (this_setup (placed args @ evs))" using count(2) pe that by simp
      show "\<exists>r'. map_of (ls_rows s1) i = Some r' \<and> same_rows r' r" if "Placed i r \<in> set (this_setup (placed args @ evs))" for i r
        using covers that pe by (simp add: s1)
      show "Placed i r \<in> set (this_setup (placed args @ evs))" if "map_of (ls_rows s1) i = Some r" for i r
        using from_packet that pe by (simp add: s1)
    qed
    moreover obtain s2 evs2 where t: "try_complete s1 resolvable = (s2, evs2)" by fastforce
    ultimately have "setup_inv (evs2 @ placed args @ evs) s2" by (rule try_complete_inv)
    then show ?thesis using p c None e t by (auto simp: on_location_info_def)
  qed
qed

lemma begin_setup_inv:
  assumes inv: "setup_inv evs s" and b: "begin_setup s args supported unscouted = (s', result)"
  shows "setup_inv (Began (case result of Inl e \<Rightarrow> None | Inr active \<Rightarrow> Some active) # evs) s'"
  by (rule began_inv [OF inv]) (use b in \<open>auto simp: begin_setup_def invalidate_setup_def Let_def split: sum.splits\<close>)

lemma run_setup_inv: "setup_run evs s \<Longrightarrow> setup_inv evs s"
proof (induction rule: setup_run.induct)
  case setup_start
  then show ?case by (simp add: setup_inv_def new_setup_def invalidate_setup_def)
next
  case (setup_invalidate evs s)
  then show ?case by (auto intro: began_inv simp: invalidate_setup_def)
next
  case (setup_begin evs s args supported unscouted s' active)
  then show ?case using begin_setup_inv by fastforce
next
  case (setup_refused evs s args supported unscouted s' e)
  then show ?case using begin_setup_inv [OF setup_refused.IH setup_refused.hyps(2)] reject_inv by simp
qed (simp_all add: try_complete_inv reject_inv packet_inv)

text \<open>Property C33. Over any connections, packets and failures, the placements of a connection are
  resolved only when none of its packets was rejected, they were not resolved before, exactly the
  expected locations were placed, and no two packets disagreed about one.\<close>

theorem placements_resolved_once:
  assumes "setup_run (later @ Resolved # earlier) s"
  shows "Resolved \<notin> set (this_setup earlier) \<and> Rejected \<notin> set (this_setup earlier) \<and>
     (\<exists>expected. expected_of earlier = Some expected \<and> (\<forall>i. i \<in> expected \<longleftrightarrow> (\<exists>r. Placed i r \<in> set (this_setup earlier)))) \<and>
     (\<forall>i r r'. Placed i r \<in> set (this_setup earlier) \<longrightarrow> Placed i r' \<in> set (this_setup earlier) \<longrightarrow> same_rows r r')"
proof -
  have "resolutions_ok (later @ Resolved # earlier)" using run_setup_inv [OF assms] by (simp add: setup_inv_def)
  from resolutions_ok_split [OF this] show ?thesis unfolding complete_placements_def .
qed

definition sample_connected :: pydict where
  "sample_connected = [(''missing_locations'', PList [PInt 7]), (''checked_locations'', PList [])]"

definition sample_setup :: location_setup where
  "sample_setup = fst (begin_setup new_setup sample_connected {7} {})"

definition sample_packet :: pyval where
  "sample_packet = PDict [(''locations'', PList [PList [PInt 1, PInt 7, PInt 2, PInt 0]])]"

lemma sample_resolved:
  "setup_run [Resolved, Placed 7 [PInt 1, PInt 7, PInt 2, PInt 0], Began (Some {7}), Began None]
     (fst (on_location_info sample_setup sample_packet {7} True))"
proof -
  have "begin_setup new_setup sample_connected {7} {} = (sample_setup, Inr {7})"
    by (simp add: sample_setup_def begin_setup_def connected_ids_def sample_connected_def dget_def new_setup_def invalidate_setup_def Let_def)
  from setup_begin [OF setup_start this] have b: "setup_run [Began (Some {7}), Began None] sample_setup" .
  have "on_location_info sample_setup sample_packet {7} True =
      (fst (on_location_info sample_setup sample_packet {7} True), [Resolved, Placed 7 [PInt 1, PInt 7, PInt 2, PInt 0]])"
    by (simp add: sample_setup_def begin_setup_def connected_ids_def sample_connected_def sample_packet_def dget_def new_setup_def
        invalidate_setup_def on_location_info_def consume_info_def location_rows_def try_complete_def ready_to_resolve_def
        received_ids_def resolved_setup_def placed_def Let_def)
  from setup_packet [OF b this] show ?thesis by simp
qed

theorem placements_resolved_once_witness:
  "\<exists>expected. expected_of [Placed 7 [PInt 1, PInt 7, PInt 2, PInt 0], Began (Some {7}), Began None] = Some expected \<and>
     (\<forall>i. i \<in> expected \<longleftrightarrow> (\<exists>r. Placed i r \<in> set (this_setup [Placed 7 [PInt 1, PInt 7, PInt 2, PInt 0], Began (Some {7}), Began None])))"
  using placements_resolved_once [of "[]", simplified append_Nil, OF sample_resolved] by blast

end
