(* ===== verification/Checked_Visuals.thy ===== *)
theory Checked_Visuals
  imports Command_Identity Runtime_Context
begin

text \<open>
  Hiding the visuals of checked locations, \<open>doom_eap/runtime/checked_visuals.py\<close>: one command per location
  and attempt, with a growing pause between the attempts. Logging is left out; the command sender is a
  function on a world.
\<close>

section \<open>State\<close>

record visual =
  ve_location :: int
  ve_classification :: string
  ve_entity :: string

type_synonym visual_key = "string \<times> string \<times> string \<times> string" \<comment> \<open>epoch, room, map, location\<close>

record checked_visuals =
  vi_catalog :: "(string \<times> string) list"
  vi_visuals :: "(string \<times> (int \<times> visual) list) list"
  vi_session :: string
  vi_retry :: "(visual_key \<times> nat \<times> time) list" \<comment> \<open>attempts and deadline\<close>
  vi_status :: "(visual_key \<times> string) list"
  vi_epoch :: "string option"
  vi_observed :: "(string \<times> int) set"

text \<open>\<open>vc_key\<close> and \<open>vc_attempt\<close> are what the identifier is made of; they are not sent by themselves.\<close>

record visual_command =
  vc_text :: string
  vc_id :: string
  vc_state_key :: pyval
  vc_lease :: string
  vc_key :: visual_key
  vc_attempt :: nat

definition AUTOMAP_CLEANUP_RETRY_BASE_SECONDS :: time where
  "AUTOMAP_CLEANUP_RETRY_BASE_SECONDS = 1"

definition AUTOMAP_CLEANUP_RETRY_MAX_SECONDS :: time where
  "AUTOMAP_CLEANUP_RETRY_MAX_SECONDS = 8"

definition rebind_visuals :: "checked_visuals \<Rightarrow> checked_visuals" where
  "rebind_visuals s = s\<lparr>vi_epoch := None, vi_observed := {}\<rparr>"

definition new_visuals :: "(string \<times> string) list \<Rightarrow> (string \<times> (int \<times> visual) list) list \<Rightarrow> string \<Rightarrow> checked_visuals" where
  "new_visuals catalog visuals session =
     rebind_visuals \<lparr>vi_catalog = catalog, vi_visuals = visuals, vi_session = session, vi_retry = [], vi_status = [], vi_epoch = None,
       vi_observed = {}\<rparr>"

section \<open>Operations\<close>

definition visual_map_key :: "checked_visuals \<Rightarrow> pyval \<Rightarrow> string option" where
  "visual_map_key s runtime_map =
     (case filter (\<lambda>(k, v). PStr v = canonical_map_name runtime_map) (vi_catalog s) of [(k, v)] \<Rightarrow> Some k | _ \<Rightarrow> None)"

definition advance_visuals :: "checked_visuals \<Rightarrow> pyval \<Rightarrow> checked_visuals" where
  "advance_visuals s epoch =
     (let new = (case epoch of PStr e \<Rightarrow> if valid_materialization_epoch epoch then Some e else None | _ \<Rightarrow> None)
      in if vi_epoch s \<noteq> new then s\<lparr>vi_epoch := new, vi_retry := [], vi_status := [], vi_observed := {}\<rparr> else s)"

definition visual_transition :: "checked_visuals \<Rightarrow> visual_key \<Rightarrow> string \<Rightarrow> checked_visuals" where
  "visual_transition s key status = s\<lparr>vi_status := AList.update key status (vi_status s)\<rparr>"

definition retry_of :: "checked_visuals \<Rightarrow> visual_key \<Rightarrow> nat \<times> time" where
  "retry_of s key = (case map_of (vi_retry s) key of None \<Rightarrow> (0, 0) | Some r \<Rightarrow> r)"

definition visual_command_id :: "string \<Rightarrow> visual_key \<Rightarrow> int \<Rightarrow> nat \<Rightarrow> string res" where
  "visual_command_id session key location attempt =
     (case key of (epoch, room, map_name, _) \<Rightarrow>
       stable_spool_id ''automap-cleanup'' [PStr session, PStr room, PStr map_name, PInt location, PStr epoch, PInt (int attempt)])"

text \<open>The pause after an attempt, by the number of attempts before it and whether it was queued.\<close>

definition visual_pause :: "nat \<Rightarrow> bool \<Rightarrow> time" where
  "visual_pause attempt queued =
     (if queued then AUTOMAP_CLEANUP_RETRY_MAX_SECONDS
      else min AUTOMAP_CLEANUP_RETRY_MAX_SECONDS (AUTOMAP_CLEANUP_RETRY_BASE_SECONDS * 2 ^ min attempt 3))"

definition repair_visual :: "('w \<Rightarrow> visual_command \<Rightarrow> 'w \<times> bool) \<Rightarrow> time \<Rightarrow> pyval \<Rightarrow> string \<times> string \<times> string
    \<Rightarrow> checked_visuals \<times> 'w \<Rightarrow> visual \<Rightarrow> (checked_visuals \<times> 'w) \<times> bool res" where
  "repair_visual send now state_key place sw entry =
     (case (sw, place) of ((s, w), (epoch, room, map_name)) \<Rightarrow>
       let key = (epoch, room, map_name, str_int (ve_location entry));
           attempt = fst (retry_of s key);
           s1 = s\<lparr>vi_retry := AList.update key (retry_of s key) (vi_retry s)\<rparr>
       in if now < snd (retry_of s key) then ((visual_transition s1 key ''RETRY_WAIT'', w), Inr False)
          else case visual_command_id (vi_session s) key (ve_location entry) attempt of
            Inl e \<Rightarrow> ((s1, w), Inl e)
          | Inr cid \<Rightarrow>
             (case send w \<lparr>vc_text = ''ai_ScriptCmdEnt '' @ ve_entity entry @ '' activate player1'', vc_id = cid, vc_state_key = state_key,
                 vc_lease = epoch, vc_key = key, vc_attempt = attempt\<rparr> of
                (w', queued) \<Rightarrow>
                  ((visual_transition (s1\<lparr>vi_retry := AList.update key (attempt + 1, now + visual_pause attempt queued) (vi_retry s1)\<rparr>)
                     key (if queued then ''REPAIR_QUEUED'' else ''RETRY''), w'), Inr queued)))"

fun repair_visuals :: "('w \<Rightarrow> visual_command \<Rightarrow> 'w \<times> bool) \<Rightarrow> time \<Rightarrow> pyval \<Rightarrow> string \<times> string \<times> string
    \<Rightarrow> checked_visuals \<times> 'w \<Rightarrow> bool \<Rightarrow> visual list \<Rightarrow> (checked_visuals \<times> 'w) \<times> bool res" where
  "repair_visuals send now state_key place sw changed [] = (sw, Inr changed)"
| "repair_visuals send now state_key place sw changed (entry # entries) =
     (case repair_visual send now state_key place sw entry of
        (sw1, Inl e) \<Rightarrow> (sw1, Inl e)
      | (sw1, Inr queued) \<Rightarrow> repair_visuals send now state_key place sw1 (changed \<or> queued) entries)"

definition visual_epoch :: "pydict option \<Rightarrow> pyval" where
  "visual_epoch marker = (case marker of None \<Rightarrow> PNone | Some m \<Rightarrow> dget m ''gameplay_epoch'')"

definition visible_entries :: "checked_visuals \<Rightarrow> string option \<Rightarrow> visual list" where
  "visible_entries s map_key =
     (case map_of (vi_visuals s) (case map_key of None \<Rightarrow> [] | Some k \<Rightarrow> k) of
        None \<Rightarrow> [] | Some visuals \<Rightarrow> filter (\<lambda>entry. ve_classification entry = ''visible_cleanup'') (map snd visuals))"

text \<open>The epoch and the map of a marker that agrees with the current map and the catalog.\<close>

definition marker_place :: "checked_visuals \<Rightarrow> pydict option \<Rightarrow> string option \<Rightarrow> (string \<times> string \<times> string option) option" where
  "marker_place s marker current_map =
     (case (marker, visual_epoch marker) of
        (Some m, PStr epoch) \<Rightarrow>
         (let marker_map = canonical_map_name (dget_or m ''runtime_map'' (PStr []));
              current = canonical_map_name (PStr (case current_map of None \<Rightarrow> [] | Some name \<Rightarrow> name));
              map_key = visual_map_key s marker_map
          in if \<not> valid_materialization_epoch (PStr epoch) \<or> vi_epoch s \<noteq> Some epoch then None
             else if \<not> truthy marker_map \<or> \<not> truthy current \<or> marker_map \<noteq> current then None
             else if dget m ''map_key'' \<noteq> (case map_key of None \<Rightarrow> PNone | Some k \<Rightarrow> PStr k) then None
             else case current of PStr name \<Rightarrow> Some (epoch, name, map_key) | _ \<Rightarrow> None)
      | _ \<Rightarrow> None)"

text \<open>\<open>reconcile\<close>; \<open>checked\<close> is \<open>None\<close> when the checked locations are not a collection or not ready.\<close>

definition reconcile_visuals :: "('w \<Rightarrow> visual_command \<Rightarrow> 'w \<times> bool) \<Rightarrow> time \<Rightarrow> pyval \<Rightarrow> checked_visuals \<times> 'w \<Rightarrow> pydict option
    \<Rightarrow> string option \<Rightarrow> string option \<Rightarrow> int set option \<Rightarrow> bool \<Rightarrow> bool \<Rightarrow> (checked_visuals \<times> 'w) \<times> bool res" where
  "reconcile_visuals send now state_key sw marker current_map room checked runtime_ready rpc_ready =
     (case sw of (s0, w) \<Rightarrow>
       let s = advance_visuals s0 (visual_epoch marker)
       in if \<not> runtime_ready then ((s, w), Inr False)
          else case marker_place s marker current_map of
            None \<Rightarrow> ((s, w), Inr False)
          | Some (epoch, map_name, map_key) \<Rightarrow>
             (let entries = visible_entries s map_key;
                  pending = (\<lambda>room. ((visual_transition s (epoch, room, map_name, []) ''PENDING'', w), Inr False))
              in if entries = [] then ((s, w), Inr False)
                 else if room = None \<or> room = Some [] then pending []
                 else if checked = None \<or> \<not> rpc_ready then pending (the room)
                 else repair_visuals send now state_key (epoch, the room, map_name) (s, w) False
                   (filter (\<lambda>entry. ve_location entry \<in> the checked) (sort_key ve_location entries))))"

definition record_local_ownership :: "checked_visuals \<Rightarrow> int \<Rightarrow> pydict option \<Rightarrow> string option \<Rightarrow> int \<Rightarrow> checked_visuals \<times> bool" where
  "record_local_ownership s location marker room event_mtime =
     (case (marker, visual_epoch marker) of
        (Some m, PStr epoch) \<Rightarrow>
         (let runtime_map = dget_or m ''runtime_map'' (PStr []);
              map_key = visual_map_key s runtime_map;
              entry = (case map_of (vi_visuals s) (case map_key of None \<Rightarrow> [] | Some k \<Rightarrow> k) of
                         None \<Rightarrow> None | Some visuals \<Rightarrow> map_of visuals location)
          in if dget m ''map_key'' \<noteq> (case map_key of None \<Rightarrow> PNone | Some k \<Rightarrow> PStr k) then (s, False)
             else case entry of
               None \<Rightarrow> (s, False)
             | Some e \<Rightarrow>
                (if \<not> valid_materialization_epoch (PStr epoch) \<or> ve_classification e \<noteq> ''visible_cleanup''
                    \<or> event_mtime < the_int (dget_or m ''mtime_ns'' (PInt 0)) then (s, False)
                 else (visual_transition (s\<lparr>vi_observed := insert (epoch, location) (vi_observed s)\<rparr>)
                    (epoch, (case room of None \<Rightarrow> [] | Some r \<Rightarrow> r), py_str runtime_map, str_int location) ''LOCAL_CHECK_OBSERVED'', True)))
      | _ \<Rightarrow> (s, False))"

section \<open>Every location is repaired at a bounded rate\<close>

datatype visual_event = VSent visual_command time bool | VCleared

definition logging_send :: "time \<Rightarrow> (visual_command \<Rightarrow> bool) \<Rightarrow> visual_event list \<Rightarrow> visual_command \<Rightarrow> visual_event list \<times> bool" where
  "logging_send now decide evs command = (VSent command now (decide command) # evs, decide command)"

definition cleared :: "checked_visuals \<Rightarrow> pyval \<Rightarrow> visual_event list \<Rightarrow> visual_event list" where
  "cleared s epoch evs = (if vi_epoch (advance_visuals s epoch) \<noteq> vi_epoch s then VCleared # evs else evs)"

text \<open>The log has the latest event first; a sender may refuse any command.\<close>

inductive visual_run :: "visual_event list \<Rightarrow> checked_visuals \<Rightarrow> bool" where
  visual_begin: "visual_run [] (new_visuals catalog visuals session)"
| visual_rebind: "visual_run evs s \<Longrightarrow> visual_run evs (rebind_visuals s)"
| visual_advance: "visual_run evs s \<Longrightarrow> visual_run (cleared s epoch evs) (advance_visuals s epoch)"
| visual_local: "visual_run evs s \<Longrightarrow> visual_run evs (fst (record_local_ownership s location marker room event_mtime))"
| visual_reconcile: "visual_run evs s \<Longrightarrow>
    reconcile_visuals (logging_send now decide) now state_key (s, cleared s (visual_epoch marker) evs) marker current_map room checked
      runtime_ready rpc_ready = ((s', evs'), result) \<Longrightarrow> visual_run evs' s'"

fun sends_of :: "visual_key \<Rightarrow> visual_event list \<Rightarrow> (nat \<times> time \<times> bool) list" where
  "sends_of key [] = []"
| "sends_of key (VCleared # evs) = []"
| "sends_of key (VSent c t ok # evs) = (if vc_key c = key then (vc_attempt c, t, ok) # sends_of key evs else sends_of key evs)"

text \<open>The attempts at one location are numbered in order and each waits for the pause of the one before.\<close>

fun paced :: "(nat \<times> time \<times> bool) list \<Rightarrow> bool" where
  "paced [] = True"
| "paced [(a, t, ok)] = (a = 0)"
| "paced ((a, t, ok) # (a', t', ok') # rest) = (a = Suc a' \<and> t' + visual_pause a' ok' \<le> t \<and> paced ((a', t', ok') # rest))"

definition retry_matches :: "checked_visuals \<Rightarrow> visual_event list \<Rightarrow> bool" where
  "retry_matches s evs \<longleftrightarrow> (\<forall>key. paced (sends_of key evs) \<and>
     retry_of s key = (case sends_of key evs of [] \<Rightarrow> (0, 0) | (a, t, ok) # _ \<Rightarrow> (Suc a, t + visual_pause a ok)))"

lemma retry_matchesD:
  assumes "retry_matches s evs"
  shows "paced (sends_of key evs)"
    and "retry_of s key = (case sends_of key evs of [] \<Rightarrow> (0, 0) | (a, t, ok) # _ \<Rightarrow> (Suc a, t + visual_pause a ok))"
  using assms unfolding retry_matches_def by blast+

lemma retry_matches_cong: "retry_matches s evs \<Longrightarrow> retry_of s' = retry_of s \<Longrightarrow> retry_matches s' evs"
  unfolding retry_matches_def by simp

lemma retry_of_simps [simp]:
  "retry_of (visual_transition s key status) key' = retry_of s key'"
  "retry_of (s\<lparr>vi_retry := AList.update key r (vi_retry s)\<rparr>) key' = (if key' = key then r else retry_of s key')"
  "retry_of (rebind_visuals s) key' = retry_of s key'"
  "retry_of (s\<lparr>vi_observed := x\<rparr>) key' = retry_of s key'"
  by (simp_all add: retry_of_def visual_transition_def rebind_visuals_def map_of_update)

lemma advance_matches: "retry_matches s evs \<Longrightarrow> retry_matches (advance_visuals s epoch) (cleared s epoch evs)"
  by (auto simp: advance_visuals_def cleared_def retry_matches_def retry_of_def Let_def)

lemma repair_visual_cases:
  assumes r: "repair_visual send now state_key (epoch, room, map_name) (s, w) entry = ((s', w'), result)"
    and key: "key = (epoch, room, map_name, str_int (ve_location entry))"
  obtains (idle) "w' = w" "retry_of s' = retry_of s"
  | (sent) command queued where "vc_key command = key" "vc_attempt command = fst (retry_of s key)" "send w command = (w', queued)"
      "snd (retry_of s key) \<le> now"
      "retry_of s' = (retry_of s)(key := (fst (retry_of s key) + 1, now + visual_pause (fst (retry_of s key)) queued))"
proof (cases "now < snd (retry_of s key)")
  case True
  then show thesis using r idle by (auto simp: repair_visual_def key fun_eq_iff Let_def)
next
  case late: False
  show thesis
  proof (cases "visual_command_id (vi_session s) key (ve_location entry) (fst (retry_of s key))")
    case (Inl e)
    then show thesis using r late idle by (auto simp: repair_visual_def key fun_eq_iff Let_def)
  next
    case (Inr cid)
    then show thesis using r late by (auto simp: repair_visual_def key fun_eq_iff Let_def not_less split: prod.splits intro!: sent)
  qed
qed

lemma repair_matches:
  assumes m: "retry_matches s evs" and r: "repair_visual (logging_send now decide) now state_key place (s, evs) entry = ((s', evs'), result)"
  shows "retry_matches s' evs'"
proof -
  obtain epoch room map_name where place: "place = (epoch, room, map_name)" by (cases place)
  define key where "key = (epoch, room, map_name, str_int (ve_location entry))"
  from r [unfolded place] key_def show ?thesis
  proof (cases rule: repair_visual_cases)
    case idle
    then show ?thesis using m by (simp add: retry_matches_def)
  next
    case (sent command queued)
    then have c: "evs' = VSent command now queued # evs" by (auto simp: logging_send_def)
    have "paced (sends_of k evs') \<and> retry_of s' k = (case sends_of k evs' of [] \<Rightarrow> (0, 0) | (a, t, ok) # _ \<Rightarrow> (Suc a, t + visual_pause a ok))" for k
    proof (cases "k = key")
      case True
      have "paced (sends_of key evs)" "retry_of s key = (case sends_of key evs of [] \<Rightarrow> (0, 0) | (a, t, ok) # _ \<Rightarrow> (Suc a, t + visual_pause a ok))"
        using retry_matchesD [OF m] by blast+
      then show ?thesis using sent by (cases "sends_of key evs") (auto simp: True c)
    next
      case False
      then show ?thesis using retry_matchesD [OF m, of k] sent by (simp add: c)
    qed
    then show ?thesis unfolding retry_matches_def by blast
  qed
qed

lemma repairs_match:
  assumes "retry_matches s evs" and "repair_visuals (logging_send now decide) now state_key place (s, evs) changed entries = ((s', evs'), result)"
  shows "retry_matches s' evs'"
  using assms
proof (induction entries arbitrary: s evs changed)
  case (Cons entry entries)
  obtain s1 evs1 r where r: "repair_visual (logging_send now decide) now state_key place (s, evs) entry = ((s1, evs1), r)" by (metis surj_pair)
  have "retry_matches s1 evs1" by (rule repair_matches [OF Cons.prems(1) r])
  then show ?case using Cons.prems(2) Cons.IH by (auto simp: r split: sum.splits)
qed simp

lemma reconcile_matches:
  assumes m: "retry_matches s evs" and r: "reconcile_visuals (logging_send now decide) now state_key (s, cleared s (visual_epoch marker) evs)
    marker current_map room checked runtime_ready rpc_ready = ((s', evs'), result)"
  shows "retry_matches s' evs'"
proof -
  have step: "retry_matches (advance_visuals s (visual_epoch marker)) (cleared s (visual_epoch marker) evs)" by (rule advance_matches [OF m])
  have pending: "retry_matches (visual_transition (advance_visuals s (visual_epoch marker)) key status) (cleared s (visual_epoch marker) evs)" for key status
    using step by (simp add: retry_matches_def)
  show ?thesis using r step pending repairs_match [OF step]
    by (auto simp: reconcile_visuals_def Let_def split: if_splits option.splits prod.splits)
qed

lemma visual_run_matches: "visual_run evs s \<Longrightarrow> retry_matches s evs"
proof (induction rule: visual_run.induct)
  case (visual_begin catalog visuals session)
  then show ?case by (simp add: retry_matches_def new_visuals_def) (simp add: retry_of_def)
next
  case (visual_local evs s location marker room event_mtime)
  then show ?case
    by (auto simp: record_local_ownership_def retry_matches_def Let_def split: option.splits pyval.splits if_splits)
next
  case (visual_reconcile evs s now decide state_key marker current_map room checked runtime_ready rpc_ready s' evs' result)
  then show ?case by (blast intro: reconcile_matches)
qed (simp_all add: advance_matches, simp add: retry_matches_def)

lemma paced_attempts: "paced xs \<Longrightarrow> map fst xs = rev [0..<length xs]"
  by (induction xs rule: paced.induct) auto

lemma paced_pause: "paced xs \<Longrightarrow> Suc i < length xs \<Longrightarrow>
    (case xs ! Suc i of (a, t, ok) \<Rightarrow> t + visual_pause a ok) \<le> fst (snd (xs ! i))"
proof (induction xs arbitrary: i rule: paced.induct)
  case (3 a t ok a' t' ok' rest)
  then show ?case by (cases i) auto
qed auto


lemma visual_command_id_ok: "\<exists>cid. visual_command_id session key location attempt = Inr cid"
proof -
  obtain epoch room map_name l where key: "key = (epoch, room, map_name, l)" by (metis prod_cases4)
  have "validate_spool_id (PStr ''automap-cleanup'') = Inr ''automap-cleanup''" "length (utf8 ''automap-cleanup'') \<le> 107" by code_simp+
  from stable_spool_id_valid_id [OF this] show ?thesis unfolding visual_command_id_def key by fastforce
qed

definition sample_visual_marker :: pydict where
  "sample_visual_marker = [(''gameplay_epoch'', PStr ''1:2''), (''runtime_map'', PStr ''game/sp/e1''), (''map_key'', PStr ''e1'')]"

definition sample_visuals :: "string option \<Rightarrow> (visual_key \<times> nat \<times> time) list \<Rightarrow> (visual_key \<times> string) list \<Rightarrow> checked_visuals" where
  "sample_visuals epoch retry status = \<lparr>vi_catalog = [(''e1'', ''game/sp/e1'')],
     vi_visuals = [(''e1'', [(7, \<lparr>ve_location = 7, ve_classification = ''visible_cleanup'', ve_entity = ''door''\<rparr>)])],
     vi_session = ''session'', vi_retry = retry, vi_status = status, vi_epoch = epoch, vi_observed = {}\<rparr>"

definition sample_visual_key :: visual_key where
  "sample_visual_key = (''1:2'', ''room'', ''game/sp/e1'', ''7'')"

lemma sample_visual_step:
  assumes due: "snd (retry_of (sample_visuals (Some ''1:2'') retry status) sample_visual_key) \<le> now"
    and adv: "advance_visuals s (PStr ''1:2'') = sample_visuals (Some ''1:2'') retry status"
  shows "\<exists>command status'. vc_key command = sample_visual_key \<and>
    reconcile_visuals (logging_send now (\<lambda>_. False)) now PNone (s, evs) (Some sample_visual_marker) (Some ''game/sp/e1'') (Some ''room'') (Some {7}) True True =
      ((sample_visuals (Some ''1:2'') (AList.update sample_visual_key (fst (retry_of (sample_visuals (Some ''1:2'') retry status) sample_visual_key) + 1,
          now + visual_pause (fst (retry_of (sample_visuals (Some ''1:2'') retry status) sample_visual_key)) False)
          (AList.update sample_visual_key (retry_of (sample_visuals (Some ''1:2'') retry status) sample_visual_key) retry)) status',
        VSent command now False # evs), Inr False)"
proof -
  let ?s = "sample_visuals (Some ''1:2'') retry status"
  have epoch: "valid_materialization_epoch (PStr ''1:2'')" and name: "canonical_map_name (PStr ''game/sp/e1'') = PStr ''game/sp/e1''" by code_simp+
  have e: "visual_epoch (Some sample_visual_marker) = PStr ''1:2''" by (simp add: visual_epoch_def sample_visual_marker_def dget_def)
  have key: "visual_map_key ?s (PStr ''game/sp/e1'') = Some ''e1''" by (simp add: visual_map_key_def sample_visuals_def name)
  have place: "marker_place ?s (Some sample_visual_marker) (Some ''game/sp/e1'') = Some (''1:2'', ''game/sp/e1'', Some ''e1'')"
  proof -
    have "dget_or sample_visual_marker ''runtime_map'' (PStr []) = PStr ''game/sp/e1''" "dget sample_visual_marker ''map_key'' = PStr ''e1''"
      by (simp_all add: sample_visual_marker_def dget_def dget_or_def)
    moreover have "vi_epoch ?s = Some ''1:2''" by (simp add: sample_visuals_def)
    ultimately show ?thesis unfolding marker_place_def e using epoch key by (simp add: name Let_def)
  qed
  have entries: "visible_entries ?s (Some ''e1'') = [\<lparr>ve_location = 7, ve_classification = ''visible_cleanup'', ve_entity = ''door''\<rparr>]"
    by (simp add: visible_entries_def sample_visuals_def)
  have seven: "str_int 7 = ''7''" by (simp add: str_int_def str_nat.simps digit_char_def)
  obtain cid where cid: "visual_command_id (vi_session ?s) sample_visual_key 7 (fst (retry_of ?s sample_visual_key)) = Inr cid"
    using visual_command_id_ok by blast
  show ?thesis unfolding reconcile_visuals_def e split Let_def adv place option.case
    using due cid
    by (simp add: entries repair_visual_def seven sample_visual_key_def [symmetric] logging_send_def Let_def)
      (simp add: sample_visuals_def visual_transition_def)
qed

lemma sample_visual_run: "\<exists>evs s. visual_run evs s \<and> length (sends_of sample_visual_key evs) = 2"
proof -
  let ?s0 = "new_visuals (vi_catalog (sample_visuals None [] [])) (vi_visuals (sample_visuals None [] [])) ''session''"
  have e: "visual_epoch (Some sample_visual_marker) = PStr ''1:2''" by (simp add: visual_epoch_def sample_visual_marker_def dget_def)
  have epoch: "valid_materialization_epoch (PStr ''1:2'')" by code_simp
  have adv: "advance_visuals ?s0 (PStr ''1:2'') = sample_visuals (Some ''1:2'') [] []"
    using epoch by (simp add: advance_visuals_def new_visuals_def rebind_visuals_def sample_visuals_def)
  have same: "advance_visuals (sample_visuals (Some ''1:2'') retry status) (PStr ''1:2'') = sample_visuals (Some ''1:2'') retry status" for retry status
    using epoch by (simp add: advance_visuals_def sample_visuals_def)
  have r0: "retry_of (sample_visuals (Some ''1:2'') [] []) sample_visual_key = (0, 0)" by (simp add: retry_of_def sample_visuals_def)
  obtain c1 st1 where c1: "vc_key c1 = sample_visual_key" and step1: "reconcile_visuals (logging_send 0 (\<lambda>_. False)) 0 PNone
      (?s0, cleared ?s0 (PStr ''1:2'') []) (Some sample_visual_marker) (Some ''game/sp/e1'') (Some ''room'') (Some {7}) True True =
      ((sample_visuals (Some ''1:2'') [(sample_visual_key, 1, 1)] st1, VSent c1 0 False # cleared ?s0 (PStr ''1:2'') []), Inr False)"
    using sample_visual_step [OF _ adv, of 0 "cleared ?s0 (PStr ''1:2'') []"] unfolding r0
    by (auto simp: visual_pause_def AUTOMAP_CLEANUP_RETRY_BASE_SECONDS_def AUTOMAP_CLEANUP_RETRY_MAX_SECONDS_def)
  let ?s1 = "sample_visuals (Some ''1:2'') [(sample_visual_key, 1, 1)] st1"
  have run1: "visual_run (VSent c1 0 False # cleared ?s0 (PStr ''1:2'') []) ?s1"
    using visual_reconcile [OF visual_begin, where marker = "Some sample_visual_marker", unfolded e, OF step1] .
  have r1: "retry_of ?s1 sample_visual_key = (1, 1)" by (simp add: retry_of_def sample_visuals_def)
  have no_clear: "cleared ?s1 (PStr ''1:2'') evs = evs" for evs by (simp add: cleared_def same)
  obtain c2 s2 where c2: "vc_key c2 = sample_visual_key" and step2: "reconcile_visuals (logging_send 1 (\<lambda>_. False)) 1 PNone
      (?s1, VSent c1 0 False # cleared ?s0 (PStr ''1:2'') []) (Some sample_visual_marker) (Some ''game/sp/e1'') (Some ''room'') (Some {7}) True True =
      ((s2, VSent c2 1 False # VSent c1 0 False # cleared ?s0 (PStr ''1:2'') []), Inr False)"
    using sample_visual_step [OF _ same, of "[(sample_visual_key, 1, 1)]" st1 1 "VSent c1 0 False # cleared ?s0 (PStr ''1:2'') []"] unfolding r1
    by auto
  have "visual_run (VSent c2 1 False # VSent c1 0 False # cleared ?s0 (PStr ''1:2'') []) s2"
    using visual_reconcile [OF run1, where marker = "Some sample_visual_marker", unfolded e no_clear, OF step2] .
  moreover have "cleared ?s0 (PStr ''1:2'') [] = [VCleared]"
    using adv by (simp add: cleared_def new_visuals_def rebind_visuals_def) (simp add: sample_visuals_def)
  ultimately show ?thesis using c1 c2 by fastforce
qed


end
