(* ===== verification/Bridge_Supervisor.thy ===== *)
theory Bridge_Supervisor
  imports Delivery_Plan
begin

text \<open>
  The supervisor of the bridge process, \<open>doom_eap/launcher/launcher_supervisor.py\<close>: starting one
  worker per profile, reading its events, and the threads that watch and stop it. Each thread advances
  in the steps between which another thread may run; processes live and die outside. Log lines and the
  environment of the worker are left out, \<open>redact\<close> is \<open>redact_secrets\<close> of the platform module.
\<close>

section \<open>Supervisor\<close>

datatype bridge_state = STOPPED | STARTING | CONNECTING | CONNECTED | DISCONNECTED | STOPPING | FAILED

record supervisor =
  su_profile :: string
  su_state :: bridge_state
  su_error :: "(string \<times> string) option" \<comment> \<open>code and message\<close>
  su_process :: "nat option"
  su_intentional :: bool
  su_emit :: bool
  su_failed :: bool
  su_stopped :: bool

definition new_supervisor :: "string \<Rightarrow> supervisor" where
  "new_supervisor profile = \<lparr>su_profile = profile, su_state = STOPPED, su_error = None, su_process = None, su_intentional = False,
     su_emit = True, su_failed = False, su_stopped = False\<rparr>"

definition failure_event :: "string \<times> string \<Rightarrow> pydict" where
  "failure_event error = [(''type'', PStr ''setup_failed''), (''code'', PStr (fst error)), (''message'', PStr (snd error))]"

definition room_stopped :: string where
  "room_stopped = ''Room connection stopped. Retry, then select Help -> SAVE SUPPORT REPORT.''"

section \<open>Events of the worker\<close>

definition accept_event :: "(string \<Rightarrow> string) \<Rightarrow> supervisor \<Rightarrow> pydict \<Rightarrow> supervisor \<times> pydict" where
  "accept_event redact s event =
     (let kind = dget event ''type''
      in if kind = PStr ''client_started'' then (s\<lparr>su_state := STARTING\<rparr>, event)
         else if kind = PStr ''connecting'' then (s\<lparr>su_state := CONNECTING\<rparr>, event)
         else if kind = PStr ''connected'' then (s\<lparr>su_state := CONNECTED\<rparr>, event)
         else if kind = PStr ''disconnected'' then (s\<lparr>su_state := DISCONNECTED\<rparr>, event)
         else if kind = PStr ''error'' then
           (let code = py_str (dget_or event ''code'' (PStr ''bridge_error''));
                message = redact (py_str (dget_or event ''message'' (PStr ''Room connection failed. Retry, then select Help -> SAVE SUPPORT REPORT.'')))
            in (s\<lparr>su_state := FAILED, su_failed := True, su_error := Some (code, message)\<rparr>,
                dmerge event [(''code'', PStr code), (''message'', PStr message)]))
         else if kind = PStr ''client_stopping'' then (s\<lparr>su_state := STOPPING\<rparr>, event)
         else (s, event))"

text \<open>An event line; the argument is what \<open>json.loads\<close> returns for it or the text of its error.\<close>

definition read_event :: "(string \<Rightarrow> string) \<Rightarrow> supervisor \<Rightarrow> string + pyval \<Rightarrow> supervisor \<times> pydict" where
  "read_event redact s parsed =
     (let invalid = (\<lambda>reason. let error = (''invalid_bridge_event'', redact reason)
            in (s\<lparr>su_error := Some error, su_state := FAILED, su_failed := True\<rparr>, failure_event error))
      in case parsed of Inl reason \<Rightarrow> invalid reason
         | Inr (PDict event) \<Rightarrow> accept_event redact s event
         | Inr _ \<Rightarrow> invalid room_stopped)"

section \<open>Steps of the threads\<close>

datatype watch_phase = Waiting | Discarded int | Watched int bool bool \<comment> \<open>return code, \<open>intentional_stop\<close>, \<open>emit_disconnected\<close>\<close>

record watcher =
  wa_owner :: nat
  wa_process :: nat
  wa_phase :: watch_phase

record launcher =
  la_profiles :: "string set"
  la_supervisors :: "nat \<Rightarrow> supervisor"
  la_alive :: "nat set"
  la_starting :: "nat list" \<comment> \<open>supervisors between the claim of their profile and the process\<close>
  la_watchers :: "watcher list"
  la_next :: nat
  la_events :: "(nat \<times> pydict) list"

definition running :: "launcher \<Rightarrow> nat \<Rightarrow> bool" where
  "running w i = (case su_process (la_supervisors w i) of None \<Rightarrow> False | Some p \<Rightarrow> p \<in> la_alive w)"

definition with_supervisor :: "launcher \<Rightarrow> nat \<Rightarrow> supervisor \<Rightarrow> launcher" where
  "with_supervisor w i s = w\<lparr>la_supervisors := (la_supervisors w)(i := s)\<rparr>"

text \<open>\<open>start\<close> up to the process, and the process or the failure to create it.\<close>

definition begin_start :: "launcher \<Rightarrow> nat \<Rightarrow> launcher \<times> unit res" where
  "begin_start w i =
     (let s = la_supervisors w i
      in if running w i then (w, Inl (RuntimeError ''Room connection is already running.''))
         else if su_profile s \<in> la_profiles w
         then (w, Inl (RuntimeError ''This player already has a room connection. Close the other launcher before retrying.''))
         else (with_supervisor (w\<lparr>la_profiles := insert (su_profile s) (la_profiles w), la_starting := i # la_starting w\<rparr>) i
                 (s\<lparr>su_intentional := False, su_emit := True, su_failed := False, su_stopped := False, su_state := STARTING\<rparr>), Inr ()))"

definition spawn :: "launcher \<Rightarrow> nat \<Rightarrow> launcher" where
  "spawn w i =
     (let p = la_next w
      in with_supervisor (w\<lparr>la_starting := remove1 i (la_starting w), la_alive := insert p (la_alive w), la_next := p + 1,
           la_watchers := \<lparr>wa_owner = i, wa_process = p, wa_phase = Waiting\<rparr> # la_watchers w\<rparr>) i
         ((la_supervisors w i)\<lparr>su_process := Some p\<rparr>))"

definition spawn_failed :: "launcher \<Rightarrow> nat \<Rightarrow> launcher" where
  "spawn_failed w i =
     with_supervisor (w\<lparr>la_starting := remove1 i (la_starting w), la_profiles := la_profiles w - {su_profile (la_supervisors w i)}\<rparr>) i
       ((la_supervisors w i)\<lparr>su_state := FAILED\<rparr>)"

text \<open>\<open>_watch_process\<close>: the profile is released, then the flags are read, then the end is reported.\<close>

definition watch_step :: "launcher \<Rightarrow> nat \<Rightarrow> int \<Rightarrow> launcher" where
  "watch_step w k code =
     (let x = la_watchers w ! k; i = wa_owner x; s = la_supervisors w i
      in case wa_phase x of
           Waiting \<Rightarrow> w\<lparr>la_profiles := la_profiles w - {su_profile s}, la_watchers := (la_watchers w)[k := x\<lparr>wa_phase := Discarded code\<rparr>]\<rparr>
         | Discarded code' \<Rightarrow> w\<lparr>la_watchers := (la_watchers w)[k := x\<lparr>wa_phase := Watched code' (su_intentional s) (su_emit s)\<rparr>]\<rparr>
         | Watched code' intentional emit \<Rightarrow>
            (let stopped = [(''type'', PStr ''worker_stopped''), (''intentional'', PBool intentional), (''returncode'', PInt code')];
                 w1 = w\<lparr>la_watchers := take k (la_watchers w) @ drop (Suc k) (la_watchers w)\<rparr>
             in if intentional
                then with_supervisor (w1\<lparr>la_events := (i, stopped) #
                       (if emit then [(i, [(''type'', PStr ''disconnected''), (''intentional'', PBool True)])] else []) @ la_events w\<rparr>) i
                     (s\<lparr>su_state := STOPPED, su_stopped := True\<rparr>)
                else with_supervisor (w1\<lparr>la_events := (i, stopped) #
                       (if su_failed s then [] else [(i, failure_event (''bridge_exited'', room_stopped))]) @ la_events w\<rparr>) i
                     (s\<lparr>su_error := Some (''bridge_exited'', room_stopped), su_state := FAILED, su_failed := True, su_stopped := True\<rparr>)))"

definition request_stop :: "launcher \<Rightarrow> nat \<Rightarrow> bool \<Rightarrow> launcher" where
  "request_stop w i emit =
     (let s = la_supervisors w i
      in if \<not> running w i \<or> su_intentional s then w
         else with_supervisor w i (s\<lparr>su_intentional := True, su_emit := emit, su_state := STOPPING\<rparr>))"

definition deliver_event :: "(string \<Rightarrow> string) \<Rightarrow> launcher \<Rightarrow> nat \<Rightarrow> string + pyval \<Rightarrow> launcher" where
  "deliver_event redact w i parsed =
     (case read_event redact (la_supervisors w i) parsed of (s, event) \<Rightarrow> with_supervisor (w\<lparr>la_events := (i, event) # la_events w\<rparr>) i s)"

section \<open>One worker per profile\<close>

text \<open>Any interleaving of the launcher's calls, its threads and the processes; a stopped process is
  what the stopping thread and the operating system may cause at any time.\<close>

inductive launcher_run :: "launcher \<Rightarrow> bool" where
  launcher_begin: "launcher_run \<lparr>la_profiles = {}, la_supervisors = (\<lambda>i. new_supervisor (profile i)), la_alive = {}, la_starting = [],
     la_watchers = [], la_next = 0, la_events = []\<rparr>"
| launcher_start: "launcher_run w \<Longrightarrow> launcher_run (fst (begin_start w i))"
| launcher_spawn: "launcher_run w \<Longrightarrow> i \<in> set (la_starting w) \<Longrightarrow> launcher_run (spawn w i)"
| launcher_spawn_failed: "launcher_run w \<Longrightarrow> i \<in> set (la_starting w) \<Longrightarrow> launcher_run (spawn_failed w i)"
| launcher_exit: "launcher_run w \<Longrightarrow> launcher_run (w\<lparr>la_alive := la_alive w - {p}\<rparr>)"
| launcher_watch: "launcher_run w \<Longrightarrow> k < length (la_watchers w) \<Longrightarrow> wa_process (la_watchers w ! k) \<notin> la_alive w \<Longrightarrow>
    launcher_run (watch_step w k code)"
| launcher_stop: "launcher_run w \<Longrightarrow> launcher_run (request_stop w i emit)"
| launcher_event: "launcher_run w \<Longrightarrow> launcher_run (deliver_event redact w i parsed)"

definition profile_of :: "launcher \<Rightarrow> nat \<Rightarrow> string" where
  "profile_of w i = su_profile (la_supervisors w i)"

definition waiting :: "launcher \<Rightarrow> watcher list" where
  "waiting w = filter (\<lambda>x. wa_phase x = Waiting) (la_watchers w)"

text \<open>Who holds a profile: the starting supervisors and those whose watcher still waits.\<close>

definition claims :: "launcher \<Rightarrow> string list" where
  "claims w = map (profile_of w) (la_starting w @ map wa_owner (waiting w))"

definition launcher_inv :: "launcher \<Rightarrow> bool" where
  "launcher_inv w \<longleftrightarrow> distinct (claims w) \<and> set (claims w) = la_profiles w \<and> la_alive w \<subseteq> wa_process ` set (waiting w)"

lemma supervisor_fields [simp]:
  "la_profiles (with_supervisor w i s) = la_profiles w" "la_alive (with_supervisor w i s) = la_alive w"
  "la_starting (with_supervisor w i s) = la_starting w" "waiting (with_supervisor w i s) = waiting w"
  "waiting (w\<lparr>la_alive := a\<rparr>) = waiting w" "waiting (w\<lparr>la_profiles := ps\<rparr>) = waiting w"
  "waiting (w\<lparr>la_starting := starting\<rparr>) = waiting w" "waiting (w\<lparr>la_events := evs\<rparr>) = waiting w"
  by (simp_all add: with_supervisor_def waiting_def)

lemma profile_of_fields [simp]:
  "profile_of (with_supervisor w i s) j = (if j = i then su_profile s else profile_of w j)"
  by (simp add: with_supervisor_def profile_of_def)

lemma profile_kept: "su_profile s = profile_of w i \<Longrightarrow> profile_of (with_supervisor w i s) = profile_of w"
  by (rule ext) simp

lemma profile_of_update [simp]:
  "profile_of (w\<lparr>la_profiles := ps\<rparr>) = profile_of w" "profile_of (w\<lparr>la_starting := starting\<rparr>) = profile_of w"
  "profile_of (w\<lparr>la_alive := a\<rparr>) = profile_of w" "profile_of (w\<lparr>la_watchers := xs\<rparr>) = profile_of w"
  "profile_of (w\<lparr>la_events := evs\<rparr>) = profile_of w" "profile_of (w\<lparr>la_next := n\<rparr>) = profile_of w"
  by (simp_all add: profile_of_def fun_eq_iff)

lemma accept_event_profile [simp]: "su_profile (fst (accept_event redact s event)) = su_profile s"
  by (simp add: accept_event_def Let_def)

lemma read_event_profile: "read_event redact s parsed = (s', event) \<Longrightarrow> su_profile s' = su_profile s"
  by (auto simp: read_event_def Let_def split: sum.splits pyval.splits) (metis accept_event_profile fst_conv)

text \<open>A step that changes neither the claims nor the processes keeps the invariant.\<close>

lemma same_claims_inv:
  assumes "launcher_inv w" and "profile_of w' = profile_of w" and "la_starting w' = la_starting w" and "waiting w' = waiting w"
    and "la_profiles w' = la_profiles w" and "la_alive w' \<subseteq> la_alive w"
  shows "launcher_inv w'"
  using assms by (auto simp: launcher_inv_def claims_def)

lemma start_inv:
  assumes "launcher_inv w"
  shows "launcher_inv (fst (begin_start w i))"
proof -
  let ?s = "(la_supervisors w i)\<lparr>su_intentional := False, su_emit := True, su_failed := False, su_stopped := False, su_state := STARTING\<rparr>"
  let ?w = "with_supervisor (w\<lparr>la_profiles := insert (profile_of w i) (la_profiles w), la_starting := i # la_starting w\<rparr>) i ?s"
  have prof: "profile_of ?w = profile_of w" by (subst profile_kept) (simp_all add: profile_of_def)
  have "launcher_inv ?w" if "profile_of w i \<notin> la_profiles w"
    using assms that by (simp add: launcher_inv_def claims_def prof)
  then show ?thesis using assms by (simp add: begin_start_def Let_def profile_of_def)
qed

lemma remove1_parts: "x \<in> set xs \<Longrightarrow> \<exists>as bs. xs = as @ x # bs \<and> remove1 x xs = as @ bs"
  by (metis remove1_append remove1.simps(2) split_list_first)

lemma spawn_inv:
  assumes inv: "launcher_inv w" and i: "i \<in> set (la_starting w)"
  shows "launcher_inv (spawn w i)"
proof -
  have prof: "profile_of (spawn w i) = profile_of w" by (simp add: spawn_def Let_def fun_eq_iff) (simp add: profile_of_def)
  have wait: "waiting (spawn w i) = \<lparr>wa_owner = i, wa_process = la_next w, wa_phase = Waiting\<rparr> # waiting w"
    by (simp add: spawn_def Let_def) (simp add: waiting_def)
  have start: "la_starting (spawn w i) = remove1 i (la_starting w)" "la_profiles (spawn w i) = la_profiles w"
    "la_alive (spawn w i) = insert (la_next w) (la_alive w)" by (simp_all add: spawn_def Let_def)
  obtain as bs where split: "la_starting w = as @ i # bs" "remove1 i (la_starting w) = as @ bs" using remove1_parts [OF i] by blast
  have "distinct (claims (spawn w i)) = distinct (claims w)" "set (claims (spawn w i)) = set (claims w)"
    unfolding claims_def prof wait start split(2) by (auto simp: split(1))
  then show ?thesis using inv by (auto simp: launcher_inv_def start wait)
qed

lemma spawn_failed_inv:
  assumes inv: "launcher_inv w" and i: "i \<in> set (la_starting w)"
  shows "launcher_inv (spawn_failed w i)"
proof -
  have prof: "profile_of (spawn_failed w i) = profile_of w" by (simp add: spawn_failed_def Let_def fun_eq_iff) (simp add: profile_of_def)
  have same: "la_starting (spawn_failed w i) = remove1 i (la_starting w)" "la_profiles (spawn_failed w i) = la_profiles w - {profile_of w i}"
    "la_alive (spawn_failed w i) = la_alive w" "waiting (spawn_failed w i) = waiting w"
    by (simp_all add: spawn_failed_def Let_def profile_of_def)
  obtain as bs where split: "la_starting w = as @ i # bs" "remove1 i (la_starting w) = as @ bs" using remove1_parts [OF i] by blast
  show ?thesis using inv unfolding launcher_inv_def claims_def prof same(1) [unfolded split(2)] same(2-4) split(1) by auto
qed

lemma waiting_released:
  assumes "k < length (la_watchers w)" and "la_watchers w ! k = x"
  shows "\<exists>as bs. waiting w = as @ (if wa_phase x = Waiting then [x] else []) @ bs \<and>
    (\<forall>y. wa_phase y \<noteq> Waiting \<longrightarrow> filter (\<lambda>x. wa_phase x = Waiting) ((la_watchers w)[k := y]) = as @ bs) \<and>
    filter (\<lambda>x. wa_phase x = Waiting) (take k (la_watchers w) @ drop (Suc k) (la_watchers w)) = as @ bs"
proof -
  have "la_watchers w = take k (la_watchers w) @ x # drop (Suc k) (la_watchers w)"
    using assms by (metis id_take_nth_drop)
  then have "waiting w = filter (\<lambda>x. wa_phase x = Waiting) (take k (la_watchers w) @ x # drop (Suc k) (la_watchers w))"
    unfolding waiting_def by (rule arg_cong)
  then have "waiting w = filter (\<lambda>x. wa_phase x = Waiting) (take k (la_watchers w)) @ (if wa_phase x = Waiting then [x] else []) @
      filter (\<lambda>x. wa_phase x = Waiting) (drop (Suc k) (la_watchers w))"
    by simp
  then show ?thesis using assms(1) by (auto simp: upd_conv_take_nth_drop)
qed

lemma watch_inv:
  assumes inv: "launcher_inv w" and k: "k < length (la_watchers w)" and dead: "wa_process (la_watchers w ! k) \<notin> la_alive w"
  shows "launcher_inv (watch_step w k code)"
proof -
  define x where "x = la_watchers w ! k"
  obtain as bs where wait: "waiting w = as @ (if wa_phase x = Waiting then [x] else []) @ bs"
    and upd: "\<And>y. wa_phase y \<noteq> Waiting \<Longrightarrow> filter (\<lambda>x. wa_phase x = Waiting) ((la_watchers w)[k := y]) = as @ bs"
    and del: "filter (\<lambda>x. wa_phase x = Waiting) (take k (la_watchers w) @ drop (Suc k) (la_watchers w)) = as @ bs"
    using waiting_released [OF k x_def [symmetric]] by metis
  show ?thesis
  proof (cases "wa_phase x")
    case Waiting
    let ?w = "watch_step w k code"
    have same: "waiting ?w = as @ bs" "la_profiles ?w = la_profiles w - {profile_of w (wa_owner x)}" "la_starting ?w = la_starting w"
      "la_alive ?w = la_alive w" "profile_of ?w = profile_of w"
      using upd by (simp_all add: watch_step_def x_def [symmetric] Waiting Let_def waiting_def profile_of_def fun_eq_iff)
    have "waiting w = as @ x # bs" using wait Waiting by simp
    moreover have "wa_process x \<notin> la_alive w" using dead by (simp add: x_def)
    ultimately show ?thesis using inv unfolding launcher_inv_def claims_def same by auto
  next
    case (Discarded code')
    then show ?thesis using upd wait
      by (intro same_claims_inv [OF inv]) (simp_all add: watch_step_def x_def [symmetric] Let_def waiting_def)
  next
    case (Watched code' intentional emit)
    have "waiting (watch_step w k code) = waiting w"
      using del wait Watched by (simp add: watch_step_def x_def [symmetric] Let_def) (simp add: waiting_def)
    moreover have "profile_of (watch_step w k code) = profile_of w"
      using Watched by (simp add: watch_step_def x_def [symmetric] Let_def fun_eq_iff) (simp add: profile_of_def)
    ultimately show ?thesis
      using Watched by (intro same_claims_inv [OF inv]) (simp_all add: watch_step_def x_def [symmetric] Let_def)
  qed
qed

lemma run_launcher_inv: "launcher_run w \<Longrightarrow> launcher_inv w"
proof (induction rule: launcher_run.induct)
  case (launcher_begin profile)
  then show ?case by (simp add: launcher_inv_def claims_def waiting_def)
next
  case (launcher_exit w p)
  then show ?case by (auto intro: same_claims_inv)
next
  case (launcher_stop w i emit)
  then show ?case by (auto intro!: same_claims_inv [OF launcher_stop.IH] profile_kept simp: request_stop_def Let_def) (simp_all add: profile_of_def)
next
  case (launcher_event w redact i parsed)
  obtain s event where r: "read_event redact (la_supervisors w i) parsed = (s, event)" by fastforce
  have "su_profile s = profile_of w i" using read_event_profile [OF r] by (simp add: profile_of_def)
  then show ?case using launcher_event.IH
    by (intro same_claims_inv [OF launcher_event.IH]) (simp_all add: deliver_event_def r fun_eq_iff)
qed (simp_all add: start_inv spawn_inv spawn_failed_inv watch_inv)

text \<open>Property C35. Whatever the threads, calls and exits interleave to, two live workers never
  belong to the same profile.\<close>

theorem one_worker_per_profile:
  assumes "launcher_run w" and "p \<in> la_alive w" and "q \<in> la_alive w"
  shows "\<exists>x\<in>set (waiting w). \<exists>y\<in>set (waiting w). wa_process x = p \<and> wa_process y = q \<and>
    (profile_of w (wa_owner x) = profile_of w (wa_owner y) \<longrightarrow> p = q)"
proof -
  have inv: "launcher_inv w" by (rule run_launcher_inv [OF assms(1)])
  obtain x y where xy: "x \<in> set (waiting w)" "y \<in> set (waiting w)" "wa_process x = p" "wa_process y = q"
    using inv assms(2,3) unfolding launcher_inv_def by blast
  have "distinct (map (\<lambda>x. profile_of w (wa_owner x)) (waiting w))" using inv by (simp add: launcher_inv_def claims_def o_def)
  then have "x = y" if "profile_of w (wa_owner x) = profile_of w (wa_owner y)"
    using that xy(1,2) by (simp add: distinct_map inj_on_def)
  then show ?thesis using xy by blast
qed

section \<open>A worker, and a restart that overtakes the watcher\<close>

definition sample_launcher :: launcher where
  "sample_launcher = \<lparr>la_profiles = {}, la_supervisors = (\<lambda>i. new_supervisor ''player''), la_alive = {}, la_starting = [],
     la_watchers = [], la_next = 0, la_events = []\<rparr>"

definition sample_started_launcher :: launcher where
  "sample_started_launcher = spawn (fst (begin_start sample_launcher 0)) 0"

lemma sample_launcher_run: "launcher_run sample_started_launcher" "0 \<in> la_alive sample_started_launcher"
proof -
  have "launcher_run sample_launcher" unfolding sample_launcher_def by (rule launcher_begin [of "\<lambda>i. ''player''"])
  then have "launcher_run (fst (begin_start sample_launcher 0))" by (rule launcher_start)
  moreover have "0 \<in> set (la_starting (fst (begin_start sample_launcher 0)))"
    by (simp add: begin_start_def sample_launcher_def running_def new_supervisor_def Let_def)
  ultimately show "launcher_run sample_started_launcher" unfolding sample_started_launcher_def by (rule launcher_spawn)
  show "0 \<in> la_alive sample_started_launcher"
    by (simp add: sample_started_launcher_def spawn_def begin_start_def sample_launcher_def running_def new_supervisor_def
        with_supervisor_def Let_def)
qed

theorem one_worker_per_profile_witness: "\<exists>x\<in>set (waiting sample_started_launcher). wa_process x = 0"
  using one_worker_per_profile [OF sample_launcher_run(1,2,2)] by blast

text \<open>The worker was stopped on purpose, but the next start resets the flags before the watcher reads
  them: the stop is reported as a failure and marks the supervisor that is starting as failed and stopped.\<close>

definition overtaken :: launcher where
  "overtaken =
     (let stopping = request_stop sample_started_launcher 0 True;
          released = watch_step (stopping\<lparr>la_alive := {}\<rparr>) 0 0;
          restarted = fst (begin_start released 0)
      in watch_step (watch_step restarted 0 0) 0 0)"

lemma intentional_stop_reported_as_failure:
  "la_starting overtaken = [0]" "su_state (la_supervisors overtaken 0) = FAILED" "su_stopped (la_supervisors overtaken 0)"
  "la_events overtaken = [(0, [(''type'', PStr ''worker_stopped''), (''intentional'', PBool False), (''returncode'', PInt 0)]),
     (0, failure_event (''bridge_exited'', room_stopped))]"
  by code_simp+

end
