(* ===== verification/Enemy_Options.thy ===== *)
theory Enemy_Options
  imports Enemy_Draws
begin

text \<open>
  The options of the enemy randomizer, \<open>doom_eap/content/enemy_options.py\<close>: recipes, presets and the
  normalization of a player's options. The normalized dictionary is a record; the keys that older
  revisions leave out are \<open>None\<close> in it.
\<close>

section \<open>Recipes\<close>

definition SPECIES_IDS :: "string list" where
  "SPECIES_IDS = sorted_set (concat (map snd SPECIES_GROUPS))"

definition DLC_SPECIES :: "string list" where
  "DLC_SPECIES = [''armored_baron'', ''blood_angel'', ''chaingun_soldier'', ''cursed_prowler'', ''demonic_trooper'', ''spirit'',
     ''stone_imp'', ''super_tentacle'', ''turret'', ''zombie_t1_screecher'']"

abbreviation curve :: "int \<Rightarrow> int \<Rightarrow> int \<Rightarrow> int \<Rightarrow> attribute_bounds" where
  "curve a b c d \<equiv> \<lparr>ab_early = (a, b), ab_late = (c, d)\<rparr>"

record enemy_recipe =
  er_intensity :: "int \<times> int"
  er_density :: int
  er_variety :: int
  er_health :: attribute_bounds
  er_damage :: attribute_bounds
  er_speed :: attribute_bounds
  er_combined :: int
  er_groups :: "int \<times> int \<times> int \<times> int"

definition recipe :: "int \<times> int \<Rightarrow> int \<Rightarrow> int \<Rightarrow> attribute_bounds \<Rightarrow> attribute_bounds \<Rightarrow> attribute_bounds \<Rightarrow> int
    \<Rightarrow> int \<times> int \<times> int \<times> int \<Rightarrow> enemy_recipe" where
  "recipe intensity density variety health damage speed combined groups =
     \<lparr>er_intensity = intensity, er_density = density, er_variety = variety, er_health = health, er_damage = damage, er_speed = speed,
      er_combined = combined, er_groups = groups\<rparr>"

definition ENEMY_RECIPES :: "(string \<times> enemy_recipe) list" where
  "ENEMY_RECIPES =
    [(''uac_patrol'', recipe (60, 85) 85 40 (curve 70 105 85 125) (curve 65 95 80 105) (curve 85 100 90 105) 1 (150, 75, 20, 20)),
     (''sentinel_training'', recipe (80, 110) 95 55 (curve 75 120 90 145) (curve 75 105 85 120) (curve 90 105 95 110) 1 (120, 100, 35, 25)),
     (''slayers_path'', recipe (100, 145) 100 65 (curve 75 135 90 180) (curve 80 120 95 145) (curve 90 110 95 120) 2 (100, 100, 50, 35)),
     (''hells_vanguard'', recipe (125, 185) 110 70 (curve 90 160 105 200) (curve 90 135 105 165) (curve 95 115 100 125) 3 (90, 130, 80, 50)),
     (''icons_wrath'', recipe (160, 230) 120 75 (curve 100 180 110 230) (curve 100 150 115 185) (curve 100 120 105 130) 4 (80, 150, 100, 65)),
     (''gore_nest'', recipe (100, 140) 180 60 (curve 65 115 80 145) (curve 75 110 90 130) (curve 90 110 95 120) 2 (200, 60, 20, 35)),
     (''gladiators_gauntlet'', recipe (110, 165) 65 55 (curve 90 150 105 190) (curve 90 130 100 160) (curve 90 110 95 120) 2 (60, 150, 100, 35)),
     (''cultist_chaos'', recipe (100, 170) 115 90 (curve 60 165 80 210) (curve 65 140 80 170) (curve 85 120 90 130) 3 (100, 100, 100, 70)),
     (''oops_all_imps'', recipe (100, 145) 100 50 (curve 60 145 80 190) (curve 75 120 90 150) (curve 90 115 95 125) 0 (0, 0, 0, 0)),
     (''pinata_party'', recipe (100, 150) 135 55 (curve 75 135 90 180) (curve 80 120 95 145) (curve 90 110 95 120) 2 (100, 100, 50, 35))]"

record balance_preset =
  bp_groups :: "(int \<times> int \<times> int \<times> int) \<times> (int \<times> int \<times> int \<times> int)"
  bp_attributes :: "int \<times> int \<times> int" \<comment> \<open>health, damage, speed\<close>
  bp_length :: int
  bp_superheavy :: int
  bp_combined :: int

definition BALANCE_PRESETS :: "(string \<times> balance_preset) list" where
  "BALANCE_PRESETS =
    [(''uac_patrol'', \<lparr>bp_groups = ((85, 15, 0, 0), (70, 28, 1, 1)), bp_attributes = (100, 100, 100), bp_length = 100, bp_superheavy = 1, bp_combined = 1\<rparr>),
     (''sentinel_training'', \<lparr>bp_groups = ((70, 30, 0, 0), (55, 40, 4, 1)), bp_attributes = (100, 100, 100), bp_length = 100, bp_superheavy = 1, bp_combined = 1\<rparr>),
     (''slayers_path'', \<lparr>bp_groups = ((60, 40, 0, 0), (40, 49, 9, 2)), bp_attributes = (110, 105, 105), bp_length = 100, bp_superheavy = 2, bp_combined = 1\<rparr>),
     (''hells_vanguard'', \<lparr>bp_groups = ((55, 45, 0, 0), (32, 50, 14, 4)), bp_attributes = (125, 115, 110), bp_length = 120, bp_superheavy = 2, bp_combined = 2\<rparr>),
     (''icons_wrath'', \<lparr>bp_groups = ((50, 50, 0, 0), (26, 50, 18, 6)), bp_attributes = (135, 120, 110), bp_length = 130, bp_superheavy = 3, bp_combined = 3\<rparr>)]"

section \<open>Reading one option\<close>

definition integer_option :: "pyval \<Rightarrow> string \<Rightarrow> int \<Rightarrow> int \<Rightarrow> int res" where
  "integer_option value name minimum maximum =
     (case value of PInt n \<Rightarrow> if minimum \<le> n \<and> n \<le> maximum then Inr n else Inl (ValueError (name @ '' must be an integer between''))
      | _ \<Rightarrow> Inl (ValueError (name @ '' must be an integer between'')))"

definition toggle :: "pydict \<Rightarrow> string \<Rightarrow> bool \<Rightarrow> bool res" where
  "toggle raw key standard =
     (case dget_or raw key (PBool standard) of PBool b \<Rightarrow> Inr b | _ \<Rightarrow> Inl (ValueError (key @ '' must be a boolean'')))"

definition recipe_number :: "pydict \<Rightarrow> string \<Rightarrow> int \<Rightarrow> int \<Rightarrow> int \<Rightarrow> int res" where
  "recipe_number raw key standard minimum maximum =
     (let value = dget_or raw key (PStr ''auto'') in if value = PStr ''auto'' then Inr standard else integer_option value key minimum maximum)"

definition option_object :: "pydict \<Rightarrow> string \<Rightarrow> string \<Rightarrow> pydict res" where
  "option_object raw key message = (case dget_or raw key (PDict []) of PDict d \<Rightarrow> Inr d | _ \<Rightarrow> Inl (ValueError message))"

section \<open>Attributes\<close>

definition RANGE_BOUNDS :: "string list" where
  "RANGE_BOUNDS = [''minimum'', ''maximum'', ''early_minimum'', ''early_maximum'', ''late_minimum'', ''late_maximum'']"

text \<open>\<open>key.rpartition(".")\<close>, where a key without a dot belongs to all species.\<close>

definition range_key :: "string \<Rightarrow> string \<times> string" where
  "range_key key =
     (if CHR ''.'' \<notin> set key then (''global'', key)
      else let bound = rev (takeWhile (\<lambda>c. c \<noteq> CHR ''.'') (rev key)) in (take (length key - length bound - 1) key, bound))"

fun range_groups :: "string \<Rightarrow> pydict \<Rightarrow> (string \<times> (string \<times> int) list) list \<Rightarrow> (string \<times> (string \<times> int) list) list res" where
  "range_groups name [] groups = Inr groups"
| "range_groups name ((key, value) # values) groups =
     (case range_key key of (species, bound) \<Rightarrow>
       if bound \<notin> set RANGE_BOUNDS \<or> (species \<noteq> ''global'' \<and> species \<notin> set SPECIES_IDS)
       then Inl (ValueError (''enemy_'' @ name @ '' has unknown range''))
       else bind_res (integer_option value (''enemy_'' @ name @ ''.'' @ key) 1 10000)
         (\<lambda>n. range_groups name values
           (AList.update species (AList.update bound n (case map_of groups species of None \<Rightarrow> [] | Some entries \<Rightarrow> entries)) groups)))"

definition range_end :: "(string \<times> int) list \<Rightarrow> string \<Rightarrow> int" where
  "range_end entries key = (case map_of entries key of None \<Rightarrow> 0 | Some n \<Rightarrow> n)"

definition range_ends :: "(string \<times> int) list \<Rightarrow> attribute_bounds option" where
  "range_ends entries =
     (let keys = set (map fst entries); entry = range_end entries
      in if keys = {''minimum'', ''maximum''} then Some (curve (entry ''minimum'') (entry ''maximum'') (entry ''minimum'') (entry ''maximum''))
         else if keys = {''early_minimum'', ''early_maximum'', ''late_minimum'', ''late_maximum''}
         then Some (curve (entry ''early_minimum'') (entry ''early_maximum'') (entry ''late_minimum'') (entry ''late_maximum''))
         else None)"

definition range_curve :: "string \<Rightarrow> string \<times> (string \<times> int) list \<Rightarrow> (string \<times> attribute_bounds) res" where
  "range_curve name grp =
     (case grp of (species, entries) \<Rightarrow>
       case range_ends entries of
         None \<Rightarrow> Inl (ValueError (''enemy_'' @ name @ ''.'' @ species @ '' needs both fixed bounds or all four Early/Late bounds''))
       | Some b \<Rightarrow>
          (if snd (ab_early b) < fst (ab_early b) \<or> snd (ab_late b) < fst (ab_late b)
           then Inl (ValueError (''enemy_'' @ name @ ''.'' @ species @ '' minimum exceeds maximum'')) else Inr (species, b)))"

definition flat_curve :: "bool \<Rightarrow> attribute_bounds \<Rightarrow> attribute_bounds" where
  "flat_curve progressive b = (if progressive then b else b\<lparr>ab_late := ab_early b\<rparr>)"

definition attribute_options :: "pydict \<Rightarrow> string \<Rightarrow> attribute_bounds \<Rightarrow> bool \<Rightarrow> (attribute_ranges \<times> string list) res" where
  "attribute_options raw name automatic progressive =
     bind_res (option_object raw (''enemy_'' @ name) (''enemy_'' @ name @ '' must be an object''))
       (\<lambda>values. bind_res (range_groups name values [])
         (\<lambda>groups. bind_res (map_res (range_curve name) groups)
           (\<lambda>curves. Inr
             (\<lparr>ar_global = flat_curve progressive (case map_of curves ''global'' of None \<Rightarrow> automatic | Some b \<Rightarrow> b),
               ar_species = map (\<lambda>(species, b). (species, flat_curve progressive b)) (filter (\<lambda>(species, b). species \<noteq> ''global'') curves)\<rparr>,
              map fst groups))))"

definition automatic_range :: "int \<Rightarrow> string \<Rightarrow> balance_preset option \<Rightarrow> bool \<Rightarrow> string \<Rightarrow> attribute_bounds \<Rightarrow> attribute_bounds" where
  "automatic_range revision preset balance progressive name own =
     (case balance of
        Some p \<Rightarrow>
          (let ceiling = (if 7 \<le> revision \<and> preset = ''slayers_path'' then 100
             else case bp_attributes p of (h, d, s) \<Rightarrow> if name = ''health'' then h else if name = ''damage'' then d else s)
           in curve 100 (if progressive then 100 else ceiling) 100 ceiling)
      | None \<Rightarrow>
          (if 5 \<le> revision \<and> progressive then
             (let ceiling = (if name = ''health'' then 120 else 100)
              in \<lparr>ab_early = (min (fst (ab_early own)) ceiling, min (snd (ab_early own)) ceiling),
                  ab_late = (if name = ''damage'' then (min (fst (ab_late own)) 125, min (snd (ab_late own)) 125) else ab_late own)\<rparr>)
           else own))"

section \<open>Weights\<close>

definition recipe_weights :: "enemy_recipe \<Rightarrow> counter" where
  "recipe_weights r =
     (case er_groups r of (fodder, heavy, superheavy, support) \<Rightarrow>
       concat (map (\<lambda>((grp, members), w). map (\<lambda>species. (species, w)) members) (zip SPECIES_GROUPS [fodder, heavy, superheavy, support, 0])))"

definition revised_weights :: "int \<Rightarrow> enemy_recipe \<Rightarrow> counter" where
  "revised_weights revision r =
     (case er_groups r of (fodder, heavy, superheavy, support) \<Rightarrow>
       let w = recipe_weights r;
           w = (if 3 \<le> revision then cput ''buff_pod'' (min superheavy support) w else w);
           w = (if 4 \<le> revision then cput ''zombie_t1_screecher'' (min superheavy support) w else w);
           w = (if 8 \<le> revision then cput ''turret'' (heavy div 2) (cput ''super_tentacle'' 0 (cput ''tentacle'' 0 w)) else w)
       in if 9 \<le> revision then cput ''blood_angel'' ((cget w ''blood_angel'' * 5 + 3) div 4) w else w)"

definition preset_weights :: "int \<Rightarrow> string \<Rightarrow> enemy_recipe \<Rightarrow> counter" where
  "preset_weights revision preset r =
     (let w = revised_weights revision r;
          w = (if preset = ''oops_all_imps'' then cput ''stone_imp'' 100 (cput ''imp'' 900 w)
            else if preset = ''pinata_party'' then
              (let others = filter (\<lambda>s. s \<notin> {''maykr_angel'', ''zombie_maykr'', ''blood_angel''} \<and> 0 < cget w s) SPECIES_IDS;
                   n = int (length others)
               in cput ''blood_angel'' (15 * n) (cput ''zombie_maykr'' (80 * n) (map (\<lambda>s. (s, if s \<in> set others then 5 else 0)) SPECIES_IDS)))
            else w)
      in cput ''chaingun_soldier'' (cget w ''chaingun_soldier'' div 5) w)"

fun override_weights :: "pydict \<Rightarrow> counter \<Rightarrow> counter res" where
  "override_weights [] w = Inr w"
| "override_weights ((species, weight) # overrides) w =
     (if species \<notin> set SPECIES_IDS then Inl (ValueError ''Unknown Enemy Weight'')
      else bind_res (integer_option weight (''Enemy Weight '' @ species) 0 10000) (\<lambda>n. override_weights overrides (cput species n w)))"

definition reduced_weights :: "counter \<Rightarrow> counter" where
  "reduced_weights w = (let g = fold gcd (map snd w) 0; divisor = (if g = 0 then 1 else g) in map (\<lambda>(s, n). (s, n div divisor)) w)"

definition option_weights :: "pydict \<Rightarrow> int \<Rightarrow> string \<Rightarrow> enemy_recipe \<Rightarrow> bool \<Rightarrow> string list \<Rightarrow> counter res" where
  "option_weights raw revision preset r enabled eligible =
     bind_res (option_object raw ''enemy_weights'' ''Enemy Weights must be an object'')
       (\<lambda>overrides. bind_res (override_weights overrides (preset_weights revision preset r))
         (\<lambda>w. let own = map (\<lambda>s. (s, cget w s)) eligible
              in if enabled \<and> list_all (\<lambda>(s, n). n = 0) own
                 then Inl (ValueError ''Enemy Weights exclude every eligible random combat species'') else Inr (reduced_weights own)))"

section \<open>Special limits\<close>

definition LIMITED :: "string list" where
  "LIMITED = [''marauder'', ''archvile'', ''spirit'']"

definition limits_of :: "int \<Rightarrow> int \<Rightarrow> int \<Rightarrow> int \<Rightarrow> counter" where
  "limits_of marauder archvile spirit combined = [(''marauder'', marauder), (''archvile'', archvile), (''spirit'', spirit), (''combined_special'', combined)]"

definition with_overrides :: "counter \<Rightarrow> counter \<Rightarrow> counter" where
  "with_overrides limits overrides = foldl (\<lambda>c (k, n). cput k n c) limits overrides"

fun limit_overrides :: "pydict \<Rightarrow> counter res" where
  "limit_overrides [] = Inr []"
| "limit_overrides ((key, value) # overrides) =
     (if key \<notin> set (''combined_special'' # LIMITED) then Inl (ValueError ''Unknown Special Enemy Limit'')
      else bind_res (integer_option value (''Special Enemy Limit '' @ key) 0 2147483647)
        (\<lambda>n. bind_res (limit_overrides overrides) (\<lambda>rest. Inr ((key, n) # rest))))"

definition capped_limits :: "counter \<Rightarrow> counter \<Rightarrow> counter" where
  "capped_limits overrides endpoint =
     (let e = (if ''combined_special'' \<notin> fst ` set overrides
            then cput ''combined_special'' (min (cget endpoint ''combined_special'') (sum_list (map (cget endpoint) LIMITED))) endpoint
            else endpoint)
      in foldl (\<lambda>e name. if name \<notin> fst ` set overrides then cput name (min (cget e name) (cget e ''combined_special'')) e else e) e LIMITED)"

definition normal_limits :: "enemy_recipe \<Rightarrow> balance_preset option \<Rightarrow> bool \<Rightarrow> counter \<Rightarrow> counter \<times> counter" where
  "normal_limits r balance progressive overrides =
     (let early = (case balance of None \<Rightarrow> with_overrides (limits_of 1 1 1 (er_combined r)) overrides
            | Some p \<Rightarrow> with_overrides (if progressive then limits_of 0 0 0 0 else limits_of 1 1 1 (bp_combined p)) overrides);
          late = (case balance of
              None \<Rightarrow> with_overrides (limits_of (max 1 (er_combined r)) (max 1 (er_combined r)) (max 1 (er_combined r)) (er_combined r * 2)) overrides
            | Some p \<Rightarrow> with_overrides (limits_of 1 1 1 (bp_combined p)) overrides)
      in (capped_limits overrides early, if progressive then capped_limits overrides late else capped_limits overrides early))"

section \<open>Normalization\<close>

record enemy_options =
  eo_settings :: enemy_settings \<comment> \<open>weights, density, attributes, size variation, limits and revision\<close>
  eo_enabled :: bool
  eo_progressive :: bool
  eo_balance_preset :: "string option"
  eo_length :: "int option"
  eo_limit_overrides :: "counter option"
  eo_intensity :: "int \<times> int"
  eo_variety :: int
  eo_count_mode :: string
  eo_count_multiplier :: int

definition ENEMY_OPTIONS_REVISION :: int where
  "ENEMY_OPTIONS_REVISION = 9"

definition option_revision :: "pydict \<Rightarrow> int res" where
  "option_revision raw =
     (case dget_or raw ''enemies'' (PDict []) of
        PDict enemies \<Rightarrow>
          (case plain (dget_or enemies ''revision'' (PInt ENEMY_OPTIONS_REVISION)) of
             PInt n \<Rightarrow> if 2 \<le> n \<and> n \<le> ENEMY_OPTIONS_REVISION then Inr n else Inl (ValueError ''Unsupported enemy options revision'')
           | _ \<Rightarrow> Inl (ValueError ''Unsupported enemy options revision''))
      | _ \<Rightarrow> Inl (Exn ''AttributeError'' ''get''))"

definition option_preset :: "pydict \<Rightarrow> (string \<times> enemy_recipe) res" where
  "option_preset raw =
     (let preset = dget_or raw ''enemy_preset'' (PStr ''slayers_path'');
          preset = (if preset = PStr ''custom'' then PStr ''slayers_path'' else preset)
      in case preset of
           PStr name \<Rightarrow> (case map_of ENEMY_RECIPES name of Some r \<Rightarrow> Inr (name, r) | None \<Rightarrow> Inl (ValueError ''Unknown Enemy Preset''))
         | _ \<Rightarrow> Inl (ValueError ''Unknown Enemy Preset''))"

definition option_count_mode :: "pydict \<Rightarrow> string \<Rightarrow> string res" where
  "option_count_mode raw preset =
     (case dget_or raw ''enemy_count_mode'' (PStr ''preset'') of
        PStr mode \<Rightarrow>
          (let mode = (if mode = ''preset'' then if preset = ''oops_all_imps'' then ''multiplier'' else ''auto'' else mode)
           in if mode \<in> {''auto'', ''multiplier''} then Inr mode else Inl (ValueError ''Enemy Count must be Auto or Multiplier''))
      | _ \<Rightarrow> Inl (ValueError ''Enemy Count must be Auto or Multiplier''))"

definition size_exclusions :: "string list \<Rightarrow> string list \<Rightarrow> string list" where
  "size_exclusions eligible groups = (if ''global'' \<in> set groups then eligible else sorted_set groups)"

definition normalize_enemy_options :: "pydict \<Rightarrow> enemy_options res" where
  "normalize_enemy_options raw =
     bind_res (option_revision raw) (\<lambda>revision. bind_res (option_preset raw) (\<lambda>(preset, r).
     let balance = (if 6 \<le> revision then map_of BALANCE_PRESETS preset else None) in
     bind_res (toggle raw ''enemy_randomizer'' True) (\<lambda>enabled. bind_res (toggle raw ''progressive_difficulty'' True) (\<lambda>progressive.
     bind_res (toggle raw ''use_dlc_content'' True) (\<lambda>dlc. bind_res (option_count_mode raw preset) (\<lambda>count_mode.
     bind_res (recipe_number raw ''enemy_intensity_early'' (fst (er_intensity r)) 1 10000) (\<lambda>early.
     bind_res (recipe_number raw ''enemy_intensity_late'' (snd (er_intensity r)) 1 10000) (\<lambda>late.
     bind_res (recipe_number raw ''enemy_density'' (if balance \<noteq> None then 100 else er_density r) 1 10000) (\<lambda>density.
     bind_res (recipe_number raw ''enemy_length'' (case balance of
         Some p \<Rightarrow> if 7 \<le> revision then 100 else bp_length p | None \<Rightarrow> max 100 density) 100 10000) (\<lambda>len.
     bind_res (recipe_number raw ''enemy_variety'' (er_variety r) 0 100) (\<lambda>variety.
     bind_res (recipe_number raw ''enemy_count_multiplier'' (if preset = ''oops_all_imps'' then 500 else 100) 1 10000) (\<lambda>multiplier.
     let eligible = filter (\<lambda>s. dlc \<or> s \<notin> set DLC_SPECIES) SPECIES_IDS in
     bind_res (option_weights raw revision preset r enabled eligible) (\<lambda>weights.
     let automatic = automatic_range revision preset balance progressive in
     bind_res (attribute_options raw ''health'' (automatic ''health'' (er_health r)) progressive) (\<lambda>(health, _).
     bind_res (attribute_options raw ''damage'' (automatic ''damage'' (er_damage r)) progressive) (\<lambda>(damage, _).
     bind_res (attribute_options raw ''speed'' (automatic ''speed'' (er_speed r)) progressive) (\<lambda>(speed, _).
     bind_res (attribute_options raw ''size'' (curve 100 100 100 100) progressive) (\<lambda>(size, size_groups).
     bind_res (recipe_number raw ''enemy_size_variation_chance'' 3 0 100) (\<lambda>chance.
     bind_res (option_object raw ''enemy_special_limits'' ''Special Enemy Limits must be an object'') (\<lambda>limit_values.
     bind_res (limit_overrides limit_values) (\<lambda>overrides.
     let (limits, late_limits) = normal_limits r balance progressive overrides in
     Inr \<lparr>eo_settings = \<lparr>es_weights = weights, es_density = density, es_health = health, es_damage = damage, es_speed = speed, es_size = size,
            es_size_exclusions = size_exclusions eligible size_groups, es_size_chance = chance, es_limits = limits,
            es_late_limits = Some late_limits, es_revision = revision\<rparr>,
          eo_enabled = enabled, eo_progressive = progressive,
          eo_balance_preset = (if 6 \<le> revision \<and> balance \<noteq> None then Some preset else None),
          eo_length = (if 6 \<le> revision then Some len else None), eo_limit_overrides = (if 7 \<le> revision then Some overrides else None),
          eo_intensity = (early, if progressive then late else early), eo_variety = variety, eo_count_mode = count_mode,
          eo_count_multiplier = multiplier\<rparr>))))))))))))))))))))"

definition uses_protected_opening :: "enemy_options \<Rightarrow> bool" where
  "uses_protected_opening o' \<longleftrightarrow> eo_enabled o' \<and> eo_progressive o' \<and>
     (eo_count_mode o' = ''auto'' \<or> eo_count_mode o' = ''multiplier'' \<and> eo_count_multiplier o' = 100)"

section \<open>Accepted options are usable\<close>

lemma integer_option_range: "integer_option val name low high = Inr n \<Longrightarrow> low \<le> n \<and> n \<le> high"
  by (auto simp: integer_option_def split: pyval.splits if_splits)

definition groups_ok :: "(string \<times> (string \<times> int) list) list \<Rightarrow> bool" where
  "groups_ok groups \<longleftrightarrow> (\<forall>(species, entries) \<in> set groups. \<forall>(bound, n) \<in> set entries. 1 \<le> n \<and> n \<le> 10000)"

lemma set_AList_update: "set (AList.update k v xs) \<subseteq> insert (k, v) (set xs)"
  by (induction xs) (auto split: if_splits)

lemma groups_ok_update:
  assumes "groups_ok groups" and "1 \<le> n" and "n \<le> 10000"
  shows "groups_ok (AList.update species (AList.update bound n (case map_of groups species of None \<Rightarrow> [] | Some entries \<Rightarrow> entries)) groups)"
proof -
  have "\<forall>(b, m) \<in> set (case map_of groups species of None \<Rightarrow> [] | Some entries \<Rightarrow> entries). 1 \<le> m \<and> m \<le> 10000"
    using assms(1) unfolding groups_ok_def by (cases "map_of groups species") (auto dest!: map_of_SomeD)
  then have "\<forall>(b, m) \<in> set (AList.update bound n (case map_of groups species of None \<Rightarrow> [] | Some entries \<Rightarrow> entries)). 1 \<le> m \<and> m \<le> 10000"
    using set_AList_update [of bound n] assms(2,3) by fast
  then show ?thesis using assms(1) set_AList_update unfolding groups_ok_def by fast
qed

lemma range_groups_ok: "range_groups name vs groups = Inr groups' \<Longrightarrow> groups_ok groups \<Longrightarrow> groups_ok groups'"
proof (induction name vs groups rule: range_groups.induct)
  case (2 name key val vs groups)
  obtain species bound where key: "range_key key = (species, bound)" by fastforce
  show ?case
  proof (cases "bound \<notin> set RANGE_BOUNDS \<or> (species \<noteq> ''global'' \<and> species \<notin> set SPECIES_IDS)")
    case True
    then show ?thesis using 2 by (simp add: key)
  next
    case False
    then obtain n where n: "integer_option val (''enemy_'' @ name @ ''.'' @ key) 1 10000 = Inr n"
      and rest: "range_groups name vs (AList.update species (AList.update bound n (case map_of groups species of None \<Rightarrow> [] | Some entries \<Rightarrow> entries)) groups) = Inr groups'"
      using 2(2) by (auto simp: key)
    show ?thesis using 2(1) [OF key [symmetric] False] rest groups_ok_update [OF 2(3)] integer_option_range [OF n] by blast
  qed
qed simp

lemma range_ends_cases:
  assumes "range_ends entries = Some b"
  shows "\<exists>w x y z. b = curve (range_end entries w) (range_end entries x) (range_end entries y) (range_end entries z) \<and>
    {w, x, y, z} \<subseteq> set (map fst entries)"
proof (cases "set (map fst entries) = {''minimum'', ''maximum''}")
  case True
  then have "b = curve (range_end entries ''minimum'') (range_end entries ''maximum'') (range_end entries ''minimum'') (range_end entries ''maximum'')"
    using assms unfolding range_ends_def Let_def by (simp only: if_P option.inject)
  moreover have "{''minimum'', ''maximum'', ''minimum'', ''maximum''} \<subseteq> set (map fst entries)" unfolding True by blast
  ultimately show ?thesis by blast
next
  case no: False
  show ?thesis
  proof (cases "set (map fst entries) = {''early_minimum'', ''early_maximum'', ''late_minimum'', ''late_maximum''}")
    case True
    then have "b = curve (range_end entries ''early_minimum'') (range_end entries ''early_maximum'')
        (range_end entries ''late_minimum'') (range_end entries ''late_maximum'')"
      using assms unfolding range_ends_def Let_def if_not_P [OF no] by (simp only: if_P option.inject)
    moreover have "{''early_minimum'', ''early_maximum'', ''late_minimum'', ''late_maximum''} \<subseteq> set (map fst entries)" unfolding True by blast
    ultimately show ?thesis by blast
  next
    case False
    then have "range_ends entries = None" unfolding range_ends_def Let_def if_not_P [OF no] by (simp only: if_not_P if_False)
    then show ?thesis using assms by simp
  qed
qed

lemma range_curve_ok:
  assumes "range_curve name (species, entries) = Inr (s, b)" and ok: "\<forall>(bound, n) \<in> set entries. 1 \<le> n \<and> n \<le> 10000"
  shows "bounds_ok b"
proof -
  have entry: "1 \<le> range_end entries key \<and> range_end entries key \<le> 10000" if "key \<in> set (map fst entries)" for key
    using that ok by (cases "map_of entries key") (auto simp: range_end_def map_of_eq_None_iff dest!: map_of_SomeD)
  have ends: "range_ends entries = Some b" and order: "fst (ab_early b) \<le> snd (ab_early b)" "fst (ab_late b) \<le> snd (ab_late b)"
    using assms(1) by (auto simp: range_curve_def split: option.splits if_splits)
  obtain w x y z where "b = curve (range_end entries w) (range_end entries x) (range_end entries y) (range_end entries z)"
      "{w, x, y, z} \<subseteq> set (map fst entries)" using range_ends_cases [OF ends] by blast
  then show ?thesis using entry [of w] entry [of x] entry [of y] entry [of z] order by (simp add: bounds_ok_def)
qed

lemma flat_curve_ok: "bounds_ok b \<Longrightarrow> bounds_ok (flat_curve progressive b)"
  by (auto simp: flat_curve_def bounds_ok_def)

lemma map_res_member: "map_res f xs = Inr ys \<Longrightarrow> y \<in> set ys \<Longrightarrow> \<exists>x \<in> set xs. f x = Inr y"
  by (induction xs arbitrary: ys) auto

lemma attribute_options_ok:
  assumes a: "attribute_options raw name automatic progressive = Inr (ranges, groups)" and own: "bounds_ok automatic"
  shows "ranges_ok ranges"
proof -
  obtain vs gs curves where g: "range_groups name vs [] = Inr gs" and c: "map_res (range_curve name) gs = Inr curves"
    and r: "ranges = \<lparr>ar_global = flat_curve progressive (case map_of curves ''global'' of None \<Rightarrow> automatic | Some b \<Rightarrow> b),
       ar_species = map (\<lambda>(species, b). (species, flat_curve progressive b)) (filter (\<lambda>(species, b). species \<noteq> ''global'') curves)\<rparr>"
    using a by (auto simp: attribute_options_def)
  have gs: "groups_ok gs" using range_groups_ok [OF g] by (simp add: groups_ok_def)
  have ok: "bounds_ok b" if sb: "(s, b) \<in> set curves" for s b
  proof -
    obtain species entries where m: "(species, entries) \<in> set gs" "range_curve name (species, entries) = Inr (s, b)"
      using map_res_member [OF c sb] by auto
    then have "\<forall>(bound, n) \<in> set entries. 1 \<le> n \<and> n \<le> 10000" using gs by (auto simp: groups_ok_def)
    from range_curve_ok [OF m(2) this] show ?thesis .
  qed
  then show ?thesis using own flat_curve_ok by (auto simp: r ranges_ok_def split: option.split dest!: map_of_SomeD)
qed

definition recipe_ok :: "enemy_recipe \<Rightarrow> bool" where
  "recipe_ok r \<longleftrightarrow> bounds_ok (er_health r) \<and> bounds_ok (er_damage r) \<and> bounds_ok (er_speed r) \<and>
     (case er_groups r of (a, b, c, d) \<Rightarrow> 0 \<le> a \<and> 0 \<le> b \<and> 0 \<le> c \<and> 0 \<le> d)"

lemma recipes_ok: "map_of ENEMY_RECIPES name = Some r \<Longrightarrow> recipe_ok r"
proof -
  have "\<forall>(name, r) \<in> set ENEMY_RECIPES. recipe_ok r"
    by (simp add: ENEMY_RECIPES_def recipe_def recipe_ok_def bounds_ok_def)
  moreover assume "map_of ENEMY_RECIPES name = Some r"
  ultimately show "recipe_ok r" using map_of_SomeD by fastforce
qed

lemma balance_ok:
  assumes "map_of BALANCE_PRESETS name = Some p"
  shows "(case bp_attributes p of (h, d, s) \<Rightarrow> 100 \<le> h \<and> h \<le> 10000 \<and> 100 \<le> d \<and> d \<le> 10000 \<and> 100 \<le> s \<and> s \<le> 10000)"
proof -
  have "\<forall>(name, p) \<in> set BALANCE_PRESETS. case bp_attributes p of (h, d, s) \<Rightarrow> 100 \<le> h \<and> h \<le> 10000 \<and> 100 \<le> d \<and> d \<le> 10000 \<and> 100 \<le> s \<and> s \<le> 10000"
    by (simp add: BALANCE_PRESETS_def)
  then show ?thesis using map_of_SomeD [OF assms] by fastforce
qed

lemma automatic_range_ok:
  assumes "bounds_ok own" and "\<And>p. balance = Some p \<Longrightarrow> map_of BALANCE_PRESETS preset = Some p"
  shows "bounds_ok (automatic_range revision preset balance progressive name own)"
proof (cases balance)
  case None
  then show ?thesis using assms(1) by (auto simp: automatic_range_def bounds_ok_def Let_def)
next
  case (Some p)
  then show ?thesis using balance_ok [OF assms(2) [OF Some]]
    by (auto simp: automatic_range_def bounds_ok_def Let_def split: prod.splits)
qed

definition no_negative :: "counter \<Rightarrow> bool" where
  "no_negative w \<longleftrightarrow> (\<forall>s. 0 \<le> cget w s)"

lemma no_negative_cput [intro]: "no_negative w \<Longrightarrow> 0 \<le> n \<Longrightarrow> no_negative (cput k n w)"
  by (simp add: no_negative_def)

lemma no_negativeD: "no_negative w \<Longrightarrow> 0 \<le> cget w s"
  by (simp add: no_negative_def)

lemma no_negative_if: "no_negative w \<Longrightarrow> no_negative w' \<Longrightarrow> no_negative (if p then w else w')"
  by simp

lemma no_negative_scaled: "no_negative w \<Longrightarrow> no_negative (if p then cput k ((cget w k * 5 + 3) div 4) w else w)"
  using no_negativeD [of w k] by (auto intro!: no_negative_cput)

lemma no_negative_listed: "\<forall>(s, n) \<in> set w. 0 \<le> n \<Longrightarrow> no_negative w"
  by (auto simp: no_negative_def cget_def dest!: map_of_SomeD split: option.split)

lemma revised_weights_ok:
  assumes "recipe_ok r"
  shows "no_negative (revised_weights revision r)"
proof -
  obtain a b c d where g: "er_groups r = (a, b, c, d)" by (metis prod_cases4)
  then have pos: "0 \<le> a" "0 \<le> b" "0 \<le> c" "0 \<le> d" using assms by (simp_all add: recipe_ok_def)
  have base: "no_negative (recipe_weights r)"
    by (rule no_negative_listed) (use pos in \<open>auto simp: recipe_weights_def g SPECIES_GROUPS_def\<close>)
  define w4 where "w4 = (let w = (if 3 \<le> revision then cput ''buff_pod'' (min c d) (recipe_weights r) else recipe_weights r)
    in if 4 \<le> revision then cput ''zombie_t1_screecher'' (min c d) w else w)"
  have "no_negative w4" unfolding w4_def Let_def by (intro no_negative_if no_negative_cput) (use base pos in simp_all)
  then have "no_negative (if 8 \<le> revision then cput ''turret'' (b div 2) (cput ''super_tentacle'' 0 (cput ''tentacle'' 0 w4)) else w4)" (is "no_negative ?w8")
    by (intro no_negative_if no_negative_cput) (use pos in simp_all)
  from no_negative_scaled [OF this] show ?thesis unfolding revised_weights_def g Let_def prod.case w4_def .
qed

lemma preset_weights_ok:
  assumes "recipe_ok r"
  shows "no_negative (preset_weights revision preset r)"
proof -
  define w where "w = (if preset = ''oops_all_imps'' then cput ''stone_imp'' 100 (cput ''imp'' 900 (revised_weights revision r))
            else if preset = ''pinata_party'' then
              (let others = filter (\<lambda>s. s \<notin> {''maykr_angel'', ''zombie_maykr'', ''blood_angel''} \<and> 0 < cget (revised_weights revision r) s) SPECIES_IDS;
                   n = int (length others)
               in cput ''blood_angel'' (15 * n) (cput ''zombie_maykr'' (80 * n) (map (\<lambda>s. (s, if s \<in> set others then 5 else 0)) SPECIES_IDS)))
            else revised_weights revision r)"
  have "no_negative w"
    unfolding w_def Let_def
    by (intro no_negative_if no_negative_cput revised_weights_ok [OF assms]) (auto intro!: no_negative_listed)
  moreover from no_negativeD [OF this] have "0 \<le> cget w ''chaingun_soldier'' div 5" by (simp add: pos_imp_zdiv_nonneg_iff)
  ultimately show ?thesis unfolding preset_weights_def Let_def w_def [unfolded Let_def, symmetric] by (rule no_negative_cput)
qed

lemma override_weights_ok: "override_weights overrides w = Inr w' \<Longrightarrow> no_negative w \<Longrightarrow> no_negative w'"
  by (induction overrides w rule: override_weights.induct)
    (auto split: if_splits dest!: integer_option_range intro!: no_negative_cput)

text \<open>Dividing by the common divisor keeps which weights are positive.\<close>

lemma fold_gcd_dvd: "fold gcd xs (g :: int) dvd g \<and> (\<forall>x \<in> set xs. fold gcd xs g dvd x)"
proof (induction xs arbitrary: g)
  case (Cons x xs)
  have "fold gcd xs (gcd x g) dvd gcd x g" using Cons by blast
  then have "fold gcd xs (gcd x g) dvd x" "fold gcd xs (gcd x g) dvd g" by (auto intro: dvd_trans)
  then show ?case using Cons [of "gcd x g"] by simp
qed simp

lemma fold_gcd_nonneg: "0 \<le> g \<Longrightarrow> 0 \<le> fold gcd xs (g :: int)"
  by (induction xs arbitrary: g) auto

lemma reduced_weights_positive:
  assumes "(s, n) \<in> set own" and "0 < n" and "distinct (map fst own)"
  shows "0 < cget (reduced_weights own) s"
proof -
  define g where "g = fold gcd (map snd own) 0"
  have dvd: "g dvd n" using fold_gcd_dvd [of "map snd own" 0] assms(1) by (force simp: g_def)
  have "0 \<le> g" by (simp add: g_def fold_gcd_nonneg)
  moreover have "g \<noteq> 0" using dvd assms(2) by auto
  ultimately have "0 < n div g" using dvd assms(2) by (simp add: pos_imp_zdiv_pos_iff zdvd_imp_le)
  moreover have "map_of (map (\<lambda>(s, n). (s, n div g)) own) s = Some (n div g)"
    using assms(1,3) by (intro map_of_is_SomeI) (auto simp: comp_def case_prod_unfold image_iff intro!: bexI [of _ "(s, n)"])
  ultimately show ?thesis using \<open>g \<noteq> 0\<close> by (simp add: reduced_weights_def cget_def g_def [symmetric] Let_def)
qed

lemma option_weights_ok:
  assumes w: "option_weights raw revision preset r enabled eligible = Inr weights" and r: "recipe_ok r"
    and "distinct eligible" and "enabled"
  shows "\<exists>s \<in> set eligible. 0 < cget weights s"
proof -
  obtain overrides all where "override_weights overrides (preset_weights revision preset r) = Inr all"
      and weights: "weights = reduced_weights (map (\<lambda>s. (s, cget all s)) eligible)"
      and some: "\<exists>s \<in> set eligible. cget all s \<noteq> 0"
    using w assms(4) by (auto simp: option_weights_def Let_def list_all_iff split: if_splits)
  then have "no_negative all" using override_weights_ok preset_weights_ok [OF r] by blast
  then obtain s where "s \<in> set eligible" "0 < cget all s" using some unfolding no_negative_def by (metis order_le_less)
  then have "0 < cget weights s" unfolding weights
    by (intro reduced_weights_positive) (use assms(3) in \<open>auto simp: comp_def\<close>)
  then show ?thesis using \<open>s \<in> set eligible\<close> by blast
qed

lemma species_costed: "species \<in> set SPECIES_IDS \<Longrightarrow> species \<in> fst ` set BASE_COMBAT_COST"
proof -
  have "set SPECIES_IDS \<subseteq> fst ` set BASE_COMBAT_COST"
    by (simp add: SPECIES_IDS_def SPECIES_GROUPS_def BASE_COMBAT_COST_def)
  then show "species \<in> set SPECIES_IDS \<Longrightarrow> species \<in> fst ` set BASE_COMBAT_COST" by blast
qed

lemma normalize_parts:
  assumes "normalize_enemy_options raw = Inr opts"
  shows "\<exists>revision preset r dlc hg dg sg zg. option_preset raw = Inr (preset, r) \<and>
    option_weights raw revision preset r (eo_enabled opts) (filter (\<lambda>s. dlc \<or> s \<notin> set DLC_SPECIES) SPECIES_IDS) = Inr (es_weights (eo_settings opts)) \<and>
    attribute_options raw ''health'' (automatic_range revision preset (if 6 \<le> revision then map_of BALANCE_PRESETS preset else None)
      (eo_progressive opts) ''health'' (er_health r)) (eo_progressive opts) = Inr (es_health (eo_settings opts), hg) \<and>
    attribute_options raw ''damage'' (automatic_range revision preset (if 6 \<le> revision then map_of BALANCE_PRESETS preset else None)
      (eo_progressive opts) ''damage'' (er_damage r)) (eo_progressive opts) = Inr (es_damage (eo_settings opts), dg) \<and>
    attribute_options raw ''speed'' (automatic_range revision preset (if 6 \<le> revision then map_of BALANCE_PRESETS preset else None)
      (eo_progressive opts) ''speed'' (er_speed r)) (eo_progressive opts) = Inr (es_speed (eo_settings opts), sg) \<and>
    attribute_options raw ''size'' (curve 100 100 100 100) (eo_progressive opts) = Inr (es_size (eo_settings opts), zg)"
  using assms unfolding normalize_enemy_options_def Let_def
  by (clarsimp simp only: bind_res_eq_Inr prod.case split_paired_Ex) (fastforce split: prod.splits)

lemma normalized_settings:
  assumes "normalize_enemy_options raw = Inr opts"
  shows "settings_ok (eo_settings opts) \<and> (eo_enabled opts \<longrightarrow> (\<exists>s \<in> set SPECIES_IDS. 0 < cget (es_weights (eo_settings opts)) s))"
proof -
  obtain revision preset r dlc hg dg sg zg where preset: "option_preset raw = Inr (preset, r)"
    and weights: "option_weights raw revision preset r (eo_enabled opts) (filter (\<lambda>s. dlc \<or> s \<notin> set DLC_SPECIES) SPECIES_IDS) = Inr (es_weights (eo_settings opts))"
    and health: "attribute_options raw ''health'' (automatic_range revision preset (if 6 \<le> revision then map_of BALANCE_PRESETS preset else None)
      (eo_progressive opts) ''health'' (er_health r)) (eo_progressive opts) = Inr (es_health (eo_settings opts), hg)"
    and damage: "attribute_options raw ''damage'' (automatic_range revision preset (if 6 \<le> revision then map_of BALANCE_PRESETS preset else None)
      (eo_progressive opts) ''damage'' (er_damage r)) (eo_progressive opts) = Inr (es_damage (eo_settings opts), dg)"
    and speed: "attribute_options raw ''speed'' (automatic_range revision preset (if 6 \<le> revision then map_of BALANCE_PRESETS preset else None)
      (eo_progressive opts) ''speed'' (er_speed r)) (eo_progressive opts) = Inr (es_speed (eo_settings opts), sg)"
    and size: "attribute_options raw ''size'' (curve 100 100 100 100) (eo_progressive opts) = Inr (es_size (eo_settings opts), zg)"
    using normalize_parts [OF assms] by blast
  have r: "recipe_ok r" using preset recipes_ok by (auto simp: option_preset_def Let_def split: pyval.splits option.splits if_splits)
  then have own: "bounds_ok (er_health r)" "bounds_ok (er_damage r)" "bounds_ok (er_speed r)" by (simp_all add: recipe_ok_def)
  have bal: "map_of BALANCE_PRESETS preset = Some p" if "(if 6 \<le> revision then map_of BALANCE_PRESETS preset else None) = Some p" for p
    using that by (simp split: if_splits)
  have "settings_ok (eo_settings opts)" unfolding settings_ok_def
    using attribute_options_ok [OF health automatic_range_ok [OF own(1) bal]] attribute_options_ok [OF damage automatic_range_ok [OF own(2) bal]]
      attribute_options_ok [OF speed automatic_range_ok [OF own(3) bal]] attribute_options_ok [OF size] by (simp add: bounds_ok_def)
  moreover have "\<exists>s \<in> set SPECIES_IDS. 0 < cget (es_weights (eo_settings opts)) s" if "eo_enabled opts"
  proof -
    have "distinct SPECIES_IDS" by (simp add: SPECIES_IDS_def)
    then show ?thesis using option_weights_ok [OF weights r _ that] by auto
  qed
  ultimately show ?thesis by blast
qed


definition sample_raw :: pydict where
  "sample_raw = [(''enemy_preset'', PStr ''icons_wrath''), (''enemy_health'', PDict [(''imp.minimum'', PInt 50), (''imp.maximum'', PInt 80)])]"

lemma sample_normalized: "\<exists>opts. normalize_enemy_options sample_raw = Inr opts \<and> eo_enabled opts"
proof -
  have "case normalize_enemy_options sample_raw of Inl e \<Rightarrow> False | Inr opts \<Rightarrow> eo_enabled opts" by code_simp
  then show ?thesis by (simp split: sum.splits)
qed


end
