(* ===== verification/Spec2Isabelle.thy ===== *)
theory Spec2Isabelle
  imports Command_Identity Command_Port Command_Spool DeathLink_Receive DeathLink_Session
    Death_Observation Delivery_Plan Inventory_Domain Materialization Materialization_Coordinator
    Ownership Receipt_Delivery Receipt_Ledger Receipt_Session Runtime_Context
    Reconciliation_Plan Session_State Weapon_Points Goals Fast_Travel Client_State_Store
    Rune_Reconciliation Killsanity Save_Records Ammo_Refill
    Enemy_Balance Publisher_Safety Campaign_Navigation Transient_Runs Level_Ready
    Location_Setup Checked_Visuals Bridge_Supervisor Enemy_Options
begin

text \<open>
  A model of the client-side core of the DOOM Eternal Archipelago mod: the Python policies
  under \<open>doom_eap/contracts\<close>, \<open>doom_eap/runtime\<close> and \<open>doom_eap/content\<close> that decide which
  received item is delivered to the game, when, under which identity and how often.

  \<^bold>\<open>How the parts interact.\<close> The Archipelago server replays the whole receipt history of a slot.
  \<open>Receipt_Session\<close> and \<open>Receipt_Ledger\<close> split it at the durable boundary and keep the ledger
  of processed receipts; \<open>Session_State\<close> normalizes the document that stores it.
  \<open>Delivery_Plan\<close> compiles an item to activation commands; \<open>Receipt_Delivery\<close> sends the
  commands of a new receipt as a resumable group, and \<open>Reconciliation_Plan\<close> compiles the
  commands that are replayed into a fresh save. Both publish through \<open>Command_Port\<close>, which the
  file queue of \<open>Command_Spool\<close> provides; \<open>Command_Identity\<close> builds and validates the names.
  \<open>Runtime_Context\<close> decides which map the game runs, when a native load is new and whether a
  materialization lease is held; under a lease \<open>Materialization\<close> compares the projected
  \<open>Ownership\<close> with the observation of \<open>Inventory_Domain\<close> and compiles the commands that repair
  what is missing, and \<open>Materialization_Coordinator\<close> publishes them at most once per lease;
  \<open>Rune_Reconciliation\<close> and \<open>Weapon_Points\<close> repair the two domains with a ledger of their own.
  \<open>Client_State_Store\<close> writes the document in which all of them persist. \<open>Goals\<close> decides when
  the slot is won, \<open>Fast_Travel\<close> when a map's travel menu is unlocked;
  \<open>Killsanity_Plan\<close> places the milestones that \<open>Killsanity\<close> counts kills towards.
  \<open>Save_Records\<close> decodes the records of a save, \<open>Save_Observer\<close> decides which slot is proven and
  which records completed since their baseline, and \<open>Save_Checks\<close> sends the masteries, challenges
  and aggregates that follow. \<open>Ammo_Refill\<close> spends a charge in the server's storage and then
  publishes the paid commands. \<open>Publisher_Contracts\<close> loads the effects that map events and
  terminals trigger, \<open>Publisher_Dispatch\<close> sends their locations and keeps the acknowledgements.
  \<open>Campaign_Plan\<close> validates the campaign of the room, \<open>Campaign\<close> projects which stages are
  unlocked from checks and items. \<open>Level_Ready\<close> admits the preparations that a level load needs, and
  \<open>Transient_Effects\<close> holds the temporary effects of received items, which \<open>Transient_Runs\<close> proves to be
  taken back. \<open>Location_Setup\<close> collects the placements of a connection, \<open>Checked_Visuals\<close> hides what
  is checked already in the running map, and \<open>Bridge_Supervisor\<close> is the launcher's side of the bridge
  process. \<open>Enemy_Options\<close> turns a player's options into the settings of the randomizer. When a room's enemies are randomized, \<open>Enemy_Draws\<close> samples
  species and attributes and \<open>Enemy_Budget\<close> decides how many bodies of which threat each native
  spawn carries; \<open>Enemy_Allocation\<close> and \<open>Enemy_Balance\<close> prove what these numbers guarantee.
  \<open>DeathLink_Session\<close> drives the receive machine \<open>DeathLink_Receive\<close>, and
  \<open>Death_Observation\<close> detects the local deaths it reports.

  \<^bold>\<open>Theories and sources\<close> (paths below \<open>src/doom_eap\<close>):
  \<^item> \<open>Prelude\<close>, \<open>PyValue\<close>, \<open>Sha256\<close>: exceptions, texts, JSON values and SHA-256, as far as the
    modules use them.
  \<^item> \<open>Command_Identity\<close>: \<open>contracts/command_publication.py\<close>.
  \<^item> \<open>Command_Spool\<close>: \<open>runtime/command_spool.py\<close>, with each fault point of the file operations
    and each moment at which the consumer may run.
  \<^item> \<open>Command_Port\<close>: \<open>runtime/reconciliation_publication.py\<close> over an interface.
  \<^item> \<open>Receipt_Session\<close>, \<open>Receipt_Ledger\<close>, \<open>Session_State\<close>, \<open>Reconciliation_Plan\<close>:
    \<open>runtime/item_reconciliation.py\<close>.
  \<^item> \<open>Delivery_Plan\<close>: \<open>contracts/foundation.py\<close> and \<open>content/item_classification.py\<close>.
  \<^item> \<open>Receipt_Delivery\<close>: \<open>runtime/receipt_delivery.py\<close>, \<open>contracts/receipt_delivery.py\<close>,
    \<open>runtime/receipt_publication.py\<close>.
  \<^item> \<open>Inventory_Domain\<close>, \<open>Ownership\<close>: \<open>contracts/inventory_domain.py\<close>, \<open>contracts/ownership.py\<close>,
    \<open>contracts/tag_prerequisites.py\<close> and \<open>effective_ownership\<close> of \<open>runtime/item_reconciliation.py\<close>.
  \<^item> \<open>Runtime_Context\<close>: \<open>contracts/runtime_context.py\<close> and \<open>runtime/lifecycle.py\<close>.
  \<^item> \<open>Materialization\<close>, \<open>Materialization_Coordinator\<close>: \<open>contracts/materialization.py\<close>,
    \<open>runtime/materialization.py\<close>, \<open>runtime/materialization_coordinator.py\<close>.
  \<^item> \<open>DeathLink_Receive\<close>, \<open>DeathLink_Session\<close>: \<open>runtime/deathlink_receive.py\<close>,
    \<open>runtime/deathlink_session.py\<close>, \<open>runtime/deathlink_publication.py\<close>.
  \<^item> \<open>Death_Observation\<close>: \<open>runtime/death_observation.py\<close>.
  \<^item> \<open>Client_State_Store\<close>: \<open>runtime/client_state_store.py\<close>, with a fault point at each file operation.
  \<^item> \<open>Weapon_Points\<close>: the receipt ledger of \<open>runtime/weapon_points.py\<close>.
  \<^item> \<open>Rune_Reconciliation\<close>: \<open>runtime/rune_reconciliation.py\<close>.
  \<^item> \<open>Goals\<close>: \<open>contracts/goal_policy.py\<close> and \<open>runtime/goal_progress.py\<close>.
  \<^item> \<open>Killsanity_Plan\<close>, \<open>Killsanity\<close>: \<open>content/killsanity_plan.py\<close>, \<open>runtime/killsanity.py\<close>.
  \<^item> \<open>Fast_Travel\<close>: \<open>runtime/fast_travel.py\<close>.
  \<^item> \<open>Save_Observer\<close>: \<open>contracts/save_observation.py\<close>, \<open>runtime/save_observer.py\<close>.
  \<^item> \<open>Save_Checks\<close>: \<open>runtime/save_checks.py\<close>, \<open>runtime/save_check_observation.py\<close>.
  \<^item> \<open>Save_Records\<close>: \<open>runtime/save_records.py\<close>.
  \<^item> \<open>Ammo_Refill\<close>: \<open>runtime/ammo_refill.py\<close>, \<open>runtime/ammo_adapters.py\<close>.
  \<^item> \<open>Publisher_Contracts\<close>, \<open>Publisher_Documents\<close>: \<open>contracts/publisher_contracts.py\<close>;
    \<open>Publisher_Dispatch\<close>, \<open>Publisher_Runs\<close>, \<open>Publisher_Safety\<close>: \<open>runtime/publisher_dispatch.py\<close>
    and its overlapping calls.
  \<^item> \<open>Campaign_Plan\<close>, \<open>Campaign\<close>, \<open>Campaign_Progress\<close>, \<open>Campaign_Navigation\<close>:
    \<open>runtime/unified_campaign.py\<close> and \<open>content/fortress_economy.py\<close>; the stage catalog and the
    Fortress policy are data files, arguments of the definitions.
  \<^item> \<open>Transient_Effects\<close>, \<open>Transient_Runs\<close>: \<open>runtime/transient_effects.py\<close>.
  \<^item> \<open>Level_Ready\<close>: \<open>runtime/level_ready.py\<close>, \<open>runtime/physical_checks.py\<close>.
  \<^item> \<open>Location_Setup\<close>: \<open>runtime/location_setup.py\<close> and its handlers in \<open>runtime/bridge_client.py\<close>;
    \<open>Checked_Visuals\<close>: \<open>runtime/checked_visuals.py\<close>; \<open>Bridge_Supervisor\<close>:
    \<open>launcher/launcher_supervisor.py\<close>.
  \<^item> \<open>Enemy_Options\<close>: \<open>content/enemy_options.py\<close>; \<open>Enemy_Draws\<close>: \<open>content/enemy_plan.py\<close>; \<open>Enemy_Budget\<close>: the arithmetic of
    \<open>content/native_enemy_balance.py\<close>.

  \<^bold>\<open>Conventions.\<close> State is a record passed explicitly; a raised exception is \<open>Inl\<close> of an
  exception with its class and the fixed part of its message; a callback is a function on a
  world. A coroutine is split at its awaits. Loops are recursive with a measure; none needs
  fuel. Clock readings are rationals, floats in documents are their printed text, characters
  are the code points below U+0100, logging is left out.

  \<^bold>\<open>Not modelled.\<close> The rest of the asyncio bridge client and of the launcher,
  which wire these policies to sockets, processes and windows; save decryption; the map and
  release tools; the native C++ side.
\<close>

end
